(* ===== verification/Prelude.thy ===== *)
theory Prelude
  imports Complex_Main "HOL-Library.Word" "HOL-Library.List_Lexorder"
begin

text \<open>
  The shared ground of the development: the exceptions the Python code raises, results that
  are either an exception or a value, sequencing of such results, and the generic facts on
  lists that several components use.

  A function of the source that may raise is a HOL function into \<open>'a res\<close>: \<open>Inl e\<close> is the
  raised exception, \<open>Inr x\<close> the returned value. The string inside an exception is the fixed
  part of the source's message; the interpolated values are left out.
\<close>

named_theorems res_simps "rules that compute results of sequenced operations"

section \<open>Exceptions and results\<close>

datatype exn =
    ValueError string
  | TypeError string
  | AttributeError string
  | KeyError string
  | IndexError string
  | AssertionError
  | UnicodeEncodeError
  | UnicodeDecodeError
  | JSONDecodeError
  | StructError
  | OverflowError
  | ZeroDivisionError
  | RuntimeError string
  | OSError string
  | FileExistsError string
  | PolicyViolation string
  | HTTPException int string
  | HTTPError string
  | SqliteError string
  | InvalidSignature
  | CryptoError
  | EOFError

text \<open>
  Python's subclass relation, for the \<open>except\<close> clauses: the two Unicode errors and the JSON
  error are subclasses of \<open>ValueError\<close>, and \<open>FileExistsError\<close> is one of \<open>OSError\<close>.
\<close>

fun is_ValueError :: "exn \<Rightarrow> bool" where
  "is_ValueError (ValueError _) = True"
| "is_ValueError UnicodeEncodeError = True"
| "is_ValueError UnicodeDecodeError = True"
| "is_ValueError JSONDecodeError = True"
| "is_ValueError _ = False"

fun is_TypeError :: "exn \<Rightarrow> bool" where
  "is_TypeError (TypeError _) = True"
| "is_TypeError _ = False"

fun is_OSError :: "exn \<Rightarrow> bool" where
  "is_OSError (OSError _) = True"
| "is_OSError (FileExistsError _) = True"
| "is_OSError _ = False"

type_synonym 'a res = "exn + 'a"

definition ebind :: "'a res \<Rightarrow> ('a \<Rightarrow> 'b res) \<Rightarrow> 'b res" where
  "ebind m f = (case m of Inl e \<Rightarrow> Inl e | Inr x \<Rightarrow> f x)"

lemma ebind_Inl [simp, res_simps]: "ebind (Inl e) f = Inl e"
  and ebind_Inr [simp, res_simps]: "ebind (Inr x) f = f x"
  by (simp_all add: ebind_def)

lemma ebind_cong [fundef_cong]:
  "m = m' \<Longrightarrow> (\<And>x. m' = Inr x \<Longrightarrow> f x = g x) \<Longrightarrow> ebind m f = ebind m' g"
  by (cases m') (auto simp: ebind_def)

lemma ebind_eq_Inr [res_simps]:
  "ebind m f = Inr y \<longleftrightarrow> (\<exists>x. m = Inr x \<and> f x = Inr y)"
  by (cases m) auto

lemma ebind_eq_Inl [res_simps]:
  "ebind m f = Inl e \<longleftrightarrow> m = Inl e \<or> (\<exists>x. m = Inr x \<and> f x = Inl e)"
  by (cases m) auto

lemma ebind_InrE: "ebind m f = Inr y \<Longrightarrow> (\<And>x. m = Inr x \<Longrightarrow> f x = Inr y \<Longrightarrow> P) \<Longrightarrow> P"
  by (cases m) auto

lemma ebind_assoc: "ebind (ebind m f) g = ebind m (\<lambda>x. ebind (f x) g)"
  by (cases m) auto

definition guard :: "bool \<Rightarrow> exn \<Rightarrow> unit res" where
  "guard c e = (if c then Inr () else Inl e)"

lemma guard_eq_Inr [simp, res_simps]: "guard c e = Inr u \<longleftrightarrow> c"
  and guard_eq_Inl [simp, res_simps]: "guard c e = Inl e' \<longleftrightarrow> \<not> c \<and> e' = e"
  by (auto simp: guard_def)

lemma guard_True [simp]: "guard True e = Inr ()"
  and guard_False [simp]: "guard False e = Inl e"
  by (simp_all add: guard_def)

definition is_ok :: "'a res \<Rightarrow> bool" where
  "is_ok r = (case r of Inl _ \<Rightarrow> False | Inr _ \<Rightarrow> True)"

lemma is_ok_simps [simp]: "\<not> is_ok (Inl e)" "is_ok (Inr x)"
  by (simp_all add: is_ok_def)

lemma is_ok_ex: "is_ok r \<longleftrightarrow> (\<exists>x. r = Inr x)"
  by (cases r) auto

text \<open>A \<open>for\<close> loop that collects results, in the order of the list.\<close>

fun mapM_res :: "('a \<Rightarrow> 'b res) \<Rightarrow> 'a list \<Rightarrow> 'b list res" where
  "mapM_res f [] = Inr []"
| "mapM_res f (x # xs) = ebind (f x) (\<lambda>y. ebind (mapM_res f xs) (\<lambda>ys. Inr (y # ys)))"

lemma mapM_res_cong [fundef_cong]:
  "xs = ys \<Longrightarrow> (\<And>x. x \<in> set ys \<Longrightarrow> f x = g x) \<Longrightarrow> mapM_res f xs = mapM_res g ys"
  by (induction xs arbitrary: ys) auto

lemma mapM_res_eq_Inr:
  "mapM_res f xs = Inr ys \<longleftrightarrow> list_all2 (\<lambda>x y. f x = Inr y) xs ys"
proof (induction xs arbitrary: ys)
  case Nil
  then show ?case by (cases ys) auto
next
  case (Cons x xs)
  then show ?case by (cases ys) (auto simp: ebind_eq_Inr)
qed

lemma mapM_res_pure: "(\<And>x. x \<in> set xs \<Longrightarrow> f x = Inr (g x)) \<Longrightarrow> mapM_res f xs = Inr (map g xs)"
  by (induction xs) auto

lemma mapM_res_length: "mapM_res f xs = Inr ys \<Longrightarrow> length ys = length xs"
  by (auto simp: mapM_res_eq_Inr list_all2_lengthD)

lemma mapM_res_append:
  "mapM_res f (xs @ ys) = ebind (mapM_res f xs) (\<lambda>as. ebind (mapM_res f ys) (\<lambda>bs. Inr (as @ bs)))"
proof (induction xs)
  case Nil
  then show ?case by (cases "mapM_res f ys") auto
next
  case (Cons x xs)
  then show ?case by (cases "f x") (auto simp: ebind_assoc)
qed

lemma mapM_res_all_ok:
  "(\<And>x. x \<in> set xs \<Longrightarrow> is_ok (f x)) \<Longrightarrow> is_ok (mapM_res f xs)"
proof (induction xs)
  case (Cons x xs)
  then have "is_ok (f x)" and "is_ok (mapM_res f xs)" by simp_all
  then show ?case by (auto simp: is_ok_ex)
qed simp

section \<open>Lists\<close>

definition prefixed :: "'a list \<Rightarrow> 'a list \<Rightarrow> bool" where
  "prefixed p xs \<longleftrightarrow> take (length p) xs = p"

lemma prefixed_append [simp]: "prefixed p (p @ xs)"
  by (simp add: prefixed_def)

lemma prefixed_iff: "prefixed p xs \<longleftrightarrow> (\<exists>r. xs = p @ r)"
  by (metis append_take_drop_id prefixed_append prefixed_def)

lemma prefixed_refl [simp]: "prefixed xs xs"
  by (simp add: prefixed_def)

lemma prefixed_trans: "prefixed xs ys \<Longrightarrow> prefixed ys zs \<Longrightarrow> prefixed xs zs"
  by (auto simp: prefixed_iff)

definition suffixed :: "'a list \<Rightarrow> 'a list \<Rightarrow> bool" where
  "suffixed s xs \<longleftrightarrow> length s \<le> length xs \<and> drop (length xs - length s) xs = s"

lemma suffixed_iff: "suffixed s xs \<longleftrightarrow> (\<exists>r. xs = r @ s)"
proof
  assume "suffixed s xs"
  then have "xs = take (length xs - length s) xs @ s"
    by (metis append_take_drop_id suffixed_def)
  then show "\<exists>r. xs = r @ s" ..
qed (auto simp: suffixed_def)

lemma nth_take_drop_split:
  "i < length xs \<Longrightarrow> xs = take i xs @ xs ! i # drop (Suc i) xs"
  by (simp add: id_take_nth_drop)

lemma append_eq_same_length:
  "length a = length c \<Longrightarrow> a @ b = c @ d \<longleftrightarrow> a = c \<and> b = d"
  by simp

lemma concat_replicate_same: "concat (replicate n [x]) = replicate n x"
  by (induction n) auto

section \<open>Encodings\<close>

text \<open>
  The contract every encoder/decoder pair of the code shares: on the values it is meant for,
  decoding gives back what was encoded. Two encodings that agree come from the same value.
\<close>

locale codec =
  fixes enc :: "'a \<Rightarrow> 'b res"
    and dec :: "'b \<Rightarrow> 'a res"
    and ok :: "'a \<Rightarrow> bool"
  assumes dec_enc: "ok x \<Longrightarrow> enc x = Inr y \<Longrightarrow> dec y = Inr x"
begin

lemma enc_inj: "ok x \<Longrightarrow> ok y \<Longrightarrow> enc x = Inr z \<Longrightarrow> enc y = Inr z \<Longrightarrow> x = y"
  using dec_enc by (metis Inr_inject)

lemma enc_inj_on: "inj_on (\<lambda>x. projr (enc x)) {x. ok x \<and> is_ok (enc x)}"
  by (rule inj_onI) (auto simp: is_ok_ex intro: enc_inj)

lemma mapM_dec_enc:
  "(\<And>x. x \<in> set xs \<Longrightarrow> ok x) \<Longrightarrow> mapM_res enc xs = Inr ys \<Longrightarrow> mapM_res dec ys = Inr xs"
proof (induction xs arbitrary: ys)
  case Nil
  then show ?case by simp
next
  case (Cons x xs)
  then obtain y ys' where "enc x = Inr y" "mapM_res enc xs = Inr ys'" "ys = y # ys'"
    by (auto simp: ebind_eq_Inr)
  moreover from Cons.prems have "ok x" by simp
  ultimately have "dec y = Inr x" by (simp add: dec_enc)
  moreover have "mapM_res dec ys' = Inr xs"
    using Cons \<open>mapM_res enc xs = Inr ys'\<close> by simp
  ultimately show ?case using \<open>ys = y # ys'\<close> by simp
qed

end

end
