(* ===== verification/PyStr.thy ===== *)
theory PyStr
  imports Prelude
begin

text \<open>
  What the program uses of Python's \<open>str\<close>, \<open>bytes\<close> and \<open>int\<close>.

  A \<open>str\<close> is the list of its code points (\<open>pystr\<close>, a list of naturals), so that lengths and
  indices count what Python's do and surrogates and zero-width characters are ordinary
  elements. \<open>bytes\<close> is a list of 8-bit words. \<open>u ''...''\<close> and \<open>bstr ''...''\<close> are the ASCII literals.
\<close>

type_synonym byte = "8 word"
type_synonym bytes = "byte list"
type_synonym pystr = "nat list"

definition u :: "string \<Rightarrow> pystr" where
  "u s = map of_char s"

definition bstr :: "string \<Rightarrow> bytes" where
  "bstr s = map of_char s"

lemma u_inject [simp]: "u s = u t \<longleftrightarrow> s = t"
  by (simp add: u_def inj_map_eq_map inj_on_def)

lemma u_Nil [simp]: "u [] = []"
  by (simp add: u_def)

lemma u_eq_Nil [simp]: "u s = [] \<longleftrightarrow> s = []" "[] = u s \<longleftrightarrow> s = []"
  by (auto simp: u_def)

lemma length_u [simp]: "length (u s) = length s"
  by (simp add: u_def)

lemma u_bound: "c \<in> set (u s) \<Longrightarrow> c < 256"
  by (auto simp: u_def)

text \<open>\<open>sep.join(parts)\<close>\<close>

fun join :: "'a list \<Rightarrow> 'a list list \<Rightarrow> 'a list" where
  "join sep [] = []"
| "join sep [x] = x"
| "join sep (x # y # zs) = x @ sep @ join sep (y # zs)"

lemma join_Cons: "zs \<noteq> [] \<Longrightarrow> join sep (x # zs) = x @ sep @ join sep zs"
  by (cases zs) auto

section \<open>Numbers as text\<close>

fun nat_digits :: "nat \<Rightarrow> pystr" where
  "nat_digits n = (if n < 10 then [48 + n] else nat_digits (n div 10) @ [48 + n mod 10])"

declare nat_digits.simps [simp del]

definition int_str :: "int \<Rightarrow> pystr" where
  "int_str i = (if i < 0 then 45 # nat_digits (nat (- i)) else nat_digits (nat i))"

definition is_digit :: "nat \<Rightarrow> bool" where
  "is_digit c \<longleftrightarrow> 48 \<le> c \<and> c \<le> 57"

definition digits_val :: "pystr \<Rightarrow> nat" where
  "digits_val ds = foldl (\<lambda>acc c. 10 * acc + (c - 48)) 0 ds"

lemma digits_val_snoc [simp]: "digits_val (ds @ [c]) = 10 * digits_val ds + (c - 48)"
  by (simp add: digits_val_def)

lemma nat_digits_val [simp]: "digits_val (nat_digits n) = n"
proof (induction n rule: nat_digits.induct)
  case (1 n)
  then show ?case
    by (subst nat_digits.simps) (auto simp: digits_val_def)
qed

lemma nat_digits_digit: "c \<in> set (nat_digits n) \<Longrightarrow> is_digit c"
proof (induction n rule: nat_digits.induct)
  case (1 n)
  from "1.prems" show ?case
    by (subst (asm) nat_digits.simps) (use "1.IH" in \<open>auto simp: is_digit_def split: if_splits\<close>)
qed

lemma nat_digits_ne [simp]: "nat_digits n \<noteq> []"
  by (subst nat_digits.simps) simp

lemma nat_digits_hd: "n \<noteq> 0 \<Longrightarrow> hd (nat_digits n) \<noteq> 48"
proof (induction n rule: nat_digits.induct)
  case (1 n)
  then show ?case by (subst nat_digits.simps) (auto simp: hd_append)
qed

lemma nat_digits_0 [simp]: "nat_digits 0 = [48]"
  by (simp add: nat_digits.simps)

section \<open>Hexadecimal\<close>

definition hex_digit :: "nat \<Rightarrow> nat" where
  "hex_digit n = (if n < 10 then 48 + n else 87 + n)"

text \<open>Digits of either case, as \<open>bytes.fromhex\<close> and JSON's \<open>\u\<close> escapes read them.\<close>

definition hex_val :: "nat \<Rightarrow> nat option" where
  "hex_val c =
     (if 48 \<le> c \<and> c \<le> 57 then Some (c - 48)
      else if 97 \<le> c \<and> c \<le> 102 then Some (c - 87)
      else if 65 \<le> c \<and> c \<le> 70 then Some (c - 55)
      else None)"

lemma hex_val_digit [simp]: "n < 16 \<Longrightarrow> hex_val (hex_digit n) = Some n"
  by (auto simp: hex_val_def hex_digit_def)

lemma hex_val_bound: "hex_val c = Some n \<Longrightarrow> n < 16"
  by (auto simp: hex_val_def split: if_splits)

definition byte_hex :: "byte \<Rightarrow> pystr" where
  "byte_hex x = [hex_digit (unat x div 16), hex_digit (unat x mod 16)]"

definition hex :: "bytes \<Rightarrow> pystr" where
  "hex xs = concat (map byte_hex xs)"

text \<open>\<open>bytes.fromhex\<close> skips ASCII white space in front of each pair of digits.\<close>

definition ascii_space :: "nat \<Rightarrow> bool" where
  "ascii_space c \<longleftrightarrow> c = 32 \<or> (9 \<le> c \<and> c \<le> 13)"

fun fromhex :: "pystr \<Rightarrow> bytes res" where
  "fromhex [] = Inr []"
| "fromhex [c] = (if ascii_space c then Inr [] else Inl (ValueError ''non-hexadecimal number''))"
| "fromhex (c # d # s) =
     (if ascii_space c then fromhex (d # s)
      else case (hex_val c, hex_val d) of
          (Some hi, Some lo) \<Rightarrow> ebind (fromhex s) (\<lambda>xs. Inr (of_nat (16 * hi + lo) # xs))
        | _ \<Rightarrow> Inl (ValueError ''non-hexadecimal number''))"

lemma byte_bound [simp]: "unat (x :: byte) < 256"
  using unsigned_less [where 'a = nat and w = x] by simp

lemma hex_digit_not_space [simp]: "\<not> ascii_space (hex_digit n)"
  by (auto simp: ascii_space_def hex_digit_def)

lemma hex_Nil [simp]: "hex [] = []"
  and hex_Cons: "hex (x # xs) = byte_hex x @ hex xs"
  by (simp_all add: hex_def)

lemma fromhex_byte: "fromhex (byte_hex x @ s) = ebind (fromhex s) (\<lambda>xs. Inr (x # xs))"
proof -
  have "unat x div 16 < 16" using byte_bound [of x] by linarith
  moreover have "16 * (unat x div 16) + unat x mod 16 = unat x" by simp
  ultimately show ?thesis
    by (simp add: byte_hex_def)
qed

lemma fromhex_hex [simp]: "fromhex (hex xs) = Inr xs"
  by (induction xs) (simp_all add: hex_Cons fromhex_byte)

interpretation hexc: codec "\<lambda>x. Inr (hex x)" fromhex "\<lambda>_. True"
  by unfold_locales auto

lemma hex_inject [simp]: "hex x = hex y \<longleftrightarrow> x = y"
  using hexc.enc_inj [where x = x and y = y] by auto

lemma length_hex [simp]: "length (hex xs) = 2 * length xs"
  by (induction xs) (simp_all add: hex_Cons byte_hex_def)

section \<open>Big-endian 32-bit lengths (\<open>struct.pack(">I")\<close>, \<open>int.to_bytes(4, "big")\<close>)\<close>

definition be32 :: "nat \<Rightarrow> bytes" where
  "be32 n = [of_nat (n div 16777216 mod 256), of_nat (n div 65536 mod 256),
             of_nat (n div 256 mod 256), of_nat (n mod 256)]"

definition pack_u32 :: "nat \<Rightarrow> bytes res" where
  "pack_u32 n = (if n < 4294967296 then Inr (be32 n) else Inl StructError)"

definition bytes_nat :: "bytes \<Rightarrow> nat" where
  "bytes_nat xs = foldl (\<lambda>acc x. 256 * acc + unat x) 0 xs"

definition unpack_u32 :: "bytes \<Rightarrow> nat res" where
  "unpack_u32 xs = (if length xs = 4 then Inr (bytes_nat xs) else Inl StructError)"

lemma unat_of_nat_byte: "n < 256 \<Longrightarrow> unat (of_nat n :: byte) = n"
  by (simp add: unat_of_nat)

lemma length_be32 [simp]: "length (be32 n) = 4"
  by (simp add: be32_def)

lemma bytes_nat_be32: "n < 4294967296 \<Longrightarrow> bytes_nat (be32 n) = n"
proof -
  assume "n < 4294967296"
  then have top: "n div 16777216 < 256" "n div 16777216 mod 256 = n div 16777216" by simp_all
  moreover note top(2)
  moreover have "n div 65536 mod 256 + 256 * (n div 16777216) = n div 65536"
    by (simp add: div_mult2_eq [of n 65536 256, simplified])
  moreover have "n div 256 mod 256 + 256 * (n div 65536) = n div 256"
    by (simp add: div_mult2_eq [of n 256 256, simplified])
  moreover have "n mod 256 + 256 * (n div 256) = n" by simp
  ultimately have "16777216 * (n div 16777216) + 65536 * (n div 65536 mod 256) +
      256 * (n div 256 mod 256) + n mod 256 = n"
    by linarith
  with top show ?thesis
    by (simp add: bytes_nat_def be32_def unat_of_nat_byte)
qed

lemma bytes_nat_bound: "bytes_nat xs < 256 ^ length xs"
proof (induction xs rule: rev_induct)
  case (snoc x xs)
  have "unat x < 256" by simp
  then have "256 * bytes_nat xs + unat x < 256 * (bytes_nat xs + 1)" by simp
  also have "\<dots> \<le> 256 * 256 ^ length xs" using snoc by simp
  finally show ?case by (simp add: bytes_nat_def)
qed (simp add: bytes_nat_def)

interpretation u32: codec pack_u32 unpack_u32 "\<lambda>_. True"
  by unfold_locales (auto simp: pack_u32_def unpack_u32_def bytes_nat_be32 split: if_splits)

end
