(* ===== verification/Unicode.thy ===== *)
theory Unicode
  imports PyStr
begin

text \<open>
  UTF-8 and UTF-16 as Python's codecs have them: \<open>str.encode("utf-8")\<close>,
  \<open>bytes.decode("utf-8")\<close> in its strict mode and with \<open>errors="replace"\<close>, and
  \<open>str.encode("utf-16-be")\<close>, which the canonical JSON uses as its sort key. Encoding a lone
  surrogate raises; decoding follows the table of well-formed byte sequences, and replacement
  puts one U+FFFD for each maximal invalid piece.
\<close>

definition is_surrogate :: "nat \<Rightarrow> bool" where
  "is_surrogate c \<longleftrightarrow> 0xD800 \<le> c \<and> c \<le> 0xDFFF"

definition is_scalar :: "nat \<Rightarrow> bool" where
  "is_scalar c \<longleftrightarrow> c \<le> 0x10FFFF \<and> \<not> is_surrogate c"

section \<open>UTF-8\<close>

definition utf8_char :: "nat \<Rightarrow> bytes" where
  "utf8_char c =
     (if c < 0x80 then [of_nat c]
      else if c < 0x800 then [of_nat (0xC0 + c div 64), of_nat (0x80 + c mod 64)]
      else if c < 0x10000 then
        [of_nat (0xE0 + c div 4096), of_nat (0x80 + c div 64 mod 64), of_nat (0x80 + c mod 64)]
      else
        [of_nat (0xF0 + c div 262144), of_nat (0x80 + c div 4096 mod 64),
         of_nat (0x80 + c div 64 mod 64), of_nat (0x80 + c mod 64)])"

fun utf8_encode :: "pystr \<Rightarrow> bytes res" where
  "utf8_encode [] = Inr []"
| "utf8_encode (c # s) =
     (if is_scalar c then ebind (utf8_encode s) (\<lambda>bs. Inr (utf8_char c @ bs))
      else Inl UnicodeEncodeError)"

definition between :: "nat \<Rightarrow> nat \<Rightarrow> byte \<Rightarrow> bool" where
  "between lo hi x \<longleftrightarrow> lo \<le> unat x \<and> unat x \<le> hi"

text \<open>
  One step of the decoder on the byte \<open>x\<close> and what follows: \<open>Inr (c, rest)\<close> for a character,
  \<open>Inl rest\<close> for an invalid piece, with what is left behind it.
\<close>

definition utf8_step :: "byte \<Rightarrow> bytes \<Rightarrow> bytes + nat \<times> bytes" where
  "utf8_step x bs =
     (let n = unat x in
      if n < 0x80 then Inr (n, bs)
      else if 0xC2 \<le> n \<and> n \<le> 0xDF then
        (case bs of
           b1 # r1 \<Rightarrow> if between 0x80 0xBF b1 then Inr ((n - 0xC0) * 64 + (unat b1 - 0x80), r1)
                      else Inl bs
         | [] \<Rightarrow> Inl [])
      else if 0xE0 \<le> n \<and> n \<le> 0xEF then
        (case bs of
           b1 # r1 \<Rightarrow>
             if between (if n = 0xE0 then 0xA0 else 0x80) (if n = 0xED then 0x9F else 0xBF) b1 then
               (case r1 of
                  b2 # r2 \<Rightarrow>
                    if between 0x80 0xBF b2 then
                      Inr ((n - 0xE0) * 4096 + (unat b1 - 0x80) * 64 + (unat b2 - 0x80), r2)
                    else Inl r1
                | [] \<Rightarrow> Inl [])
             else Inl bs
         | [] \<Rightarrow> Inl [])
      else if 0xF0 \<le> n \<and> n \<le> 0xF4 then
        (case bs of
           b1 # r1 \<Rightarrow>
             if between (if n = 0xF0 then 0x90 else 0x80) (if n = 0xF4 then 0x8F else 0xBF) b1 then
               (case r1 of
                  b2 # r2 \<Rightarrow>
                    if between 0x80 0xBF b2 then
                      (case r2 of
                         b3 # r3 \<Rightarrow>
                           if between 0x80 0xBF b3 then
                             Inr ((n - 0xF0) * 262144 + (unat b1 - 0x80) * 4096
                                  + (unat b2 - 0x80) * 64 + (unat b3 - 0x80), r3)
                           else Inl r2
                       | [] \<Rightarrow> Inl [])
                    else Inl r1
                | [] \<Rightarrow> Inl [])
             else Inl bs
         | [] \<Rightarrow> Inl [])
      else Inl bs)"

lemma utf8_step_shorter:
  "utf8_step x bs = Inr (c, r) \<Longrightarrow> length r \<le> length bs"
  "utf8_step x bs = Inl r \<Longrightarrow> length r \<le> length bs"
  by (auto simp: utf8_step_def Let_def split: if_splits list.splits)

function utf8_decode :: "bytes \<Rightarrow> pystr res" where
  "utf8_decode [] = Inr []"
| "utf8_decode (x # bs) =
     (case utf8_step x bs of
        Inl _ \<Rightarrow> Inl UnicodeDecodeError
      | Inr (c, r) \<Rightarrow> ebind (utf8_decode r) (\<lambda>s. Inr (c # s)))"
  by pat_completeness auto
termination
  by (relation "measure length") (auto dest!: utf8_step_shorter)

function utf8_decode_replace :: "bytes \<Rightarrow> pystr" where
  "utf8_decode_replace [] = []"
| "utf8_decode_replace (x # bs) =
     (case utf8_step x bs of
        Inl r \<Rightarrow> 0xFFFD # utf8_decode_replace r
      | Inr (c, r) \<Rightarrow> c # utf8_decode_replace r)"
  by pat_completeness auto
termination
  by (relation "measure length") (auto dest!: utf8_step_shorter)

text \<open>Decoding one encoded character, whatever follows it.\<close>

lemma utf8_step1: "c < 0x80 \<Longrightarrow> utf8_step (of_nat c) bs = Inr (c, bs)"
  by (simp add: utf8_step_def unat_of_nat_byte)

lemma utf8_step2:
  assumes "0x80 \<le> c" "c < 0x800"
  shows "utf8_step (of_nat (0xC0 + c div 64)) (of_nat (0x80 + c mod 64) # bs) = Inr (c, bs)"
proof -
  have "2 \<le> c div 64" "c div 64 < 32" using assms by auto
  moreover have "c mod 64 < 64" by simp
  ultimately have "0xC0 + c div 64 < 256" and "0x80 + c mod 64 < 256" by linarith+
  then have "unat (of_nat (0xC0 + c div 64) :: byte) = 0xC0 + c div 64"
    and "unat (of_nat (0x80 + c mod 64) :: byte) = 0x80 + c mod 64"
    by (simp_all only: unat_of_nat_byte)
  with \<open>2 \<le> c div 64\<close> \<open>c div 64 < 32\<close> \<open>c mod 64 < 64\<close> show ?thesis
    by (simp add: utf8_step_def between_def del: of_nat_add)
qed

lemma div_4096: "c div 4096 = c div 64 div (64 :: nat)"
  and div_262144: "c div 262144 = c div 4096 div (64 :: nat)"
  by (simp_all add: div_mult2_eq [symmetric])

lemma utf8_step3:
  assumes "0x800 \<le> c" "c < 0x10000" "\<not> is_surrogate c"
  shows "utf8_step (of_nat (0xE0 + c div 4096))
    (of_nat (0x80 + c div 64 mod 64) # of_nat (0x80 + c mod 64) # bs) = Inr (c, bs)"
proof -
  define p q r where "p = c div 4096" and "q = c div 64 mod 64" and "r = c mod 64"
  have c: "c = p * 4096 + q * 64 + r"
    using mod_div_mult_eq [of c 64] mod_div_mult_eq [of "c div 64" 64] div_4096 [of c]
    unfolding p_def q_def r_def by linarith
  have b: "p < 16" "q < 64" "r < 64" using assms by (auto simp: p_def q_def r_def)
  have lo: "p = 0 \<Longrightarrow> 32 \<le> q" using assms c b by linarith
  have hi: "p = 13 \<Longrightarrow> q < 32" using assms(3) c b by (auto simp: is_surrogate_def)
  have n: "unat (of_nat (0xE0 + p) :: byte) = 0xE0 + p"
    "unat (of_nat (0x80 + q) :: byte) = 0x80 + q" "unat (of_nat (0x80 + r) :: byte) = 0x80 + r"
    by (rule unat_of_nat_byte, use b in linarith)+
  have "utf8_step (of_nat (0xE0 + p)) (of_nat (0x80 + q) # of_nat (0x80 + r) # bs)
      = Inr (p * 4096 + q * 64 + r, bs)"
    using b lo hi by (auto simp: utf8_step_def between_def n simp del: of_nat_add)
  then show ?thesis unfolding c [symmetric] unfolding p_def q_def r_def .
qed

lemma utf8_step4:
  assumes "0x10000 \<le> c" "c \<le> 0x10FFFF"
  shows "utf8_step (of_nat (0xF0 + c div 262144)) (of_nat (0x80 + c div 4096 mod 64) #
    of_nat (0x80 + c div 64 mod 64) # of_nat (0x80 + c mod 64) # bs) = Inr (c, bs)"
proof -
  define p q r t where "p = c div 262144" and "q = c div 4096 mod 64"
    and "r = c div 64 mod 64" and "t = c mod 64"
  have c: "c = p * 262144 + q * 4096 + r * 64 + t"
    using mod_div_mult_eq [of c 64] mod_div_mult_eq [of "c div 64" 64]
      mod_div_mult_eq [of "c div 4096" 64] div_4096 [of c] div_262144 [of c]
    unfolding p_def q_def r_def t_def by linarith
  have b: "p < 5" "q < 64" "r < 64" "t < 64" using assms by (auto simp: p_def q_def r_def t_def)
  have lo: "p = 0 \<Longrightarrow> 16 \<le> q" using assms c b by linarith
  have hi: "p = 4 \<Longrightarrow> q < 16" using assms c b by linarith
  have n: "unat (of_nat (0xF0 + p) :: byte) = 0xF0 + p"
    "unat (of_nat (0x80 + q) :: byte) = 0x80 + q" "unat (of_nat (0x80 + r) :: byte) = 0x80 + r"
    "unat (of_nat (0x80 + t) :: byte) = 0x80 + t"
    by (rule unat_of_nat_byte, use b in linarith)+
  have "utf8_step (of_nat (0xF0 + p)) (of_nat (0x80 + q) # of_nat (0x80 + r) # of_nat (0x80 + t) # bs)
      = Inr (p * 262144 + q * 4096 + r * 64 + t, bs)"
    using b lo hi by (auto simp: utf8_step_def between_def n simp del: of_nat_add)
  then show ?thesis unfolding c [symmetric] unfolding p_def q_def r_def t_def .
qed

lemmas utf8_steps = utf8_step1 utf8_step2 utf8_step3 utf8_step4

lemma utf8_decode_char:
  assumes "is_scalar c"
  shows "utf8_decode (utf8_char c @ bs) = ebind (utf8_decode bs) (\<lambda>s. Inr (c # s))"
  using assms unfolding is_scalar_def utf8_char_def
  by (auto simp: utf8_steps simp del: of_nat_add of_nat_numeral)

lemma utf8_decode_encode: "utf8_encode s = Inr bs \<Longrightarrow> utf8_decode bs = Inr s"
  by (induction s arbitrary: bs) (auto simp: ebind_eq_Inr utf8_decode_char split: if_splits)

interpretation utf8: codec utf8_encode utf8_decode "\<lambda>_. True"
  by unfold_locales (rule utf8_decode_encode)

lemma utf8_encode_ok_iff: "is_ok (utf8_encode s) \<longleftrightarrow> (\<forall>c\<in>set s. is_scalar c)"
proof (induction s)
  case (Cons c s)
  then show ?case by (cases "utf8_encode s") auto
qed simp

lemma utf8_encode_append:
  "utf8_encode (s @ t) = ebind (utf8_encode s) (\<lambda>x. ebind (utf8_encode t) (\<lambda>y. Inr (x @ y)))"
proof (induction s)
  case Nil
  then show ?case by (cases "utf8_encode t") auto
next
  case (Cons c s)
  then show ?case
    by (cases "is_scalar c"; cases "utf8_encode s"; cases "utf8_encode t"; simp)
qed

lemma utf8_encode_ascii: "(\<forall>c\<in>set s. c < 128) \<Longrightarrow> utf8_encode s = Inr (map of_nat s)"
  by (induction s) (auto simp: is_scalar_def is_surrogate_def utf8_char_def)

section \<open>UTF-16\<close>

definition be16 :: "nat \<Rightarrow> bytes" where
  "be16 n = [of_nat (n div 256), of_nat (n mod 256)]"

definition utf16_char :: "nat \<Rightarrow> bytes" where
  "utf16_char c =
     (if c < 0x10000 then be16 c
      else be16 (0xD800 + (c - 0x10000) div 1024) @ be16 (0xDC00 + (c - 0x10000) mod 1024))"

fun utf16be :: "pystr \<Rightarrow> bytes res" where
  "utf16be [] = Inr []"
| "utf16be (c # s) =
     (if is_scalar c then ebind (utf16be s) (\<lambda>bs. Inr (utf16_char c @ bs))
      else Inl UnicodeEncodeError)"

lemma utf16be_ok_iff: "is_ok (utf16be s) \<longleftrightarrow> (\<forall>c\<in>set s. is_scalar c)"
proof (induction s)
  case (Cons c s)
  then show ?case by (cases "utf16be s") auto
qed simp

lemma be16_inject: "m < 65536 \<Longrightarrow> n < 65536 \<Longrightarrow> be16 m = be16 n \<longleftrightarrow> m = n"
proof
  assume mn: "m < 65536" "n < 65536" and eq: "be16 m = be16 n"
  then have "unat (of_nat (m div 256) :: byte) = unat (of_nat (n div 256) :: byte)"
    and "unat (of_nat (m mod 256) :: byte) = unat (of_nat (n mod 256) :: byte)"
    by (simp_all add: be16_def)
  then have "m div 256 = n div 256" "m mod 256 = n mod 256"
    using mn by (simp_all add: unat_of_nat_byte less_mult_imp_div_less)
  then show "m = n" by (metis div_mult_mod_eq)
qed simp

lemma utf16_char_split:
  assumes "is_scalar c" "is_scalar d" "utf16_char c @ x = utf16_char d @ y"
  shows "c = d \<and> x = y"
proof -
  let ?h = "\<lambda>c. 0xD800 + (c - 0x10000) div 1024" and ?l = "\<lambda>c. 0xDC00 + (c - 0x10000) mod 1024"
  have l: "?l c < 65536" for c :: nat
    using mod_less_divisor [of 1024 "c - 0x10000"] by linarith
  have h: "?h c < 65536" "?h c \<le> 0xDBFF" if "c \<le> 0x10FFFF" for c :: nat
    using that by (auto simp: div_le_mono less_mult_imp_div_less)
  have len: "length (be16 n) = 2" for n by (simp add: be16_def)
  have s: "c \<le> 0x10FFFF" "d \<le> 0x10FFFF" using assms by (auto simp: is_scalar_def)
  consider "c < 0x10000" "d < 0x10000" | "c < 0x10000" "\<not> d < 0x10000"
    | "\<not> c < 0x10000" "d < 0x10000" | "\<not> c < 0x10000" "\<not> d < 0x10000" by blast
  then show ?thesis
  proof cases
    case 1
    then show ?thesis using assms(3) by (auto simp: utf16_char_def len be16_inject)
  next
    case 2
    then have "be16 c = be16 (?h d)" using assms(3) by (auto simp: utf16_char_def len)
    then have "c = ?h d" using 2 h s by (simp add: be16_inject)
    then show ?thesis using assms(1) h s by (auto simp: is_scalar_def is_surrogate_def)
  next
    case 3
    then have "be16 d = be16 (?h c)" using assms(3) by (auto simp: utf16_char_def len)
    then have "d = ?h c" using 3 h s by (simp add: be16_inject)
    then show ?thesis using assms(2) h s by (auto simp: is_scalar_def is_surrogate_def)
  next
    case 4
    then have "be16 (?h c) = be16 (?h d)" "be16 (?l c) = be16 (?l d)" "x = y"
      using assms(3) by (auto simp: utf16_char_def len)
    then have "?h c = ?h d" "?l c = ?l d" using h l s by (simp_all only: be16_inject)
    then have "c - 0x10000 = d - 0x10000" by (metis add_left_cancel div_mult_mod_eq)
    with 4 \<open>x = y\<close> show ?thesis by simp
  qed
qed

lemma utf16be_inject: "utf16be s = Inr x \<Longrightarrow> utf16be t = Inr x \<Longrightarrow> s = t"
proof (induction s arbitrary: t x)
  case Nil
  then show ?case
    by (cases t) (auto simp: ebind_eq_Inr utf16_char_def be16_def split: if_splits)
next
  case (Cons c s)
  then obtain d t' where t: "t = d # t'"
    by (cases t) (auto simp: ebind_eq_Inr utf16_char_def be16_def split: if_splits)
  with Cons.prems obtain y z where "is_scalar c" "is_scalar d" "utf16be s = Inr y" "utf16be t' = Inr z"
    and eq: "utf16_char c @ y = utf16_char d @ z"
    by (auto simp: ebind_eq_Inr split: if_splits)
  with utf16_char_split [OF _ _ eq] Cons.IH [of y t'] t show ?case by auto
qed

section \<open>What the decoder returns\<close>

lemma utf8_step_scalar: "utf8_step x bs = Inr (c, r) \<Longrightarrow> is_scalar c"
proof -
  assume s: "utf8_step x bs = Inr (c, r)"
  have x: "unat x < 256" by simp
  consider "unat x < 0x80" | "0xC2 \<le> unat x" "unat x \<le> 0xDF" | "0xE0 \<le> unat x" "unat x \<le> 0xEF"
    | "0xF0 \<le> unat x" "unat x \<le> 0xF4" | "0xF4 < unat x \<or> (0x80 \<le> unat x \<and> unat x < 0xC2)" by linarith
  then show ?thesis
  proof cases
    case 1
    then show ?thesis using s by (simp add: utf8_step_def is_scalar_def is_surrogate_def)
  next
    case 2
    then obtain b1 where "c = (unat x - 0xC0) * 64 + (unat b1 - 0x80)" "between 0x80 0xBF b1"
      using s by (auto simp: utf8_step_def split: list.splits if_splits)
    then have "c < 0x800" using 2 by (auto simp: between_def)
    then show ?thesis by (simp add: is_scalar_def is_surrogate_def)
  next
    case 3
    then obtain b1 b2 where c: "c = (unat x - 0xE0) * 4096 + (unat b1 - 0x80) * 64 + (unat b2 - 0x80)"
        "between 0x80 0xBF b2" "between 0x80 (if unat x = 0xED then 0x9F else 0xBF) b1"
      using s by (auto simp: utf8_step_def Let_def between_def split: list.splits if_splits)
    have "c < 0xD800 \<or> 0xE000 \<le> c"
    proof (cases "unat x \<le> 0xED")
      case True
      then have "c < 0xD800" using c 3 by (cases "unat x = 0xED") (auto simp: between_def)
      then show ?thesis ..
    next
      case False
      then have "(0xE :: nat) * 4096 \<le> (unat x - 0xE0) * 4096" by (intro mult_right_mono) auto
      then show ?thesis using c by auto
    qed
    moreover have "c < 0x10000" using c 3 by (auto simp: between_def split: if_splits)
    ultimately show ?thesis by (auto simp: is_scalar_def is_surrogate_def)
  next
    case 4
    then obtain b1 b2 b3 where c: "c = (unat x - 0xF0) * 262144 + (unat b1 - 0x80) * 4096
           + (unat b2 - 0x80) * 64 + (unat b3 - 0x80)"
        "between 0x80 0xBF b2" "between 0x80 0xBF b3"
        "between (if unat x = 0xF0 then 0x90 else 0x80) (if unat x = 0xF4 then 0x8F else 0xBF) b1"
      using s by (auto simp: utf8_step_def Let_def between_def split: list.splits if_splits)
    have "0x10000 \<le> c"
    proof (cases "unat x = 0xF0")
      case True
      then have "(0x10 :: nat) * 4096 \<le> (unat b1 - 0x80) * 4096"
        using c by (intro mult_right_mono) (auto simp: between_def)
      then show ?thesis using c by auto
    next
      case False
      then have "(1 :: nat) * 262144 \<le> (unat x - 0xF0) * 262144" using 4 by (intro mult_right_mono) auto
      then show ?thesis using c by auto
    qed
    moreover have "c \<le> 0x10FFFF"
    proof (cases "unat x = 0xF4")
      case True
      then show ?thesis using c by (auto simp: between_def)
    next
      case False
      then show ?thesis using c 4 by (auto simp: between_def split: if_splits)
    qed
    ultimately show ?thesis by (auto simp: is_scalar_def is_surrogate_def)
  next
    case 5
    then show ?thesis using s by (auto simp: utf8_step_def)
  qed
qed

lemma utf8_decode_replace_scalar: "c \<in> set (utf8_decode_replace bs) \<Longrightarrow> is_scalar c"
  by (induction bs rule: utf8_decode_replace.induct)
     (auto simp: is_scalar_def is_surrogate_def dest: utf8_step_scalar [unfolded is_scalar_def is_surrogate_def]
       split: sum.splits prod.splits if_splits)

lemma utf8_decode_scalar: "utf8_decode bs = Inr s \<Longrightarrow> c \<in> set s \<Longrightarrow> is_scalar c"
proof (induction bs arbitrary: s rule: utf8_decode.induct)
  case (2 x bs)
  then obtain d r t where "utf8_step x bs = Inr (d, r)" "utf8_decode r = Inr t" "s = d # t"
    by (auto simp: ebind_eq_Inr split: sum.splits prod.splits)
  with 2 show ?case using utf8_step_scalar by (cases "c = d") auto
qed simp

end
