(* ===== verification/PyJson.thy ===== *)
theory PyJson
  imports Unicode "HOL-Library.AList"
begin

text \<open>
  Python values as the program passes them around, and the \<open>json\<close> module: \<open>json_loads\<close> is the
  reader (white space, escapes with surrogate pairs, duplicate keys, the float literals and the
  \<open>NaN\<close>/\<open>Infinity\<close> extensions), \<open>json_dumps\<close> the writer with its item and key separators. The
  reader is a recursive descent on fuel; more than twice the length of the text is enough
  (\<open>json_fuel\<close>). The writer and the round trip are in \<open>JsonRoundtrip\<close>.

  Not modelled of the module: the rounding of decimal literals to binary floats (a float is the
  rational its literal denotes), the recursion limit and the digit limit of \<open>int\<close>.
\<close>

section \<open>Values\<close>

datatype pyfloat = Fin rat | PosInf | NegInf | NaN

text \<open>Dictionary keys: the code's keys are strings; \<open>KInt\<close> and \<open>KNone\<close> stand for other keys.\<close>

datatype pykey = KStr pystr | KInt int | KNone

datatype pyval =
    PNone
  | PBool bool
  | PInt int
  | PFloat pyfloat
  | PStr pystr
  | PBytes bytes
  | PList "pyval list"
  | PDict "(pykey \<times> pyval) list"

text \<open>A dictionary is its items in insertion order.\<close>

type_synonym pydict = "(pykey \<times> pyval) list"

definition key :: "string \<Rightarrow> pykey" where
  "key s = KStr (u s)"

lemma key_inject [simp]: "key s = key t \<longleftrightarrow> s = t"
  by (simp add: key_def)

definition dget :: "pydict \<Rightarrow> string \<Rightarrow> pyval option" where
  "dget d k = map_of d (key k)"

definition dset :: "pydict \<Rightarrow> string \<Rightarrow> pyval \<Rightarrow> pydict" where
  "dset d k v = AList.update (key k) v d"

definition dict_of :: "(pykey \<times> pyval) list \<Rightarrow> pydict" where
  "dict_of ps = foldl (\<lambda>d (k, v). AList.update k v d) [] ps"

text \<open>\<open>d.get(k, default)\<close>\<close>

definition dgetd :: "pydict \<Rightarrow> string \<Rightarrow> pyval \<Rightarrow> pyval" where
  "dgetd d k v = (case dget d k of None \<Rightarrow> v | Some x \<Rightarrow> x)"

lemma dget_Nil [simp]: "dget [] k = None"
  and dget_Cons [simp]: "dget ((k', v) # d) k = (if k' = key k then Some v else dget d k)"
  by (simp_all add: dget_def)

lemma dget_dset [simp]: "dget (dset d k v) k' = (if k = k' then Some v else dget d k')"
  by (simp add: dget_def dset_def update_conv)

definition truthy :: "pyval \<Rightarrow> bool" where
  "truthy v =
     (case v of
        PNone \<Rightarrow> False
      | PBool x \<Rightarrow> x
      | PInt i \<Rightarrow> i \<noteq> 0
      | PFloat f \<Rightarrow> f \<noteq> Fin 0
      | PStr s \<Rightarrow> s \<noteq> []
      | PBytes x \<Rightarrow> x \<noteq> []
      | PList xs \<Rightarrow> xs \<noteq> []
      | PDict d \<Rightarrow> d \<noteq> [])"

lemma dict_of_id: "distinct (map fst ps) \<Longrightarrow> dict_of ps = ps"
proof (induction ps rule: rev_induct)
  case (snoc p ps)
  obtain k v where p: "p = (k, v)" by force
  from snoc.prems have "k \<notin> fst ` set ps" by (auto simp: p)
  then have "AList.update k v ps = ps @ [(k, v)]" by (induction ps) auto
  with snoc p show ?case by (simp add: dict_of_def)
qed (simp add: dict_of_def)

section \<open>Reading\<close>

definition json_ws :: "nat \<Rightarrow> bool" where
  "json_ws c \<longleftrightarrow> c = 32 \<or> c = 9 \<or> c = 10 \<or> c = 13"

definition skip_ws :: "pystr \<Rightarrow> pystr" where
  "skip_ws = dropWhile json_ws"

definition first_is :: "nat \<Rightarrow> pystr \<Rightarrow> bool" where
  "first_is c s \<longleftrightarrow> s \<noteq> [] \<and> hd s = c"

lemma first_is_simps [simp]: "\<not> first_is c []" "first_is c (d # s) \<longleftrightarrow> d = c"
  by (auto simp: first_is_def)

lemma first_isD: "first_is c s \<Longrightarrow> s = c # tl s"
  by (cases s) auto

lemma skip_ws_simps [simp]: "skip_ws [] = []"
  "skip_ws (c # s) = (if json_ws c then skip_ws s else c # s)"
  by (simp_all add: skip_ws_def)

lemma skip_ws_append [simp]: "(\<forall>c\<in>set w. json_ws c) \<Longrightarrow> skip_ws (w @ s) = skip_ws s"
  by (induction w) auto

lemma length_skip_ws: "length (skip_ws s) \<le> length s"
  by (simp add: skip_ws_def length_dropWhile_le)

subsection \<open>Strings\<close>

fun hex4 :: "pystr \<Rightarrow> (nat \<times> pystr) option" where
  "hex4 (p # q # r # t # s) =
     (case (hex_val p, hex_val q, hex_val r, hex_val t) of
        (Some w, Some x, Some y, Some z) \<Rightarrow> Some (4096 * w + 256 * x + 16 * y + z, s)
      | _ \<Rightarrow> None)"
| "hex4 _ = None"

text \<open>What follows a backslash: the character it stands for, and the rest.\<close>

definition json_escape :: "pystr \<Rightarrow> (nat \<times> pystr) option" where
  "json_escape s =
     (case s of
        [] \<Rightarrow> None
      | c # r \<Rightarrow>
          if c = 34 \<or> c = 92 \<or> c = 47 then Some (c, r)
          else if c = 98 then Some (8, r)
          else if c = 102 then Some (12, r)
          else if c = 110 then Some (10, r)
          else if c = 114 then Some (13, r)
          else if c = 116 then Some (9, r)
          else if c = 117 then
            (case hex4 r of
               None \<Rightarrow> None
             | Some (x, r1) \<Rightarrow>
                 if 0xD800 \<le> x \<and> x \<le> 0xDBFF \<and> first_is 92 r1 \<and> first_is 117 (tl r1) then
                   (case hex4 (tl (tl r1)) of
                      Some (y, r2) \<Rightarrow>
                        if 0xDC00 \<le> y \<and> y \<le> 0xDFFF
                        then Some (0x10000 + (x - 0xD800) * 1024 + (y - 0xDC00), r2)
                        else Some (x, r1)
                    | None \<Rightarrow> Some (x, r1))
                 else Some (x, r1))
          else None)"

lemma hex4_shorter: "hex4 s = Some (x, r) \<Longrightarrow> length r < length s"
  by (induction s rule: hex4.induct) (auto split: option.splits)

lemma json_escape_shorter:
  assumes "json_escape s = Some (x, r)"
  shows "length r < length s"
  using assms
  by (auto simp: json_escape_def split: list.splits if_splits option.splits dest!: hex4_shorter)

function json_str :: "pystr \<Rightarrow> (pystr \<times> pystr) option" where
  "json_str [] = None"
| "json_str (c # s) =
     (if c = 34 then Some ([], s)
      else if c = 92 then
        (case json_escape s of
           None \<Rightarrow> None
         | Some (x, r) \<Rightarrow> map_option (\<lambda>(t, r'). (x # t, r')) (json_str r))
      else if c < 32 then None
      else map_option (\<lambda>(t, r'). (c # t, r')) (json_str s))"
  by pat_completeness auto
termination
  by (relation "measure length") (auto dest: json_escape_shorter)

lemma json_str_shorter: "json_str s = Some (t, r) \<Longrightarrow> length r < length s"
proof (induction s arbitrary: t rule: json_str.induct)
  case (2 c s)
  show ?case
  proof (cases "c = 34 \<or> c \<noteq> 92")
    case True
    with "2.prems" "2.IH"(2) show ?thesis by (fastforce split: if_splits)
  next
    case False
    with "2.prems" obtain x r' t' where "json_escape s = Some (x, r')" "json_str r' = Some (t', r)"
      by (auto split: option.splits)
    with "2.IH"(1) False show ?thesis by (force dest: json_escape_shorter)
  qed
qed simp

subsection \<open>Numbers\<close>

definition take_digits :: "pystr \<Rightarrow> pystr" where
  "take_digits = takeWhile is_digit"

definition pow10 :: "int \<Rightarrow> rat" where
  "pow10 k = (if 0 \<le> k then 10 ^ nat k else 1 / 10 ^ nat (- k))"

text \<open>The pattern \<open>-?(0|[1-9][0-9]*)(\.[0-9]+)?([eE][-+]?[0-9]+)?\<close>, a part at a time.\<close>

definition num_int :: "pystr \<Rightarrow> pystr \<times> pystr" where
  "num_int s = (if first_is 48 s then ([48], tl s) else (take_digits s, dropWhile is_digit s))"

definition num_frac :: "pystr \<Rightarrow> pystr \<times> pystr" where
  "num_frac s =
     (let fs = (if first_is 46 s then take_digits (tl s) else [])
      in (fs, if fs = [] then s else dropWhile is_digit (tl s)))"

definition num_exp :: "pystr \<Rightarrow> pystr \<times> bool \<times> pystr" where
  "num_exp s =
     (let t = (if first_is 101 s \<or> first_is 69 s then tl s else []);
          neg = first_is 45 t;
          t1 = (if neg \<or> first_is 43 t then tl t else t);
          es = take_digits t1
      in (es, neg, if es = [] then s else dropWhile is_digit t1))"

definition json_number :: "pystr \<Rightarrow> (pyval \<times> pystr) option" where
  "json_number s =
     (let neg = first_is 45 s;
          (ds, s1) = num_int (if neg then tl s else s);
          (fs, s2) = num_frac s1;
          (es, eneg, s3) = num_exp s2;
          m = int (digits_val ds)
      in if ds = [] then None
         else if fs = [] \<and> es = [] then Some (PInt (if neg then - m else m), s3)
         else
           let x = (of_nat (digits_val (ds @ fs)) :: rat) / 10 ^ length fs
                   * pow10 (if eneg then - int (digits_val es) else int (digits_val es))
           in Some (PFloat (Fin (if neg then - x else x)), s3))"

lemma length_tl_le: "length (tl s) \<le> length s"
  by simp

lemma num_int_shorter: "num_int s = (ds, r) \<Longrightarrow> ds \<noteq> [] \<Longrightarrow> length r < length s"
  by (cases s) (auto simp: num_int_def take_digits_def le_imp_less_Suc length_dropWhile_le split: if_splits)

lemma num_frac_shorter: "num_frac s = (fs, r) \<Longrightarrow> length r \<le> length s"
  by (auto simp: num_frac_def Let_def intro: order_trans [OF length_dropWhile_le length_tl_le] split: if_splits)

lemma num_exp_shorter: "num_exp s = (es, e, r) \<Longrightarrow> length r \<le> length s"
  by (auto simp: num_exp_def Let_def take_digits_def
      intro!: order_trans [OF length_dropWhile_le] split: if_splits)

lemma json_number_shorter:
  assumes "json_number s = Some (v, r)"
  shows "length r < length s"
proof -
  let ?s = "if first_is 45 s then tl s else s"
  obtain ds s1 where 1: "num_int ?s = (ds, s1)" by force
  obtain fs s2 where 2: "num_frac s1 = (fs, s2)" by force
  obtain es e s3 where 3: "num_exp s2 = (es, e, s3)" by (metis prod_cases3)
  from assms 1 2 3 have "ds \<noteq> []" "r = s3"
    by (auto simp: json_number_def Let_def split: if_splits)
  with num_int_shorter [OF 1] num_frac_shorter [OF 2] num_exp_shorter [OF 3]
  have "length r < length ?s" by simp
  also have "\<dots> \<le> length s" by simp
  finally show ?thesis .
qed

subsection \<open>Values\<close>

text \<open>Literals and numbers.\<close>

definition json_scalar :: "pystr \<Rightarrow> (pyval \<times> pystr) option" where
  "json_scalar s =
     (if prefixed (u ''null'') s then Some (PNone, drop 4 s)
      else if prefixed (u ''true'') s then Some (PBool True, drop 4 s)
      else if prefixed (u ''false'') s then Some (PBool False, drop 5 s)
      else if prefixed (u ''NaN'') s then Some (PFloat NaN, drop 3 s)
      else if prefixed (u ''Infinity'') s then Some (PFloat PosInf, drop 8 s)
      else if prefixed (u ''-Infinity'') s then Some (PFloat NegInf, drop 9 s)
      else json_number s)"

lemma drop_prefixed_shorter:
  "prefixed (u p) s \<Longrightarrow> p \<noteq> [] \<Longrightarrow> n = length p \<Longrightarrow> length (drop n s) < length s"
  by (auto simp: prefixed_iff)

lemma json_scalar_shorter: "json_scalar s = Some (v, r) \<Longrightarrow> length r < length s"
  unfolding json_scalar_def
  by (simp split: if_split_asm) (force dest: drop_prefixed_shorter json_number_shorter)+

text \<open>
  \<open>json_value\<close> reads one value at the head of the text; \<open>json_items\<close> the items of an array from
  the first one on, and \<open>json_members\<close> the members of an object from the first key on, up to and
  including the closing bracket.
\<close>

fun json_value :: "nat \<Rightarrow> pystr \<Rightarrow> (pyval \<times> pystr) option"
  and json_items :: "nat \<Rightarrow> pystr \<Rightarrow> (pyval list \<times> pystr) option"
  and json_members :: "nat \<Rightarrow> pystr \<Rightarrow> ((pykey \<times> pyval) list \<times> pystr) option"
where
  "json_value 0 s = None"
| "json_value (Suc n) s =
     (if first_is 34 s then map_option (\<lambda>(t, r). (PStr t, r)) (json_str (tl s))
      else if first_is 123 s then
        (let r = skip_ws (tl s) in
         if first_is 125 r then Some (PDict [], tl r)
         else map_option (\<lambda>(ms, r'). (PDict (dict_of ms), r')) (json_members n r))
      else if first_is 91 s then
        (let r = skip_ws (tl s) in
         if first_is 93 r then Some (PList [], tl r)
         else map_option (\<lambda>(xs, r'). (PList xs, r')) (json_items n r))
      else json_scalar s)"
| "json_items 0 s = None"
| "json_items (Suc n) s =
     (case json_value n s of
        None \<Rightarrow> None
      | Some (v, r) \<Rightarrow>
          let r1 = skip_ws r in
          if first_is 93 r1 then Some ([v], tl r1)
          else if first_is 44 r1 then
            map_option (\<lambda>(vs, r'). (v # vs, r')) (json_items n (skip_ws (tl r1)))
          else None)"
| "json_members 0 s = None"
| "json_members (Suc n) s =
     (if first_is 34 s then
        (case json_str (tl s) of
           None \<Rightarrow> None
         | Some (k, r) \<Rightarrow>
             let r1 = skip_ws r in
             if first_is 58 r1 then
               (case json_value n (skip_ws (tl r1)) of
                  None \<Rightarrow> None
                | Some (v, r2) \<Rightarrow>
                    let r3 = skip_ws r2 in
                    if first_is 125 r3 then Some ([(KStr k, v)], tl r3)
                    else if first_is 44 r3 then
                      map_option (\<lambda>(ms, r'). ((KStr k, v) # ms, r')) (json_members n (skip_ws (tl r3)))
                    else None)
             else None)
      else None)"

declare json_value.simps [simp del] json_items.simps [simp del] json_members.simps [simp del]

lemma json_0 [simp]: "json_value 0 s = None" "json_items 0 s = None" "json_members 0 s = None"
  by (simp_all add: json_value.simps json_items.simps json_members.simps)

lemmas json_Suc = json_value.simps(2) json_items.simps(2) json_members.simps(2)

definition json_loads :: "pystr \<Rightarrow> pyval res" where
  "json_loads s =
     (if first_is 0xFEFF s then Inl JSONDecodeError
      else case json_value (Suc (2 * length s)) (skip_ws s) of
          Some (v, r) \<Rightarrow> if skip_ws r = [] then Inr v else Inl JSONDecodeError
        | None \<Rightarrow> Inl JSONDecodeError)"

section \<open>The reader consumes its input, and its fuel is enough\<close>

lemma tl_skip_shorter: "first_is c (skip_ws s) \<Longrightarrow> length (tl (skip_ws s)) < length s"
proof -
  assume "first_is c (skip_ws s)"
  then have "length (tl (skip_ws s)) < length (skip_ws s)" by (cases "skip_ws s") auto
  then show ?thesis using length_skip_ws [of s] by simp
qed

lemma skip_tl_skip_shorter:
  "first_is c (skip_ws s) \<Longrightarrow> length (skip_ws (tl (skip_ws s))) < length s"
  by (rule le_less_trans [OF length_skip_ws tl_skip_shorter])

lemma skip_tl_shorter: "first_is c s \<Longrightarrow> length (skip_ws (tl s)) < length s"
  by (cases s) (auto simp: le_imp_less_Suc length_skip_ws)

lemma tl_shorter: "first_is c s \<Longrightarrow> length (tl s) < length s"
  by (cases s) auto

lemmas json_shorter = json_str_shorter json_number_shorter tl_skip_shorter skip_tl_skip_shorter
  skip_tl_shorter tl_shorter

lemma json_consumes:
  "(\<forall>s v r. json_value n s = Some (v, r) \<longrightarrow> length r < length s)
   \<and> (\<forall>s v r. json_items n s = Some (v, r) \<longrightarrow> length r < length s)
   \<and> (\<forall>s v r. json_members n s = Some (v, r) \<longrightarrow> length r < length s)"
proof (induction n)
  case (Suc n)
  then have IHv: "\<And>s v r. json_value n s = Some (v, r) \<Longrightarrow> length r < length s"
    and IHi: "\<And>s v r. json_items n s = Some (v, r) \<Longrightarrow> length r < length s"
    and IHm: "\<And>s v r. json_members n s = Some (v, r) \<Longrightarrow> length r < length s"
    by blast+
  have str: "json_str (tl s) = Some (t, r) \<Longrightarrow> first_is 34 s \<Longrightarrow> length r < length s" for s t r
    by (rule less_trans [OF json_str_shorter tl_shorter])
  have items: "json_items n (skip_ws (tl s)) = Some (t, r) \<Longrightarrow> first_is c s \<Longrightarrow> length r < length s"
    and members: "json_members n (skip_ws (tl s)) = Some (m, r) \<Longrightarrow> first_is c s \<Longrightarrow> length r < length s"
    for s t m r c
    by (rule less_trans [OF IHi skip_tl_shorter], assumption, assumption)
      (rule less_trans [OF IHm skip_tl_shorter], assumption, assumption)
  have close: "first_is d s \<Longrightarrow> first_is c (skip_ws (tl s)) \<Longrightarrow> length (tl (skip_ws (tl s))) < length s"
    for s c d
    by (rule less_trans [OF tl_skip_shorter tl_shorter])
  have v: "length r < length s" if "json_value (Suc n) s = Some (v, r)" for s v r
    using that
    by (cases "first_is 34 s"; cases "first_is 123 s"; cases "first_is 91 s")
      (auto simp: json_Suc Let_def dest: str items members close json_scalar_shorter split: if_split_asm)
  have i: "length r < length s" if "json_items (Suc n) s = Some (v, r)" for s v r
    using that
    by (auto simp: json_Suc Let_def simp del: length_tl split: option.splits if_split_asm
        dest!: IHv IHi tl_skip_shorter dest: skip_tl_skip_shorter)
      (meson le_less_trans length_skip_ws less_trans)
  have m: "length r < length s" if "json_members (Suc n) s = Some (v, r)" for s v r
  proof -
    from that obtain k r1 w r2 where "first_is 34 s" "json_str (tl s) = Some (k, r1)"
      and c: "first_is 58 (skip_ws r1)" "json_value n (skip_ws (tl (skip_ws r1))) = Some (w, r2)"
      and r: "r = tl (skip_ws r2) \<and> first_is 125 (skip_ws r2) \<or>
        (first_is 44 (skip_ws r2) \<and> (\<exists>ms. json_members n (skip_ws (tl (skip_ws r2))) = Some (ms, r)))"
      by (auto simp: json_Suc Let_def split: option.splits if_split_asm)
    then have "length r2 < length s"
      using str skip_tl_skip_shorter [OF c(1)] IHv [OF c(2)] by fastforce
    moreover have "length r < length r2"
      using r
      by (auto simp del: length_tl dest: tl_skip_shorter dest!: IHm)
        (meson less_trans skip_tl_skip_shorter)
    ultimately show ?thesis by simp
  qed
  from v i m show ?case by blast
qed simp

lemmas json_value_consumes = json_consumes [THEN conjunct1, rule_format]
  and json_items_consumes = json_consumes [THEN conjunct2, THEN conjunct1, rule_format]
  and json_members_consumes = json_consumes [THEN conjunct2, THEN conjunct2, rule_format]

text \<open>
  Enough fuel: above twice the length of the text, another unit changes nothing, so the fuel
  \<open>json_loads\<close> passes never decides a result.
\<close>

lemma json_fuel:
  "(\<forall>s. 2 * length s < n \<longrightarrow> json_value (Suc n) s = json_value n s)
   \<and> (\<forall>s. 2 * length s + 1 < n \<longrightarrow> json_items (Suc n) s = json_items n s)
   \<and> (\<forall>s. 2 * length s + 1 < n \<longrightarrow> json_members (Suc n) s = json_members n s)"
proof (induction n)
  case (Suc n)
  then have IHv: "\<And>s. 2 * length s < n \<Longrightarrow> json_value (Suc n) s = json_value n s"
    and IHi: "\<And>s. 2 * length s + 1 < n \<Longrightarrow> json_items (Suc n) s = json_items n s"
    and IHm: "\<And>s. 2 * length s + 1 < n \<Longrightarrow> json_members (Suc n) s = json_members n s"
    by blast+
  have v: "json_value (Suc (Suc n)) s = json_value (Suc n) s" if l: "2 * length s < Suc n" for s
  proof -
    have "json_items (Suc n) (skip_ws (tl s)) = json_items n (skip_ws (tl s))"
      and "json_members (Suc n) (skip_ws (tl s)) = json_members n (skip_ws (tl s))"
      if "first_is c s" for c
      using skip_tl_shorter [OF that] l by (auto intro!: IHi IHm)
    then show ?thesis
      by (simp add: json_Suc(1) Let_def cong: if_cong)
  qed
  have i: "json_items (Suc (Suc n)) s = json_items (Suc n) s" if l: "2 * length s + 1 < Suc n" for s
  proof -
    have val: "json_value (Suc n) s = json_value n s" using l by (intro IHv) simp
    have "json_items (Suc n) (skip_ws (tl (skip_ws r))) = json_items n (skip_ws (tl (skip_ws r)))"
      if "json_value n s = Some (w, r)" "first_is 44 (skip_ws r)" for w r
      using json_value_consumes [OF that(1)] skip_tl_skip_shorter [OF that(2)] l
      by (intro IHi) simp
    then show ?thesis
      by (auto simp: json_Suc(2) val Let_def split: option.splits)
  qed
  have m: "json_members (Suc (Suc n)) s = json_members (Suc n) s" if l: "2 * length s + 1 < Suc n" for s
  proof -
    have k: "length r < length s" if "first_is 34 s" "json_str (tl s) = Some (k, r)" for k r
      by (rule less_trans [OF json_str_shorter [OF that(2)] tl_shorter [OF that(1)]])
    have val: "json_value (Suc n) (skip_ws (tl (skip_ws r))) = json_value n (skip_ws (tl (skip_ws r)))"
      if "first_is 34 s" "json_str (tl s) = Some (k, r)" "first_is 58 (skip_ws r)" for k r
      using k [OF that(1,2)] skip_tl_skip_shorter [OF that(3)] l by (intro IHv) simp
    have "json_members (Suc n) (skip_ws (tl (skip_ws r2))) = json_members n (skip_ws (tl (skip_ws r2)))"
      if "first_is 34 s" "json_str (tl s) = Some (k, r)" "first_is 58 (skip_ws r)"
        "json_value n (skip_ws (tl (skip_ws r))) = Some (w, r2)" "first_is 44 (skip_ws r2)" for k r w r2
      using k [OF that(1,2)] skip_tl_skip_shorter [OF that(3)] json_value_consumes [OF that(4)]
        skip_tl_skip_shorter [OF that(5)] l
      by (intro IHm) simp
    with val show ?thesis
      by (auto simp: json_Suc(3) Let_def split: option.splits)
  qed
  from v i m show ?case by blast
qed simp

lemma json_value_fuel:
  assumes "2 * length s < n"
  shows "json_value (n + k) s = json_value n s"
  using assms json_fuel by (induction k) auto

end
