(* ===== verification/JsonRoundtrip.thy ===== *)
theory JsonRoundtrip
  imports PyJson
begin

text \<open>
  The writer of the \<open>json\<close> module and the round trip with its reader. \<open>json_write\<close> is generic in
  the separators and in how a character is escaped, so that one proof serves \<open>json.dumps\<close> (ASCII
  escapes, \<open>", "\<close> and \<open>": "\<close>) and the canonical writer of \<open>jcs.py\<close> (no white space, raw UTF-8).
\<close>

section \<open>Writing\<close>

definition quote :: "(nat \<Rightarrow> pystr) \<Rightarrow> pystr \<Rightarrow> pystr" where
  "quote esc t = 34 # concat (map esc t) @ [34]"

definition key_text :: "pykey \<Rightarrow> pystr" where
  "key_text k = (case k of KStr t \<Rightarrow> t | KInt i \<Rightarrow> int_str i | KNone \<Rightarrow> u ''null'')"

fun json_write :: "pystr \<Rightarrow> pystr \<Rightarrow> (nat \<Rightarrow> pystr) \<Rightarrow> pyval \<Rightarrow> pystr" where
  "json_write isep ksep esc PNone = u ''null''"
| "json_write isep ksep esc (PBool t) = (if t then u ''true'' else u ''false'')"
| "json_write isep ksep esc (PInt i) = int_str i"
| "json_write isep ksep esc (PStr t) = quote esc t"
| "json_write isep ksep esc (PList xs) = 91 # join isep (map (json_write isep ksep esc) xs) @ [93]"
| "json_write isep ksep esc (PDict kvs) =
     123 # join isep (map (\<lambda>(k, v). quote esc (key_text k) @ ksep @ json_write isep ksep esc v) kvs)
     @ [125]"
| "json_write isep ksep esc (PFloat f) = []"
| "json_write isep ksep esc (PBytes x) = []"

definition hex4_digits :: "nat \<Rightarrow> pystr" where
  "hex4_digits n = [hex_digit (n div 4096 mod 16), hex_digit (n div 256 mod 16),
                    hex_digit (n div 16 mod 16), hex_digit (n mod 16)]"

definition unicode_escape :: "nat \<Rightarrow> pystr" where
  "unicode_escape n = 92 # 117 # hex4_digits n"

text \<open>The escapes of \<open>json.dumps\<close> with its default \<open>ensure_ascii\<close>.\<close>

definition esc_ascii :: "nat \<Rightarrow> pystr" where
  "esc_ascii c =
     (if c = 34 then [92, 34]
      else if c = 92 then [92, 92]
      else if c = 10 then [92, 110]
      else if c = 13 then [92, 114]
      else if c = 9 then [92, 116]
      else if c = 12 then [92, 102]
      else if c = 8 then [92, 98]
      else if 32 \<le> c \<and> c < 127 then [c]
      else if c < 0x10000 then unicode_escape c
      else unicode_escape (0xD800 + (c - 0x10000) div 1024)
           @ unicode_escape (0xDC00 + (c - 0x10000) mod 1024))"

text \<open>
  The values \<open>json.dumps\<close> is given in this program hold no floats; a float or a bytes object
  makes the model's writer fail (the module writes the float's \<open>repr\<close>, and raises
  \<open>TypeError\<close> for bytes).
\<close>

fun dumpable :: "pyval \<Rightarrow> bool" where
  "dumpable (PList xs) = list_all dumpable xs"
| "dumpable (PDict kvs) = list_all (\<lambda>(k, v). dumpable v) kvs"
| "dumpable (PFloat f) = False"
| "dumpable (PBytes x) = False"
| "dumpable _ = True"

definition json_dumps_sep :: "pystr \<Rightarrow> pystr \<Rightarrow> pyval \<Rightarrow> pystr res" where
  "json_dumps_sep isep ksep v =
     (if dumpable v then Inr (json_write isep ksep esc_ascii v)
      else Inl (TypeError ''not JSON serializable''))"

definition json_dumps :: "pyval \<Rightarrow> pystr res" where
  "json_dumps = json_dumps_sep (u '', '') (u '': '')"

section \<open>Values that survive\<close>

text \<open>No floats and no bytes, string keys without repetition, well-formed text.\<close>

definition scalar_str :: "pystr \<Rightarrow> bool" where
  "scalar_str t \<longleftrightarrow> list_all is_scalar t"

definition key_ok :: "pykey \<Rightarrow> bool" where
  "key_ok k = (case k of KStr t \<Rightarrow> scalar_str t | _ \<Rightarrow> False)"

fun json_ok :: "pyval \<Rightarrow> bool" where
  "json_ok PNone = True"
| "json_ok (PBool t) = True"
| "json_ok (PInt i) = True"
| "json_ok (PStr t) = scalar_str t"
| "json_ok (PList xs) = list_all json_ok xs"
| "json_ok (PDict kvs) =
     (distinct (map fst kvs) \<and> list_all (\<lambda>(k, v). key_ok k \<and> json_ok v) kvs)"
| "json_ok (PFloat f) = False"
| "json_ok (PBytes x) = False"

lemma json_ok_dumpable: "json_ok v \<Longrightarrow> dumpable v"
  by (induction v rule: json_ok.induct) (auto simp: list_all_iff)

section \<open>Round trip\<close>

text \<open>An escape is good if the reader turns it back into its character, whatever follows.\<close>

definition good_esc :: "(nat \<Rightarrow> pystr) \<Rightarrow> bool" where
  "good_esc esc \<longleftrightarrow>
     (\<forall>c r. is_scalar c \<longrightarrow>
        json_str (esc c @ r) = map_option (\<lambda>(t, r'). (c # t, r')) (json_str r))"

lemma json_str_quote:
  assumes "good_esc esc"
  shows "scalar_str t \<Longrightarrow> json_str (concat (map esc t) @ 34 # r) = Some (t, r)"
  using assms by (induction t) (auto simp: good_esc_def scalar_str_def)

lemma hex4_digits_read: "n < 65536 \<Longrightarrow> hex4 (hex4_digits n @ s) = Some (n, s)"
proof -
  assume "n < 65536"
  then have "n div 4096 mod 16 = n div 4096" by simp
  moreover have "n div 256 mod 16 + 16 * (n div 4096) = n div 256"
    "n div 16 mod 16 + 16 * (n div 256) = n div 16" "n mod 16 + 16 * (n div 16) = n"
    by (simp_all add: div_mult2_eq [of n 256 16, simplified] div_mult2_eq [of n 16 16, simplified])
  ultimately have "4096 * (n div 4096 mod 16) + 256 * (n div 256 mod 16) + 16 * (n div 16 mod 16)
    + n mod 16 = n" by linarith
  moreover have "n div 4096 mod 16 = n div 4096" using \<open>n < 65536\<close> by simp
  ultimately have "4096 * (n div 4096) + 256 * (n div 256 mod 16) + 16 * (n div 16 mod 16)
    + n mod 16 = n" by linarith
  then show ?thesis using \<open>n < 65536\<close> by (simp add: hex4_digits_def)
qed

lemma json_escape_unicode:
  assumes "n < 0x10000" "\<not> (0xD800 \<le> n \<and> n \<le> 0xDBFF)"
  shows "json_escape (117 # hex4_digits n @ s) = Some (n, s)"
  using assms by (auto simp: json_escape_def hex4_digits_read)

lemma json_escape_pair:
  assumes "0x10000 \<le> c" "c \<le> 0x10FFFF"
  shows "json_escape (117 # hex4_digits (0xD800 + (c - 0x10000) div 1024)
           @ unicode_escape (0xDC00 + (c - 0x10000) mod 1024) @ s) = Some (c, s)"
proof -
  define hi lo where "hi = (c - 0x10000) div 1024" and "lo = (c - 0x10000) mod 1024"
  have "hi * 1024 + lo = c - 0x10000" by (simp add: hi_def lo_def)
  moreover have "hi < 1024" "lo < 1024" using assms by (auto simp: hi_def lo_def)
  ultimately show ?thesis
    unfolding hi_def [symmetric] lo_def [symmetric] using assms
    by (simp add: json_escape_def hex4_digits_read unicode_escape_def)
qed

lemma good_esc_ascii: "good_esc esc_ascii"
  unfolding good_esc_def
proof (intro allI impI)
  fix c r assume sc: "is_scalar c"
  let ?R = "map_option (\<lambda>(t, r'). (c # t, r')) (json_str r)"
  consider "c \<in> {34, 92, 10, 13, 9, 12, 8}" | "32 \<le> c" "c < 127" "c \<notin> {34, 92}"
    | "c \<notin> {34, 92, 10, 13, 9, 12, 8}" "\<not> (32 \<le> c \<and> c < 127)" "c < 0x10000"
    | "0x10000 \<le> c"
    by fastforce
  then show "json_str (esc_ascii c @ r) = ?R"
  proof cases
    case 1
    then show ?thesis by (auto simp: esc_ascii_def json_escape_def)
  next
    case 2
    then show ?thesis by (auto simp: esc_ascii_def)
  next
    case 3
    then have "\<not> (0xD800 \<le> c \<and> c \<le> 0xDBFF)"
      using sc by (auto simp: is_scalar_def is_surrogate_def)
    with 3 have "json_escape (117 # hex4_digits c @ r) = Some (c, r)"
      by (intro json_escape_unicode)
    with 3 show ?thesis by (auto simp: esc_ascii_def unicode_escape_def)
  next
    case 4
    then have "json_escape (117 # hex4_digits (0xD800 + (c - 0x10000) div 1024)
        @ unicode_escape (0xDC00 + (c - 0x10000) mod 1024) @ r) = Some (c, r)"
      using sc by (intro json_escape_pair) (auto simp: is_scalar_def)
    with 4 show ?thesis by (simp add: esc_ascii_def unicode_escape_def [of "0xD800 + _"])
  qed
qed

text \<open>A number ends where a separator, a bracket or the text follows.\<close>

definition num_stop :: "pystr \<Rightarrow> bool" where
  "num_stop r \<longleftrightarrow> r = [] \<or> (\<not> is_digit (hd r) \<and> hd r \<notin> {46, 69, 101})"

lemma take_digits_all:
  assumes "\<forall>c\<in>set ds. is_digit c" "r = [] \<or> \<not> is_digit (hd r)"
  shows "take_digits (ds @ r) = ds" "dropWhile is_digit (ds @ r) = r"
proof -
  have "takeWhile is_digit r = []" "dropWhile is_digit r = r"
    using assms(2) by (cases r; simp)+
  then show "take_digits (ds @ r) = ds" "dropWhile is_digit (ds @ r) = r"
    using assms(1) by (simp_all add: take_digits_def takeWhile_append2 dropWhile_append2)
qed

lemma num_int_nat:
  assumes "r = [] \<or> \<not> is_digit (hd r)"
  shows "num_int (nat_digits m @ r) = (nat_digits m, r)"
proof (cases "m = 0")
  case False
  then have "hd (nat_digits m @ r) \<noteq> 48" by (simp add: nat_digits_hd)
  then have "\<not> first_is 48 (nat_digits m @ r)" by (simp add: first_is_def)
  then show ?thesis
    using take_digits_all [of "nat_digits m" r] assms nat_digits_digit by (simp add: num_int_def)
qed (simp add: num_int_def)

lemma num_frac_exp_stop: "num_stop r \<Longrightarrow> num_frac r = ([], r) \<and> num_exp r = ([], False, r)"
  by (cases r) (auto simp: num_stop_def num_frac_def num_exp_def take_digits_def)

lemma nat_digits_first: "is_digit (hd (nat_digits m))"
  by (rule nat_digits_digit) (rule hd_in_set, simp)

lemma json_number_int:
  assumes "num_stop r"
  shows "json_number (int_str i @ r) = Some (PInt i, r)"
proof -
  have r: "r = [] \<or> \<not> is_digit (hd r)" using assms by (auto simp: num_stop_def)
  have "\<not> first_is 45 (nat_digits m @ r)" for m
    using nat_digits_first [of m] by (auto simp: first_is_def is_digit_def)
  then show ?thesis
    using num_frac_exp_stop [OF assms] num_int_nat [OF r]
    by (simp add: json_number_def int_str_def Let_def)
qed

lemma hd_int_str: "hd (int_str i @ r) = 45 \<or> is_digit (hd (int_str i @ r))"
  using nat_digits_first by (simp add: int_str_def)

lemma int_str_ne [simp]: "int_str i \<noteq> []"
  by (simp add: int_str_def)

lemma json_scalar_digits: "json_scalar (int_str i @ r) = json_number (int_str i @ r)"
proof -
  have h: "prefixed (u (x # xs)) (int_str i @ r) \<Longrightarrow> hd (int_str i @ r) = of_char x" for x xs
    by (clarsimp simp: prefixed_iff u_def simp del: hd_append2)
  have inf: "\<not> prefixed (u ''-Infinity'') (int_str i @ r)"
  proof
    assume p: "prefixed (u ''-Infinity'') (int_str i @ r)"
    then have "hd (tl (int_str i @ r)) = 73"
      by (clarsimp simp: prefixed_iff u_def simp del: hd_append2 tl_append2)
    moreover have "hd (int_str i @ r) = 45" using h [OF p] by simp
    ultimately show False using nat_digits_first [of "nat (- i)"] nat_digits_first [of "nat i"]
      by (auto simp: int_str_def is_digit_def split: if_splits)
  qed
  have "\<not> prefixed (u ''null'') (int_str i @ r)" "\<not> prefixed (u ''true'') (int_str i @ r)"
    "\<not> prefixed (u ''false'') (int_str i @ r)" "\<not> prefixed (u ''NaN'') (int_str i @ r)"
    "\<not> prefixed (u ''Infinity'') (int_str i @ r)"
    using hd_int_str [of i r] by (auto dest!: h simp: is_digit_def)
  with inf show ?thesis by (simp add: json_scalar_def)
qed

lemma json_scalar_int: "num_stop r \<Longrightarrow> json_scalar (int_str i @ r) = Some (PInt i, r)"
  by (simp add: json_scalar_digits json_number_int)

text \<open>No written value starts with white space or a closing bracket.\<close>

lemma json_write_start:
  "json_ok v \<Longrightarrow> \<exists>c s. json_write isep ksep esc v = c # s \<and> \<not> json_ws c \<and> c \<noteq> 93 \<and> c \<noteq> 125"
proof (cases v)
  case (PInt i)
  have "hd (int_str i) = 45 \<or> is_digit (hd (int_str i))" using hd_int_str [of i "[]"] by simp
  then show ?thesis using PInt
    by (cases "int_str i") (auto simp: json_ws_def is_digit_def)
qed (auto simp: json_ws_def quote_def u_def)

text \<open>Separators: a comma and a colon, each followed by white space or nothing.\<close>

definition good_seps :: "pystr \<Rightarrow> pystr \<Rightarrow> bool" where
  "good_seps isep ksep \<longleftrightarrow>
     (\<exists>w. isep = 44 # w \<and> (\<forall>c\<in>set w. json_ws c)) \<and> (\<exists>w. ksep = 58 # w \<and> (\<forall>c\<in>set w. json_ws c))"

lemma skip_ws_start: "\<not> json_ws c \<Longrightarrow> skip_ws (c # s) = c # s"
  by simp

lemma num_stop_simps [simp]: "num_stop []" "num_stop (93 # r)" "num_stop (125 # r)" "num_stop (44 # r)"
  by (auto simp: num_stop_def is_digit_def)

lemma num_stop_ws: "\<forall>c\<in>set e. json_ws c \<Longrightarrow> num_stop r \<Longrightarrow> num_stop (e @ r)"
  by (cases e) (auto simp: num_stop_def json_ws_def is_digit_def)

text \<open>
  The items of a list and the members of an object, for any writer \<open>W\<close> of the parts whose texts
  start visibly and are read back, with white space \<open>e\<close> in front of the closing bracket.
\<close>

lemma json_items_write:
  assumes w: "isep = 44 # w" "\<forall>c\<in>set w. json_ws c" and e: "\<forall>c\<in>set e. json_ws c"
    and ne: "xs \<noteq> []" and start: "\<And>x. x \<in> set xs \<Longrightarrow> \<exists>c s. W x = c # s \<and> \<not> json_ws c"
    and IH: "\<And>x n r. x \<in> set xs \<Longrightarrow> num_stop r \<Longrightarrow> length (W x) \<le> n \<Longrightarrow> json_value n (W x @ r) = Some (x, r)"
  shows "length (join isep (map W xs)) < n \<Longrightarrow>
    json_items n (join isep (map W xs) @ e @ 93 # r) = Some (xs, r)"
  using ne start IH
proof (induction xs arbitrary: n)
  case (Cons x xs)
  obtain m where n: "n = Suc m" using Cons.prems(1) by (cases n) auto
  show ?case
  proof (cases "xs = []")
    case True
    then have "json_value m (W x @ e @ 93 # r) = Some (x, e @ 93 # r)"
      using Cons.prems n num_stop_ws [OF e] by simp
    then show ?thesis using True n skip_ws_append [OF e] by (simp add: json_Suc json_ws_def)
  next
    case False
    let ?rest = "join isep (map W xs) @ e @ 93 # r"
    obtain y ys where xs: "xs = y # ys" using False by (cases xs) auto
    have joined: "join isep (map W (x # xs)) = W x @ isep @ join isep (map W xs)"
      using False by (simp add: join_Cons)
    have "json_value m (W x @ isep @ ?rest) = Some (x, isep @ ?rest)"
      using Cons.prems(1,4) n w unfolding joined by (intro Cons.prems(4)) (auto simp: num_stop_def is_digit_def)
    moreover have "skip_ws (w @ ?rest) = ?rest"
    proof -
      obtain c s where "W y = c # s" "\<not> json_ws c" using Cons.prems(3) [of y] xs by auto
      then have "\<exists>s'. ?rest = c # s'" using xs by (cases ys) auto
      with \<open>\<not> json_ws c\<close> show ?thesis unfolding skip_ws_append [OF w(2)] by auto
    qed
    moreover have "json_items m ?rest = Some (xs, r)"
      using Cons.prems False n w unfolding joined by (intro Cons.IH) auto
    ultimately show ?thesis
      unfolding joined n using w by (simp add: json_Suc json_ws_def)
  qed
qed simp

lemma json_members_write:
  assumes w: "isep = 44 # w" "\<forall>c\<in>set w. json_ws c" and z: "ksep = 58 # z" "\<forall>c\<in>set z. json_ws c"
    and e: "\<forall>c\<in>set e. json_ws c" and esc: "good_esc esc"
    and ne: "kvs \<noteq> []"
    and ok: "\<And>k v. (k, v) \<in> set kvs \<Longrightarrow> key_ok k \<and> (\<exists>c s. W v = c # s \<and> \<not> json_ws c)"
    and IH: "\<And>k v n r. (k, v) \<in> set kvs \<Longrightarrow> num_stop r \<Longrightarrow> length (W v) \<le> n \<Longrightarrow>
      json_value n (W v @ r) = Some (v, r)"
    and M: "M = (\<lambda>(k, v). quote esc (key_text k) @ ksep @ W v)"
  shows "length (join isep (map M kvs)) < n \<Longrightarrow>
    json_members n (join isep (map M kvs) @ e @ 125 # r) = Some (kvs, r)"
  using ne ok IH
proof (induction kvs arbitrary: n)
  case (Cons kv kvs)
  obtain k v where kv: "kv = (k, v)" by force
  obtain t where k: "k = KStr t" "scalar_str t"
    using Cons.prems(3) [of k v] kv by (auto simp: key_ok_def split: pykey.splits)
  obtain m where n: "n = Suc m" using Cons.prems(1) by (cases n) auto
  have Mkv: "M (KStr t, v) = 34 # concat (map esc t) @ 34 # ksep @ W v"
    using M by (simp add: quote_def key_text_def)
  have skipz: "skip_ws (z @ W v @ s) = W v @ s" for s
    using Cons.prems(3) [of k v] kv unfolding skip_ws_append [OF z(2)] by auto
  have str: "json_str (concat (map esc t) @ 34 # s) = Some (t, s)" for s
    by (rule json_str_quote [OF esc k(2)])
  show ?case
  proof (cases "kvs = []")
    case True
    then have "json_value m (W v @ e @ 125 # r) = Some (v, e @ 125 # r)"
      using Cons.prems(1,4) n kv k(1) Mkv num_stop_ws [OF e] by simp
    then show ?thesis
      using True n k kv z skipz str skip_ws_append [OF e] by (simp add: json_Suc json_ws_def Mkv)
  next
    case False
    let ?rest = "join isep (map M kvs) @ e @ 125 # r"
    have joined: "join isep (map M (kv # kvs)) = M kv @ isep @ join isep (map M kvs)"
      using False by (simp add: join_Cons)
    have "json_value m (W v @ isep @ ?rest) = Some (v, isep @ ?rest)"
      using Cons.prems(1) n w kv k(1) Mkv unfolding joined
      by (intro Cons.prems(4) [of k]) (auto simp: num_stop_def is_digit_def)
    moreover have "skip_ws (w @ ?rest) = ?rest"
    proof -
      obtain kv' kvs' where "kvs = kv' # kvs'" using False by (cases kvs) auto
      then have "\<exists>s'. ?rest = 34 # s'"
        by (cases kvs') (auto simp: M quote_def split: prod.split)
      then show ?thesis unfolding skip_ws_append [OF w(2)] by (auto simp: json_ws_def)
    qed
    moreover have "json_members m ?rest = Some (kvs, r)"
    proof (rule Cons.IH [OF _ False])
      show "length (join isep (map M kvs)) < m" using Cons.prems(1) n w unfolding joined by simp
    next
      fix k v assume "(k, v) \<in> set kvs"
      then show "key_ok k \<and> (\<exists>c s. W v = c # s \<and> \<not> json_ws c)" by (intro Cons.prems(3)) simp
    next
      fix k v n r assume "(k, v) \<in> set kvs" "num_stop r" "length (W v) \<le> n"
      then show "json_value n (W v @ r) = Some (v, r)"
        by (intro Cons.prems(4) [of k v]) simp_all
    qed
    ultimately show ?thesis
      unfolding joined n using w z skipz str k kv by (simp add: json_Suc json_ws_def Mkv)
  qed
qed simp

lemma json_value_list:
  assumes seps: "good_seps isep ksep" and ne: "xs \<noteq> []" and ok: "\<forall>x\<in>set xs. json_ok x"
    and len: "length (json_write isep ksep esc (PList xs)) \<le> Suc m"
    and IH: "\<And>x r n. x \<in> set xs \<Longrightarrow> num_stop r \<Longrightarrow> length (json_write isep ksep esc x) \<le> n \<Longrightarrow>
      json_value n (json_write isep ksep esc x @ r) = Some (x, r)"
  shows "json_value (Suc m) (json_write isep ksep esc (PList xs) @ r) = Some (PList xs, r)"
proof -
  let ?W = "json_write isep ksep esc"
  obtain w where w: "isep = 44 # w" "\<forall>c\<in>set w. json_ws c" using seps by (auto simp: good_seps_def)
  have "json_items m (join isep (map ?W xs) @ [] @ 93 # r) = Some (xs, r)"
    using ok len IH
    by (intro json_items_write [OF w _ ne]) (use json_write_start in \<open>fastforce simp: list_all_iff\<close>)+
  then have "json_items m (join isep (map ?W xs) @ 93 # r) = Some (xs, r)" by simp
  moreover obtain x xs' where xs: "xs = x # xs'" using ne by (cases xs) auto
  then obtain c s where "?W x = c # s" "\<not> json_ws c" "c \<noteq> 93"
    using json_write_start [of x isep ksep esc] ok by auto
  then have "\<exists>s'. join isep (map ?W xs) @ 93 # r = c # s'" using xs by (cases xs') auto
  ultimately show ?thesis using \<open>\<not> json_ws c\<close> \<open>c \<noteq> 93\<close> by (auto simp: json_Suc Let_def)
qed

lemma json_value_dict:
  assumes seps: "good_seps isep ksep" and esc: "good_esc esc" and ne: "kvs \<noteq> []" and ok: "json_ok (PDict kvs)"
    and len: "length (json_write isep ksep esc (PDict kvs)) \<le> Suc m"
    and IH: "\<And>k v r n. (k, v) \<in> set kvs \<Longrightarrow> num_stop r \<Longrightarrow> length (json_write isep ksep esc v) \<le> n \<Longrightarrow>
      json_value n (json_write isep ksep esc v @ r) = Some (v, r)"
  shows "json_value (Suc m) (json_write isep ksep esc (PDict kvs) @ r) = Some (PDict kvs, r)"
proof -
  let ?M = "\<lambda>(k, v). quote esc (key_text k) @ ksep @ json_write isep ksep esc v"
  obtain w z where w: "isep = 44 # w" "\<forall>c\<in>set w. json_ws c" and z: "ksep = 58 # z" "\<forall>c\<in>set z. json_ws c"
    using seps by (auto simp: good_seps_def)
  have start: "key_ok k \<and> (\<exists>c s. json_write isep ksep esc v = c # s \<and> \<not> json_ws c)" if "(k, v) \<in> set kvs" for k v
  proof -
    have "key_ok k" "json_ok v" using that ok by (auto simp: list_all_iff)
    then show ?thesis using json_write_start [of v isep ksep esc] by blast
  qed
  have "json_members m (join isep (map ?M kvs) @ [] @ 125 # r) = Some (kvs, r)"
    using len IH by (intro json_members_write [OF w z _ esc ne start _ refl]) auto
  then have "json_members m (join isep (map ?M kvs) @ 125 # r) = Some (kvs, r)" by simp
  moreover obtain kv kvs' where "kvs = kv # kvs'" using ne by (cases kvs) auto
  then have "\<exists>s'. join isep (map ?M kvs) @ 125 # r = 34 # s'"
    by (cases kvs') (auto simp: quote_def split: prod.split)
  ultimately show ?thesis using ok by (auto simp: json_Suc json_ws_def Let_def dict_of_id)
qed

lemma json_value_write:
  assumes seps: "good_seps isep ksep" and esc: "good_esc esc"
  shows "json_ok v \<Longrightarrow> num_stop r \<Longrightarrow> length (json_write isep ksep esc v) \<le> n \<Longrightarrow>
    json_value n (json_write isep ksep esc v @ r) = Some (v, r)"
proof (induction v arbitrary: n r)
  case (PInt i)
  then obtain m where n: "n = Suc m" by (cases n) auto
  have "hd (int_str i @ r) \<noteq> 34 \<and> hd (int_str i @ r) \<noteq> 123 \<and> hd (int_str i @ r) \<noteq> 91"
    using hd_int_str [of i r] by (auto simp: is_digit_def)
  then show ?case
    using json_scalar_int [OF PInt(2)] n by (simp add: json_Suc first_is_def)
next
  case (PStr t)
  then obtain m where n: "n = Suc m" by (cases n) (auto simp: quote_def)
  then show ?case using PStr json_str_quote [OF esc, of t r] by (simp add: json_Suc quote_def)
next
  case (PList xs)
  then obtain m where n: "n = Suc m" by (cases n) auto
  show ?case
  proof (cases "xs = []")
    case True
    then show ?thesis using n by (simp add: json_Suc json_ws_def)
  next
    case False
    then show ?thesis
      using PList unfolding n by (intro json_value_list [OF seps]) (auto simp: list_all_iff)
  qed
next
  case (PDict kvs)
  then obtain m where n: "n = Suc m" by (cases n) auto
  show ?case
  proof (cases "kvs = []")
    case True
    then show ?thesis using n by (simp add: json_Suc json_ws_def dict_of_def)
  next
    case False
    then show ?thesis
      using PDict unfolding n by (intro json_value_dict [OF seps esc]) (auto simp: list_all_iff intro: snds.intros)
  qed
next
  case PNone
  then obtain m where n: "n = Suc m" by (cases n) auto
  then show ?case by (simp add: json_Suc json_scalar_def u_def prefixed_def)
next
  case (PBool t)
  then obtain m where n: "n = Suc m" by (cases n; cases t) auto
  then show ?case by (simp add: json_Suc json_scalar_def u_def prefixed_def)
qed auto

text \<open>White space behind the value (a line's end) is skipped.\<close>

lemma json_loads_write_ws:
  assumes "good_seps isep ksep" "good_esc esc" "json_ok v" "\<forall>c\<in>set w. json_ws c"
  shows "json_loads (json_write isep ksep esc v @ w) = Inr v"
proof -
  let ?s = "json_write isep ksep esc v"
  obtain c s where cs: "?s = c # s" "\<not> json_ws c" using json_write_start [OF assms(3)] by blast
  have "c \<noteq> 0xFEFF"
  proof (cases v)
    case (PInt i)
    then show ?thesis using cs hd_int_str [of i "[]"] by (auto simp: is_digit_def)
  qed (use cs assms(3) in \<open>auto simp: u_def quote_def split: if_splits\<close>)
  moreover have "num_stop w" using assms(4) by (cases w) (auto simp: num_stop_def json_ws_def is_digit_def)
  then have "json_value (Suc (2 * length (?s @ w))) (?s @ w) = Some (v, w)"
    using assms by (intro json_value_write) auto
  moreover have "skip_ws w = []" using assms(4) by (simp add: skip_ws_def)
  ultimately show ?thesis using cs by (simp add: json_loads_def)
qed

theorem json_loads_write:
  "good_seps isep ksep \<Longrightarrow> good_esc esc \<Longrightarrow> json_ok v \<Longrightarrow> json_loads (json_write isep ksep esc v) = Inr v"
  using json_loads_write_ws [of isep ksep esc v "[]"] by simp

lemma good_seps_default: "good_seps (u '', '') (u '': '')"
  and good_seps_compact: "good_seps [44] [58]"
  by (simp_all add: good_seps_def u_def json_ws_def)

lemma json_loads_dumps: "json_ok v \<Longrightarrow> json_dumps v = Inr s \<Longrightarrow> json_loads s = Inr v"
  using json_loads_write [OF good_seps_default good_esc_ascii]
  by (auto simp: json_dumps_def json_dumps_sep_def split: if_splits)

interpretation json: codec json_dumps json_loads json_ok
  by unfold_locales (rule json_loads_dumps)

end
