(* ===== verification/Jcs.thy ===== *)
theory Jcs
  imports JsonRoundtrip "HOL-Library.Multiset"
begin

text \<open>
  \<open>oversight_core/jcs.py\<close>: the canonical JSON (RFC 8785) behind every signature and every
  hash of the program. \<open>jcs_dumps\<close> is defined exactly where the source returns bytes; on
  JSON values it is the compact writer applied to the value with all keys sorted (\<open>canon\<close>), it
  reads back to that value, and so two values have the same bytes exactly if they are the same
  up to the order of keys.
\<close>

section \<open>The serializer\<close>

definition short_escape :: "nat \<Rightarrow> pystr option" where
  "short_escape c =
     (if c = 0x08 then Some (u [CHR 0x5C, CHR ''b''])
      else if c = 0x09 then Some (u [CHR 0x5C, CHR ''t''])
      else if c = 0x0A then Some (u [CHR 0x5C, CHR ''n''])
      else if c = 0x0C then Some (u [CHR 0x5C, CHR ''f''])
      else if c = 0x0D then Some (u [CHR 0x5C, CHR ''r''])
      else None)"

definition jcs_esc :: "nat \<Rightarrow> pystr" where
  "jcs_esc c =
     (if c = 0x22 then [0x5C, 0x22]
      else if c = 0x5C then [0x5C, 0x5C]
      else if c < 0x20 then
        (case short_escape c of Some e \<Rightarrow> e | None \<Rightarrow> unicode_escape c)
      else [c])"

definition serialize_str :: "pystr \<Rightarrow> pystr" where
  "serialize_str s = 0x22 # concat (map jcs_esc s) @ [0x22]"

text \<open>The sort key of an item, \<open>kv[0].encode("utf-16-be")\<close>.\<close>

definition key16 :: "pykey \<Rightarrow> bytes res" where
  "key16 k = (case k of KStr t \<Rightarrow> utf16be t | _ \<Rightarrow> Inl (AttributeError ''encode''))"

definition sort_items :: "(pykey \<times> pyval) list \<Rightarrow> (pykey \<times> pyval) list res" where
  "sort_items kvs =
     ebind (mapM_res (\<lambda>kv. ebind (key16 (fst kv)) (\<lambda>k16. Inr (k16, kv))) kvs)
       (\<lambda>xs. Inr (map snd (sort_key fst xs)))"

lemma sort_items_set: "sort_items kvs = Inr items \<Longrightarrow> set items \<subseteq> set kvs"
proof -
  assume "sort_items kvs = Inr items"
  then obtain xs where xs: "list_all2 (\<lambda>kv x. ebind (key16 (fst kv)) (\<lambda>k16. Inr (k16, kv)) = Inr x) kvs xs"
    and items: "items = map snd (sort_key fst xs)"
    by (auto simp: sort_items_def ebind_eq_Inr mapM_res_eq_Inr)
  from xs have "map snd xs = kvs"
    by (induction rule: list_all2_induct) (auto simp: ebind_eq_Inr)
  then show ?thesis using items by (metis list.set_map set_sort subset_refl)
qed

function serialize :: "pyval \<Rightarrow> pystr res" where
  "serialize PNone = Inr (u ''null'')"
| "serialize (PBool t) = Inr (if t then u ''true'' else u ''false'')"
| "serialize (PInt i) = Inr (int_str i)"
| "serialize (PFloat f) = Inl (TypeError ''JCS: floats are unsupported'')"
| "serialize (PStr s) = Inr (serialize_str s)"
| "serialize (PList xs) =
     ebind (mapM_res serialize xs) (\<lambda>ps. Inr (0x5B # join [0x2C] ps @ [0x5D]))"
| "serialize (PDict kvs) =
     ebind (sort_items kvs) (\<lambda>items.
     ebind (mapM_res (\<lambda>kv.
              case fst kv of
                KStr t \<Rightarrow> ebind (serialize (snd kv)) (\<lambda>p. Inr (serialize_str t @ 0x3A # p))
              | _ \<Rightarrow> Inl (TypeError ''JCS: dict keys must be str'')) items)
       (\<lambda>ps. Inr (0x7B # join [0x2C] ps @ [0x7D])))"
| "serialize (PBytes x) = Inl (TypeError ''JCS: unsupported type'')"
  by pat_completeness auto
termination
proof (relation "measure size", simp)
  fix xs and x :: pyval
  assume "x \<in> set xs"
  then show "(x, PList xs) \<in> measure size"
    by (simp add: less_Suc_eq_le size_list_estimation')
next
  fix kvs items and kv :: "pykey \<times> pyval" and t
  assume "sort_items kvs = Inr items" "kv \<in> set items"
  then have kv: "kv \<in> set kvs" using sort_items_set by auto
  have "size (snd kv) < size_prod (\<lambda>_. 0) size kv" by (cases kv) simp
  with kv show "(snd kv, PDict kvs) \<in> measure size"
    by (auto intro!: less_SucI size_list_estimation [where f = "size_prod (\<lambda>_. 0) size"])
qed

definition jcs_dumps :: "pyval \<Rightarrow> bytes res" where
  "jcs_dumps obj = ebind (serialize obj) utf8_encode"

section \<open>The value a canonical text stands for\<close>

definition item16 :: "pykey \<times> pyval \<Rightarrow> bytes" where
  "item16 kv = (case key16 (fst kv) of Inl _ \<Rightarrow> [] | Inr x \<Rightarrow> x)"

fun canon :: "pyval \<Rightarrow> pyval" where
  "canon (PList xs) = PList (map canon xs)"
| "canon (PDict kvs) = PDict (sort_key item16 (map (\<lambda>(k, v). (k, canon v)) kvs))"
| "canon v = v"

lemma insort_key_map: "insort_key g (f x) (map f xs) = map f (insort_key (\<lambda>y. g (f y)) x xs)"
  by (induction xs) auto

lemma sort_key_map: "sort_key g (map f xs) = map f (sort_key (\<lambda>x. g (f x)) xs)"
  by (induction xs) (auto simp: insort_key_map)

lemma key_ok_16: "key_ok k \<Longrightarrow> \<exists>x. key16 k = Inr x"
  using utf16be_ok_iff
  by (auto simp: key_ok_def key16_def scalar_str_def list_all_iff is_ok_ex split: pykey.splits)

lemma sort_items_ok:
  assumes "\<And>k v. (k, v) \<in> set kvs \<Longrightarrow> key_ok k"
  shows "sort_items kvs = Inr (sort_key item16 kvs)"
proof -
  have "mapM_res (\<lambda>kv. ebind (key16 (fst kv)) (\<lambda>k16. Inr (k16, kv))) kvs
      = Inr (map (\<lambda>kv. (item16 kv, kv)) kvs)"
    using assms by (intro mapM_res_pure) (force simp: item16_def dest: key_ok_16)
  then show ?thesis
    by (simp add: sort_items_def sort_key_map comp_def)
qed

lemma json_ok_canon: "json_ok v \<Longrightarrow> json_ok (canon v)"
proof (induction v rule: canon.induct)
  case (2 kvs)
  have "distinct (map (fst \<circ> (\<lambda>(k, v). (k, canon v))) kvs) \<longleftrightarrow> distinct (map fst kvs)"
    by (rule arg_cong [where f = distinct]) auto
  moreover have "distinct (map fst (sort_key item16 zs)) \<longleftrightarrow> distinct (map fst zs)" for zs
    by (metis distinct_map distinct_sort mset_map mset_sort mset_eq_imp_distinct_iff)
  ultimately show ?case using 2 by (auto simp: list_all_iff)
qed (auto simp: list_all_iff)

lemma serialize_str_quote: "serialize_str s = quote jcs_esc s"
  by (simp add: serialize_str_def quote_def)

lemma serialize_write: "json_ok v \<Longrightarrow> serialize v = Inr (json_write [44] [58] jcs_esc (canon v))"
proof (induction v rule: json_ok.induct)
  case (5 xs)
  then have "mapM_res serialize xs = Inr (map (json_write [44] [58] jcs_esc \<circ> canon) xs)"
    by (intro mapM_res_pure) (auto simp: list_all_iff)
  then show ?case by simp
next
  case (6 kvs)
  let ?W = "json_write [44] [58] jcs_esc"
  let ?c = "\<lambda>(k, v). (k, canon v)"
  have "sort_items kvs = Inr (sort_key item16 kvs)"
    using 6 by (intro sort_items_ok) (auto simp: list_all_iff)
  moreover have "mapM_res (\<lambda>kv. case fst kv of
       KStr t \<Rightarrow> ebind (serialize (snd kv)) (\<lambda>p. Inr (serialize_str t @ 0x3A # p))
     | _ \<Rightarrow> Inl (TypeError ''JCS: dict keys must be str'')) (sort_key item16 kvs)
     = Inr (map ((\<lambda>(k, v). quote jcs_esc (key_text k) @ [58] @ ?W v) \<circ> ?c) (sort_key item16 kvs))"
    using 6 by (intro mapM_res_pure)
      (auto simp: list_all_iff serialize_str_quote key_text_def key_ok_def split: pykey.splits)
  moreover have "(\<lambda>x. item16 (?c x)) = item16" by (auto simp: item16_def)
  ultimately show ?case by (simp add: sort_key_map)
qed (simp_all add: serialize_str_quote)

lemma good_jcs_esc: "good_esc jcs_esc"
  unfolding good_esc_def
proof (intro allI impI)
  fix c r assume sc: "is_scalar c"
  consider "c \<in> {34, 92, 8, 9, 10, 12, 13}" | "32 \<le> c" "c \<notin> {34, 92}"
    | "c < 32" "c \<notin> {8, 9, 10, 12, 13}" by fastforce
  then show "json_str (jcs_esc c @ r) = map_option (\<lambda>(t, r'). (c # t, r')) (json_str r)"
  proof cases
    case 3
    then have "json_escape (117 # hex4_digits c @ r) = Some (c, r)"
      by (intro json_escape_unicode) auto
    with 3 show ?thesis by (auto simp: jcs_esc_def unicode_escape_def short_escape_def)
  qed (auto simp: jcs_esc_def short_escape_def json_escape_def u_def)
qed

section \<open>Correctness\<close>

lemma scalar_below: "c < 0xD800 \<Longrightarrow> is_scalar c"
  by (auto simp: is_scalar_def is_surrogate_def)

lemma hex4_digits_scalar: "c \<in> set (hex4_digits n) \<Longrightarrow> is_scalar c"
proof -
  assume "c \<in> set (hex4_digits n)"
  then obtain m where "m < 16" "c = hex_digit m"
    by (simp add: hex4_digits_def) (metis mod_less_divisor zero_less_numeral)
  then show ?thesis by (intro scalar_below) (auto simp: hex_digit_def)
qed

lemma jcs_esc_scalar: "is_scalar c \<Longrightarrow> d \<in> set (jcs_esc c) \<Longrightarrow> is_scalar d"
  by (auto simp: jcs_esc_def short_escape_def unicode_escape_def u_def
      intro: scalar_below hex4_digits_scalar split: if_splits)

lemma quote_scalar: "scalar_str t \<Longrightarrow> d \<in> set (quote jcs_esc t) \<Longrightarrow> is_scalar d"
  by (auto simp: quote_def scalar_str_def list_all_iff intro: jcs_esc_scalar scalar_below)

lemma set_join: "c \<in> set (join sep xs) \<Longrightarrow> c \<in> set sep \<or> (\<exists>x\<in>set xs. c \<in> set x)"
  by (induction sep xs rule: join.induct) auto

lemma u_scalar: "c \<in> set (u s) \<Longrightarrow> is_scalar c"
  using u_bound [of c s] by (intro scalar_below) simp

lemma int_str_scalar: "c \<in> set (int_str i) \<Longrightarrow> is_scalar c"
  by (auto simp: int_str_def is_digit_def intro!: scalar_below dest!: nat_digits_digit split: if_splits)

lemma json_write_scalar:
  "json_ok v \<Longrightarrow> c \<in> set (json_write [44] [58] jcs_esc v) \<Longrightarrow> is_scalar c"
proof (induction v arbitrary: c rule: json_ok.induct)
  case (5 xs)
  from "5.prems"(2) consider "c \<in> {91, 93, 44}"
    | x where "x \<in> set xs" "c \<in> set (json_write [44] [58] jcs_esc x)"
    by (auto dest!: set_join)
  then show ?case
  proof cases
    case 1
    then show ?thesis by (auto simp: is_scalar_def is_surrogate_def)
  next
    case 2
    then show ?thesis using "5.IH" [of x c] "5.prems"(1) by (simp add: list_all_iff)
  qed
next
  case (6 kvs)
  from "6.prems"(2) consider "c \<in> {123, 125, 44, 58}"
    | k v where "(k, v) \<in> set kvs" "c \<in> set (quote jcs_esc (key_text k))"
    | k v where "(k, v) \<in> set kvs" "c \<in> set (json_write [44] [58] jcs_esc v)"
    by (auto dest!: set_join)
  then show ?case
  proof cases
    case 1
    then show ?thesis by (auto simp: is_scalar_def is_surrogate_def)
  next
    case (2 k v)
    then obtain t where "k = KStr t" "scalar_str t"
      using "6.prems"(1) by (auto simp: list_all_iff key_ok_def split: pykey.splits)
    then show ?thesis using 2 quote_scalar [of t c] by (simp add: key_text_def)
  next
    case (3 k v)
    then show ?thesis using "6.IH" [of "(k, v)" k v c] "6.prems"(1) by (auto simp: list_all_iff)
  qed
qed (auto intro: u_scalar int_str_scalar quote_scalar split: if_splits)

lemma jcs_dumps_ok:
  assumes "json_ok v"
  obtains bs where "jcs_dumps v = Inr bs"
    "utf8_decode bs = Inr (json_write [44] [58] jcs_esc (canon v))"
proof -
  let ?s = "json_write [44] [58] jcs_esc (canon v)"
  have "is_ok (utf8_encode ?s)"
    using json_write_scalar json_ok_canon [OF assms] by (auto simp: utf8_encode_ok_iff)
  then obtain bs where "utf8_encode ?s = Inr bs" by (auto simp: is_ok_ex)
  then show thesis
    using that serialize_write [OF assms] utf8_decode_encode by (auto simp: jcs_dumps_def)
qed

text \<open>The reader of \<open>Manifest.from_json\<close> and its kin: \<open>json.loads(data.decode("utf-8"))\<close>.\<close>

definition loads_utf8 :: "bytes \<Rightarrow> pyval res" where
  "loads_utf8 data = ebind (utf8_decode data) json_loads"

lemma loads_jcs:
  assumes "json_ok v" "jcs_dumps v = Inr bs"
  shows "loads_utf8 bs = Inr (canon v)"
proof -
  have "json_loads (json_write [44] [58] jcs_esc (canon v)) = Inr (canon v)"
    using good_seps_compact good_jcs_esc json_ok_canon [OF assms(1)] by (rule json_loads_write)
  then show ?thesis
    using assms by (auto simp: loads_utf8_def elim: jcs_dumps_ok)
qed

lemma jcs_inject:
  "json_ok v \<Longrightarrow> json_ok w \<Longrightarrow> jcs_dumps v = jcs_dumps w \<longleftrightarrow> canon v = canon w"
proof
  assume ok: "json_ok v" "json_ok w" and "jcs_dumps v = jcs_dumps w"
  then show "canon v = canon w" using loads_jcs jcs_dumps_ok by (metis Inr_inject)
qed (simp add: jcs_dumps_def serialize_write)

section \<open>Properties\<close>

text \<open>
  C25: the canonical bytes of a JSON value exist, are well-formed JSON that reads back to the value
  with its keys sorted, and are shared by exactly the values that differ in the order of keys only.
\<close>

theorem jcs_canonical:
  assumes "json_ok v" "json_ok w"
  shows "\<exists>bs. jcs_dumps v = Inr bs \<and> loads_utf8 bs = Inr (canon v) \<and> (jcs_dumps w = Inr bs \<longleftrightarrow> canon w = canon v)"
proof -
  obtain bs where bs: "jcs_dumps v = Inr bs" using jcs_dumps_ok [OF assms(1)] by blast
  then show ?thesis using loads_jcs [OF assms(1) bs] jcs_inject [OF assms(2,1)] by auto
qed

theorem jcs_canonical_witness:
  "\<exists>bs. jcs_dumps (PDict [(key ''b'', PInt 1), (key ''a'', PNone)]) = Inr bs
     \<and> loads_utf8 bs = Inr (canon (PDict [(key ''b'', PInt 1), (key ''a'', PNone)]))
     \<and> jcs_dumps (PDict [(key ''a'', PNone), (key ''b'', PInt 1)]) = Inr bs"
proof -
  have "json_ok (PDict [(key ''b'', PInt 1), (key ''a'', PNone)])" "json_ok (PDict [(key ''a'', PNone), (key ''b'', PInt 1)])"
    by (simp_all add: key_ok_def key_def scalar_str_def u_def is_scalar_def is_surrogate_def)
  moreover have "canon (PDict [(key ''a'', PNone), (key ''b'', PInt 1)]) = canon (PDict [(key ''b'', PInt 1), (key ''a'', PNone)])"
    by (simp add: item16_def key16_def key_def u_def is_scalar_def is_surrogate_def utf16_char_def be16_def)
  ultimately show ?thesis using jcs_canonical by blast
qed

text \<open>
  The order of keys is that of UTF-16 code units and not that of code points: U+10000, whose
  first code unit is a surrogate, sorts in front of U+FFFF.
\<close>

theorem jcs_order_not_code_points:
  "sort_items [(KStr [0xFFFF], v), (KStr [0x10000], w)] = Inr [(KStr [0x10000], w), (KStr [0xFFFF], v)]
   \<and> [0xFFFF] < [0x10000 :: nat]"
  by (simp add: sort_items_def key16_def is_scalar_def is_surrogate_def utf16_char_def be16_def)

end
