(* ===== verification/PyText.thy ===== *)
theory PyText
  imports Unicode
begin

text \<open>
  The \<open>str\<close> methods the program uses, on lists of code points: white space in Python's sense,
  stripping, splitting, joining, line iteration over a text file, and case conversion on ASCII (how
  other characters change is a table of the Unicode version Python was built with: the components
  that need it take it as a parameter).
\<close>

section \<open>White space and stripping\<close>

definition is_space :: "nat \<Rightarrow> bool" where
  "is_space c \<longleftrightarrow> (9 \<le> c \<and> c \<le> 13) \<or> (28 \<le> c \<and> c \<le> 32) \<or> c = 0x85 \<or> c = 0xA0 \<or> c = 0x1680
     \<or> (0x2000 \<le> c \<and> c \<le> 0x200A) \<or> c = 0x2028 \<or> c = 0x2029 \<or> c = 0x202F \<or> c = 0x205F \<or> c = 0x3000"

definition lstrip :: "pystr \<Rightarrow> pystr" where
  "lstrip s = dropWhile is_space s"

definition rstrip :: "pystr \<Rightarrow> pystr" where
  "rstrip s = rev (dropWhile is_space (rev s))"

definition strip :: "pystr \<Rightarrow> pystr" where
  "strip s = rstrip (lstrip s)"

text \<open>\<open>s.rstrip(chars)\<close>\<close>

definition rstrip_chars :: "pystr \<Rightarrow> pystr \<Rightarrow> pystr" where
  "rstrip_chars chars s = rev (dropWhile (\<lambda>c. c \<in> set chars) (rev s))"

lemma rstrip_snoc: "rstrip (s @ [c]) = (if is_space c then rstrip s else s @ [c])"
  by (simp add: rstrip_def)

lemma rstrip_id_iff: "rstrip s = s \<longleftrightarrow> s = [] \<or> \<not> is_space (last s)"
proof (cases s rule: rev_cases)
  case (snoc ys y)
  have "length (rstrip ys) \<le> length ys"
    by (simp add: rstrip_def length_dropWhile_le [THEN order_trans])
  then have "rstrip ys \<noteq> ys @ [y]" by auto
  with snoc show ?thesis by (simp add: rstrip_snoc)
qed (simp add: rstrip_def)

lemma strip_eq_Nil: "strip s = [] \<longleftrightarrow> (\<forall>c\<in>set s. is_space c)"
proof -
  have "strip s = [] \<longleftrightarrow> (\<forall>c\<in>set (lstrip s). is_space c)"
    by (simp add: strip_def rstrip_def)
  also have "\<dots> \<longleftrightarrow> (\<forall>c\<in>set s. is_space c)"
    unfolding lstrip_def by (induction s) auto
  finally show ?thesis .
qed

section \<open>Splitting\<close>

text \<open>\<open>s.split(sep)\<close> for a separator of one character: always at least one part.\<close>

fun split_on :: "nat \<Rightarrow> pystr \<Rightarrow> pystr list" where
  "split_on c [] = [[]]"
| "split_on c (x # s) =
     (if x = c then [] # split_on c s
      else case split_on c s of p # ps \<Rightarrow> (x # p) # ps | [] \<Rightarrow> [[x]])"

lemma split_on_ne [simp]: "split_on c s \<noteq> []"
  by (induction s) (auto split: list.splits)

lemma join_split_on: "join [c] (split_on c s) = s"
proof (induction s)
  case (Cons x s)
  obtain p ps where p: "split_on c s = p # ps" using split_on_ne by (cases "split_on c s") auto
  show ?case
  proof (cases "x = c")
    case True
    then show ?thesis using Cons p by simp
  next
    case False
    then show ?thesis using Cons p by (cases ps) auto
  qed
qed simp

lemma split_on_no_sep: "p \<in> set (split_on c s) \<Longrightarrow> c \<notin> set p"
proof (induction s arbitrary: p)
  case (Cons x s)
  then show ?case by (fastforce split: if_splits list.splits)
qed simp

lemma split_on_single: "c \<notin> set p \<Longrightarrow> split_on c p = [p]"
  by (induction p) auto

lemma split_on_append: "c \<notin> set p \<Longrightarrow> split_on c (p @ c # s) = p # split_on c s"
  by (induction p) auto

lemma split_on_join:
  "ps \<noteq> [] \<Longrightarrow> (\<And>p. p \<in> set ps \<Longrightarrow> c \<notin> set p) \<Longrightarrow> split_on c (join [c] ps) = ps"
proof (induction ps)
  case (Cons p ps)
  show ?case
  proof (cases "ps = []")
    case False
    then show ?thesis using Cons by (simp add: join_Cons split_on_append)
  qed (use Cons in \<open>simp add: split_on_single\<close>)
qed simp

text \<open>\<open>s.split()\<close>: the maximal runs of characters that are not white space.\<close>

function split_ws :: "pystr \<Rightarrow> pystr list" where
  "split_ws s =
     (let r = dropWhile is_space s
      in if r = [] then []
         else takeWhile (\<lambda>c. \<not> is_space c) r # split_ws (dropWhile (\<lambda>c. \<not> is_space c) r))"
  by pat_completeness auto
termination
proof (relation "measure length", simp)
  fix s r :: pystr
  assume r: "r = dropWhile is_space s" and ne: "r \<noteq> []"
  then obtain c t where "r = c # t" "\<not> is_space c"
    by (metis hd_dropWhile list.exhaust_sel)
  then have "length (dropWhile (\<lambda>c. \<not> is_space c) r) < length r"
    by (simp add: le_imp_less_Suc length_dropWhile_le)
  also have "\<dots> \<le> length s" by (simp add: r length_dropWhile_le)
  finally show "(dropWhile (\<lambda>c. \<not> is_space c) r, s) \<in> measure length" by simp
qed

declare split_ws.simps [simp del]

text \<open>
  The lines of a text file in Python's default mode: a line ends behind a newline, and
  \<open>CR\<close> and \<open>CR LF\<close> are read as newlines.
\<close>

fun universal_newlines :: "pystr \<Rightarrow> pystr" where
  "universal_newlines [] = []"
| "universal_newlines (c # s) =
     (if c = 13 then 10 # universal_newlines (if s \<noteq> [] \<and> hd s = 10 then tl s else s)
      else c # universal_newlines s)"

fun lines_of :: "pystr \<Rightarrow> pystr list" where
  "lines_of [] = []"
| "lines_of (c # s) =
     (if c = 10 then [10] # lines_of s
      else case lines_of s of [] \<Rightarrow> [[c]] | l # ls \<Rightarrow> (c # l) # ls)"

definition file_lines :: "pystr \<Rightarrow> pystr list" where
  "file_lines content = lines_of (universal_newlines content)"

lemma universal_newlines_id: "13 \<notin> set s \<Longrightarrow> universal_newlines s = s"
  by (induction s) auto

lemma lines_of_line: "10 \<notin> set l \<Longrightarrow> lines_of (l @ 10 # s) = (l @ [10]) # lines_of s"
  by (induction l) auto

lemma lines_of_append: "s = [] \<or> last s = 10 \<Longrightarrow> lines_of (s @ t) = lines_of s @ lines_of t"
proof (induction s rule: lines_of.induct)
  case (2 c s)
  show ?case
  proof (cases "s = []")
    case True
    then show ?thesis using 2 by auto
  next
    case False
    then have "lines_of (s @ t) = lines_of s @ lines_of t" using 2 by auto
    moreover have "lines_of s \<noteq> []" using False by (cases s) (auto split: list.splits)
    ultimately show ?thesis by (auto split: list.splits)
  qed
qed simp

section \<open>Case and prefixes\<close>

definition ascii_lower :: "nat \<Rightarrow> nat" where
  "ascii_lower c = (if 65 \<le> c \<and> c \<le> 90 then c + 32 else c)"

definition ascii_upper :: "nat \<Rightarrow> nat" where
  "ascii_upper c = (if 97 \<le> c \<and> c \<le> 122 then c - 32 else c)"

text \<open>\<open>sub in s\<close>\<close>

fun contains :: "pystr \<Rightarrow> pystr \<Rightarrow> bool" where
  "contains sub [] \<longleftrightarrow> sub = []"
| "contains sub (c # s) \<longleftrightarrow> prefixed sub (c # s) \<or> contains sub s"

lemma contains_iff: "contains sub s \<longleftrightarrow> (\<exists>a z. s = a @ sub @ z)"
proof (induction s)
  case (Cons c s)
  have "(\<exists>a z. c # s = a @ sub @ z) \<longleftrightarrow> prefixed sub (c # s) \<or> (\<exists>a z. s = a @ sub @ z)"
    by (auto simp: prefixed_iff Cons_eq_append_conv)
  with Cons show ?case by simp
qed simp

text \<open>\<open>s.replace(c, t)\<close> for a single character.\<close>

definition remove_char :: "nat \<Rightarrow> pystr \<Rightarrow> pystr" where
  "remove_char c s = filter (\<lambda>x. x \<noteq> c) s"

end
