(* ===== verification/PyObj.thy ===== *)
theory PyObj
  imports Jcs PyText
begin

text \<open>
  Operations on Python values the components share: attribute-like reads of a parsed JSON object
  (\<open>d[k]\<close>, \<open>d.get(k)\<close>), type tests, and what the text \<open>json.dumps\<close> writes looks like: one line of
  printable ASCII, read back with its line end.
\<close>

section \<open>Reading objects\<close>

definition ditem :: "pydict \<Rightarrow> string \<Rightarrow> pyval res" where
  "ditem d k = (case dget d k of None \<Rightarrow> Inl (KeyError k) | Some v \<Rightarrow> Inr v)"

definition dgetn :: "pydict \<Rightarrow> string \<Rightarrow> pyval" where
  "dgetn d k = dgetd d k PNone"

lemma ditem_simps [simp]:
  "ditem [] k = Inl (KeyError k)"
  "ditem ((k', v) # d) k = (if k' = key k then Inr v else ditem d k)"
  by (simp_all add: ditem_def)

lemma dgetn_simps [simp]:
  "dgetn [] k = PNone"
  "dgetn ((k', v) # d) k = (if k' = key k then v else dgetn d k)"
  by (simp_all add: dgetn_def dgetd_def)

definition is_str :: "pyval \<Rightarrow> bool" where
  "is_str v = (case v of PStr _ \<Rightarrow> True | _ \<Rightarrow> False)"

definition is_dict :: "pyval \<Rightarrow> bool" where
  "is_dict v = (case v of PDict _ \<Rightarrow> True | _ \<Rightarrow> False)"

lemma is_str_iff: "is_str v \<longleftrightarrow> (\<exists>s. v = PStr s)"
  by (cases v) (auto simp: is_str_def)

lemma is_dict_iff: "is_dict v \<longleftrightarrow> (\<exists>d. v = PDict d)"
  by (cases v) (auto simp: is_dict_def)

text \<open>\<open>bytes.fromhex(v)\<close>: anything but a string is a \<open>TypeError\<close>.\<close>

definition py_fromhex :: "pyval \<Rightarrow> bytes res" where
  "py_fromhex v =
     (case v of PStr s \<Rightarrow> fromhex s | _ \<Rightarrow> Inl (TypeError ''fromhex() argument must be str''))"

lemma py_fromhex_hex [simp]: "py_fromhex (PStr (hex x)) = Inr x"
  by (simp add: py_fromhex_def)

section \<open>Written JSON is one printable line\<close>

definition printable :: "nat \<Rightarrow> bool" where
  "printable c \<longleftrightarrow> 32 \<le> c \<and> c < 127"

lemma printable_digits: "printable (hex_digit (n mod 16))"
proof -
  have "n mod 16 < 16" by simp
  then show ?thesis by (auto simp: printable_def hex_digit_def)
qed

lemma hex_printable: "c \<in> set (hex x) \<Longrightarrow> printable c"
proof -
  have "printable (hex_digit (unat b div 16)) \<and> printable (hex_digit (unat b mod 16))" for b :: byte
    using printable_digits [of "unat b div 16"] printable_digits [of "unat b"] byte_bound [of b] by simp
  then show "c \<in> set (hex x) \<Longrightarrow> printable c" by (auto simp: hex_def byte_hex_def)
qed

lemma int_str_printable: "c \<in> set (int_str i) \<Longrightarrow> printable c"
  by (auto simp: int_str_def printable_def is_digit_def dest!: nat_digits_digit split: if_splits)

lemma unicode_escape_printable: "d \<in> set (unicode_escape n) \<Longrightarrow> printable d"
  unfolding unicode_escape_def hex4_digits_def using printable_digits
  by (fastforce simp: printable_def [of 92] printable_def [of 117])

lemma esc_ascii_printable: "d \<in> set (esc_ascii c) \<Longrightarrow> printable d"
  unfolding esc_ascii_def
  by (auto simp: unicode_escape_printable printable_def split: if_splits
      dest!: unicode_escape_printable)

lemma quote_printable: "d \<in> set (quote esc_ascii t) \<Longrightarrow> printable d"
  by (auto simp: quote_def dest: esc_ascii_printable) (auto simp: printable_def)

lemma json_write_printable:
  "c \<in> set (json_write (u '', '') (u '': '') esc_ascii v) \<Longrightarrow> printable c"
proof (induction v)
  case (PDict kvs)
  then show ?case
    by (auto dest!: set_join quote_printable split: prod.splits)
       (auto simp: printable_def u_def)
next
  case (PList xs)
  then show ?case by (auto dest!: set_join) (auto simp: printable_def u_def)
qed (auto dest: int_str_printable quote_printable simp: printable_def u_def split: if_splits)

lemma json_dumps_printable: "json_dumps v = Inr s \<Longrightarrow> c \<in> set s \<Longrightarrow> printable c"
  by (auto simp: json_dumps_def json_dumps_sep_def split: if_splits dest: json_write_printable)

lemma json_dumps_ok: "json_ok v \<Longrightarrow> \<exists>s. json_dumps v = Inr s"
  by (simp add: json_dumps_def json_dumps_sep_def json_ok_dumpable)

lemma json_dumps_first: "json_ok v \<Longrightarrow> json_dumps v = Inr s \<Longrightarrow> \<exists>c t. s = c # t \<and> \<not> is_space c"
proof -
  assume v: "json_ok v" "json_dumps v = Inr s"
  then have s: "s = json_write (u '', '') (u '': '') esc_ascii v"
    by (auto simp: json_dumps_def json_dumps_sep_def split: if_splits)
  then obtain c t where c: "s = c # t" "\<not> json_ws c" using json_write_start [OF v(1)] by metis
  then have "printable c" using json_dumps_printable [OF v(2)] by simp
  with c show ?thesis by (auto simp: printable_def json_ws_def is_space_def)
qed

lemma json_loads_line: "json_ok v \<Longrightarrow> json_dumps v = Inr s \<Longrightarrow> json_loads (s @ [10]) = Inr v"
  using json_loads_write_ws [OF good_seps_default good_esc_ascii, of v "[10]"]
  by (auto simp: json_dumps_def json_dumps_sep_def json_ws_def split: if_splits)

lemma scalar_str_hex [simp]: "scalar_str (hex x)"
proof -
  have "printable c \<Longrightarrow> is_scalar c" for c
    by (simp add: printable_def scalar_below)
  then show ?thesis by (auto simp: scalar_str_def list_all_iff dest: hex_printable)
qed

lemma json_ok_hex: "json_ok (PStr (hex x))"
  by simp

lemma scalar_str_u [simp]: "scalar_str (u s)"
  by (auto simp: scalar_str_def list_all_iff dest: u_scalar)

lemma key_ok_key [simp]: "key_ok (key s)"
  by (simp add: key_ok_def key_def)

section \<open>\<open>int(v)\<close>\<close>

text \<open>
  Text: white space around, a sign, digits with single underscores between them (ASCII digits; the
  other decimal digits of Unicode and the limit of 4300 digits are left out).
\<close>

definition int_digits :: "pystr \<Rightarrow> int res" where
  "int_digits s =
     (let parts = split_on 95 s in
      if list_all (\<lambda>p. p \<noteq> [] \<and> list_all is_digit p) parts then Inr (int (digits_val (concat parts)))
      else Inl (ValueError ''invalid literal for int()''))"

definition int_of_str :: "pystr \<Rightarrow> int res" where
  "int_of_str s =
     (case strip s of
        c # t \<Rightarrow>
          if c = 45 then ebind (int_digits t) (\<lambda>i. Inr (- i))
          else if c = 43 then int_digits t
          else int_digits (c # t)
      | [] \<Rightarrow> Inl (ValueError ''invalid literal for int()''))"

definition trunc :: "rat \<Rightarrow> int" where
  "trunc q = (if q < 0 then - \<lfloor>- q\<rfloor> else \<lfloor>q\<rfloor>)"

definition py_int :: "pyval \<Rightarrow> int res" where
  "py_int v =
     (case v of
        PInt i \<Rightarrow> Inr i
      | PBool t \<Rightarrow> Inr (if t then 1 else 0)
      | PFloat (Fin q) \<Rightarrow> Inr (trunc q)
      | PFloat NaN \<Rightarrow> Inl (ValueError ''cannot convert float NaN to integer'')
      | PFloat _ \<Rightarrow> Inl OverflowError
      | PStr s \<Rightarrow> int_of_str s
      | PBytes x \<Rightarrow> int_of_str (map unat x)
      | _ \<Rightarrow> Inl (TypeError ''int() argument''))"

lemma py_int_simps [simp]: "py_int (PInt i) = Inr i" "py_int (PBool t) = Inr (if t then 1 else 0)"
  by (simp_all add: py_int_def)

section \<open>Iterating over a value\<close>

definition py_iter :: "pyval \<Rightarrow> pyval list res" where
  "py_iter v =
     (case v of
        PList xs \<Rightarrow> Inr xs
      | PStr s \<Rightarrow> Inr (map (\<lambda>c. PStr [c]) s)
      | PBytes x \<Rightarrow> Inr (map (\<lambda>b. PInt (int (unat b))) x)
      | PDict d \<Rightarrow>
          Inr (map (\<lambda>kv. case fst kv of KStr k \<Rightarrow> PStr k | KInt i \<Rightarrow> PInt i | KNone \<Rightarrow> PNone) d)
      | _ \<Rightarrow> Inl (TypeError ''object is not iterable''))"

lemma py_iter_list [simp]: "py_iter (PList xs) = Inr xs"
  by (simp add: py_iter_def)

end
