(* ===== verification/CryptoOps.thy ===== *)
theory CryptoOps
  imports PyStr
begin

text \<open>
  The primitives of the packages \<open>cryptography\<close>, \<open>nacl\<close> and \<open>oqs\<close>, which are not part of the
  repository: a record of functions that the model of \<open>crypto.py\<close> and of its callers takes as an
  argument. What the program relies on is stated as predicates on such a record, the documented
  behaviour of the packages: a signature made with a private key verifies under its public key,
  the two sides of a key agreement compute the same secret, decryption inverts encryption. They
  are hypotheses of the theorems that use them; \<open>toy_ops\<close> is a record that has them all, for
  the witnesses.

  Randomness (nonces, ephemeral keys, the data key) is an argument of the functions that draw it.
\<close>

record crypto_ops =
  ed_pub :: "bytes \<Rightarrow> bytes"
  ed_sign :: "bytes \<Rightarrow> bytes \<Rightarrow> bytes"
  ed_verify :: "bytes \<Rightarrow> bytes \<Rightarrow> bytes \<Rightarrow> bool"
  x_pub :: "bytes \<Rightarrow> bytes"
  x_exchange :: "bytes \<Rightarrow> bytes \<Rightarrow> bytes res"
  p_load_pub :: "bytes \<Rightarrow> bytes res"
  p_pub :: "bytes \<Rightarrow> bytes"
  p_exchange :: "bytes \<Rightarrow> bytes \<Rightarrow> bytes res"
  p_load_pkcs8 :: "bytes \<Rightarrow> bytes option res"
  p_derive :: "int \<Rightarrow> bytes res"
  hkdf :: "bytes \<Rightarrow> bytes \<Rightarrow> bytes"
  aead_enc :: "bytes \<Rightarrow> bytes \<Rightarrow> bytes \<Rightarrow> bytes \<Rightarrow> bytes"
  aead_dec :: "bytes \<Rightarrow> bytes \<Rightarrow> bytes \<Rightarrow> bytes \<Rightarrow> bytes res"
  kem_pub :: "bytes \<Rightarrow> bytes"
  kem_encap :: "bytes \<Rightarrow> bytes \<Rightarrow> bytes \<times> bytes"
  kem_decap :: "bytes \<Rightarrow> bytes \<Rightarrow> bytes"

text \<open>
  Arguments: \<open>ed_sign priv msg\<close>, \<open>ed_verify pub sig msg\<close>, \<open>x_exchange priv pub\<close>,
  \<open>hkdf info ikm\<close> (SHA-256, 32 bytes, no salt), \<open>aead_enc key nonce aad plaintext\<close>,
  \<open>aead_dec key nonce aad ciphertext\<close>, \<open>kem_encap randomness pub\<close> giving ciphertext and
  secret, \<open>kem_decap priv ciphertext\<close>.
\<close>

definition sig_correct :: "crypto_ops \<Rightarrow> bool" where
  "sig_correct C \<longleftrightarrow>
     (\<forall>sk msg. length sk = 32 \<longrightarrow>
        length (ed_pub C sk) = 32 \<and> ed_sign C sk msg \<noteq> []
        \<and> ed_verify C (ed_pub C sk) (ed_sign C sk msg) msg)"

definition dh_correct :: "crypto_ops \<Rightarrow> bool" where
  "dh_correct C \<longleftrightarrow>
     (\<forall>a bk. length a = 32 \<longrightarrow> length bk = 32 \<longrightarrow>
        length (x_pub C a) = 32
        \<and> (\<exists>s. x_exchange C a (x_pub C bk) = Inr s \<and> x_exchange C bk (x_pub C a) = Inr s))"

definition aead_correct :: "crypto_ops \<Rightarrow> bool" where
  "aead_correct C \<longleftrightarrow>
     (\<forall>info ikm. length (hkdf C info ikm) = 32)
     \<and> (\<forall>k n aad m. length k = 32 \<longrightarrow> length n = 24 \<longrightarrow>
          length (aead_enc C k n aad m) = length m + 16 \<and> aead_dec C k n aad (aead_enc C k n aad m) = Inr m)"

definition kem_correct :: "crypto_ops \<Rightarrow> bool" where
  "kem_correct C \<longleftrightarrow>
     (\<forall>r sk. kem_decap C sk (fst (kem_encap C r (kem_pub C sk))) = snd (kem_encap C r (kem_pub C sk)))"

definition p256_correct :: "crypto_ops \<Rightarrow> bool" where
  "p256_correct C \<longleftrightarrow>
     (\<forall>a bk. length (p_pub C a) = 65 \<and> p_load_pub C (p_pub C a) = Inr (p_pub C a)
        \<and> (\<exists>s. p_exchange C a (p_pub C bk) = Inr s \<and> p_exchange C bk (p_pub C a) = Inr s))"

text \<open>
  A record with all of these properties (and no secrecy): keys are their own public halves, the
  agreed secret is the byte-wise sum, encryption appends sixteen zeros.
\<close>

definition sum_bytes :: "bytes \<Rightarrow> bytes \<Rightarrow> bytes" where
  "sum_bytes x y = map2 (+) x y"

definition toy_ops :: crypto_ops where
  "toy_ops =
     \<lparr>ed_pub = (\<lambda>sk. sk), ed_sign = (\<lambda>sk m. 1 # sk @ m),
      ed_verify = (\<lambda>pk sig m. sig = 1 # pk @ m),
      x_pub = (\<lambda>sk. sk), x_exchange = (\<lambda>sk pk. Inr (sum_bytes sk pk)),
      p_load_pub = Inr, p_pub = (\<lambda>sk. take 65 (sk @ replicate 65 0)),
      p_exchange = (\<lambda>sk pk. Inr (sum_bytes (take 65 (sk @ replicate 65 0)) pk)),
      p_load_pkcs8 = (\<lambda>x. Inr (Some x)), p_derive = (\<lambda>i. Inr []),
      hkdf = (\<lambda>info ikm. take 32 (ikm @ replicate 32 0)),
      aead_enc = (\<lambda>k n aad m. m @ replicate 16 0), aead_dec = (\<lambda>k n aad c. Inr (take (length c - 16) c)),
      kem_pub = (\<lambda>sk. sk), kem_encap = (\<lambda>r pk. (r, r @ pk)),
      kem_decap = (\<lambda>sk ct. ct @ sk)\<rparr>"

lemma sum_bytes_commute: "sum_bytes x y = sum_bytes y x"
proof -
  have "map2 (+) x y = map2 (+) y (x :: bytes)"
    by (induction x y rule: list_induct2') (simp_all add: add.commute)
  then show ?thesis by (simp add: sum_bytes_def)
qed

lemma toy_ops_correct:
  "sig_correct toy_ops" "dh_correct toy_ops" "aead_correct toy_ops"
  "kem_correct toy_ops" "p256_correct toy_ops"
  by (auto simp: sig_correct_def dh_correct_def aead_correct_def kem_correct_def p256_correct_def
      toy_ops_def intro: sum_bytes_commute)

end
