(* ===== verification/Sha256.thy ===== *)
theory Sha256
  imports PyStr
begin

unbundle bit_operations_syntax

text \<open>
  \<open>hashlib.sha256\<close> as FIPS 180-4 defines it, on 32-bit words. The development uses two facts of
  it: it is a function of the bytes, and its digest has 32 bytes; the first is what every
  "hash mismatch" check rests on, the second what makes the concatenation of two digests
  readable again. Nothing is claimed about collisions: the theorems that need them name the
  colliding inputs.
\<close>

type_synonym word32 = "32 word"
type_synonym sha_state =
  "word32 \<times> word32 \<times> word32 \<times> word32 \<times> word32 \<times> word32 \<times> word32 \<times> word32"

text \<open>
  The constants of the standard are computed as it defines them: the first 32 bits of the fractional
  parts of the square roots (initial state) and cube roots (rounds) of the first primes. An integer
  root is found bit by bit; the roots at hand, scaled by \<open>2 ^ 32\<close>, are below \<open>2 ^ 38\<close>.
\<close>

fun root_bits :: "nat \<Rightarrow> nat \<Rightarrow> nat \<Rightarrow> nat \<Rightarrow> nat" where
  "root_bits e n 0 r = r"
| "root_bits e n (Suc i) r = root_bits e n i (if (r + 2 ^ i) ^ e \<le> n then r + 2 ^ i else r)"

definition root_word :: "nat \<Rightarrow> nat \<Rightarrow> word32" where
  "root_word e p = of_nat (root_bits e (p * 2 ^ (32 * e)) 38 0)"

definition primes_64 :: "nat list" where
  "primes_64 = filter (\<lambda>n. \<forall>d\<in>set [2 ..< n]. \<not> d dvd n) [2 ..< 312]"

definition sha_k :: "word32 list" where
  "sha_k = map (root_word 3) primes_64"

definition sha_h0 :: sha_state where
  "sha_h0 = (let r = \<lambda>i. root_word 2 (primes_64 ! i) in (r 0, r 1, r 2, r 3, r 4, r 5, r 6, r 7))"

definition rotr :: "nat \<Rightarrow> word32 \<Rightarrow> word32" where
  "rotr n x = drop_bit n x OR push_bit (32 - n) x"

definition sha_ch :: "word32 \<Rightarrow> word32 \<Rightarrow> word32 \<Rightarrow> word32" where
  "sha_ch x y z = (x AND y) XOR (NOT x AND z)"

definition sha_maj :: "word32 \<Rightarrow> word32 \<Rightarrow> word32 \<Rightarrow> word32" where
  "sha_maj x y z = (x AND y) XOR (x AND z) XOR (y AND z)"

definition big_sigma0 :: "word32 \<Rightarrow> word32" where
  "big_sigma0 x = rotr 2 x XOR rotr 13 x XOR rotr 22 x"

definition big_sigma1 :: "word32 \<Rightarrow> word32" where
  "big_sigma1 x = rotr 6 x XOR rotr 11 x XOR rotr 25 x"

definition small_sigma0 :: "word32 \<Rightarrow> word32" where
  "small_sigma0 x = rotr 7 x XOR rotr 18 x XOR drop_bit 3 x"

definition small_sigma1 :: "word32 \<Rightarrow> word32" where
  "small_sigma1 x = rotr 17 x XOR rotr 19 x XOR drop_bit 10 x"

definition be_word :: "bytes \<Rightarrow> word32" where
  "be_word xs = foldl (\<lambda>acc x. push_bit 8 acc OR ucast x) 0 xs"

definition be_bytes :: "word32 \<Rightarrow> bytes" where
  "be_bytes w = [ucast (drop_bit 24 w), ucast (drop_bit 16 w), ucast (drop_bit 8 w), ucast w]"

definition be_bytes64 :: "64 word \<Rightarrow> bytes" where
  "be_bytes64 w = be_bytes (ucast (drop_bit 32 w)) @ be_bytes (ucast w)"

text \<open>The message schedule, latest word first.\<close>

fun sha_extend :: "nat \<Rightarrow> word32 list \<Rightarrow> word32 list" where
  "sha_extend 0 ws = ws"
| "sha_extend (Suc n) ws =
     sha_extend n ((small_sigma1 (ws ! 1) + ws ! 6 + small_sigma0 (ws ! 14) + ws ! 15) # ws)"

fun chunks :: "nat \<Rightarrow> nat \<Rightarrow> 'a list \<Rightarrow> 'a list list" where
  "chunks 0 k xs = []"
| "chunks (Suc n) k xs = take k xs # chunks n k (drop k xs)"

definition sha_schedule :: "bytes \<Rightarrow> word32 list" where
  "sha_schedule block = rev (sha_extend 48 (rev (map be_word (chunks 16 4 block))))"

fun sha_round :: "sha_state \<Rightarrow> word32 \<times> word32 \<Rightarrow> sha_state" where
  "sha_round (a, b, c, d, e, f, g, h) (k, w) =
     (let t1 = h + big_sigma1 e + sha_ch e f g + k + w;
          t2 = big_sigma0 a + sha_maj a b c
      in (t1 + t2, a, b, c, d + t1, e, f, g))"

fun sha_add :: "sha_state \<Rightarrow> sha_state \<Rightarrow> sha_state" where
  "sha_add (a, b, c, d, e, f, g, h) (a', b', c', d', e', f', g', h') =
     (a + a', b + b', c + c', d + d', e + e', f + f', g + g', h + h')"

definition sha_block :: "sha_state \<Rightarrow> bytes \<Rightarrow> sha_state" where
  "sha_block s block = sha_add s (foldl sha_round s (zip sha_k (sha_schedule block)))"

definition sha_pad :: "bytes \<Rightarrow> bytes" where
  "sha_pad msg =
     msg @ [0x80] @ replicate ((119 - length msg mod 64) mod 64) 0
     @ be_bytes64 (of_nat (8 * length msg))"

fun sha_digest :: "sha_state \<Rightarrow> bytes" where
  "sha_digest (a, b, c, d, e, f, g, h) =
     be_bytes a @ be_bytes b @ be_bytes c @ be_bytes d
     @ be_bytes e @ be_bytes f @ be_bytes g @ be_bytes h"

definition sha256 :: "bytes \<Rightarrow> bytes" where
  "sha256 msg =
     (let p = sha_pad msg
      in sha_digest (foldl sha_block sha_h0 (chunks (length p div 64) 64 p)))"

lemma length_sha_digest: "length (sha_digest s) = 32"
  by (cases s rule: sha_digest.cases) (simp add: be_bytes_def)

lemma length_sha256 [simp]: "length (sha256 msg) = 32"
  by (simp add: sha256_def Let_def length_sha_digest)

end
