(* ===== verification/Crypto.thy ===== *)
theory Crypto
  imports PyObj CryptoOps Sha256
begin

text \<open>
  \<open>oversight_core/crypto.py\<close>: the envelope of the data key (DEK) for the three suites (X25519,
  hardware P-256, hybrid X25519 and ML-KEM), the AEAD wrappers, manifest signatures and the content
  hash, over the primitives of a \<open>crypto_ops\<close> record. What a function draws at random (ephemeral
  key, nonce, encapsulation randomness) is an argument; \<open>pq\<close> says whether \<open>liboqs\<close> is installed.
\<close>

definition SUITE_CLASSIC_V1 :: pystr where "SUITE_CLASSIC_V1 = u ''OSGT-CLASSIC-v1''"
definition SUITE_HYBRID_V1 :: pystr where "SUITE_HYBRID_V1 = u ''OSGT-HYBRID-v1''"
definition SUITE_HW_P256_V1 :: pystr where "SUITE_HW_P256_V1 = u ''OSGT-HW-P256-v1''"

definition P256_PUBLIC_KEY_LEN :: nat where "P256_PUBLIC_KEY_LEN = 65"
definition XCHACHA_NONCE_LEN :: nat where "XCHACHA_NONCE_LEN = 24"
definition XCHACHA_KEY_LEN :: nat where "XCHACHA_KEY_LEN = 32"

section \<open>Identities\<close>

record classic_identity =
  id_x25519_priv :: bytes
  id_x25519_pub :: bytes
  id_ed25519_priv :: bytes
  id_ed25519_pub :: bytes

text \<open>\<open>ClassicIdentity.generate\<close> on the two private keys it draws.\<close>

definition identity_generate :: "crypto_ops \<Rightarrow> bytes \<Rightarrow> bytes \<Rightarrow> classic_identity" where
  "identity_generate C xsk esk =
     \<lparr>id_x25519_priv = xsk, id_x25519_pub = x_pub C xsk, id_ed25519_priv = esk, id_ed25519_pub = ed_pub C esk\<rparr>"

definition public_bundle :: "classic_identity \<Rightarrow> pydict" where
  "public_bundle i =
     [(key ''x25519_pub'', PStr (hex (id_x25519_pub i))), (key ''ed25519_pub'', PStr (hex (id_ed25519_pub i)))]"

section \<open>AEAD and raw keys\<close>

definition aead_encrypt :: "crypto_ops \<Rightarrow> bytes \<Rightarrow> bytes \<Rightarrow> bytes \<Rightarrow> bytes \<Rightarrow> (bytes \<times> bytes) res" where
  "aead_encrypt C nonce k plaintext aad =
     ebind (guard (length k = XCHACHA_KEY_LEN) AssertionError) (\<lambda>_.
     Inr (nonce, aead_enc C k nonce aad plaintext))"

definition aead_decrypt :: "crypto_ops \<Rightarrow> bytes \<Rightarrow> bytes \<Rightarrow> bytes \<Rightarrow> bytes \<Rightarrow> bytes res" where
  "aead_decrypt C k nonce ciphertext aad = aead_dec C k nonce aad ciphertext"

text \<open>\<open>from_private_bytes\<close> and \<open>from_public_bytes\<close> of the two curves: raw keys of 32 bytes.\<close>

definition raw_key :: "bytes \<Rightarrow> bytes res" where
  "raw_key k = ebind (guard (length k = 32) (ValueError ''key is 32 bytes long'')) (\<lambda>_. Inr k)"

lemma raw_key_Inr [simp]: "raw_key k = Inr k' \<longleftrightarrow> length k = 32 \<and> k' = k"
  by (auto simp: raw_key_def ebind_eq_Inr)

section \<open>X25519 envelope\<close>

definition wrap_dek_for_recipient ::
  "crypto_ops \<Rightarrow> bytes \<Rightarrow> bytes \<Rightarrow> bytes \<Rightarrow> bytes \<Rightarrow> pydict res" where
  "wrap_dek_for_recipient C eph nonce dek recipient_x25519_pub =
     ebind (raw_key recipient_x25519_pub) (\<lambda>peer.
     ebind (x_exchange C eph peer) (\<lambda>shared.
     let kek = hkdf C (bstr ''oversight-v1-dek-wrap'') shared in
     ebind (aead_encrypt C nonce kek dek (bstr ''oversight-dek'')) (\<lambda>(nonce, wrapped).
     Inr [(key ''ephemeral_pub'', PStr (hex (x_pub C eph))),
          (key ''nonce'', PStr (hex nonce)),
          (key ''wrapped_dek'', PStr (hex wrapped))])))"

text \<open>\<open>wrapped[k]\<close> on any value: only a dictionary can be read by a string.\<close>

definition vitem :: "pyval \<Rightarrow> string \<Rightarrow> pyval res" where
  "vitem v k =
     (case v of PDict d \<Rightarrow> ditem d k | _ \<Rightarrow> Inl (TypeError ''not subscriptable by str''))"

definition hex_field :: "pyval \<Rightarrow> string \<Rightarrow> bytes res" where
  "hex_field v k = ebind (vitem v k) py_fromhex"

definition unwrap_dek :: "crypto_ops \<Rightarrow> pyval \<Rightarrow> bytes \<Rightarrow> bytes res" where
  "unwrap_dek C wrapped recipient_x25519_priv =
     ebind (raw_key recipient_x25519_priv) (\<lambda>sk.
     ebind (hex_field wrapped ''ephemeral_pub'') (\<lambda>eb.
     ebind (raw_key eb) (\<lambda>eph_pub.
     ebind (x_exchange C sk eph_pub) (\<lambda>shared.
     let kek = hkdf C (bstr ''oversight-v1-dek-wrap'') shared in
     ebind (hex_field wrapped ''nonce'') (\<lambda>nonce.
     ebind (hex_field wrapped ''wrapped_dek'') (\<lambda>wd.
     aead_decrypt C kek nonce wd (bstr ''oversight-dek'')))))))"

section \<open>P-256 envelope\<close>

definition wrap_dek_for_recipient_p256 ::
  "crypto_ops \<Rightarrow> bytes \<Rightarrow> bytes \<Rightarrow> bytes \<Rightarrow> bytes \<Rightarrow> pydict res" where
  "wrap_dek_for_recipient_p256 C eph nonce dek recipient_p256_pub_sec1 =
     ebind (guard (length recipient_p256_pub_sec1 = P256_PUBLIC_KEY_LEN)
              (ValueError ''recipient_p256_pub_sec1 must be 65 bytes'')) (\<lambda>_.
     ebind (p_load_pub C recipient_p256_pub_sec1) (\<lambda>peer.
     ebind (p_exchange C eph peer) (\<lambda>shared.
     let kek = hkdf C (bstr ''oversight-hw-p256-v1-dek-wrap'') shared in
     ebind (aead_encrypt C nonce kek dek (bstr ''oversight-hw-p256-dek'')) (\<lambda>(nonce, wrapped).
     let eph_pub_bytes = p_pub C eph in
     ebind (guard (length eph_pub_bytes = P256_PUBLIC_KEY_LEN)
              (RuntimeError ''P-256 ephemeral pub must be 65 bytes'')) (\<lambda>_.
     Inr [(key ''suite'', PStr SUITE_HW_P256_V1),
          (key ''ephemeral_pub'', PStr (hex eph_pub_bytes)),
          (key ''nonce'', PStr (hex nonce)),
          (key ''wrapped_dek'', PStr (hex wrapped))])))))"

text \<open>What the caller may pass as the private key.\<close>

datatype p256_priv = EcKey bytes | Pkcs8 bytes | Scalar int | OtherKey

definition coerce_p256 :: "crypto_ops \<Rightarrow> p256_priv \<Rightarrow> bytes res" where
  "coerce_p256 C k =
     (case k of
        EcKey sk \<Rightarrow> Inr sk
      | Pkcs8 der \<Rightarrow>
          ebind (p_load_pkcs8 C der) (\<lambda>sk. case sk of
              None \<Rightarrow> Inl (ValueError ''PKCS#8 key is not an EllipticCurvePrivateKey'')
            | Some sk \<Rightarrow> Inr sk)
      | Scalar i \<Rightarrow> p_derive C i
      | OtherKey \<Rightarrow> Inl (TypeError ''recipient private key''))"

definition unwrap_dek_p256 :: "crypto_ops \<Rightarrow> pydict \<Rightarrow> p256_priv \<Rightarrow> bytes res" where
  "unwrap_dek_p256 C wrapped priv =
     ebind (guard (\<forall>k\<in>set [''ephemeral_pub'', ''nonce'', ''wrapped_dek'']. dget wrapped k \<noteq> None)
              (ValueError ''hw-p256 envelope missing field'')) (\<lambda>_.
     ebind (hex_field (PDict wrapped) ''ephemeral_pub'') (\<lambda>eph_pub_bytes.
     ebind (guard (length eph_pub_bytes = P256_PUBLIC_KEY_LEN)
              (ValueError ''ephemeral_pub must be 65 bytes'')) (\<lambda>_.
     ebind (coerce_p256 C priv) (\<lambda>sk.
     ebind (p_load_pub C eph_pub_bytes) (\<lambda>eph_pub.
     ebind (p_exchange C sk eph_pub) (\<lambda>shared.
     let kek = hkdf C (bstr ''oversight-hw-p256-v1-dek-wrap'') shared in
     ebind (hex_field (PDict wrapped) ''nonce'') (\<lambda>nonce.
     ebind (hex_field (PDict wrapped) ''wrapped_dek'') (\<lambda>wd.
     aead_decrypt C kek nonce wd (bstr ''oversight-hw-p256-dek'')))))))))"

section \<open>Signatures and the content hash\<close>

definition sign_manifest :: "crypto_ops \<Rightarrow> bytes \<Rightarrow> bytes \<Rightarrow> bytes res" where
  "sign_manifest C manifest_bytes ed25519_priv =
     ebind (raw_key ed25519_priv) (\<lambda>sk. Inr (ed_sign C sk manifest_bytes))"

text \<open>Every exception is caught: a bad key is a bad signature.\<close>

definition verify_manifest :: "crypto_ops \<Rightarrow> bytes \<Rightarrow> bytes \<Rightarrow> bytes \<Rightarrow> bool" where
  "verify_manifest C manifest_bytes signature ed25519_pub =
     (case raw_key ed25519_pub of Inl _ \<Rightarrow> False | Inr pk \<Rightarrow> ed_verify C pk signature manifest_bytes)"

definition content_hash :: "bytes \<Rightarrow> pystr" where
  "content_hash data = hex (sha256 data)"

section \<open>Hybrid envelope\<close>

definition pq_kem_encap :: "crypto_ops \<Rightarrow> bool \<Rightarrow> bytes \<Rightarrow> bytes \<Rightarrow> (bytes \<times> bytes) res" where
  "pq_kem_encap C pq rnd peer_pub =
     ebind (guard pq (RuntimeError ''liboqs not available'')) (\<lambda>_. Inr (kem_encap C rnd peer_pub))"

definition pq_kem_decap :: "crypto_ops \<Rightarrow> bool \<Rightarrow> bytes \<Rightarrow> bytes \<Rightarrow> bytes res" where
  "pq_kem_decap C pq priv ct =
     ebind (guard pq (RuntimeError ''liboqs not available'')) (\<lambda>_. Inr (kem_decap C priv ct))"

definition hybrid_wrap_dek ::
  "crypto_ops \<Rightarrow> bool \<Rightarrow> bytes \<Rightarrow> bytes \<Rightarrow> bytes \<Rightarrow> bytes \<Rightarrow> bytes \<Rightarrow> bytes \<Rightarrow> pydict res" where
  "hybrid_wrap_dek C pq eph rnd nonce dek x25519_pub mlkem_pub =
     ebind (guard pq (RuntimeError ''liboqs not available'')) (\<lambda>_.
     ebind (guard (length x25519_pub = 32) (ValueError ''x25519_pub must be 32 bytes'')) (\<lambda>_.
     ebind (raw_key x25519_pub) (\<lambda>peer_x.
     ebind (x_exchange C eph peer_x) (\<lambda>ss_x.
     ebind (pq_kem_encap C pq rnd mlkem_pub) (\<lambda>(mlkem_ct, ss_pq).
     let eph_pub = x_pub C eph;
         ikm = ss_x @ ss_pq @ eph_pub @ mlkem_ct;
         kek = hkdf C (bstr ''oversight-hybrid-v1-dek-wrap'') ikm in
     ebind (aead_encrypt C nonce kek dek (bstr ''oversight-hybrid-dek'')) (\<lambda>(nonce, wrapped).
     Inr [(key ''suite'', PStr (u ''OSGT-HYBRID-v1'')),
          (key ''x25519_ephemeral_pub'', PStr (hex eph_pub)),
          (key ''mlkem_ciphertext'', PStr (hex mlkem_ct)),
          (key ''nonce'', PStr (hex nonce)),
          (key ''wrapped_dek'', PStr (hex wrapped))]))))))"

definition hybrid_unwrap_dek :: "crypto_ops \<Rightarrow> bool \<Rightarrow> pydict \<Rightarrow> bytes \<Rightarrow> bytes \<Rightarrow> bytes res" where
  "hybrid_unwrap_dek C pq wrapped x25519_priv mlkem_priv =
     ebind (guard pq (RuntimeError ''liboqs not available'')) (\<lambda>_.
     ebind (guard (\<forall>k\<in>set [''x25519_ephemeral_pub'', ''mlkem_ciphertext'', ''nonce'', ''wrapped_dek''].
                     dget wrapped k \<noteq> None)
              (ValueError ''hybrid envelope missing field'')) (\<lambda>_.
     ebind (hex_field (PDict wrapped) ''x25519_ephemeral_pub'') (\<lambda>eph_pub_bytes.
     ebind (hex_field (PDict wrapped) ''mlkem_ciphertext'') (\<lambda>mlkem_ct.
     ebind (raw_key x25519_priv) (\<lambda>sk_x.
     ebind (raw_key eph_pub_bytes) (\<lambda>eph_pub.
     ebind (x_exchange C sk_x eph_pub) (\<lambda>ss_x.
     ebind (pq_kem_decap C pq mlkem_priv mlkem_ct) (\<lambda>ss_pq.
     let ikm = ss_x @ ss_pq @ eph_pub_bytes @ mlkem_ct;
         kek = hkdf C (bstr ''oversight-hybrid-v1-dek-wrap'') ikm in
     ebind (hex_field (PDict wrapped) ''nonce'') (\<lambda>nonce.
     ebind (hex_field (PDict wrapped) ''wrapped_dek'') (\<lambda>wd.
     aead_decrypt C kek nonce wd (bstr ''oversight-hybrid-dek'')))))))))))"

section \<open>Envelopes open for their recipient\<close>

lemma hex_field_simps [simp]:
  "hex_field (PDict ((k, v) # d)) f = (if k = key f then py_fromhex v else hex_field (PDict d) f)"
  by (simp add: hex_field_def vitem_def)

lemma key_lengths [simp]: "XCHACHA_KEY_LEN = 32" "XCHACHA_NONCE_LEN = 24" "P256_PUBLIC_KEY_LEN = 65"
  by (simp_all add: XCHACHA_KEY_LEN_def XCHACHA_NONCE_LEN_def P256_PUBLIC_KEY_LEN_def)

lemma wrap_ok:
  assumes "dh_correct C" "aead_correct C" "length eph = 32" "length sk = 32" "length nonce = 24"
  shows "\<exists>w. wrap_dek_for_recipient C eph nonce dek (x_pub C sk) = Inr w \<and> unwrap_dek C (PDict w) sk = Inr dek
    \<and> json_ok (PDict w) \<and> dget w ''slots'' = None \<and> (\<exists>e n c. w = [(key ''ephemeral_pub'', PStr (hex e)),
        (key ''nonce'', PStr (hex n)), (key ''wrapped_dek'', PStr (hex c))])"
proof -
  obtain s where s: "x_exchange C eph (x_pub C sk) = Inr s" "x_exchange C sk (x_pub C eph) = Inr s"
    "length (x_pub C sk) = 32" "length (x_pub C eph) = 32"
    using assms(1,3,4) unfolding dh_correct_def by blast
  then show ?thesis
    using assms(2-5)
    by (simp add: wrap_dek_for_recipient_def unwrap_dek_def aead_encrypt_def aead_decrypt_def
        aead_correct_def Let_def raw_key_def)
qed

lemma p256_wrap_ok:
  assumes "p256_correct C" "aead_correct C" "length nonce = 24"
    and sk: "priv = EcKey sk \<or> (\<exists>der. priv = Pkcs8 der \<and> p_load_pkcs8 C der = Inr (Some sk))
             \<or> (\<exists>i. priv = Scalar i \<and> p_derive C i = Inr sk)"
  shows "\<exists>w. wrap_dek_for_recipient_p256 C eph nonce dek (p_pub C sk) = Inr w
    \<and> unwrap_dek_p256 C w priv = Inr dek"
proof -
  obtain s where s: "p_exchange C eph (p_pub C sk) = Inr s" "p_exchange C sk (p_pub C eph) = Inr s"
    and p: "length (p_pub C a) = 65" "p_load_pub C (p_pub C a) = Inr (p_pub C a)" for a
    using assms(1) unfolding p256_correct_def by metis
  have "coerce_p256 C priv = Inr sk" using sk by (auto simp: coerce_p256_def)
  then show ?thesis
    using s p assms(2,3)
    by (simp add: wrap_dek_for_recipient_p256_def unwrap_dek_p256_def aead_encrypt_def aead_decrypt_def
        aead_correct_def Let_def)
qed

lemma hybrid_wrap_ok:
  assumes "dh_correct C" "aead_correct C" "kem_correct C" "length eph = 32" "length sk = 32" "length nonce = 24"
  shows "\<exists>w. hybrid_wrap_dek C True eph rnd nonce dek (x_pub C sk) (kem_pub C ksk) = Inr w
    \<and> hybrid_unwrap_dek C True w sk ksk = Inr dek"
proof -
  obtain s where s: "x_exchange C eph (x_pub C sk) = Inr s" "x_exchange C sk (x_pub C eph) = Inr s"
    "length (x_pub C sk) = 32" "length (x_pub C eph) = 32"
    using assms(1,4,5) unfolding dh_correct_def by blast
  obtain ct ss where ct: "kem_encap C rnd (kem_pub C ksk) = (ct, ss)" by force
  then have "kem_decap C ksk ct = ss" using assms(3) unfolding kem_correct_def by (metis fst_conv snd_conv)
  then show ?thesis
    using s ct assms(2,5,6)
    by (simp add: hybrid_wrap_dek_def hybrid_unwrap_dek_def pq_kem_encap_def pq_kem_decap_def
        aead_encrypt_def aead_decrypt_def aead_correct_def Let_def raw_key_def)
qed

section \<open>Properties\<close>

text \<open>
  C22: every envelope opens for its recipient: for the X25519, the P-256 and the hybrid suite,
  wrapping a data key for a public key succeeds and unwrapping with the matching private key (for
  P-256 in any of the three forms the caller may pass) gives the data key back.
\<close>

theorem envelopes_open:
  assumes "dh_correct C" "aead_correct C" "kem_correct C" "p256_correct C"
    and "length eph = 32" "length sk = 32" "length nonce = 24"
    and "priv = EcKey psk \<or> (\<exists>der. priv = Pkcs8 der \<and> p_load_pkcs8 C der = Inr (Some psk))
         \<or> (\<exists>i. priv = Scalar i \<and> p_derive C i = Inr psk)"
  shows "(\<exists>w. wrap_dek_for_recipient C eph nonce dek (x_pub C sk) = Inr w \<and> unwrap_dek C (PDict w) sk = Inr dek)
    \<and> (\<exists>w. wrap_dek_for_recipient_p256 C peph nonce dek (p_pub C psk) = Inr w \<and> unwrap_dek_p256 C w priv = Inr dek)
    \<and> (\<exists>w. hybrid_wrap_dek C True eph rnd nonce dek (x_pub C sk) (kem_pub C ksk) = Inr w
          \<and> hybrid_unwrap_dek C True w sk ksk = Inr dek)"
  using wrap_ok [OF assms(1,2,5,6,7)] p256_wrap_ok [OF assms(4,2,7,8)]
    hybrid_wrap_ok [OF assms(1,2,3,5,6,7)] by blast

theorem envelopes_open_witness:
  "(\<exists>w. wrap_dek_for_recipient toy_ops (replicate 32 1) (replicate 24 2) [9, 8] (x_pub toy_ops (replicate 32 3)) = Inr w
      \<and> unwrap_dek toy_ops (PDict w) (replicate 32 3) = Inr [9, 8])
    \<and> (\<exists>w. hybrid_wrap_dek toy_ops True (replicate 32 1) [4] (replicate 24 2) [9, 8] (x_pub toy_ops (replicate 32 3))
            (kem_pub toy_ops [5]) = Inr w
      \<and> hybrid_unwrap_dek toy_ops True w (replicate 32 3) [5] = Inr [9, 8])"
  using envelopes_open [OF toy_ops_correct(2,3,4,5), of "replicate 32 1" "replicate 32 3" "replicate 24 2"
      "EcKey [6]" "[6]" "[9, 8]" "[]" "[4]" "[5]"] by simp

section \<open>Post-quantum keys and signatures\<close>

text \<open>
  The ML-DSA-65 signatures of \<open>oqs\<close>: the public key of a private one, signing, and a verification that
  may raise. A key pair is drawn by the library, so the private key is an argument.
\<close>

record dsa_ops =
  dsa_pub :: "bytes \<Rightarrow> bytes"
  dsa_sign :: "bytes \<Rightarrow> bytes \<Rightarrow> bytes"
  dsa_verify :: "bytes \<Rightarrow> bytes \<Rightarrow> bytes \<Rightarrow> bool res"

definition dsa_correct :: "dsa_ops \<Rightarrow> bool" where
  "dsa_correct D \<longleftrightarrow> (\<forall>sk msg. dsa_verify D (dsa_pub D sk) (dsa_sign D sk msg) msg = Inr True)"

definition pq_kem_keypair :: "crypto_ops \<Rightarrow> bool \<Rightarrow> bytes \<Rightarrow> (bytes \<times> bytes) res" where
  "pq_kem_keypair C pq priv =
     ebind (guard pq (RuntimeError ''liboqs not available'')) (\<lambda>_. Inr (priv, kem_pub C priv))"

definition pq_sig_keypair :: "dsa_ops \<Rightarrow> bool \<Rightarrow> bytes \<Rightarrow> (bytes \<times> bytes) res" where
  "pq_sig_keypair D pq priv =
     ebind (guard pq (RuntimeError ''liboqs not available'')) (\<lambda>_. Inr (priv, dsa_pub D priv))"

definition pq_sign :: "dsa_ops \<Rightarrow> bool \<Rightarrow> bytes \<Rightarrow> bytes \<Rightarrow> bytes res" where
  "pq_sign D pq msg priv =
     ebind (guard pq (RuntimeError ''liboqs not available'')) (\<lambda>_. Inr (dsa_sign D priv msg))"

definition pq_verify :: "dsa_ops \<Rightarrow> bool \<Rightarrow> bytes \<Rightarrow> bytes \<Rightarrow> bytes \<Rightarrow> bool res" where
  "pq_verify D pq msg signature pub =
     (if \<not> pq then Inr False
      else
        (case dsa_verify D pub signature msg of
           Inr ok \<Rightarrow> Inr ok
         | Inl e \<Rightarrow> if is_ValueError e \<or> (case e of RuntimeError _ \<Rightarrow> True | _ \<Rightarrow> False) then Inr False else Inl e))"

lemma pq_signature_verifies:
  assumes "dsa_correct D" "pq_sig_keypair D pq sk = Inr (priv, pub)" "pq_sign D pq msg priv = Inr sg"
  shows "pq_verify D pq msg sg pub = Inr True"
  using assms by (auto simp: pq_sig_keypair_def pq_sign_def pq_verify_def dsa_correct_def guard_def split: if_splits)

lemma pq_kem_agrees:
  assumes "kem_correct C" "pq_kem_keypair C pq sk = Inr (priv, pub)" "pq_kem_encap C pq rnd pub = Inr (ct, ss)"
  shows "pq_kem_decap C pq priv ct = Inr ss"
proof -
  have "kem_encap C rnd (kem_pub C sk) = (ct, ss)" "priv = sk" "pq"
    using assms(2,3) by (auto simp: pq_kem_keypair_def pq_kem_encap_def guard_def split: if_splits)
  moreover have "kem_decap C sk (fst (kem_encap C rnd (kem_pub C sk))) = snd (kem_encap C rnd (kem_pub C sk))"
    using assms(1) by (simp add: kem_correct_def)
  ultimately show ?thesis by (simp add: pq_kem_decap_def guard_def)
qed

end
