(* ===== verification/Manifest.thy ===== *)
theory Manifest
  imports Crypto
begin

text \<open>
  \<open>oversight_core/manifest.py\<close>: the signed manifest. The dataclass fields hold any value
  \<open>json.loads\<close> may deliver, as in Python, where \<open>cls(**d)\<close> checks names only. Shown here: what is
  signed does not change when a manifest is written and read back, so a signature made by \<open>sign\<close>
  verifies on the other side of the wire.
\<close>

section \<open>Data\<close>

record recipient =
  r_recipient_id :: pyval
  r_x25519_pub :: pyval
  r_ed25519_pub :: pyval
  r_p256_pub :: pyval

record watermark_ref =
  w_layer :: pyval
  w_mark_id :: pyval

record manifest =
  m_file_id :: pyval
  m_issued_at :: pyval
  m_version :: pyval
  m_suite :: pyval
  m_original_filename :: pyval
  m_content_hash :: pyval
  m_canonical_content_hash :: pyval
  m_content_type :: pyval
  m_size_bytes :: pyval
  m_issuer_id :: pyval
  m_issuer_ed25519_pub :: pyval
  m_recipient :: "recipient option"
  m_watermarks :: "watermark_ref list"
  m_beacons :: pyval
  m_policy :: pyval
  m_l3_policy :: pyval
  m_signature_ed25519 :: pyval
  m_signature_ml_dsa :: pyval

definition str_val :: "string \<Rightarrow> pyval" where
  "str_val s = PStr (u s)"

text \<open>\<open>Manifest.new\<close>; the uuid and the clock are arguments.\<close>

definition manifest_new ::
  "pystr \<Rightarrow> int \<Rightarrow> pyval \<Rightarrow> pyval \<Rightarrow> pyval \<Rightarrow> pyval \<Rightarrow> pyval \<Rightarrow> recipient \<Rightarrow> pyval \<Rightarrow> pyval
   \<Rightarrow> pyval \<Rightarrow> pyval \<Rightarrow> pyval \<Rightarrow> manifest" where
  "manifest_new uuid now original_filename chash size_bytes issuer_id issuer_pub_hex rec registry_url
     content_type not_after max_opens jurisdiction =
     (let policy = [(key ''registry_url'', registry_url), (key ''jurisdiction'', jurisdiction)];
          policy = (if truthy not_after then dset policy ''not_after'' not_after else policy);
          policy = (if truthy max_opens then dset policy ''max_opens'' max_opens else policy)
      in \<lparr>m_file_id = PStr uuid, m_issued_at = PInt now, m_version = str_val ''OVERSIGHT-v1'',
          m_suite = PStr SUITE_CLASSIC_V1, m_original_filename = original_filename,
          m_content_hash = chash, m_canonical_content_hash = chash, m_content_type = content_type,
          m_size_bytes = size_bytes, m_issuer_id = issuer_id, m_issuer_ed25519_pub = issuer_pub_hex,
          m_recipient = Some rec, m_watermarks = [], m_beacons = PList [], m_policy = PDict policy,
          m_l3_policy = PDict [], m_signature_ed25519 = str_val '''', m_signature_ml_dsa = str_val ''''\<rparr>)"

section \<open>Serialization\<close>

definition recipient_dict :: "recipient \<Rightarrow> pydict" where
  "recipient_dict r =
     [(key ''recipient_id'', r_recipient_id r), (key ''x25519_pub'', r_x25519_pub r),
      (key ''ed25519_pub'', r_ed25519_pub r), (key ''p256_pub'', r_p256_pub r)]"

definition watermark_dict :: "watermark_ref \<Rightarrow> pydict" where
  "watermark_dict w = [(key ''layer'', w_layer w), (key ''mark_id'', w_mark_id w)]"

text \<open>\<open>asdict\<close>: the fields in their order of declaration.\<close>

definition asdict :: "manifest \<Rightarrow> pydict" where
  "asdict m =
     [(key ''file_id'', m_file_id m), (key ''issued_at'', m_issued_at m),
      (key ''version'', m_version m), (key ''suite'', m_suite m),
      (key ''original_filename'', m_original_filename m), (key ''content_hash'', m_content_hash m),
      (key ''canonical_content_hash'', m_canonical_content_hash m),
      (key ''content_type'', m_content_type m), (key ''size_bytes'', m_size_bytes m),
      (key ''issuer_id'', m_issuer_id m), (key ''issuer_ed25519_pub'', m_issuer_ed25519_pub m),
      (key ''recipient'', case m_recipient m of None \<Rightarrow> PNone | Some r \<Rightarrow> PDict (recipient_dict r)),
      (key ''watermarks'', PList (map (\<lambda>w. PDict (watermark_dict w)) (m_watermarks m))),
      (key ''beacons'', m_beacons m), (key ''policy'', m_policy m), (key ''l3_policy'', m_l3_policy m),
      (key ''signature_ed25519'', m_signature_ed25519 m),
      (key ''signature_ml_dsa'', m_signature_ml_dsa m)]"

definition to_dict :: "bool \<Rightarrow> manifest \<Rightarrow> pydict" where
  "to_dict include_signatures m =
     (let d = asdict m in
      if include_signatures then d
      else dset (dset d ''signature_ed25519'' (str_val '''')) ''signature_ml_dsa'' (str_val ''''))"

function strip_none :: "pyval \<Rightarrow> pyval" where
  "strip_none (PDict d) = PDict (map (\<lambda>kv. (fst kv, strip_none (snd kv))) (filter (\<lambda>kv. snd kv \<noteq> PNone) d))"
| "strip_none (PList xs) = PList (map strip_none xs)"
| "strip_none PNone = PNone"
| "strip_none (PBool t) = PBool t"
| "strip_none (PInt i) = PInt i"
| "strip_none (PFloat f) = PFloat f"
| "strip_none (PStr s) = PStr s"
| "strip_none (PBytes x) = PBytes x"
  by pat_completeness auto
termination
proof (relation "measure size", simp)
  fix d and kv :: "pykey \<times> pyval"
  assume "kv \<in> set (filter (\<lambda>kv. snd kv \<noteq> PNone) d)"
  then have kv: "kv \<in> set d" by simp
  have "size (snd kv) < size_prod (\<lambda>_. 0) size kv" by (cases kv) simp
  with kv show "(snd kv, PDict d) \<in> measure size"
    by (auto intro!: less_SucI size_list_estimation [where f = "size_prod (\<lambda>_. 0) size"])
next
  fix xs and x :: pyval
  assume "x \<in> set xs"
  then show "(x, PList xs) \<in> measure size"
    by (simp add: less_Suc_eq_le size_list_estimation')
qed

definition canonical_bytes :: "manifest \<Rightarrow> bytes res" where
  "canonical_bytes m = jcs_dumps (strip_none (PDict (to_dict False m)))"

definition to_json :: "manifest \<Rightarrow> bytes res" where
  "to_json m = jcs_dumps (strip_none (PDict (to_dict True m)))"

section \<open>Parsing\<close>

definition manifest_fields :: "string list" where
  "manifest_fields =
     [''file_id'', ''issued_at'', ''version'', ''suite'', ''original_filename'', ''content_hash'',
      ''canonical_content_hash'', ''content_type'', ''size_bytes'', ''issuer_id'',
      ''issuer_ed25519_pub'', ''recipient'', ''watermarks'', ''beacons'', ''policy'', ''l3_policy'',
      ''signature_ed25519'', ''signature_ml_dsa'']"

definition recipient_fields :: "string list" where
  "recipient_fields = [''recipient_id'', ''x25519_pub'', ''ed25519_pub'', ''p256_pub'']"

definition watermark_fields :: "string list" where
  "watermark_fields = [''layer'', ''mark_id'']"

text \<open>\<open>set(d) - allowed\<close> is empty.\<close>

definition only_keys :: "string list \<Rightarrow> pydict \<Rightarrow> bool" where
  "only_keys allowed d \<longleftrightarrow> (\<forall>kv\<in>set d. fst kv \<in> key ` set allowed)"

text \<open>A required keyword argument that is missing is a \<open>TypeError\<close>.\<close>

definition required :: "pydict \<Rightarrow> string \<Rightarrow> pyval res" where
  "required d k =
     (case dget d k of None \<Rightarrow> Inl (TypeError ''missing required argument'') | Some v \<Rightarrow> Inr v)"

definition recipient_of :: "pydict \<Rightarrow> recipient res" where
  "recipient_of d =
     ebind (required d ''recipient_id'') (\<lambda>i.
     ebind (required d ''x25519_pub'') (\<lambda>x.
     Inr \<lparr>r_recipient_id = i, r_x25519_pub = x, r_ed25519_pub = dgetn d ''ed25519_pub'',
          r_p256_pub = dgetn d ''p256_pub''\<rparr>))"

definition watermark_of :: "pydict \<Rightarrow> watermark_ref res" where
  "watermark_of d =
     ebind (required d ''layer'') (\<lambda>l.
     ebind (required d ''mark_id'') (\<lambda>i. Inr \<lparr>w_layer = l, w_mark_id = i\<rparr>))"

definition manifest_of :: "pydict \<Rightarrow> manifest res" where
  "manifest_of d =
     ebind (required d ''file_id'') (\<lambda>fid.
     ebind (required d ''issued_at'') (\<lambda>issued.
     Inr \<lparr>m_file_id = fid, m_issued_at = issued,
          m_version = dgetd d ''version'' (str_val ''OVERSIGHT-v1''),
          m_suite = dgetd d ''suite'' (PStr SUITE_CLASSIC_V1),
          m_original_filename = dgetd d ''original_filename'' (str_val ''''),
          m_content_hash = dgetd d ''content_hash'' (str_val ''''),
          m_canonical_content_hash = dgetd d ''canonical_content_hash'' (str_val ''''),
          m_content_type = dgetd d ''content_type'' (str_val ''application/octet-stream''),
          m_size_bytes = dgetd d ''size_bytes'' (PInt 0),
          m_issuer_id = dgetd d ''issuer_id'' (str_val ''''),
          m_issuer_ed25519_pub = dgetd d ''issuer_ed25519_pub'' (str_val ''''),
          m_recipient = None, m_watermarks = [],
          m_beacons = dgetd d ''beacons'' (PList []), m_policy = dgetd d ''policy'' (PDict []),
          m_l3_policy = dgetd d ''l3_policy'' (PDict []),
          m_signature_ed25519 = dgetd d ''signature_ed25519'' (str_val ''''),
          m_signature_ml_dsa = dgetd d ''signature_ml_dsa'' (str_val '''')\<rparr>))"

text \<open>\<open>except TypeError as exc: raise ValueError\<close>\<close>

definition type_to_value :: "'a res \<Rightarrow> 'a res" where
  "type_to_value r =
     (case r of Inl e \<Rightarrow> if is_TypeError e then Inl (ValueError ''Malformed manifest fields'') else Inl e
      | Inr x \<Rightarrow> Inr x)"

definition parse_recipient :: "pyval \<Rightarrow> recipient option res" where
  "parse_recipient rec =
     (if truthy rec then
        (case rec of
           PDict r \<Rightarrow>
             ebind (guard (only_keys recipient_fields r) (ValueError ''Unknown recipient field'')) (\<lambda>_.
             ebind (recipient_of r) (\<lambda>x. Inr (Some x)))
         | _ \<Rightarrow> Inl (ValueError ''Malformed manifest recipient''))
      else Inr None)"

definition parse_watermark :: "pyval \<Rightarrow> watermark_ref res" where
  "parse_watermark v =
     (case v of
        PDict w \<Rightarrow>
          ebind (guard (only_keys watermark_fields w) (ValueError ''Unknown watermark field'')) (\<lambda>_.
          watermark_of w)
      | _ \<Rightarrow> Inl (ValueError ''Malformed manifest watermark''))"

definition from_dict :: "pydict \<Rightarrow> manifest res" where
  "from_dict d0 =
     (let rec = dgetn d0 ''recipient''; wms = dgetd d0 ''watermarks'' (PList []);
          d = filter (\<lambda>kv. fst kv \<noteq> key ''recipient'' \<and> fst kv \<noteq> key ''watermarks'') d0 in
      ebind (guard (only_keys manifest_fields d) (ValueError ''Unknown manifest field'')) (\<lambda>_.
      type_to_value (
        ebind (manifest_of d) (\<lambda>m.
        ebind (parse_recipient rec) (\<lambda>r.
        case wms of
          PList ws \<Rightarrow>
            ebind (mapM_res parse_watermark ws) (\<lambda>watermarks.
            Inr (m\<lparr>m_recipient := r, m_watermarks := watermarks\<rparr>))
        | _ \<Rightarrow> Inl (ValueError ''Malformed manifest watermarks''))))))"

definition from_json :: "bytes \<Rightarrow> manifest res" where
  "from_json data =
     (case loads_utf8 data of
        Inl e \<Rightarrow> Inl (ValueError ''Malformed manifest JSON'')
      | Inr v \<Rightarrow>
          (case v of
             PDict d \<Rightarrow> from_dict d
           | _ \<Rightarrow> Inl (ValueError ''Malformed manifest: expected JSON object'')))"

section \<open>Signing and verifying\<close>

definition sign :: "crypto_ops \<Rightarrow> bytes \<Rightarrow> manifest \<Rightarrow> manifest res" where
  "sign C issuer_ed25519_priv m =
     ebind (canonical_bytes m) (\<lambda>bs.
     ebind (sign_manifest C bs issuer_ed25519_priv) (\<lambda>sg.
     Inr (m\<lparr>m_signature_ed25519 := PStr (hex sg)\<rparr>)))"

definition verify :: "crypto_ops \<Rightarrow> manifest \<Rightarrow> bool res" where
  "verify C m =
     (if \<not> truthy (m_signature_ed25519 m) \<or> \<not> truthy (m_issuer_ed25519_pub m) then Inr False
      else
        ebind (canonical_bytes m) (\<lambda>bs.
        ebind (py_fromhex (m_signature_ed25519 m)) (\<lambda>sg.
        ebind (py_fromhex (m_issuer_ed25519_pub m)) (\<lambda>pk.
        Inr (verify_manifest C bs sg pk)))))"

section \<open>Normal forms\<close>

text \<open>What a field is after it was written and read: without nulls, its keys sorted.\<close>

definition clean :: "pyval \<Rightarrow> pyval" where
  "clean v = canon (strip_none v)"

lemma distinct_fst_sort: "distinct (map fst (sort_key f xs)) \<longleftrightarrow> distinct (map fst xs)"
proof -
  have "mset (map fst (sort_key f xs)) = mset (map fst xs)" by simp
  then show ?thesis by (rule mset_eq_imp_distinct_iff)
qed

lemma map_of_sort_key: "distinct (map fst xs) \<Longrightarrow> map_of (sort_key f xs) = map_of xs"
  by (subst map_of_inject_set) (simp_all add: distinct_fst_sort)

lemma distinct_fst_filter: "distinct (map fst d) \<Longrightarrow> distinct (map fst (filter P d))"
  by (induction d) auto

lemma strip_none_PNone [simp]: "strip_none v = PNone \<longleftrightarrow> v = PNone"
  by (cases v) auto

lemma canon_PNone [simp]: "canon v = PNone \<longleftrightarrow> v = PNone"
  by (cases v) auto

lemma strip_none_idem: "strip_none (strip_none v) = strip_none v"
  by (induction v rule: strip_none.induct) (auto simp: filter_map o_def)

lemma item16_fst: "fst a = fst b \<Longrightarrow> item16 a = item16 b"
  by (simp add: item16_def)

lemma canon_dict: "canon (PDict d) = PDict (map (\<lambda>kv. (fst kv, canon (snd kv))) (sort_key item16 d))"
proof -
  have "sort_key item16 (map (\<lambda>kv. (fst kv, canon (snd kv))) d)
      = map (\<lambda>kv. (fst kv, canon (snd kv))) (sort_key (\<lambda>kv. item16 (fst kv, canon (snd kv))) d)"
    by (rule sort_key_map)
  moreover have "(\<lambda>kv. item16 (fst kv, canon (snd kv))) = item16"
    by (rule ext) (simp add: item16_def)
  ultimately show ?thesis by (simp add: case_prod_beta')
qed

lemma strip_none_dict:
  "strip_none (PDict d) = PDict (map (\<lambda>kv. (fst kv, strip_none (snd kv))) (filter (\<lambda>kv. snd kv \<noteq> PNone) d))"
  by simp

lemma sort_key_item16_map:
  "sort_key item16 (map (\<lambda>kv. (fst kv, g (snd kv))) d) = map (\<lambda>kv. (fst kv, g (snd kv))) (sort_key item16 d)"
proof -
  have "(\<lambda>kv. item16 (fst kv, g (snd kv))) = item16" by (rule ext) (simp add: item16_def)
  then show ?thesis using sort_key_map [of item16 "\<lambda>kv. (fst kv, g (snd kv))" d] by simp
qed

lemma sort_key_twice: "sort_key f (sort_key f xs) = sort_key f xs"
  by (rule sort_key_id_if_sorted) simp

lemma canon_idem: "canon (canon v) = canon v"
proof (induction v)
  case (PDict d)
  have "map (\<lambda>kv. (fst kv, canon (canon (snd kv)))) (sort_key item16 d)
      = map (\<lambda>kv. (fst kv, canon (snd kv))) (sort_key item16 d)"
    using PDict by (auto intro!: map_cong)
  then show ?case
    by (simp add: canon_dict sort_key_item16_map sort_key_twice o_def del: canon.simps)
qed (auto simp: o_def)

lemma strip_canon: "strip_none (canon v) = canon (strip_none v)"
proof (induction v rule: strip_none.induct)
  case (1 d)
  have "map (\<lambda>kv. (fst kv, strip_none (canon (snd kv)))) (sort_key item16 (filter (\<lambda>kv. snd kv \<noteq> PNone) d))
      = map (\<lambda>kv. (fst kv, canon (strip_none (snd kv)))) (sort_key item16 (filter (\<lambda>kv. snd kv \<noteq> PNone) d))"
    using "1.IH" by (auto intro!: map_cong)
  then show ?case
    by (simp add: canon_dict sort_key_item16_map filter_map filter_sort o_def del: canon.simps)
qed (auto simp: o_def)

lemma clean_idem: "clean (clean v) = clean v"
  by (simp add: clean_def strip_canon strip_none_idem canon_idem)

lemma canon_strip_clean: "canon (strip_none (clean v)) = canon (strip_none v)"
  using clean_idem by (simp add: clean_def)

lemma clean_simps [simp]:
  "clean (PStr s) = PStr s" "clean (PInt i) = PInt i" "clean PNone = PNone" "clean (PBool t) = PBool t"
  "clean (PList xs) = PList (map clean xs)" "clean (str_val x) = str_val x"
  by (simp_all add: clean_def o_def str_val_def)

lemma clean_PNone [simp]: "clean v = PNone \<longleftrightarrow> v = PNone"
  by (simp add: clean_def)

lemma json_ok_strip: "json_ok v \<Longrightarrow> json_ok (strip_none v)"
proof (induction v rule: strip_none.induct)
  case (1 d)
  then show ?case
    by (auto simp: list_all_iff o_def distinct_fst_filter)
qed (auto simp: list_all_iff)

lemma clean_dict_get:
  assumes "distinct (map fst d)" "clean (PDict d) = PDict d'"
  shows "dget d' k = (case dget d k of None \<Rightarrow> None | Some v \<Rightarrow> if v = PNone then None else Some (clean v))"
    and "fst ` set d' = fst ` {kv \<in> set d. snd kv \<noteq> PNone}" "distinct (map fst d')"
proof -
  let ?f = "filter (\<lambda>kv. snd kv \<noteq> PNone) d"
  have d': "d' = map (\<lambda>kv. (fst kv, clean (snd kv))) (sort_key item16 ?f)"
    using assms(2) by (simp add: clean_def canon_dict sort_key_item16_map o_def del: canon.simps)
  have m: "map_of (map (\<lambda>kv. (fst kv, g (snd kv))) xs) k = map_option g (map_of xs k)"
    for g :: "pyval \<Rightarrow> pyval" and xs :: pydict and k
    by (induction xs) auto
  have f: "map_of ?f k = (case map_of d k of None \<Rightarrow> None | Some v \<Rightarrow> if v = PNone then None else Some v)" for k
    using assms(1) by (induction d) (auto simp: map_of_eq_None_iff split: option.splits)
  have "distinct (map fst ?f)" using assms(1) by (rule distinct_fst_filter)
  then show "dget d' k = (case dget d k of None \<Rightarrow> None | Some v \<Rightarrow> if v = PNone then None else Some (clean v))"
    "distinct (map fst d')"
    by (simp_all add: dget_def d' m map_of_sort_key f o_def distinct_fst_sort split: option.split)
  show "fst ` set d' = fst ` {kv \<in> set d. snd kv \<noteq> PNone}"
    by (force simp: d' image_iff)
qed

section \<open>Well-formed manifests and their round trip\<close>

definition manifest_ok :: "manifest \<Rightarrow> bool" where
  "manifest_ok m \<longleftrightarrow> json_ok (PDict (asdict m))
     \<and> (\<forall>kv\<in>set (asdict m). fst kv = key ''recipient'' \<or> snd kv \<noteq> PNone)
     \<and> (case m_recipient m of None \<Rightarrow> True | Some r \<Rightarrow> r_recipient_id r \<noteq> PNone \<and> r_x25519_pub r \<noteq> PNone)
     \<and> (\<forall>w\<in>set (m_watermarks m). w_layer w \<noteq> PNone \<and> w_mark_id w \<noteq> PNone)"

definition norm_recipient :: "recipient \<Rightarrow> recipient" where
  "norm_recipient r = \<lparr>r_recipient_id = clean (r_recipient_id r), r_x25519_pub = clean (r_x25519_pub r),
     r_ed25519_pub = clean (r_ed25519_pub r), r_p256_pub = clean (r_p256_pub r)\<rparr>"

definition norm_watermark :: "watermark_ref \<Rightarrow> watermark_ref" where
  "norm_watermark w = \<lparr>w_layer = clean (w_layer w), w_mark_id = clean (w_mark_id w)\<rparr>"

definition norm_manifest :: "manifest \<Rightarrow> manifest" where
  "norm_manifest m = \<lparr>m_file_id = clean (m_file_id m), m_issued_at = clean (m_issued_at m),
     m_version = clean (m_version m), m_suite = clean (m_suite m),
     m_original_filename = clean (m_original_filename m), m_content_hash = clean (m_content_hash m),
     m_canonical_content_hash = clean (m_canonical_content_hash m), m_content_type = clean (m_content_type m),
     m_size_bytes = clean (m_size_bytes m), m_issuer_id = clean (m_issuer_id m),
     m_issuer_ed25519_pub = clean (m_issuer_ed25519_pub m),
     m_recipient = map_option norm_recipient (m_recipient m),
     m_watermarks = map norm_watermark (m_watermarks m), m_beacons = clean (m_beacons m),
     m_policy = clean (m_policy m), m_l3_policy = clean (m_l3_policy m),
     m_signature_ed25519 = clean (m_signature_ed25519 m), m_signature_ml_dsa = clean (m_signature_ml_dsa m)\<rparr>"

lemma clean_PDict: "\<exists>d'. clean (PDict d) = PDict d'"
  by (simp add: clean_def canon_dict del: canon.simps)

lemma distinct_fields: "distinct (map fst (asdict m))" "distinct (map fst (recipient_dict r))"
  "distinct (map fst (watermark_dict w))"
  by (simp_all add: asdict_def recipient_dict_def watermark_dict_def)

lemma json_ok_distinct: "json_ok (PDict d) \<Longrightarrow> distinct (map fst d)"
  by simp

lemma required_Inr [simp]: "required d k = Inr v \<longleftrightarrow> dget d k = Some v"
  by (simp add: required_def split: option.split)

lemma dget_pop: "k \<noteq> ''recipient'' \<Longrightarrow> k \<noteq> ''watermarks'' \<Longrightarrow>
    dget (filter (\<lambda>kv. fst kv \<noteq> key ''recipient'' \<and> fst kv \<noteq> key ''watermarks'') d) k = dget d k"
  by (induction d) auto

lemma parse_recipient_clean:
  assumes "clean (PDict (recipient_dict r)) = v" "r_recipient_id r \<noteq> PNone" "r_x25519_pub r \<noteq> PNone"
  shows "parse_recipient v = Inr (Some (norm_recipient r))"
proof -
  obtain d where d: "clean (PDict (recipient_dict r)) = PDict d" using clean_PDict by blast
  note get = clean_dict_get [OF distinct_fields(2) d]
  have "dget d ''recipient_id'' = Some (clean (r_recipient_id r))"
    "dget d ''x25519_pub'' = Some (clean (r_x25519_pub r))"
    "dgetn d ''ed25519_pub'' = clean (r_ed25519_pub r)" "dgetn d ''p256_pub'' = clean (r_p256_pub r)"
    using assms(2,3) by (simp_all add: get(1) recipient_dict_def dgetn_def dgetd_def)
  moreover have "only_keys recipient_fields d"
  proof -
    have "fst ` set d \<subseteq> key ` set recipient_fields"
      unfolding get(2) by (auto simp: recipient_dict_def recipient_fields_def)
    then show ?thesis unfolding only_keys_def by auto
  qed
  ultimately show ?thesis using d assms(1)
    by (auto simp: parse_recipient_def recipient_of_def truthy_def norm_recipient_def ebind_eq_Inr)
qed

lemma parse_watermark_clean:
  assumes "w_layer w \<noteq> PNone" "w_mark_id w \<noteq> PNone"
  shows "parse_watermark (clean (PDict (watermark_dict w))) = Inr (norm_watermark w)"
proof -
  obtain d where d: "clean (PDict (watermark_dict w)) = PDict d" using clean_PDict by blast
  note get = clean_dict_get [OF distinct_fields(3) d]
  have "dget d ''layer'' = Some (clean (w_layer w))" "dget d ''mark_id'' = Some (clean (w_mark_id w))"
    using assms by (simp_all add: get(1) watermark_dict_def)
  moreover have "only_keys watermark_fields d"
  proof -
    have "fst ` set d \<subseteq> key ` set watermark_fields"
      unfolding get(2) by (auto simp: watermark_dict_def watermark_fields_def)
    then show ?thesis unfolding only_keys_def by auto
  qed
  ultimately show ?thesis using d
    by (auto simp: parse_watermark_def watermark_of_def norm_watermark_def ebind_eq_Inr)
qed

lemma from_dict_clean:
  assumes "manifest_ok m" "clean (PDict (asdict m)) = PDict d"
  shows "from_dict d = Inr (norm_manifest m)"
proof -
  note get = clean_dict_get [OF distinct_fields(1) assms(2)]
  have nn: "\<forall>kv\<in>set (asdict m). fst kv = key ''recipient'' \<or> snd kv \<noteq> PNone"
    using assms(1) by (simp add: manifest_ok_def)
  let ?d = "filter (\<lambda>kv. fst kv \<noteq> key ''recipient'' \<and> fst kv \<noteq> key ''watermarks'') d"
  have keys: "only_keys manifest_fields ?d"
  proof -
    have "fst ` set d \<subseteq> key ` set manifest_fields"
      unfolding get(2) by (auto simp: asdict_def manifest_fields_def)
    then show ?thesis unfolding only_keys_def by auto
  qed
  have fields: "manifest_of ?d = Inr ((norm_manifest m)\<lparr>m_recipient := None, m_watermarks := []\<rparr>)"
    using nn by (simp add: manifest_of_def ebind_eq_Inr dget_pop dgetd_def get(1))
      (simp add: asdict_def norm_manifest_def)
  have rec: "parse_recipient (dgetn d ''recipient'') = Inr (map_option norm_recipient (m_recipient m))"
  proof (cases "m_recipient m")
    case None
    then have "dget (asdict m) ''recipient'' = Some PNone" by (simp add: asdict_def)
    then show ?thesis using None by (simp add: dgetn_def dgetd_def get(1) parse_recipient_def truthy_def)
  next
    case (Some r)
    then have "dget (asdict m) ''recipient'' = Some (PDict (recipient_dict r))" by (simp add: asdict_def)
    then have "dgetn d ''recipient'' = clean (PDict (recipient_dict r))"
      by (simp add: dgetn_def dgetd_def get(1))
    then show ?thesis using parse_recipient_clean [OF refl] Some assms(1) by (simp add: manifest_ok_def)
  qed
  have "dget (asdict m) ''watermarks'' = Some (PList (map (\<lambda>w. PDict (watermark_dict w)) (m_watermarks m)))"
    by (simp add: asdict_def)
  then have wms: "dgetd d ''watermarks'' (PList []) = PList (map (\<lambda>w. clean (PDict (watermark_dict w))) (m_watermarks m))"
    by (simp add: dgetd_def get(1) o_def)
  have "mapM_res parse_watermark (map (\<lambda>w. clean (PDict (watermark_dict w))) ws) = Inr (map norm_watermark ws)"
    if "set ws \<subseteq> set (m_watermarks m)" for ws
    using that assms(1) by (induction ws) (auto simp: parse_watermark_clean manifest_ok_def)
  then show ?thesis
    using keys fields rec wms by (simp add: from_dict_def Let_def type_to_value_def) (simp add: norm_manifest_def)
qed

section \<open>What is signed\<close>

definition unsigned :: "manifest \<Rightarrow> manifest" where
  "unsigned m = m\<lparr>m_signature_ed25519 := str_val '''', m_signature_ml_dsa := str_val ''''\<rparr>"

lemma to_dict_False: "to_dict False m = asdict (unsigned m)"
  by (simp add: to_dict_def unsigned_def asdict_def dset_def)

lemma to_dict_True: "to_dict True m = asdict m"
  by (simp add: to_dict_def)

lemma clean_dict: "clean (PDict d) = PDict (sort_key item16 (filter (\<lambda>kv. snd kv \<noteq> PNone)
    (map (\<lambda>kv. (fst kv, clean (snd kv))) d)))"
proof -
  let ?F = "sort_key item16 (filter (\<lambda>kv. snd kv \<noteq> PNone) d)"
  have "clean (PDict d) = PDict (map (\<lambda>kv. (fst kv, clean (snd kv))) ?F)"
    by (simp add: clean_def canon_dict sort_key_item16_map o_def del: canon.simps)
  also have "\<dots> = PDict (sort_key item16 (map (\<lambda>kv. (fst kv, clean (snd kv))) (filter (\<lambda>kv. snd kv \<noteq> PNone) d)))"
    by (simp add: sort_key_item16_map)
  finally show ?thesis by (simp add: filter_map o_def)
qed

lemma clean_dict_cong:
  "map (\<lambda>kv. (fst kv, clean (snd kv))) d = map (\<lambda>kv. (fst kv, clean (snd kv))) e \<Longrightarrow>
     clean (PDict d) = clean (PDict e)"
  by (simp add: clean_dict)

lemma clean_recipient_norm:
  "clean (PDict (recipient_dict (norm_recipient r))) = clean (PDict (recipient_dict r))"
  by (rule clean_dict_cong) (simp add: recipient_dict_def norm_recipient_def clean_idem)

lemma clean_watermark_norm:
  "clean (PDict (watermark_dict (norm_watermark w))) = clean (PDict (watermark_dict w))"
  by (rule clean_dict_cong) (simp add: watermark_dict_def norm_watermark_def clean_idem)

lemma clean_asdict_norm: "clean (PDict (asdict (norm_manifest m))) = clean (PDict (asdict m))"
  by (rule clean_dict_cong)
     (simp add: asdict_def norm_manifest_def clean_idem clean_recipient_norm clean_watermark_norm o_def split: option.split)

lemma manifest_ok_unsigned: "manifest_ok m \<Longrightarrow> manifest_ok (unsigned m)"
  by (simp add: manifest_ok_def unsigned_def asdict_def str_val_def scalar_str_def)

lemma json_ok_clean: "json_ok v \<Longrightarrow> json_ok (clean v)"
  by (simp add: clean_def json_ok_canon json_ok_strip)

lemma recipient_dict_ok: "json_ok (PDict (recipient_dict r)) \<Longrightarrow> json_ok (PDict (recipient_dict (norm_recipient r)))"
  by (simp add: recipient_dict_def norm_recipient_def json_ok_clean)

lemma watermark_dict_ok: "json_ok (PDict (watermark_dict w)) \<Longrightarrow> json_ok (PDict (watermark_dict (norm_watermark w)))"
  by (simp add: watermark_dict_def norm_watermark_def json_ok_clean)

lemma asdict_json_ok:
  "json_ok (PDict (asdict m)) \<longleftrightarrow>
     json_ok (m_file_id m) \<and> json_ok (m_issued_at m) \<and> json_ok (m_version m) \<and> json_ok (m_suite m)
     \<and> json_ok (m_original_filename m) \<and> json_ok (m_content_hash m) \<and> json_ok (m_canonical_content_hash m)
     \<and> json_ok (m_content_type m) \<and> json_ok (m_size_bytes m) \<and> json_ok (m_issuer_id m)
     \<and> json_ok (m_issuer_ed25519_pub m)
     \<and> (case m_recipient m of None \<Rightarrow> True | Some r \<Rightarrow> json_ok (PDict (recipient_dict r)))
     \<and> (\<forall>w\<in>set (m_watermarks m). json_ok (PDict (watermark_dict w)))
     \<and> json_ok (m_beacons m) \<and> json_ok (m_policy m) \<and> json_ok (m_l3_policy m)
     \<and> json_ok (m_signature_ed25519 m) \<and> json_ok (m_signature_ml_dsa m)"
  by (cases "m_recipient m") (simp_all add: asdict_def list_all_iff)

definition non_null :: "manifest \<Rightarrow> bool" where
  "non_null m \<longleftrightarrow> PNone \<notin> set [m_file_id m, m_issued_at m, m_version m, m_suite m, m_original_filename m,
     m_content_hash m, m_canonical_content_hash m, m_content_type m, m_size_bytes m, m_issuer_id m,
     m_issuer_ed25519_pub m, m_beacons m, m_policy m, m_l3_policy m, m_signature_ed25519 m, m_signature_ml_dsa m]"

lemma asdict_non_null:
  "(\<forall>kv\<in>set (asdict m). fst kv = key ''recipient'' \<or> snd kv \<noteq> PNone) \<longleftrightarrow> non_null m"
  by (auto simp: asdict_def non_null_def)

lemma non_null_norm: "non_null (norm_manifest m) \<longleftrightarrow> non_null m"
  by (simp add: non_null_def norm_manifest_def eq_commute [of PNone])

lemma manifest_ok_norm: "manifest_ok m \<Longrightarrow> manifest_ok (norm_manifest m)"
proof -
  assume m: "manifest_ok m"
  have "json_ok (PDict (asdict (norm_manifest m)))"
    using m unfolding manifest_ok_def asdict_json_ok
    by (cases "m_recipient m") (simp_all add: norm_manifest_def json_ok_clean recipient_dict_ok watermark_dict_ok del: json_ok.simps)
  then show ?thesis
    using m unfolding manifest_ok_def asdict_non_null non_null_norm
    by (cases "m_recipient m") (simp_all add: norm_manifest_def norm_recipient_def norm_watermark_def del: json_ok.simps)
qed

lemma jcs_clean_cong:
  "json_ok v \<Longrightarrow> json_ok w \<Longrightarrow> clean v = clean w \<Longrightarrow> jcs_dumps (strip_none v) = jcs_dumps (strip_none w)"
  by (simp add: jcs_inject json_ok_strip clean_def)

lemma unsigned_norm: "unsigned (norm_manifest m) = norm_manifest (unsigned m)"
  by (simp add: unsigned_def norm_manifest_def)

lemma manifest_ok_json: "manifest_ok m \<Longrightarrow> json_ok (PDict (asdict m))"
  unfolding manifest_ok_def by (elim conjE)

lemma canonical_bytes_norm:
  assumes "manifest_ok m"
  shows "canonical_bytes (norm_manifest m) = canonical_bytes m"
  unfolding canonical_bytes_def to_dict_False unsigned_norm
  by (rule jcs_clean_cong)
     (rule manifest_ok_json manifest_ok_norm manifest_ok_unsigned clean_asdict_norm assms)+

lemma json_ok_asdict: "manifest_ok m \<Longrightarrow> json_ok (strip_none (PDict (asdict m)))"
  by (rule json_ok_strip) (rule manifest_ok_json)

lemma to_json_from_json:
  assumes "manifest_ok m"
  shows "\<exists>bs. to_json m = Inr bs \<and> from_json bs = Inr (norm_manifest m)"
proof -
  obtain bs where bs: "jcs_dumps (strip_none (PDict (asdict m))) = Inr bs"
    using jcs_dumps_ok [OF json_ok_asdict [OF assms]] by blast
  have "loads_utf8 bs = Inr (clean (PDict (asdict m)))"
    using loads_jcs [OF json_ok_asdict [OF assms] bs] by (simp add: clean_def)
  moreover obtain d where d: "clean (PDict (asdict m)) = PDict d" using clean_PDict by blast
  ultimately show ?thesis
    using bs from_dict_clean [OF assms d] by (simp add: to_json_def to_dict_True from_json_def)
qed

lemma canonical_bytes_total: "manifest_ok m \<Longrightarrow> \<exists>bs. canonical_bytes m = Inr bs"
  unfolding canonical_bytes_def to_dict_False
  using jcs_dumps_ok [OF json_ok_asdict [OF manifest_ok_unsigned]] by blast

lemma unsigned_sign: "unsigned (m\<lparr>m_signature_ed25519 := x\<rparr>) = unsigned m"
  by (simp add: unsigned_def)

lemma canonical_bytes_sign [simp]: "canonical_bytes (m\<lparr>m_signature_ed25519 := x\<rparr>) = canonical_bytes m"
  by (simp add: canonical_bytes_def to_dict_False unsigned_sign)

lemma manifest_ok_sign: "manifest_ok m \<Longrightarrow> manifest_ok (m\<lparr>m_signature_ed25519 := PStr (hex x)\<rparr>)"
  by (simp add: manifest_ok_def asdict_def)

lemma sign_ok:
  assumes "manifest_ok m" "sig_correct C" "length sk = 32" "m_issuer_ed25519_pub m = PStr (hex (ed_pub C sk))"
  shows "\<exists>m'. sign C sk m = Inr m' \<and> manifest_ok m' \<and> verify C m' = Inr True
    \<and> (\<exists>x. m' = m\<lparr>m_signature_ed25519 := PStr (hex x)\<rparr>)"
proof -
  obtain bs where bs: "canonical_bytes m = Inr bs" using canonical_bytes_total [OF assms(1)] by blast
  let ?m = "m\<lparr>m_signature_ed25519 := PStr (hex (ed_sign C sk bs))\<rparr>"
  have s: "length (ed_pub C sk) = 32" "ed_sign C sk bs \<noteq> []" "ed_verify C (ed_pub C sk) (ed_sign C sk bs) bs"
    using assms(2,3) by (auto simp: sig_correct_def)
  have "hex x = [] \<longleftrightarrow> x = []" for x using hex_inject [of x "[]"] by simp
  moreover have "ed_pub C sk \<noteq> []" using s(1) by auto
  ultimately have "verify C ?m = Inr True"
    using s bs assms(4) by (simp add: verify_def truthy_def verify_manifest_def raw_key_def)
  moreover have "sign C sk m = Inr ?m" using bs assms(3) by (simp add: sign_def sign_manifest_def raw_key_def)
  ultimately show ?thesis using manifest_ok_sign [OF assms(1)] by blast
qed

lemma verify_norm:
  assumes "manifest_ok m" "m_signature_ed25519 m = PStr a" "m_issuer_ed25519_pub m = PStr b"
  shows "verify C (norm_manifest m) = verify C m"
proof -
  have "m_signature_ed25519 (norm_manifest m) = PStr a" "m_issuer_ed25519_pub (norm_manifest m) = PStr b"
    using assms(2,3) by (simp_all add: norm_manifest_def)
  then show ?thesis using assms by (simp only: verify_def canonical_bytes_norm)
qed

section \<open>Properties\<close>

definition sample_recipient :: recipient where
  "sample_recipient = \<lparr>r_recipient_id = str_val ''alice'', r_x25519_pub = PStr (hex (replicate 32 3)),
     r_ed25519_pub = PNone, r_p256_pub = PNone\<rparr>"

definition sample_manifest :: "bytes \<Rightarrow> manifest" where
  "sample_manifest plaintext = manifest_new (u ''f-1'') 1700000000 (str_val ''a.txt'')
     (PStr (content_hash plaintext)) (PInt (int (length plaintext))) (str_val ''issuer'')
     (PStr (hex (ed_pub toy_ops (replicate 32 7)))) sample_recipient (str_val ''https://r'')
     (str_val ''text/plain'') PNone (PInt 2) (str_val ''GLOBAL'')"

lemma sample_manifest_ok: "manifest_ok (sample_manifest plaintext)"
  unfolding manifest_ok_def asdict_json_ok asdict_non_null
  by (simp add: sample_manifest_def manifest_new_def sample_recipient_def recipient_dict_def str_val_def
      dset_def non_null_def truthy_def content_hash_def SUITE_CLASSIC_V1_def scalar_str_def [of "[]"])

text \<open>
  C17: a manifest that is written and read back is the same manifest up to the order of keys and
  nulls inside its fields, and the bytes the issuer signs do not change on the way.
\<close>

theorem manifest_roundtrip:
  assumes "manifest_ok m"
  shows "\<exists>bs. to_json m = Inr bs \<and> from_json bs = Inr (norm_manifest m) \<and> canonical_bytes (norm_manifest m) = canonical_bytes m"
  using to_json_from_json [OF assms] canonical_bytes_norm [OF assms] by blast

theorem manifest_roundtrip_witness:
  "\<exists>bs. to_json (sample_manifest [1]) = Inr bs \<and> from_json bs = Inr (norm_manifest (sample_manifest [1]))"
  using manifest_roundtrip [OF sample_manifest_ok] by blast

text \<open>
  C16: a signature survives the wire: signing a well-formed manifest with the key whose public half
  it names succeeds, and after \<open>to_json\<close> and \<open>from_json\<close> the signature still verifies.
\<close>

theorem signature_survives_wire:
  assumes "manifest_ok m" "sig_correct C" "length sk = 32"
    and "m_issuer_ed25519_pub m = PStr (hex (ed_pub C sk))"
  shows "\<exists>m' bs m''. sign C sk m = Inr m' \<and> to_json m' = Inr bs \<and> from_json bs = Inr m''
    \<and> verify C m' = Inr True \<and> verify C m'' = Inr True"
proof -
  obtain m' x where m': "sign C sk m = Inr m'" "manifest_ok m'" "verify C m' = Inr True"
    "m' = m\<lparr>m_signature_ed25519 := PStr (hex x)\<rparr>"
    using sign_ok [OF assms] by blast
  obtain bs where bs: "to_json m' = Inr bs" "from_json bs = Inr (norm_manifest m')"
    using to_json_from_json [OF m'(2)] by blast
  have "verify C (norm_manifest m') = Inr True"
    using verify_norm [OF m'(2)] m'(3,4) assms(4) by simp
  with m' bs show ?thesis by blast
qed

theorem signature_survives_wire_witness:
  "\<exists>m' bs m''. sign toy_ops (replicate 32 7) (sample_manifest [1]) = Inr m' \<and> to_json m' = Inr bs
     \<and> from_json bs = Inr m'' \<and> verify toy_ops m'' = Inr True"
  using signature_survives_wire [OF sample_manifest_ok toy_ops_correct(1), of "replicate 32 7" "[1]"]
  by (auto simp: sample_manifest_def manifest_new_def Let_def)

text \<open>
  C18: the signature covers every field: two well-formed manifests with the same signed bytes agree,
  the two signature slots aside, in every field (up to nulls and the order of keys).
\<close>

theorem signed_bytes_bind_fields:
  assumes "manifest_ok m1" "manifest_ok m2" "canonical_bytes m1 = canonical_bytes m2"
  shows "norm_manifest (unsigned m1) = norm_manifest (unsigned m2)"
proof -
  have ok: "manifest_ok (unsigned m1)" "manifest_ok (unsigned m2)"
    using assms(1,2) by (simp_all add: manifest_ok_unsigned)
  obtain d where d: "clean (PDict (asdict (unsigned m1))) = PDict d" using clean_PDict by blast
  have "canon (strip_none (PDict (asdict (unsigned m1)))) = canon (strip_none (PDict (asdict (unsigned m2))))"
    using assms(3) jcs_inject [OF json_ok_asdict [OF ok(1)] json_ok_asdict [OF ok(2)]]
    by (simp only: canonical_bytes_def to_dict_False)
  then have "clean (PDict (asdict (unsigned m2))) = PDict d" using d by (simp only: clean_def)
  then show ?thesis using from_dict_clean [OF ok(1) d] from_dict_clean [OF ok(2)] by simp
qed

theorem signed_bytes_bind_fields_witness:
  "norm_manifest (unsigned (sample_manifest [1])) = norm_manifest (unsigned (norm_manifest (sample_manifest [1])))"
  by (rule signed_bytes_bind_fields [OF sample_manifest_ok manifest_ok_norm [OF sample_manifest_ok]
        canonical_bytes_norm [OF sample_manifest_ok, symmetric]])

lemma from_dict_errors: "from_dict d = Inl e \<Longrightarrow> is_ValueError e"
proof -
  have rec: "parse_recipient v = Inl e \<Longrightarrow> is_TypeError e \<or> is_ValueError e" for v e
    by (auto simp: parse_recipient_def recipient_of_def required_def ebind_eq_Inl
        split: if_splits pyval.split_asm option.split_asm)
  have wm: "parse_watermark v = Inl e \<Longrightarrow> is_TypeError e \<or> is_ValueError e" for v e
    by (auto simp: parse_watermark_def watermark_of_def required_def ebind_eq_Inl
        split: pyval.split_asm option.split_asm)
  have wms: "mapM_res parse_watermark ws = Inl e \<Longrightarrow> is_TypeError e \<or> is_ValueError e" for ws e
    by (induction ws) (auto simp: ebind_eq_Inl dest: wm)
  have m: "manifest_of v = Inl e \<Longrightarrow> is_TypeError e" for v e
    by (auto simp: manifest_of_def required_def ebind_eq_Inl split: option.split_asm)
  have t: "type_to_value r = Inl e \<Longrightarrow> (\<And>e. r = Inl e \<Longrightarrow> is_TypeError e \<or> is_ValueError e) \<Longrightarrow> is_ValueError e"
    for r :: "manifest res" and e
    by (cases r) (auto simp: type_to_value_def split: if_splits)
  show "from_dict d = Inl e \<Longrightarrow> is_ValueError e"
    unfolding from_dict_def Let_def ebind_eq_Inl
    by (cases "dgetd d ''watermarks'' (PList [])") (auto elim!: t dest!: m rec wms simp: ebind_eq_Inl)
qed

text \<open>
  Whatever bytes arrive, parsing a manifest gives a manifest or raises \<open>ValueError\<close>; no other
  exception leaves \<open>from_json\<close>.
\<close>

theorem from_json_value_error:
  "(\<exists>m. from_json data = Inr m) \<or> (\<exists>e. from_json data = Inl e \<and> is_ValueError e)"
proof (cases "from_json data")
  case (Inl e)
  then have "is_ValueError e"
    by (auto simp: from_json_def dest: from_dict_errors split: sum.split_asm pyval.split_asm)
  with Inl show ?thesis by blast
qed blast

text \<open>
  The constructor \<open>Manifest.new\<close> drops a zero: with \<open>max_opens = 0\<close> or \<open>not_after = 0\<close>, the strictest
  limits a caller can ask for, the manifest carries no such limit.
\<close>

theorem manifest_new_drops_zero:
  "(case m_policy (manifest_new uuid now fn h sz iss pk rec url ct (PInt 0) (PInt 0) jur) of
      PDict p \<Rightarrow> dget p ''max_opens'' = None \<and> dget p ''not_after'' = None
    | _ \<Rightarrow> False)
   \<and> (case m_policy (manifest_new uuid now fn h sz iss pk rec url ct (PInt 1) (PInt 1) jur) of
      PDict p \<Rightarrow> dget p ''max_opens'' = Some (PInt 1) \<and> dget p ''not_after'' = Some (PInt 1)
    | _ \<Rightarrow> False)"
  by (simp add: manifest_new_def truthy_def Let_def dset_def)

end
