(* ===== verification/Policy.thy ===== *)
theory Policy
  imports Manifest
begin

text \<open>
  \<open>oversight_core/policy.py\<close>: what is checked when a sealed file is opened, and the local open
  counter. The counter files of a state directory are a map from file ids to contents (the name
  \<open><file_id>.opens.json\<close> is kept as the id). The clock, and whether the operating system fails to
  write, are arguments. Concurrent openers of one file are a step relation over the lock, the
  counter file and the program counter of every opener; the count of successful opens never exceeds
  \<open>max_opens\<close>.
\<close>

section \<open>Context and counter file\<close>

record policy_ctx =
  ctx_jurisdiction :: pystr
  ctx_state_dir :: "pystr option"
  ctx_mode :: pystr

type_synonym counters = "pyval \<Rightarrow> bytes option"

text \<open>\<open>sub in file_id\<close>: a substring of a string, a member of a list or dictionary.\<close>

definition py_in :: "string \<Rightarrow> pyval \<Rightarrow> bool res" where
  "py_in sub v =
     (case v of
        PStr s \<Rightarrow> Inr (contains (u sub) s)
      | PList xs \<Rightarrow> Inr (PStr (u sub) \<in> set xs)
      | PDict d \<Rightarrow> Inr (key sub \<in> fst ` set d)
      | _ \<Rightarrow> Inl (TypeError ''argument is not iterable''))"

definition local_counter_path :: "policy_ctx \<Rightarrow> pyval \<Rightarrow> pyval res" where
  "local_counter_path ctx file_id =
     ebind (guard (ctx_state_dir ctx \<noteq> None) (ValueError ''PolicyContext.state_dir is required'')) (\<lambda>_.
     ebind (py_in ''/'' file_id) (\<lambda>a.
     ebind (if a then Inr True else py_in [CHR 0x5C] file_id) (\<lambda>b.
     ebind (if b then Inr True else py_in ''..'' file_id) (\<lambda>c.
     ebind (guard (\<not> c) (ValueError ''invalid file_id for counter filename'')) (\<lambda>_. Inr file_id)))))"

definition local_read_count :: "policy_ctx \<Rightarrow> counters \<Rightarrow> pyval \<Rightarrow> int res" where
  "local_read_count ctx st file_id =
     ebind (local_counter_path ctx file_id) (\<lambda>p.
     case st p of
       None \<Rightarrow> Inr 0
     | Some content \<Rightarrow>
         (case ebind (loads_utf8 content) (\<lambda>v. case v of
                  PDict d \<Rightarrow> py_int (dgetd d ''count'' (PInt 0))
                | _ \<Rightarrow> Inl (AttributeError ''get'')) of
            Inr n \<Rightarrow> Inr n
          | Inl e \<Rightarrow> if is_OSError e \<or> is_ValueError e \<or> is_TypeError e then Inr 0 else Inl e))"

text \<open>The file's new content, \<open>json.dump\<close> of the count and the time.\<close>

definition counter_record :: "int \<Rightarrow> int \<Rightarrow> bytes res" where
  "counter_record new_count now =
     ebind (json_dumps (PDict [(key ''count'', PInt new_count), (key ''last'', PInt now)])) utf8_encode"

definition open_limit :: exn where
  "open_limit = PolicyViolation ''Open limit reached''"

definition local_check_and_bump ::
  "policy_ctx \<Rightarrow> int \<Rightarrow> bool \<Rightarrow> pyval \<Rightarrow> int \<Rightarrow> counters \<Rightarrow> counters \<times> int res" where
  "local_check_and_bump ctx now write_ok file_id max_opens st =
     (case local_counter_path ctx file_id of
        Inl e \<Rightarrow> (st, Inl e)
      | Inr p \<Rightarrow>
          (case local_read_count ctx st file_id of
             Inl e \<Rightarrow> (st, Inl e)
           | Inr cur \<Rightarrow>
               if max_opens \<le> cur then (st, Inl open_limit)
               else
                 let new_count = cur + 1 in
                 case counter_record new_count now of
                   Inl e \<Rightarrow> (st, Inl e)
                 | Inr content \<Rightarrow>
                     if write_ok then (st(p := Some content), Inr new_count)
                     else (st, Inl (OSError ''write''))))"

section \<open>Checks before decryption\<close>

definition policy_of :: "manifest \<Rightarrow> pydict res" where
  "policy_of m =
     (if truthy (m_policy m) then
        (case m_policy m of PDict d \<Rightarrow> Inr d | _ \<Rightarrow> Inl (AttributeError ''get''))
      else Inr [])"

definition check_policy :: "int \<Rightarrow> manifest \<Rightarrow> policy_ctx option \<Rightarrow> unit res" where
  "check_policy now m ctx =
     ebind (policy_of m) (\<lambda>policy.
     let na = dgetn policy ''not_after'' in
     ebind (if na = PNone then Inr ()
            else ebind (py_int na) (\<lambda>i. guard (now \<le> i) (PolicyViolation ''File expired''))) (\<lambda>_.
     let nb = dgetn policy ''not_before'' in
     ebind (if nb = PNone then Inr ()
            else ebind (py_int nb) (\<lambda>i. guard (i \<le> now) (PolicyViolation ''File not yet released''))) (\<lambda>_.
     let required = dgetn policy ''jurisdiction'' in
     case ctx of
       None \<Rightarrow> Inr ()
     | Some c \<Rightarrow>
         if truthy required \<and> required \<noteq> str_val ''GLOBAL''
         then guard (required = PStr (ctx_jurisdiction c)) (PolicyViolation ''Jurisdiction mismatch'')
         else Inr ())))"

definition record_open ::
  "int \<Rightarrow> bool \<Rightarrow> manifest \<Rightarrow> policy_ctx option \<Rightarrow> counters \<Rightarrow> counters \<times> int res" where
  "record_open now write_ok m ctx st =
     (case ctx of
        None \<Rightarrow> (st, Inr 0)
      | Some c \<Rightarrow>
          (case policy_of m of
             Inl e \<Rightarrow> (st, Inl e)
           | Inr policy \<Rightarrow>
               let mx = dgetn policy ''max_opens'' in
               if mx = PNone then (st, Inr 0)
               else if ctx_mode c = u ''LOCAL_ONLY'' then
                 (case py_int mx of
                    Inl e \<Rightarrow> (st, Inl e)
                  | Inr max_opens \<Rightarrow> local_check_and_bump c now write_ok (m_file_id m) max_opens st)
               else if ctx_mode c \<in> {u ''REGISTRY'', u ''HYBRID''} then
                 (st, Inl (PolicyViolation ''max_opens enforcement is not implemented''))
               else (st, Inl (ValueError ''unknown policy mode''))))"

section \<open>The counter counts\<close>

lemma counter_record_ok: "\<exists>x. counter_record n now = Inr x \<and>
    loads_utf8 x = Inr (PDict [(key ''count'', PInt n), (key ''last'', PInt now)])"
proof -
  let ?v = "PDict [(key ''count'', PInt n), (key ''last'', PInt now)]"
  have ok: "json_ok ?v" by simp
  obtain t where t: "json_dumps ?v = Inr t" using json_dumps_ok [OF ok] by blast
  have "\<forall>c\<in>set t. c < 128" using json_dumps_printable [OF t] by (fastforce simp: printable_def)
  then obtain x where x: "utf8_encode t = Inr x" using utf8_encode_ascii by blast
  then have "loads_utf8 x = Inr ?v"
    using utf8_decode_encode [OF x] json_loads_dumps [OF ok t] by (simp add: loads_utf8_def)
  with t x show ?thesis by (simp add: counter_record_def)
qed

lemma read_after_write:
  assumes "local_counter_path ctx fid = Inr p" "counter_record n now = Inr x"
  shows "local_read_count ctx (st(p := Some x)) fid = Inr n"
proof -
  have "loads_utf8 x = Inr (PDict [(key ''count'', PInt n), (key ''last'', PInt now)])"
    using counter_record_ok [of n now] assms(2) by auto
  then show ?thesis using assms(1) by (simp add: local_read_count_def dgetd_def)
qed

lemma bump_cases:
  assumes "local_check_and_bump ctx now w fid mx st = (st', r)"
  shows "(\<exists>p x n. r = Inr (n + 1) \<and> w \<and> local_counter_path ctx fid = Inr p \<and> local_read_count ctx st fid = Inr n
      \<and> n < mx \<and> counter_record (n + 1) now = Inr x \<and> st' = st(p := Some x))
    \<or> (st' = st \<and> (\<exists>e. r = Inl e))"
  using assms
  by (cases "local_counter_path ctx fid"; cases "local_read_count ctx st fid")
     (auto simp: local_check_and_bump_def Let_def split: sum.split_asm if_split_asm)

lemma bump_reads:
  assumes "local_check_and_bump ctx now w fid mx st = (st', Inr n)"
  shows "local_read_count ctx st' fid = Inr n \<and> local_read_count ctx st fid = Inr (n - 1) \<and> n \<le> mx"
  using bump_cases [OF assms] read_after_write by auto

section \<open>Concurrent openers\<close>

text \<open>Where an opener is in \<open>_local_check_and_bump\<close>; \<open>Read cur\<close> is behind the comparison.\<close>

datatype opener = Start | Locked | Read int | Done "int res"

record sys =
  counter :: counters
  lock :: "nat option"
  openers :: "nat \<Rightarrow> opener"

text \<open>
  One opener moves. \<open>fail\<close> is a failed write or a crash inside the critical section: the file
  system drops the lock, and the counter file is the old one (the new one is renamed into place
  last).
\<close>

inductive step :: "policy_ctx \<Rightarrow> pyval \<Rightarrow> int \<Rightarrow> sys \<Rightarrow> sys \<Rightarrow> bool" for ctx fid mx where
  acquire: "openers s i = Start \<Longrightarrow> lock s = None \<Longrightarrow>
    step ctx fid mx s (s\<lparr>lock := Some i, openers := (openers s)(i := Locked)\<rparr>)"
| read: "openers s i = Locked \<Longrightarrow> local_read_count ctx (counter s) fid = Inr cur \<Longrightarrow> cur < mx \<Longrightarrow>
    step ctx fid mx s (s\<lparr>openers := (openers s)(i := Read cur)\<rparr>)"
| deny: "openers s i = Locked \<Longrightarrow> local_read_count ctx (counter s) fid = Inr cur \<Longrightarrow> mx \<le> cur \<Longrightarrow>
    step ctx fid mx s (s\<lparr>lock := None, openers := (openers s)(i := Done (Inl open_limit))\<rparr>)"
| store: "openers s i = Read cur \<Longrightarrow> local_counter_path ctx fid = Inr p \<Longrightarrow>
    counter_record (cur + 1) now = Inr content \<Longrightarrow>
    step ctx fid mx s (s\<lparr>counter := (counter s)(p := Some content), lock := None,
                         openers := (openers s)(i := Done (Inr (cur + 1)))\<rparr>)"
| fail: "openers s i = Locked \<or> (\<exists>cur. openers s i = Read cur) \<Longrightarrow>
    step ctx fid mx s (s\<lparr>lock := None, openers := (openers s)(i := Done (Inl e))\<rparr>)"

definition run :: "policy_ctx \<Rightarrow> pyval \<Rightarrow> int \<Rightarrow> sys \<Rightarrow> sys \<Rightarrow> bool" where
  "run ctx fid mx = (step ctx fid mx)\<^sup>*\<^sup>*"

definition opened :: "sys \<Rightarrow> nat set" where
  "opened s = {i. \<exists>n. openers s i = Done (Inr n)}"

definition critical :: "opener \<Rightarrow> bool" where
  "critical x = (case x of Locked \<Rightarrow> True | Read _ \<Rightarrow> True | _ \<Rightarrow> False)"

lemma critical_simps [simp]: "critical Locked" "critical (Read c)" "\<not> critical Start" "\<not> critical (Done r)"
  by (simp_all add: critical_def)

definition sys_inv :: "policy_ctx \<Rightarrow> pyval \<Rightarrow> int \<Rightarrow> int \<Rightarrow> sys \<Rightarrow> bool" where
  "sys_inv ctx fid mx c0 s \<longleftrightarrow>
     finite (opened s)
     \<and> local_read_count ctx (counter s) fid = Inr (c0 + int (card (opened s)))
     \<and> (opened s \<noteq> {} \<longrightarrow> c0 + int (card (opened s)) \<le> mx)
     \<and> (\<forall>i. critical (openers s i) \<longrightarrow> lock s = Some i)
     \<and> (\<forall>i cur. openers s i = Read cur \<longrightarrow> cur = c0 + int (card (opened s)) \<and> cur < mx)"

lemma sys_invD:
  assumes "sys_inv ctx fid mx c0 s"
  shows "finite (opened s)" "local_read_count ctx (counter s) fid = Inr (c0 + int (card (opened s)))"
    "opened s \<noteq> {} \<Longrightarrow> c0 + int (card (opened s)) \<le> mx"
    "critical (openers s i) \<Longrightarrow> lock s = Some i"
    "openers s i = Read cur \<Longrightarrow> cur = c0 + int (card (opened s))" "openers s i = Read cur \<Longrightarrow> cur < mx"
    "critical (openers s i) \<Longrightarrow> j \<noteq> i \<Longrightarrow> \<not> critical (openers s j)"
  using assms by (simp_all add: sys_inv_def) (metis option.inject)

lemma opened_other:
  "openers s i \<notin> range (Done \<circ> Inr) \<Longrightarrow> x \<notin> range (Done \<circ> Inr) \<Longrightarrow>
     opened (s\<lparr>openers := (openers s)(i := x)\<rparr>) = opened s"
  by (auto simp: opened_def)

lemma opened_simps [simp]: "opened (s\<lparr>lock := l\<rparr>) = opened s" "opened (s\<lparr>counter := c\<rparr>) = opened s"
  "opened (s\<lparr>lock := l, openers := os\<rparr>) = opened (s\<lparr>openers := os\<rparr>)"
  "opened (s\<lparr>counter := c, lock := l, openers := os\<rparr>) = opened (s\<lparr>openers := os\<rparr>)"
  by (simp_all add: opened_def)

lemma inv_leave:
  assumes "sys_inv ctx fid mx c0 s" "critical (openers s i)"
  shows "sys_inv ctx fid mx c0 (s\<lparr>lock := None, openers := (openers s)(i := Done (Inl e))\<rparr>)"
proof -
  have o: "opened (s\<lparr>lock := None, openers := (openers s)(i := Done (Inl e))\<rparr>) = opened s"
    using assms(2) by (auto simp: opened_def)
  note inv = sys_invD [OF assms(1)]
  have no: "\<not> critical (((openers s)(i := Done (Inl e))) j)" for j
    using inv(7) [OF assms(2), of j] by simp
  then have "((openers s)(i := Done (Inl e))) j \<noteq> Read c" for j c using critical_simps(2) by metis
  then show ?thesis unfolding sys_inv_def o using no inv(1-3) by (simp del: fun_upd_apply)
qed

lemma step_inv: "step ctx fid mx s s' \<Longrightarrow> sys_inv ctx fid mx c0 s \<Longrightarrow> sys_inv ctx fid mx c0 s'"
proof (induction rule: step.induct)
  case (acquire s i)
  have o: "opened (s\<lparr>openers := (openers s)(i := Locked)\<rparr>) = opened s" using acquire by (intro opened_other) auto
  note inv = sys_invD [OF acquire(3)]
  have "\<not> critical (openers s j)" for j using inv(4) [of j] acquire(2) by auto
  then show ?case unfolding sys_inv_def opened_simps o using inv(1,2,3,5,6) by simp
next
  case (read s i cur)
  have o: "opened (s\<lparr>openers := (openers s)(i := Read cur)\<rparr>) = opened s"
    using read by (intro opened_other) auto
  note inv = sys_invD [OF read(4)]
  have "cur = c0 + int (card (opened s))" using inv(2) read(2) by simp
  moreover have "lock s = Some j" if "critical (((openers s)(i := Read cur)) j)" for j
    using that inv(4) [of j] read(1) by (cases "j = i") auto
  moreover have "c = cur" if "openers s j = Read c" for j c using inv(5) [OF that] calculation(1) by simp
  ultimately show ?case unfolding sys_inv_def o using inv(1,2,3) inv(6) read(3) by simp
next
  case (deny s i cur)
  then show ?case by (intro inv_leave) auto
next
  case (fail s i e)
  then show ?case by (intro inv_leave) auto
next
  case (store s i cur p now content)
  let ?o = "(openers s)(i := Done (Inr (cur + 1)))"
  have o: "opened (s\<lparr>counter := (counter s)(p := Some content), lock := None, openers := ?o\<rparr>) = insert i (opened s)"
      "i \<notin> opened s"
    using store(1) by (auto simp: opened_def)
  note inv = sys_invD [OF store(4)]
  have cur: "cur = c0 + int (card (opened s))" "cur < mx" using inv(5,6) store(1) by auto
  have "local_read_count ctx ((counter s)(p := Some content)) fid = Inr (c0 + int (card (insert i (opened s))))"
    using read_after_write [OF store(2,3)] o(2) inv(1) cur by simp
  moreover have no: "\<not> critical (?o j)" for j using inv(7) [of i j] store(1) by simp
  then have "?o j \<noteq> Read c" for j c using critical_simps(2) by metis
  ultimately show ?case
    using inv(1) o(2) cur no unfolding sys_inv_def o(1) by (simp del: fun_upd_apply)
qed

lemma run_inv: "run ctx fid mx s s' \<Longrightarrow> sys_inv ctx fid mx c0 s \<Longrightarrow> sys_inv ctx fid mx c0 s'"
  unfolding run_def by (induction rule: rtranclp_induct) (auto dest: step_inv)

definition start_sys :: "counters \<Rightarrow> sys" where
  "start_sys st = \<lparr>counter = st, lock = None, openers = \<lambda>_. Start\<rparr>"

lemma start_inv: "local_read_count ctx st fid = Inr c0 \<Longrightarrow> sys_inv ctx fid mx c0 (start_sys st)"
  by (simp add: sys_inv_def start_sys_def opened_def)

text \<open>Opener \<open>i\<close> alone, from start to end, is a call of \<open>_local_check_and_bump\<close>.\<close>

lemma bump_is_run:
  assumes "openers s i = Start" "lock s = None" "local_counter_path ctx fid = Inr p"
    and "local_read_count ctx (counter s) fid = Inr cur"
    and "local_check_and_bump ctx now w fid mx (counter s) = (st', r)"
  shows "run ctx fid mx s (s\<lparr>counter := st', lock := None, openers := (openers s)(i := Done r)\<rparr>)"
proof -
  let ?s1 = "s\<lparr>lock := Some i, openers := (openers s)(i := Locked)\<rparr>"
  have 1: "step ctx fid mx s ?s1" using assms(1,2) by (rule step.acquire)
  show ?thesis
  proof (cases "cur < mx")
    case False
    then have r: "r = Inl open_limit" "st' = counter s"
      using assms(3-5) by (auto simp: local_check_and_bump_def)
    have "step ctx fid mx ?s1 (?s1\<lparr>lock := None, openers := (openers ?s1)(i := Done (Inl open_limit))\<rparr>)"
      using assms(4) False by (intro step.deny) auto
    with 1 r show ?thesis unfolding run_def by (simp add: converse_rtranclp_into_rtranclp)
  next
    case True
    obtain x where x: "counter_record (cur + 1) now = Inr x" using counter_record_ok by blast
    let ?s2 = "?s1\<lparr>openers := (openers ?s1)(i := Read cur)\<rparr>"
    have 2: "step ctx fid mx ?s1 ?s2" using assms(4) True by (intro step.read) auto
    show ?thesis
    proof (cases w)
      case True
      then have r: "r = Inr (cur + 1)" "st' = (counter s)(p := Some x)"
        using assms(3-5) x \<open>cur < mx\<close> by (auto simp: local_check_and_bump_def Let_def)
      have "step ctx fid mx ?s2 (?s2\<lparr>counter := (counter ?s2)(p := Some x), lock := None,
              openers := (openers ?s2)(i := Done (Inr (cur + 1)))\<rparr>)"
        using assms(3) x by (intro step.store) auto
      with 1 2 r show ?thesis unfolding run_def by (simp add: converse_rtranclp_into_rtranclp)
    next
      case False
      then have r: "r = Inl (OSError ''write'')" "st' = counter s"
        using assms(3-5) x \<open>cur < mx\<close> by (auto simp: local_check_and_bump_def Let_def)
      have "step ctx fid mx ?s2 (?s2\<lparr>lock := None, openers := (openers ?s2)(i := Done (Inl (OSError ''write'')))\<rparr>)"
        by (intro step.fail) auto
      with 1 2 r show ?thesis unfolding run_def by (simp add: converse_rtranclp_into_rtranclp)
    qed
  qed
qed

section \<open>Properties\<close>

definition sample_ctx :: policy_ctx where
  "sample_ctx = \<lparr>ctx_jurisdiction = u ''EU'', ctx_state_dir = Some (u ''state''), ctx_mode = u ''LOCAL_ONLY''\<rparr>"

lemma sample_path: "local_counter_path sample_ctx (str_val ''f-1'') = Inr (str_val ''f-1'')"
  by (simp add: local_counter_path_def sample_ctx_def py_in_def str_val_def u_def prefixed_def)

lemma sample_count: "local_read_count sample_ctx (\<lambda>_. None) (str_val ''f-1'') = Inr 0"
  by (simp add: local_read_count_def sample_path)

text \<open>
  C3: the open limit holds for concurrent openers: however the steps of any number of openers
  interleave, with crashes and failed writes, the successful opens never exceed what the limit
  leaves above the count the file started with, and the file counts them exactly.
\<close>

theorem max_opens_bound:
  assumes "local_read_count ctx st fid = Inr c0" "run ctx fid mx (start_sys st) s"
  shows "finite (opened s) \<and> int (card (opened s)) \<le> max 0 (mx - c0)
    \<and> local_read_count ctx (counter s) fid = Inr (c0 + int (card (opened s)))"
proof -
  note inv = sys_invD [OF run_inv [OF assms(2) start_inv [OF assms(1)]]]
  show ?thesis using inv(1,2,3) by (cases "opened s = {}") auto
qed

theorem max_opens_bound_witness:
  "\<exists>s. run sample_ctx (str_val ''f-1'') 1 (start_sys (\<lambda>_. None)) s \<and> opened s = {5}
     \<and> int (card (opened s)) \<le> max 0 (1 - 0)"
proof -
  obtain x where x: "counter_record 1 99 = Inr x" using counter_record_ok by blast
  let ?s = "start_sys (\<lambda>_. None)"
  let ?t = "?s\<lparr>counter := (counter ?s)(str_val ''f-1'' := Some x), lock := None, openers := (openers ?s)(5 := Done (Inr 1))\<rparr>"
  have "local_check_and_bump sample_ctx 99 True (str_val ''f-1'') 1 (\<lambda>_. None) = ((\<lambda>_. None)(str_val ''f-1'' := Some x), Inr 1)"
    using x by (simp add: local_check_and_bump_def sample_path sample_count)
  then have run: "run sample_ctx (str_val ''f-1'') 1 ?s ?t"
    using bump_is_run [of ?s 5 sample_ctx "str_val ''f-1''" _ 0 99 True 1] sample_path sample_count
    by (simp add: start_sys_def)
  moreover have "opened ?t = {5}" by (auto simp: opened_def start_sys_def)
  ultimately show ?thesis using max_opens_bound [OF sample_count run] by auto
qed

text \<open>
  C23: the sequential routine is a run of the concurrent model: the effect of one call of
  \<open>_local_check_and_bump\<close>, on every branch that passes the path check and reads a count, is
  reachable by the steps of one opener.
\<close>

theorem bump_refines_steps:
  assumes "openers s i = Start" "lock s = None" "local_counter_path ctx fid = Inr p"
    and "local_read_count ctx (counter s) fid = Inr cur"
    and "local_check_and_bump ctx now w fid mx (counter s) = (st', r)"
  shows "run ctx fid mx s (s\<lparr>counter := st', lock := None, openers := (openers s)(i := Done r)\<rparr>)
    \<and> (case r of Inr n \<Rightarrow> n = cur + 1 \<and> n \<le> mx \<and> local_read_count ctx st' fid = Inr n | Inl _ \<Rightarrow> st' = counter s)"
proof (cases r)
  case (Inl e)
  then show ?thesis using bump_is_run [OF assms] bump_cases [OF assms(5)] by auto
next
  case (Inr n)
  then show ?thesis using bump_is_run [OF assms] bump_reads [of ctx now w fid mx "counter s" st' n] assms(4,5) by simp
qed

theorem bump_refines_steps_witness:
  "\<exists>st' r. local_check_and_bump sample_ctx 99 False (str_val ''f-1'') 1 (\<lambda>_. None) = (st', r)
     \<and> run sample_ctx (str_val ''f-1'') 1 (start_sys (\<lambda>_. None))
         ((start_sys (\<lambda>_. None))\<lparr>counter := st', lock := None, openers := (\<lambda>_. Start)(0 := Done r)\<rparr>)"
proof -
  obtain st' r where r: "local_check_and_bump sample_ctx 99 False (str_val ''f-1'') 1 (\<lambda>_. None) = (st', r)" by force
  then show ?thesis
    using bump_refines_steps [of "start_sys (\<lambda>_. None)" 0 sample_ctx _ _ 0 99 False 1 st' r, OF _ _ sample_path]
    by (simp add: start_sys_def sample_count)
qed

text \<open>
  C24: what \<open>check_policy\<close> lets through: if it returns, then now is at most \<open>not_after\<close>, at least
  \<open>not_before\<close>, and an opener that states a jurisdiction states the required one.
\<close>

theorem check_policy_enforces:
  assumes "check_policy now m ctx = Inr ()" "m_policy m = PDict p"
  shows "(dgetn p ''not_after'' \<noteq> PNone \<longrightarrow> (\<exists>i. py_int (dgetn p ''not_after'') = Inr i \<and> now \<le> i))
    \<and> (dgetn p ''not_before'' \<noteq> PNone \<longrightarrow> (\<exists>i. py_int (dgetn p ''not_before'') = Inr i \<and> i \<le> now))
    \<and> (\<forall>c. ctx = Some c \<longrightarrow> truthy (dgetn p ''jurisdiction'') \<longrightarrow> dgetn p ''jurisdiction'' \<noteq> str_val ''GLOBAL''
         \<longrightarrow> dgetn p ''jurisdiction'' = PStr (ctx_jurisdiction c))"
proof -
  have "policy_of m = Inr p" using assms(2) by (auto simp: policy_of_def truthy_def)
  then show ?thesis using assms(1)
    by (auto simp: check_policy_def Let_def ebind_eq_Inr split: if_splits option.split_asm)
qed

theorem check_policy_enforces_witness:
  "check_policy 5 ((sample_manifest [1])\<lparr>m_policy := PDict [(key ''not_after'', PInt 9)]\<rparr>) (Some sample_ctx) = Inr ()
   \<and> (\<exists>i. py_int (dgetn [(key ''not_after'', PInt 9)] ''not_after'') = Inr i \<and> 5 \<le> i)"
proof -
  let ?m = "(sample_manifest [1])\<lparr>m_policy := PDict [(key ''not_after'', PInt 9)]\<rparr>"
  have c: "check_policy 5 ?m (Some sample_ctx) = Inr ()"
    by (simp add: check_policy_def policy_of_def truthy_def)
  have p: "m_policy ?m = PDict [(key ''not_after'', PInt 9)]" by simp
  show ?thesis using c check_policy_enforces [OF c p] by simp
qed

text \<open>
  A damaged counter file fails open or loud: content that is not JSON text counts as zero, so
  an exhausted limit starts over, while JSON that is not an object leaves the counter as it is and
  raises an exception that no clause catches.
\<close>

theorem damaged_counter:
  assumes "local_counter_path ctx fid = Inr p" "st p = Some content" "0 < mx"
  shows "(loads_utf8 content = Inl e \<and> is_ValueError e \<longrightarrow>
            (\<exists>st'. local_check_and_bump ctx now True fid mx st = (st', Inr 1)))
    \<and> (loads_utf8 content = Inr v \<and> \<not> is_dict v \<longrightarrow>
         local_check_and_bump ctx now w fid mx st = (st, Inl (AttributeError ''get'')))"
proof (intro conjI impI)
  assume "loads_utf8 content = Inl e \<and> is_ValueError e"
  then have "local_read_count ctx st fid = Inr 0" using assms by (simp add: local_read_count_def)
  moreover obtain x where "counter_record 1 now = Inr x" using counter_record_ok by blast
  ultimately show "\<exists>st'. local_check_and_bump ctx now True fid mx st = (st', Inr 1)"
    using assms by (simp add: local_check_and_bump_def)
next
  assume "loads_utf8 content = Inr v \<and> \<not> is_dict v"
  then have "local_read_count ctx st fid = Inl (AttributeError ''get'')"
    using assms by (cases v) (auto simp: local_read_count_def is_dict_def)
  then show "local_check_and_bump ctx now w fid mx st = (st, Inl (AttributeError ''get''))"
    using assms by (simp add: local_check_and_bump_def)
qed

theorem damaged_counter_witness:
  "(\<exists>st'. local_check_and_bump sample_ctx 9 True (str_val ''f-1'') 1 (\<lambda>_. Some [255]) = (st', Inr 1))"
proof -
  have "loads_utf8 [255] = Inl UnicodeDecodeError"
    by (simp add: loads_utf8_def utf8_step_def)
  then show ?thesis
    using damaged_counter [OF sample_path, of "\<lambda>_. Some [255]" "[255]" 1 UnicodeDecodeError 9 PNone True] by simp
qed

end
