(* ===== verification/Container.thy ===== *)
theory Container
  imports Policy
begin

text \<open>
  \<open>oversight_core/container.py\<close>: the binary layout of a \<open>.sealed\<close> file, sealing for one
  recipient, and opening. Reading is a function on what is left of the file, as \<open>io.BytesIO\<close> keeps
  it. Shown: the layout round trip, that an accepted file has exactly the documented layout, that a
  sealed file opens for its recipient whenever the policy allows it, and what an open that returns
  has checked.
\<close>

section \<open>Constants\<close>

definition MAGIC :: bytes where "MAGIC = bstr ''OSGT'' @ [1, 0]"
definition SUITE_CLASSIC_V1_ID :: nat where "SUITE_CLASSIC_V1_ID = 1"
definition SUITE_HYBRID_V1_ID :: nat where "SUITE_HYBRID_V1_ID = 2"
definition SUITE_HW_P256_V1_ID :: nat where "SUITE_HW_P256_V1_ID = 3"

definition suite_id_to_name :: "nat \<Rightarrow> pystr option" where
  "suite_id_to_name i =
     (if i = SUITE_CLASSIC_V1_ID then Some SUITE_CLASSIC_V1
      else if i = SUITE_HYBRID_V1_ID then Some SUITE_HYBRID_V1
      else if i = SUITE_HW_P256_V1_ID then Some SUITE_HW_P256_V1
      else None)"

definition MAX_MANIFEST_BYTES :: nat where "MAX_MANIFEST_BYTES = 4 * 1024 * 1024"
definition MAX_WRAPPED_DEK_BYTES :: nat where "MAX_WRAPPED_DEK_BYTES = 1 * 1024 * 1024"
definition MAX_CIPHERTEXT_BYTES :: nat where "MAX_CIPHERTEXT_BYTES = 4 * 1024 * 1024 * 1024"

section \<open>The file\<close>

record sealed_file =
  sf_manifest :: manifest
  sf_wrapped_dek :: pydict
  sf_aead_nonce :: bytes
  sf_ciphertext :: bytes
  sf_suite_id :: nat

definition to_bytes :: "sealed_file \<Rightarrow> bytes res" where
  "to_bytes sf =
     ebind (guard (sf_suite_id sf < 256) (ValueError ''bytes must be in range(0, 256)'')) (\<lambda>_.
     ebind (to_json (sf_manifest sf)) (\<lambda>manifest_json.
     ebind (pack_u32 (length manifest_json)) (\<lambda>mlen.
     ebind (jcs_dumps (PDict (sf_wrapped_dek sf))) (\<lambda>wrapped_json.
     ebind (pack_u32 (length wrapped_json)) (\<lambda>wlen.
     ebind (pack_u32 (length (sf_ciphertext sf))) (\<lambda>clen.
     Inr (MAGIC @ [1, of_nat (sf_suite_id sf)] @ mlen @ manifest_json @ wlen @ wrapped_json
          @ sf_aead_nonce sf @ clen @ sf_ciphertext sf)))))))"

definition read_exact :: "bytes \<Rightarrow> nat \<Rightarrow> (bytes \<times> bytes) res" where
  "read_exact buf n =
     (let data = take n buf in
      ebind (guard (length data = n) (ValueError ''truncated file'')) (\<lambda>_. Inr (data, drop n buf)))"

definition check_suite :: "nat \<Rightarrow> manifest \<Rightarrow> unit res" where
  "check_suite suite_id m =
     (case suite_id_to_name suite_id of
        None \<Rightarrow> Inl (ValueError ''Unsupported suite id'')
      | Some expected_suite \<Rightarrow>
          guard (m_suite m = PStr expected_suite)
            (ValueError ''Container suite id does not match signed manifest suite''))"

definition parse_wrapped :: "bytes \<Rightarrow> pydict res" where
  "parse_wrapped wrapped_json =
     (case loads_utf8 wrapped_json of
        Inl e \<Rightarrow> Inl (ValueError ''Malformed wrapped DEK JSON'')
      | Inr (PDict d) \<Rightarrow> Inr d
      | Inr _ \<Rightarrow> Inl (ValueError ''Malformed wrapped DEK: expected JSON object''))"

definition from_bytes :: "bytes \<Rightarrow> sealed_file res" where
  "from_bytes data =
     ebind (read_exact data 6) (\<lambda>(magic, buf).
     ebind (guard (magic = MAGIC) (ValueError ''Not a .sealed file'')) (\<lambda>_.
     ebind (read_exact buf 2) (\<lambda>(hdr, buf).
     let fmt_ver = unat (hdr ! 0); suite_id = unat (hdr ! 1) in
     ebind (guard (fmt_ver = 1) (ValueError ''Unsupported format version'')) (\<lambda>_.
     ebind (read_exact buf 4) (\<lambda>(x, buf).
     ebind (unpack_u32 x) (\<lambda>mlen.
     ebind (guard (mlen \<le> MAX_MANIFEST_BYTES) (ValueError ''manifest too large'')) (\<lambda>_.
     ebind (read_exact buf mlen) (\<lambda>(manifest_json, buf).
     ebind (from_json manifest_json) (\<lambda>manifest.
     ebind (check_suite suite_id manifest) (\<lambda>_.
     ebind (read_exact buf 4) (\<lambda>(x, buf).
     ebind (unpack_u32 x) (\<lambda>wlen.
     ebind (guard (wlen \<le> MAX_WRAPPED_DEK_BYTES) (ValueError ''wrapped_dek too large'')) (\<lambda>_.
     ebind (read_exact buf wlen) (\<lambda>(wrapped_json, buf).
     ebind (parse_wrapped wrapped_json) (\<lambda>wrapped_dek.
     ebind (read_exact buf 24) (\<lambda>(aead_nonce, buf).
     ebind (read_exact buf 4) (\<lambda>(x, buf).
     ebind (unpack_u32 x) (\<lambda>clen.
     ebind (guard (clen \<le> MAX_CIPHERTEXT_BYTES) (ValueError ''ciphertext too large'')) (\<lambda>_.
     ebind (read_exact buf clen) (\<lambda>(ciphertext, buf).
     ebind (guard (buf = []) (ValueError ''Trailing bytes after ciphertext'')) (\<lambda>_.
     Inr \<lparr>sf_manifest = manifest, sf_wrapped_dek = wrapped_dek, sf_aead_nonce = aead_nonce,
          sf_ciphertext = ciphertext, sf_suite_id = suite_id\<rparr>)))))))))))))))))))))"

section \<open>Sealing and opening\<close>

text \<open>\<open>v.encode("ascii")\<close>\<close>

definition encode_ascii :: "pyval \<Rightarrow> bytes res" where
  "encode_ascii v =
     (case v of
        PStr s \<Rightarrow>
          if \<forall>c\<in>set s. c < 128 then Inr (map of_nat s) else Inl UnicodeEncodeError
      | _ \<Rightarrow> Inl (AttributeError ''encode''))"

text \<open>
  \<open>seal\<close> on the drawn ephemeral key, data key and nonces. The manifest is signed in place: the first
  component is the caller's manifest afterwards.
\<close>

definition seal_checks :: "bytes \<Rightarrow> manifest \<Rightarrow> bytes \<Rightarrow> bytes \<Rightarrow> unit res" where
  "seal_checks plaintext m issuer_ed25519_priv recipient_x25519_pub =
     ebind (guard (m_content_hash m = PStr (content_hash plaintext))
              (ValueError ''manifest.content_hash does not match sha256(plaintext)'')) (\<lambda>_.
     ebind (guard (m_size_bytes m = PInt (int (length plaintext)))
              (ValueError ''manifest.size_bytes does not match len(plaintext)'')) (\<lambda>_.
     case m_recipient m of
       None \<Rightarrow> Inl (ValueError ''manifest.recipient is required for single-recipient seal'')
     | Some r \<Rightarrow>
         ebind (guard (r_x25519_pub r = PStr (hex recipient_x25519_pub))
                  (ValueError ''manifest.recipient.x25519_pub does not match the provided pubkey'')) (\<lambda>_.
         ebind (guard (length recipient_x25519_pub = 32)
                  (ValueError ''recipient pubkey must be 32 bytes'')) (\<lambda>_.
         guard (length issuer_ed25519_priv = 32) (ValueError ''issuer priv key must be 32 bytes'')))))"

definition seal ::
  "crypto_ops \<Rightarrow> bytes \<Rightarrow> bytes \<Rightarrow> bytes \<Rightarrow> bytes \<Rightarrow> bytes \<Rightarrow> manifest \<Rightarrow> bytes \<Rightarrow> bytes \<Rightarrow> manifest \<times> bytes res" where
  "seal C eph wrap_nonce dek nonce plaintext m issuer_ed25519_priv recipient_x25519_pub =
     (case seal_checks plaintext m issuer_ed25519_priv recipient_x25519_pub of
        Inl e \<Rightarrow> (m, Inl e)
      | Inr _ \<Rightarrow>
          (case sign C issuer_ed25519_priv m of
             Inl e \<Rightarrow> (m, Inl e)
           | Inr m' \<Rightarrow>
               (m',
                ebind (wrap_dek_for_recipient C eph wrap_nonce dek recipient_x25519_pub) (\<lambda>wrapped.
                ebind (encode_ascii (m_content_hash m')) (\<lambda>aad.
                ebind (aead_encrypt C nonce dek plaintext aad) (\<lambda>(nonce, ct).
                to_bytes \<lparr>sf_manifest = m', sf_wrapped_dek = wrapped, sf_aead_nonce = nonce,
                          sf_ciphertext = ct, sf_suite_id = SUITE_CLASSIC_V1_ID\<rparr>))))))"

text \<open>The first slot that unwraps; any exception moves on to the next.\<close>

fun try_slots :: "crypto_ops \<Rightarrow> pyval list \<Rightarrow> bytes \<Rightarrow> bytes option" where
  "try_slots C [] priv = None"
| "try_slots C (s # ss) priv =
     (case unwrap_dek C s priv of Inr dek \<Rightarrow> Some dek | Inl _ \<Rightarrow> try_slots C ss priv)"

definition recover_dek :: "crypto_ops \<Rightarrow> pydict \<Rightarrow> bytes \<Rightarrow> bytes res" where
  "recover_dek C wrapped_dek priv =
     (case dget wrapped_dek ''slots'' of
        Some slots \<Rightarrow>
          ebind (py_iter slots) (\<lambda>ss.
          case try_slots C ss priv of
            Some dek \<Rightarrow> Inr dek
          | None \<Rightarrow> Inl (ValueError ''No decryptable slot found for this recipient''))
      | None \<Rightarrow> unwrap_dek C (PDict wrapped_dek) priv)"

definition trusted :: "pystr set option \<Rightarrow> manifest \<Rightarrow> bool" where
  "trusted pubs m = (case pubs of None \<Rightarrow> True | Some T \<Rightarrow> m_issuer_ed25519_pub m \<in> PStr ` T)"

text \<open>Everything before the counter is touched.\<close>

definition open_checked ::
  "crypto_ops \<Rightarrow> int \<Rightarrow> bytes \<Rightarrow> bytes \<Rightarrow> pystr set option \<Rightarrow> policy_ctx option \<Rightarrow> (bytes \<times> manifest) res" where
  "open_checked C now blob recipient_x25519_priv trusted_issuer_pubs ctx =
     ebind (guard (length recipient_x25519_priv = 32) (ValueError ''recipient priv key must be 32 bytes'')) (\<lambda>_.
     ebind (from_bytes blob) (\<lambda>sf.
     let m = sf_manifest sf in
     ebind (verify C m) (\<lambda>valid.
     ebind (guard valid (ValueError ''Manifest signature invalid'')) (\<lambda>_.
     ebind (guard (trusted trusted_issuer_pubs m) (ValueError ''Issuer not trusted'')) (\<lambda>_.
     ebind (check_policy now m ctx) (\<lambda>_.
     ebind (recover_dek C (sf_wrapped_dek sf) recipient_x25519_priv) (\<lambda>dek.
     ebind (encode_ascii (m_content_hash m)) (\<lambda>aad.
     ebind (aead_decrypt C dek (sf_aead_nonce sf) (sf_ciphertext sf) aad) (\<lambda>plaintext.
     ebind (guard (PStr (content_hash plaintext) = m_content_hash m)
              (ValueError ''Plaintext hash does not match manifest'')) (\<lambda>_.
     Inr (plaintext, m)))))))))))"

definition open_sealed ::
  "crypto_ops \<Rightarrow> int \<Rightarrow> bool \<Rightarrow> bytes \<Rightarrow> bytes \<Rightarrow> pystr set option \<Rightarrow> policy_ctx option \<Rightarrow> counters
   \<Rightarrow> counters \<times> (bytes \<times> manifest) res" where
  "open_sealed C now write_ok blob recipient_x25519_priv trusted_issuer_pubs ctx st =
     (case open_checked C now blob recipient_x25519_priv trusted_issuer_pubs ctx of
        Inl e \<Rightarrow> (st, Inl e)
      | Inr (plaintext, m) \<Rightarrow>
          (case record_open now write_ok m ctx st of
             (st', Inl e) \<Rightarrow> (st', Inl e)
           | (st', Inr _) \<Rightarrow> (st', Inr (plaintext, m))))"

definition seal_multi :: "bytes \<Rightarrow> manifest \<Rightarrow> bytes \<Rightarrow> bytes list \<Rightarrow> bytes res" where
  "seal_multi plaintext m issuer_ed25519_priv recipient_x25519_pubs =
     Inl (ValueError ''seal_multi is disabled because the v1 manifest only supports a single recipient binding'')"

section \<open>The layout\<close>

lemma read_exact_append: "length x = n \<Longrightarrow> read_exact (x @ y) n = Inr (x, y)"
  by (simp add: read_exact_def)

lemma read_exact_Inr: "read_exact buf n = Inr (x, y) \<longleftrightarrow> buf = x @ y \<and> length x = n"
proof
  assume "read_exact buf n = Inr (x, y)"
  then have "length (take n buf) = n" "x = take n buf" "y = drop n buf"
    by (auto simp: read_exact_def Let_def ebind_eq_Inr)
  then show "buf = x @ y \<and> length x = n" by (metis append_take_drop_id)
qed (simp add: read_exact_append)

lemma length_MAGIC [simp]: "length MAGIC = 6"
  by (simp add: MAGIC_def bstr_def)

lemma pack_u32_Inr [simp]: "pack_u32 n = Inr x \<longleftrightarrow> n < 4294967296 \<and> x = be32 n"
  by (auto simp: pack_u32_def)

lemma unpack_be32 [simp]: "n < 4294967296 \<Longrightarrow> unpack_u32 (be32 n) = Inr n"
  by (simp add: unpack_u32_def bytes_nat_be32)

lemma bytes_nat_inj: "length x = length y \<Longrightarrow> bytes_nat x = bytes_nat y \<Longrightarrow> x = y"
proof (induction x arbitrary: y rule: rev_induct)
  case (snoc a x)
  then obtain b z where y: "y = z @ [b]" by (cases y rule: rev_cases) auto
  have s: "bytes_nat (xs @ [c]) = 256 * bytes_nat xs + unat c" for xs c by (simp add: bytes_nat_def)
  have n: "256 * p + i = 256 * q + j \<Longrightarrow> i < 256 \<Longrightarrow> j < 256 \<Longrightarrow> p = q \<and> i = j" for p q i j :: nat
  proof -
    assume e: "256 * p + i = 256 * q + j" "i < 256" "j < 256"
    have "(256 * p + i) div 256 = p" "(256 * q + j) div 256 = q" using e(2,3) by simp_all
    then show "p = q \<and> i = j" using e(1) by simp
  qed
  have "bytes_nat x = bytes_nat z \<and> unat a = unat b"
    by (rule n) (use snoc.prems(2) in \<open>simp_all add: y s\<close>)
  then show ?case using snoc y by (simp add: word_unat_eq_iff)
qed simp

lemma unpack_u32_Inr: "unpack_u32 x = Inr n \<Longrightarrow> x = be32 n \<and> n < 4294967296"
proof -
  assume "unpack_u32 x = Inr n"
  then have x: "length x = 4" "bytes_nat x = n" by (auto simp: unpack_u32_def split: if_splits)
  then have "n < 4294967296" using bytes_nat_bound [of x] by simp
  then show ?thesis using x bytes_nat_inj [of x "be32 n"] by (simp add: bytes_nat_be32)
qed

definition layout :: "nat \<Rightarrow> bytes \<Rightarrow> bytes \<Rightarrow> bytes \<Rightarrow> bytes \<Rightarrow> bytes" where
  "layout suite_id mj wj nonce ct =
     MAGIC @ [1, of_nat suite_id] @ be32 (length mj) @ mj @ be32 (length wj) @ wj @ nonce
     @ be32 (length ct) @ ct"

lemma max_lengths: "MAX_MANIFEST_BYTES < 4294967296" "MAX_WRAPPED_DEK_BYTES < 4294967296"
  "MAX_CIPHERTEXT_BYTES = 4294967296"
  by (simp_all add: MAX_MANIFEST_BYTES_def MAX_WRAPPED_DEK_BYTES_def MAX_CIPHERTEXT_BYTES_def)

lemma suite_id_bound: "suite_id_to_name i = Some n \<Longrightarrow> i < 256"
  by (auto simp: suite_id_to_name_def SUITE_CLASSIC_V1_ID_def SUITE_HYBRID_V1_ID_def
      SUITE_HW_P256_V1_ID_def split: if_splits)

lemma check_suite_Inr: "check_suite i m = Inr () \<longleftrightarrow> (\<exists>n. suite_id_to_name i = Some n \<and> m_suite m = PStr n)"
  by (auto simp: check_suite_def split: option.split)

lemma parse_wrapped_Inr: "parse_wrapped x = Inr d \<longleftrightarrow> loads_utf8 x = Inr (PDict d)"
  by (auto simp: parse_wrapped_def split: sum.split pyval.split)

lemma from_bytes_layout:
  assumes "from_json mj = Inr m" "suite_id_to_name sid = Some name" "m_suite m = PStr name"
    and "loads_utf8 wj = Inr (PDict wd)" "length nonce = 24"
    and "length mj \<le> MAX_MANIFEST_BYTES" "length wj \<le> MAX_WRAPPED_DEK_BYTES" "length ct < 4294967296"
  shows "from_bytes (layout sid mj wj nonce ct) = Inr \<lparr>sf_manifest = m, sf_wrapped_dek = wd,
     sf_aead_nonce = nonce, sf_ciphertext = ct, sf_suite_id = sid\<rparr>"
proof -
  have l: "length mj < 4294967296" "length wj < 4294967296" using assms(6,7) max_lengths by linarith+
  have s: "unat (of_nat sid :: byte) = sid" using suite_id_bound [OF assms(2)] by (rule unat_of_nat_byte)
  have r: "read_exact (layout sid mj wj nonce ct) 6 = Inr (MAGIC, [1, of_nat sid] @ be32 (length mj) @ mj
        @ be32 (length wj) @ wj @ nonce @ be32 (length ct) @ ct)"
    by (simp add: layout_def read_exact_append del: append_Cons)
  have r2: "read_exact ([1, of_nat sid] @ x) 2 = Inr ([1, of_nat sid :: byte], x)" for x
    by (rule read_exact_append) simp
  have r4: "read_exact (be32 n @ x) 4 = Inr (be32 n, x)" for n x by (rule read_exact_append) simp
  have rm: "read_exact (mj @ x) (length mj) = Inr (mj, x)" "read_exact (wj @ x) (length wj) = Inr (wj, x)" 
    "read_exact (nonce @ x) 24 = Inr (nonce, x)" "read_exact ct (length ct) = Inr (ct, [])" for x
    using assms(5) read_exact_append [of ct _ "[]"] by (simp_all add: read_exact_append)
  show ?thesis
    unfolding from_bytes_def r
    using assms l s max_lengths(3)
    by (simp add: r2 r4 rm Let_def check_suite_def parse_wrapped_def del: append_Cons append.simps)
qed

lemma to_bytes_layout:
  "to_bytes sf = Inr data \<longleftrightarrow>
     sf_suite_id sf < 256 \<and> (\<exists>mj wj. to_json (sf_manifest sf) = Inr mj \<and> jcs_dumps (PDict (sf_wrapped_dek sf)) = Inr wj
       \<and> length mj < 4294967296 \<and> length wj < 4294967296 \<and> length (sf_ciphertext sf) < 4294967296
       \<and> data = layout (sf_suite_id sf) mj wj (sf_aead_nonce sf) (sf_ciphertext sf))"
  by (auto simp: to_bytes_def ebind_eq_Inr layout_def)

lemma header_two: "length h = 2 \<Longrightarrow> h = [h ! 0, h ! 1]" for h :: bytes
  by (cases h; cases "tl h") auto

lemma from_bytes_Inr:
  assumes "from_bytes data = Inr sf"
  shows "\<exists>mj wj name. data = layout (sf_suite_id sf) mj wj (sf_aead_nonce sf) (sf_ciphertext sf)
    \<and> from_json mj = Inr (sf_manifest sf) \<and> loads_utf8 wj = Inr (PDict (sf_wrapped_dek sf))
    \<and> suite_id_to_name (sf_suite_id sf) = Some name \<and> m_suite (sf_manifest sf) = PStr name
    \<and> length mj \<le> MAX_MANIFEST_BYTES \<and> length wj \<le> MAX_WRAPPED_DEK_BYTES \<and> length (sf_aead_nonce sf) = 24
    \<and> length (sf_ciphertext sf) < 4294967296"
proof -
  obtain h mlen mj wlen wj clen where
    d: "data = MAGIC @ h @ mlen @ mj @ wlen @ wj @ sf_aead_nonce sf @ clen @ sf_ciphertext sf"
    and h: "length h = 2" "unat (h ! 0) = 1" "unat (h ! 1) = sf_suite_id sf"
    and l: "unpack_u32 mlen = Inr (length mj)" "unpack_u32 wlen = Inr (length wj)"
      "unpack_u32 clen = Inr (length (sf_ciphertext sf))" "length (sf_aead_nonce sf) = 24"
      "length mj \<le> MAX_MANIFEST_BYTES" "length wj \<le> MAX_WRAPPED_DEK_BYTES"
    and p: "from_json mj = Inr (sf_manifest sf)" "check_suite (sf_suite_id sf) (sf_manifest sf) = Inr ()"
      "parse_wrapped wj = Inr (sf_wrapped_dek sf)"
    using assms unfolding from_bytes_def
    by (auto simp: ebind_eq_Inr read_exact_Inr Let_def)
  have "h = [1, of_nat (sf_suite_id sf)]"
  proof -
    have "h ! 0 = 1" using h(2) by (simp add: word_unat_eq_iff)
    moreover have "unat (of_nat (sf_suite_id sf) :: byte) = sf_suite_id sf"
      using h(3) byte_bound [of "h ! 1"] by (intro unat_of_nat_byte) simp
    then have "h ! 1 = of_nat (sf_suite_id sf)" using h(3) by (simp add: word_unat_eq_iff)
    ultimately show ?thesis using header_two [OF h(1)] by metis
  qed
  then show ?thesis
    using d l p unpack_u32_Inr [OF l(1)] unpack_u32_Inr [OF l(2)] unpack_u32_Inr [OF l(3)]
    by (auto simp: layout_def check_suite_Inr parse_wrapped_Inr)
qed

section \<open>Sizes\<close>

lemma utf8_encode_length: "utf8_encode s = Inr bs \<Longrightarrow> length bs \<le> 4 * length s"
proof (induction s arbitrary: bs)
  case (Cons c s)
  have "length (utf8_char c) \<le> 4" by (simp add: utf8_char_def)
  then show ?case using Cons by (fastforce simp: ebind_eq_Inr split: if_splits)
qed simp

lemma quote_jcs_length: "length (quote jcs_esc t) \<le> 6 * length t + 2"
proof -
  have "length (jcs_esc c) \<le> 6" for c
    by (auto simp: jcs_esc_def short_escape_def unicode_escape_def hex4_digits_def u_def)
  then have "length (concat (map jcs_esc t)) \<le> 6 * length t"
    by (induction t) (auto intro: add_mono [of _ 6, simplified])
  then show ?thesis by (simp add: quote_def)
qed

text \<open>An upper bound for the compact text of a value, whatever the order of its keys.\<close>

fun json_size :: "pyval \<Rightarrow> nat" where
  "json_size (PStr t) = 6 * length t + 2"
| "json_size (PInt i) = length (int_str i)"
| "json_size (PList xs) = 2 + sum_list (map (\<lambda>x. json_size x + 1) xs)"
| "json_size (PDict d) = 2 + sum_list (map (\<lambda>(k, v). 6 * length (key_text k) + 4 + json_size v) d)"
| "json_size _ = 5"

lemma length_join: "length (join [c] xs) \<le> sum_list (map (\<lambda>x. length x + 1) xs)"
proof (induction xs)
  case (Cons x xs)
  then show ?case by (cases xs) auto
qed simp

lemma sum_list_mono_map: "(\<And>x. x \<in> set xs \<Longrightarrow> f x \<le> (g x :: nat)) \<Longrightarrow> sum_list (map f xs) \<le> sum_list (map g xs)"
  by (rule sum_list_mono)

lemma json_write_size: "length (json_write [44] [58] jcs_esc v) \<le> json_size v"
proof (induction v)
  case (PList xs)
  let ?W = "json_write [44] [58] jcs_esc"
  have "sum_list (map (\<lambda>x. length x + 1) (map ?W xs)) \<le> sum_list (map (\<lambda>x. json_size x + 1) xs)"
    unfolding map_map o_def by (rule sum_list_mono_map) (use PList in auto)
  then show ?case using length_join [of 44 "map ?W xs"] by simp
next
  case (PDict d)
  let ?W = "json_write [44] [58] jcs_esc"
  let ?M = "\<lambda>(k, v). quote jcs_esc (key_text k) @ [58] @ ?W v"
  have "sum_list (map (\<lambda>x. length x + 1) (map ?M d))
      \<le> sum_list (map (\<lambda>(k, v). 6 * length (key_text k) + 4 + json_size v) d)"
    unfolding map_map o_def
  proof (rule sum_list_mono_map)
    fix kv assume kv: "kv \<in> set d"
    obtain k v where [simp]: "kv = (k, v)" by force
    have "length (?W v) \<le> json_size v" using PDict kv by (fastforce simp: snds.simps)
    then show "length (?M kv) + 1 \<le> (case kv of (k, v) \<Rightarrow> 6 * length (key_text k) + 4 + json_size v)"
      using quote_jcs_length [of "key_text k"] by simp
  qed
  then show ?case using length_join [of 44 "map ?M d"] by simp
qed (use quote_jcs_length in \<open>auto simp: u_def\<close>)

lemma sum_list_sort_key: "sum_list (map g (sort_key f xs)) = (sum_list (map g xs) :: nat)"
  by (metis mset_map mset_sort sum_mset_sum_list)

lemma json_size_canon: "json_size (canon v) = json_size v"
proof (induction v)
  case (PDict d)
  have "(\<Sum>kv\<leftarrow>d. 6 * length (key_text (fst kv)) + 4 + json_size (canon (snd kv)))
      = (\<Sum>kv\<leftarrow>d. 6 * length (key_text (fst kv)) + 4 + json_size (snd kv))"
    using PDict by (intro arg_cong [where f = sum_list] map_cong) (auto simp: snds.simps)
  then show ?case
    by (simp add: canon_dict case_prod_beta' o_def sum_list_sort_key del: canon.simps)
next
  case (PList xs)
  then show ?case by (simp add: o_def cong: map_cong)
qed auto

lemma json_size_strip: "json_size (strip_none v) \<le> json_size v"
proof (induction v rule: strip_none.induct)
  case (1 d)
  let ?g = "\<lambda>kv. 6 * length (key_text (fst kv)) + 4 + json_size (snd kv)"
  have "sum_list (map (\<lambda>kv. 6 * length (key_text (fst kv)) + 4 + json_size (strip_none (snd kv)))
      (filter (\<lambda>kv. snd kv \<noteq> PNone) d)) \<le> sum_list (map ?g (filter (\<lambda>kv. snd kv \<noteq> PNone) d))"
    using 1 by (intro sum_list_mono_map) auto
  also have "\<dots> \<le> sum_list (map ?g d)" by (induction d) auto
  finally show ?case by (simp add: case_prod_beta' o_def)
next
  case (2 xs)
  then show ?case by (auto simp: o_def intro: sum_list_mono_map)
qed auto

lemma jcs_size:
  assumes "json_ok v" "jcs_dumps v = Inr bs"
  shows "length bs \<le> 4 * json_size v"
proof -
  have "utf8_encode (json_write [44] [58] jcs_esc (canon v)) = Inr bs"
    using assms(2) unfolding jcs_dumps_def serialize_write [OF assms(1)] ebind_Inr .
  then show ?thesis
    using utf8_encode_length json_write_size [of "canon v"] unfolding json_size_canon
    by (meson le_trans mult_le_mono2)
qed

definition x25519_envelope :: "bytes \<Rightarrow> bytes \<Rightarrow> bytes \<Rightarrow> pydict" where
  "x25519_envelope e n c = [(key ''ephemeral_pub'', PStr (hex e)), (key ''nonce'', PStr (hex n)),
     (key ''wrapped_dek'', PStr (hex c))]"

lemma envelope_canon: "canon (PDict (x25519_envelope e n c)) = PDict (x25519_envelope e n c)"
  by (simp add: x25519_envelope_def item16_def key_def u_def key16_def is_scalar_def is_surrogate_def
      utf16_char_def be16_def)

lemma envelope_json:
  assumes "length e = 32" "length n = 24" "length c = 48"
  shows "\<exists>wj. jcs_dumps (PDict (x25519_envelope e n c)) = Inr wj \<and> length wj \<le> MAX_WRAPPED_DEK_BYTES
    \<and> loads_utf8 wj = Inr (PDict (x25519_envelope e n c))"
proof -
  let ?v = "PDict (x25519_envelope e n c)"
  have ok: "json_ok ?v" by (simp add: x25519_envelope_def)
  obtain wj where wj: "jcs_dumps ?v = Inr wj" using jcs_dumps_ok [OF ok] by blast
  have "json_size ?v \<le> 2000" using assms by (simp add: x25519_envelope_def key_text_def key_def)
  then have "length wj \<le> MAX_WRAPPED_DEK_BYTES"
    using jcs_size [OF ok wj] by (simp add: MAX_WRAPPED_DEK_BYTES_def)
  moreover have "loads_utf8 wj = Inr ?v" using loads_jcs [OF ok wj] unfolding envelope_canon .
  ultimately show ?thesis using wj by blast
qed

lemma encode_ascii_hex [simp]: "\<exists>a. encode_ascii (PStr (hex x)) = Inr a"
  using hex_printable [of _ x] by (fastforce simp: encode_ascii_def printable_def)

lemma norm_simps: "m_suite (norm_manifest m) = clean (m_suite m)" "m_content_hash (norm_manifest m) = clean (m_content_hash m)"
  "m_issuer_ed25519_pub (norm_manifest m) = clean (m_issuer_ed25519_pub m)"
  by (simp_all add: norm_manifest_def)

text \<open>A file \<open>seal\<close> made, opened by its recipient: everything up to the policy succeeds.\<close>

lemma dek_envelope_wire:
  assumes "dh_correct C" "aead_correct C" "length eph = 32" "length rsk = 32" "length wrap_nonce = 24" "length dek = 32"
  obtains w wj where "wrap_dek_for_recipient C eph wrap_nonce dek (x_pub C rsk) = Inr w"
    "unwrap_dek C (PDict w) rsk = Inr dek" "dget w ''slots'' = None"
    "jcs_dumps (PDict w) = Inr wj" "length wj \<le> MAX_WRAPPED_DEK_BYTES" "loads_utf8 wj = Inr (PDict w)"
proof -
  obtain w e n c where w: "wrap_dek_for_recipient C eph wrap_nonce dek (x_pub C rsk) = Inr w"
      "unwrap_dek C (PDict w) rsk = Inr dek" "w = x25519_envelope e n c" "dget w ''slots'' = None"
    using wrap_ok [OF assms(1-5), of dek] unfolding x25519_envelope_def by blast
  have "length (x_pub C rsk) = 32" "length (x_pub C eph) = 32"
    using assms(1,3,4) unfolding dh_correct_def by blast+
  then have lens: "length e = 32" "length n = 24" "length c = 48"
    using w(1,3) assms
    by (auto simp: wrap_dek_for_recipient_def Let_def ebind_eq_Inr aead_encrypt_def x25519_envelope_def aead_correct_def)
  show ?thesis using envelope_json [OF lens] w that by blast
qed

lemma seal_opens:
  assumes crypto: "sig_correct C" "dh_correct C" "aead_correct C"
    and keys: "length isk = 32" "length rsk = 32" "length eph = 32" "length wrap_nonce = 24"
      "length dek = 32" "length nonce = 24"
    and m: "manifest_ok m" "m_suite m = PStr SUITE_CLASSIC_V1"
      "m_issuer_ed25519_pub m = PStr (hex (ed_pub C isk))"
      "m_content_hash m = PStr (content_hash plaintext)" "m_size_bytes m = PInt (int (length plaintext))"
      "m_recipient m = Some r" "r_x25519_pub r = PStr (hex (x_pub C rsk))"
    and small: "length plaintext + 16 < 4294967296"
      "\<And>m' mj. sign C isk m = Inr m' \<Longrightarrow> to_json m' = Inr mj \<Longrightarrow> length mj \<le> MAX_MANIFEST_BYTES"
  shows "\<exists>m' blob. seal C eph wrap_nonce dek nonce plaintext m isk (x_pub C rsk) = (m', Inr blob)
    \<and> sign C isk m = Inr m' \<and> (\<forall>now ctx T. hex (ed_pub C isk) \<in> T \<longrightarrow>
        open_checked C now blob rsk (Some T) ctx =
          ebind (check_policy now (norm_manifest m') ctx) (\<lambda>_. Inr (plaintext, norm_manifest m')))"
proof -
  obtain m' x where m': "sign C isk m = Inr m'" "manifest_ok m'" "verify C m' = Inr True"
      "m' = m\<lparr>m_signature_ed25519 := PStr (hex x)\<rparr>"
    using sign_ok [OF m(1) crypto(1) keys(1) m(3)] by blast
  obtain mj where mj: "to_json m' = Inr mj" "from_json mj = Inr (norm_manifest m')"
    using to_json_from_json [OF m'(2)] by blast
  then have lmj: "length mj \<le> MAX_MANIFEST_BYTES" using small(2) [OF m'(1)] by blast
  have vn: "verify C (norm_manifest m') = Inr True"
    using verify_norm [OF m'(2)] m'(3,4) m(3) by simp
  have pub: "length (x_pub C rsk) = 32" "length (x_pub C eph) = 32"
    using crypto(2) keys unfolding dh_correct_def by blast+
  obtain w wj where w: "wrap_dek_for_recipient C eph wrap_nonce dek (x_pub C rsk) = Inr w"
      "unwrap_dek C (PDict w) rsk = Inr dek" "dget w ''slots'' = None"
    and wj: "jcs_dumps (PDict w) = Inr wj" "length wj \<le> MAX_WRAPPED_DEK_BYTES" "loads_utf8 wj = Inr (PDict w)"
    using dek_envelope_wire [OF crypto(2,3) keys(3,2,4,5)] by blast
  obtain aad where aad: "encode_ascii (PStr (content_hash plaintext)) = Inr aad"
    unfolding content_hash_def using encode_ascii_hex by blast
  let ?ct = "aead_enc C dek nonce aad plaintext"
  have ct: "length ?ct < 4294967296" "aead_dec C dek nonce aad ?ct = Inr plaintext"
    using crypto(3) keys small(1) by (auto simp: aead_correct_def)
  let ?blob = "layout SUITE_CLASSIC_V1_ID mj wj nonce ?ct"
  have sid: "suite_id_to_name SUITE_CLASSIC_V1_ID = Some SUITE_CLASSIC_V1" by (simp add: suite_id_to_name_def)
  have checks: "seal_checks plaintext m isk (x_pub C rsk) = Inr ()"
    using m keys pub by (simp add: seal_checks_def)
  have "to_bytes \<lparr>sf_manifest = m', sf_wrapped_dek = w, sf_aead_nonce = nonce, sf_ciphertext = ?ct,
          sf_suite_id = SUITE_CLASSIC_V1_ID\<rparr> = Inr ?blob"
    unfolding to_bytes_layout using mj(1) wj(1) ct(1) lmj wj(2) max_lengths
    by (simp add: SUITE_CLASSIC_V1_ID_def)
  then have seal: "seal C eph wrap_nonce dek nonce plaintext m isk (x_pub C rsk) = (m', Inr ?blob)"
    using checks m'(1,4) m(4) w(1) aad keys(5) by (simp add: seal_def aead_encrypt_def)
  have "m_suite (norm_manifest m') = PStr SUITE_CLASSIC_V1" using m'(4) m(2) by (simp add: norm_simps)
  then have parse: "from_bytes ?blob = Inr \<lparr>sf_manifest = norm_manifest m', sf_wrapped_dek = w, sf_aead_nonce = nonce,
      sf_ciphertext = ?ct, sf_suite_id = SUITE_CLASSIC_V1_ID\<rparr>"
    using from_bytes_layout [OF mj(2) sid _ wj(3) keys(6) lmj wj(2) ct(1)] by blast
  have "open_checked C now ?blob rsk (Some T) ctx =
      ebind (check_policy now (norm_manifest m') ctx) (\<lambda>_. Inr (plaintext, norm_manifest m'))"
    if "hex (ed_pub C isk) \<in> T" for now ctx T
    using that parse vn keys(2) w(2,3) aad ct(2) m'(4) m(3,4)
    by (simp add: open_checked_def Let_def trusted_def norm_simps recover_dek_def aead_decrypt_def)
  with seal m'(1) show ?thesis by blast
qed

section \<open>A concrete file\<close>

lemma sample_size:
  "json_size (PDict (asdict ((sample_manifest [1])\<lparr>m_signature_ed25519 := PStr (hex sg)\<rparr>))) \<le> 6000 + 12 * length sg"
  by (simp add: sample_manifest_def manifest_new_def sample_recipient_def asdict_def recipient_dict_def str_val_def
      truthy_def dset_def content_hash_def key_text_def key_def SUITE_CLASSIC_V1_def toy_ops_def int_str_def
      nat_digits.simps [of 1700000000] nat_digits.simps [of 170000000] nat_digits.simps [of 17000000]
      nat_digits.simps [of 1700000] nat_digits.simps [of 170000] nat_digits.simps [of 17000]
      nat_digits.simps [of 1700] nat_digits.simps [of 170] nat_digits.simps [of 17] nat_digits.simps [of 1]
      nat_digits.simps [of "Suc 0"] nat_digits.simps [of 2])

lemma sample_signed_size:
  assumes "sign toy_ops (replicate 32 7) (sample_manifest [1]) = Inr m'" "to_json m' = Inr mj"
  shows "length mj \<le> MAX_MANIFEST_BYTES"
proof -
  let ?m = "sample_manifest [1]"
  obtain bs where bs: "canonical_bytes ?m = Inr bs" "m' = ?m\<lparr>m_signature_ed25519 := PStr (hex (1 # replicate 32 7 @ bs))\<rparr>"
    using assms(1) by (auto simp: sign_def sign_manifest_def toy_ops_def ebind_eq_Inr)
  have e: "unsigned ?m = ?m\<lparr>m_signature_ed25519 := PStr (hex [])\<rparr>"
    by (simp add: unsigned_def sample_manifest_def manifest_new_def Let_def str_val_def)
  have "length bs \<le> 4 * json_size (strip_none (PDict (asdict (unsigned ?m))))"
    using bs(1) jcs_size [OF json_ok_asdict [OF manifest_ok_unsigned [OF sample_manifest_ok]]]
    by (simp only: canonical_bytes_def to_dict_False)
  then have b: "length bs \<le> 24000"
    using json_size_strip [of "PDict (asdict (unsigned ?m))"] sample_size [of "[]"] unfolding e by simp
  have ok: "manifest_ok m'" unfolding bs(2) by (rule manifest_ok_sign [OF sample_manifest_ok])
  have "length mj \<le> 4 * json_size (strip_none (PDict (asdict m')))"
    using assms(2) jcs_size [OF json_ok_asdict [OF ok]] by (simp only: to_json_def to_dict_True)
  then have "length mj \<le> 4 * (6000 + 12 * (33 + length bs))"
    using json_size_strip [of "PDict (asdict m')"] sample_size [of "1 # replicate 32 7 @ bs"] unfolding bs(2) by simp
  also have "\<dots> \<le> MAX_MANIFEST_BYTES" using b by (simp add: MAX_MANIFEST_BYTES_def)
  finally show ?thesis .
qed

lemma sample_fields:
  "m_suite (sample_manifest pt) = PStr SUITE_CLASSIC_V1"
  "m_issuer_ed25519_pub (sample_manifest pt) = PStr (hex (ed_pub toy_ops (replicate 32 7)))"
  "m_content_hash (sample_manifest pt) = PStr (content_hash pt)"
  "m_size_bytes (sample_manifest pt) = PInt (int (length pt))"
  "m_recipient (sample_manifest pt) = Some sample_recipient"
  "r_x25519_pub sample_recipient = PStr (hex (x_pub toy_ops (replicate 32 3)))"
  by (simp_all add: sample_manifest_def manifest_new_def Let_def sample_recipient_def toy_ops_def)

lemma sample_opens:
  "\<exists>m' blob. seal toy_ops (replicate 32 1) (replicate 24 2) (replicate 32 4) (replicate 24 5) [1]
      (sample_manifest [1]) (replicate 32 7) (x_pub toy_ops (replicate 32 3)) = (m', Inr blob)
    \<and> open_checked toy_ops 5 blob (replicate 32 3) (Some {hex (ed_pub toy_ops (replicate 32 7))}) None
        = ebind (check_policy 5 (norm_manifest m') None) (\<lambda>_. Inr ([1], norm_manifest m'))
    \<and> sign toy_ops (replicate 32 7) (sample_manifest [1]) = Inr m'"
  using seal_opens [OF toy_ops_correct(1-3), where m = "sample_manifest [1]" and isk = "replicate 32 7"
      and rsk = "replicate 32 3" and eph = "replicate 32 1" and wrap_nonce = "replicate 24 2"
      and dek = "replicate 32 4" and nonce = "replicate 24 5" and plaintext = "[1]" and r = sample_recipient,
      OF _ _ _ _ _ _ sample_manifest_ok sample_fields _ sample_signed_size] by fastforce

lemma sample_policy:
  assumes "sign toy_ops (replicate 32 7) (sample_manifest [1]) = Inr m'"
  shows "check_policy 5 (norm_manifest m') None = Inr ()"
proof -
  let ?p = "[(key ''registry_url'', str_val ''https://r''), (key ''jurisdiction'', str_val ''GLOBAL''),
      (key ''max_opens'', PInt 2)]"
  obtain x where "m' = (sample_manifest [1])\<lparr>m_signature_ed25519 := x\<rparr>"
    using assms by (auto simp: sign_def ebind_eq_Inr)
  then have "m_policy (norm_manifest m') = clean (PDict ?p)"
    by (simp add: norm_manifest_def sample_manifest_def manifest_new_def truthy_def Let_def dset_def)
  moreover obtain d where d: "clean (PDict ?p) = PDict d" using clean_PDict by blast
  ultimately have "policy_of (norm_manifest m') = Inr d" by (auto simp: policy_of_def truthy_def)
  moreover have "dgetn d ''not_after'' = PNone" "dgetn d ''not_before'' = PNone"
    using clean_dict_get(1) [OF _ d] by (simp_all add: dgetn_def dgetd_def)
  ultimately show ?thesis by (simp add: check_policy_def)
qed

lemma sample_open_sealed:
  "\<exists>blob st' m. open_sealed toy_ops 5 True blob (replicate 32 3)
     (Some {hex (ed_pub toy_ops (replicate 32 7))}) None (\<lambda>_. None) = (st', Inr ([1], m))"
proof -
  obtain m' blob where b: "open_checked toy_ops 5 blob (replicate 32 3) (Some {hex (ed_pub toy_ops (replicate 32 7))}) None
        = ebind (check_policy 5 (norm_manifest m') None) (\<lambda>_. Inr ([1], norm_manifest m'))"
      "sign toy_ops (replicate 32 7) (sample_manifest [1]) = Inr m'"
    using sample_opens by blast
  then have "open_sealed toy_ops 5 True blob (replicate 32 3) (Some {hex (ed_pub toy_ops (replicate 32 7))}) None (\<lambda>_. None)
      = (\<lambda>_. None, Inr ([1], norm_manifest m'))"
    using sample_policy [OF b(2)] by (simp add: open_sealed_def record_open_def)
  then show ?thesis by blast
qed

section \<open>Properties\<close>

text \<open>
  The layout round trip: a file with a well-formed manifest of a known suite, a JSON envelope
  and a nonce of 24 bytes, within the size limits, is written, and reading it gives the file back,
  with the manifest and the envelope in their normal form.
\<close>

theorem sealed_file_roundtrip:
  assumes "manifest_ok m" "json_ok (PDict w)" "length nonce = 24" "length ct < 4294967296"
    and "suite_id_to_name sid = Some name" "m_suite m = PStr name"
    and "to_json m = Inr mj" "length mj \<le> MAX_MANIFEST_BYTES"
    and "jcs_dumps (PDict w) = Inr wj" "length wj \<le> MAX_WRAPPED_DEK_BYTES"
  shows "\<exists>data w'. to_bytes \<lparr>sf_manifest = m, sf_wrapped_dek = w, sf_aead_nonce = nonce,
        sf_ciphertext = ct, sf_suite_id = sid\<rparr> = Inr data
    \<and> from_bytes data = Inr \<lparr>sf_manifest = norm_manifest m, sf_wrapped_dek = w', sf_aead_nonce = nonce,
        sf_ciphertext = ct, sf_suite_id = sid\<rparr>
    \<and> PDict w' = canon (PDict w)"
proof -
  obtain w' where w': "canon (PDict w) = PDict w'" by (simp add: canon_dict del: canon.simps)
  have "from_json mj = Inr (norm_manifest m)" using to_json_from_json [OF assms(1)] assms(7) by simp
  moreover have "m_suite (norm_manifest m) = PStr name" using assms(6) by (simp add: norm_simps)
  moreover have "loads_utf8 wj = Inr (PDict w')" using loads_jcs [OF assms(2,9)] w' by simp
  ultimately have "from_bytes (layout sid mj wj nonce ct) = Inr \<lparr>sf_manifest = norm_manifest m, sf_wrapped_dek = w',
      sf_aead_nonce = nonce, sf_ciphertext = ct, sf_suite_id = sid\<rparr>"
    using assms by (intro from_bytes_layout) auto
  moreover have "to_bytes \<lparr>sf_manifest = m, sf_wrapped_dek = w, sf_aead_nonce = nonce,
        sf_ciphertext = ct, sf_suite_id = sid\<rparr> = Inr (layout sid mj wj nonce ct)"
    unfolding to_bytes_layout using assms max_lengths suite_id_bound [OF assms(5)] by simp
  ultimately show ?thesis using w' by metis
qed

theorem sealed_file_roundtrip_witness:
  "\<exists>m' data w'. to_bytes \<lparr>sf_manifest = m', sf_wrapped_dek = x25519_envelope (replicate 32 1) (replicate 24 2) (replicate 48 3),
        sf_aead_nonce = replicate 24 5, sf_ciphertext = [9, 9], sf_suite_id = 1\<rparr> = Inr data
    \<and> from_bytes data = Inr \<lparr>sf_manifest = norm_manifest m', sf_wrapped_dek = w', sf_aead_nonce = replicate 24 5,
        sf_ciphertext = [9, 9], sf_suite_id = 1\<rparr>"
proof -
  obtain m' x where m': "sign toy_ops (replicate 32 7) (sample_manifest [1]) = Inr m'" "manifest_ok m'"
    "m' = (sample_manifest [1])\<lparr>m_signature_ed25519 := PStr (hex x)\<rparr>"
    using sign_ok [OF sample_manifest_ok toy_ops_correct(1), of "replicate 32 7" "[1]"] sample_fields(2) by auto
  obtain mj where mj: "to_json m' = Inr mj" using to_json_from_json [OF m'(2)] by blast
  obtain wj where wj: "jcs_dumps (PDict (x25519_envelope (replicate 32 1) (replicate 24 2) (replicate 48 3))) = Inr wj"
    "length wj \<le> MAX_WRAPPED_DEK_BYTES"
    using envelope_json [of "replicate 32 1" "replicate 24 2" "replicate 48 3"] by auto
  have "suite_id_to_name 1 = Some SUITE_CLASSIC_V1" by (simp add: suite_id_to_name_def SUITE_CLASSIC_V1_ID_def)
  moreover have "m_suite m' = PStr SUITE_CLASSIC_V1" using m'(3) sample_fields(1) by simp
  moreover have "json_ok (PDict (x25519_envelope (replicate 32 1) (replicate 24 2) (replicate 48 3)))"
    by (simp add: x25519_envelope_def)
  ultimately show ?thesis
    using sealed_file_roundtrip [OF m'(2) _ _ _ _ _ mj sample_signed_size [OF m'(1) mj] wj, of "replicate 24 5" "[9, 9]" 1]
    by fastforce
qed

text \<open>
  C1: a sealed file opens for its recipient: sealing a document with consistent metadata succeeds,
  and for every clock, policy context and trust set with the issuer in it, opening with the
  recipient's key returns the document and the manifest exactly when the policy check passes and
  the counter admits one more open; otherwise it raises what these raise.
\<close>

theorem sealed_file_opens:
  assumes "sig_correct C" "dh_correct C" "aead_correct C"
    and "length isk = 32" "length rsk = 32" "length eph = 32" "length wrap_nonce = 24"
      "length dek = 32" "length nonce = 24"
    and "manifest_ok m" "m_suite m = PStr SUITE_CLASSIC_V1"
      "m_issuer_ed25519_pub m = PStr (hex (ed_pub C isk))"
      "m_content_hash m = PStr (content_hash plaintext)" "m_size_bytes m = PInt (int (length plaintext))"
      "m_recipient m = Some r" "r_x25519_pub r = PStr (hex (x_pub C rsk))"
    and "length plaintext + 16 < 4294967296"
      "\<And>m' mj. sign C isk m = Inr m' \<Longrightarrow> to_json m' = Inr mj \<Longrightarrow> length mj \<le> MAX_MANIFEST_BYTES"
    and "hex (ed_pub C isk) \<in> T"
  shows "\<exists>m' blob. seal C eph wrap_nonce dek nonce plaintext m isk (x_pub C rsk) = (m', Inr blob)
    \<and> open_sealed C now w blob rsk (Some T) ctx st =
        (case check_policy now (norm_manifest m') ctx of
           Inl e \<Rightarrow> (st, Inl e)
         | Inr _ \<Rightarrow>
             (case record_open now w (norm_manifest m') ctx st of
                (st', Inl e) \<Rightarrow> (st', Inl e)
              | (st', Inr _) \<Rightarrow> (st', Inr (plaintext, norm_manifest m'))))"
proof -
  obtain m' blob where b: "seal C eph wrap_nonce dek nonce plaintext m isk (x_pub C rsk) = (m', Inr blob)"
    "open_checked C now blob rsk (Some T) ctx = ebind (check_policy now (norm_manifest m') ctx) (\<lambda>_. Inr (plaintext, norm_manifest m'))"
    using seal_opens [OF assms(1-17)] assms(18,19) by blast
  then show ?thesis by (cases "check_policy now (norm_manifest m') ctx") (auto simp: open_sealed_def)
qed

theorem sealed_file_opens_witness:
  "\<exists>m' blob. seal toy_ops (replicate 32 1) (replicate 24 2) (replicate 32 4) (replicate 24 5) [1]
      (sample_manifest [1]) (replicate 32 7) (x_pub toy_ops (replicate 32 3)) = (m', Inr blob)
    \<and> open_sealed toy_ops 5 True blob (replicate 32 3) (Some {hex (ed_pub toy_ops (replicate 32 7))}) None (\<lambda>_. None)
        = (\<lambda>_. None, Inr ([1], norm_manifest m'))"
proof -
  obtain m' blob where b: "seal toy_ops (replicate 32 1) (replicate 24 2) (replicate 32 4) (replicate 24 5) [1]
      (sample_manifest [1]) (replicate 32 7) (x_pub toy_ops (replicate 32 3)) = (m', Inr blob)"
    "open_sealed toy_ops 5 True blob (replicate 32 3) (Some {hex (ed_pub toy_ops (replicate 32 7))}) None (\<lambda>_. None)
      = (case check_policy 5 (norm_manifest m') None of
           Inl e \<Rightarrow> (\<lambda>_. None, Inl e)
         | Inr _ \<Rightarrow> (case record_open 5 True (norm_manifest m') None (\<lambda>_. None) of
              (st', Inl e) \<Rightarrow> (st', Inl e) | (st', Inr _) \<Rightarrow> (st', Inr ([1], norm_manifest m'))))"
    using sealed_file_opens [OF toy_ops_correct(1-3), where m = "sample_manifest [1]" and isk = "replicate 32 7"
      and rsk = "replicate 32 3" and eph = "replicate 32 1" and wrap_nonce = "replicate 24 2"
      and dek = "replicate 32 4" and nonce = "replicate 24 5" and plaintext = "[1]" and r = sample_recipient
      and T = "{hex (ed_pub toy_ops (replicate 32 7))}" and now = 5 and w = True and ctx = None and st = "\<lambda>_. None",
      OF _ _ _ _ _ _ sample_manifest_ok sample_fields _ sample_signed_size] by fastforce
  have "sign toy_ops (replicate 32 7) (sample_manifest [1]) = Inr m'"
    using b(1) by (auto simp: seal_def split: sum.split_asm)
  then show ?thesis using b sample_policy by (auto simp: record_open_def)
qed

text \<open>
  C2: what an open that returns has checked: the file parses, the signature of its manifest
  verifies, the issuer is trusted, the policy allows the open at this time and place, the plaintext
  is the one whose SHA-256 the issuer signed, and the counter admitted and recorded the open.
\<close>

theorem open_sealed_checked:
  assumes "open_sealed C now w blob sk T ctx st = (st', Inr (plaintext, m))"
  shows "(\<exists>sf. from_bytes blob = Inr sf \<and> sf_manifest sf = m) \<and> verify C m = Inr True
    \<and> (\<forall>S. T = Some S \<longrightarrow> (\<exists>pk\<in>S. m_issuer_ed25519_pub m = PStr pk))
    \<and> check_policy now m ctx = Inr () \<and> m_content_hash m = PStr (content_hash plaintext)
    \<and> (\<exists>n. record_open now w m ctx st = (st', Inr n))"
proof -
  have c: "open_checked C now blob sk T ctx = Inr (plaintext, m)"
    using assms by (auto simp: open_sealed_def split: sum.split_asm prod.split_asm)
  moreover have "\<exists>n. record_open now w m ctx st = (st', Inr n)"
    using assms c by (auto simp: open_sealed_def split: sum.split_asm prod.split_asm)
  ultimately show ?thesis
    by (auto simp: open_checked_def Let_def ebind_eq_Inr trusted_def)
qed

theorem open_sealed_checked_witness:
  "\<exists>blob st' m. open_sealed toy_ops 5 True blob (replicate 32 3)
     (Some {hex (ed_pub toy_ops (replicate 32 7))}) None (\<lambda>_. None) = (st', Inr ([1], m))
   \<and> verify toy_ops m = Inr True \<and> m_content_hash m = PStr (content_hash [1])"
proof -
  obtain blob st' m where "open_sealed toy_ops 5 True blob (replicate 32 3)
     (Some {hex (ed_pub toy_ops (replicate 32 7))}) None (\<lambda>_. None) = (st', Inr ([1], m))"
    using sample_open_sealed by blast
  from open_sealed_checked [OF this] this show ?thesis by blast
qed

lemma record_open_fail: "record_open now w m ctx st = (st', Inl e) \<Longrightarrow> st' = st"
  using bump_cases by (fastforce simp: record_open_def Let_def split: option.split_asm sum.split_asm if_split_asm)

text \<open>
  C20: a failed open is not counted: whatever the exception, the counter files are unchanged.
\<close>

theorem failed_open_not_counted:
  assumes "open_sealed C now w blob sk T ctx st = (st', Inl e)"
  shows "st' = st"
  using assms record_open_fail [of now w _ ctx st st' e]
  by (auto simp: open_sealed_def split: sum.split_asm prod.split_asm)

theorem failed_open_not_counted_witness:
  "open_sealed toy_ops 5 True [] (replicate 32 1) None None (\<lambda>_. None) = (\<lambda>_. None, Inl (ValueError ''truncated file''))
   \<and> (\<lambda>_. None :: bytes option) = (\<lambda>_ :: pyval. None)"
proof -
  have "open_sealed toy_ops 5 True [] (replicate 32 1) None None (\<lambda>_. None) = (\<lambda>_. None, Inl (ValueError ''truncated file''))"
    by (simp add: open_sealed_def open_checked_def from_bytes_def read_exact_def)
  with failed_open_not_counted [OF this] show ?thesis by simp
qed

text \<open>
  C19: what \<open>from_bytes\<close> accepts is exactly the documented layout, and it returns exactly its parts. A
  file is accepted with the result \<open>sf\<close> if and only if it is magic, version and suite, then the manifest,
  the wrapped key, the nonce and the ciphertext, each with its length, with no byte before, between or
  behind them; the first segment is JSON of the manifest returned and the second JSON of the envelope
  returned; the suite is known and the one the manifest names; and the parts are within the limits.
  (JSON itself leaves room for white space and repeated keys inside the two segments.)
\<close>

theorem from_bytes_exact:
  "from_bytes data = Inr sf \<longleftrightarrow>
    (\<exists>mj wj name. data = layout (sf_suite_id sf) mj wj (sf_aead_nonce sf) (sf_ciphertext sf)
    \<and> from_json mj = Inr (sf_manifest sf) \<and> loads_utf8 wj = Inr (PDict (sf_wrapped_dek sf))
    \<and> suite_id_to_name (sf_suite_id sf) = Some name \<and> m_suite (sf_manifest sf) = PStr name
    \<and> length mj \<le> MAX_MANIFEST_BYTES \<and> length wj \<le> MAX_WRAPPED_DEK_BYTES \<and> length (sf_aead_nonce sf) = 24
    \<and> length (sf_ciphertext sf) < 4294967296)"
proof
  assume "from_bytes data = Inr sf"
  then show "\<exists>mj wj name. data = layout (sf_suite_id sf) mj wj (sf_aead_nonce sf) (sf_ciphertext sf)
    \<and> from_json mj = Inr (sf_manifest sf) \<and> loads_utf8 wj = Inr (PDict (sf_wrapped_dek sf))
    \<and> suite_id_to_name (sf_suite_id sf) = Some name \<and> m_suite (sf_manifest sf) = PStr name
    \<and> length mj \<le> MAX_MANIFEST_BYTES \<and> length wj \<le> MAX_WRAPPED_DEK_BYTES \<and> length (sf_aead_nonce sf) = 24
    \<and> length (sf_ciphertext sf) < 4294967296" by (rule from_bytes_Inr)
qed (use from_bytes_layout in force)

theorem from_bytes_exact_witness:
  "\<exists>data sf mj wj name. from_bytes data = Inr sf
    \<and> data = layout (sf_suite_id sf) mj wj (sf_aead_nonce sf) (sf_ciphertext sf)
    \<and> loads_utf8 wj = Inr (PDict (sf_wrapped_dek sf)) \<and> suite_id_to_name (sf_suite_id sf) = Some name"
proof -
  obtain blob st' m where o: "open_sealed toy_ops 5 True blob (replicate 32 3)
     (Some {hex (ed_pub toy_ops (replicate 32 7))}) None (\<lambda>_. None) = (st', Inr ([1], m))"
    using sample_open_sealed by blast
  then obtain sf where sf: "from_bytes blob = Inr sf"
    by (auto simp: open_sealed_def open_checked_def ebind_eq_Inr Let_def split: sum.split_asm)
  then show ?thesis using from_bytes_exact [of blob sf] by blast
qed

end
