(* ===== verification/PyRegex.thy ===== *)
theory PyRegex
  imports PyText
begin

text \<open>
  Python's \<open>re\<close> as far as the program uses it: backtracking matches in their order of priority, so
  the first one is the match Python takes. \<open>rx_match r t s\<close> lists the states (position and groups)
  in which the pattern \<open>r\<close> may leave the text \<open>t\<close>, entered in state \<open>s\<close>. A repetition never repeats
  an empty iteration, as in the module, so as many iterations as the text is long are enough.

  What depends on the Unicode tables (beyond ASCII, and beyond the fixed set of white space) is a
  record \<open>ucd\<close>, a parameter of everything that reads it.
\<close>

section \<open>Character tables\<close>

record ucd =
  uc_word :: "nat \<Rightarrow> bool"
  uc_digit :: "nat \<Rightarrow> bool"
  uc_ci :: "nat \<Rightarrow> nat \<Rightarrow> bool"
  uc_lower :: "pystr \<Rightarrow> pystr"
  uc_upper :: "pystr \<Rightarrow> pystr"
  uc_isupper :: "pystr \<Rightarrow> bool"

text \<open>Tables of a build that classes nothing beyond ASCII, for evaluation.\<close>

definition ascii_ucd :: ucd where
  "ascii_ucd = \<lparr>uc_word = (\<lambda>_. False), uc_digit = (\<lambda>_. False), uc_ci = (\<lambda>_ _. False),
     uc_lower = id, uc_upper = id, uc_isupper = (\<lambda>_. False)\<rparr>"

definition is_lower_letter :: "nat \<Rightarrow> bool" where
  "is_lower_letter c \<longleftrightarrow> 97 \<le> c \<and> c \<le> 122"

definition is_upper_letter :: "nat \<Rightarrow> bool" where
  "is_upper_letter c \<longleftrightarrow> 65 \<le> c \<and> c \<le> 90"

definition is_letter :: "nat \<Rightarrow> bool" where
  "is_letter c \<longleftrightarrow> is_lower_letter c \<or> is_upper_letter c"

text \<open>\<open>\w\<close> and \<open>\d\<close>\<close>

definition word_char :: "ucd \<Rightarrow> nat \<Rightarrow> bool" where
  "word_char U c = (if c < 128 then is_letter c \<or> is_digit c \<or> c = 95 else uc_word U c)"

definition digit_char :: "ucd \<Rightarrow> nat \<Rightarrow> bool" where
  "digit_char U c = (if c < 128 then is_digit c else uc_digit U c)"

definition all_ascii :: "pystr \<Rightarrow> bool" where
  "all_ascii s = list_all (\<lambda>c. c < 128) s"

definition py_lower :: "ucd \<Rightarrow> pystr \<Rightarrow> pystr" where
  "py_lower U s = (if all_ascii s then map ascii_lower s else uc_lower U s)"

definition py_upper :: "ucd \<Rightarrow> pystr \<Rightarrow> pystr" where
  "py_upper U s = (if all_ascii s then map ascii_upper s else uc_upper U s)"

definition py_isupper :: "ucd \<Rightarrow> pystr \<Rightarrow> bool" where
  "py_isupper U s =
     (if all_ascii s then list_ex is_upper_letter s \<and> \<not> list_ex is_lower_letter s else uc_isupper U s)"

text \<open>A pattern character under \<open>re.IGNORECASE\<close>.\<close>

definition same_ci :: "ucd \<Rightarrow> nat \<Rightarrow> nat \<Rightarrow> bool" where
  "same_ci U p c = (if c < 128 then ascii_lower c = ascii_lower p else uc_ci U p c)"

section \<open>Patterns\<close>

datatype rx =
    Eps
  | Chr "nat \<Rightarrow> bool"
  | At "pystr \<Rightarrow> nat \<Rightarrow> bool"
  | Cat rx rx
  | Alt rx rx
  | Rep bool nat "nat option" rx
  | Grp nat rx

text \<open>A state: the position, and the groups set so far, the latest first.\<close>

type_synonym rx_state = "nat \<times> (nat \<times> nat \<times> nat) list"

fun rep_exact :: "nat \<Rightarrow> (rx_state \<Rightarrow> rx_state list) \<Rightarrow> rx_state \<Rightarrow> rx_state list" where
  "rep_exact 0 f s = [s]"
| "rep_exact (Suc n) f s = concat (map (rep_exact n f) (f s))"

fun rep_greedy :: "nat \<Rightarrow> (rx_state \<Rightarrow> rx_state list) \<Rightarrow> rx_state \<Rightarrow> rx_state list" where
  "rep_greedy 0 f s = [s]"
| "rep_greedy (Suc n) f s =
     concat (map (\<lambda>s'. if fst s' = fst s then [] else rep_greedy n f s') (f s)) @ [s]"

fun rep_lazy :: "nat \<Rightarrow> (rx_state \<Rightarrow> rx_state list) \<Rightarrow> rx_state \<Rightarrow> rx_state list" where
  "rep_lazy 0 f s = [s]"
| "rep_lazy (Suc n) f s =
     s # concat (map (\<lambda>s'. if fst s' = fst s then [] else rep_lazy n f s') (f s))"

primrec rx_match :: "rx \<Rightarrow> pystr \<Rightarrow> rx_state \<Rightarrow> rx_state list" where
  "rx_match Eps t s = [s]"
| "rx_match (Chr p) t s =
     (if fst s < length t \<and> p (t ! fst s) then [(Suc (fst s), snd s)] else [])"
| "rx_match (At p) t s = (if p t (fst s) then [s] else [])"
| "rx_match (Cat a b) t s = concat (map (rx_match b t) (rx_match a t s))"
| "rx_match (Alt a b) t s = rx_match a t s @ rx_match b t s"
| "rx_match (Rep greedy m mx r) t s =
     concat (map ((if greedy then rep_greedy else rep_lazy)
                    (case mx of None \<Rightarrow> length t | Some n \<Rightarrow> n - m) (rx_match r t))
       (rep_exact m (rx_match r t) s))"
| "rx_match (Grp g r) t s = map (\<lambda>(j, gs). (j, (g, fst s, j) # gs)) (rx_match r t s)"

section \<open>Building patterns\<close>

definition star :: "rx \<Rightarrow> rx" where "star r = Rep True 0 None r"
definition plus :: "rx \<Rightarrow> rx" where "plus r = Rep True 1 None r"
definition opt :: "rx \<Rightarrow> rx" where "opt r = Rep True 0 (Some 1) r"
definition times :: "nat \<Rightarrow> rx \<Rightarrow> rx" where "times n r = Rep True n (Some n) r"
definition at_least :: "nat \<Rightarrow> rx \<Rightarrow> rx" where "at_least n r = Rep True n None r"

definition cats :: "rx list \<Rightarrow> rx" where "cats rs = foldr Cat rs Eps"

fun alts :: "rx list \<Rightarrow> rx" where
  "alts [] = At (\<lambda>t i. False)"
| "alts [r] = r"
| "alts (r # q # rs) = Alt r (alts (q # rs))"

definition lit :: "pystr \<Rightarrow> rx" where
  "lit s = cats (map (\<lambda>c. Chr (\<lambda>d. d = c)) s)"

definition lit_ci :: "ucd \<Rightarrow> pystr \<Rightarrow> rx" where
  "lit_ci U s = cats (map (\<lambda>c. Chr (same_ci U c)) s)"

text \<open>\<open>\b\<close>: exactly one of the characters around the position is a word character.\<close>

definition boundary :: "ucd \<Rightarrow> pystr \<Rightarrow> nat \<Rightarrow> bool" where
  "boundary U t i \<longleftrightarrow>
     (0 < i \<and> i \<le> length t \<and> word_char U (t ! (i - 1))) \<noteq> (i < length t \<and> word_char U (t ! i))"

text \<open>\<open>^\<close> under \<open>re.M\<close>\<close>

definition line_start :: "pystr \<Rightarrow> nat \<Rightarrow> bool" where
  "line_start t i \<longleftrightarrow> i = 0 \<or> (i \<le> length t \<and> t ! (i - 1) = 10)"

section \<open>Searching\<close>

definition rx_at :: "rx \<Rightarrow> pystr \<Rightarrow> nat \<Rightarrow> rx_state option" where
  "rx_at r t i = (case rx_match r t (i, []) of [] \<Rightarrow> None | s # _ \<Rightarrow> Some s)"

text \<open>A match: where it starts, where it ends, and its groups.\<close>

type_synonym rx_span = "nat \<times> nat \<times> (nat \<times> nat \<times> nat) list"

fun rx_find_from :: "nat \<Rightarrow> rx \<Rightarrow> pystr \<Rightarrow> nat \<Rightarrow> rx_span option" where
  "rx_find_from 0 r t i = None"
| "rx_find_from (Suc n) r t i =
     (case rx_at r t i of
        Some (j, gs) \<Rightarrow> Some (i, j, gs)
      | None \<Rightarrow> rx_find_from n r t (Suc i))"

text \<open>\<open>re.search\<close>: the positions \<open>i, ..., len(t)\<close> are tried in turn.\<close>

definition rx_search :: "rx \<Rightarrow> pystr \<Rightarrow> nat \<Rightarrow> rx_span option" where
  "rx_search r t i = rx_find_from (Suc (length t) - i) r t i"

text \<open>\<open>re.finditer\<close>; the patterns of the program match no empty piece.\<close>

fun rx_iter :: "nat \<Rightarrow> rx \<Rightarrow> pystr \<Rightarrow> nat \<Rightarrow> rx_span list" where
  "rx_iter 0 r t i = []"
| "rx_iter (Suc n) r t i =
     (case rx_search r t i of
        None \<Rightarrow> []
      | Some (a, b, gs) \<Rightarrow> (a, b, gs) # rx_iter n r t (if a < b then b else Suc b))"

definition rx_finditer :: "rx \<Rightarrow> pystr \<Rightarrow> rx_span list" where
  "rx_finditer r t = rx_iter (Suc (length t)) r t 0"

definition slice :: "'a list \<Rightarrow> nat \<Rightarrow> nat \<Rightarrow> 'a list" where
  "slice t a b = take (b - a) (drop a t)"

definition group :: "pystr \<Rightarrow> rx_span \<Rightarrow> nat \<Rightarrow> pystr" where
  "group t m g =
     (case m of (a, b, gs) \<Rightarrow>
        if g = 0 then slice t a b
        else case map_of gs g of Some (x, y) \<Rightarrow> slice t x y | None \<Rightarrow> [])"

text \<open>The text with each of the given spans replaced, as every \<open>sub\<close> loop of the program builds it.\<close>

fun splice :: "pystr \<Rightarrow> nat \<Rightarrow> (nat \<times> nat \<times> pystr) list \<Rightarrow> pystr" where
  "splice t cursor [] = drop cursor t"
| "splice t cursor ((a, b, r) # rs) = slice t cursor a @ r @ splice t b rs"

definition rx_sub :: "rx \<Rightarrow> (rx_span \<Rightarrow> pystr) \<Rightarrow> pystr \<Rightarrow> pystr" where
  "rx_sub r f t = splice t 0 (map (\<lambda>m. (fst m, fst (snd m), f m)) (rx_finditer r t))"

text \<open>\<open>s.replace(old, new)\<close> and \<open>s.count(sub)\<close> for a nonempty substring.\<close>

definition str_replace :: "pystr \<Rightarrow> pystr \<Rightarrow> pystr \<Rightarrow> pystr" where
  "str_replace old new t = rx_sub (lit old) (\<lambda>_. new) t"

definition str_count :: "pystr \<Rightarrow> pystr \<Rightarrow> nat" where
  "str_count sub t = length (rx_finditer (lit sub) t)"

definition rx_test :: "rx \<Rightarrow> pystr \<Rightarrow> bool" where
  "rx_test r t \<longleftrightarrow> rx_search r t 0 \<noteq> None"

section \<open>Words\<close>

text \<open>
  The pattern \<open>\b([A-Za-z]+)\b\<close> finds the maximal runs of word characters that consist of ASCII
  letters: a match cannot stop between two letters, and a word character next to it is no boundary.
  \<open>runs\<close> cuts a text into its maximal runs of word and of other characters.
\<close>

fun runs :: "(nat \<Rightarrow> bool) \<Rightarrow> pystr \<Rightarrow> pystr list" where
  "runs p [] = []"
| "runs p (c # s) =
     (case runs p s of
        [] \<Rightarrow> [[c]]
      | r # rs \<Rightarrow> if p (hd r) = p c then (c # r) # rs else [c] # r # rs)"

fun spans :: "nat \<Rightarrow> pystr list \<Rightarrow> (nat \<times> nat \<times> pystr) list" where
  "spans i [] = []"
| "spans i (r # rs) = (i, i + length r, r) # spans (i + length r) rs"

definition all_letters :: "pystr \<Rightarrow> bool" where
  "all_letters w = list_all is_letter w"

definition words :: "ucd \<Rightarrow> pystr \<Rightarrow> (nat \<times> nat \<times> pystr) list" where
  "words U t = filter (\<lambda>(a, b, w). all_letters w) (spans 0 (runs (word_char U) t))"

text \<open>Runs are nonempty, uniform, alternate, and make up the text; and that determines them.\<close>

fun alternating :: "(nat \<Rightarrow> bool) \<Rightarrow> bool \<Rightarrow> pystr list \<Rightarrow> bool" where
  "alternating p b [] = True"
| "alternating p b (r # rs) = (r \<noteq> [] \<and> list_all (\<lambda>c. p c = b) r \<and> alternating p (\<not> b) rs)"

lemma runs_Nil_iff [simp]: "runs p t = [] \<longleftrightarrow> t = []"
  by (cases t) (auto split: list.splits)

lemma concat_runs [simp]: "concat (runs p t) = t"
  by (induction t) (auto split: list.splits)

lemma alternating_runs: "alternating p (p (hd t)) (runs p t)"
proof (induction t)
  case (Cons c s)
  show ?case
  proof (cases "runs p s")
    case Nil
    then show ?thesis by simp
  next
    case (Cons r rs)
    have r: "r \<noteq> []" "list_all (\<lambda>d. p d = p (hd s)) r" "alternating p (\<not> p (hd s)) rs"
      using Cons.IH unfolding Cons by simp_all
    then have "p (hd r) = p (hd s)" by (cases r) simp_all
    then show ?thesis using Cons r by (cases "p (hd s) = p c") auto
  qed
qed simp

lemma runs_append_run:
  assumes "r \<noteq> []" "list_all (\<lambda>c. p c = b) r" "t = [] \<or> p (hd t) = (\<not> b)"
  shows "runs p (r @ t) = r # runs p t"
  using assms
proof (induction r)
  case (Cons c r)
  show ?case
  proof (cases "r = []")
    case True
    show ?thesis
    proof (cases "runs p t")
      case Nil
      then show ?thesis using True by simp
    next
      case (Cons q qs)
      then have t: "t \<noteq> []" by auto
      have "q \<noteq> [] \<and> list_all (\<lambda>d. p d = p (hd t)) q"
        using alternating_runs [of p t] unfolding Cons by simp
      then have "p (hd q) = p (hd t)" by (cases q) simp_all
      then have "p (hd q) = (\<not> b)" using Cons.prems(3) t by simp
      then show ?thesis using True Cons Cons.prems(2) by simp
    qed
  next
    case False
    then have "p (hd r) = b" using Cons.prems(2) by (cases r) simp_all
    then show ?thesis using False Cons.IH Cons.prems by simp
  qed
qed simp

lemma hd_concat_alternating:
  "alternating p b rs \<Longrightarrow> rs = [] \<or> concat rs \<noteq> [] \<and> p (hd (concat rs)) = b"
  by (cases rs) (auto simp: hd_append list_all_iff)

lemma runs_concat: "alternating p b rs \<Longrightarrow> runs p (concat rs) = rs"
proof (induction rs arbitrary: b)
  case (Cons r rs)
  then have "concat rs = [] \<or> p (hd (concat rs)) = (\<not> b)"
    using hd_concat_alternating [of p "\<not> b" rs] by auto
  then have "runs p (r @ concat rs) = r # runs p (concat rs)"
    using Cons.prems by (intro runs_append_run [of _ _ b]) simp_all
  moreover have "runs p (concat rs) = rs" using Cons by auto
  ultimately show ?case by simp
qed simp

text \<open>Replacing the words of a kind, the values \<open>vs\<close> being used up in the order of the words.\<close>

fun subst :: "('a \<Rightarrow> bool) \<Rightarrow> ('a \<Rightarrow> 'v \<Rightarrow> 'a) \<Rightarrow> 'v list \<Rightarrow> 'a list \<Rightarrow> 'a list" where
  "subst P g vs [] = []"
| "subst P g vs (r # rs) =
     (if P r then (case vs of [] \<Rightarrow> r # rs | v # vs' \<Rightarrow> g r v # subst P g vs' rs)
      else r # subst P g vs rs)"

lemma splice_spans:
  assumes "k \<le> length t" "length vs = length (filter P rs)"
  shows "splice (t @ concat rs) k
     (map (\<lambda>((a, b, w), v). (a, b, g w v)) (zip (filter (\<lambda>(a, b, w). P w) (spans (length t) rs)) vs))
     = drop k t @ concat (subst P g vs rs)"
  using assms
proof (induction rs arbitrary: t k vs)
  case (Cons r rs)
  show ?case
  proof (cases "P r")
    case True
    then obtain v vs' where vs: "vs = v # vs'" using Cons.prems(2) by (cases vs) auto
    then show ?thesis
      using Cons.IH [of "length (t @ r)" "t @ r" vs'] Cons.prems True by (simp add: slice_def)
  next
    case False
    then show ?thesis using Cons.IH [of k "t @ r" vs] Cons.prems by simp
  qed
qed simp

lemma filter_spans: "map (\<lambda>(a, b, w). w) (filter (\<lambda>(a, b, w). P w) (spans i rs)) = filter P rs"
  by (induction rs arbitrary: i) auto

lemma length_filter_spans [simp]: "length (filter (\<lambda>(a, b, w). P w) (spans i rs)) = length (filter P rs)"
  using filter_spans [of P i rs] by (metis length_map)

lemma alternating_subst:
  assumes "alternating p b rs"
    "\<And>r v. r \<in> set rs \<Longrightarrow> v \<in> set vs \<Longrightarrow> P r \<Longrightarrow>
       g r v \<noteq> [] \<and> (\<forall>b. list_all (\<lambda>c. p c = b) r \<longrightarrow> list_all (\<lambda>c. p c = b) (g r v))"
  shows "alternating p b (subst P g vs rs)"
  using assms
proof (induction rs arbitrary: b vs)
  case (Cons r rs)
  have r: "r \<noteq> []" "list_all (\<lambda>c. p c = b) r" "alternating p (\<not> b) rs" using Cons.prems(1) by simp_all
  show ?case
  proof (cases "P r \<and> vs \<noteq> []")
    case True
    then obtain v vs' where vs: "vs = v # vs'" by (cases vs) auto
    have "alternating p (\<not> b) (subst P g vs' rs)" using Cons.IH [of "\<not> b" vs'] Cons.prems(2) r vs by simp
    moreover have "g r v \<noteq> [] \<and> list_all (\<lambda>c. p c = b) (g r v)"
      using Cons.prems(2) [of r v] r vs True by simp
    ultimately show ?thesis using True vs by simp
  next
    case False
    have "alternating p (\<not> b) (subst P g vs rs)" using Cons.IH [of "\<not> b" vs] Cons.prems(2) r by simp
    then show ?thesis using False r by (cases vs) auto
  qed
qed simp

lemma filter_subst:
  assumes "length vs = length (filter P rs)"
    "\<And>r v. r \<in> set rs \<Longrightarrow> v \<in> set vs \<Longrightarrow> P r \<Longrightarrow> P (g r v)"
  shows "filter P (subst P g vs rs) = map2 g (filter P rs) vs"
  using assms
proof (induction rs arbitrary: vs)
  case (Cons r rs)
  show ?case
  proof (cases "P r")
    case True
    then obtain v vs' where vs: "vs = v # vs'" using Cons.prems(1) by (cases vs) auto
    then show ?thesis using Cons.IH [of vs'] Cons.prems True by simp
  next
    case False
    then show ?thesis using Cons.IH [of vs] Cons.prems by simp
  qed
qed simp

text \<open>The same when the choice of words looks at where they stand.\<close>

lemma splice_spans_at:
  assumes "k \<le> length t" "length vs = length (filter P (spans (length t) rs))"
  shows "splice (t @ concat rs) k
     (map (\<lambda>((a, b, w), v). (a, b, g w v)) (zip (filter P (spans (length t) rs)) vs))
     = drop k t @ concat (map (snd \<circ> snd) (subst P (\<lambda>(a, b, w) v. (a, b, g w v)) vs (spans (length t) rs)))"
  using assms
proof (induction rs arbitrary: t k vs)
  case (Cons r rs)
  show ?case
  proof (cases "P (length t, length t + length r, r)")
    case True
    then obtain v vs' where vs: "vs = v # vs'" using Cons.prems(2) by (cases vs) auto
    then show ?thesis
      using Cons.IH [of "length (t @ r)" "t @ r" vs'] Cons.prems True by (simp add: slice_def)
  next
    case False
    then show ?thesis using Cons.IH [of k "t @ r" vs] Cons.prems by simp
  qed
qed simp

lemma length_spans [simp]: "length (spans k rs) = length rs"
  by (induction rs arbitrary: k) auto

lemma nth_spans:
  "i < length rs \<Longrightarrow> spans k rs ! i = (k + length (concat (take i rs)), k + length (concat (take i rs)) + length (rs ! i), rs ! i)"
  by (induction rs arbitrary: k i) (auto simp: nth_Cons split: nat.splits)

lemma length_subst [simp]: "length (subst P g vs rs) = length rs"
  by (induction P g vs rs rule: subst.induct) (auto split: list.splits)

lemma nth_subst:
  "i < length rs \<Longrightarrow> subst P g vs rs ! i = rs ! i \<or> P (rs ! i) \<and> (\<exists>v\<in>set vs. subst P g vs rs ! i = g (rs ! i) v)"
proof (induction rs arbitrary: vs i)
  case (Cons r rs)
  show ?case
  proof (cases i)
    case 0
    then show ?thesis by (cases vs) auto
  next
    case (Suc j)
    then show ?thesis
      using Cons.IH [of j vs] Cons.IH [of j "tl vs"] Cons.prems by (cases vs; cases "P r") auto
  qed
qed simp

end
