(* ===== verification/Synonyms.thy ===== *)
theory Synonyms
  imports PyRegex
begin

text \<open>
  \<open>oversight_core/synonyms_v2.py\<close>: the table of 151 synonym classes, its lookup, and the walk over
  the words of a text that a mark may use. Shown here: the lookup is right about the table, and every
  word the walk yields is a table word outside the skipped regions, neither in capitals nor
  capitalised inside the text.
\<close>

section \<open>The table\<close>

record synonym_class =
  variants :: "pystr list"
  pos :: pystr

definition SynonymClass :: "string list \<Rightarrow> string \<Rightarrow> synonym_class" where
  "SynonymClass ws p = \<lparr>variants = map u ws, pos = u p\<rparr>"

definition VERBS :: "synonym_class list" where
  "VERBS = [
   SynonymClass [''begin'', ''start'', ''commence''] ''verb'',
   SynonymClass [''end'', ''finish'', ''conclude''] ''verb'',
   SynonymClass [''use'', ''utilize'', ''employ''] ''verb'',
   SynonymClass [''make'', ''create'', ''produce''] ''verb'',
   SynonymClass [''get'', ''obtain'', ''acquire''] ''verb'',
   SynonymClass [''find'', ''locate'', ''identify''] ''verb'',
   SynonymClass [''show'', ''display'', ''present''] ''verb'',
   SynonymClass [''tell'', ''inform'', ''notify''] ''verb'',
   SynonymClass [''give'', ''provide'', ''supply''] ''verb'',
   SynonymClass [''help'', ''assist'', ''aid''] ''verb'',
   SynonymClass [''think'', ''believe'', ''consider''] ''verb'',
   SynonymClass [''know'', ''understand'', ''recognize''] ''verb'',
   SynonymClass [''see'', ''observe'', ''notice''] ''verb'',
   SynonymClass [''want'', ''desire'', ''need''] ''verb'',
   SynonymClass [''look'', ''appear'', ''seem''] ''verb'',
   SynonymClass [''ask'', ''request'', ''query''] ''verb'',
   SynonymClass [''send'', ''transmit'', ''deliver''] ''verb'',
   SynonymClass [''allow'', ''permit'', ''enable''] ''verb'',
   SynonymClass [''stop'', ''halt'', ''cease''] ''verb'',
   SynonymClass [''continue'', ''proceed'', ''persist''] ''verb'',
   SynonymClass [''try'', ''attempt'', ''endeavor''] ''verb'',
   SynonymClass [''change'', ''modify'', ''alter''] ''verb'',
   SynonymClass [''add'', ''append'', ''include''] ''verb'',
   SynonymClass [''remove'', ''delete'', ''eliminate''] ''verb'',
   SynonymClass [''check'', ''verify'', ''confirm''] ''verb'',
   SynonymClass [''review'', ''examine'', ''evaluate''] ''verb'',
   SynonymClass [''agree'', ''concur'', ''consent''] ''verb'',
   SynonymClass [''decide'', ''determine'', ''resolve''] ''verb'',
   SynonymClass [''require'', ''need'', ''demand''] ''verb'',
   SynonymClass [''contain'', ''include'', ''hold''] ''verb'',
   SynonymClass [''return'', ''yield'', ''give back''] ''verb'',
   SynonymClass [''create'', ''generate'', ''build''] ''verb'',
   SynonymClass [''destroy'', ''eliminate'', ''eradicate''] ''verb'',
   SynonymClass [''improve'', ''enhance'', ''upgrade''] ''verb'',
   SynonymClass [''protect'', ''safeguard'', ''defend''] ''verb'',
   SynonymClass [''discuss'', ''address'', ''cover''] ''verb'',
   SynonymClass [''explain'', ''clarify'', ''describe''] ''verb'',
   SynonymClass [''propose'', ''suggest'', ''recommend''] ''verb'',
   SynonymClass [''demonstrate'', ''show'', ''prove''] ''verb'',
   SynonymClass [''achieve'', ''accomplish'', ''attain''] ''verb'',
   SynonymClass [''manage'', ''handle'', ''administer''] ''verb'',
   SynonymClass [''develop'', ''build'', ''engineer''] ''verb'',
   SynonymClass [''establish'', ''set up'', ''institute''] ''verb'',
   SynonymClass [''support'', ''back'', ''endorse''] ''verb'',
   SynonymClass [''reject'', ''refuse'', ''decline''] ''verb'',
   SynonymClass [''reduce'', ''decrease'', ''lower''] ''verb'',
   SynonymClass [''increase'', ''raise'', ''boost''] ''verb'',
   SynonymClass [''operate'', ''run'', ''function''] ''verb'',
   SynonymClass [''execute'', ''perform'', ''run''] ''verb'',
   SynonymClass [''investigate'', ''examine'', ''research''] ''verb'']"

definition ADJECTIVES :: "synonym_class list" where
  "ADJECTIVES = [
   SynonymClass [''big'', ''large'', ''substantial''] ''adj'',
   SynonymClass [''small'', ''tiny'', ''minor''] ''adj'',
   SynonymClass [''fast'', ''quick'', ''rapid''] ''adj'',
   SynonymClass [''slow'', ''gradual'', ''deliberate''] ''adj'',
   SynonymClass [''important'', ''critical'', ''significant''] ''adj'',
   SynonymClass [''hard'', ''difficult'', ''challenging''] ''adj'',
   SynonymClass [''easy'', ''simple'', ''straightforward''] ''adj'',
   SynonymClass [''good'', ''excellent'', ''effective''] ''adj'',
   SynonymClass [''bad'', ''poor'', ''inferior''] ''adj'',
   SynonymClass [''new'', ''recent'', ''current''] ''adj'',
   SynonymClass [''old'', ''prior'', ''previous''] ''adj'',
   SynonymClass [''common'', ''typical'', ''standard''] ''adj'',
   SynonymClass [''rare'', ''unusual'', ''uncommon''] ''adj'',
   SynonymClass [''safe'', ''secure'', ''protected''] ''adj'',
   SynonymClass [''dangerous'', ''risky'', ''hazardous''] ''adj'',
   SynonymClass [''correct'', ''accurate'', ''right''] ''adj'',
   SynonymClass [''wrong'', ''incorrect'', ''mistaken''] ''adj'',
   SynonymClass [''clear'', ''obvious'', ''evident''] ''adj'',
   SynonymClass [''unclear'', ''vague'', ''ambiguous''] ''adj'',
   SynonymClass [''strong'', ''robust'', ''powerful''] ''adj'',
   SynonymClass [''weak'', ''fragile'', ''limited''] ''adj'',
   SynonymClass [''full'', ''complete'', ''entire''] ''adj'',
   SynonymClass [''empty'', ''vacant'', ''bare''] ''adj'',
   SynonymClass [''open'', ''available'', ''accessible''] ''adj'',
   SynonymClass [''closed'', ''sealed'', ''restricted''] ''adj'',
   SynonymClass [''visible'', ''apparent'', ''observable''] ''adj'',
   SynonymClass [''hidden'', ''concealed'', ''obscured''] ''adj'',
   SynonymClass [''public'', ''open'', ''unrestricted''] ''adj'',
   SynonymClass [''private'', ''confidential'', ''restricted''] ''adj'',
   SynonymClass [''complete'', ''finished'', ''done''] ''adj'',
   SynonymClass [''partial'', ''incomplete'', ''limited''] ''adj'',
   SynonymClass [''useful'', ''helpful'', ''valuable''] ''adj'',
   SynonymClass [''useless'', ''pointless'', ''ineffective''] ''adj'',
   SynonymClass [''interesting'', ''engaging'', ''compelling''] ''adj'',
   SynonymClass [''boring'', ''dull'', ''tedious''] ''adj'',
   SynonymClass [''early'', ''initial'', ''preliminary''] ''adj'',
   SynonymClass [''late'', ''delayed'', ''overdue''] ''adj'',
   SynonymClass [''possible'', ''feasible'', ''viable''] ''adj'',
   SynonymClass [''impossible'', ''unfeasible'', ''impractical''] ''adj'',
   SynonymClass [''normal'', ''typical'', ''regular''] ''adj'',
   SynonymClass [''abnormal'', ''unusual'', ''atypical''] ''adj'',
   SynonymClass [''high'', ''elevated'', ''significant''] ''adj'',
   SynonymClass [''low'', ''reduced'', ''minimal''] ''adj'']"

definition ADVERBS :: "synonym_class list" where
  "ADVERBS = [
   SynonymClass [''quickly'', ''rapidly'', ''swiftly''] ''adv'',
   SynonymClass [''slowly'', ''gradually'', ''steadily''] ''adv'',
   SynonymClass [''carefully'', ''cautiously'', ''thoroughly''] ''adv'',
   SynonymClass [''often'', ''frequently'', ''regularly''] ''adv'',
   SynonymClass [''rarely'', ''seldom'', ''infrequently''] ''adv'',
   SynonymClass [''usually'', ''typically'', ''generally''] ''adv'',
   SynonymClass [''sometimes'', ''occasionally'', ''periodically''] ''adv'',
   SynonymClass [''always'', ''consistently'', ''invariably''] ''adv'',
   SynonymClass [''never'', ''not ever'', ''at no time''] ''adv'',
   SynonymClass [''clearly'', ''obviously'', ''plainly''] ''adv'',
   SynonymClass [''exactly'', ''precisely'', ''specifically''] ''adv'',
   SynonymClass [''approximately'', ''roughly'', ''around''] ''adv'',
   SynonymClass [''completely'', ''entirely'', ''fully''] ''adv'',
   SynonymClass [''partially'', ''partly'', ''somewhat''] ''adv'',
   SynonymClass [''immediately'', ''instantly'', ''promptly''] ''adv'',
   SynonymClass [''eventually'', ''ultimately'', ''finally''] ''adv'',
   SynonymClass [''recently'', ''lately'', ''newly''] ''adv'',
   SynonymClass [''currently'', ''presently'', ''now''] ''adv'',
   SynonymClass [''previously'', ''formerly'', ''earlier''] ''adv'',
   SynonymClass [''easily'', ''readily'', ''effortlessly''] ''adv'']"

definition NOUNS :: "synonym_class list" where
  "NOUNS = [
   SynonymClass [''problem'', ''issue'', ''concern''] ''noun'',
   SynonymClass [''answer'', ''response'', ''reply''] ''noun'',
   SynonymClass [''question'', ''query'', ''inquiry''] ''noun'',
   SynonymClass [''idea'', ''concept'', ''notion''] ''noun'',
   SynonymClass [''plan'', ''strategy'', ''approach''] ''noun'',
   SynonymClass [''result'', ''outcome'', ''consequence''] ''noun'',
   SynonymClass [''method'', ''approach'', ''technique''] ''noun'',
   SynonymClass [''goal'', ''objective'', ''aim''] ''noun'',
   SynonymClass [''change'', ''modification'', ''alteration''] ''noun'',
   SynonymClass [''system'', ''framework'', ''structure''] ''noun'',
   SynonymClass [''process'', ''procedure'', ''workflow''] ''noun'',
   SynonymClass [''feature'', ''function'', ''capability''] ''noun'',
   SynonymClass [''effect'', ''impact'', ''influence''] ''noun'',
   SynonymClass [''cause'', ''reason'', ''source''] ''noun'',
   SynonymClass [''example'', ''instance'', ''case''] ''noun'',
   SynonymClass [''detail'', ''particular'', ''specific''] ''noun'',
   SynonymClass [''summary'', ''overview'', ''synopsis''] ''noun'',
   SynonymClass [''notice'', ''notification'', ''alert''] ''noun'',
   SynonymClass [''record'', ''log'', ''entry''] ''noun'',
   SynonymClass [''report'', ''document'', ''write-up''] ''noun'',
   SynonymClass [''data'', ''information'', ''content''] ''noun'',
   SynonymClass [''value'', ''amount'', ''quantity''] ''noun'',
   SynonymClass [''location'', ''place'', ''site''] ''noun'',
   SynonymClass [''time'', ''moment'', ''instant''] ''noun'',
   SynonymClass [''benefit'', ''advantage'', ''gain''] ''noun'',
   SynonymClass [''risk'', ''hazard'', ''threat''] ''noun'',
   SynonymClass [''error'', ''mistake'', ''flaw''] ''noun'',
   SynonymClass [''need'', ''requirement'', ''necessity''] ''noun'',
   SynonymClass [''request'', ''application'', ''petition''] ''noun'',
   SynonymClass [''opportunity'', ''chance'', ''possibility''] ''noun'']"

definition CONNECTORS :: "synonym_class list" where
  "CONNECTORS = [
   SynonymClass [''however'', ''nevertheless'', ''nonetheless''] ''conj'',
   SynonymClass [''therefore'', ''consequently'', ''thus''] ''conj'',
   SynonymClass [''also'', ''additionally'', ''furthermore''] ''conj'',
   SynonymClass [''but'', ''yet'', ''though''] ''conj'',
   SynonymClass [''because'', ''since'', ''as''] ''conj'',
   SynonymClass [''although'', ''while'', ''whereas''] ''conj'',
   SynonymClass [''similarly'', ''likewise'', ''comparably''] ''conj'',
   SynonymClass [''instead'', ''rather'', ''alternatively''] ''conj'']"

definition ALL_CLASSES :: "synonym_class list" where
  "ALL_CLASSES = VERBS @ ADJECTIVES @ ADVERBS @ NOUNS @ CONNECTORS"

section \<open>Lookup\<close>

text \<open>
  The words of a table with their class and variant indices, in the order of the loops. Words with a
  blank are not indexed; of equal words the first entry wins, which is what \<open>map_of\<close> reads.
\<close>

definition class_words :: "nat \<Rightarrow> synonym_class \<Rightarrow> (pystr \<times> nat \<times> nat \<times> pystr) list" where
  "class_words ci c =
     map (\<lambda>(vi, w). (map ascii_lower w, ci, vi, pos c))
       (filter (\<lambda>(vi, w). 32 \<notin> set w) (enumerate 0 (variants c)))"

definition v2_entries :: "(pystr \<times> nat \<times> nat \<times> pystr) list" where
  "v2_entries = concat (map (\<lambda>(ci, c). class_words ci c) (enumerate 0 ALL_CLASSES))"

definition v2_lookup :: "pystr \<Rightarrow> (nat \<times> nat \<times> pystr) option" where
  "v2_lookup w = map_of v2_entries w"

definition SYNONYM_COUNT :: nat where
  "SYNONYM_COUNT = length ALL_CLASSES"

lemma class_words_in:
  "(w, ci, vi, p) \<in> set (class_words k c) \<Longrightarrow>
     ci = k \<and> vi < length (variants c) \<and> w = map ascii_lower (variants c ! vi)
     \<and> 32 \<notin> set (variants c ! vi) \<and> p = pos c"
  by (auto simp: class_words_def in_set_enumerate_eq)

lemma v2_lookup_sound:
  assumes "v2_lookup w = Some (ci, vi, p)"
  shows "ci < length ALL_CLASSES \<and> vi < length (variants (ALL_CLASSES ! ci))
    \<and> w = map ascii_lower (variants (ALL_CLASSES ! ci) ! vi) \<and> p = pos (ALL_CLASSES ! ci)"
proof -
  have "(w, ci, vi, p) \<in> set v2_entries" using assms by (auto simp: v2_lookup_def dest: map_of_SomeD)
  then obtain k c where "(k, c) \<in> set (enumerate 0 ALL_CLASSES)" "(w, ci, vi, p) \<in> set (class_words k c)"
    by (auto simp: v2_entries_def)
  then show ?thesis by (auto simp: in_set_enumerate_eq dest: class_words_in)
qed

lemma SYNONYM_COUNT: "SYNONYM_COUNT = 151"
  by (simp add: SYNONYM_COUNT_def ALL_CLASSES_def VERBS_def ADJECTIVES_def ADVERBS_def NOUNS_def CONNECTORS_def)

section \<open>Regions to leave alone\<close>

definition nonspace :: rx where "nonspace = Chr (\<lambda>c. \<not> is_space c)"

definition mail_char :: "ucd \<Rightarrow> nat \<Rightarrow> bool" where
  "mail_char U c \<longleftrightarrow> word_char U c \<or> c = 46 \<or> c = 45"

definition bnd :: "ucd \<Rightarrow> rx" where "bnd U = At (boundary U)"

text \<open>\<open>[^`]+\<close> between backquotes\<close>

definition inline_code :: rx where
  "inline_code = cats [lit [96], plus (Chr (\<lambda>c. c \<noteq> 96)), lit [96]]"

definition hex_char :: "nat \<Rightarrow> bool" where
  "hex_char c \<longleftrightarrow> is_digit c \<or> (65 \<le> c \<and> c \<le> 70) \<or> (97 \<le> c \<and> c \<le> 102)"

definition skip_patterns :: "ucd \<Rightarrow> rx list" where
  "skip_patterns U = [
     cats [lit (u ''http''), opt (lit (u ''s'')), lit (u ''://''), plus nonspace],
     cats [bnd U, plus (Chr (\<lambda>c. mail_char U c \<or> c = 43)), lit (u ''@''), plus (Chr (mail_char U)),
           lit (u ''.''), plus (Chr (word_char U)), bnd U],
     inline_code,
     cats [lit [96, 96, 96], Rep False 0 None (Chr (\<lambda>c. True)), lit [96, 96, 96]],
     cats [Alt (At (\<lambda>t i. i = 0)) (Chr is_space),
           alts [lit (u ''/''), lit (u ''~/''), lit (u ''./'')], plus nonspace],
     cats [bnd U, Chr is_letter, lit (u '':''), lit [92, 92], plus nonspace],
     cats [bnd U, at_least 16 (Chr hex_char), bnd U],
     cats [bnd U, at_least 32 (Chr (\<lambda>c. is_letter c \<or> is_digit c \<or> c = 43 \<or> c = 47)),
           Rep True 0 (Some 2) (lit (u ''='')), bnd U]]"

definition skip_mask :: "ucd \<Rightarrow> pystr \<Rightarrow> nat \<Rightarrow> bool" where
  "skip_mask U doc =
     (let regions = concat (map (\<lambda>p. rx_finditer p doc) (skip_patterns U))
      in (\<lambda>i. list_ex (\<lambda>(a, b, _). a \<le> i \<and> i < b) regions))"

text \<open>
  The conditions on a word that starts at \<open>a\<close> and ends at \<open>b\<close>: no part of it is skipped, it is not in
  capitals, and it is not capitalised unless it opens the text.
\<close>

definition usable_word :: "ucd \<Rightarrow> (nat \<Rightarrow> bool) \<Rightarrow> nat \<Rightarrow> nat \<Rightarrow> pystr \<Rightarrow> bool" where
  "usable_word U masked a b word \<longleftrightarrow>
     \<not> list_ex masked [a..<b]
     \<and> \<not> (py_isupper U word \<or> py_isupper U (take 1 word) \<and> a \<noteq> 0)"

definition iter_matchable_words :: "ucd \<Rightarrow> pystr \<Rightarrow> (nat \<times> nat \<times> pystr \<times> nat \<times> nat \<times> pystr) list" where
  "iter_matchable_words U doc =
     (let masked = skip_mask U doc
      in concat (map (\<lambda>(a, b, word).
           if usable_word U masked a b word then
             (case v2_lookup (py_lower U word) of Some e \<Rightarrow> [(a, b, word, e)] | None \<Rightarrow> [])
           else []) (words U doc)))"

end
