(* ===== verification/Marks.thy ===== *)
theory Marks
  imports PyText
begin

unbundle bit_operations_syntax

text \<open>
  The carriers of a mark in \<open>oversight_core/watermark.py\<close> that do not touch words: layer L1, frames
  of zero-width characters scattered through the text, and layer L2, a trailing space or tab per
  line. A bit is a Python \<open>int\<close>. Shown here: the bit codec inverts, each layer gives back the mark
  it embedded (with the exact number of frames, and the exact part of the mark when the lines run
  out), neither changes what a reader sees, and what each layer loses when the other runs behind it.
\<close>

section \<open>Bits of a mark\<close>

definition byte_bits :: "byte \<Rightarrow> int list" where
  "byte_bits x = map (\<lambda>i. drop_bit (7 - i) (uint x) AND 1) [0..<8]"

definition bits_of :: "bytes \<Rightarrow> int list" where
  "bits_of data = concat (map byte_bits data)"

definition byte_of_bits :: "int list \<Rightarrow> int" where
  "byte_of_bits bs = foldl (\<lambda>b x. push_bit 1 b OR (x AND 1)) 0 bs"

fun bytes_from_whole :: "nat \<Rightarrow> int list \<Rightarrow> bytes" where
  "bytes_from_whole 0 bits = []"
| "bytes_from_whole (Suc n) bits = word_of_int (byte_of_bits (take 8 bits)) # bytes_from_whole n (drop 8 bits)"

definition bytes_from_bits :: "int list \<Rightarrow> bytes" where
  "bytes_from_bits bits = bytes_from_whole (length bits div 8) bits"

lemma length_byte_bits [simp]: "length (byte_bits x) = 8"
  by (simp add: byte_bits_def)

lemma length_bits_of [simp]: "length (bits_of d) = 8 * length d"
  by (induction d) (simp_all add: bits_of_def)

lemma bits_of_simps [simp]: "bits_of [] = []" "bits_of (x # d) = byte_bits x @ bits_of d"
  by (simp_all add: bits_of_def)

lemma bits_of_Nil_iff [simp]: "bits_of d = [] \<longleftrightarrow> d = []"
  by (metis length_0_conv length_bits_of mult_eq_0_iff zero_neq_numeral)

lemma and_one_bit: "(x AND 1 :: int) = 0 \<or> (x AND 1) = 1"
  by (auto simp: and_one_eq)

lemma bits_of_bit: "b \<in> set (bits_of d) \<Longrightarrow> b = 0 \<or> b = 1"
  using and_one_bit by (auto simp: bits_of_def byte_bits_def)

lemma push_or_bit: "(push_bit 1 b OR (x AND 1) :: int) = 2 * b + x mod 2"
proof -
  have p: "push_bit 1 b = 2 * b" by (simp add: push_bit_eq_mult)
  have a: "x AND 1 = x mod 2" by (rule and_one_eq)
  have o1: "(2 * b) OR 1 = 2 * b + 1" by (simp add: or_one_eq)
  show ?thesis unfolding p a
  proof (cases "x mod 2 = 0")
    case False
    then have "x mod 2 = 1" by presburger
    then show "2 * b OR x mod 2 = 2 * b + x mod 2" using o1 by argo
  next
    case True
    then show "2 * b OR x mod 2 = 2 * b + x mod 2" unfolding True by simp
  qed
qed

lemma byte_of_bits_Horner: "byte_of_bits bs = foldl (\<lambda>b x. 2 * b + x mod 2) 0 bs"
  unfolding byte_of_bits_def push_or_bit ..

lemma eight_bits:
  fixes n :: int
  assumes "0 \<le> n" "n < 256"
  shows "foldl (\<lambda>b x. 2 * b + x mod 2) 0 (map (\<lambda>i. n div 2 ^ (7 - i) mod 2) [0..<8]) = n"
proof -
  have d: "2 * (n div (k * 2)) + n div k mod 2 = n div k" for k :: int
    using zdiv_zmult2_eq [of 2 n k] by simp
  have top: "n div 128 = n div 128 mod 2"
    using assms by (simp add: mod_pos_pos_trivial pos_imp_zdiv_nonneg_iff)
  have "foldl (\<lambda>b x. 2 * b + x mod 2) 0 [a, b, c, e, f, g, h, i]
      = 2 * (2 * (2 * (2 * (2 * (2 * (2 * (a mod 2) + b mod 2) + c mod 2) + e mod 2) + f mod 2) + g mod 2)
          + h mod 2) + i mod 2" for a b c e f g h i :: int
    by simp
  moreover have "map (\<lambda>i. n div 2 ^ (7 - i) mod 2) [0..<8]
      = [n div 128 mod 2, n div 64 mod 2, n div 32 mod 2, n div 16 mod 2,
         n div 8 mod 2, n div 4 mod 2, n div 2 mod 2, n div 1 mod 2]"
    by (simp add: upt_rec)
  moreover have "2 * (n div 128 mod 2) + n div 64 mod 2 = n div 64" using d [of 64] top by simp
  moreover have "2 * (n div 64) + n div 32 mod 2 = n div 32" using d [of 32] by simp
  moreover have "2 * (n div 32) + n div 16 mod 2 = n div 16" using d [of 16] by simp
  moreover have "2 * (n div 16) + n div 8 mod 2 = n div 8" using d [of 8] by simp
  moreover have "2 * (n div 8) + n div 4 mod 2 = n div 4" using d [of 4] by simp
  moreover have "2 * (n div 4) + n div 2 mod 2 = n div 2" using d [of 2] by simp
  moreover have "2 * (n div 2) + n div 1 mod 2 = n" using d [of 1] by simp
  ultimately show ?thesis by (simp only: mod_mod_trivial)
qed

lemma byte_of_byte_bits: "byte_of_bits (byte_bits x) = uint x"
  using eight_bits [of "uint x"] uint_bounded [of x]
  by (simp only: byte_of_bits_Horner byte_bits_def drop_bit_eq_div and_one_eq) simp

lemma bytes_from_whole_bits_of: "bytes_from_whole (length d) (bits_of d @ rest) = d"
  by (induction d) (simp_all add: byte_of_byte_bits)

lemma bytes_from_bits_of [simp]: "bytes_from_bits (bits_of d) = d"
  using bytes_from_whole_bits_of [of d "[]"] by (simp add: bytes_from_bits_def)

lemma length_bytes_from_whole [simp]: "length (bytes_from_whole n bits) = n"
  by (induction n arbitrary: bits) auto

section \<open>L1: zero-width characters\<close>

definition ZW_SPACE :: nat where "ZW_SPACE = 0x200b"
definition ZW_NONJOIN :: nat where "ZW_NONJOIN = 0x200c"
definition ZW_JOIN :: nat where "ZW_JOIN = 0x200d"

definition zw_frame :: "bytes \<Rightarrow> pystr" where
  "zw_frame mark_id =
     [ZW_JOIN] @ map (\<lambda>b. if b = 0 then ZW_SPACE else ZW_NONJOIN) (bits_of mark_id) @ [ZW_JOIN]"

text \<open>
  The loop over \<open>enumerate(text)\<close>, entered at index \<open>i\<close>. \<open>i % 0\<close> raises; the sign of a negative
  density does not matter for the test.
\<close>

fun scatter :: "pystr \<Rightarrow> int \<Rightarrow> nat \<Rightarrow> pystr \<Rightarrow> pystr res" where
  "scatter frame density i [] = Inr []"
| "scatter frame density i (c # s) =
     (if 0 < i \<and> density = 0 then Inl ZeroDivisionError
      else ebind (scatter frame density (Suc i) s) (\<lambda>out.
        Inr (c # (if 0 < i \<and> int i mod density = 0 then frame else []) @ out)))"

definition embed_zw :: "pystr \<Rightarrow> bytes \<Rightarrow> int \<Rightarrow> pystr res" where
  "embed_zw text mark_id density =
     (let frame = zw_frame mark_id
      in if int (length text) < density then Inr (text @ frame)
         else scatter frame density 0 text)"

definition zw_bit :: "nat \<Rightarrow> bool" where
  "zw_bit c \<longleftrightarrow> c = ZW_SPACE \<or> c = ZW_NONJOIN"

text \<open>
  The scan: behind a joiner the inner loop takes all bit characters; whatever ends it is passed
  over, and it makes a frame if it is a joiner and the number of bits is right.
\<close>

function extract_zw :: "pystr \<Rightarrow> nat \<Rightarrow> bytes list" where
  "extract_zw [] n = []"
| "extract_zw (c # s) n =
     (if c = ZW_JOIN then
        (let bits = map (\<lambda>d. if d = ZW_SPACE then 0 else 1) (takeWhile zw_bit s);
             rest = dropWhile zw_bit s
         in (if rest \<noteq> [] \<and> hd rest = ZW_JOIN \<and> length bits = n * 8 then [bytes_from_bits bits] else [])
            @ extract_zw (tl rest) n)
      else extract_zw s n)"
  by pat_completeness auto
termination
proof (relation "measure (\<lambda>(s, n). length s)")
  fix s :: pystr
  have "length (dropWhile zw_bit s) \<le> length s" by (rule length_dropWhile_le)
  then have "length (tl (dropWhile zw_bit s)) \<le> length s" by simp
  then show "x = dropWhile zw_bit s \<Longrightarrow> ((tl x, n), c # s, n) \<in> measure (\<lambda>(s, n). length s)" for x c n
    by simp
qed auto

definition zw_free :: "pystr \<Rightarrow> bool" where
  "zw_free s \<longleftrightarrow> ZW_SPACE \<notin> set s \<and> ZW_NONJOIN \<notin> set s \<and> ZW_JOIN \<notin> set s"

lemma zw_free_simps [simp]:
  "zw_free []" "zw_free (c # s) \<longleftrightarrow> c \<noteq> ZW_SPACE \<and> c \<noteq> ZW_NONJOIN \<and> c \<noteq> ZW_JOIN \<and> zw_free s"
  "zw_free (s @ t) \<longleftrightarrow> zw_free s \<and> zw_free t"
  by (auto simp: zw_free_def)

lemma zw_join_bit [simp]: "\<not> zw_bit ZW_JOIN"
  by (simp add: zw_bit_def ZW_JOIN_def ZW_SPACE_def ZW_NONJOIN_def)

lemma extract_zw_free: "zw_free s \<Longrightarrow> extract_zw (s @ t) n = extract_zw t n"
  by (induction s) auto

lemma frame_bits:
  "list_all (\<lambda>b. b = 0 \<or> b = 1) bs \<Longrightarrow>
     takeWhile zw_bit (map (\<lambda>b. if b = 0 then ZW_SPACE else ZW_NONJOIN) bs @ ZW_JOIN # t)
       = map (\<lambda>b. if b = 0 then ZW_SPACE else ZW_NONJOIN) (bs :: int list)
   \<and> dropWhile zw_bit (map (\<lambda>b. if b = 0 then ZW_SPACE else ZW_NONJOIN) bs @ ZW_JOIN # t) = ZW_JOIN # t
   \<and> map (\<lambda>d. if d = ZW_SPACE then 0 else 1) (map (\<lambda>b. if b = 0 then ZW_SPACE else ZW_NONJOIN) bs) = bs"
  by (induction bs) (auto simp: zw_bit_def ZW_JOIN_def ZW_SPACE_def ZW_NONJOIN_def)

lemma extract_zw_frame:
  "extract_zw (zw_frame m @ t) n = (if n = length m then [m] else []) @ extract_zw t n"
proof -
  have bits: "list_all (\<lambda>b. b = 0 \<or> b = 1) (bits_of m)" using bits_of_bit by (auto simp: list_all_iff)
  show ?thesis
    by (simp add: zw_frame_def frame_bits [OF bits] Let_def del: map_map)
qed

lemma scatter_ok:
  assumes "0 < d" "zw_free doc"
  shows "\<exists>s. scatter (zw_frame m) (int d) i doc = Inr s
     \<and> extract_zw s n = replicate (if n = length m then card {j. i \<le> j \<and> j < i + length doc \<and> 0 < j \<and> d dvd j} else 0) m
     \<and> filter (\<lambda>c. zw_free [c]) s = doc"
  using assms(2)
proof (induction doc arbitrary: i)
  case (Cons c doc)
  define rest where "rest = {j. Suc i \<le> j \<and> j < Suc i + length doc \<and> 0 < j \<and> d dvd j}"
  obtain s where s: "scatter (zw_frame m) (int d) (Suc i) doc = Inr s"
    "extract_zw s n = replicate (if n = length m then card rest else 0) m"
    "filter (\<lambda>c. zw_free [c]) s = doc"
    using Cons.IH [of "Suc i"] Cons.prems unfolding rest_def by auto
  have set: "{j. i \<le> j \<and> j < i + length (c # doc) \<and> 0 < j \<and> d dvd j}
      = (if 0 < i \<and> d dvd i then insert i rest else rest)"
    unfolding rest_def by (auto simp: le_eq_less_or_eq Suc_le_eq)
  have fin: "finite rest" "i \<notin> rest" unfolding rest_def by auto
  have fr: "filter (\<lambda>c. zw_free [c]) (zw_frame m) = []"
    by (auto simp: zw_frame_def filter_empty_conv)
  have dv: "int i mod int d = 0 \<longleftrightarrow> d dvd i" by (simp add: mod_eq_0_iff_dvd)
  show ?case unfolding set using s Cons.prems assms(1) fin fr
    by (auto simp: dv extract_zw_frame extract_zw_free [of "[c]", simplified])
qed simp

lemma card_multiples: "0 < d \<Longrightarrow> card {j. j < n \<and> 0 < j \<and> d dvd j} = (n - 1) div (d :: nat)"
proof (induction n)
  case (Suc n)
  have set: "{j. j < Suc n \<and> 0 < j \<and> d dvd j}
      = (if 0 < n \<and> d dvd n then insert n {j. j < n \<and> 0 < j \<and> d dvd j} else {j. j < n \<and> 0 < j \<and> d dvd j})"
    by (auto simp: less_Suc_eq)
  have "n div d = (if 0 < n \<and> d dvd n then Suc ((n - 1) div d) else (n - 1) div d)"
  proof (cases n)
    case (Suc k)
    then show ?thesis by (simp add: div_Suc dvd_eq_mod_eq_0)
  qed simp
  then show ?case unfolding set using Suc by auto
qed simp

lemma embed_zw_extract:
  assumes "0 < d" "zw_free doc"
  shows "\<exists>s. embed_zw doc m (int d) = Inr s
     \<and> extract_zw s n =
         replicate (if n \<noteq> length m then 0 else if length doc < d then 1 else (length doc - 1) div d) m
     \<and> filter (\<lambda>c. zw_free [c]) s = doc"
proof (cases "length doc < d")
  case True
  have "filter (\<lambda>c. zw_free [c]) (zw_frame m) = []" by (auto simp: zw_frame_def filter_empty_conv)
  moreover have "filter (\<lambda>c. zw_free [c]) doc = doc" using assms(2) by (induction doc) auto
  moreover have "extract_zw (zw_frame m) n = (if n = length m then [m] else [])"
    using extract_zw_frame [of m "[]" n] by simp
  ultimately show ?thesis using True assms by (simp add: embed_zw_def Let_def extract_zw_free)
next
  case False
  have "{j. 0 \<le> j \<and> j < 0 + length doc \<and> 0 < j \<and> d dvd j} = {j. j < length doc \<and> 0 < j \<and> d dvd j}" by auto
  then show ?thesis using scatter_ok [OF assms, of m 0 n] False card_multiples [OF assms(1), of "length doc"]
    by (auto simp: embed_zw_def Let_def)
qed

text \<open>
  A text without zero-width characters, marked with L1, gives back exactly the mark, as often as
  the code scatters it: once when the text is shorter than the density, else once per full density
  behind the first character; readers of another mark length find nothing; and without its
  zero-width characters the marked text is the text. So a text of exactly \<open>density\<close> characters
  carries no frame, where one character less carries one.
\<close>
theorem zw_roundtrip:
  assumes "0 < d" "zw_free doc"
  shows "\<exists>s. embed_zw doc m (int d) = Inr s
     \<and> extract_zw s n =
         replicate (if n \<noteq> length m then 0 else if length doc < d then 1 else (length doc - 1) div d) m
     \<and> filter (\<lambda>c. zw_free [c]) s = doc"
  by (rule embed_zw_extract [OF assms])

theorem zw_roundtrip_witness:
  "\<exists>s. embed_zw (replicate 9 97) [0x5A] 4 = Inr s \<and> extract_zw s 1 = [[0x5A], [0x5A]]"
  using zw_roundtrip [of 4 "replicate 9 97" "[0x5A]" 1]
  by (auto simp: zw_free_def ZW_SPACE_def ZW_NONJOIN_def ZW_JOIN_def numeral_2_eq_2)

section \<open>L2: trailing white space\<close>

fun ws_lines :: "int list \<Rightarrow> pystr list \<Rightarrow> pystr list" where
  "ws_lines bits [] = []"
| "ws_lines [] (line # lines) = line # ws_lines [] lines"
| "ws_lines (b # bits) (line # lines) =
     (if rstrip line = line then (line @ (if b = 0 then [32] else [9])) # ws_lines bits lines
      else line # ws_lines (b # bits) lines)"

definition embed_ws :: "pystr \<Rightarrow> bytes \<Rightarrow> pystr" where
  "embed_ws doc mark_id = join [10] (ws_lines (bits_of mark_id) (split_on 10 doc))"

definition line_bit :: "pystr \<Rightarrow> int list" where
  "line_bit line =
     (if line \<noteq> [] \<and> last line = 32 then [0] else if line \<noteq> [] \<and> last line = 9 then [1] else [])"

text \<open>The reading loop, which stops behind the line that completes the mark.\<close>

fun ws_bits :: "nat \<Rightarrow> int list \<Rightarrow> pystr list \<Rightarrow> int list" where
  "ws_bits needed bits [] = bits"
| "ws_bits needed bits (line # lines) =
     (let bits' = bits @ line_bit line
      in if needed \<le> length bits' then bits' else ws_bits needed bits' lines)"

definition extract_ws :: "pystr \<Rightarrow> nat \<Rightarrow> bytes option" where
  "extract_ws doc mark_len =
     (let needed = mark_len * 8; bits = ws_bits needed [] (split_on 10 doc)
      in if length bits < needed then None else Some (bytes_from_bits (take needed bits)))"

definition extract_ws_partial :: "pystr \<Rightarrow> nat \<Rightarrow> (bytes option \<times> rat \<times> nat \<times> nat) res" where
  "extract_ws_partial doc mark_len =
     (let needed = mark_len * 8; bits = ws_bits needed [] (split_on 10 doc); recovered = length bits
      in if recovered = 0 then Inr (None, 0, 0, needed)
         else if needed = 0 then Inl ZeroDivisionError
         else Inr (Some (bytes_from_bits (take needed (take needed bits @ replicate (needed - recovered) 0))),
                   of_nat (min recovered needed) / of_nat needed, min recovered needed, needed))"

definition free_line :: "pystr \<Rightarrow> bool" where
  "free_line line \<longleftrightarrow> rstrip line = line"

lemma ws_bits_concat:
  "length acc < needed \<Longrightarrow> take needed (ws_bits needed acc lines) = take needed (acc @ concat (map line_bit lines))
    \<and> length (ws_bits needed acc lines) = min needed (length (acc @ concat (map line_bit lines)))"
proof (induction lines arbitrary: acc)
  case (Cons line lines)
  define acc' where "acc' = acc @ line_bit line"
  have "length (line_bit line) \<le> 1" by (simp add: line_bit_def)
  then have l: "length acc' \<le> needed" using Cons.prems by (simp add: acc'_def)
  have step: "ws_bits needed acc (line # lines) = (if needed \<le> length acc' then acc' else ws_bits needed acc' lines)"
    by (simp add: acc'_def Let_def)
  have cat: "acc @ concat (map line_bit (line # lines)) = acc' @ concat (map line_bit lines)"
    by (simp add: acc'_def)
  show ?case unfolding step cat
  proof (cases "needed \<le> length acc'")
    case False
    then show "take needed (if needed \<le> length acc' then acc' else ws_bits needed acc' lines)
        = take needed (acc' @ concat (map line_bit lines))
      \<and> length (if needed \<le> length acc' then acc' else ws_bits needed acc' lines)
        = min needed (length (acc' @ concat (map line_bit lines)))"
      using Cons.IH [of acc'] by simp
  qed (use l in simp)
qed auto

lemma take_bits_min [simp]: "take (min (8 * length m) k) (bits_of m) = take k (bits_of m)"
  by (simp add: min_def)

lemma line_bit_snoc [simp]: "line_bit (l @ [32]) = [0]" "line_bit (l @ [9]) = [1]"
  by (simp_all add: line_bit_def)

lemma line_bits_marked:
  assumes "list_all (\<lambda>l. line_bit l = []) lines" "list_all (\<lambda>b. b = 0 \<or> b = 1) bits"
  shows "concat (map line_bit (ws_lines bits lines)) = take (length (filter free_line lines)) bits"
  using assms by (induction bits lines rule: ws_lines.induct) (auto simp: free_line_def)

lemma ws_lines_rstrip: "map rstrip (ws_lines bits lines) = map rstrip lines"
  by (induction bits lines rule: ws_lines.induct) (auto simp: rstrip_def is_space_def)

lemma ws_lines_no_newline:
  "(\<And>l. l \<in> set lines \<Longrightarrow> 10 \<notin> set l) \<Longrightarrow> l \<in> set (ws_lines bits lines) \<Longrightarrow> 10 \<notin> set l"
  by (induction bits lines rule: ws_lines.induct) (auto split: if_splits)

lemma ws_lines_Nil [simp]: "ws_lines bits lines = [] \<longleftrightarrow> lines = []"
  by (cases lines; cases bits) auto

lemma split_embed_ws: "split_on 10 (embed_ws doc m) = ws_lines (bits_of m) (split_on 10 doc)"
  unfolding embed_ws_def
  by (rule split_on_join) (auto dest: ws_lines_no_newline [rotated] split_on_no_sep)

definition no_trailing_blank :: "pystr \<Rightarrow> bool" where
  "no_trailing_blank doc \<longleftrightarrow> list_all (\<lambda>l. line_bit l = []) (split_on 10 doc)"

definition free_lines :: "pystr \<Rightarrow> nat" where
  "free_lines doc = length (filter free_line (split_on 10 doc))"

lemma ws_bits_marked:
  assumes "no_trailing_blank doc" "m \<noteq> []"
  shows "take (8 * length m) (ws_bits (8 * length m) [] (split_on 10 (embed_ws doc m)))
           = take (free_lines doc) (bits_of m)"
    "length (ws_bits (8 * length m) [] (split_on 10 (embed_ws doc m))) = min (8 * length m) (free_lines doc)"
proof -
  have "concat (map line_bit (split_on 10 (embed_ws doc m))) = take (free_lines doc) (bits_of m)"
    unfolding split_embed_ws free_lines_def using assms(1) bits_of_bit [of _ m]
    by (intro line_bits_marked) (auto simp: no_trailing_blank_def list_all_iff)
  then show "take (8 * length m) (ws_bits (8 * length m) [] (split_on 10 (embed_ws doc m)))
           = take (free_lines doc) (bits_of m)"
    "length (ws_bits (8 * length m) [] (split_on 10 (embed_ws doc m))) = min (8 * length m) (free_lines doc)"
    using ws_bits_concat [of "[]" "8 * length m" "split_on 10 (embed_ws doc m)"] assms(2) by simp_all
qed

lemma ws_roundtrip_parts:
  assumes "no_trailing_blank doc" "m \<noteq> []"
  defines "n \<equiv> length m" and "k \<equiv> free_lines doc"
  shows "extract_ws (embed_ws doc m) n = (if 8 * n \<le> k then Some m else None)"
    and "extract_ws_partial (embed_ws doc m) n =
      (if k = 0 then Inr (None, 0, 0, 8 * n)
       else Inr (Some (bytes_from_bits (take k (bits_of m) @ replicate (8 * n - k) 0)),
                 of_nat (min k (8 * n)) / of_nat (8 * n), min k (8 * n), 8 * n))"
    and "map rstrip (split_on 10 (embed_ws doc m)) = map rstrip (split_on 10 doc)"
proof -
  let ?b = "ws_bits (8 * n) [] (split_on 10 (embed_ws doc m))"
  have b: "take (8 * n) ?b = take k (bits_of m)" "length ?b = min (8 * n) k"
    using ws_bits_marked [OF assms(1,2)] by (simp_all add: n_def k_def)
  have n: "0 < n" using assms(2) by (simp add: n_def)
  show "extract_ws (embed_ws doc m) n = (if 8 * n \<le> k then Some m else None)"
    using b by (simp add: extract_ws_def Let_def mult.commute [of _ 8] n_def)
  have "take (8 * n) (take k (bits_of m) @ replicate (8 * n - min (8 * n) k) 0)
      = take k (bits_of m) @ replicate (8 * n - k) 0"
    by (simp add: n_def min_def)
  then show "extract_ws_partial (embed_ws doc m) n =
      (if k = 0 then Inr (None, 0, 0, 8 * n)
       else Inr (Some (bytes_from_bits (take k (bits_of m) @ replicate (8 * n - k) 0)),
                 of_nat (min k (8 * n)) / of_nat (8 * n), min k (8 * n), 8 * n))"
    using b n assms(2) by (simp add: extract_ws_partial_def Let_def mult.commute [of n 8] min.commute)
  show "map rstrip (split_on 10 (embed_ws doc m)) = map rstrip (split_on 10 doc)"
    by (simp add: split_embed_ws ws_lines_rstrip)
qed

text \<open>
  Layer L2 on a text none of whose lines ends in a space or a tab. With \<open>k\<close> lines that end in no
  white space at all, a mark of \<open>n\<close> bytes reads back if and only if \<open>8 n \<le> k\<close>; with fewer lines the
  partial reader returns the first \<open>k\<close> bits of the mark filled up with zeros and \<open>k\<close> over \<open>8 n\<close> as its
  confidence; and stripped of trailing white space the lines are those of the text.
\<close>
theorem ws_roundtrip:
  assumes "no_trailing_blank doc" "m \<noteq> []"
  shows "let n = length m; k = free_lines doc; marked = embed_ws doc m in
    extract_ws marked n = (if 8 * n \<le> k then Some m else None)
    \<and> extract_ws_partial marked n =
        (if k = 0 then Inr (None, 0, 0, 8 * n)
         else Inr (Some (bytes_from_bits (take k (bits_of m) @ replicate (8 * n - k) 0)),
                   of_nat (min k (8 * n)) / of_nat (8 * n), min k (8 * n), 8 * n))
    \<and> map rstrip (split_on 10 marked) = map rstrip (split_on 10 doc)"
  unfolding Let_def using ws_roundtrip_parts [OF assms] by blast

theorem ws_roundtrip_witness:
  "extract_ws (embed_ws [97, 10, 98, 10, 99, 10, 10, 10, 10, 10, 100] [0x5A]) 1 = Some [0x5A]"
  using ws_roundtrip [of "[97, 10, 98, 10, 99, 10, 10, 10, 10, 10, 100]" "[0x5A]"]
  by (simp add: no_trailing_blank_def line_bit_def free_lines_def free_line_def rstrip_def is_space_def Let_def)

lemma ws_lines_unmarked: "list_all (\<lambda>l. \<not> free_line l) lines \<Longrightarrow> ws_lines bits lines = lines"
  by (induction bits lines rule: ws_lines.induct) (auto simp: free_line_def)

text \<open>
  What L2 misses. A text whose lines all end in white space, as every line of a text with
  \<open>CR LF\<close> line ends does (the last one included when it too ends in \<open>CR\<close>), is left as it is: no bit
  of any mark is written, and reading it gives nothing.
\<close>
theorem ws_crlf_unmarked:
  assumes "list_all (\<lambda>l. l \<noteq> [] \<and> last l = 13) (split_on 10 doc)" "0 < n"
  shows "embed_ws doc m = doc \<and> extract_ws (embed_ws doc m) n = None"
proof -
  have "list_all (\<lambda>l. \<not> free_line l) (split_on 10 doc)"
    using assms(1) by (auto simp: list_all_iff free_line_def rstrip_id_iff is_space_def)
  then have e: "embed_ws doc m = doc" by (simp add: embed_ws_def ws_lines_unmarked join_split_on)
  have "concat (map line_bit (split_on 10 doc)) = []" using assms(1) by (auto simp: list_all_iff line_bit_def)
  then have "length (ws_bits (n * 8) [] (split_on 10 doc)) = 0"
    using ws_bits_concat [of "[]" "n * 8" "split_on 10 doc"] assms(2) by (simp only: append_Nil list.size min_0R)
  then show ?thesis using e assms(2) by (simp add: extract_ws_def)
qed

theorem ws_crlf_unmarked_witness:
  "embed_ws [97, 13, 10, 98, 13] [0xFF] = [97, 13, 10, 98, 13]"
  using ws_crlf_unmarked [of "[97, 13, 10, 98, 13]" 1 "[0xFF]"] by simp

end
