(* ===== verification/Semantic.thy ===== *)
theory Semantic
  imports Synonyms Marks Sha256
begin

unbundle bit_operations_syntax

text \<open>
  \<open>oversight_core/semantic.py\<close>: layer L3, marks in the choice of words, punctuation, spelling,
  contractions and number formats. Scores are exact fractions where the code computes in floating
  point; the tables of Unicode are the parameter \<open>U\<close>. Shown here: the v1 embedding is what its
  verification expects, with full score; the v2 embedding only swaps usable words for variants of
  their own class; and where the style marks damage the text or read back wrong.
\<close>

section \<open>Variant sequences and case\<close>

definition SYNONYM_CLASSES :: "pystr list list" where
  "SYNONYM_CLASSES = [
   [u ''begin'', u ''start'', u ''commence''],
   [u ''large'', u ''big'', u ''substantial''],
   [u ''fast'', u ''quick'', u ''rapid''],
   [u ''show'', u ''display'', u ''present''],
   [u ''use'', u ''utilize'', u ''employ''],
   [u ''help'', u ''assist'', u ''aid''],
   [u ''make'', u ''create'', u ''produce''],
   [u ''get'', u ''obtain'', u ''acquire''],
   [u ''find'', u ''locate'', u ''identify''],
   [u ''tell'', u ''inform'', u ''notify''],
   [u ''give'', u ''provide'', u ''supply''],
   [u ''end'', u ''finish'', u ''conclude''],
   [u ''small'', u ''tiny'', u ''minor''],
   [u ''slow'', u ''gradual'', u ''deliberate''],
   [u ''important'', u ''critical'', u ''significant''],
   [u ''hard'', u ''difficult'', u ''challenging''],
   [u ''easy'', u ''simple'', u ''straightforward''],
   [u ''problem'', u ''issue'', u ''concern''],
   [u ''answer'', u ''response'', u ''reply''],
   [u ''question'', u ''query'', u ''inquiry''],
   [u ''idea'', u ''concept'', u ''notion''],
   [u ''plan'', u ''strategy'', u ''approach''],
   [u ''result'', u ''outcome'', u ''consequence''],
   [u ''however'', u ''nevertheless'', u ''nonetheless''],
   [u ''therefore'', u ''consequently'', u ''thus''],
   [u ''also'', u ''additionally'', u ''furthermore''],
   [u ''but'', u ''yet'', u ''though'']]"

text \<open>The v1 lookup, where the last of equal words wins.\<close>

definition v1_entries :: "(pystr \<times> nat \<times> nat) list" where
  "v1_entries = concat (map (\<lambda>(ci, cls). map (\<lambda>(vi, word). (map ascii_lower word, ci, vi)) (enumerate 0 cls))
     (enumerate 0 SYNONYM_CLASSES))"

definition synonym_lookup :: "pystr \<Rightarrow> (nat \<times> nat) option" where
  "synonym_lookup w = map_of (rev v1_entries) w"

text \<open>
  The loop of \<open>_mark_id_to_variant_sequence\<close>: every block of the hash gives up to 32 indices. The
  counter is written on four bytes, enough for 2^37 words.
\<close>

function variant_loop :: "bytes \<Rightarrow> nat \<Rightarrow> nat \<Rightarrow> nat list \<Rightarrow> nat \<Rightarrow> nat list" where
  "variant_loop mark_id n class_size out ctr =
     (if length out < n then
        variant_loop mark_id n class_size
          (out @ take (n - length out) (map (\<lambda>b. unat b mod class_size) (sha256 (mark_id @ be32 ctr)))) (Suc ctr)
      else out)"
  by pat_completeness auto
termination by (relation "measure (\<lambda>(_, n, _, out, _). n - length out)") auto

declare variant_loop.simps [simp del]

definition variant_sequence :: "bytes \<Rightarrow> nat \<Rightarrow> nat \<Rightarrow> nat list" where
  "variant_sequence mark_id n class_size = variant_loop mark_id n class_size [] 0"

definition case_preserve :: "ucd \<Rightarrow> pystr \<Rightarrow> pystr \<Rightarrow> pystr" where
  "case_preserve U replacement original =
     (if py_isupper U original then py_upper U replacement
      else if py_isupper U (take 1 original) then py_upper U (take 1 replacement) @ drop 1 replacement
      else py_lower U replacement)"

definition ZW_CHARS :: pystr where
  "ZW_CHARS = [0x200b, 0x200c, 0x200d, 0xfeff]"

definition strip_zw :: "pystr \<Rightarrow> pystr" where
  "strip_zw doc = fold remove_char ZW_CHARS doc"

section \<open>T1, first version\<close>

definition v1_matches :: "ucd \<Rightarrow> pystr \<Rightarrow> (nat \<times> nat \<times> nat \<times> nat \<times> pystr) list" where
  "v1_matches U doc =
     concat (map (\<lambda>(a, b, w). case synonym_lookup (py_lower U w) of
         Some (ci, vi) \<Rightarrow> [(a, b, ci, vi, w)] | None \<Rightarrow> []) (words U doc))"

definition embed_synonyms :: "ucd \<Rightarrow> pystr \<Rightarrow> bytes \<Rightarrow> nat \<Rightarrow> pystr" where
  "embed_synonyms U doc mark_id min_instances =
     (let ms = v1_matches U doc in
      if length ms < min_instances then doc
      else splice doc 0
        (map (\<lambda>((a, b, ci, _, w), target_vi).
               let cls = SYNONYM_CLASSES ! ci in (a, b, case_preserve U (cls ! (target_vi mod length cls)) w))
          (zip ms (variant_sequence mark_id (length ms) 3))))"

text \<open>The fingerprint hashes Python's \<open>repr\<close> of the list of pairs.\<close>

definition repr_pairs :: "(nat \<times> nat) list \<Rightarrow> pystr" where
  "repr_pairs ps = u ''['' @ join (u '', '')
     (map (\<lambda>(a, b). u ''('' @ nat_digits a @ u '', '' @ nat_digits b @ u '')'') ps) @ u '']''"

definition extract_synonyms_candidate :: "ucd \<Rightarrow> pystr \<Rightarrow> bytes list" where
  "extract_synonyms_candidate U doc =
     (let sq = map (\<lambda>(_, _, ci, vi, _). (ci, vi)) (v1_matches U doc)
      in if sq = [] then [] else [sha256 (map of_nat (repr_pairs sq))])"

definition verify_synonyms_match :: "ucd \<Rightarrow> pystr \<Rightarrow> bytes \<Rightarrow> rat \<Rightarrow> bool \<times> rat" where
  "verify_synonyms_match U doc candidate threshold =
     (let actual = map (\<lambda>(_, _, ci, vi, _). (ci, vi)) (v1_matches U (strip_zw doc)) in
      if actual = [] then (False, 0)
      else
        let expected = variant_sequence candidate (length actual) 3;
            hits = length (filter (\<lambda>((ci, vi), e). e mod length (SYNONYM_CLASSES ! ci) = vi) (zip actual expected));
            counted = length (zip actual expected);
            score = (if counted \<noteq> 0 then of_nat hits / of_nat counted else 0)
        in (threshold \<le> score, score))"

section \<open>T2: punctuation\<close>

definition bit_for :: "bytes \<Rightarrow> nat \<Rightarrow> int res" where
  "bit_for mark_id i =
     (if mark_id = [] then Inl ZeroDivisionError
      else Inr (drop_bit (i mod 8) (uint (mark_id ! (i mod length mark_id))) AND 1))"

definition EM_DASH :: nat where "EM_DASH = 0x2014"
definition OPEN_Q :: nat where "OPEN_Q = 0x201c"
definition CLOSE_Q :: nat where "CLOSE_Q = 0x201d"

definition wchar :: "ucd \<Rightarrow> rx" where "wchar U = Chr (word_char U)"
definition wplus :: "ucd \<Rightarrow> rx" where "wplus U = plus (wchar U)"

definition mark_oxford :: "ucd \<Rightarrow> int \<Rightarrow> pystr \<Rightarrow> pystr" where
  "mark_oxford U b0 doc =
     (if b0 \<noteq> 0 then
        rx_sub (cats [Grp 1 (wplus U), lit (u '', ''), Grp 2 (wplus U), lit (u '' and '')])
          (\<lambda>m. group doc m 1 @ u '', '' @ group doc m 2 @ u '', and '') doc
      else
        rx_sub (cats [Grp 1 (wplus U), lit (u '', ''), Grp 2 (wplus U), lit (u '', and '')])
          (\<lambda>m. group doc m 1 @ u '', '' @ group doc m 2 @ u '' and '') doc)"

definition tight :: "ucd \<Rightarrow> pystr \<Rightarrow> rx" where
  "tight U dash = cats [Grp 1 (wchar U), lit dash, Grp 2 (wchar U)]"

definition mark_dash :: "ucd \<Rightarrow> int \<Rightarrow> pystr \<Rightarrow> pystr" where
  "mark_dash U b1 doc =
     (if b1 \<noteq> 0 then
        (let doc1 = str_replace (u '' -- '') [32, EM_DASH, 32] doc
         in rx_sub (tight U (u ''--'')) (\<lambda>m. group doc1 m 1 @ [EM_DASH] @ group doc1 m 2) doc1)
      else
        (let doc1 = str_replace [32, EM_DASH, 32] (u '' -- '') doc
         in rx_sub (tight U [EM_DASH]) (\<lambda>m. group doc1 m 1 @ u ''--'' @ group doc1 m 2) doc1))"

text \<open>Straight quotes become curly in turn; the state is flipped before it is read.\<close>

fun curly :: "nat \<Rightarrow> pystr \<Rightarrow> pystr" where
  "curly st [] = []"
| "curly st (c # s) =
     (if c = 34 then (if 1 - st \<noteq> 0 then OPEN_Q else CLOSE_Q) # curly (1 - st) s
      else c # curly st s)"

definition mark_quotes :: "int \<Rightarrow> pystr \<Rightarrow> pystr" where
  "mark_quotes b2 doc = (if b2 \<noteq> 0 then curly 1 doc else doc)"

definition embed_punctuation :: "ucd \<Rightarrow> pystr \<Rightarrow> bytes \<Rightarrow> pystr res" where
  "embed_punctuation U doc mark_id =
     ebind (bit_for mark_id 0) (\<lambda>b0.
     ebind (bit_for mark_id 1) (\<lambda>b1.
     ebind (bit_for mark_id 2) (\<lambda>b2.
       Inr (mark_quotes b2 (mark_dash U b1 (mark_oxford U b0 doc))))))"

definition sp_plus :: rx where "sp_plus = plus (Chr is_space)"
definition and_or :: rx where "and_or = Alt (lit (u ''and'')) (lit (u ''or''))"

definition extract_punctuation_bits :: "ucd \<Rightarrow> pystr \<Rightarrow> int list" where
  "extract_punctuation_bits U doc =
     (let oxford = length (rx_finditer (cats [lit (u '',''), sp_plus, wplus U, lit (u '',''), sp_plus, and_or, sp_plus]) doc);
          no_oxford = length (rx_finditer (cats [wchar U, lit (u '',''), sp_plus, wplus U, sp_plus, and_or, sp_plus]) doc);
          em_count = str_count [EM_DASH] doc;
          dh_count = length (rx_finditer (Alt (cats [wchar U, lit (u ''--''), wchar U]) (lit (u '' -- ''))) doc);
          curl = str_count [OPEN_Q] doc + str_count [CLOSE_Q] doc;
          straight = str_count [34] doc
      in (if 0 < oxford + no_oxford then [if no_oxford < oxford then 1 else 0] else [])
       @ (if 0 < em_count + dh_count then [if dh_count < em_count then 1 else 0] else [])
       @ (if 0 < curl + straight then [if straight < curl then 1 else 0] else []))"

section \<open>T2b: spelling\<close>

definition SPELLING_VARIANTS :: "(pystr \<times> pystr) list" where
  "SPELLING_VARIANTS = [
   (u ''color'', u ''colour''),
   (u ''favor'', u ''favour''),
   (u ''honor'', u ''honour''),
   (u ''humor'', u ''humour''),
   (u ''labor'', u ''labour''),
   (u ''neighbor'', u ''neighbour''),
   (u ''behavior'', u ''behaviour''),
   (u ''organization'', u ''organisation''),
   (u ''realize'', u ''realise''),
   (u ''analyze'', u ''analyse''),
   (u ''optimize'', u ''optimise''),
   (u ''authorize'', u ''authorise''),
   (u ''recognize'', u ''recognise''),
   (u ''customize'', u ''customise''),
   (u ''minimize'', u ''minimise''),
   (u ''maximize'', u ''maximise''),
   (u ''defense'', u ''defence''),
   (u ''offense'', u ''offence''),
   (u ''license'', u ''licence''),
   (u ''catalog'', u ''catalogue''),
   (u ''program'', u ''programme''),
   (u ''center'', u ''centre''),
   (u ''meter'', u ''metre''),
   (u ''fiber'', u ''fibre''),
   (u ''theater'', u ''theatre'')]"

definition spelling_lookup :: "ucd \<Rightarrow> pystr \<Rightarrow> (nat \<times> int) option" where
  "spelling_lookup U w =
     map_of (rev (concat (map (\<lambda>(si, am, br). [(py_lower U am, si, 0), (py_lower U br, si, 1)])
       (enumerate 0 SPELLING_VARIANTS)))) w"

definition sub_ci :: "ucd \<Rightarrow> pystr \<Rightarrow> pystr \<Rightarrow> pystr \<Rightarrow> pystr" where
  "sub_ci U other target doc = rx_sub (lit_ci U other) (\<lambda>m. case_preserve U target (group doc m 0)) doc"

fun spelling_loop :: "ucd \<Rightarrow> bytes \<Rightarrow> nat \<Rightarrow> (pystr \<times> pystr) list \<Rightarrow> pystr \<Rightarrow> pystr res" where
  "spelling_loop U mark_id si [] doc = Inr doc"
| "spelling_loop U mark_id si ((american, british) # vs) doc =
     ebind (bit_for mark_id (si + 8)) (\<lambda>bit.
       spelling_loop U mark_id (Suc si) vs
         (if bit \<noteq> 0 then sub_ci U american british doc else sub_ci U british american doc))"

definition embed_spelling :: "ucd \<Rightarrow> pystr \<Rightarrow> bytes \<Rightarrow> pystr res" where
  "embed_spelling U doc mark_id = spelling_loop U mark_id 0 SPELLING_VARIANTS doc"

definition extract_spelling_bits :: "ucd \<Rightarrow> pystr \<Rightarrow> (nat \<times> int) list" where
  "extract_spelling_bits U doc =
     concat (map (\<lambda>(_, _, w). case spelling_lookup U (py_lower U w) of Some e \<Rightarrow> [e] | None \<Rightarrow> []) (words U doc))"

section \<open>T2c: contractions\<close>

definition CONTRACTIONS :: "(pystr \<times> pystr) list" where
  "CONTRACTIONS = [
   (u ''don't'', u ''do not''),
   (u ''doesn't'', u ''does not''),
   (u ''didn't'', u ''did not''),
   (u ''won't'', u ''will not''),
   (u ''wouldn't'', u ''would not''),
   (u ''shouldn't'', u ''should not''),
   (u ''couldn't'', u ''could not''),
   (u ''isn't'', u ''is not''),
   (u ''aren't'', u ''are not''),
   (u ''wasn't'', u ''was not''),
   (u ''weren't'', u ''were not''),
   (u ''hasn't'', u ''has not''),
   (u ''haven't'', u ''have not''),
   (u ''hadn't'', u ''had not''),
   (u ''can't'', u ''cannot''),
   (u ''it's'', u ''it is''),
   (u ''that's'', u ''that is''),
   (u ''there's'', u ''there is''),
   (u ''they're'', u ''they are''),
   (u ''we're'', u ''we are''),
   (u ''you're'', u ''you are''),
   (u ''I'm'', u ''I am''),
   (u ''he's'', u ''he is''),
   (u ''she's'', u ''she is''),
   (u ''we've'', u ''we have''),
   (u ''they've'', u ''they have''),
   (u ''I've'', u ''I have''),
   (u ''you've'', u ''you have''),
   (u ''we'll'', u ''we will''),
   (u ''they'll'', u ''they will'')]"

fun contraction_loop :: "ucd \<Rightarrow> bytes \<Rightarrow> nat \<Rightarrow> (pystr \<times> pystr) list \<Rightarrow> pystr \<Rightarrow> pystr res" where
  "contraction_loop U mark_id ci [] doc = Inr doc"
| "contraction_loop U mark_id ci ((contracted, expanded) # cs) doc =
     ebind (bit_for mark_id (ci + 40)) (\<lambda>bit.
       contraction_loop U mark_id (Suc ci) cs
         (if bit \<noteq> 0 then sub_ci U contracted expanded doc else sub_ci U expanded contracted doc))"

definition embed_contractions :: "ucd \<Rightarrow> pystr \<Rightarrow> bytes \<Rightarrow> pystr res" where
  "embed_contractions U doc mark_id = contraction_loop U mark_id 0 CONTRACTIONS doc"

definition extract_contraction_bits :: "ucd \<Rightarrow> pystr \<Rightarrow> (nat \<times> int) list" where
  "extract_contraction_bits U doc =
     (let lower = py_lower U doc in
      concat (map (\<lambda>(ci, contracted, expanded).
        let has_contracted = contains (py_lower U contracted) lower;
            has_expanded = contains (py_lower U expanded) lower
        in if has_contracted \<and> \<not> has_expanded then [(ci, 0)]
           else if has_expanded \<and> \<not> has_contracted then [(ci, 1)] else [])
        (enumerate 0 CONTRACTIONS)))"

section \<open>T2d: numbers\<close>

text \<open>The parts of \<open>_add_commas\<close>, the last three digits first.\<close>

function comma_parts :: "pystr \<Rightarrow> pystr list" where
  "comma_parts n =
     (if 3 < length n then drop (length n - 3) n # comma_parts (take (length n - 3) n) else [n])"
  by pat_completeness auto
termination by (relation "measure length") auto

declare comma_parts.simps [simp del]

definition add_commas :: "pystr \<Rightarrow> pystr" where
  "add_commas n =
     (if 4 \<le> length n \<and> 44 \<notin> set n then join (u '','') (rev (comma_parts n)) else n)"

definition dchar :: "ucd \<Rightarrow> rx" where "dchar U = Chr (digit_char U)"

definition mark_thousands :: "ucd \<Rightarrow> int \<Rightarrow> pystr \<Rightarrow> pystr" where
  "mark_thousands U b0 doc =
     (if b0 \<noteq> 0 then
        rx_sub (cats [bnd U, at_least 4 (dchar U), bnd U]) (\<lambda>m. add_commas (group doc m 0)) doc
      else
        rx_sub (cats [Grp 1 (dchar U), lit (u '',''), Grp 2 (times 3 (dchar U))])
          (\<lambda>m. group doc m 1 @ group doc m 2) doc)"

definition mark_percent :: "ucd \<Rightarrow> int \<Rightarrow> pystr \<Rightarrow> pystr" where
  "mark_percent U b1 doc =
     (if b1 \<noteq> 0 then
        rx_sub (cats [Grp 1 (plus (dchar U)), star (Chr is_space), lit (u ''%'')])
          (\<lambda>m. group doc m 1 @ u '' percent'') doc
      else
        rx_sub (cats [Grp 1 (plus (dchar U)), sp_plus, lit_ci U (u ''percent''), bnd U])
          (\<lambda>m. group doc m 1 @ u ''%'') doc)"

definition embed_number_format :: "ucd \<Rightarrow> pystr \<Rightarrow> bytes \<Rightarrow> pystr res" where
  "embed_number_format U doc mark_id =
     ebind (bit_for mark_id 72) (\<lambda>b0.
     ebind (bit_for mark_id 73) (\<lambda>b1.
       Inr (mark_percent U b1 (mark_thousands U b0 doc))))"

section \<open>T1, second version\<close>

text \<open>
  The variant that replaces a word: the wanted one, or one of the next two when it has a blank;
  nothing when all have.
\<close>

definition pick_variant :: "pystr list \<Rightarrow> nat \<Rightarrow> pystr option" where
  "pick_variant vs target =
     (let n = length vs; t0 = target mod n;
          t1 = (if 32 \<in> set (vs ! t0) then (t0 + 1) mod n else t0);
          t2 = (if 32 \<in> set (vs ! t0) \<and> 32 \<in> set (vs ! t1) then (t1 + 1) mod n else t1)
      in if 32 \<in> set (vs ! t2) then None else Some (vs ! t2))"

definition embed_synonyms_v2 :: "ucd \<Rightarrow> pystr \<Rightarrow> bytes \<Rightarrow> nat \<Rightarrow> pystr" where
  "embed_synonyms_v2 U doc mark_id min_instances =
     (let ms = iter_matchable_words U doc in
      if length ms < min_instances then doc
      else splice doc 0
        (map (\<lambda>((a, b, w, ci, _, _), target_vi).
               (a, b, case pick_variant (variants (ALL_CLASSES ! ci)) target_vi of
                        Some v \<Rightarrow> case_preserve U v w | None \<Rightarrow> w))
          (zip ms (variant_sequence mark_id (length ms) 3))))"

definition verify_synonyms_v2 :: "ucd \<Rightarrow> pystr \<Rightarrow> bytes \<Rightarrow> rat \<Rightarrow> bool \<times> rat" where
  "verify_synonyms_v2 U doc candidate threshold =
     (let actual = map (\<lambda>(_, _, _, ci, vi, _). (ci, vi)) (iter_matchable_words U (strip_zw doc)) in
      if actual = [] then (False, 0)
      else
        let expected = variant_sequence candidate (length actual) 3;
            hits = length (filter (\<lambda>((ci, vi), e).
              let vs = variants (ALL_CLASSES ! ci); exp_idx = e mod length vs
              in 32 \<in> set (vs ! exp_idx) \<or> exp_idx = vi) (zip actual expected));
            counted = length (zip actual expected);
            score = (if counted \<noteq> 0 then of_nat hits / of_nat counted else 0)
        in (threshold \<le> score, score))"

section \<open>The combined layer\<close>

definition apply_semantic :: "ucd \<Rightarrow> pystr \<Rightarrow> bytes \<Rightarrow> bool \<Rightarrow> pystr res" where
  "apply_semantic U doc mark_id use_v2 =
     ebind (embed_punctuation U
        (if use_v2 then embed_synonyms_v2 U doc mark_id 8 else embed_synonyms U doc mark_id 8) mark_id) (\<lambda>t1.
     ebind (embed_spelling U t1 mark_id) (\<lambda>t2.
     ebind (embed_contractions U t2 mark_id) (\<lambda>t3.
       embed_number_format U t3 mark_id)))"

record semantic_verdict =
  synonyms_match :: bool
  synonyms_score :: rat
  punctuation_score :: rat
  punctuation_hits :: "nat \<times> nat"
  spelling_score :: rat
  spelling_hits :: "nat \<times> nat"
  contraction_score :: rat
  contraction_hits :: "nat \<times> nat"
  weighted_score :: rat
  overall_match :: bool
  dict_version :: pystr

definition ratio :: "nat \<Rightarrow> nat \<Rightarrow> rat" where
  "ratio hits whole = (if whole \<noteq> 0 then of_nat hits / of_nat whole else 0)"

text \<open>How many of the observed bits are those of the candidate, read at an offset.\<close>

definition bit_hits :: "bytes \<Rightarrow> nat \<Rightarrow> (nat \<times> int) list \<Rightarrow> nat res" where
  "bit_hits candidate offset bits =
     ebind (mapM_res (\<lambda>(i, b). ebind (bit_for candidate (i + offset)) (\<lambda>e. Inr (b = e))) bits)
       (\<lambda>hits. Inr (length (filter id hits)))"

definition weighted :: "rat \<Rightarrow> rat \<times> nat \<Rightarrow> rat \<times> nat \<Rightarrow> rat \<times> nat \<Rightarrow> rat" where
  "weighted syn punct spell contract =
     (let parts = [(syn, 1 / 2)]
            @ (if snd punct \<noteq> 0 then [(fst punct, 1 / 10)] else [])
            @ (if snd spell \<noteq> 0 then [(fst spell, 1 / 5)] else [])
            @ (if snd contract \<noteq> 0 then [(fst contract, 1 / 5)] else []);
          active = sum_list (map snd parts)
      in if 0 < active then sum_list (map (\<lambda>(s, w). s * w) parts) / active else syn)"

definition verify_semantic :: "ucd \<Rightarrow> pystr \<Rightarrow> bytes \<Rightarrow> bool \<Rightarrow> semantic_verdict res" where
  "verify_semantic U doc candidate use_v2 =
     (let (syn_match, syn_score) =
            (if use_v2 then verify_synonyms_v2 U doc candidate (7 / 10)
             else verify_synonyms_match U doc candidate (7 / 10));
          punct_bits = extract_punctuation_bits U doc;
          spelling_bits = extract_spelling_bits U doc;
          contraction_bits = extract_contraction_bits U doc
      in ebind (mapM_res (bit_for candidate) [0, 1, 2]) (\<lambda>expected_punct.
         ebind (bit_hits candidate 8 spelling_bits) (\<lambda>s_hits.
         ebind (bit_hits candidate 40 contraction_bits) (\<lambda>c_hits.
           let p_hits = length (filter (\<lambda>(a, b). a = b) (zip punct_bits expected_punct));
               p_total = length punct_bits;
               s_total = length spelling_bits;
               c_total = length contraction_bits;
               w = weighted syn_score (ratio p_hits p_total, p_total) (ratio s_hits s_total, s_total)
                     (ratio c_hits c_total, c_total)
           in Inr \<lparr>synonyms_match = syn_match, synonyms_score = syn_score,
                punctuation_score = ratio p_hits p_total, punctuation_hits = (p_hits, p_total),
                spelling_score = ratio s_hits s_total, spelling_hits = (s_hits, s_total),
                contraction_score = ratio c_hits c_total, contraction_hits = (c_hits, c_total),
                weighted_score = w, overall_match = 65 / 100 \<le> w,
                dict_version = (if use_v2 then u ''v2'' else u ''v1'')\<rparr>))))"

section \<open>What v1 verification expects\<close>

lemma variant_loop_length:
  "length out \<le> n \<Longrightarrow> length (variant_loop m n k out ctr) = n"
proof (induction m n k out ctr rule: variant_loop.induct)
  case (1 m n k out ctr)
  then show ?case by (subst variant_loop.simps) auto
qed

lemma length_variant_sequence [simp]: "length (variant_sequence m n k) = n"
  by (simp add: variant_sequence_def variant_loop_length)

lemma mod_block_bound: "0 < k \<Longrightarrow> v \<in> set (take i (map (\<lambda>b. unat b mod k) xs)) \<Longrightarrow> v < k"
  by (auto dest!: in_set_takeD)

lemma variant_loop_bound:
  "0 < k \<Longrightarrow> (\<And>v. v \<in> set out \<Longrightarrow> v < k) \<Longrightarrow> v \<in> set (variant_loop m n k out ctr) \<Longrightarrow> v < k"
proof (induction m n k out ctr rule: variant_loop.induct)
  case (1 m n k out ctr)
  show ?case
  proof (cases "length out < n")
    case True
    let ?out = "out @ take (n - length out) (map (\<lambda>b. unat b mod k) (sha256 (m @ be32 ctr)))"
    have "v < k" if "v \<in> set ?out" for v
    proof -
      have "v \<in> set out \<or> v \<in> set (take (n - length out) (map (\<lambda>b. unat b mod k) (sha256 (m @ be32 ctr))))"
        using that by (simp only: set_append Un_iff)
      then show ?thesis using "1.prems"(1,2) mod_block_bound by blast
    qed
    moreover have "variant_loop m n k out ctr = variant_loop m n k ?out (Suc ctr)"
      using True by (subst variant_loop.simps) simp
    ultimately show ?thesis using "1.IH" [OF True] "1.prems"(1,3) by metis
  next
    case False
    then have "variant_loop m n k out ctr = out" by (subst variant_loop.simps) simp
    then show ?thesis using "1.prems"(2,3) by metis
  qed
qed

lemma variant_sequence_bound: "0 < k \<Longrightarrow> v \<in> set (variant_sequence m n k) \<Longrightarrow> v < k"
  unfolding variant_sequence_def by (rule variant_loop_bound) simp_all

definition lower_word :: "pystr \<Rightarrow> bool" where
  "lower_word w \<longleftrightarrow> w \<noteq> [] \<and> list_all is_lower_letter w"

lemma lower_ascii [simp]: "lower_word w \<Longrightarrow> map ascii_lower w = w"
  by (auto simp: lower_word_def list_all_iff is_lower_letter_def ascii_lower_def intro!: map_idI)

lemma v1_classes: "cls \<in> set SYNONYM_CLASSES \<Longrightarrow> length cls = 3 \<and> (\<forall>w\<in>set cls. lower_word w)"
proof -
  have "list_all (\<lambda>c. length c = 3 \<and> list_all lower_word c) SYNONYM_CLASSES"
    by (simp add: SYNONYM_CLASSES_def u_def is_lower_letter_def lower_word_def)
  then show "cls \<in> set SYNONYM_CLASSES \<Longrightarrow> length cls = 3 \<and> (\<forall>w\<in>set cls. lower_word w)"
    by (simp add: list_all_iff)
qed

lemma v1_distinct: "distinct (concat SYNONYM_CLASSES)"
  by (simp add: SYNONYM_CLASSES_def)

lemma fst_enumerated:
  "map fst (concat (map (\<lambda>(ci, cls). map (\<lambda>(vi, w). (f w, ci, vi)) (enumerate 0 cls)) (enumerate k L)))
     = map f (concat L)"
proof (induction L arbitrary: k)
  case (Cons c L)
  have "map (fst \<circ> (\<lambda>(vi, w). (f w, k, vi))) (enumerate 0 c) = map f c"
    by (rule nth_equalityI) (simp_all add: nth_enumerate_eq)
  then show ?case using Cons by simp
qed simp

lemma v1_keys: "map fst v1_entries = concat SYNONYM_CLASSES"
proof -
  have "map (map ascii_lower) (concat SYNONYM_CLASSES) = concat SYNONYM_CLASSES"
    using v1_classes by (intro map_idI lower_ascii) auto
  then show ?thesis unfolding v1_entries_def fst_enumerated .
qed

lemma synonym_lookup_variant:
  assumes "ci < length SYNONYM_CLASSES" "vi < 3"
  shows "synonym_lookup (SYNONYM_CLASSES ! ci ! vi) = Some (ci, vi)"
proof -
  let ?c = "SYNONYM_CLASSES ! ci"
  have c: "?c \<in> set SYNONYM_CLASSES" using assms by simp
  then have "length ?c = 3" "\<forall>w\<in>set ?c. lower_word w" using v1_classes by blast+
  then have l: "lower_word (?c ! vi)" "length ?c = 3" using assms(2) by simp_all
  have "(ci, ?c) \<in> set (enumerate 0 SYNONYM_CLASSES)" "(vi, ?c ! vi) \<in> set (enumerate 0 ?c)"
    using assms l by (simp_all add: in_set_enumerate_eq)
  then have "(map ascii_lower (?c ! vi), ci, vi) \<in> set v1_entries"
    unfolding v1_entries_def by force
  then have "(?c ! vi, ci, vi) \<in> set (rev v1_entries)" using l by simp
  moreover have "distinct (map fst (rev v1_entries))" using v1_distinct by (simp add: rev_map [symmetric] v1_keys)
  ultimately show ?thesis unfolding synonym_lookup_def by (rule map_of_is_SomeI [rotated])
qed

lemma synonym_lookup_sound:
  assumes "synonym_lookup w = Some (ci, vi)"
  shows "ci < length SYNONYM_CLASSES \<and> vi < 3 \<and> SYNONYM_CLASSES ! ci ! vi = w"
proof -
  have "(w, ci, vi) \<in> set v1_entries" using assms by (auto simp: synonym_lookup_def dest: map_of_SomeD)
  then obtain cls where c: "(ci, cls) \<in> set (enumerate 0 SYNONYM_CLASSES)" "(vi, cls ! vi) \<in> set (enumerate 0 cls)"
    "w = map ascii_lower (cls ! vi)"
    by (auto simp: v1_entries_def in_set_enumerate_eq)
  then have "cls \<in> set SYNONYM_CLASSES" by (auto simp: in_set_enumerate_eq)
  then show ?thesis using c v1_classes [of cls] by (auto simp: in_set_enumerate_eq)
qed

lemma letters_case:
  "all_letters w \<Longrightarrow> all_ascii w"
  by (auto simp: all_letters_def all_ascii_def list_all_iff is_letter_def is_lower_letter_def is_upper_letter_def)

lemma case_preserve_letters:
  assumes "lower_word v" "all_letters w"
  shows "all_letters (case_preserve U v w) \<and> case_preserve U v w \<noteq> []
    \<and> py_lower U (case_preserve U v w) = v"
proof -
  have lv: "list_all is_lower_letter v" "v \<noteq> []" using assms(1) by (simp_all add: lower_word_def)
  have ascii: "list_all is_lower_letter s \<Longrightarrow> all_ascii s" for s
    by (auto simp: all_ascii_def list_all_iff is_lower_letter_def)
  have c: "ascii_lower (ascii_upper x) = x \<and> ascii_upper x < 128 \<and> is_letter (ascii_upper x)" if "is_lower_letter x" for x
    using that by (auto simp: is_letter_def is_lower_letter_def is_upper_letter_def ascii_lower_def ascii_upper_def)
  have up: "list_all is_lower_letter s \<Longrightarrow> all_letters (map ascii_upper s) \<and> map ascii_lower (map ascii_upper s) = s
      \<and> all_ascii (map ascii_upper s)" for s
    using c by (auto simp: all_ascii_def all_letters_def list_all_iff intro!: map_idI)
  have low: "all_letters v" "map ascii_lower v = v"
    using lv assms(1) by (auto simp: all_letters_def list_all_iff is_letter_def)
  obtain c s where v: "v = c # s" using lv by (cases v) auto
  have t: "list_all is_lower_letter [c]" "list_all is_lower_letter s" using lv v by simp_all
  have "all_letters (map ascii_upper [c] @ s) \<and> map ascii_lower (map ascii_upper [c] @ s) = v
      \<and> all_ascii (map ascii_upper [c] @ s)"
    using up [OF t(1)] t(2) ascii [OF t(2)] lower_ascii [of "c # s"] v assms(1)
    by (auto simp: all_letters_def all_ascii_def list_all_iff is_letter_def)
  then show ?thesis
    using up [OF lv(1)] low lv ascii [OF lv(1)] ascii [OF t(1)] v
    by (auto simp: case_preserve_def py_lower_def py_upper_def)
qed

text \<open>The words the v1 table knows, and what becomes of one.\<close>

definition v1_key :: "ucd \<Rightarrow> pystr \<Rightarrow> (nat \<times> nat) option" where
  "v1_key U w = synonym_lookup (py_lower U w)"

definition v1_word :: "ucd \<Rightarrow> pystr \<Rightarrow> bool" where
  "v1_word U w \<longleftrightarrow> all_letters w \<and> v1_key U w \<noteq> None"

definition v1_swap :: "ucd \<Rightarrow> pystr \<Rightarrow> nat \<Rightarrow> pystr" where
  "v1_swap U w v = case_preserve U (SYNONYM_CLASSES ! fst (the (v1_key U w)) ! (v mod 3)) w"

lemma v1_matches_spans:
  "v1_matches U doc = map (\<lambda>(a, b, w). (a, b, fst (the (v1_key U w)), snd (the (v1_key U w)), w))
     (filter (\<lambda>(a, b, w). v1_word U w) (spans 0 (runs (word_char U) doc)))"
proof -
  have "concat (map (\<lambda>(a, b, w). case synonym_lookup (py_lower U w) of
         Some (ci, vi) \<Rightarrow> [(a, b, ci, vi, w)] | None \<Rightarrow> []) (filter (\<lambda>(a, b, w). all_letters w) xs))
    = map (\<lambda>(a, b, w). (a, b, fst (the (v1_key U w)), snd (the (v1_key U w)), w))
     (filter (\<lambda>(a, b, w). v1_word U w) xs)" for xs :: "(nat \<times> nat \<times> pystr) list"
    by (induction xs) (auto simp: v1_word_def v1_key_def split: option.splits)
  then show ?thesis by (simp add: v1_matches_def words_def)
qed

lemma v1_pairs:
  "map (\<lambda>(_, _, ci, vi, _). (ci, vi)) (v1_matches U doc)
     = map (\<lambda>w. the (v1_key U w)) (filter (v1_word U) (runs (word_char U) doc))"
proof -
  have "map (\<lambda>(_, _, ci, vi, _). (ci, vi)) (v1_matches U doc)
      = map (\<lambda>w. the (v1_key U w)) (map (\<lambda>(a, b, w). w)
          (filter (\<lambda>(a, b, w). v1_word U w) (spans 0 (runs (word_char U) doc))))"
    by (simp add: v1_matches_spans case_prod_beta)
  then show ?thesis by (simp only: filter_spans)
qed

lemma v1_swap_key:
  assumes "v1_word U w"
  shows "all_letters (v1_swap U w v) \<and> v1_swap U w v \<noteq> []
    \<and> v1_key U (v1_swap U w v) = Some (fst (the (v1_key U w)), v mod 3)"
proof -
  obtain ci vi where k: "v1_key U w = Some (ci, vi)" using assms by (auto simp: v1_word_def)
  then have ci: "ci < length SYNONYM_CLASSES" using synonym_lookup_sound by (simp add: v1_key_def)
  then have "SYNONYM_CLASSES ! ci \<in> set SYNONYM_CLASSES" by simp
  then have "length (SYNONYM_CLASSES ! ci) = 3" "\<forall>w\<in>set (SYNONYM_CLASSES ! ci). lower_word w"
    using v1_classes by blast+
  then have "lower_word (SYNONYM_CLASSES ! ci ! (v mod 3))" by simp
  then show ?thesis
    using case_preserve_letters [of _ w U] assms synonym_lookup_variant [OF ci, of "v mod 3"] k
    by (simp add: v1_swap_def v1_word_def v1_key_def)
qed

lemma v1_class_size: "v1_word U w \<Longrightarrow> length (SYNONYM_CLASSES ! fst (the (v1_key U w))) = 3"
proof -
  assume "v1_word U w"
  then obtain ci vi where k: "v1_key U w = Some (ci, vi)" by (auto simp: v1_word_def)
  then have "SYNONYM_CLASSES ! ci \<in> set SYNONYM_CLASSES"
    using synonym_lookup_sound by (simp add: v1_key_def)
  then show ?thesis using v1_classes k by simp
qed

lemma embed_synonyms_subst:
  assumes "min_instances \<le> length (filter (v1_word U) (runs (word_char U) doc))"
  shows "embed_synonyms U doc m min_instances = concat (subst (v1_word U) (v1_swap U)
     (variant_sequence m (length (filter (v1_word U) (runs (word_char U) doc))) 3) (runs (word_char U) doc))"
proof -
  let ?rs = "runs (word_char U) doc"
  let ?n = "length (filter (v1_word U) ?rs)"
  let ?vs = "variant_sequence m ?n 3"
  have "map (\<lambda>((a, b, ci, _, w), target_vi).
               let cls = SYNONYM_CLASSES ! ci in (a, b, case_preserve U (cls ! (target_vi mod length cls)) w))
          (zip (map (\<lambda>(a, b, w). (a, b, fst (the (v1_key U w)), snd (the (v1_key U w)), w)) xs) vs)
      = map (\<lambda>((a, b, w), v). (a, b, v1_swap U w v)) (zip xs vs)"
    if "\<forall>(a, b, w)\<in>set xs. v1_word U w" for xs vs
    using that v1_class_size
    by (induction xs vs rule: list_induct2') (auto simp: v1_swap_def Let_def)
  note m = this [of "filter (\<lambda>(a, b, w). v1_word U w) (spans 0 ?rs)" ?vs]
  have len: "length (v1_matches U doc) = ?n" by (simp add: v1_matches_spans)
  have "embed_synonyms U doc m min_instances = splice doc 0
     (map (\<lambda>((a, b, w), v). (a, b, v1_swap U w v)) (zip (filter (\<lambda>(a, b, w). v1_word U w) (spans 0 ?rs)) ?vs))"
    using assms m unfolding embed_synonyms_def len by (simp add: Let_def v1_matches_spans case_prod_beta)
  then show ?thesis
    using splice_spans [of 0 "[]" ?vs "v1_word U" ?rs "v1_swap U"] by simp
qed

lemma v1_word_nonempty: "\<not> v1_word U []"
proof
  assume "v1_word U []"
  then obtain ci vi where k: "synonym_lookup [] = Some (ci, vi)"
    by (auto simp: v1_word_def v1_key_def py_lower_def all_ascii_def)
  then have "SYNONYM_CLASSES ! ci \<in> set SYNONYM_CLASSES" "vi < 3" "SYNONYM_CLASSES ! ci ! vi = []"
    using synonym_lookup_sound [OF k] by simp_all
  then show False using v1_classes [of "SYNONYM_CLASSES ! ci"] by (auto simp: lower_word_def in_set_conv_nth)
qed

lemma runs_embed_synonyms:
  assumes "length vs = length (filter (v1_word U) (runs (word_char U) doc))"
  shows "runs (word_char U) (concat (subst (v1_word U) (v1_swap U) vs (runs (word_char U) doc)))
    = subst (v1_word U) (v1_swap U) vs (runs (word_char U) doc)"
proof (rule runs_concat)
  have letters: "all_letters w \<Longrightarrow> list_all (\<lambda>c. word_char U c) w" for w
    by (auto simp: all_letters_def list_all_iff word_char_def is_letter_def is_lower_letter_def is_upper_letter_def)
  show "alternating (word_char U) (word_char U (hd doc))
     (subst (v1_word U) (v1_swap U) vs (runs (word_char U) doc))"
  proof (rule alternating_subst [OF alternating_runs])
    fix r v assume r: "v1_word U r"
    then have w: "all_letters (v1_swap U r v)" "v1_swap U r v \<noteq> []" "all_letters r"
      using v1_swap_key by (auto simp: v1_word_def)
    have "b" if "list_all (\<lambda>c. word_char U c = b) r" "r \<noteq> []" for b
      using that letters [OF w(3)] by (cases r) auto
    note b = this
    have ne: "r \<noteq> []" using r v1_word_nonempty by blast
    show "v1_swap U r v \<noteq> [] \<and> (\<forall>b. list_all (\<lambda>c. word_char U c = b) r \<longrightarrow>
        list_all (\<lambda>c. word_char U c = b) (v1_swap U r v))"
    proof (intro conjI allI impI)
      fix b assume "list_all (\<lambda>c. word_char U c = b) r"
      then have "b" using b ne by blast
      then show "list_all (\<lambda>c. word_char U c = b) (v1_swap U r v)" using letters [OF w(1)] by simp
    qed (rule w(2))
  qed
qed

lemma strip_zw_id: "(\<And>c. c \<in> set s \<Longrightarrow> c \<notin> set ZW_CHARS) \<Longrightarrow> strip_zw s = s"
  by (auto simp: strip_zw_def ZW_CHARS_def remove_char_def filter_id_conv)

lemma set_concat_subst:
  "c \<in> set (concat (subst P g vs rs)) \<Longrightarrow> c \<in> set (concat rs) \<or> (\<exists>r v. P r \<and> c \<in> set (g r v))"
proof (induction rs arbitrary: vs)
  case (Cons r rs)
  show ?case
  proof (cases "P r \<and> vs \<noteq> []")
    case True
    then obtain v vs' where vs: "vs = v # vs'" by (cases vs) auto
    then have "c \<in> set (g r v) \<or> c \<in> set (concat (subst P g vs' rs))" using Cons.prems True by simp
    then show ?thesis using Cons.IH [of vs'] True by auto
  next
    case False
    then have "c \<in> set r \<or> c \<in> set (concat rs) \<or> c \<in> set (concat (subst P g vs rs))"
      using Cons.prems by (cases vs) (auto split: if_splits)
    then show ?thesis using Cons.IH [of vs] by auto
  qed
qed simp

lemma v1_swap_pairs:
  assumes "list_all (v1_word U) ws" "vs = variant_sequence mark n 3"
  shows "map (\<lambda>w. the (v1_key U w)) (map2 (v1_swap U) ws vs) = map (\<lambda>(w, v). (fst (the (v1_key U w)), v)) (zip ws vs)"
proof -
  have "the (v1_key U (v1_swap U w v)) = (fst (the (v1_key U w)), v)" if z: "(w, v) \<in> set (zip ws vs)" for w v
  proof -
    have "v1_word U w" using set_zip_leftD [OF z] assms(1) by (simp add: list_all_iff)
    then have "the (v1_key U (v1_swap U w v)) = (fst (the (v1_key U w)), v mod 3)"
      using v1_swap_key by (metis option.sel)
    moreover have "v < 3" using variant_sequence_bound [OF _ set_zip_rightD [OF z [unfolded assms(2)]]] by simp
    ultimately show ?thesis by (metis mod_less)
  qed
  then show ?thesis unfolding map_map by (intro map_cong [OF refl]) auto
qed

lemma v1_pairs_hit:
  assumes "list_all (v1_word U) ws" "vs = variant_sequence mark (length ws) 3"
  shows "filter (\<lambda>((ci, vi), e). e mod length (SYNONYM_CLASSES ! ci) = vi)
      (zip (map (\<lambda>(w, v). (fst (the (v1_key U w)), v)) (zip ws vs)) vs)
    = zip (map (\<lambda>(w, v). (fst (the (v1_key U w)), v)) (zip ws vs)) vs" (is "filter ?hit ?pairs = _")
proof (rule filter_True, rule ballI)
  fix x assume "x \<in> set ?pairs"
  then obtain i where i: "i < length ws" "x = ((fst (the (v1_key U (ws ! i))), vs ! i), vs ! i)"
    unfolding assms(2) by (auto simp: in_set_conv_nth)
  have "v1_word U (ws ! i)" using assms(1) i(1) by (simp add: list_all_iff)
  moreover have "vs ! i < 3" unfolding assms(2) by (rule variant_sequence_bound [OF _ nth_mem]) (use i(1) in simp_all)
  ultimately show "?hit x" unfolding i(2) by (simp add: v1_class_size)
qed

text \<open>
  The first version's embedding is what its verification looks for. A text without zero-width
  characters that has enough table words comes back from verification with the mark used, with full
  score at every threshold up to one; a text that has too few is unchanged.
\<close>
theorem v1_embed_verifies:
  assumes "\<And>c. c \<in> set doc \<Longrightarrow> c \<notin> set ZW_CHARS" "threshold \<le> 1" "0 < min_instances"
  shows "if length (v1_matches U doc) < min_instances then embed_synonyms U doc mark min_instances = doc
    else verify_synonyms_match U (embed_synonyms U doc mark min_instances) mark threshold = (True, 1)"
proof (cases "length (v1_matches U doc) < min_instances")
  case True
  then show ?thesis by (simp add: embed_synonyms_def Let_def)
next
  case False
  let ?rs = "runs (word_char U) doc"
  let ?ws = "filter (v1_word U) ?rs"
  let ?n = "length ?ws"
  let ?vs = "variant_sequence mark ?n 3"
  let ?out = "concat (subst (v1_word U) (v1_swap U) ?vs ?rs)"
  have n: "length (v1_matches U doc) = ?n" by (simp add: v1_matches_spans)
  have out: "embed_synonyms U doc mark min_instances = ?out"
    using False n by (intro embed_synonyms_subst) simp
  have pos: "0 < ?n" using False n assms(3) by linarith
  have ascii: "c \<notin> set ZW_CHARS" if "v1_word U w" "c \<in> set (v1_swap U w v)" for c w v
  proof -
    have "is_letter c" using v1_swap_key [OF that(1), of v] that(2) by (simp add: all_letters_def list_all_iff)
    then show ?thesis by (auto simp: is_letter_def is_lower_letter_def is_upper_letter_def ZW_CHARS_def)
  qed
  have "c \<notin> set ZW_CHARS" if "c \<in> set ?out" for c
    using set_concat_subst [OF that] assms(1) ascii by auto
  then have strip: "strip_zw ?out = ?out" by (rule strip_zw_id)
  have "filter (v1_word U) (runs (word_char U) ?out) = map2 (v1_swap U) ?ws ?vs"
    unfolding runs_embed_synonyms [OF length_variant_sequence]
    by (rule filter_subst) (use v1_swap_key in \<open>auto simp: v1_word_def\<close>)
  then have "map (\<lambda>(_, _, ci, vi, _). (ci, vi)) (v1_matches U ?out)
      = map (\<lambda>w. the (v1_key U w)) (map2 (v1_swap U) ?ws ?vs)"
    by (simp only: v1_pairs)
  also have "\<dots> = map (\<lambda>(w, v). (fst (the (v1_key U w)), v)) (zip ?ws ?vs)"
    by (rule v1_swap_pairs) (simp_all add: list_all_iff)
  finally have actual: "map (\<lambda>(_, _, ci, vi, _). (ci, vi)) (v1_matches U ?out)
      = map (\<lambda>(w, v). (fst (the (v1_key U w)), v)) (zip ?ws ?vs)" .
  note v1_pairs_hit [of U ?ws ?vs mark]
  moreover have "?vs \<noteq> []" using pos by (metis length_variant_sequence length_greater_0_conv)
  ultimately show ?thesis unfolding out verify_synonyms_match_def strip actual using False pos assms(2)
    by (simp add: Let_def list_all_iff)
qed
section \<open>What the v2 embedding may change\<close>

text \<open>The words of a text the second version may use, with their place.\<close>

definition v2_word :: "ucd \<Rightarrow> (nat \<Rightarrow> bool) \<Rightarrow> nat \<times> nat \<times> pystr \<Rightarrow> bool" where
  "v2_word U masked s \<longleftrightarrow> (case s of (a, b, w) \<Rightarrow>
     all_letters w \<and> usable_word U masked a b w \<and> v2_lookup (py_lower U w) \<noteq> None)"

definition v2_swap :: "ucd \<Rightarrow> pystr \<Rightarrow> nat \<Rightarrow> pystr" where
  "v2_swap U w target =
     (case pick_variant (variants (ALL_CLASSES ! fst (the (v2_lookup (py_lower U w))))) target of
        Some v \<Rightarrow> case_preserve U v w | None \<Rightarrow> w)"

lemma iter_matchable_spans:
  "iter_matchable_words U doc = map (\<lambda>(a, b, w). (a, b, w, the (v2_lookup (py_lower U w))))
     (filter (v2_word U (skip_mask U doc)) (spans 0 (runs (word_char U) doc)))"
proof -
  have "concat (map (\<lambda>(a, b, word).
           if usable_word U masked a b word then
             (case v2_lookup (py_lower U word) of Some e \<Rightarrow> [(a, b, word, e)] | None \<Rightarrow> [])
           else []) (filter (\<lambda>(a, b, w). all_letters w) xs))
    = map (\<lambda>(a, b, w). (a, b, w, the (v2_lookup (py_lower U w)))) (filter (v2_word U masked) xs)"
    for xs :: "(nat \<times> nat \<times> pystr) list" and masked
    by (induction xs) (auto simp: v2_word_def split: option.splits if_splits)
  then show ?thesis by (simp add: iter_matchable_words_def words_def)
qed

lemma pick_variant_in: "vs \<noteq> [] \<Longrightarrow> pick_variant vs i = Some v \<Longrightarrow> v \<in> set vs \<and> 32 \<notin> set v"
  by (auto simp: pick_variant_def Let_def split: if_splits)

lemma embed_synonyms_v2_subst:
  assumes "min_instances \<le> length (iter_matchable_words U doc)"
  shows "\<exists>vs. embed_synonyms_v2 U doc m min_instances = concat (map (snd \<circ> snd)
     (subst (v2_word U (skip_mask U doc)) (\<lambda>(a, b, w) v. (a, b, v2_swap U w v)) vs (spans 0 (runs (word_char U) doc))))"
proof -
  let ?sp = "filter (v2_word U (skip_mask U doc)) (spans 0 (runs (word_char U) doc))"
  let ?vs = "variant_sequence m (length ?sp) 3"
  have "map (\<lambda>((a, b, w, ci, _, _), target_vi).
               (a, b, case pick_variant (variants (ALL_CLASSES ! ci)) target_vi of
                        Some v \<Rightarrow> case_preserve U v w | None \<Rightarrow> w))
          (zip (map (\<lambda>(a, b, w). (a, b, w, the (v2_lookup (py_lower U w)))) xs) vs)
      = map (\<lambda>((a, b, w), v). (a, b, v2_swap U w v)) (zip xs vs)" for xs vs
  proof (induction xs vs rule: list_induct2')
    case (4 x xs v vs)
    obtain a b w where x: "x = (a, b, w)" by (cases x)
    obtain ci vi p where "the (v2_lookup (py_lower U w)) = (ci, vi, p)" by (metis prod_cases3)
    then show ?case using 4 by (simp add: x v2_swap_def)
  qed simp_all
  note m = this [of ?sp ?vs]
  have "embed_synonyms_v2 U doc m min_instances
     = splice doc 0 (map (\<lambda>((a, b, w), v). (a, b, v2_swap U w v)) (zip ?sp ?vs))"
    using assms m unfolding embed_synonyms_v2_def iter_matchable_spans Let_def by simp
  moreover have "length ?vs = length ?sp" by simp
  ultimately show ?thesis
    using splice_spans_at [of 0 "[]" ?vs "v2_word U (skip_mask U doc)" "runs (word_char U) doc" "v2_swap U"] by auto
qed

text \<open>
  The exchange of a word \<open>w\<close> at \<open>a\<close> for \<open>w'\<close> the production embedding allows itself.
\<close>

definition allowed_swap :: "ucd \<Rightarrow> pystr \<Rightarrow> nat \<Rightarrow> pystr \<Rightarrow> pystr \<Rightarrow> bool" where
  "allowed_swap U doc a w w' \<longleftrightarrow>
     all_letters w \<and> usable_word U (skip_mask U doc) a (a + length w) w
     \<and> (case v2_lookup (py_lower U w) of
          None \<Rightarrow> False
        | Some (ci, vi, p) \<Rightarrow>
            list_ex (\<lambda>v. 32 \<notin> set v \<and> w' = case_preserve U v w) (variants (ALL_CLASSES ! ci)))"

lemma v2_swap_allowed:
  assumes "v2_word U (skip_mask U doc) (a, a + length w, w)" "v2_swap U w v \<noteq> w"
  shows "allowed_swap U doc a w (v2_swap U w v)"
proof -
  obtain ci vi p where k: "v2_lookup (py_lower U w) = Some (ci, vi, p)"
    using assms(1) by (auto simp: v2_word_def)
  obtain x where x: "pick_variant (variants (ALL_CLASSES ! ci)) v = Some x" "v2_swap U w v = case_preserve U x w"
    using assms(2) k by (auto simp: v2_swap_def split: option.splits)
  have "variants (ALL_CLASSES ! ci) \<noteq> []" using v2_lookup_sound [OF k] by auto
  then have "x \<in> set (variants (ALL_CLASSES ! ci)) \<and> 32 \<notin> set x" using pick_variant_in x(1) by blast
  then show ?thesis using assms(1) k x(2) by (auto simp: allowed_swap_def v2_word_def list_ex_iff)
qed

text \<open>
  C26: The production embedding is conservative. Whatever the mark, the marked text is the text with
  some of its words exchanged, run by run: a run of word characters changes only if it consists of
  letters, no part of it lies in a skipped region, it is not in capitals and not capitalised unless it
  opens the text, and the table knows it; and then it becomes, in its own capitalisation, a variant of
  the class it was found in, without a blank.
\<close>
theorem v2_embed_conservative:
  "\<exists>out. length out = length (runs (word_char U) doc)
     \<and> concat (runs (word_char U) doc) = doc
     \<and> concat out = embed_synonyms_v2 U doc mark min_instances
     \<and> list_all (\<lambda>i. out ! i = runs (word_char U) doc ! i
          \<or> allowed_swap U doc (length (concat (take i (runs (word_char U) doc)))) (runs (word_char U) doc ! i) (out ! i))
        [0..<length out]"
proof (cases "length (iter_matchable_words U doc) < min_instances")
  case True
  then have "embed_synonyms_v2 U doc mark min_instances = doc" by (simp add: embed_synonyms_v2_def Let_def)
  then show ?thesis by (intro exI [of _ "runs (word_char U) doc"]) (simp add: list_all_iff)
next
  case False
  let ?rs = "runs (word_char U) doc"
  let ?P = "v2_word U (skip_mask U doc)"
  let ?g = "\<lambda>(a, b, w) v. (a, b, v2_swap U w v)"
  obtain vs where vs: "embed_synonyms_v2 U doc mark min_instances
      = concat (map (snd \<circ> snd) (subst ?P ?g vs (spans 0 ?rs)))"
    using embed_synonyms_v2_subst [of min_instances U doc mark] False by auto
  define out where "out = map (snd \<circ> snd) (subst ?P ?g vs (spans 0 ?rs))"
  have "out ! i = ?rs ! i \<or> allowed_swap U doc (length (concat (take i ?rs))) (?rs ! i) (out ! i)"
    if i: "i < length ?rs" for i
  proof (cases "out ! i = ?rs ! i")
    case False
    have sp: "spans 0 ?rs ! i = (length (concat (take i ?rs)), length (concat (take i ?rs)) + length (?rs ! i), ?rs ! i)"
      using nth_spans [OF i, of 0] by simp
    then obtain v where v: "?P (spans 0 ?rs ! i)" "out ! i = v2_swap U (?rs ! i) v"
      using nth_subst [of i "spans 0 ?rs" ?P ?g vs] i False by (auto simp: out_def)
    show ?thesis using v2_swap_allowed [of U doc "length (concat (take i ?rs))" "?rs ! i" v] v False sp by simp
  qed simp
  then show ?thesis by (intro exI [of _ out]) (simp add: vs out_def list_all_iff)
qed

theorem v1_embed_verifies_witness:
  "verify_synonyms_match ascii_ucd (embed_synonyms ascii_ucd (u ''begin'') [7] 1) [7] 1 = (True, 1)"
proof -
  have w: "u ''begin'' = SYNONYM_CLASSES ! 0 ! 0" by (simp add: SYNONYM_CLASSES_def)
  have "synonym_lookup (py_lower ascii_ucd (u ''begin'')) = Some (0, 0)"
    using synonym_lookup_variant [of 0 0]
    by (simp add: w [symmetric] SYNONYM_CLASSES_def)
       (simp add: u_def py_lower_def all_ascii_def ascii_lower_def)
  moreover have "words ascii_ucd (u ''begin'') = [(0, 5, u ''begin'')]"
    by (simp add: words_def u_def word_char_def is_letter_def is_lower_letter_def all_letters_def)
  ultimately have n: "\<not> length (v1_matches ascii_ucd (u ''begin'')) < 1" by (simp add: v1_matches_def)
  have "c \<notin> set ZW_CHARS" if "c \<in> set (u ''begin'')" for c
    using that by (auto simp: u_def ZW_CHARS_def)
  note zw = this
  have "if length (v1_matches ascii_ucd (u ''begin'')) < 1
    then embed_synonyms ascii_ucd (u ''begin'') [7] 1 = u ''begin''
    else verify_synonyms_match ascii_ucd (embed_synonyms ascii_ucd (u ''begin'') [7] 1) [7] 1 = (True, 1)"
    by (rule v1_embed_verifies [OF zw]) simp_all
  with n show ?thesis by (simp only: if_False)
qed

section \<open>Where the style marks go wrong\<close>

text \<open>
  The spelling marks are not idempotent and damage a text that is already in the form the mark
  asks for: a pattern has no word boundary, so the American form is found again inside the British
  one, and the step of the loop for \<open>program\<close> makes \<open>programmeme\<close> of \<open>programme\<close>.
\<close>
theorem spelling_repeats:
  "SPELLING_VARIANTS ! 20 = (u ''program'', u ''programme'')
   \<and> spelling_loop ascii_ucd [255] 20 [(u ''program'', u ''programme'')] (u ''programme'') = Inr (u ''programmeme'')"
proof
  show "SPELLING_VARIANTS ! 20 = (u ''program'', u ''programme'')" by (simp add: SPELLING_VARIANTS_def)
qed code_simp

text \<open>
  The comma marks do not undo each other: a number of seven digits written with commas loses only
  the first of its commas, since the scan continues behind the three digits it has used.
\<close>
theorem thousands_half_removed:
  "mark_thousands ascii_ucd 1 (u ''1234567'') = u ''1,234,567''
   \<and> mark_thousands ascii_ucd 0 (u ''1,234,567'') = u ''1234,567''"
  by code_simp

text \<open>
  The contraction marks change words they should not know: \<open>it is\<close> is also found at the end of
  another word, and the step of the loop for it, asked to contract, turns \<open>habit is\<close> into \<open>habit's\<close>.
\<close>
theorem contraction_inside_word:
  "CONTRACTIONS ! 15 = (u ''it's'', u ''it is'')
   \<and> contraction_loop ascii_ucd [0] 15 [(u ''it's'', u ''it is'')] (u ''habit is'') = Inr (u ''habit's'')"
proof
  show "CONTRACTIONS ! 15 = (u ''it's'', u ''it is'')" by (simp add: CONTRACTIONS_def)
qed code_simp

text \<open>
  Variants the table lists twice read back as the class that comes first: the embedding may write
  \<open>need\<close> for a word of class 28, and verification then takes it for a word of class 13.
\<close>
theorem ambiguous_variant:
  "pick_variant (variants (ALL_CLASSES ! 28)) 1 = Some (u ''need'')
   \<and> v2_lookup (u ''need'') = Some (13, 2, u ''verb'')"
proof
  have A: "ALL_CLASSES = VERBS @ (ADJECTIVES @ ADVERBS @ NOUNS @ CONNECTORS)" by (simp add: ALL_CLASSES_def)
  show "pick_variant (variants (ALL_CLASSES ! 28)) 1 = Some (u ''need'')"
    by (simp add: A nth_append VERBS_def SynonymClass_def pick_variant_def Let_def u_def)
  have "ALL_CLASSES = take 14 VERBS @ (drop 14 VERBS @ ADJECTIVES @ ADVERBS @ NOUNS @ CONNECTORS)"
    by (simp only: A append_assoc [symmetric] append_take_drop_id)
  moreover have "length (take 14 VERBS) = 14" by (simp add: VERBS_def)
  ultimately have "enumerate 0 ALL_CLASSES = enumerate 0 (take 14 VERBS)
      @ enumerate 14 (drop 14 VERBS @ ADJECTIVES @ ADVERBS @ NOUNS @ CONNECTORS)"
    using enumerate_append_eq [of 0 "take 14 VERBS" "drop 14 VERBS @ ADJECTIVES @ ADVERBS @ NOUNS @ CONNECTORS"]
    by (simp only: add_0)
  then have E: "v2_entries = concat (map (\<lambda>(ci, c). class_words ci c) (enumerate 0 (take 14 VERBS)))
      @ concat (map (\<lambda>(ci, c). class_words ci c) (enumerate 14 (drop 14 VERBS @ ADJECTIVES @ ADVERBS @ NOUNS @ CONNECTORS)))"
    by (simp only: v2_entries_def map_append concat_append)
  have "map_of (concat (map (\<lambda>(ci, c). class_words ci c) (enumerate 0 (take 14 VERBS)))) (u ''need'')
      = Some (13, 2, u ''verb'')"
    by (simp add: VERBS_def class_words_def SynonymClass_def u_def ascii_lower_def)
  then show "v2_lookup (u ''need'') = Some (13, 2, u ''verb'')"
    unfolding v2_lookup_def E map_of_append by (rule map_add_find_right)
qed

end
