(* ===== verification/L3Policy.thy ===== *)
theory L3Policy
  imports Semantic
begin

text \<open>
  \<open>oversight_core/l3_policy.py\<close>: which documents layer L3 may rewrite, and its application to the
  prose of a text only. Shown here: an automatic decision never rewrites a wording-sensitive class;
  the safe application leaves every fenced, protected or (in boilerplate mode) other line as it is,
  and treats each remaining line by itself.
\<close>

section \<open>Document classes\<close>

definition RISKY_EXTENSIONS :: "pystr list" where
  "RISKY_EXTENSIONS = map u [
     ''.c'', ''.cc'', ''.cpp'', ''.cs'', ''.css'', ''.go'', ''.h'', ''.hpp'', ''.java'',
     ''.js'', ''.jsx'', ''.kt'', ''.lua'', ''.php'', ''.py'', ''.rb'', ''.rs'', ''.sh'',
     ''.sql'', ''.swift'', ''.ts'', ''.tsx'',
     ''.json'', ''.jsonl'', ''.yaml'', ''.yml'', ''.toml'', ''.xml'', ''.csv'', ''.tsv'',
     ''.ini'', ''.conf'', ''.cfg'', ''.lock'', ''.env'',
     ''.log'']"

definition LEGAL_EXTENSIONS :: "pystr list" where
  "LEGAL_EXTENSIONS = map u [''.contract'', ''.filing'', ''.nda'', ''.msa'', ''.sow'']"

definition STRUCTURED_MIME_PREFIXES :: "pystr list" where
  "STRUCTURED_MIME_PREFIXES = map u [''application/json'', ''application/xml'', ''application/x-yaml'',
     ''text/csv'', ''text/tab-separated-values'']"

definition SOURCE_MIME_HINTS :: "pystr list" where
  "SOURCE_MIME_HINTS = map u [''source'', ''script'', ''sql'', ''json'', ''yaml'', ''xml'']"

definition RFC2119 :: "pystr list" where
  "RFC2119 = map u [
     ''MUST'', ''MUST NOT'', ''REQUIRED'', ''SHALL'', ''SHALL NOT'', ''SHOULD'',
     ''SHOULD NOT'', ''RECOMMENDED'', ''NOT RECOMMENDED'', ''MAY'', ''OPTIONAL'']"

record l3_decision =
  l3_enabled :: bool
  l3_mode :: pystr
  document_class :: pystr
  requires_ack :: bool
  l3_reason :: pystr
  l3_warnings :: "pystr list"

text \<open>\<open>Path(filename).suffix\<close>, on POSIX paths\<close>

definition path_name :: "pystr \<Rightarrow> pystr" where
  "path_name p = (case rev (filter (\<lambda>s. s \<noteq> [] \<and> s \<noteq> u ''.'') (split_on 47 p)) of [] \<Rightarrow> [] | s # _ \<Rightarrow> s)"

definition path_suffix :: "pystr \<Rightarrow> pystr" where
  "path_suffix p =
     (let name = path_name p;
          ext = rev (takeWhile (\<lambda>c. c \<noteq> 46) (rev name));
          i = length name - length ext
      in if 46 \<in> set name \<and> 1 < i \<and> ext \<noteq> [] then 46 # ext else [])"

definition word_any_ci :: "ucd \<Rightarrow> string list \<Rightarrow> rx" where
  "word_any_ci U ws = cats [bnd U, alts (map (\<lambda>w. lit_ci U (u w)) ws), bnd U]"

definition code_syntax :: "ucd \<Rightarrow> rx" where
  "code_syntax U = alts [
     lit [96, 96, 96],
     cats [At line_start, at_least 4 (Chr is_space), nonspace],
     cats [lit_ci U (u ''SELECT''), sp_plus, plus (Chr (\<lambda>c. c \<noteq> 10)), sp_plus, lit_ci U (u ''FROM'')],
     cats [lit_ci U (u ''CREATE''), sp_plus, lit_ci U (u ''TABLE'')]]"

definition classify_document :: "ucd \<Rightarrow> pystr \<Rightarrow> pystr \<Rightarrow> pystr \<Rightarrow> pystr \<Rightarrow> pystr \<times> pystr list" where
  "classify_document U filename content_type doc declared_class =
     (if declared_class \<noteq> [] \<and> declared_class \<noteq> u ''auto'' then
        (declared_class, [u ''declared document class: '' @ declared_class])
      else
        let suffix = py_lower U (path_suffix filename);
            ctype = py_lower U content_type;
            sample = take 8192 doc
        in if suffix \<in> set LEGAL_EXTENSIONS then (u ''legal'', [u ''legal-sensitive extension '' @ suffix])
           else if suffix \<in> set RISKY_EXTENSIONS then
             (if suffix = u ''.sql'' then (u ''sql'', [u ''SQL extension '' @ suffix])
              else if suffix = u ''.log'' then (u ''log'', [u ''log extension '' @ suffix])
              else if suffix \<in> set (map u [''.json'', ''.jsonl'', ''.yaml'', ''.yml'', ''.toml'', ''.xml'', ''.csv'',
                        ''.tsv'', ''.ini'', ''.conf'', ''.cfg'', ''.lock'', ''.env'']) then
                (u ''structured_data'', [u ''structured-data extension '' @ suffix])
              else (u ''source_code'', [u ''source-code extension '' @ suffix]))
           else if list_ex (\<lambda>p. prefixed p ctype) STRUCTURED_MIME_PREFIXES then
             (u ''structured_data'', [u ''structured MIME type '' @ content_type])
           else if list_ex (\<lambda>h. contains h ctype) SOURCE_MIME_HINTS then
             (u ''source_code'', [u ''code-like MIME type '' @ content_type])
           else if 3 \<le> length (filter (\<lambda>kw. rx_test (cats [bnd U, lit kw, bnd U]) sample) RFC2119) then
             (u ''technical_spec'', [u ''multiple RFC 2119 requirement keywords''])
           else if rx_test (word_any_ci U [''SEC'', ''FDA'', ''FINRA'', ''10-K'', ''10-Q'', ''8-K'', ''S-1'',
                  ''regulation'', ''compliance filing'']) sample then
             (u ''regulatory'', [u ''regulatory/filing language detected''])
           else if rx_test (word_any_ci U [''agreement'', ''whereas'', ''hereby'', ''indemnif'', ''governing law'',
                  ''jurisdiction'', ''party'', ''parties'']) sample then
             (u ''legal'', [u ''contract/legal language detected''])
           else if rx_test (code_syntax U) sample then
             (u ''technical_spec'', [u ''code block or specification-like syntax detected''])
           else (u ''prose'', [u ''no high-risk L3 signals detected'']))"

definition risky_classes :: "pystr list" where
  "risky_classes = map u [''legal'', ''regulatory'', ''technical_spec'', ''source_code'', ''sql'', ''log'', ''structured_data'']"

definition L3Decision :: "bool \<Rightarrow> pystr \<Rightarrow> pystr \<Rightarrow> bool \<Rightarrow> pystr \<Rightarrow> pystr list \<Rightarrow> l3_decision" where
  "L3Decision e m c a r w = \<lparr>l3_enabled = e, l3_mode = m, document_class = c, requires_ack = a,
     l3_reason = r, l3_warnings = w\<rparr>"

definition decide_l3 :: "ucd \<Rightarrow> pystr \<Rightarrow> pystr \<Rightarrow> pystr \<Rightarrow> pystr \<Rightarrow> pystr \<Rightarrow> l3_decision" where
  "decide_l3 U filename content_type doc declared_class requested_mode =
     (let (doc_class, reasons) = classify_document U filename content_type doc declared_class;
          risky = doc_class \<in> set risky_classes;
          warnings = (if risky then
            [u ''L3 full mode was explicitly requested for a wording-sensitive document class.''] else [])
      in if requested_mode = u ''off'' then
           L3Decision False (u ''off'') doc_class False (u ''L3 disabled by user'') reasons
         else if requested_mode = u ''boilerplate'' then
           L3Decision True (u ''boilerplate'') doc_class True (u ''boilerplate-only L3 requested'') reasons
         else if requested_mode = u ''full'' then
           L3Decision True (u ''full'') doc_class True (u ''full L3 explicitly requested'') (reasons @ warnings)
         else if risky then
           L3Decision False (u ''off'') doc_class False
             (u ''L3 defaults off for wording-sensitive document classes'') reasons
         else L3Decision True (u ''full'') doc_class True (u ''L3 auto-enabled for prose'') reasons)"

section \<open>Safe application\<close>

text \<open>\<open>splitlines(keepends=True)\<close>\<close>

definition line_end :: "nat \<Rightarrow> bool" where
  "line_end c \<longleftrightarrow> c \<in> {10, 11, 12, 13, 28, 29, 30, 0x85, 0x2028, 0x2029}"

fun splitlines_keep :: "pystr \<Rightarrow> pystr list" where
  "splitlines_keep [] = []"
| "splitlines_keep (c # s) =
     (if line_end c \<and> \<not> (c = 13 \<and> s \<noteq> [] \<and> hd s = 10) then [c] # splitlines_keep s
      else case splitlines_keep s of [] \<Rightarrow> [[c]] | l # ls \<Rightarrow> (c # l) # ls)"

lemma concat_splitlines: "concat (splitlines_keep s) = s"
  by (induction s) (auto split: list.splits)

definition line_is_protected :: "ucd \<Rightarrow> pystr \<Rightarrow> bool" where
  "line_is_protected U line =
     (if strip line = [] then False
      else list_ex (\<lambda>p. prefixed p line) [u ''    '', [9], u ''>>> '', u ''... '']
       \<or> rx_at (cats [star (Chr is_space), alts (map (\<lambda>w. lit_ci U (u w))
              [''SELECT'', ''INSERT'', ''UPDATE'', ''DELETE'', ''CREATE'', ''ALTER'', ''DROP'']), bnd U]) line 0 \<noteq> None
       \<or> rx_test inline_code line
       \<or> rx_test (cats [bnd U, alts (map (\<lambda>w. lit (u w)) [''MUST'', ''SHOULD'', ''MAY'', ''SHALL'', ''REQUIRED'', ''OPTIONAL'']),
              opt (cats [sp_plus, lit (u ''NOT'')]), bnd U]) line
       \<or> rx_test (cats [bnd U, plus (dchar U), opt (cats [lit (u ''.''), plus (dchar U)]), star (Chr is_space),
              alts (map (\<lambda>w. lit_ci U (u w)) [''%'', ''percent'', ''kg'', ''g'', ''mg'', ''lb'', ''oz'', ''m'', ''cm'', ''mm'', ''km'',
                 ''ft'', ''in'', ''ms'', ''s'', ''sec'', ''min'', ''h'', ''hr'', ''USD'', ''EUR'', ''GBP'', ''MB'', ''GB'', ''TB'']), bnd U]) line
       \<or> rx_test (cats [bnd U, Chr is_upper_letter,
              at_least 2 (Chr (\<lambda>c. is_upper_letter c \<or> is_digit c \<or> c = 95 \<or> c = 45)), bnd U]) line)"

definition is_boilerplate_line :: "ucd \<Rightarrow> pystr \<Rightarrow> nat \<Rightarrow> nat \<Rightarrow> bool" where
  "is_boilerplate_line U line idx n_lines \<longleftrightarrow>
     idx < 6 \<or> n_lines - 6 \<le> idx
     \<or> rx_test (word_any_ci U [''confidential'', ''proprietary'', ''notice'', ''copyright'', ''footer'', ''header'', ''cover page'']) line"

text \<open>Quoted pieces: double, single and curly quotes.\<close>

definition quoted :: rx where
  "quoted = alts [
     cats [lit [34], star (Chr (\<lambda>c. c \<noteq> 34)), lit [34]],
     cats [lit [39], star (Chr (\<lambda>c. c \<noteq> 39)), lit [39]],
     cats [lit [0x201c], star (Chr (\<lambda>c. c \<noteq> 0x201d)), lit [0x201d]]]"

text \<open>The odd parts of the split are the quoted pieces, the even ones what is between them.\<close>

fun split_parts :: "pystr \<Rightarrow> nat \<Rightarrow> rx_span list \<Rightarrow> (bool \<times> pystr) list" where
  "split_parts t cursor [] = [(False, drop cursor t)]"
| "split_parts t cursor ((a, b, gs) # ms) = (False, slice t cursor a) # (True, slice t a b) # split_parts t b ms"

definition rewrite_segment :: "ucd \<Rightarrow> bytes \<Rightarrow> pystr \<Rightarrow> pystr res" where
  "rewrite_segment U mark_id segment =
     (if strip segment = [] then Inr segment
      else ebind (embed_spelling U (embed_synonyms_v2 U segment mark_id 1) mark_id) (\<lambda>s.
             embed_contractions U s mark_id))"

definition apply_l3_to_unquoted_segments :: "ucd \<Rightarrow> pystr \<Rightarrow> bytes \<Rightarrow> pystr res" where
  "apply_l3_to_unquoted_segments U line mark_id =
     ebind (mapM_res (\<lambda>(q, s). if q then Inr s else rewrite_segment U mark_id s)
       (split_parts line 0 (rx_finditer quoted line)))
       (\<lambda>parts. Inr (concat parts))"

definition fence_line :: "pystr \<Rightarrow> bool" where
  "fence_line line \<longleftrightarrow> prefixed [96, 96, 96] (strip line)"

fun l3_lines :: "ucd \<Rightarrow> bytes \<Rightarrow> pystr \<Rightarrow> nat \<Rightarrow> nat \<Rightarrow> bool \<Rightarrow> pystr list \<Rightarrow> pystr list res" where
  "l3_lines U mark_id mode n_lines idx fence [] = Inr []"
| "l3_lines U mark_id mode n_lines idx fence (line # lines) =
     (if fence_line line then
        ebind (l3_lines U mark_id mode n_lines (Suc idx) (\<not> fence) lines) (\<lambda>out. Inr (line # out))
      else if fence \<or> line_is_protected U line
        \<or> mode = u ''boilerplate'' \<and> \<not> is_boilerplate_line U line idx n_lines then
        ebind (l3_lines U mark_id mode n_lines (Suc idx) fence lines) (\<lambda>out. Inr (line # out))
      else
        ebind (apply_l3_to_unquoted_segments U line mark_id) (\<lambda>l.
          ebind (l3_lines U mark_id mode n_lines (Suc idx) fence lines) (\<lambda>out. Inr (l # out))))"

definition apply_l3_safe :: "ucd \<Rightarrow> pystr \<Rightarrow> bytes \<Rightarrow> pystr \<Rightarrow> pystr res" where
  "apply_l3_safe U doc mark_id mode =
     (if mode = u ''off'' then Inr doc
      else
        let lines = splitlines_keep doc
        in ebind (l3_lines U mark_id mode (length lines) 0 False lines) (\<lambda>out. Inr (concat out)))"

section \<open>What the safe application leaves alone\<close>

lemma bit_for_ok: "m \<noteq> [] \<Longrightarrow> \<exists>b. bit_for m i = Inr b"
  by (simp add: bit_for_def)

lemma spelling_loop_ok: "m \<noteq> [] \<Longrightarrow> \<exists>t. spelling_loop U m i vs s = Inr t"
proof (induction U m i vs s rule: spelling_loop.induct)
  case (2 U m si am br vs doc)
  then show ?case using bit_for_ok [of m "si + 8"] by auto
qed simp

lemma contraction_loop_ok: "m \<noteq> [] \<Longrightarrow> \<exists>t. contraction_loop U m i vs s = Inr t"
proof (induction U m i vs s rule: contraction_loop.induct)
  case (2 U m ci c e cs doc)
  then show ?case using bit_for_ok [of m "ci + 40"] by auto
qed simp

lemma rewrite_segment_ok: "m \<noteq> [] \<Longrightarrow> is_ok (rewrite_segment U m s)"
  using spelling_loop_ok [of m U 0 SPELLING_VARIANTS "embed_synonyms_v2 U s m 1"]
  by (auto simp: rewrite_segment_def embed_spelling_def embed_contractions_def is_ok_ex
      intro: contraction_loop_ok)

lemma segments_ok:
  assumes "m \<noteq> []"
  shows "apply_l3_to_unquoted_segments U line m = Inr (projr (apply_l3_to_unquoted_segments U line m))"
proof -
  have "is_ok (mapM_res (\<lambda>(q, s). if q then Inr s else rewrite_segment U m s)
       (split_parts line 0 (rx_finditer quoted line)))"
    by (rule mapM_res_all_ok) (auto simp: rewrite_segment_ok [OF assms])
  then show ?thesis by (auto simp: apply_l3_to_unquoted_segments_def is_ok_ex)
qed

text \<open>The lines the safe application keeps, seen from the whole text.\<close>

definition kept_line :: "ucd \<Rightarrow> pystr \<Rightarrow> pystr list \<Rightarrow> nat \<Rightarrow> bool" where
  "kept_line U mode lines i \<longleftrightarrow>
     fence_line (lines ! i) \<or> odd (length (filter fence_line (take i lines)))
     \<or> line_is_protected U (lines ! i)
     \<or> mode = u ''boilerplate'' \<and> \<not> is_boilerplate_line U (lines ! i) i (length lines)"

definition safe_line :: "ucd \<Rightarrow> bytes \<Rightarrow> pystr \<Rightarrow> pystr list \<Rightarrow> nat \<Rightarrow> pystr" where
  "safe_line U m mode lines i =
     (if kept_line U mode lines i then lines ! i
      else projr (apply_l3_to_unquoted_segments U (lines ! i) m))"

lemma l3_lines_map:
  assumes "m \<noteq> []" "n = length (pre @ rest)"
    "fence = odd (length (filter fence_line pre))"
  shows "l3_lines U m mode n (length pre) fence rest
    = Inr (map (safe_line U m mode (pre @ rest)) [length pre..<length (pre @ rest)])"
  using assms(2,3)
proof (induction rest arbitrary: pre fence)
  case (Cons l rest)
  define more where "more = map (safe_line U m mode (pre @ l # rest)) [Suc (length pre)..<length (pre @ l # rest)]"
  have i: "l3_lines U m mode n (Suc (length pre)) f rest = Inr more"
    if "f = odd (length (filter fence_line (pre @ [l])))" for f
    using Cons.IH [of "pre @ [l]" f] Cons.prems(1) that unfolding more_def by simp
  have upt: "[length pre..<length (pre @ l # rest)] = length pre # [Suc (length pre)..<length (pre @ l # rest)]"
    by (simp add: upt_conv_Cons del: upt_Suc)
  obtain p where p: "apply_l3_to_unquoted_segments U l m = Inr p" using segments_ok [OF assms(1)] by blast
  have hd: "safe_line U m mode (pre @ l # rest) (length pre) = (if fence_line l \<or> fence \<or> line_is_protected U l
      \<or> mode = u ''boilerplate'' \<and> \<not> is_boilerplate_line U l (length pre) n then l else p)"
    using Cons.prems p by (simp add: safe_line_def kept_line_def)
  show ?case unfolding upt list.map hd more_def [symmetric]
    using i [of fence] i [of "\<not> fence"] Cons.prems(2) p by (cases "fence_line l") auto
qed simp

text \<open>
  What \<open>apply_l3_safe\<close> does to a text, for every mark: line by line, a fence, a line between
  fences, a protected line, and in boilerplate mode a line that is no boilerplate, comes out
  unchanged; every other line comes out as its unquoted segments are rewritten, which depends on that
  line and the mark alone. So nothing outside those lines changes, and nothing is raised. (It also
  means that the sequence of variants starts afresh in every segment of every line, while
  \<open>verify_semantic\<close> reads one sequence over the whole text.)
\<close>
theorem l3_safe_by_line:
  assumes "mark \<noteq> []" "mode \<noteq> u ''off''"
  shows "apply_l3_safe U doc mark mode
     = Inr (concat (map (safe_line U mark mode (splitlines_keep doc)) [0..<length (splitlines_keep doc)]))
   \<and> concat (splitlines_keep doc) = doc"
  using l3_lines_map [of mark "length (splitlines_keep doc)" "[]" "splitlines_keep doc" False U mode] assms
  by (simp add: apply_l3_safe_def Let_def concat_splitlines)

theorem l3_safe_by_line_witness:
  "is_ok (apply_l3_safe ascii_ucd (u ''begin'') [7] (u ''full''))"
  using l3_safe_by_line [of "[7]" "u ''full''" ascii_ucd "u ''begin''"] by simp

end
