(* ===== verification/Ecc.thy ===== *)
theory Ecc
  imports Semantic
begin

unbundle bit_operations_syntax

text \<open>
  The repetition code of \<open>oversight_core/ecc.py\<close>: every bit of a mark repeated, read back by a
  majority vote per group. Shown here: the vote corrects every pattern of errors that leaves each
  group a strict majority, and counts exactly the groups it met errors in.
\<close>

section \<open>Encoding and decoding\<close>

definition encode :: "bytes \<Rightarrow> nat \<Rightarrow> int list" where
  "encode payload repetitions =
     concat (map (\<lambda>x. concat (map (\<lambda>i. replicate repetitions (drop_bit (7 - i) (uint x) AND 1)) [0..<8])) payload)"

text \<open>One group of the vote: the recovered bit, and whether the group was not unanimous.\<close>

definition vote :: "int list \<Rightarrow> int \<times> bool" where
  "vote grp =
     (let ones = sum_list grp; zeros = int (length grp) - ones
      in (if zeros < ones then 1 else 0, ones \<noteq> 0 \<and> zeros \<noteq> 0))"

fun votes :: "nat \<Rightarrow> nat \<Rightarrow> int list \<Rightarrow> (int \<times> bool) list" where
  "votes r 0 bits = []"
| "votes r (Suc g) bits = vote (take r bits) # votes r g (drop r bits)"

text \<open>Bits to bytes; a last incomplete byte is filled up with zeros.\<close>

function bytes_of_votes :: "int list \<Rightarrow> bytes" where
  "bytes_of_votes [] = []"
| "bytes_of_votes (b # bs) =
     word_of_int (foldl (\<lambda>byte j. if j < length (b # bs) then push_bit 1 byte OR (b # bs) ! j else push_bit 1 byte)
       0 [0..<8]) # bytes_of_votes (drop 8 (b # bs))"
  by pat_completeness auto
termination by (relation "measure length") auto

definition decode :: "int list \<Rightarrow> nat \<Rightarrow> nat \<Rightarrow> bytes \<times> rat \<times> nat" where
  "decode coded_bits payload_len repetitions =
     (let n_payload_bits = payload_len * 8;
          expected_coded = n_payload_bits * repetitions;
          padded = (if length coded_bits < expected_coded
                    then coded_bits @ replicate (expected_coded - length coded_bits) 0 else coded_bits);
          groups = votes repetitions n_payload_bits (take expected_coded padded);
          errors = length (filter snd groups);
          unanimous = length groups - errors
      in (bytes_of_votes (map fst groups),
          if n_payload_bits \<noteq> 0 then of_nat unanimous / of_nat n_payload_bits else 0, errors))"

definition mark_id_to_ecc_bits :: "bytes \<Rightarrow> nat \<Rightarrow> int list" where
  "mark_id_to_ecc_bits mark_id repetitions = encode mark_id repetitions"

definition ecc_bits_to_mark_id :: "int list \<Rightarrow> nat \<Rightarrow> nat \<Rightarrow> bytes \<times> rat \<times> nat" where
  "ecc_bits_to_mark_id bits mark_len repetitions = decode bits mark_len repetitions"

section \<open>The vote corrects a minority of errors\<close>

lemma encode_bits: "encode p r = concat (map (replicate r) (bits_of p))"
  by (induction p) (simp_all add: encode_def bits_of_def byte_bits_def o_def)

lemma length_encode [simp]: "length (encode p r) = 8 * length p * r"
  by (simp add: encode_bits length_concat o_def sum_list_triv)

lemma length_votes [simp]: "length (votes r g bits) = g"
  by (induction g arbitrary: bits) auto

text \<open>The number of positions in which two words differ.\<close>

definition flips :: "'a list \<Rightarrow> 'a list \<Rightarrow> nat" where
  "flips xs ys = length (filter (\<lambda>(x, y). x \<noteq> y) (zip xs ys))"

lemma sum_flips:
  "list_all (\<lambda>x. x = 0 \<or> x = (1 :: int)) xs \<Longrightarrow>
     flips (replicate (length xs) 0) xs = nat (sum_list xs) \<and> 0 \<le> sum_list xs
     \<and> flips (replicate (length xs) 1) xs = length xs - nat (sum_list xs) \<and> sum_list xs \<le> int (length xs)"
  by (induction xs) (auto simp: flips_def nat_add_distrib)

lemma vote_corrects:
  assumes "list_all (\<lambda>x. x = 0 \<or> x = (1 :: int)) grp" "2 * flips (replicate (length grp) b) grp < length grp"
    "b = 0 \<or> b = 1"
  shows "vote grp = (b, flips (replicate (length grp) b) grp \<noteq> 0)"
  using sum_flips [OF assms(1)] assms(2,3) by (auto simp: vote_def Let_def)

lemma votes_correct:
  assumes "length bits = length ws * r" "list_all (\<lambda>x. x = 0 \<or> x = (1 :: int)) bits"
    "\<And>g. g < length ws \<Longrightarrow> 2 * flips (replicate r (ws ! g)) (take r (drop (g * r) bits)) < r"
    "list_all (\<lambda>x. x = 0 \<or> x = 1) ws"
  shows "votes r (length ws) bits =
    map (\<lambda>g. (ws ! g, flips (replicate r (ws ! g)) (take r (drop (g * r) bits)) \<noteq> 0)) [0..<length ws]"
  using assms
proof (induction ws arbitrary: bits)
  case (Cons w ws)
  have len: "length (take r bits) = r" using Cons.prems(1) by simp
  have "list_all (\<lambda>x. x = 0 \<or> x = 1) (take r bits)"
    using Cons.prems(2) by (metis append_take_drop_id list_all_append)
  moreover have "2 * flips (replicate r w) (take r bits) < r" using Cons.prems(3) [of 0] by simp
  ultimately have v: "vote (take r bits) = (w, flips (replicate r w) (take r bits) \<noteq> 0)"
    using vote_corrects [of "take r bits" w] Cons.prems(4) len by simp
  have "votes r (length ws) (drop r bits) =
    map (\<lambda>g. (ws ! g, flips (replicate r (ws ! g)) (take r (drop (g * r) (drop r bits))) \<noteq> 0)) [0..<length ws]"
  proof (rule Cons.IH)
    show "list_all (\<lambda>x. x = 0 \<or> x = 1) (drop r bits)"
      using Cons.prems(2) by (metis append_take_drop_id list_all_append)
    fix g assume "g < length ws"
    then show "2 * flips (replicate r (ws ! g)) (take r (drop (g * r) (drop r bits))) < r"
      using Cons.prems(3) [of "Suc g"] by (simp add: add.commute)
  qed (use Cons.prems in auto)
  then show ?case using v by (simp add: upt_conv_Cons map_Suc_upt [symmetric] add.commute del: upt_Suc)
qed simp

lemma bytes_of_votes_byte:
  "bytes_of_votes (byte_bits x @ bs) = x # bytes_of_votes bs"
proof -
  obtain b bits where b: "byte_bits x = b # bits" by (cases "byte_bits x") (simp_all add: byte_bits_def)
  let ?f = "\<lambda>byte j. if j < length (byte_bits x @ bs)
    then push_bit 1 byte OR (byte_bits x @ bs) ! j else push_bit 1 byte"
  have "foldl ?f 0 [0..<8] = foldl (\<lambda>byte j. push_bit 1 byte OR (byte_bits x ! j AND 1)) 0 [0..<8]"
    by (intro foldl_cong refl) (simp add: nth_append byte_bits_def and.assoc)
  also have "\<dots> = byte_of_bits (map (\<lambda>j. byte_bits x ! j) [0..<8])"
    by (simp add: byte_of_bits_def foldl_map)
  also have "map (\<lambda>j. byte_bits x ! j) [0..<8] = byte_bits x"
    using map_nth [of "byte_bits x"] by simp
  finally have "foldl ?f 0 [0..<8] = uint x" by (simp only: byte_of_byte_bits)
  moreover have "bytes_of_votes (b # bits @ bs) = word_of_int (foldl (\<lambda>byte j. if j < length (b # bits @ bs)
    then push_bit 1 byte OR (b # bits @ bs) ! j else push_bit 1 byte) 0 [0..<8])
      # bytes_of_votes (drop 8 (b # bits @ bs))"
    by (rule bytes_of_votes.simps)
  moreover have "drop 8 (byte_bits x @ bs) = bs" by simp
  ultimately show ?thesis by (simp only: b append_Cons word_of_int_uint)
qed

lemma bytes_of_votes_bits_of: "bytes_of_votes (bits_of p) = p"
  by (induction p) (simp_all add: bytes_of_votes_byte)

lemma decode_corrects:
  assumes "mark \<noteq> []" "length received = length (encode mark r)"
    "list_all (\<lambda>x. x = 0 \<or> x = 1) received"
    "\<And>g. g < 8 * length mark \<Longrightarrow>
       2 * flips (take r (drop (g * r) (encode mark r))) (take r (drop (g * r) received)) < r"
  shows "let damaged = card {g. g < 8 * length mark
           \<and> take r (drop (g * r) (encode mark r)) \<noteq> take r (drop (g * r) received)}
    in decode received (length mark) r
      = (mark, of_nat (8 * length mark - damaged) / of_nat (8 * length mark), damaged)"
proof -
  let ?w = "bits_of mark"
  let ?got = "\<lambda>g. take r (drop (g * r) received)"
  have sent: "take r (drop (g * r) (encode mark r)) = replicate r (?w ! g)" if "g < 8 * length mark" for g
  proof -
    have "take r (drop (g * r) (concat (map (replicate r) ws))) = replicate r (ws ! g)" if "g < length ws" for ws :: "int list"
      using that by (induction ws arbitrary: g) (auto simp: nth_Cons split: nat.splits)
    then show ?thesis using that by (simp add: encode_bits)
  qed
  have ne: "flips xs ys \<noteq> 0 \<longleftrightarrow> xs \<noteq> ys" if "length xs = length ys" for xs ys :: "int list"
    using that by (induction xs ys rule: list_induct2) (auto simp: flips_def)
  have got_len: "length (?got g) = r" if "g < 8 * length mark" for g
  proof -
    have "(g + 1) * r \<le> 8 * length mark * r" using that by (intro mult_right_mono) auto
    then show ?thesis using assms(2) by (simp add: algebra_simps)
  qed
  let ?bad = "\<lambda>g. flips (replicate r (?w ! g)) (?got g) \<noteq> 0"
  have v: "votes r (8 * length mark) received = map (\<lambda>g. (?w ! g, ?bad g)) [0..<8 * length mark]"
    using votes_correct [of received ?w r] assms(2,3,4) sent bits_of_bit [of _ mark]
    by (auto simp: list_all_iff)
  have fst_v: "map fst (votes r (8 * length mark) received) = ?w"
    using map_nth [of ?w] by (simp add: v o_def)
  define damaged where "damaged = card {g. g < 8 * length mark
           \<and> take r (drop (g * r) (encode mark r)) \<noteq> ?got g}"
  have "length (filter snd (votes r (8 * length mark) received)) = card {g. g < 8 * length mark \<and> ?bad g}"
    by (simp add: v filter_map o_def length_filter_conv_card) (rule arg_cong [where f = card], auto)
  also have "{g. g < 8 * length mark \<and> ?bad g} = {g. g < 8 * length mark
           \<and> take r (drop (g * r) (encode mark r)) \<noteq> ?got g}"
    using sent got_len ne by (intro Collect_cong conj_cong refl) simp
  finally have errs: "length (filter snd (votes r (8 * length mark) received)) = damaged"
    by (simp add: damaged_def)
  have "decode received (length mark) r
      = (mark, of_nat (8 * length mark - damaged) / of_nat (8 * length mark), damaged)"
    using assms(1,2) by (simp add: decode_def Let_def mult.commute [of _ 8] fst_v errs bytes_of_votes_bits_of)
  then show ?thesis by (simp add: damaged_def Let_def)
qed

text \<open>
  The code corrects errors. Let \<open>received\<close> be as many bits as a mark was encoded to, each group of
  \<open>r\<close> of them differing from what was sent in fewer than half of its bits. Then decoding returns the
  mark; the number of errors it reports is the number of damaged groups, and its confidence the
  fraction of the others. With no error at all the confidence is one.
\<close>
theorem ecc_corrects:
  assumes "mark \<noteq> []" "length received = length (encode mark r)"
    "list_all (\<lambda>x. x = 0 \<or> x = 1) received"
    "\<And>g. g < 8 * length mark \<Longrightarrow>
       2 * flips (take r (drop (g * r) (encode mark r))) (take r (drop (g * r) received)) < r"
  shows "let damaged = card {g. g < 8 * length mark
           \<and> take r (drop (g * r) (encode mark r)) \<noteq> take r (drop (g * r) received)}
    in decode received (length mark) r
      = (mark, of_nat (8 * length mark - damaged) / of_nat (8 * length mark), damaged)"
  by (rule decode_corrects [OF assms])

theorem ecc_corrects_witness:
  "fst (decode [1,0,0, 1,1,1, 0,0,0, 1,0,1, 1,1,1, 0,0,0, 1,1,1, 0,0,0] 1 3) = [0x5A]"
proof -
  let ?r = "[1,0,0, 1,1,1, 0,0,0, 1,0,1, 1,1,1, 0,0,0, 1,1,1, 0,0,0] :: int list"
  have e: "encode [0x5A] 3 = [0,0,0, 1,1,1, 0,0,0, 1,1,1, 1,1,1, 0,0,0, 1,1,1, 0,0,0]" by code_simp
  have "2 * flips (take 3 (drop (g * 3) (encode [0x5A] 3))) (take 3 (drop (g * 3) ?r)) < 3" if "g < 8" for g
  proof -
    have "g \<in> {0, 1, 2, 3, 4, 5, 6, 7}" using that by auto
    then show ?thesis unfolding e flips_def by (elim insertE) simp_all
  qed
  then show ?thesis using ecc_corrects [of "[0x5A]" ?r 3] unfolding Let_def by (simp add: e)
qed

section \<open>Verification with the code\<close>

definition verify_with_ecc :: "nat list \<Rightarrow> bytes \<Rightarrow> nat \<Rightarrow> nat \<Rightarrow> bool \<times> rat \<times> bytes" where
  "verify_with_ecc observed candidate class_size repetitions =
     (if observed = [] then (False, 0, [])
      else
        let expected = variant_sequence candidate (length observed) class_size;
            received = map (\<lambda>(obs, e). if obs mod class_size = e mod class_size then 1 else 0) (zip observed expected);
            match_ratio = (if received \<noteq> [] then rat_of_int (sum_list received) / of_nat (length received) else 0)
        in if length candidate * 8 * repetitions \<le> length received then
             (let (decoded, confidence, errors) = decode received (length candidate) repetitions
              in (decoded = candidate \<and> 1 / 2 \<le> confidence, confidence, decoded))
           else (7 / 10 \<le> match_ratio, match_ratio, candidate))"

lemma encode_ones: "encode (replicate k 255) r = replicate (8 * k * r) 1"
proof -
  have "byte_bits 255 = replicate 8 1" by code_simp
  then have "bits_of (replicate k 255) = replicate (8 * k) 1"
    by (induction k) (simp_all add: replicate_add del: replicate_Suc, simp add: replicate_add [symmetric])
  moreover have "concat (map (replicate r) (replicate n b)) = replicate (n * r) b" for n and b :: int
    by (induction n) (simp_all add: replicate_add)
  ultimately show ?thesis by (simp add: encode_bits)
qed

lemma decode_take: "8 * k * r \<le> n \<Longrightarrow> decode (replicate n b) k r = decode (replicate (8 * k * r) b) k r"
  by (simp add: decode_def Let_def mult.commute [of k 8] min_def)

lemma decode_ones:
  assumes "0 < k" "0 < r" "8 * k * r \<le> n"
  shows "decode (replicate n 1) k r = (replicate k 255, 1, 0)"
proof -
  have "decode (encode (replicate k 255) r) (length (replicate k (255 :: byte))) r = (replicate k 255, 1, 0)"
    using decode_corrects [of "replicate k 255" "encode (replicate k 255) r" r] assms(1,2)
    by (simp add: flips_def zip_same_conv_map Let_def encode_ones filter_empty_conv list_all_iff)
  then show ?thesis using decode_take [OF assms(3), of 1] by (simp add: encode_ones)
qed

text \<open>
  Verification with the code decodes the pattern of agreements instead of a message. When the
  observed choices are exactly those of the candidate, and there are enough of them to decode, what is
  decoded is the mark of all ones, with full confidence; so the perfect match is rejected for every
  candidate but that one.
\<close>
theorem verify_with_ecc_rejects_perfect:
  assumes "candidate \<noteq> []" "0 < r" "8 * length candidate * r \<le> n"
  shows "verify_with_ecc (variant_sequence candidate n 3) candidate 3 r
    = (candidate = replicate (length candidate) 255, 1, replicate (length candidate) 255)"
proof -
  let ?v = "variant_sequence candidate n 3"
  have n: "0 < n" using assms by (cases n) auto
  then have ne: "?v \<noteq> []" by (metis length_variant_sequence length_greater_0_conv)
  have "map (\<lambda>(obs, e). if obs mod 3 = e mod 3 then 1 else 0) (zip ?v ?v) = replicate n (1 :: int)"
    by (rule nth_equalityI) simp_all
  moreover have "decode (replicate n 1) (length candidate) r = (replicate (length candidate) 255, 1, 0)"
    using decode_ones [of "length candidate" r n] assms by simp
  ultimately show ?thesis using ne assms(3)
    by (auto simp: verify_with_ecc_def Let_def mult.commute [of _ 8])
qed

theorem verify_with_ecc_rejects_perfect_witness:
  "fst (verify_with_ecc (variant_sequence [1, 2] 48 3) [1, 2] 3 3) = False"
  using verify_with_ecc_rejects_perfect [of "[1, 2]" 3 48] by simp

end
