(* ===== verification/Watermark.thy ===== *)
theory Watermark
  imports L3Policy
begin

text \<open>
  The entry points of \<open>oversight_core/watermark.py\<close>: applying the layers in their order, reading them
  back, and fusing what the layers say into a ranking. Scores are exact fractions. The texts of the
  diagnostics are left out. Shown here: an embedded mark is found again by L1, the ranking is ordered,
  complete and within bounds, agreement never lowers a score, and layer L1 may hide bits of L2.
\<close>

section \<open>Applying and reading the layers\<close>

definition apply_all :: "ucd \<Rightarrow> pystr \<Rightarrow> bytes \<Rightarrow> bool \<Rightarrow> pystr \<Rightarrow> pystr res" where
  "apply_all U doc mark_id include_l3 mode =
     ebind (if include_l3 then apply_l3_safe U doc mark_id mode else Inr doc) (\<lambda>t.
       embed_zw (embed_ws t mark_id) mark_id 40)"

record recovered =
  L1_zero_width :: "bytes list"
  L2_whitespace :: "bytes list"
  L3_synonyms :: "bytes list"

definition recover_marks :: "pystr \<Rightarrow> nat \<Rightarrow> recovered" where
  "recover_marks doc mark_len = \<lparr>
     L1_zero_width = extract_zw doc mark_len,
     L2_whitespace = (case extract_ws doc mark_len of Some m \<Rightarrow> if m \<noteq> [] then [m] else [] | None \<Rightarrow> []),
     L3_synonyms = []\<rparr>"

text \<open>The threshold of \<open>verify_l3\<close> is an argument nothing reads.\<close>

type_synonym l3_hit = "bytes \<times> rat \<times> semantic_verdict"

definition verify_l3 :: "ucd \<Rightarrow> pystr \<Rightarrow> bytes list \<Rightarrow> rat \<Rightarrow> l3_hit list res" where
  "verify_l3 U doc candidates threshold =
     ebind (mapM_res (\<lambda>mid. ebind (verify_semantic U doc mid True) (\<lambda>d. Inr (mid, synonyms_score d, d))) candidates)
       (\<lambda>all. Inr (sort_key (\<lambda>(_, s, _). - s) (filter (\<lambda>(_, _, d). overall_match d) all)))"

section \<open>Fusing the layers\<close>

text \<open>\<open>evidence.setdefault(m, []).append(e)\<close>\<close>

fun add_evidence :: "'k \<Rightarrow> 'e \<Rightarrow> ('k \<times> 'e list) list \<Rightarrow> ('k \<times> 'e list) list" where
  "add_evidence m e [] = [(m, [e])]"
| "add_evidence m e ((k, es) # ev) = (if k = m then (k, es @ [e]) # ev else (k, es) # add_evidence m e ev)"

definition combine :: "rat list \<Rightarrow> rat" where
  "combine ss =
     (if length ss = 1 then hd ss else 1 - foldl (\<lambda>acc s. acc * (1 - s)) 1 ss)"

definition evidence_items :: "bytes list \<Rightarrow> bytes option \<Rightarrow> rat \<Rightarrow> l3_hit list \<Rightarrow> (bytes \<times> rat \<times> pystr) list" where
  "evidence_items l1_marks l2_candidate l2_confidence l3_hits =
     map (\<lambda>m. (m, 95 / 100, u ''L1'')) l1_marks
     @ (case l2_candidate of
          Some m \<Rightarrow> if m \<noteq> [] \<and> 1 / 2 \<le> l2_confidence
                    then [(m, min l2_confidence 1 * (90 / 100), u ''L2'')] else []
        | None \<Rightarrow> [])
     @ map (\<lambda>(m, s, _). (m, s * (85 / 100), u ''L3'')) l3_hits"

definition fuse_candidates ::
  "bytes list \<Rightarrow> bytes option \<Rightarrow> rat \<Rightarrow> l3_hit list \<Rightarrow> (bytes \<times> rat \<times> pystr) list" where
  "fuse_candidates l1_marks l2_candidate l2_confidence l3_hits =
     (let evidence = fold (\<lambda>(m, e). add_evidence m e)
            (evidence_items l1_marks l2_candidate l2_confidence l3_hits) []
      in sort_key (\<lambda>(_, s, _). - s)
           (map (\<lambda>(m, es). (m, combine (map fst es), join (u ''+'') (map snd es))) evidence))"

text \<open>
  The reading side with its layers. \<open>uniq\<close> lists the members of a Python set: each once, in an order
  the language leaves open.
\<close>

record recovery =
  rec_l1 :: "bytes list"
  rec_l2 :: "bytes list"
  rec_l2_confidence :: rat
  rec_l3 :: "(bytes \<times> rat) list"
  rec_candidates :: "(bytes \<times> rat \<times> pystr) list"

definition recover_layers ::
  "ucd \<Rightarrow> (bytes list \<Rightarrow> bytes list) \<Rightarrow> pystr \<Rightarrow> bytes list \<Rightarrow> nat
   \<Rightarrow> (bytes list \<times> (bytes option \<times> rat) \<times> bytes list \<times> l3_hit list) res" where
  "recover_layers U uniq doc candidates mark_len =
     (let l1_unique = uniq (extract_zw doc mark_len) in
      ebind (extract_ws_partial doc mark_len) (\<lambda>(l2_candidate, l2_confidence, l2_bits, l2_needed).
      let l2_marks = (case l2_candidate of
            Some m \<Rightarrow> if m \<noteq> [] \<and> 1 / 2 \<le> l2_confidence then [m] else [] | None \<Rightarrow> [])
      in ebind (if candidates \<noteq> [] then verify_l3 U doc candidates (7 / 10) else Inr []) (\<lambda>l3_hits.
           Inr (l1_unique, (l2_candidate, l2_confidence), l2_marks, l3_hits))))"

definition recover_marks_v2 ::
  "ucd \<Rightarrow> (bytes list \<Rightarrow> bytes list) \<Rightarrow> pystr \<Rightarrow> bytes list \<Rightarrow> nat \<Rightarrow> recovery res" where
  "recover_marks_v2 U uniq doc candidates mark_len =
     ebind (recover_layers U uniq doc candidates mark_len)
       (\<lambda>(l1_unique, (l2_candidate, l2_confidence), l2_marks, l3_hits).
         Inr \<lparr>rec_l1 = l1_unique, rec_l2 = l2_marks, rec_l2_confidence = l2_confidence,
              rec_l3 = map (\<lambda>(m, s, _). (m, s)) l3_hits,
              rec_candidates = fuse_candidates l1_unique l2_candidate l2_confidence l3_hits\<rparr>)"

section \<open>The ranking\<close>

lemma add_evidence_map_of:
  "map_of (add_evidence m e ev) k =
     (if k = m then Some ((case map_of ev m of Some es \<Rightarrow> es | None \<Rightarrow> []) @ [e]) else map_of ev k)"
  by (induction ev) auto

lemma add_evidence_keys:
  "map fst (add_evidence m e ev) = (if m \<in> set (map fst ev) then map fst ev else map fst ev @ [m])"
  by (induction ev) (auto simp del: set_map)

lemma add_evidence_distinct: "distinct (map fst ev) \<Longrightarrow> distinct (map fst (add_evidence m e ev))"
  by (simp add: add_evidence_keys del: set_map)

lemma evidence_fold:
  "distinct (map fst (fold (\<lambda>(m, e). add_evidence m e) items []))
   \<and> (\<forall>k. map_of (fold (\<lambda>(m, e). add_evidence m e) items []) k =
        (if k \<in> fst ` set items then Some (map snd (filter (\<lambda>x. fst x = k) items)) else None))"
proof (induction items rule: rev_induct)
  case (snoc x items)
  obtain m e where x: "x = (m, e)" by (cases x)
  show ?case using snoc unfolding x
    by (auto simp: add_evidence_map_of add_evidence_distinct filter_empty_conv)
qed simp

lemma foldl_mult: "foldl (\<lambda>acc s. acc * (1 - s)) a ss = a * prod_list (map (\<lambda>s. 1 - s) ss)" for a :: rat
  by (induction ss arbitrary: a) (simp_all add: mult.assoc)

lemma combine_prod: "combine ss = 1 - prod_list (map (\<lambda>s. 1 - s) ss)"
proof (cases "length ss = 1")
  case True
  then obtain s where "ss = [s]" by (cases ss) auto
  then show ?thesis by (simp add: combine_def)
qed (simp add: combine_def foldl_mult)

lemma prod_bounds:
  "(\<And>s. s \<in> set ss \<Longrightarrow> 0 \<le> s \<and> s \<le> 1) \<Longrightarrow>
     0 \<le> prod_list (map (\<lambda>s. 1 - s) ss) \<and> prod_list (map (\<lambda>s. 1 - s) ss) \<le> (1 :: rat)
     \<and> (\<forall>s\<in>set ss. prod_list (map (\<lambda>s. 1 - s) ss) \<le> 1 - s)"
proof (induction ss)
  case (Cons s ss)
  let ?p = "prod_list (map (\<lambda>s. 1 - s) ss)"
  have s: "0 \<le> 1 - s" "1 - s \<le> 1" using Cons.prems [of s] by simp_all
  have p: "0 \<le> ?p" "?p \<le> 1" "\<forall>s\<in>set ss. ?p \<le> 1 - s" using Cons by auto
  have "(1 - s) * ?p \<le> 1 - s" using mult_left_mono [OF p(2) s(1)] by simp
  moreover have "(1 - s) * ?p \<le> ?p" using mult_right_mono [OF s(2) p(1)] by simp
  ultimately show ?case using s p by (auto intro: order_trans)
qed simp

text \<open>
  The fused ranking. Its marks are exactly those some layer gave evidence for, each once, in the
  order of falling scores; the score of a mark is one minus the product of what its evidence leaves
  open, so it lies between zero and one and never below the score of any single layer.
\<close>
theorem fuse_candidates_ranked:
  fixes l1_marks l2_candidate l2_confidence l3_hits
  assumes "0 \<le> l2_confidence" "list_all (\<lambda>(_, s, _). 0 \<le> s \<and> s \<le> 1) l3_hits"
  defines "items \<equiv> evidence_items l1_marks l2_candidate l2_confidence l3_hits"
  shows "sorted (map (\<lambda>(_, s, _). - s) (fuse_candidates l1_marks l2_candidate l2_confidence l3_hits))
    \<and> distinct (map fst (fuse_candidates l1_marks l2_candidate l2_confidence l3_hits))
    \<and> fst ` set (fuse_candidates l1_marks l2_candidate l2_confidence l3_hits) = fst ` set items
    \<and> list_all (\<lambda>(m, s, _). s = 1 - prod_list (map (\<lambda>(_, x, _). 1 - x) (filter (\<lambda>i. fst i = m) items))
          \<and> 0 \<le> s \<and> s \<le> 1 \<and> list_all (\<lambda>(k, x, _). k = m \<longrightarrow> x \<le> s) items)
        (fuse_candidates l1_marks l2_candidate l2_confidence l3_hits)"
proof -
  define ev where "ev = fold (\<lambda>(m, e). add_evidence m e) items []"
  define raw where "raw = map (\<lambda>(m, es). (m, combine (map fst es), join (u ''+'') (map snd es))) ev"
  have ranked: "fuse_candidates l1_marks l2_candidate l2_confidence l3_hits = sort_key (\<lambda>(_, s, _). - s) raw"
    by (simp add: fuse_candidates_def raw_def ev_def items_def Let_def)
  have ev: "distinct (map fst ev)"
    "map_of ev k = (if k \<in> fst ` set items then Some (map snd (filter (\<lambda>x. fst x = k) items)) else None)" for k
    using evidence_fold [of items] unfolding ev_def by blast+
  have keys: "fst ` set raw = fst ` set items"
  proof -
    have "map fst raw = map fst ev" by (simp add: raw_def o_def case_prod_beta)
    then have "fst ` set raw = fst ` set ev" by (metis set_map)
    also have "\<dots> = dom (map_of ev)" by (simp add: dom_map_of_conv_image_fst)
    also have "\<dots> = fst ` set items" by (auto simp: ev(2) dom_def split: if_splits)
    finally show ?thesis .
  qed
  have "map fst raw = map fst ev" by (simp add: raw_def o_def case_prod_beta)
  then have dist: "distinct (map fst raw)" using ev(1) by simp
  have unit: "0 \<le> x \<and> x \<le> 1" if "(k, x, l) \<in> set items" for k x l
    using that assms(1,2) by (auto simp: items_def evidence_items_def list_all_iff min_def split: option.splits if_splits)
  have score: "s = 1 - prod_list (map (\<lambda>(_, x, _). 1 - x) (filter (\<lambda>i. fst i = m) items))
      \<and> 0 \<le> s \<and> s \<le> 1 \<and> list_all (\<lambda>(k, x, _). k = m \<longrightarrow> x \<le> s) items"
    if r: "(m, s, l) \<in> set raw" for m s l
  proof -
    obtain es where es: "(m, es) \<in> set ev" "s = combine (map fst es)" using r by (auto simp: raw_def)
    then have "es = map snd (filter (\<lambda>x. fst x = m) items)"
      using ev(1) ev(2) [of m] by (auto simp: map_of_is_SomeI split: if_splits)
    then have s: "s = 1 - prod_list (map (\<lambda>s. 1 - s) (map (fst \<circ> snd) (filter (\<lambda>i. fst i = m) items)))"
      using es(2) by (simp add: combine_prod o_def)
    let ?xs = "map (fst \<circ> snd) (filter (\<lambda>i. fst i = m) items)"
    have "0 \<le> x \<and> x \<le> 1" if "x \<in> set ?xs" for x
      using that unit by auto
    then have b: "0 \<le> prod_list (map (\<lambda>s. 1 - s) ?xs) \<and> prod_list (map (\<lambda>s. 1 - s) ?xs) \<le> 1
        \<and> (\<forall>s\<in>set ?xs. prod_list (map (\<lambda>s. 1 - s) ?xs) \<le> 1 - s)"
      by (rule prod_bounds)
    have "x \<le> s" if i: "(m, x, l) \<in> set items" for x l
    proof -
      have "x \<in> set ?xs" using i by force
      then show ?thesis using b unfolding s by force
    qed
    moreover have "map (\<lambda>s. 1 - s) ?xs = map (\<lambda>(_, x, _). 1 - x) (filter (\<lambda>i. fst i = m) items)"
      by (simp add: case_prod_beta)
    then have "s = 1 - prod_list (map (\<lambda>(_, x, _). 1 - x) (filter (\<lambda>i. fst i = m) items))"
      using s by (simp only:)
    moreover have "0 \<le> s" "s \<le> 1" using b s by linarith+
    ultimately show ?thesis by (auto simp: list_all_iff)
  qed
  have "list_all (\<lambda>(m, s, _). s = 1 - prod_list (map (\<lambda>(_, x, _). 1 - x) (filter (\<lambda>i. fst i = m) items))
          \<and> 0 \<le> s \<and> s \<le> 1 \<and> list_all (\<lambda>(k, x, _). k = m \<longrightarrow> x \<le> s) items) (sort_key (\<lambda>(_, s, _). - s) raw)"
    unfolding list_all_iff [of _ "sort_key (\<lambda>(_, s, _). - s) raw"] set_sort
  proof (rule ballI)
    fix x assume x: "x \<in> set raw"
    obtain m s l where e: "x = (m, s, l)" by (cases x)
    show "case x of (m, s, _) \<Rightarrow> s = 1 - prod_list (map (\<lambda>(_, x, _). 1 - x) (filter (\<lambda>i. fst i = m) items))
          \<and> 0 \<le> s \<and> s \<le> 1 \<and> list_all (\<lambda>(k, x, _). k = m \<longrightarrow> x \<le> s) items"
      unfolding e prod.case using score x unfolding e by blast
  qed
  then show ?thesis unfolding ranked using keys dist by (simp add: distinct_map)
qed

theorem fuse_candidates_ranked_witness:
  "fst ` set (fuse_candidates [[1], [2]] (Some [2]) 1 []) = {[1], [2]}"
  using fuse_candidates_ranked [of 1 "[]" "[[1], [2]]" "Some [2]"]
  by (auto simp: evidence_items_def)

section \<open>Layers together\<close>

lemma set_join_cases: "set (join sep ps) \<subseteq> set sep \<union> \<Union> (set ` set ps)"
  by (induction sep ps rule: join.induct) auto

lemma set_ws_lines: "l \<in> set (ws_lines bits lines) \<Longrightarrow> set l \<subseteq> {9, 32} \<union> \<Union> (set ` set lines)"
  by (induction bits lines rule: ws_lines.induct) (auto split: if_splits)

lemma split_on_chars: "p \<in> set (split_on c s) \<Longrightarrow> set p \<subseteq> set s"
proof (induction s arbitrary: p)
  case (Cons x s)
  then show ?case by (fastforce split: if_splits list.splits)
qed simp

lemma embed_ws_chars: "set (embed_ws doc m) \<subseteq> set doc \<union> {9, 10, 32}"
  using set_join_cases [of "[10]" "ws_lines (bits_of m) (split_on 10 doc)"] set_ws_lines [of _ "bits_of m" "split_on 10 doc"]
    split_on_chars [of _ 10 doc]
  unfolding embed_ws_def by fastforce

text \<open>
  C39: end to end through the two invisible layers. A text without zero-width characters always takes
  its marks without an exception, and reading the marked text back gives the mark from layer L1, once
  for a short text and once per forty characters otherwise: so it is found unless the text is exactly
  forty characters long once L2 has run.
\<close>
theorem apply_all_recovers:
  assumes "zw_free doc"
  shows "\<exists>s. apply_all U doc mark False mode = Inr s
     \<and> L1_zero_width (recover_marks s (length mark)) =
         (let k = length (embed_ws doc mark) in replicate (if k < 40 then 1 else (k - 1) div 40) mark)"
proof -
  have "zw_free (embed_ws doc mark)"
    using embed_ws_chars [of doc mark] assms by (auto simp: zw_free_def ZW_SPACE_def ZW_NONJOIN_def ZW_JOIN_def)
  then show ?thesis using embed_zw_extract [of 40 "embed_ws doc mark" mark "length mark"]
    by (auto simp: apply_all_def recover_marks_def Let_def)
qed

theorem apply_all_recovers_witness:
  "\<exists>s. apply_all ascii_ucd [97, 98, 99] [0x5A] False [] = Inr s \<and> L1_zero_width (recover_marks s 1) = [[0x5A]]"
  using apply_all_recovers [of "[97, 98, 99]" ascii_ucd "[0x5A]" "[]"]
  by (simp add: zw_free_def ZW_SPACE_def ZW_NONJOIN_def ZW_JOIN_def embed_ws_def Let_def
      ws_lines.simps byte_bits_def rstrip_def is_space_def upt_rec split: list.splits)

lemma scatter_skip:
  "0 < d \<Longrightarrow> (\<And>j. i \<le> j \<Longrightarrow> j < i + length a \<Longrightarrow> j = 0 \<or> \<not> d dvd j) \<Longrightarrow>
     scatter f (int d) i (a @ b) = ebind (scatter f (int d) (i + length a) b) (\<lambda>out. Inr (a @ out))"
proof (induction a arbitrary: i)
  case Nil
  then show ?case by (cases "scatter f (int d) i b") auto
next
  case (Cons c a)
  have "scatter f (int d) (Suc i) (a @ b) = ebind (scatter f (int d) (Suc i + length a) b) (\<lambda>out. Inr (a @ out))"
  proof (rule Cons.IH [OF Cons.prems(1)])
    fix j assume "Suc i \<le> j" "j < Suc i + length a"
    then show "j = 0 \<or> \<not> d dvd j" using Cons.prems(2) [of j] by simp
  qed
  moreover have "\<not> (0 < i \<and> int i mod int d = 0)"
    using Cons.prems(2) [of i] by (auto simp: mod_eq_0_iff_dvd)
  ultimately show ?case using Cons.prems(1) by (auto simp: ebind_assoc)
qed

text \<open>Eight lines of four letters, enough for one byte of L2.\<close>

definition eight_lines :: pystr where
  "eight_lines = join [10] (replicate 8 [97, 97, 97, 97])"

definition four :: pystr where
  "four = [97, 97, 97, 97]"

definition marked_head :: pystr where
  "marked_head = four @ [32, 10] @ four @ [9, 10] @ four @ [32, 10] @ four @ [9, 10] @ four @ [9, 10] @ four @ [32, 10] @ four"

text \<open>The forty-first character is the tab of line seven; there L1 puts its frame, behind which the tab ends no line.\<close>

lemma eight_framed:
  "embed_zw (marked_head @ 9 # [10] @ four @ [32]) [0x5A] 40 = Inr (marked_head @ 9 # zw_frame [0x5A] @ [10] @ four @ [32])"
proof -
  let ?f = "zw_frame [0x5A]" and ?r = "[10] @ four @ [32]"
  have len: "length marked_head = 40" "length (marked_head @ 9 # ?r) = 47" by (simp_all add: marked_head_def four_def)
  have "scatter ?f (int 40) 41 (?r @ []) = ebind (scatter ?f (int 40) (41 + length ?r) []) (\<lambda>out. Inr (?r @ out))"
  proof (rule scatter_skip)
    fix j assume "41 \<le> j" "j < 41 + length ?r"
    then have "41 \<le> j \<and> j < 47" by (simp add: four_def)
    moreover have "j \<noteq> 40 * k" if "41 \<le> j \<and> j < 47" for k using that by (cases k; cases "k - 1") auto
    ultimately show "j = 0 \<or> \<not> 40 dvd j" by (auto elim!: dvdE)
  qed simp
  then have r: "scatter ?f (int 40) 41 ?r = Inr ?r" by (simp only: append_Nil2 scatter.simps ebind_Inr)
  have nine: "scatter ?f (int 40) 40 (9 # ?r) = Inr (9 # ?f @ ?r)"
    using r by (simp only: scatter.simps) simp
  have "scatter ?f (int 40) 0 (marked_head @ 9 # ?r)
      = ebind (scatter ?f (int 40) (0 + length marked_head) (9 # ?r)) (\<lambda>out. Inr (marked_head @ out))"
  proof (rule scatter_skip)
    fix j assume "j < 0 + length marked_head"
    then have "j < 40" using len by simp
    then show "j = 0 \<or> \<not> 40 dvd j" by (auto dest: dvd_imp_le)
  qed simp
  then have "scatter ?f (int 40) 0 (marked_head @ 9 # ?r) = Inr (marked_head @ 9 # ?f @ ?r)"
    by (simp only: len(1) add_0 nine ebind_Inr)
  moreover have "\<not> int (length (marked_head @ 9 # ?r)) < 40" unfolding len(2) by simp
  ultimately show ?thesis by (simp only: embed_zw_def Let_def if_False of_nat_numeral)
qed

text \<open>
  Layer L1 hides bits of layer L2: a frame put behind the blank at the end of a line ends that line
  with a joiner, and the reader of L2, which does not remove zero-width characters, passes the line
  over. Eight lines that give a one byte mark back right after L2 give nothing after L1.
\<close>
theorem zw_hides_ws_bit:
  "L2_whitespace (recover_marks (embed_ws eight_lines [0x5A]) 1) = [[0x5A]]
   \<and> (\<exists>s. apply_all ascii_ucd eight_lines [0x5A] False [] = Inr s \<and> L2_whitespace (recover_marks s 1) = [])"
proof -
  have eight: "split_on 10 eight_lines = replicate 8 four"
    unfolding eight_lines_def four_def by (rule split_on_join) auto
  moreover have bits: "bits_of [0x5A] = [0, 1, 0, 1, 1, 0, 1, 0]" by code_simp
  moreover have "replicate 8 four = [four, four, four, four, four, four, four, four]" by (simp add: numeral_eq_Suc)
  ultimately have marked: "embed_ws eight_lines [0x5A] = marked_head @ 9 # [10] @ four @ [32]"
    by (simp add: embed_ws_def marked_head_def four_def rstrip_def is_space_def)
  have "zw_frame [0x5A] = [0x200d, 0x200b, 0x200c, 0x200b, 0x200c, 0x200c, 0x200b, 0x200c, 0x200b, 0x200d]"
    unfolding zw_frame_def bits by (simp add: ZW_JOIN_def ZW_SPACE_def ZW_NONJOIN_def)
  then have "extract_ws (marked_head @ 9 # zw_frame [0x5A] @ [10] @ four @ [32]) 1 = None"
    by (simp add: extract_ws_def marked_head_def four_def Let_def line_bit_def)
  moreover have "extract_ws (embed_ws eight_lines [0x5A]) 1 = Some [0x5A]"
    using ws_roundtrip_parts(1) [of eight_lines "[0x5A]"] eight
    by (simp add: no_trailing_blank_def free_lines_def free_line_def four_def line_bit_def rstrip_def is_space_def list_all_iff)
  ultimately show ?thesis by (simp only: apply_all_def recover_marks_def if_False ebind_Inr marked eight_framed) simp
qed

end
