(* ===== verification/Interfaces.thy ===== *)
theory Interfaces
  imports Prelude
begin

text \<open>
  The contracts between components. \<open>append_log\<close> is what the registry relies on of the
  transparency log: an accepted entry goes behind the entries before it, its index is their
  number, and nothing before it changes. \<open>keyed_table\<close> is what the registry and the connectors
  rely on of a table with a primary key: a row written is the row read under its key, the other
  keys keep theirs; a row without a key (a SQL \<open>NULL\<close>) is found under none. The components that provide them interpret them.
\<close>

section \<open>Append-only logs\<close>

text \<open>A run of appends that stops at the first failure.\<close>

fun add_all :: "('e \<Rightarrow> 's \<Rightarrow> 's \<times> nat res) \<Rightarrow> 'e list \<Rightarrow> 's \<Rightarrow> 's \<times> nat list res" where
  "add_all add [] s = (s, Inr [])"
| "add_all add (e # es) s =
     (case add e s of
        (s1, Inl x) \<Rightarrow> (s1, Inl x)
      | (s1, Inr i) \<Rightarrow>
          (case add_all add es s1 of
             (s2, Inl x) \<Rightarrow> (s2, Inl x)
           | (s2, Inr is) \<Rightarrow> (s2, Inr (i # is))))"

locale append_log =
  fixes add :: "'e \<Rightarrow> 's \<Rightarrow> 's \<times> nat res"
    and entries :: "'s \<Rightarrow> 'h list"
    and inv :: "'s \<Rightarrow> bool"
    and leaf :: "'e \<Rightarrow> 'h"
  assumes add_ok: "inv s \<Longrightarrow> add e s = (s', Inr i) \<Longrightarrow>
    inv s' \<and> entries s' = entries s @ [leaf e] \<and> i = length (entries s)"
begin

lemma add_grows: "inv s \<Longrightarrow> add e s = (s', Inr i) \<Longrightarrow> prefixed (entries s) (entries s')"
  using add_ok by fastforce

lemma add_reads: "inv s \<Longrightarrow> add e s = (s', Inr i) \<Longrightarrow> i < length (entries s') \<and> entries s' ! i = leaf e"
  using add_ok by fastforce

lemma add_keeps: "inv s \<Longrightarrow> add e s = (s', Inr i) \<Longrightarrow> j < length (entries s) \<Longrightarrow> entries s' ! j = entries s ! j"
  using add_ok [of s e s' i] by (simp add: nth_append)

lemma add_all_ok:
  "inv s \<Longrightarrow> add_all add es s = (s', Inr is) \<Longrightarrow>
     inv s' \<and> entries s' = entries s @ map leaf es
     \<and> is = [length (entries s) ..< length (entries s) + length es]"
proof (induction es arbitrary: s "is")
  case (Cons e es)
  obtain s1 r where r: "add e s = (s1, r)" by force
  then obtain i where i: "add e s = (s1, Inr i)" using Cons.prems(2) by (cases r) auto
  obtain "is'" where "add_all add es s1 = (s', Inr is')" "is = i # is'"
    using Cons.prems(2) i by (auto split: prod.splits sum.splits)
  moreover have "inv s1 \<and> entries s1 = entries s @ [leaf e] \<and> i = length (entries s)"
    using add_ok [OF Cons.prems(1) i] .
  ultimately show ?case using Cons.IH [of s1 "is'"] by (auto simp: upt_conv_Cons simp del: upt_Suc)
qed simp

end

section \<open>Tables with a primary key\<close>

locale keyed_table =
  fixes put :: "'r \<Rightarrow> 't \<Rightarrow> 't"
    and get :: "'k \<Rightarrow> 't \<Rightarrow> 'r option"
    and row_key :: "'r \<Rightarrow> 'k option"
  assumes get_put: "get k (put r t) = (if row_key r = Some k then Some r else get k t)"
begin

lemma get_put_same: "row_key r = Some k \<Longrightarrow> get k (put r t) = Some r"
  by (simp add: get_put)

lemma get_put_other: "row_key r \<noteq> Some k \<Longrightarrow> get k (put r t) = get k t"
  by (simp add: get_put)

lemma get_fold_other:
  "(\<And>r. r \<in> set rs \<Longrightarrow> row_key r \<noteq> Some k) \<Longrightarrow> get k (fold put rs t) = get k t"
  by (induction rs arbitrary: t) (auto simp: get_put)

lemma get_fold_last:
  "get k (fold put rs t) =
     (case find (\<lambda>r. row_key r = Some k) (rev rs) of Some r \<Rightarrow> Some r | None \<Rightarrow> get k t)"
  by (induction rs rule: rev_induct) (auto simp: get_put)

end

end
