(* ===== verification/Tables.thy ===== *)
theory Tables
  imports Interfaces
begin

text \<open>
  Rows kept in order under a key: an \<open>OrderedDict\<close> whose entries are taken out and put back at the
  end, and a SQL table with a primary key under \<open>INSERT OR REPLACE\<close>, which deletes the row of the
  same key and appends the new one. Both promise the contract \<open>keyed_table\<close>.
\<close>

definition put_row :: "('r \<Rightarrow> 'k) \<Rightarrow> 'r \<Rightarrow> 'r list \<Rightarrow> 'r list" where
  "put_row kf r t = filter (\<lambda>x. kf x \<noteq> kf r) t @ [r]"

definition get_row :: "('r \<Rightarrow> 'k) \<Rightarrow> 'k \<Rightarrow> 'r list \<Rightarrow> 'r option" where
  "get_row kf k t = find (\<lambda>r. kf r = k) t"

lemma get_row_append: "get_row kf k (xs @ ys) = (case get_row kf k xs of Some r \<Rightarrow> Some r | None \<Rightarrow> get_row kf k ys)"
  by (induction xs) (auto simp: get_row_def)

lemma get_row_Nil [simp]: "get_row kf k [] = None"
  and get_row_Cons [simp]: "get_row kf k (r # t) = (if kf r = k then Some r else get_row kf k t)"
  by (simp_all add: get_row_def)

lemma get_row_filter:
  "get_row kf k (filter (\<lambda>x. kf x \<noteq> k') t) = (if k = k' then None else get_row kf k t)"
  by (induction t) auto

lemma get_row_SomeD: "get_row kf k t = Some r \<Longrightarrow> r \<in> set t \<and> kf r = k"
  by (induction t) (auto split: if_splits)

lemma get_row_None: "get_row kf k t = None \<longleftrightarrow> k \<notin> kf ` set t"
  by (induction t) auto

lemma put_row_other: "r \<in> set t \<Longrightarrow> kf r \<noteq> kf n \<Longrightarrow> r \<in> set (put_row kf n t)"
  by (simp add: put_row_def)

lemma get_row_distinct: "distinct (map kf t) \<Longrightarrow> r \<in> set t \<Longrightarrow> get_row kf (kf r) t = Some r"
  by (induction t) (auto simp: rev_image_eqI)

lemma put_row_distinct: "distinct (map kf t) \<Longrightarrow> distinct (map kf (put_row kf r t))"
  by (auto simp: put_row_def distinct_map inj_on_def)

lemma set_put_row: "set (put_row kf r t) = insert r {x \<in> set t. kf x \<noteq> kf r}"
  by (auto simp: put_row_def)

lemma length_put_row: "length (put_row kf r t) \<le> Suc (length t)"
  by (simp add: put_row_def)

lemma get_row_put: "get_row kf k (put_row kf r t) = (if k = kf r then Some r else get_row kf k t)"
  by (auto simp: put_row_def get_row_append get_row_filter split: option.split)

end
