(* ===== verification/RateLimit.thy ===== *)
theory RateLimit
  imports Tables PyObj
begin

text \<open>
  Who a request of the registry comes from and how often it may (\<open>src/registry/server.py\<close>):
  the token bucket with its bound on the number of clients it remembers, and the choice of the
  client's address behind a proxy. Monotonic time is an exact rational argument.
\<close>

section \<open>The token bucket\<close>

record bucket =
  b_rate :: rat
  b_burst :: nat
  b_max_keys :: nat
  b_state :: "(pystr \<times> rat \<times> rat) list"

definition bucket_new :: "rat \<Rightarrow> nat \<Rightarrow> nat \<Rightarrow> bucket" where
  "bucket_new rate burst max_keys =
     \<lparr>b_rate = rate, b_burst = burst, b_max_keys = max_keys, b_state = []\<rparr>"

definition BUCKET :: bucket where
  "BUCKET = bucket_new 10 30 100000"

fun evict :: "nat \<Rightarrow> 'a list \<Rightarrow> 'a list" where
  "evict max_keys [] = []"
| "evict max_keys (x # xs) =
     (if max_keys < length (x # xs) then evict max_keys xs else x # xs)"

definition refilled :: "rat \<Rightarrow> pystr \<Rightarrow> bucket \<Rightarrow> rat" where
  "refilled now k b =
     (let (tokens, last) =
            (case get_row fst k (b_state b) of
               Some (_, v) \<Rightarrow> v
             | None \<Rightarrow> (of_nat (b_burst b), now))
      in min (of_nat (b_burst b)) (tokens + (now - last) * b_rate b))"

definition allow :: "rat \<Rightarrow> pystr \<Rightarrow> bucket \<Rightarrow> bucket \<times> bool" where
  "allow now k b =
     (let tokens = refilled now k b
      in if tokens < 1
         then (b\<lparr>b_state := evict (b_max_keys b) (put_row fst (k, tokens, now) (b_state b))\<rparr>, False)
         else (b\<lparr>b_state := evict (b_max_keys b) (put_row fst (k, tokens - 1, now) (b_state b))\<rparr>, True))"

text \<open>The remembered clients are a table under the client's name, until one is evicted.\<close>

interpretation clients: keyed_table "put_row fst" "get_row fst" "\<lambda>r. Some (fst r)"
  by unfold_locales (auto simp: get_row_put)

lemma evict_drop: "evict m xs = drop (length xs - m) xs"
  by (induction xs) (auto simp: Suc_diff_le)

lemma evict_id: "length xs \<le> m \<Longrightarrow> evict m xs = xs"
  by (simp add: evict_drop)

lemma length_evict: "length (evict m xs) \<le> m"
  by (simp add: evict_drop)

lemma evict_distinct: "distinct (map f xs) \<Longrightarrow> distinct (map f (evict m xs))"
  by (simp add: evict_drop flip: drop_map)

text \<open>A sequence of requests, each with its time and its client.\<close>

fun admit_all :: "(rat \<times> pystr) list \<Rightarrow> bucket \<Rightarrow> bucket \<times> bool list" where
  "admit_all [] b = (b, [])"
| "admit_all ((now, k) # rs) b =
     (let (b1, ok) = allow now k b; (b2, oks) = admit_all rs b1 in (b2, ok # oks))"

text \<open>What one client got admitted.\<close>

definition admitted :: "pystr \<Rightarrow> (rat \<times> pystr) list \<Rightarrow> bucket \<Rightarrow> nat" where
  "admitted k rs b = length (filter (\<lambda>((_, k'), ok). k' = k \<and> ok) (zip rs (snd (admit_all rs b))))"

lemma admitted_Nil [simp]: "admitted k [] b = 0"
  by (simp add: admitted_def)

lemma admitted_Cons:
  "admitted k ((now, k') # rs) b =
     (if k' = k \<and> snd (allow now k' b) then 1 else 0) + admitted k rs (fst (allow now k' b))"
  by (simp add: admitted_def split: prod.splits)

lemma allow_frame:
  "b_rate (fst (allow now k b)) = b_rate b"
  "b_burst (fst (allow now k b)) = b_burst b"
  "b_max_keys (fst (allow now k b)) = b_max_keys b"
  by (simp_all add: allow_def Let_def)

lemma allow_bounded:
  "length (b_state (fst (allow now k b))) \<le> b_max_keys b"
  "distinct (map fst (b_state b)) \<Longrightarrow> distinct (map fst (b_state (fst (allow now k b))))"
  by (simp_all add: allow_def length_evict evict_distinct put_row_distinct Let_def)

lemma allow_keys: "fst ` set (b_state (fst (allow now k b))) \<subseteq> insert k (fst ` set (b_state b))"
proof -
  have "fst ` set (evict m (put_row fst (k, v) t)) \<subseteq> insert k (fst ` set t)" for m t and v :: "rat \<times> rat"
    using set_drop_subset by (fastforce simp: evict_drop set_put_row dest: in_set_dropD)
  then show ?thesis by (simp add: allow_def Let_def)
qed

lemma admit_all_bounded:
  "length (b_state b) \<le> b_max_keys b \<Longrightarrow> distinct (map fst (b_state b)) \<Longrightarrow>
     length (b_state (fst (admit_all rs b))) \<le> b_max_keys b
     \<and> distinct (map fst (b_state (fst (admit_all rs b))))"
proof (induction rs b rule: admit_all.induct)
  case (2 now k rs b)
  obtain b1 ok where b1: "allow now k b = (b1, ok)" by force
  have "length (b_state b1) \<le> b_max_keys b1" "distinct (map fst (b_state b1))" "b_max_keys b1 = b_max_keys b"
    using allow_bounded [where b = b and now = now and k = k] allow_frame [where b = b and now = now and k = k] 2
    by (simp_all add: b1)
  then show ?case using 2(1) [OF b1 [symmetric]] b1 by (auto split: prod.splits)
qed simp

text \<open>
  The account of one client: while its row is kept, what it got admitted since \<open>t0\<close> and what it
  still has are at most the burst and what has been refilled since.
\<close>

definition account :: "rat \<Rightarrow> pystr \<Rightarrow> nat \<Rightarrow> rat \<Rightarrow> bucket \<Rightarrow> bool" where
  "account t0 k n now b \<longleftrightarrow>
     (case get_row fst k (b_state b) of
        None \<Rightarrow> n = 0
      | Some (_, tokens, since) \<Rightarrow>
          of_nat n + tokens \<le> of_nat (b_burst b) + b_rate b * (since - t0) \<and> since \<le> now \<and> 0 \<le> tokens)"

lemma account_allow:
  assumes "account t0 k n t b" "t \<le> now" "t0 \<le> t" "0 \<le> b_rate b"
    and "length (put_row fst (k', v) (b_state b)) \<le> b_max_keys b"
  shows "account t0 k (n + (if k' = k \<and> snd (allow now k' b) then 1 else 0)) now (fst (allow now k' b))"
proof -
  have len: "length (put_row fst (k', w) (b_state b)) \<le> b_max_keys b" for w
    using assms(5) by (simp add: put_row_def)
  show ?thesis
  proof (cases "k' = k")
    case False
    then show ?thesis using assms(1,2)
      by (auto simp: account_def allow_def Let_def evict_id [OF len] clients.get_put split: option.splits)
  next
    case True
    have "of_nat n + refilled now k b \<le> of_nat (b_burst b) + b_rate b * (now - t0) \<and> 0 \<le> refilled now k b"
    proof (cases "get_row fst k (b_state b)")
      case None
      then show ?thesis using assms by (simp add: account_def refilled_def)
    next
      case (Some r)
      then obtain tokens since where r: "r = (k, tokens, since)"
        using get_row_SomeD [OF Some] by (cases r) auto
      have l: "of_nat n + tokens \<le> of_nat (b_burst b) + b_rate b * (since - t0)" "since \<le> t" "0 \<le> tokens"
        using assms(1) Some r by (simp_all add: account_def)
      then have nn: "0 \<le> (now - since) * b_rate b" using assms(2,4) by simp
      have "of_nat n + (tokens + (now - since) * b_rate b) \<le> of_nat (b_burst b) + b_rate b * (now - t0)"
        using l(1) by (simp add: algebra_simps)
      then show ?thesis using Some r l nn by (simp add: refilled_def min_le_iff_disj)
    qed
    then show ?thesis using True assms(2)
      by (auto simp: account_def allow_def Let_def evict_id [OF len [unfolded True]] clients.get_put)
  qed
qed

section \<open>The address of a client\<close>

text \<open>
  What the handlers read of a request: its headers under lower-case names (the first of a name
  counts) and the address of the connection, when there is one.
\<close>

record request =
  headers :: "(string \<times> pystr) list"
  client_host :: "pystr option"

definition header :: "request \<Rightarrow> string \<Rightarrow> pystr" where
  "header r name = (case map_of (headers r) name of Some v \<Rightarrow> v | None \<Rightarrow> [])"

definition xff_client :: "pystr \<Rightarrow> pystr option" where
  "xff_client xff =
     (let parts = map strip (filter (\<lambda>p. strip p \<noteq> []) (split_on 44 xff))
      in if parts \<noteq> [] then Some (last parts) else None)"

definition client_key :: "bool \<Rightarrow> request \<Rightarrow> pystr" where
  "client_key trusted_proxy r =
     (let xff = header r ''x-forwarded-for'';
          client = (if trusted_proxy \<and> xff \<noteq> [] then xff_client xff else None)
      in case client of
           Some c \<Rightarrow> c
         | None \<Rightarrow> (case client_host r of Some h \<Rightarrow> h | None \<Rightarrow> u ''unknown''))"

definition rate_limit :: "bool \<Rightarrow> rat \<Rightarrow> request \<Rightarrow> bucket \<Rightarrow> bucket \<times> unit res" where
  "rate_limit trusted_proxy now r b =
     (let (b1, ok) = allow now (client_key trusted_proxy r) b
      in (b1, if ok then Inr () else Inl (HTTPException 429 ''rate limit exceeded'')))"

lemma split_on_last: "c \<notin> set p \<Longrightarrow> split_on c (s @ c # p) = split_on c s @ [p]"
  by (induction s) (auto simp: split_on_single split: list.splits)

lemma xff_client_last: "44 \<notin> set p \<Longrightarrow> strip p \<noteq> [] \<Longrightarrow> xff_client (s @ 44 # p) = Some (strip p)"
  by (simp add: xff_client_def split_on_last)


lemma admitted_account:
  assumes "account t0 k n t b" "t0 \<le> t" "0 \<le> b_rate b" "sorted (t # map fst rs)"
    and "finite K" "card K \<le> b_max_keys b" "fst ` set (b_state b) \<subseteq> K" "snd ` set rs \<subseteq> K"
    and "distinct (map fst (b_state b))"
  shows "account t0 k (n + admitted k rs b) (last (t # map fst rs)) (fst (admit_all rs b))"
  using assms
proof (induction rs arbitrary: t n b)
  case (Cons r rs)
  obtain now k' where r: "r = (now, k')" by force
  obtain b1 ok where b1: "allow now k' b = (b1, ok)" by force
  define row where "row = put_row fst (k', refilled now k' b, now) (b_state b)"
  have d: "distinct (map fst row)" using Cons.prems(9) by (simp add: row_def put_row_distinct)
  have sub: "fst ` set row \<subseteq> K" using Cons.prems(7,8) r by (auto simp: row_def set_put_row)
  have "length row = card (fst ` set row)" using d distinct_card by fastforce
  also have "\<dots> \<le> b_max_keys b" using card_mono [OF Cons.prems(5) sub] Cons.prems(6) by simp
  finally have len: "length row \<le> b_max_keys b" .
  let ?n = "n + (if k' = k \<and> ok then 1 else 0)"
  have "account t0 k ?n now b1"
    using account_allow [OF Cons.prems(1), of now k' "(refilled now k' b, now)"] Cons.prems(2,3,4) len
    by (simp add: b1 r row_def)
  moreover have "fst ` set (b_state b1) \<subseteq> K"
    using allow_keys [of now k' b] b1 Cons.prems(7,8) r by (auto dest: subsetD)
  moreover have "distinct (map fst (b_state b1))"
    using allow_bounded(2) [OF Cons.prems(9), of now k'] by (simp add: b1)
  moreover have "b_rate b1 = b_rate b" "b_max_keys b1 = b_max_keys b"
    using allow_frame [of now k' b] by (simp_all add: b1)
  moreover have "last (t # map fst (r # rs)) = last (now # map fst rs)" by (simp add: r)
  ultimately show ?case
    using Cons.IH [of ?n now b1] Cons.prems by (auto simp: r admitted_Cons b1 ac_simps split: prod.splits)
qed simp

lemma admitted_bound:
  assumes "0 \<le> rate" "sorted (map fst rs)" "rs \<noteq> []" "card (snd ` set rs) \<le> max_keys"
  shows "of_nat (admitted k rs (bucket_new rate burst max_keys))
           \<le> of_nat burst + rate * (fst (last rs) - fst (hd rs))"
proof -
  let ?b = "bucket_new rate burst max_keys" and ?t0 = "fst (hd rs)"
  have f: "b_rate (fst (admit_all rs b)) = b_rate b \<and> b_burst (fst (admit_all rs b)) = b_burst b" for b
    by (induction rs b rule: admit_all.induct)
       (auto simp: allow_frame split: prod.splits dest: arg_cong [of _ "(_, _)" fst], metis allow_frame(1) fst_conv, metis allow_frame(2) fst_conv)
  have "account ?t0 k (0 + admitted k rs ?b) (last (?t0 # map fst rs)) (fst (admit_all rs ?b))"
    by (rule admitted_account [where K = "snd ` set rs"])
       (use assms in \<open>cases rs; auto simp: bucket_new_def account_def\<close>)+
  moreover have "last (?t0 # map fst rs) = fst (last rs)" using assms(3) by (simp add: last_map)
  moreover have "0 \<le> rate * (fst (last rs) - ?t0)"
    using assms(1-3) by (cases rs) (auto simp: last_map)
  moreover have "rate * (since - ?t0) \<le> rate * (fst (last rs) - ?t0)" if "since \<le> fst (last rs)" for since
    using assms(1) that by (simp add: mult_left_mono)
  ultimately show ?thesis using f [of ?b]
    by (fastforce simp: account_def bucket_new_def split: option.splits)
qed


section \<open>Properties\<close>

text \<open>
  C40: As long as the bucket has to remember at most \<open>max_keys\<close> clients, no client is admitted more
  often than the burst plus the rate times the time from the first request to the last, in any
  sequence of requests of any clients at non-decreasing times.
\<close>

theorem rate_limit_bound:
  assumes "0 \<le> rate" "sorted (map fst rs)" "rs \<noteq> []" "card (snd ` set rs) \<le> max_keys"
  shows "of_nat (admitted k rs (bucket_new rate burst max_keys))
           \<le> of_nat burst + rate * (fst (last rs) - fst (hd rs))"
  using assms by (rule admitted_bound)

text \<open>Four requests of one client and one of another: two at once, a third refused, then refilled.\<close>

definition sample_requests :: "(rat \<times> pystr) list" where
  "sample_requests = [(0, [1]), (0, [1]), (0, [1]), (0, [2]), (1, [1])]"

theorem rate_limit_bound_witness:
  "admitted [1] sample_requests (bucket_new 1 2 5) = 3
   \<and> of_nat (admitted [1] sample_requests (bucket_new 1 2 5)) \<le> (of_nat 2 + 1 * (1 - 0) :: rat)"
proof -
  have "of_nat (admitted [1] sample_requests (bucket_new 1 2 5))
      \<le> of_nat 2 + 1 * (fst (last sample_requests) - fst (hd sample_requests))"
    by (rule rate_limit_bound) (simp_all add: sample_requests_def card_insert_if)
  moreover have "admitted [1] sample_requests (bucket_new 1 2 5) = 3"
    by (simp add: sample_requests_def admitted_def allow_def refilled_def bucket_new_def put_row_def)
  ultimately show ?thesis by (simp add: sample_requests_def)
qed

text \<open>
  Whatever requests arrive, the bucket never remembers more than \<open>max_keys\<close> clients, and each
  at most once.
\<close>

theorem bucket_bounded:
  "length (b_state (fst (admit_all rs (bucket_new rate burst max_keys)))) \<le> max_keys
   \<and> distinct (map fst (b_state (fst (admit_all rs (bucket_new rate burst max_keys)))))"
  using admit_all_bounded [of "bucket_new rate burst max_keys" rs] by (simp add: bucket_new_def)

text \<open>
  Behind the trusted proxy the client of a request is what the proxy appended, whatever the
  caller wrote into \<open>X-Forwarded-For\<close> before it: nobody chooses the bucket it is counted in.
\<close>

theorem client_key_unforgeable:
  assumes "header r ''x-forwarded-for'' = forged @ 44 # appended"
    and "44 \<notin> set appended" "strip appended \<noteq> []"
  shows "client_key True r = strip appended"
  using assms by (simp add: client_key_def xff_client_last)

theorem client_key_unforgeable_witness:
  "client_key True \<lparr>headers = [(''x-forwarded-for'', u ''10.0.0.1, 6.6.6.6, 203.0.113.9'')],
                     client_host = Some (u ''127.0.0.1'')\<rparr> = u ''203.0.113.9''"
proof -
  let ?r = "\<lparr>headers = [(''x-forwarded-for'', u ''10.0.0.1, 6.6.6.6, 203.0.113.9'')],
             client_host = Some (u ''127.0.0.1'')\<rparr>"
  have "client_key True ?r = strip (u '' 203.0.113.9'')"
    by (rule client_key_unforgeable [where forged = "u ''10.0.0.1, 6.6.6.6''"])
       (simp_all add: header_def u_def strip_def lstrip_def rstrip_def is_space_def)
  then show ?thesis by (simp add: u_def strip_def lstrip_def rstrip_def is_space_def)
qed

end
