(* ===== verification/PyBase64.thy ===== *)
theory PyBase64
  imports PyObj
begin

text \<open>
  Python's \<open>base64.b64encode\<close> and its lenient \<open>base64.b64decode\<close>, which passes over characters outside
  the alphabet and stops at the padding, with the round trip.
\<close>

definition b64_char :: "nat \<Rightarrow> nat" where
  "b64_char n =
     (if n < 26 then 65 + n else if n < 52 then 71 + n else if n < 62 then n - 4 else if n = 62 then 43 else 47)"

definition b64_val :: "nat \<Rightarrow> nat option" where
  "b64_val c =
     (if 65 \<le> c \<and> c \<le> 90 then Some (c - 65) else if 97 \<le> c \<and> c \<le> 122 then Some (c - 71)
      else if 48 \<le> c \<and> c \<le> 57 then Some (c + 4) else if c = 43 then Some 62
      else if c = 47 then Some 63 else None)"

lemma b64_val_char [simp]: "n < 64 \<Longrightarrow> b64_val (b64_char n) = Some n"
  by (auto simp: b64_val_def b64_char_def)

lemma b64_char_not_pad [simp]: "n < 64 \<Longrightarrow> b64_char n \<noteq> 61"
  by (auto simp: b64_char_def)

lemma b64_char_ascii: "n < 64 \<Longrightarrow> 43 \<le> b64_char n \<and> b64_char n < 123"
  by (auto simp: b64_char_def)

fun b64_groups :: "nat list \<Rightarrow> pystr" where
  "b64_groups (x # y # z # r) =
     b64_char (x div 4) # b64_char (x mod 4 * 16 + y div 16) # b64_char (y mod 16 * 4 + z div 64)
       # b64_char (z mod 64) # b64_groups r"
| "b64_groups [x, y] = [b64_char (x div 4), b64_char (x mod 4 * 16 + y div 16), b64_char (y mod 16 * 4), 61]"
| "b64_groups [x] = [b64_char (x div 4), b64_char (x mod 4 * 16), 61, 61]"
| "b64_groups [] = []"

definition b64encode :: "bytes \<Rightarrow> pystr" where
  "b64encode x = b64_groups (map unat x)"

text \<open>
  The decoder of \<open>binascii\<close>: \<open>quad\<close> is the position in the group of four, \<open>left\<close> the bits carried
  over, \<open>pads\<close> the padding seen since the last data character.
\<close>

fun b64_loop :: "nat \<Rightarrow> nat \<Rightarrow> nat \<Rightarrow> pystr \<Rightarrow> nat list res" where
  "b64_loop quad left pads [] =
     (if quad = 0 then Inr [] else Inl (ValueError ''Invalid base64-encoded string or padding''))"
| "b64_loop quad left pads (c # s) =
     (if c = 61 then
        (if 2 \<le> quad \<and> 4 \<le> quad + (pads + 1) then Inr []
         else b64_loop quad left (if 2 \<le> quad then pads + 1 else pads) s)
      else case b64_val c of
        None \<Rightarrow> b64_loop quad left pads s
      | Some v \<Rightarrow>
          (if quad = 0 then b64_loop 1 v 0 s
           else if quad = 1 then ebind (b64_loop 2 (v mod 16) 0 s) (\<lambda>r. Inr ((left * 4 + v div 16) # r))
           else if quad = 2 then ebind (b64_loop 3 (v mod 4) 0 s) (\<lambda>r. Inr ((left * 16 + v div 4) # r))
           else ebind (b64_loop 0 0 0 s) (\<lambda>r. Inr ((left * 64 + v) # r))))"

definition b64decode :: "pystr \<Rightarrow> bytes res" where
  "b64decode s =
     (if list_all (\<lambda>c. c < 128) s then ebind (b64_loop 0 0 0 s) (\<lambda>ns. Inr (map of_nat ns))
      else Inl (ValueError ''string argument should contain only ASCII characters''))"

definition py_b64decode :: "pyval \<Rightarrow> bytes res" where
  "py_b64decode v =
     (case v of
        PStr s \<Rightarrow> b64decode s
      | PBytes x \<Rightarrow> ebind (b64_loop 0 0 0 (map unat x)) (\<lambda>ns. Inr (map of_nat ns))
      | _ \<Rightarrow> Inl (TypeError ''argument should be a bytes-like object or ASCII string''))"

lemma pack: "k < n \<Longrightarrow> (m * n + k) div n = m \<and> (m * n + k) mod n = (k :: nat)"
  by simp

lemma pack_below: "m < a \<Longrightarrow> k < n \<Longrightarrow> m * n + k < a * (n :: nat)"
proof -
  assume "m < a" "k < n"
  then have "m * n + k < (m + 1) * n" "(m + 1) * n \<le> a * n" by (simp, intro mult_right_mono) auto
  then show ?thesis by simp
qed

lemma b64_parts:
  fixes x y z :: nat
  assumes "x < 256" "y < 256" "z < 256"
  shows "x div 4 < 64" "x mod 4 * 16 + y div 16 < 64" "y mod 16 * 4 + z div 64 < 64" "z mod 64 < 64"
    "(x mod 4 * 16 + y div 16) div 16 = x mod 4" "(x mod 4 * 16 + y div 16) mod 16 = y div 16"
    "(y mod 16 * 4 + z div 64) div 4 = y mod 16" "(y mod 16 * 4 + z div 64) mod 4 = z div 64"
proof -
  have d: "y div 16 < 16" "z div 64 < 4" "x div 4 < 64"
    using assms by (simp_all add: div_less_iff_less_mult)
  then show "x div 4 < 64" "x mod 4 * 16 + y div 16 < 64" "y mod 16 * 4 + z div 64 < 64" "z mod 64 < 64"
    using pack_below [of "x mod 4" 4 "y div 16" 16] pack_below [of "y mod 16" 16 "z div 64" 4] by simp_all
  show "(x mod 4 * 16 + y div 16) div 16 = x mod 4" "(x mod 4 * 16 + y div 16) mod 16 = y div 16"
    using pack [OF d(1)] by simp_all
  show "(y mod 16 * 4 + z div 64) div 4 = y mod 16" "(y mod 16 * 4 + z div 64) mod 4 = z div 64"
    using pack [OF d(2)] by simp_all
qed

lemma b64_loop_groups:
  "(\<And>n. n \<in> set ns \<Longrightarrow> n < 256) \<Longrightarrow> b64_loop 0 0 0 (b64_groups ns) = Inr ns"
proof (induction ns rule: b64_groups.induct)
  case (1 x y z r)
  note p = b64_parts [of x y z]
  have "y div 16 < 16" "z div 64 < 4" using 1 by (simp_all add: div_less_iff_less_mult)
  then show ?case using 1 p(1-4) p(5-8) by simp
next
  case (2 x y)
  note p = b64_parts [of x y 0]
  show ?case using 2 p(1-4) p(5-8) by simp
next
  case (3 x)
  note p = b64_parts [of x 0 0]
  show ?case using 3 p(1-4) p(5-8) by simp
qed simp

lemma b64_groups_ascii: "(\<And>n. n \<in> set ns \<Longrightarrow> n < 256) \<Longrightarrow> list_all (\<lambda>c. 43 \<le> c \<and> c < 123) (b64_groups ns)"
proof (induction ns rule: b64_groups.induct)
  case (1 x y z r)
  then show ?case using b64_parts(1-4) [of x y z] by (simp add: b64_char_ascii)
next
  case (2 x y)
  then show ?case using b64_parts(1-4) [of x y 0] by (simp add: b64_char_ascii)
next
  case (3 x)
  then show ?case using b64_parts(1-4) [of x 0 0] by (simp add: b64_char_ascii)
qed simp

lemma b64encode_ascii: "list_all (\<lambda>c. 43 \<le> c \<and> c < 123) (b64encode x)"
  unfolding b64encode_def by (rule b64_groups_ascii) auto

lemma b64decode_encode [simp]: "b64decode (b64encode x) = Inr x"
proof -
  have "b64_loop 0 0 0 (b64encode x) = Inr (map unat x)"
    unfolding b64encode_def by (rule b64_loop_groups) auto
  moreover have "list_all (\<lambda>c. c < 128) (b64encode x)"
    using b64encode_ascii [of x] by (auto simp: list_all_iff)
  ultimately show ?thesis by (simp add: b64decode_def o_def)
qed

lemma scalar_str_b64 [simp]: "scalar_str (b64encode x)"
  using b64encode_ascii [of x] by (auto simp: scalar_str_def list_all_iff intro!: scalar_below)

end
