(* ===== verification/Rekor.thy ===== *)
theory Rekor
  imports Manifest PyBase64 PyRegex
begin

text \<open>
  \<open>oversight_core/rekor.py\<close>: DSSE envelopes around in-toto statements, the upload to a Rekor log
  and the offline check of an evidence bundle. The network and the PEM reader are parameters. Shown
  here: the pre-authentication encoding is unambiguous, a signed envelope verifies on both sides of
  the wire and gives back its statement, and an accepted bundle carries a signature of the issuer
  over a statement about the expected content.
\<close>

section \<open>Constants\<close>

definition DSSE_PAYLOAD_TYPE :: pystr where
  "DSSE_PAYLOAD_TYPE = u ''application/vnd.in-toto+json''"
definition STATEMENT_TYPE :: pystr where
  "STATEMENT_TYPE = u ''https://in-toto.io/Statement/v1''"
definition PREDICATE_TYPE :: pystr where
  "PREDICATE_TYPE = u ''https://github.com/oversight-protocol/oversight/blob/v0.5.0/''
     @ u ''docs/predicates/registration-v1.md''"
definition PREDICATE_VERSION :: int where "PREDICATE_VERSION = 1"
definition DEFAULT_REKOR_URL :: pystr where
  "DEFAULT_REKOR_URL = u ''https://log2025-1.rekor.sigstore.dev''"
definition TLOG_KIND :: pystr where "TLOG_KIND = u ''rekor-v2-dsse''"
definition BUNDLE_SCHEMA :: int where "BUNDLE_SCHEMA = 2"

section \<open>Statements\<close>

record predicate =
  p_file_id :: pyval
  p_issuer_pubkey_ed25519 :: pyval
  p_recipient_id :: pyval
  p_recipient_pubkey_sha256 :: pyval
  p_suite :: pyval
  p_registered_at :: pyval
  p_rfc3161_tsa :: pyval
  p_rfc3161_token_b64 :: pyval
  p_rfc3161_chain_b64 :: pyval
  p_policy :: pyval
  p_watermarks :: pyval

definition opt_field :: "string \<Rightarrow> pyval \<Rightarrow> pydict" where
  "opt_field k v = (if truthy v then [(key k, v)] else [])"

definition predicate_dict :: "predicate \<Rightarrow> pydict" where
  "predicate_dict p =
     [(key ''predicate_version'', PInt PREDICATE_VERSION), (key ''file_id'', p_file_id p),
      (key ''issuer_pubkey_ed25519'', p_issuer_pubkey_ed25519 p), (key ''recipient_id'', p_recipient_id p),
      (key ''recipient_pubkey_sha256'', p_recipient_pubkey_sha256 p), (key ''suite'', p_suite p),
      (key ''registered_at'', p_registered_at p), (key ''policy'', p_policy p),
      (key ''watermarks'', p_watermarks p)]
     @ opt_field ''rfc3161_tsa'' (p_rfc3161_tsa p)
     @ opt_field ''rfc3161_token_b64'' (p_rfc3161_token_b64 p)
     @ opt_field ''rfc3161_chain_b64'' (p_rfc3161_chain_b64 p)"

definition hash_recipient_pubkey :: "pyval \<Rightarrow> pystr res" where
  "hash_recipient_pubkey x25519_pub_hex = ebind (py_fromhex x25519_pub_hex) (\<lambda>raw. Inr (hex (sha256 raw)))"

definition build_statement :: "pystr \<Rightarrow> pyval \<Rightarrow> predicate \<Rightarrow> pydict" where
  "build_statement mark_id_hex digest_hex p =
     [(key ''_type'', PStr STATEMENT_TYPE),
      (key ''subject'', PList [PDict [(key ''name'', PStr (u ''mark:'' @ mark_id_hex)),
         (key ''digest'', PDict [(key ''sha256'', digest_hex)])]]),
      (key ''predicateType'', PStr PREDICATE_TYPE),
      (key ''predicate'', PDict (predicate_dict p))]"

section \<open>Envelopes\<close>

record dsse_envelope =
  payload_b64 :: pyval
  payload_type :: pyval
  signatures :: pyval

definition envelope_dict :: "dsse_envelope \<Rightarrow> pydict" where
  "envelope_dict e = [(key ''payload'', payload_b64 e), (key ''payloadType'', payload_type e),
     (key ''signatures'', signatures e)]"

definition envelope_to_json :: "dsse_envelope \<Rightarrow> pystr res" where
  "envelope_to_json e = ebind (jcs_dumps (PDict (envelope_dict e))) utf8_decode"

text \<open>\<open>v[k]\<close> for a string key and \<open>v[0]\<close>\<close>

definition py_item :: "pyval \<Rightarrow> string \<Rightarrow> pyval res" where
  "py_item v k = (case v of PDict d \<Rightarrow> ditem d k | _ \<Rightarrow> Inl (TypeError ''indices must be integers''))"

definition py_first :: "pyval \<Rightarrow> pyval res" where
  "py_first v =
     (case v of
        PList xs \<Rightarrow> (case xs of x # _ \<Rightarrow> Inr x | [] \<Rightarrow> Inl (IndexError ''list index out of range''))
      | PStr s \<Rightarrow> (case s of c # _ \<Rightarrow> Inr (PStr [c]) | [] \<Rightarrow> Inl (IndexError ''string index out of range''))
      | PDict d \<Rightarrow> (case map_of d (KInt 0) of Some x \<Rightarrow> Inr x | None \<Rightarrow> Inl (KeyError ''0''))
      | _ \<Rightarrow> Inl (TypeError ''object is not subscriptable''))"

definition envelope_from_json :: "pystr \<Rightarrow> dsse_envelope res" where
  "envelope_from_json raw =
     ebind (json_loads raw) (\<lambda>d.
     ebind (py_item d ''payload'') (\<lambda>p.
     ebind (py_item d ''payloadType'') (\<lambda>t.
     ebind (py_item d ''signatures'') (\<lambda>s.
       Inr \<lparr>payload_b64 = p, payload_type = t, signatures = s\<rparr>))))"

definition ascii_bytes :: "pystr \<Rightarrow> bytes" where
  "ascii_bytes s = map of_nat s"

definition pae :: "pystr \<Rightarrow> bytes \<Rightarrow> bytes res" where
  "pae ptype payload =
     (if all_ascii ptype then
        Inr (bstr ''DSSEv1 '' @ ascii_bytes (nat_digits (length ptype)) @ bstr '' '' @ ascii_bytes ptype
          @ bstr '' '' @ ascii_bytes (nat_digits (length payload)) @ bstr '' '' @ payload)
      else Inl UnicodeEncodeError)"

definition py_pae :: "pyval \<Rightarrow> bytes \<Rightarrow> bytes res" where
  "py_pae ptype payload =
     (case ptype of
        PStr t \<Rightarrow> pae t payload
      | PBytes _ \<Rightarrow> Inl (AttributeError ''encode'')
      | PList _ \<Rightarrow> Inl (AttributeError ''encode'')
      | PDict _ \<Rightarrow> Inl (AttributeError ''encode'')
      | _ \<Rightarrow> Inl (TypeError ''object has no len()''))"

definition sign_dsse :: "crypto_ops \<Rightarrow> pydict \<Rightarrow> bytes \<Rightarrow> pystr \<Rightarrow> dsse_envelope res" where
  "sign_dsse C statement priv keyid =
     ebind (jcs_dumps (PDict statement)) (\<lambda>payload.
     ebind (pae DSSE_PAYLOAD_TYPE payload) (\<lambda>msg.
     ebind (guard (length priv = 32) (ValueError ''An Ed25519 private key is 32 bytes long'')) (\<lambda>_.
       Inr \<lparr>payload_b64 = PStr (b64encode payload), payload_type = PStr DSSE_PAYLOAD_TYPE,
            signatures = PList [PDict [(key ''sig'', PStr (b64encode (ed_sign C priv msg))),
                                       (key ''keyid'', PStr keyid)]]\<rparr>)))"

text \<open>One signature object: whether it verifies, or the exception that leaves the loop.\<close>

definition check_signature :: "crypto_ops \<Rightarrow> bytes \<Rightarrow> bytes \<Rightarrow> pyval \<Rightarrow> bool res" where
  "check_signature C pub msg sig_obj =
     (case ebind (py_item sig_obj ''sig'') py_b64decode of
        Inr s \<Rightarrow> Inr (ed_verify C pub s msg)
      | Inl (KeyError k) \<Rightarrow> Inr False
      | Inl e \<Rightarrow> if is_ValueError e then Inr False else Inl e)"

fun any_signature :: "crypto_ops \<Rightarrow> bytes \<Rightarrow> bytes \<Rightarrow> pyval list \<Rightarrow> bool res" where
  "any_signature C pub msg [] = Inr False"
| "any_signature C pub msg (s # ss) =
     ebind (check_signature C pub msg s) (\<lambda>ok. if ok then Inr True else any_signature C pub msg ss)"

definition verify_dsse :: "crypto_ops \<Rightarrow> dsse_envelope \<Rightarrow> bytes \<Rightarrow> bool res" where
  "verify_dsse C e pub =
     (case py_b64decode (payload_b64 e) of
        Inl _ \<Rightarrow> Inr False
      | Inr payload \<Rightarrow>
          ebind (py_pae (payload_type e) payload) (\<lambda>msg.
          ebind (guard (length pub = 32) (ValueError ''An Ed25519 public key is 32 bytes long'')) (\<lambda>_.
          ebind (py_iter (signatures e)) (any_signature C pub msg))))"

definition envelope_payload_statement :: "dsse_envelope \<Rightarrow> pyval res" where
  "envelope_payload_statement e = ebind (py_b64decode (payload_b64 e)) loads_utf8"

section \<open>Upload and bundle\<close>

record rekor_upload =
  log_url :: pystr
  log_index :: "int option"
  log_id :: "pystr option"
  integrated_time :: "int option"
  transparency_log_entry :: pyval
  log_pubkey_pem :: pyval
  checkpoint :: pyval

definition opt_int :: "int option \<Rightarrow> pyval" where
  "opt_int v = (case v of Some i \<Rightarrow> PInt i | None \<Rightarrow> PNone)"

definition opt_str :: "pystr option \<Rightarrow> pyval" where
  "opt_str v = (case v of Some s \<Rightarrow> PStr s | None \<Rightarrow> PNone)"

definition to_bundle_dict :: "rekor_upload \<Rightarrow> pydict" where
  "to_bundle_dict r =
     [(key ''log_url'', PStr (log_url r)), (key ''log_index'', opt_int (log_index r)),
      (key ''log_id'', opt_str (log_id r)), (key ''integrated_time'', opt_int (integrated_time r)),
      (key ''log_pubkey_pem'', log_pubkey_pem r), (key ''checkpoint'', checkpoint r),
      (key ''log_entry_schema'', str_val ''rekor/v1.TransparencyLogEntry''),
      (key ''transparency_log_entry'', transparency_log_entry r)]"

definition build_bundle ::
  "pyval \<Rightarrow> pyval \<Rightarrow> rekor_upload \<Rightarrow> dsse_envelope \<Rightarrow> pyval \<Rightarrow> pyval \<Rightarrow> pydict res" where
  "build_bundle manifest_dict manifest_sig_hex upload e token chain =
     ebind (ebind (envelope_to_json e) json_loads) (\<lambda>env.
       Inr ([(key ''bundle_schema'', PInt BUNDLE_SCHEMA), (key ''tlog_kind'', PStr TLOG_KIND),
             (key ''manifest'', manifest_dict), (key ''manifest_sig'', manifest_sig_hex),
             (key ''rekor'', PDict (to_bundle_dict upload)), (key ''dsse_envelope'', env)]
            @ opt_field ''rfc3161_token'' token @ opt_field ''rfc3161_chain'' chain))"

text \<open>\<open>k in d\<close>\<close>

definition py_contains :: "pyval \<Rightarrow> string \<Rightarrow> bool res" where
  "py_contains v k =
     (case v of
        PDict d \<Rightarrow> Inr (dget d k \<noteq> None)
      | PList xs \<Rightarrow> Inr (PStr (u k) \<in> set xs)
      | PStr s \<Rightarrow> Inr (contains (u k) s)
      | _ \<Rightarrow> Inl (TypeError ''argument is not iterable''))"

fun first_int :: "pyval \<Rightarrow> string list \<Rightarrow> int option res" where
  "first_int d [] = Inr None"
| "first_int d (k # ks) =
     ebind (py_contains d k) (\<lambda>has.
       if has then
         (case ebind (py_item d k) py_int of
            Inr i \<Rightarrow> Inr (Some i)
          | Inl e \<Rightarrow> if is_TypeError e \<or> is_ValueError e then first_int d ks else Inl e)
       else first_int d ks)"

fun first_str :: "pyval \<Rightarrow> string list \<Rightarrow> pystr option res" where
  "first_str d [] = Inr None"
| "first_str d (k # ks) =
     ebind (py_contains d k) (\<lambda>has.
       if has then ebind (py_item d k) (\<lambda>v. case v of PStr s \<Rightarrow> Inr (Some s) | _ \<Rightarrow> first_str d ks)
       else first_str d ks)"

text \<open>What the network answers to a request of a URL and a body.\<close>

datatype http_reply = HttpBody bytes | HttpStatus int | HttpFailure exn

definition upload_body :: "pyval \<Rightarrow> bytes \<Rightarrow> pyval" where
  "upload_body env pub_der =
     PDict [(key ''dsseRequestV002'', PDict [
       (key ''envelope'', env),
       (key ''verifiers'', PList [PDict [
          (key ''publicKey'', PDict [(key ''rawBytes'', PStr (b64encode pub_der))]),
          (key ''keyDetails'', str_val ''PKIX_ED25519'')]])])]"

definition upload_dsse ::
  "(pystr \<Rightarrow> bytes res) \<Rightarrow> (pystr \<Rightarrow> bytes \<Rightarrow> http_reply) \<Rightarrow> dsse_envelope \<Rightarrow> pystr \<Rightarrow> pystr \<Rightarrow> rekor_upload res" where
  "upload_dsse pem_to_der http e pub_pem url =
     ebind (pem_to_der pub_pem) (\<lambda>pub_der.
     ebind (ebind (envelope_to_json e) json_loads) (\<lambda>env.
     ebind (ebind (json_dumps (upload_body env pub_der)) utf8_encode) (\<lambda>body.
     ebind (case http (rstrip_chars (u ''/'') url @ u ''/api/v2/log/entries'') body of
              HttpBody raw \<Rightarrow> utf8_decode raw
            | HttpStatus code \<Rightarrow> Inl (RuntimeError ''rekor v2 upload failed: HTTP'')
            | HttpFailure x \<Rightarrow> Inl x) (\<lambda>raw.
     ebind (json_loads raw) (\<lambda>parsed.
     ebind (first_int parsed [''logIndex'', ''logEntry'', ''log_index'']) (\<lambda>idx.
     ebind (first_str parsed [''logID'', ''logId'', ''log_id'']) (\<lambda>lid.
     ebind (first_int parsed [''integratedTime'', ''integrated_time'']) (\<lambda>t.
       Inr \<lparr>log_url = url, log_index = idx, log_id = lid, integrated_time = t,
            transparency_log_entry = parsed, log_pubkey_pem = PNone, checkpoint = PNone\<rparr>))))))))"

section \<open>Offline verification\<close>

definition subject_digest :: "pyval \<Rightarrow> pyval res" where
  "subject_digest statement =
     ebind (py_item statement ''subject'') (\<lambda>s.
     ebind (py_first s) (\<lambda>s0.
     ebind (py_item s0 ''digest'') (\<lambda>d.
       py_item d ''sha256'')))"

definition lookup_error :: "exn \<Rightarrow> bool" where
  "lookup_error e = (case e of KeyError _ \<Rightarrow> True | IndexError _ \<Rightarrow> True | TypeError _ \<Rightarrow> True | _ \<Rightarrow> False)"

definition verify_inclusion_offline ::
  "crypto_ops \<Rightarrow> pydict \<Rightarrow> dsse_envelope \<Rightarrow> bytes \<Rightarrow> pyval \<Rightarrow> (bool \<times> string) res" where
  "verify_inclusion_offline C rekor_field e pub expected =
     ebind (verify_dsse C e pub) (\<lambda>ok.
       if \<not> ok then Inr (False, ''dsse signature did not verify under issuer pubkey'')
       else ebind (envelope_payload_statement e) (\<lambda>statement.
         case subject_digest statement of
           Inl x \<Rightarrow> if lookup_error x then Inr (False, ''dsse payload missing subject digest'') else Inl x
         | Inr digest \<Rightarrow>
             if digest \<noteq> expected then Inr (False, ''dsse subject digest does not match expected content hash'')
             else case dgetn rekor_field ''transparency_log_entry'' of
                    PDict tle \<Rightarrow>
                      if tle = [] then Inr (False, ''bundle missing transparency_log_entry payload'')
                      else if list_ex (\<lambda>k. dget tle k \<noteq> None) [''inclusionProof'', ''inclusion_proof'', ''logEntry'']
                      then Inr (True, ''ok'')
                      else Inr (False, ''transparency_log_entry has no inclusion proof or logEntry shape'')
                  | _ \<Rightarrow> Inr (False, ''bundle missing transparency_log_entry payload'')))"

section \<open>The encoding is unambiguous\<close>

lemma ascii_bytes_inj:
  "list_all (\<lambda>c. c < 256) s \<Longrightarrow> list_all (\<lambda>c. c < 256) t \<Longrightarrow> ascii_bytes s = ascii_bytes t \<Longrightarrow> s = t"
proof -
  assume a: "list_all (\<lambda>c. c < 256) s" "list_all (\<lambda>c. c < 256) t" "ascii_bytes s = ascii_bytes t"
  have unb: "map unat (ascii_bytes r) = r" if "list_all (\<lambda>c. c < 256) r" for r
    unfolding ascii_bytes_def map_map
  proof (rule map_idI)
    fix c assume "c \<in> set r"
    then have "c < 256" using that by (simp add: list_all_iff)
    then show "(unat \<circ> (of_nat :: nat \<Rightarrow> byte)) c = c" unfolding o_apply by (rule unat_of_nat_byte)
  qed
  show "s = t" using unb [OF a(1)] unb [OF a(2)] unfolding a(3) by argo
qed

lemma digits_below: "list_all (\<lambda>c. c < 256) (nat_digits n)"
  by (auto simp: list_all_iff is_digit_def dest!: nat_digits_digit)

lemma digits_no_space: "b \<in> set (ascii_bytes (nat_digits n)) \<Longrightarrow> b \<noteq> 32"
proof
  assume b: "b \<in> set (ascii_bytes (nat_digits n))" "b = 32"
  then obtain c where c: "c \<in> set (nat_digits n)" "(of_nat c :: byte) = 32" by (auto simp: ascii_bytes_def)
  then have "is_digit c" using nat_digits_digit by blast
  then have "unat (of_nat c :: byte) = c" "48 \<le> c" by (simp_all add: is_digit_def unat_of_nat_byte)
  then show False using c(2) by simp
qed

lemma number_field_inject:
  assumes "ascii_bytes (nat_digits n) @ 32 # r = ascii_bytes (nat_digits m) @ 32 # r'"
  shows "n = m \<and> r = r'"
proof -
  have tw: "takeWhile (\<lambda>b. b \<noteq> 32) (ascii_bytes (nat_digits k) @ 32 # x) = ascii_bytes (nat_digits k)" for k x
    by (subst takeWhile_append2) (auto dest: digits_no_space)
  have "ascii_bytes (nat_digits n) = ascii_bytes (nat_digits m)"
    using arg_cong [OF assms, of "takeWhile (\<lambda>b. b \<noteq> 32)"] unfolding tw .
  moreover from this have "nat_digits n = nat_digits m" by (rule ascii_bytes_inj [OF digits_below digits_below])
  ultimately show ?thesis using assms nat_digits_val by (metis append_same_eq list.inject same_append_eq)
qed

lemma bstr_space: "bstr '' '' = [32]"
  by (simp add: bstr_def)

text \<open>
  The pre-authentication encoding is unambiguous: two messages with the same encoding have the
  same type and the same payload, so a signature over one is no signature over another.
\<close>
theorem pae_inject:
  assumes "pae t p = Inr x" "pae t' p' = Inr x"
  shows "t = t' \<and> p = p'"
proof -
  have a: "all_ascii t" "all_ascii t'" using assms by (auto simp: pae_def split: if_splits)
  have "ascii_bytes (nat_digits (length t)) @ 32 # (ascii_bytes t @ 32 # (ascii_bytes (nat_digits (length p)) @ 32 # p))
      = ascii_bytes (nat_digits (length t')) @ 32 # (ascii_bytes t' @ 32 # (ascii_bytes (nat_digits (length p')) @ 32 # p'))"
    using assms a by (auto simp: pae_def bstr_space)
  then have n: "length t = length t'" "ascii_bytes t @ 32 # (ascii_bytes (nat_digits (length p)) @ 32 # p)
      = ascii_bytes t' @ 32 # (ascii_bytes (nat_digits (length p')) @ 32 # p')"
    using number_field_inject by blast+
  have "length (ascii_bytes t) = length (ascii_bytes t')" using n(1) by (simp add: ascii_bytes_def)
  then have "ascii_bytes t = ascii_bytes t'"
    "ascii_bytes (nat_digits (length p)) @ 32 # p = ascii_bytes (nat_digits (length p')) @ 32 # p'"
    using n(2) by auto
  moreover have "list_all (\<lambda>c. c < 256) t" "list_all (\<lambda>c. c < 256) t'"
    using a by (auto simp: all_ascii_def list_all_iff)
  ultimately show ?thesis using ascii_bytes_inj number_field_inject by blast
qed

theorem pae_inject_witness:
  "\<exists>x. pae (u ''a'') [1] = Inr x \<and> pae (u ''a'') [1] = Inr x"
proof -
  obtain x where "pae (u ''a'') [1] = Inr x" by (simp add: pae_def all_ascii_def u_def)
  then show ?thesis using pae_inject [of "u ''a''" "[1]" x "u ''a''" "[1]"] by blast
qed

section \<open>Signing and verifying\<close>

lemma verify_dsse_sound:
  assumes "verify_dsse C e pub = Inr True"
  shows "\<exists>payload t msg s. py_b64decode (payload_b64 e) = Inr payload \<and> payload_type e = PStr t
    \<and> pae t payload = Inr msg \<and> ed_verify C pub s msg"
proof -
  have any: "any_signature C pub msg ss = Inr True \<Longrightarrow> \<exists>s. ed_verify C pub s msg" for msg ss
  proof (induction ss)
    case (Cons s ss)
    then show ?case
      by (auto simp: check_signature_def ebind_eq_Inr split: sum.splits exn.splits if_splits)
  qed simp
  show ?thesis
    using assms any
    by (auto simp: verify_dsse_def py_pae_def ebind_eq_Inr split: sum.splits pyval.splits)
qed

text \<open>
  What an accepted bundle proves, and what it does not. When \<open>verify_inclusion_offline\<close> accepts, a
  signature under the issuer's key verifies over the encoding of the envelope's own type and payload,
  that payload is a statement whose first subject carries the expected digest, and the bundle has an
  entry under one of three names. Nothing in that entry is looked at.
\<close>
theorem verify_offline_sound:
  assumes "verify_inclusion_offline C rekor_field e pub expected = Inr (True, why)"
  shows "\<exists>payload t msg s statement. py_b64decode (payload_b64 e) = Inr payload \<and> payload_type e = PStr t
    \<and> pae t payload = Inr msg \<and> ed_verify C pub s msg
    \<and> loads_utf8 payload = Inr statement \<and> subject_digest statement = Inr expected
    \<and> (\<exists>tle. dgetn rekor_field ''transparency_log_entry'' = PDict tle
         \<and> (dget tle ''inclusionProof'' \<noteq> None \<or> dget tle ''inclusion_proof'' \<noteq> None \<or> dget tle ''logEntry'' \<noteq> None))"
proof -
  have v: "verify_dsse C e pub = Inr True"
    using assms by (auto simp: verify_inclusion_offline_def ebind_eq_Inr split: if_splits)
  then obtain payload t msg s where p: "py_b64decode (payload_b64 e) = Inr payload" "payload_type e = PStr t"
    "pae t payload = Inr msg" "ed_verify C pub s msg"
    using verify_dsse_sound by blast
  obtain statement where st: "envelope_payload_statement e = Inr statement"
    using assms v by (auto simp: verify_inclusion_offline_def ebind_eq_Inr)
  then have l: "loads_utf8 payload = Inr statement" using p(1) by (simp add: envelope_payload_statement_def)
  have d: "subject_digest statement = Inr expected"
    using assms v st by (cases "subject_digest statement") (auto simp: verify_inclusion_offline_def split: if_splits)
  then have "\<exists>tle. dgetn rekor_field ''transparency_log_entry'' = PDict tle
         \<and> (dget tle ''inclusionProof'' \<noteq> None \<or> dget tle ''inclusion_proof'' \<noteq> None \<or> dget tle ''logEntry'' \<noteq> None)"
    using assms v st
    by (cases "dgetn rekor_field ''transparency_log_entry''")
       (auto simp: verify_inclusion_offline_def split: if_splits)
  then show ?thesis using p l d by blast
qed

lemma dget_canon:
  assumes "distinct (map fst d)"
  shows "\<exists>d'. canon (PDict d) = PDict d' \<and> (\<forall>k. dget d' k = map_option canon (dget d k))"
proof -
  let ?m = "map (\<lambda>(k, v). (k, canon v)) d"
  have "map fst ?m = map fst d" by (simp add: o_def case_prod_beta)
  then have "map_of (sort_key item16 ?m) = map_of ?m" using assms map_of_sort_key by metis
  moreover have "map_of ?m k = map_option canon (map_of d k)" for k by (induction d) auto
  ultimately show ?thesis by (simp add: dget_def)
qed

lemma envelope_wire:
  assumes "envelope_to_json e = Inr raw" "json_ok (PDict (envelope_dict e))"
  shows "envelope_from_json raw = Inr \<lparr>payload_b64 = canon (payload_b64 e),
     payload_type = canon (payload_type e), signatures = canon (signatures e)\<rparr>"
proof -
  obtain bs where bs: "jcs_dumps (PDict (envelope_dict e)) = Inr bs" "utf8_decode bs = Inr raw"
    using assms(1) by (auto simp: envelope_to_json_def ebind_eq_Inr)
  then have l: "json_loads raw = Inr (canon (PDict (envelope_dict e)))"
    using loads_jcs [OF assms(2) bs(1)] by (simp add: loads_utf8_def)
  have "distinct (map fst (envelope_dict e))" by (simp add: envelope_dict_def)
  then obtain d' where d': "canon (PDict (envelope_dict e)) = PDict d'"
    "\<And>k. dget d' k = map_option canon (dget (envelope_dict e) k)"
    using dget_canon by blast
  have g: "ditem d' ''payload'' = Inr (canon (payload_b64 e))" "ditem d' ''payloadType'' = Inr (canon (payload_type e))"
    "ditem d' ''signatures'' = Inr (canon (signatures e))"
    by (simp_all add: ditem_def d'(2)) (simp_all add: envelope_dict_def)
  show ?thesis unfolding envelope_from_json_def l d'(1) by (simp add: py_item_def g)
qed

lemma dsse_travels:
  assumes "sig_correct C" "length sk = 32" "json_ok (PDict statement)" "scalar_str keyid"
  shows "\<exists>e raw e'. sign_dsse C statement sk keyid = Inr e \<and> verify_dsse C e (ed_pub C sk) = Inr True
    \<and> envelope_to_json e = Inr raw \<and> envelope_from_json raw = Inr e'
    \<and> verify_dsse C e' (ed_pub C sk) = Inr True
    \<and> envelope_payload_statement e' = Inr (canon (PDict statement))"
proof -
  obtain bs where bs: "jcs_dumps (PDict statement) = Inr bs" using jcs_dumps_ok [OF assms(3)] by blast
  have "all_ascii DSSE_PAYLOAD_TYPE" by (simp add: DSSE_PAYLOAD_TYPE_def all_ascii_def u_def)
  then obtain msg where msg: "pae DSSE_PAYLOAD_TYPE bs = Inr msg" by (simp add: pae_def)
  let ?sig = "ed_sign C sk msg"
  let ?sd = "[(key ''sig'', PStr (b64encode ?sig)), (key ''keyid'', PStr keyid)]"
  define e where "e = \<lparr>payload_b64 = PStr (b64encode bs), payload_type = PStr DSSE_PAYLOAD_TYPE,
    signatures = PList [PDict ?sd]\<rparr>"
  have e: "sign_dsse C statement sk keyid = Inr e" using assms(2) by (simp add: sign_dsse_def bs msg e_def)
  have key_len: "length (ed_pub C sk) = 32" "ed_verify C (ed_pub C sk) ?sig msg"
    using assms(1,2) by (auto simp: sig_correct_def)
  have ok: "json_ok (PDict (envelope_dict e))"
    using assms(4) by (simp add: envelope_dict_def e_def DSSE_PAYLOAD_TYPE_def)
  then obtain js where js: "jcs_dumps (PDict (envelope_dict e)) = Inr js" using jcs_dumps_ok by blast
  then obtain raw where raw: "envelope_to_json e = Inr raw"
    using loads_jcs [OF ok js] by (auto simp: envelope_to_json_def loads_utf8_def ebind_eq_Inr)
  obtain sd where sd: "canon (PDict ?sd) = PDict sd" "\<And>k. dget sd k = map_option canon (dget ?sd k)"
    using dget_canon [of ?sd] by auto
  define e' where "e' = \<lparr>payload_b64 = PStr (b64encode bs), payload_type = PStr DSSE_PAYLOAD_TYPE,
    signatures = PList [PDict sd]\<rparr>"
  have e': "envelope_from_json raw = Inr e'"
    unfolding envelope_wire [OF raw ok] by (simp add: e_def e'_def sd(1) del: canon.simps(2))
  have v: "verify_dsse C x (ed_pub C sk) = Inr True"
    if "payload_b64 x = PStr (b64encode bs)" "payload_type x = PStr DSSE_PAYLOAD_TYPE"
      "signatures x = PList [PDict d]" "dget d ''sig'' = Some (PStr (b64encode ?sig))" for x d
    using that key_len msg
    by (simp add: verify_dsse_def py_b64decode_def py_pae_def check_signature_def py_item_def ditem_def)
  have "verify_dsse C e (ed_pub C sk) = Inr True" by (rule v [of _ ?sd]) (simp_all add: e_def)
  moreover have "verify_dsse C e' (ed_pub C sk) = Inr True" by (rule v [of _ sd]) (simp_all add: e'_def sd(2))
  moreover have "envelope_payload_statement e' = Inr (canon (PDict statement))"
    using loads_jcs [OF assms(3) bs] by (simp add: envelope_payload_statement_def e'_def py_b64decode_def)
  ultimately show ?thesis using e raw e' by blast
qed

text \<open>
  C27: A signed statement travels. Signing a statement that is a JSON value gives an envelope that
  verifies under the issuer's key; written to JSON and read back it still verifies; and its payload
  is the statement, with its keys in canonical order.
\<close>
theorem dsse_roundtrip:
  assumes "sig_correct C" "length sk = 32" "json_ok (PDict statement)" "scalar_str keyid"
  shows "\<exists>e raw e'. sign_dsse C statement sk keyid = Inr e \<and> verify_dsse C e (ed_pub C sk) = Inr True
    \<and> envelope_to_json e = Inr raw \<and> envelope_from_json raw = Inr e'
    \<and> verify_dsse C e' (ed_pub C sk) = Inr True
    \<and> envelope_payload_statement e' = Inr (canon (PDict statement))"
  by (rule dsse_travels [OF assms])

theorem dsse_roundtrip_witness:
  "\<exists>e. sign_dsse toy_ops [(key ''a'', PInt 1)] (replicate 32 7) [] = Inr e
     \<and> verify_dsse toy_ops e (ed_pub toy_ops (replicate 32 7)) = Inr True"
  using dsse_roundtrip [of toy_ops "replicate 32 7" "[(key ''a'', PInt 1)]" "[]"] toy_ops_correct(1)
  by (auto simp: scalar_str_def)

theorem verify_offline_sound_witness:
  "\<exists>e s msg. verify_inclusion_offline toy_ops
       [(key ''transparency_log_entry'', PDict [(key ''logEntry'', PNone)])] e (replicate 32 7) (str_val ''ab'')
     = Inr (True, ''ok'') \<and> ed_verify toy_ops (replicate 32 7) s msg"
proof -
  let ?st = "[(key ''subject'', PList [PDict [(key ''digest'', PDict [(key ''sha256'', str_val ''ab'')])]])]"
  let ?field = "[(key ''transparency_log_entry'', PDict [(key ''logEntry'', PNone)])]"
  obtain e where e: "verify_dsse toy_ops e (ed_pub toy_ops (replicate 32 7)) = Inr True"
    "envelope_payload_statement e = Inr (canon (PDict ?st))"
    using dsse_travels [of toy_ops "replicate 32 7" ?st "[]"] toy_ops_correct(1) scalar_str_u [of "''ab''"]
    by (auto simp: scalar_str_def str_val_def)
  have "verify_inclusion_offline toy_ops ?field e (replicate 32 7) (str_val ''ab'') = Inr (True, ''ok'')"
    using e by (simp add: verify_inclusion_offline_def toy_ops_def subject_digest_def py_item_def py_first_def
        str_val_def dget_def key_def)
  moreover from verify_offline_sound [OF this] obtain s msg where "ed_verify toy_ops (replicate 32 7) s msg" by blast
  ultimately show ?thesis by blast
qed

end
