(* ===== verification/RegistryAuth.thy ===== *)
theory RegistryAuth
  imports RateLimit Rekor
begin

text \<open>
  Who may call the registry (\<open>src/registry/server.py\<close>): the operator token, the secret of the
  DNS bridge, the check that a peer is this host, the refusal to boot without a token, and the
  error codes of the responses. Header values are Latin-1 text, so that lower-casing them for the
  test of the scheme is ASCII lower-casing. The module-level settings are the record \<open>config\<close>,
  as read from the environment.
\<close>

record config =
  cf_trusted_proxy :: bool
  cf_dns_secret :: pystr
  cf_operator_token :: pystr
  cf_auth_disabled :: bool
  cf_rekor_enabled :: bool
  cf_rekor_url :: pystr
  cf_jurisdiction :: pystr

definition enforce_auth_config :: "config \<Rightarrow> unit res" where
  "enforce_auth_config cfg =
     (if cf_operator_token cfg = [] \<and> \<not> cf_auth_disabled cfg
      then Inl (RuntimeError ''OVERSIGHT_OPERATOR_TOKEN is required to start the registry.'')
      else Inr ())"

section \<open>Tokens\<close>

text \<open>\<open>hmac.compare_digest\<close> on two strings: ASCII only.\<close>

definition compare_digest :: "pystr \<Rightarrow> pystr \<Rightarrow> bool res" where
  "compare_digest a b =
     (if all_ascii a \<and> all_ascii b then Inr (a = b)
      else Inl (TypeError ''comparing strings with non-ASCII characters is not supported''))"

definition bearer_or_header_token :: "request \<Rightarrow> string \<Rightarrow> pystr" where
  "bearer_or_header_token r header_name =
     (let supplied = header r header_name in
      if supplied \<noteq> [] then strip supplied
      else let auth = header r ''authorization'' in
        if prefixed (u ''bearer '') (map ascii_lower auth) then strip (drop 7 auth) else [])"

definition require_operator_auth :: "config \<Rightarrow> request \<Rightarrow> unit res" where
  "require_operator_auth cfg r =
     (if cf_operator_token cfg = [] then Inr ()
      else let supplied = bearer_or_header_token r ''x-oversight-operator-token'' in
        ebind (compare_digest supplied (cf_operator_token cfg)) (\<lambda>same.
        if same then Inr () else Inl (HTTPException 401 ''operator authentication required'')))"

section \<open>Loopback addresses\<close>

text \<open>
  What the code uses of \<open>ipaddress.ip_address\<close>: dotted quads without leading zeros, and IPv6
  with one \<open>::\<close>, an embedded quad and a scope. \<open>is_loopback\<close> is 127.0.0.0/8 and \<open>::1\<close> (an
  IPv4-mapped address is no loopback, as in Python before 3.13).
\<close>

definition ip4_octet :: "pystr \<Rightarrow> nat option" where
  "ip4_octet s =
     (if s \<noteq> [] \<and> list_all is_digit s \<and> length s \<le> 3 \<and> (s = [48] \<or> hd s \<noteq> 48) \<and> digits_val s \<le> 255
      then Some (digits_val s) else None)"

definition ip4_octets :: "pystr \<Rightarrow> nat list option" where
  "ip4_octets s =
     (let ps = split_on 46 s in if length ps = 4 then those (map ip4_octet ps) else None)"

definition hextet :: "pystr \<Rightarrow> nat option" where
  "hextet s =
     (if s = [] \<or> 4 < length s then None
      else map_option (foldl (\<lambda>n d. 16 * n + d) 0) (those (map hex_val s)))"

definition ip6_embed :: "pystr list \<Rightarrow> pystr list option" where
  "ip6_embed ps =
     (if 46 \<in> set (last ps) then
        (case ip4_octets (last ps) of
           Some [a, b, c, d] \<Rightarrow>
             Some (butlast ps @ [hex [of_nat a, of_nat b], hex [of_nat c, of_nat d]])
         | _ \<Rightarrow> None)
      else Some ps)"

definition ip6_fill :: "pystr list \<Rightarrow> nat list option" where
  "ip6_fill ps =
     (if 9 < length ps then None
      else case filter (\<lambda>i. ps ! i = []) [1 ..< length ps - 1] of
        [] \<Rightarrow>
          if length ps \<noteq> 8 \<or> hd ps = [] \<or> last ps = [] then None else those (map hextet ps)
      | [i] \<Rightarrow>
          let hi = (if hd ps = [] then 0 else i);
              lo = (if last ps = [] then 0 else length ps - i - 1)
          in if hd ps = [] \<and> i \<noteq> 1 \<or> last ps = [] \<and> i + 2 \<noteq> length ps \<or> 8 \<le> hi + lo then None
             else (case (those (map hextet (take hi ps)), those (map hextet (drop (length ps - lo) ps))) of
                     (Some a, Some z) \<Rightarrow> Some (a @ replicate (8 - (hi + lo)) 0 @ z)
                   | _ \<Rightarrow> None)
      | _ \<Rightarrow> None)"

definition ip6_groups :: "pystr \<Rightarrow> nat list option" where
  "ip6_groups s =
     (case split_on 37 s of
        [addr] \<Rightarrow>
          let ps = split_on 58 addr in
          if length ps < 3 then None else Option.bind (ip6_embed ps) ip6_fill
      | [addr, scope] \<Rightarrow>
          let ps = split_on 58 addr in
          if scope = [] \<or> length ps < 3 then None else Option.bind (ip6_embed ps) ip6_fill
      | _ \<Rightarrow> None)"

definition is_loopback_host :: "pystr option \<Rightarrow> bool" where
  "is_loopback_host host =
     (case host of
        None \<Rightarrow> False
      | Some h \<Rightarrow>
          if h = [] then False
          else case ip4_octets h of
              Some q \<Rightarrow> hd q = 127
            | None \<Rightarrow>
                (case ip6_groups h of
                   Some g \<Rightarrow> g = [0, 0, 0, 0, 0, 0, 0, 1]
                 | None \<Rightarrow> h = u ''localhost'' \<or> h = u ''testclient''))"

definition verify_dns_event_auth :: "config \<Rightarrow> request \<Rightarrow> unit res" where
  "verify_dns_event_auth cfg r =
     (if cf_dns_secret cfg \<noteq> [] then
        let supplied = bearer_or_header_token r ''x-oversight-dns-secret'' in
        ebind (compare_digest supplied (cf_dns_secret cfg)) (\<lambda>same.
        if same then Inr () else Inl (HTTPException 401 ''invalid DNS event secret''))
      else if is_loopback_host (client_host r) then Inr ()
      else Inl (HTTPException 503
             ''OVERSIGHT_DNS_EVENT_SECRET is required for non-loopback DNS event callbacks''))"

section \<open>Error responses\<close>

definition registry_error_code :: "int \<Rightarrow> pystr \<Rightarrow> string" where
  "registry_error_code status_code message =
     (let doc = map ascii_lower message in
      if status_code = 401 then ''auth_required''
      else if status_code = 404 then ''not_found''
      else if status_code = 409 then ''issuer_mismatch''
      else if status_code = 429 then ''rate_limited''
      else if 500 \<le> status_code then ''server_error''
      else if contains (u ''signature'') doc then ''signature_invalid''
      else if contains (u ''beacons do not match'') doc \<or> contains (u ''watermarks do not match'') doc
        then ''sidecar_mismatch''
      else ''missing_field'')"

definition error_envelope :: "string \<Rightarrow> pystr \<Rightarrow> pydict" where
  "error_envelope code message =
     [(key ''error'', PDict [(key ''code'', str_val code), (key ''message'', PStr message)])]"

definition http_exception_handler :: "int \<Rightarrow> pystr \<Rightarrow> int \<times> pydict" where
  "http_exception_handler status_code message =
     (status_code, error_envelope (registry_error_code status_code message) message)"

end
