(* ===== verification/RegistryDb.thy ===== *)
theory RegistryDb
  imports Tables Rekor
begin

text \<open>
  The registry's database (\<open>SCHEMA\<close> and the statements of \<open>src/registry/server.py\<close>): one record
  per table, a table as its rows in the order of their row ids, a column that may be \<open>NULL\<close> as an
  option. \<open>INSERT OR REPLACE\<close> deletes the row of the same primary key and appends the new one;
  \<open>NULL\<close> keys are never equal. A transaction that raises leaves the tables as they were; failures
  of the disk under SQLite are left out.
\<close>

section \<open>Values\<close>

text \<open>
  Binding a Python value to a column of type \<open>TEXT\<close>: numbers become text, containers are refused.
  A float would be rendered by SQLite; the registry only binds values of a manifest that had a
  canonical form, which holds no float, so the model refuses it like a container.
\<close>

definition sql_text :: "pyval \<Rightarrow> pystr option res" where
  "sql_text v =
     (case v of
        PNone \<Rightarrow> Inr None
      | PBool x \<Rightarrow> Inr (Some (if x then u ''1'' else u ''0''))
      | PInt i \<Rightarrow>
          if - 9223372036854775808 \<le> i \<and> i < 9223372036854775808 then Inr (Some (int_str i))
          else Inl OverflowError
      | PStr s \<Rightarrow> if scalar_str s then Inr (Some s) else Inl UnicodeEncodeError
      | _ \<Rightarrow> Inl (SqliteError ''type is not supported''))"

definition not_null :: "pystr option \<Rightarrow> pystr res" where
  "not_null x = (case x of Some s \<Rightarrow> Inr s | None \<Rightarrow> Inl (SqliteError ''NOT NULL constraint failed''))"

definition opt_val :: "pystr option \<Rightarrow> pyval" where
  "opt_val x = (case x of Some s \<Rightarrow> PStr s | None \<Rightarrow> PNone)"

lemma sql_text_str [simp]: "scalar_str s \<Longrightarrow> sql_text (PStr s) = Inr (Some s)"
  by (simp add: sql_text_def)

lemma not_null_simps [simp]: "not_null (Some s) = Inr s" "not_null x = Inr s \<longleftrightarrow> x = Some s"
  by (auto simp: not_null_def split: option.splits)

section \<open>Tables\<close>

record beacon_row =
  bc_token :: "pystr option"
  bc_file :: pystr
  bc_recipient :: pystr
  bc_issuer :: pystr
  bc_kind :: pystr
  bc_at :: int

record watermark_row =
  wm_mark :: pystr
  wm_layer :: pystr
  wm_file :: pystr
  wm_recipient :: pystr
  wm_issuer :: pystr
  wm_at :: int

record manifest_row =
  mf_file :: "pystr option"
  mf_recipient :: pystr
  mf_issuer :: pystr
  mf_pub :: pystr
  mf_json :: pystr
  mf_at :: int

record event_row =
  ev_id :: nat
  ev_token :: pystr
  ev_file :: "pystr option"
  ev_recipient :: "pystr option"
  ev_issuer :: "pystr option"
  ev_kind :: pystr
  ev_ip :: "pystr option"
  ev_agent :: "pystr option"
  ev_extra :: "pystr option"
  ev_at :: int
  ev_stamp :: "pystr option"
  ev_index :: "int option"

record corpus_row =
  cp_file :: pystr
  cp_kind :: pystr
  cp_value :: pystr
  cp_metadata :: "pystr option"
  cp_at :: int

record tables =
  t_beacons :: "beacon_row list"
  t_watermarks :: "watermark_row list"
  t_manifests :: "manifest_row list"
  t_events :: "event_row list"
  t_corpus :: "corpus_row list"

definition empty_tables :: tables where
  "empty_tables = \<lparr>t_beacons = [], t_watermarks = [], t_manifests = [], t_events = [], t_corpus = []\<rparr>"

text \<open>\<open>init_db\<close>: \<open>CREATE TABLE IF NOT EXISTS\<close> keeps the tables of an existing file.\<close>

definition init_db :: "tables option \<Rightarrow> tables" where
  "init_db file = (case file of None \<Rightarrow> empty_tables | Some t \<Rightarrow> t)"

definition wm_key :: "watermark_row \<Rightarrow> (pystr \<times> pystr) option" where
  "wm_key w = Some (wm_mark w, wm_layer w)"

definition cp_key :: "corpus_row \<Rightarrow> (pystr \<times> pystr \<times> pystr) option" where
  "cp_key c = Some (cp_file c, cp_kind c, cp_value c)"

section \<open>Statements\<close>

definition replace_row :: "('r \<Rightarrow> 'k option) \<Rightarrow> 'r \<Rightarrow> 'r list \<Rightarrow> 'r list" where
  "replace_row kf r t = filter (\<lambda>x. kf x = None \<or> kf x \<noteq> kf r) t @ [r]"

definition select_row :: "('r \<Rightarrow> 'k option) \<Rightarrow> 'k \<Rightarrow> 'r list \<Rightarrow> 'r option" where
  "select_row kf k t = find (\<lambda>r. kf r = Some k) t"

lemma select_row_simps [simp]:
  "select_row kf k [] = None"
  "select_row kf k (r # t) = (if kf r = Some k then Some r else select_row kf k t)"
  by (simp_all add: select_row_def)

lemma select_row_append:
  "select_row kf k (xs @ ys) = (case select_row kf k xs of Some r \<Rightarrow> Some r | None \<Rightarrow> select_row kf k ys)"
  by (induction xs) auto

lemma select_row_replace:
  "select_row kf k (replace_row kf r t) = (if kf r = Some k then Some r else select_row kf k t)"
proof -
  have "select_row kf k (filter (\<lambda>x. kf x = None \<or> kf x \<noteq> kf r) t)
      = (if kf r = Some k then None else select_row kf k t)"
    by (induction t) auto
  then show ?thesis by (auto simp: replace_row_def select_row_append split: option.split)
qed

lemma select_row_SomeD: "select_row kf k t = Some r \<Longrightarrow> r \<in> set t \<and> kf r = Some k"
  by (induction t) (auto split: if_splits)

interpretation beacons: keyed_table "replace_row bc_token" "select_row bc_token" bc_token
  by unfold_locales (rule select_row_replace)

interpretation watermarks: keyed_table "replace_row wm_key" "select_row wm_key" wm_key
  by unfold_locales (rule select_row_replace)

interpretation manifests: keyed_table "replace_row mf_file" "select_row mf_file" mf_file
  by unfold_locales (rule select_row_replace)

interpretation corpus: keyed_table "replace_row cp_key" "select_row cp_key" cp_key
  by unfold_locales (rule select_row_replace)

text \<open>\<open>WHERE column = ?\<close> with a bound value: nothing equals \<open>NULL\<close>.\<close>

definition select_where :: "('r \<Rightarrow> 'k option) \<Rightarrow> 'k option \<Rightarrow> 'r list \<Rightarrow> 'r option" where
  "select_where kf k t = Option.bind k (\<lambda>k. select_row kf k t)"

text \<open>A primary key belongs to at most one row.\<close>

definition unique_keys :: "('r \<Rightarrow> 'k option) \<Rightarrow> 'r list \<Rightarrow> bool" where
  "unique_keys kf t \<longleftrightarrow> distinct (filter (\<lambda>k. k \<noteq> None) (map kf t))"

lemma unique_keys_Nil [simp]: "unique_keys kf []"
  by (simp add: unique_keys_def)

lemma unique_keys_replace: "unique_keys kf t \<Longrightarrow> unique_keys kf (replace_row kf r t)"
proof (induction t)
  case (Cons x t)
  then show ?case by (auto simp: unique_keys_def replace_row_def filter_map o_def image_iff; metis option.distinct(1))
qed (simp add: unique_keys_def replace_row_def)

lemma unique_keys_select: "unique_keys kf t \<Longrightarrow> r \<in> set t \<Longrightarrow> kf r = Some k \<Longrightarrow> select_row kf k t = Some r"
  by (induction t) (auto simp: unique_keys_def image_iff filter_map o_def split: if_splits)

text \<open>A loop of statements that stops at the first error.\<close>

fun foldM_res :: "('a \<Rightarrow> 's \<Rightarrow> 's res) \<Rightarrow> 'a list \<Rightarrow> 's \<Rightarrow> 's res" where
  "foldM_res f [] s = Inr s"
| "foldM_res f (x # xs) s = ebind (f x s) (foldM_res f xs)"

lemma foldM_res_inv:
  "foldM_res f xs s = Inr s' \<Longrightarrow> P s \<Longrightarrow> (\<And>x s s'. x \<in> set xs \<Longrightarrow> f x s = Inr s' \<Longrightarrow> P s \<Longrightarrow> P s') \<Longrightarrow> P s'"
  by (induction xs arbitrary: s) (auto simp: ebind_eq_Inr)

lemma foldM_res_append: "foldM_res f (xs @ ys) s = ebind (foldM_res f xs s) (foldM_res f ys)"
  proof (induction xs arbitrary: s)
  case (Cons x xs)
  then show ?case by (cases "f x s") simp_all
qed simp

lemma foldM_res_fold:
  assumes step: "\<And>x s s'. f x s = Inr s' \<Longrightarrow> \<exists>r. s' = upd r s \<and> R x r"
    and "foldM_res f xs s = Inr s'"
  shows "\<exists>rs. s' = fold upd rs s \<and> list_all2 R xs rs"
  using assms(2)
proof (induction xs arbitrary: s)
  case (Cons x xs)
  obtain s1 where s1: "f x s = Inr s1" "foldM_res f xs s1 = Inr s'"
    using Cons.prems by (auto simp: ebind_eq_Inr)
  obtain r where "s1 = upd r s" "R x r" using step [OF s1(1)] by blast
  moreover obtain rs where "s' = fold upd rs s1" "list_all2 R xs rs" using Cons.IH [OF s1(2)] by blast
  ultimately show ?case by (intro exI [of _ "r # rs"]) simp
qed simp

lemma fold_update_beacons:
  "fold (\<lambda>r t. t\<lparr>t_beacons := g r (t_beacons t)\<rparr>) rs t = t\<lparr>t_beacons := fold g rs (t_beacons t)\<rparr>"
  by (induction rs arbitrary: t) simp_all

lemma fold_update_watermarks:
  "fold (\<lambda>r t. t\<lparr>t_watermarks := g r (t_watermarks t)\<rparr>) rs t = t\<lparr>t_watermarks := fold g rs (t_watermarks t)\<rparr>"
  by (induction rs arbitrary: t) simp_all

lemma unique_keys_fold: "unique_keys kf t \<Longrightarrow> unique_keys kf (fold (replace_row kf) rs t)"
  by (induction rs arbitrary: t) (simp_all add: unique_keys_replace)

end
