(* ===== verification/Merkle.thy ===== *)
theory Merkle
  imports Sha256
begin

text \<open>
  The abstract Merkle tree of RFC 6962, section 2.1: the root of a list of leaf hashes, the
  audit path of a leaf and its check, for any hash function \<open>H\<close>. What the log relies on of the
  hash is the contract \<open>hash32\<close>: digests have 32 bytes. Completeness needs nothing of \<open>H\<close>;
  soundness says that an accepted path for a wrong leaf exhibits two different strings, one hashed
  by the check and one hashed in the tree, with the same digest.
\<close>

section \<open>The split point\<close>

text \<open>The loop \<open>k = 1; while k * 2 < n: k *= 2\<close>; the conjunct \<open>0 < k\<close> holds throughout.\<close>

function pow2_loop :: "nat \<Rightarrow> nat \<Rightarrow> nat" where
  "pow2_loop n k = (if 0 < k \<and> k * 2 < n then pow2_loop n (k * 2) else k)"
  by pat_completeness auto
termination
  by (relation "measure (\<lambda>(n, k). n - k)") auto

declare pow2_loop.simps [simp del]

definition split_point :: "nat \<Rightarrow> nat" where
  "split_point n = pow2_loop n 1"

lemma pow2_loop_bounds: "0 < k \<Longrightarrow> k < n \<Longrightarrow> 0 < pow2_loop n k \<and> pow2_loop n k < n \<and> n \<le> 2 * pow2_loop n k"
proof (induction n k rule: pow2_loop.induct)
  case (1 n k)
  then show ?case by (subst (1 2 3) pow2_loop.simps) auto
qed

lemma pow2_loop_power: "k = 2 ^ j \<Longrightarrow> \<exists>i. pow2_loop n k = 2 ^ i"
proof (induction n k arbitrary: j rule: pow2_loop.induct)
  case (1 n k)
  show ?case
  proof (cases "0 < k \<and> k * 2 < n")
    case True
    have "k * 2 = 2 ^ Suc j" using "1.prems" by simp
    with True "1.IH" [of "Suc j"] show ?thesis by (subst pow2_loop.simps) (auto simp: mult.commute)
  next
    case False
    with "1.prems" show ?thesis by (subst pow2_loop.simps) auto
  qed
qed

lemma split_point_bounds: "2 \<le> n \<Longrightarrow> 0 < split_point n \<and> split_point n < n \<and> n \<le> 2 * split_point n"
  unfolding split_point_def by (rule pow2_loop_bounds) auto

lemma split_point_less: "\<not> n \<le> Suc 0 \<Longrightarrow> split_point n < n" "\<not> n \<le> Suc 0 \<Longrightarrow> n - split_point n < n"
    "\<not> n \<le> Suc 0 \<Longrightarrow> 0 < split_point n"
  using split_point_bounds [of n] by auto

lemma split_point_power: "\<exists>i. split_point n = 2 ^ i"
  unfolding split_point_def by (rule pow2_loop_power [of _ 0]) simp

section \<open>Root, path, check\<close>

definition node_text :: "bytes \<Rightarrow> bytes \<Rightarrow> bytes" where
  "node_text l r = 1 # l @ r"

function mroot :: "(bytes \<Rightarrow> bytes) \<Rightarrow> bytes list \<Rightarrow> bytes" where
  "mroot H xs =
     (if length xs \<le> 1 then concat xs
      else let k = split_point (length xs)
           in H (node_text (mroot H (take k xs)) (mroot H (drop k xs))))"
  by pat_completeness auto
termination
  by (relation "measure (\<lambda>(H, xs). length xs)") (auto simp: split_point_less min_def dest: split_point_less)

function mpath :: "(bytes \<Rightarrow> bytes) \<Rightarrow> bytes list \<Rightarrow> nat \<Rightarrow> bytes list" where
  "mpath H xs m =
     (if length xs \<le> 1 then []
      else let k = split_point (length xs)
           in if m < k then mpath H (take k xs) m @ [mroot H (drop k xs)]
              else mpath H (drop k xs) (m - k) @ [mroot H (take k xs)])"
  by pat_completeness auto
termination
  by (relation "measure (\<lambda>(H, xs, m). length xs)") (auto simp: split_point_less min_def dest: split_point_less)

function mcheck :: "(bytes \<Rightarrow> bytes) \<Rightarrow> bytes \<Rightarrow> nat \<Rightarrow> bytes list \<Rightarrow> nat \<Rightarrow> bytes option" where
  "mcheck H h m rem n =
     (if n \<le> 1 then (if rem = [] then Some h else None)
      else if rem = [] then None
      else let k = split_point n; sibling = last rem; deeper = butlast rem
           in if m < k
              then map_option (\<lambda>left. H (node_text left sibling)) (mcheck H h m deeper k)
              else map_option (\<lambda>right. H (node_text sibling right)) (mcheck H h (m - k) deeper (n - k)))"
  by pat_completeness auto
termination
  by (relation "measure (\<lambda>(H, h, m, rem, n). n)") (auto simp: split_point_less min_def dest: split_point_less)

declare mroot.simps [simp del] mpath.simps [simp del] mcheck.simps [simp del]

text \<open>The strings hashed in the tree, and those hashed while checking a path.\<close>

function tree_texts :: "(bytes \<Rightarrow> bytes) \<Rightarrow> bytes list \<Rightarrow> bytes set" where
  "tree_texts H xs =
     (if length xs \<le> 1 then {}
      else let k = split_point (length xs)
           in insert (node_text (mroot H (take k xs)) (mroot H (drop k xs)))
                (tree_texts H (take k xs) \<union> tree_texts H (drop k xs)))"
  by pat_completeness auto
termination
  by (relation "measure (\<lambda>(H, xs). length xs)") (auto simp: split_point_less min_def dest: split_point_less)

function check_texts :: "(bytes \<Rightarrow> bytes) \<Rightarrow> bytes \<Rightarrow> nat \<Rightarrow> bytes list \<Rightarrow> nat \<Rightarrow> bytes set" where
  "check_texts H h m rem n =
     (if n \<le> 1 \<or> rem = [] then {}
      else let k = split_point n; sibling = last rem; deeper = butlast rem
           in if m < k
              then (case mcheck H h m deeper k of None \<Rightarrow> {} | Some left \<Rightarrow> {node_text left sibling})
                   \<union> check_texts H h m deeper k
              else (case mcheck H h (m - k) deeper (n - k) of
                      None \<Rightarrow> {} | Some right \<Rightarrow> {node_text sibling right})
                   \<union> check_texts H h (m - k) deeper (n - k))"
  by pat_completeness auto
termination
  by (relation "measure (\<lambda>(H, h, m, rem, n). n)") (auto simp: split_point_less min_def dest: split_point_less)

declare tree_texts.simps [simp del] check_texts.simps [simp del]

definition collision :: "(bytes \<Rightarrow> bytes) \<Rightarrow> bytes set \<Rightarrow> bytes set \<Rightarrow> bool" where
  "collision H A B \<longleftrightarrow> (\<exists>x\<in>A. \<exists>y\<in>B. x \<noteq> y \<and> H x = H y)"

lemma collision_mono: "collision H A B \<Longrightarrow> A \<subseteq> A' \<Longrightarrow> B \<subseteq> B' \<Longrightarrow> collision H A' B'"
  unfolding collision_def by blast

lemma mroot_single [simp]: "mroot H [x] = x"
  by (simp add: mroot.simps)

lemma mpath_single [simp]: "mpath H [x] m = []"
  by (simp add: mpath.simps)

lemma mcheck_complete:
  "i < length xs \<Longrightarrow> mcheck H (xs ! i) i (mpath H xs i) (length xs) = Some (mroot H xs)"
proof (induction H xs i rule: mpath.induct)
  case (1 H xs m)
  show ?case
  proof (cases "length xs \<le> 1")
    case True
    then obtain x where "xs = [x]" using "1.prems" by (cases xs) auto
    then show ?thesis using "1.prems" by (simp add: mcheck.simps)
  next
    case False
    define k where "k = split_point (length xs)"
    have k: "0 < k" "k < length xs" using split_point_bounds [of "length xs"] False by (auto simp: k_def)
    show ?thesis
    proof (cases "m < k")
      case True
      then have "mcheck H (take k xs ! m) m (mpath H (take k xs) m) (length (take k xs)) = Some (mroot H (take k xs))"
        using "1.IH"(1) [OF False k_def] k by simp
      then show ?thesis
        using False True k
        by (simp add: mpath.simps [of H xs] mcheck.simps [of H "xs ! m"] mroot.simps [of H xs]
            Let_def k_def [symmetric] min_def)
    next
      case F: False
      then have "mcheck H (drop k xs ! (m - k)) (m - k) (mpath H (drop k xs) (m - k)) (length (drop k xs))
          = Some (mroot H (drop k xs))"
        using "1.IH"(2) [OF False k_def] k "1.prems" by simp
      then show ?thesis
        using False F k "1.prems"
        by (simp add: mpath.simps [of H xs] mcheck.simps [of H "xs ! m"] mroot.simps [of H xs]
            Let_def k_def [symmetric])
    qed
  qed
qed

section \<open>The contract of the hash\<close>

locale hash32 =
  fixes H :: "bytes \<Rightarrow> bytes"
  assumes len_H: "length (H x) = 32"
begin

lemma mroot_len:
  "xs \<noteq> [] \<Longrightarrow> (\<And>x. x \<in> set xs \<Longrightarrow> length x = 32) \<Longrightarrow> length (mroot H xs) = 32"
proof (cases "length xs \<le> 1")
  case True
  assume "xs \<noteq> []" and l: "\<And>x. x \<in> set xs \<Longrightarrow> length x = 32"
  then obtain x where "xs = [x]" using True by (cases xs) auto
  then show ?thesis using l by simp
next
  case False
  then show ?thesis by (simp add: mroot.simps Let_def len_H)
qed

lemma mcheck_len: "length h = 32 \<Longrightarrow> mcheck H h m rem n = Some r \<Longrightarrow> length r = 32"
  by (subst (asm) mcheck.simps) (auto simp: Let_def len_H split: if_splits)

text \<open>Two nodes with the same hash: either they are the same, or they collide.\<close>

lemma node_step:
  assumes "H (node_text a b) = H (node_text a' b')" "length a = length a' \<or> length b = length b'"
    and "a = a' \<Longrightarrow> b = b' \<Longrightarrow> P \<or> collision H X Y"
    and "insert (node_text a b) X \<subseteq> X'" "insert (node_text a' b') Y \<subseteq> Y'"
  shows "P \<or> collision H X' Y'"
proof (cases "node_text a b = node_text a' b'")
  case True
  then have "a = a' \<and> b = b'" using assms(2) by (simp add: node_text_def append_eq_append_conv)
  then have "P \<or> collision H X Y" by (intro assms(3)) simp_all
  then show ?thesis using assms(4,5) collision_mono [of H X Y X' Y'] by blast
next
  case False
  then show ?thesis using assms(1,4,5) by (auto simp: collision_def)
qed

lemma mcheck_sound:
  assumes "length h = 32" "i < length xs" "\<And>x. x \<in> set xs \<Longrightarrow> length x = 32"
    and "mcheck H h i p (length xs) = Some (mroot H xs)"
  shows "h = xs ! i \<or> collision H (check_texts H h i p (length xs)) (tree_texts H xs)"
  using assms
proof (induction "length xs" arbitrary: xs i p rule: less_induct)
  case less
  show ?case
  proof (cases "length xs \<le> 1")
    case True
    then obtain x where "xs = [x]" using less.prems(2) by (cases xs) auto
    then show ?thesis using less.prems by (simp add: mcheck.simps split: if_splits)
  next
    case False
    define k where "k = split_point (length xs)"
    have k: "0 < k" "k < length xs" using split_point_bounds [of "length xs"] False by (auto simp: k_def)
    let ?L = "mroot H (take k xs)" and ?R = "mroot H (drop k xs)"
    have lens: "length ?L = 32" "length ?R = 32"
      using k less.prems(3) by (auto intro!: mroot_len dest: in_set_takeD in_set_dropD)
    have root: "mroot H xs = H (node_text ?L ?R)"
      and tree: "tree_texts H xs = insert (node_text ?L ?R) (tree_texts H (take k xs) \<union> tree_texts H (drop k xs))"
      using False by (simp_all add: mroot.simps [of H xs] tree_texts.simps [of H xs] Let_def k_def)
    have p: "p \<noteq> []" using less.prems(4) False by (subst (asm) mcheck.simps) (auto split: if_splits)
    show ?thesis
    proof (cases "i < k")
      case True
      then obtain l where l: "mcheck H h i (butlast p) k = Some l" "H (node_text l (last p)) = H (node_text ?L ?R)"
        using less.prems(4) False p root
        by (subst (asm) mcheck.simps) (auto simp: Let_def k_def [symmetric] split: if_splits)
      have texts: "check_texts H h i p (length xs) = insert (node_text l (last p)) (check_texts H h i (butlast p) k)"
        using False p True l(1) by (subst check_texts.simps) (simp add: Let_def k_def [symmetric])
      have below: "h = xs ! i \<or> collision H (check_texts H h i (butlast p) k) (tree_texts H (take k xs))" if "l = ?L"
        using less.hyps [of "take k xs" i "butlast p"] less.prems(1,3) l(1) k True that
        by (auto simp: min_def dest: in_set_takeD)
      show ?thesis
        by (rule node_step [OF l(2) _ below]) (auto simp: texts tree lens mcheck_len [OF less.prems(1) l(1)])
    next
      case F: False
      then obtain r where r: "mcheck H h (i - k) (butlast p) (length xs - k) = Some r"
          "H (node_text (last p) r) = H (node_text ?L ?R)"
        using less.prems(4) False p root
        by (subst (asm) mcheck.simps) (auto simp: Let_def k_def [symmetric] split: if_splits)
      have texts: "check_texts H h i p (length xs)
          = insert (node_text (last p) r) (check_texts H h (i - k) (butlast p) (length xs - k))"
        using False p F r(1) by (subst check_texts.simps) (simp add: Let_def k_def [symmetric])
      have below: "h = xs ! i
          \<or> collision H (check_texts H h (i - k) (butlast p) (length xs - k)) (tree_texts H (drop k xs))" if "r = ?R"
        using less.hyps [of "drop k xs" "i - k" "butlast p"] less.prems(1,2) r(1) k F that
          less.prems(3) [OF in_set_dropD] diff_less_mono [of i "length xs" k] by simp
      show ?thesis
        by (rule node_step [OF r(2) _ below]) (auto simp: texts tree lens mcheck_len [OF less.prems(1) r(1)])
    qed
  qed
qed

text \<open>Two lists of the same length with the same root are equal, or their trees hold a collision.\<close>

lemma mroot_inject:
  assumes "length xs = length ys" "\<And>x. x \<in> set xs \<union> set ys \<Longrightarrow> length x = 32" "mroot H xs = mroot H ys"
  shows "xs = ys \<or> collision H (tree_texts H xs) (tree_texts H ys)"
  using assms
proof (induction "length xs" arbitrary: xs ys rule: less_induct)
  case less
  show ?case
  proof (cases "length xs \<le> 1")
    case True
    then show ?thesis using less.prems by (cases xs; cases ys) auto
  next
    case False
    define k where "k = split_point (length xs)"
    have k: "0 < k" "k < length xs" using split_point_bounds [of "length xs"] False by (auto simp: k_def)
    let ?T = "\<lambda>zs. node_text (mroot H (take k zs)) (mroot H (drop k zs))"
    have tree: "mroot H zs = H (?T zs)"
      "tree_texts H zs = insert (?T zs) (tree_texts H (take k zs) \<union> tree_texts H (drop k zs))"
      if "length zs = length xs" for zs
      using False that by (simp_all add: mroot.simps [of H zs] tree_texts.simps [of H zs] Let_def k_def)
    have len: "length x = 32" if "x \<in> set (take k zs) \<union> set (drop k zs)" "zs = xs \<or> zs = ys" for x zs
      using that less.prems(2) by (auto dest: in_set_takeD in_set_dropD)
    show ?thesis
    proof (cases "?T xs = ?T ys")
      case True
      have "length (mroot H (take k xs)) = 32" "length (mroot H (take k ys)) = 32"
        using k less.prems(1) len by (auto intro!: mroot_len)
      then have roots: "mroot H (take k xs) = mroot H (take k ys)" "mroot H (drop k xs) = mroot H (drop k ys)"
        using True by (simp_all add: node_text_def)
      have halves: "take k xs = take k ys \<or> collision H (tree_texts H (take k xs)) (tree_texts H (take k ys))"
        "drop k xs = drop k ys \<or> collision H (tree_texts H (drop k xs)) (tree_texts H (drop k ys))"
        by (rule less.hyps; use k less.prems(1) len roots in auto)+
      have "xs = ys" if "take k xs = take k ys" "drop k xs = drop k ys"
        using that by (metis append_take_drop_id)
      with halves show ?thesis using tree [of xs] tree [of ys] less.prems(1)
        by (auto intro: collision_mono)
    next
      case False
      then show ?thesis using tree [of xs] tree [of ys] less.prems(1,3) by (auto simp: collision_def)
    qed
  qed
qed

end

interpretation sha: hash32 sha256
  by unfold_locales simp

end
