(* ===== verification/Tlog.thy ===== *)
theory Tlog
  imports PyObj Merkle CryptoOps Interfaces
begin

text \<open>
  The transparency log, \<open>oversight_core/tlog.py\<close>: the RFC 6962 tree of \<open>Merkle\<close> as the code
  computes it, the leaf records of the file \<open>leaves.jsonl\<close>, the class \<open>TransparencyLog\<close> (state:
  the file's content, the leaf hashes in memory, the cached root, the signing key), and the proof
  verifier. The lock makes each method one step. \<open>append\<close> takes the outcome of its write: \<open>None\<close>
  when the record reaches the disk, \<open>Some k\<close> when the operating system fails after \<open>k\<close> characters.
  Its interface is the locale \<open>append_log\<close>, interpreted here by the class.
\<close>

section \<open>The tree\<close>

definition tlog_h :: "bytes \<Rightarrow> bytes" where
  "tlog_h data = sha256 data"

definition largest_power_of_2_less_than :: "nat \<Rightarrow> nat res" where
  "largest_power_of_2_less_than n = ebind (guard (2 \<le> n) AssertionError) (\<lambda>_. Inr (pow2_loop n 1))"

lemma largest_power_eq: "2 \<le> n \<Longrightarrow> largest_power_of_2_less_than n = Inr (split_point n)"
  by (simp add: largest_power_of_2_less_than_def split_point_def)

lemma largest_power_Inr:
  "largest_power_of_2_less_than n = Inr k \<longleftrightarrow> 2 \<le> n \<and> k = split_point n"
  by (auto simp: largest_power_of_2_less_than_def split_point_def guard_def)

lemma split_pos:
  "2 \<le> n \<Longrightarrow> 0 < split_point n" "2 \<le> n \<Longrightarrow> split_point n < n"
  "2 \<le> n \<Longrightarrow> \<not> n \<le> split_point n" "2 \<le> n \<Longrightarrow> n - split_point n < n"
  using split_point_bounds [of n] by auto

function rfc6962_mth :: "bytes list \<Rightarrow> bytes res" where
  "rfc6962_mth hs =
     (if length hs = 1 then Inr (hs ! 0)
      else ebind (largest_power_of_2_less_than (length hs)) (\<lambda>k.
           ebind (rfc6962_mth (take k hs)) (\<lambda>left.
           ebind (rfc6962_mth (drop k hs)) (\<lambda>right.
           Inr (tlog_h (1 # left @ right))))))"
  by pat_completeness auto
termination
  by (relation "measure length") (auto simp: largest_power_Inr min_def split_pos)

function rfc6962_path :: "bytes list \<Rightarrow> nat \<Rightarrow> bytes list res" where
  "rfc6962_path hs m =
     (if length hs \<le> 1 then Inr []
      else ebind (largest_power_of_2_less_than (length hs)) (\<lambda>k.
           if m < k then
             ebind (rfc6962_path (take k hs) m) (\<lambda>p.
             ebind (rfc6962_mth (drop k hs)) (\<lambda>s. Inr (p @ [s])))
           else
             ebind (rfc6962_path (drop k hs) (m - k)) (\<lambda>p.
             ebind (rfc6962_mth (take k hs)) (\<lambda>s. Inr (p @ [s])))))"
  by pat_completeness auto
termination
  by (relation "measure (\<lambda>(hs, m). length hs)") (auto simp: largest_power_Inr min_def split_pos)

declare rfc6962_mth.simps [simp del] rfc6962_path.simps [simp del]

lemma rfc6962_mth_mroot: "hs \<noteq> [] \<Longrightarrow> rfc6962_mth hs = Inr (mroot tlog_h hs)"
proof (induction "length hs" arbitrary: hs rule: less_induct)
  case less
  show ?case
  proof (cases "length hs = 1")
    case True
    then show ?thesis by (cases hs) (simp_all add: rfc6962_mth.simps [of "[_]"])
  next
    case False
    define k where "k = split_point (length hs)"
    have n: "2 \<le> length hs" using False less.prems by (cases hs) (auto simp: Suc_le_eq)
    then have k: "0 < k" "k < length hs" by (simp_all add: k_def split_pos)
    then have "rfc6962_mth (take k hs) = Inr (mroot tlog_h (take k hs))"
      "rfc6962_mth (drop k hs) = Inr (mroot tlog_h (drop k hs))"
      using less.hyps [of "take k hs"] less.hyps [of "drop k hs"] less.prems by auto
    moreover have "largest_power_of_2_less_than (length hs) = Inr k"
      using n by (simp add: largest_power_eq k_def)
    ultimately show ?thesis
      using n by (simp add: rfc6962_mth.simps [of hs] mroot.simps [of _ hs] Let_def node_text_def k_def [symmetric])
  qed
qed

lemma rfc6962_mth_empty: "rfc6962_mth [] = Inl AssertionError"
  by (subst rfc6962_mth.simps) (simp add: largest_power_of_2_less_than_def)

lemma rfc6962_path_mpath: "hs \<noteq> [] \<Longrightarrow> rfc6962_path hs m = Inr (mpath tlog_h hs m)"
proof (induction "length hs" arbitrary: hs m rule: less_induct)
  case less
  show ?case
  proof (cases "length hs \<le> 1")
    case True
    then show ?thesis by (simp add: rfc6962_path.simps [of hs] mpath.simps [of _ hs])
  next
    case False
    define k where "k = split_point (length hs)"
    have n: "2 \<le> length hs" using False by simp
    then have k: "0 < k" "k < length hs" by (simp_all add: k_def split_pos)
    then have "rfc6962_path (take k hs) m' = Inr (mpath tlog_h (take k hs) m')"
      "rfc6962_path (drop k hs) m' = Inr (mpath tlog_h (drop k hs) m')"
      "rfc6962_mth (take k hs) = Inr (mroot tlog_h (take k hs))"
      "rfc6962_mth (drop k hs) = Inr (mroot tlog_h (drop k hs))" for m'
      using less.hyps [of "take k hs"] less.hyps [of "drop k hs"] less.prems
      by (auto simp: rfc6962_mth_mroot)
    moreover have "largest_power_of_2_less_than (length hs) = Inr k"
      using n by (simp add: largest_power_eq k_def)
    ultimately show ?thesis
      using False by (simp add: rfc6962_path.simps [of hs] mpath.simps [of _ hs] Let_def k_def [symmetric])
  qed
qed

section \<open>The verifier\<close>

text \<open>The inner function \<open>rec\<close> of \<open>verify_inclusion_proof\<close>; it is entered with \<open>0 < n\<close> only.\<close>

function verify_rec :: "bytes \<Rightarrow> nat \<Rightarrow> bytes list \<Rightarrow> nat \<Rightarrow> bytes option res" where
  "verify_rec h m remaining n =
     (if n = 1 then Inr (if remaining = [] then Some h else None)
      else if remaining = [] then Inr None
      else ebind (largest_power_of_2_less_than n) (\<lambda>k.
           let sibling = last remaining; deeper = butlast remaining in
           if m < k then
             ebind (verify_rec h m deeper k) (\<lambda>r. case r of
                 None \<Rightarrow> Inr None
               | Some left \<Rightarrow> Inr (Some (tlog_h (1 # left @ sibling))))
           else
             ebind (verify_rec h (m - k) deeper (n - k)) (\<lambda>r. case r of
                 None \<Rightarrow> Inr None
               | Some right \<Rightarrow> Inr (Some (tlog_h (1 # sibling @ right))))))"
  by pat_completeness auto
termination
  by (relation "measure (\<lambda>(h, m, remaining, n). n)") (auto simp: largest_power_Inr split_pos)

declare verify_rec.simps [simp del]

definition verify_inclusion_proof :: "bytes \<Rightarrow> int \<Rightarrow> bytes list \<Rightarrow> int \<Rightarrow> bytes \<Rightarrow> bool res" where
  "verify_inclusion_proof leaf_hash index proof tree_size expected_root =
     (if tree_size < 1 \<or> index < 0 \<or> tree_size \<le> index then Inr False
      else ebind (verify_rec leaf_hash (nat index) proof (nat tree_size)) (\<lambda>computed.
           Inr (computed = Some expected_root)))"

lemma verify_rec_mcheck: "0 < n \<Longrightarrow> verify_rec h m p n = Inr (mcheck tlog_h h m p n)"
proof (induction n arbitrary: m p rule: less_induct)
  case (less n)
  show ?case
  proof (cases "n = 1 \<or> p = []")
    case True
    then show ?thesis using less.prems by (auto simp: verify_rec.simps [of h] mcheck.simps [of _ h])
  next
    case False
    define k where "k = split_point n"
    have n: "2 \<le> n" using False less.prems by auto
    then have k: "0 < k" "k < n" by (simp_all add: k_def split_pos)
    then have "verify_rec h m' p' k = Inr (mcheck tlog_h h m' p' k)"
      "verify_rec h m' p' (n - k) = Inr (mcheck tlog_h h m' p' (n - k))" for m' p'
      using less.IH by auto
    moreover have "largest_power_of_2_less_than n = Inr k"
      using n by (simp add: largest_power_eq k_def)
    ultimately show ?thesis
      using False n
      by (simp add: verify_rec.simps [of h m p n] mcheck.simps [of _ h m p n] Let_def node_text_def
          k_def [symmetric] split: option.splits)
  qed
qed

lemma verify_inclusion_mcheck:
  "verify_inclusion_proof h i p n r =
     Inr (0 \<le> i \<and> i < n \<and> mcheck tlog_h h (nat i) p (nat n) = Some r)"
  by (auto simp: verify_inclusion_proof_def verify_rec_mcheck)

section \<open>Leaf records\<close>

definition leaf_data_bytes :: "pydict \<Rightarrow> bytes res" where
  "leaf_data_bytes rec =
     (if dgetn rec ''leaf_data_hex'' \<noteq> PNone
      then ebind (ditem rec ''leaf_data_hex'') py_fromhex
      else case dgetn rec ''leaf_data'' of
          PStr s \<Rightarrow> utf8_encode s
        | _ \<Rightarrow> Inl (ValueError ''leaf_data must be a string''))"

definition parse_leaf_record :: "pystr \<Rightarrow> nat \<Rightarrow> (pydict \<times> bytes) res" where
  "parse_leaf_record line expected_index =
     ebind (json_loads line) (\<lambda>v. case v of
         PDict rec \<Rightarrow>
           (case dgetn rec ''index'' of
              PInt found_index \<Rightarrow>
                ebind (guard (found_index = int expected_index) (ValueError ''leaf index mismatch'')) (\<lambda>_.
                ebind (ditem rec ''leaf_hash'') (\<lambda>hv.
                ebind (py_fromhex hv) (\<lambda>leaf_hash.
                ebind (guard (length leaf_hash = 32) (ValueError ''leaf hash length'')) (\<lambda>_.
                ebind (leaf_data_bytes rec) (\<lambda>data.
                ebind (guard (leaf_hash = tlog_h (0 # data)) (ValueError ''leaf hash mismatch'')) (\<lambda>_.
                Inr (rec, leaf_hash)))))))
            | _ \<Rightarrow> Inl (ValueError ''leaf index must be an integer''))
       | _ \<Rightarrow> Inl (ValueError ''leaf record must be an object''))"

text \<open>The record \<open>append\<close> writes.\<close>

definition leaf_record :: "nat \<Rightarrow> bytes \<Rightarrow> bytes \<Rightarrow> pydict" where
  "leaf_record index leaf_hash leaf_bytes =
     [(key ''index'', PInt (int index)),
      (key ''leaf_hash'', PStr (hex leaf_hash)),
      (key ''leaf_data'', PStr (utf8_decode_replace leaf_bytes)),
      (key ''leaf_data_hex'', PStr (hex leaf_bytes))]"

section \<open>The log\<close>

record tlog =
  leaves_file :: "pystr option"
  leaves :: "bytes list"
  cached_root :: "bytes option"
  tlog_sk :: "bytes option"

fun load_lines :: "pystr list \<Rightarrow> nat \<Rightarrow> bytes list res" where
  "load_lines [] expected_index = Inr []"
| "load_lines (line # ls) expected_index =
     (if strip line = [] then load_lines ls expected_index
      else ebind (parse_leaf_record line expected_index) (\<lambda>(_, leaf_hash).
           ebind (load_lines ls (expected_index + 1)) (\<lambda>hs. Inr (leaf_hash # hs))))"

definition tlog_load :: "pystr option \<Rightarrow> bytes list res" where
  "tlog_load content =
     (case content of None \<Rightarrow> Inr [] | Some c \<Rightarrow> load_lines (file_lines c) 0)"

definition tlog_init :: "pystr option \<Rightarrow> pystr option \<Rightarrow> tlog res" where
  "tlog_init content signing_key_hex =
     ebind (tlog_load content) (\<lambda>hs.
     ebind (case signing_key_hex of
              None \<Rightarrow> Inr None
            | Some k \<Rightarrow>
                if k = [] then Inr None
                else ebind (fromhex k) (\<lambda>sk.
                     ebind (guard (length sk = 32) (ValueError ''An Ed25519 private key is 32 bytes long''))
                       (\<lambda>_. Inr (Some sk)))) (\<lambda>sk.
     Inr \<lparr>leaves_file = content, leaves = hs, cached_root = None, tlog_sk = sk\<rparr>))"

definition leaf_bytes_of :: "pyval \<Rightarrow> bytes res" where
  "leaf_bytes_of leaf_data =
     (case leaf_data of
        PDict d \<Rightarrow> jcs_dumps (PDict d)
      | PStr s \<Rightarrow> utf8_encode s
      | PBytes b \<Rightarrow> Inr b
      | _ \<Rightarrow> Inl (TypeError ''can't concat to bytes''))"

definition tlog_append :: "nat option \<Rightarrow> pyval \<Rightarrow> tlog \<Rightarrow> tlog \<times> nat res" where
  "tlog_append io leaf_data t =
     (case leaf_bytes_of leaf_data of
        Inl e \<Rightarrow> (t, Inl e)
      | Inr leaf_bytes \<Rightarrow>
          let index = length (leaves t);
              leaf_hash = tlog_h (0 # leaf_bytes);
              t1 = t\<lparr>leaves := leaves t @ [leaf_hash], cached_root := None\<rparr>;
              old = (case leaves_file t of None \<Rightarrow> [] | Some c \<Rightarrow> c)
          in case json_dumps (PDict (leaf_record index leaf_hash leaf_bytes)) of
               Inl e \<Rightarrow> (t1, Inl e)
             | Inr text \<Rightarrow>
                 (case io of
                    None \<Rightarrow> (t1\<lparr>leaves_file := Some (old @ text @ [10])\<rparr>, Inr index)
                  | Some k \<Rightarrow> (t1\<lparr>leaves_file := Some (old @ take k (text @ [10]))\<rparr>,
                               Inl (OSError ''write''))))"

definition tlog_root :: "tlog \<Rightarrow> tlog \<times> bytes res" where
  "tlog_root t =
     (case cached_root t of
        Some r \<Rightarrow> (t, Inr r)
      | None \<Rightarrow>
          if leaves t = [] then (t\<lparr>cached_root := Some (tlog_h [])\<rparr>, Inr (tlog_h []))
          else case rfc6962_mth (leaves t) of
              Inl e \<Rightarrow> (t, Inl e)
            | Inr r \<Rightarrow> (t\<lparr>cached_root := Some r\<rparr>, Inr r))"

definition tlog_size :: "tlog \<Rightarrow> nat" where
  "tlog_size t = length (leaves t)"

definition signed_head :: "crypto_ops \<Rightarrow> tlog \<Rightarrow> tlog \<times> pydict res" where
  "signed_head C t =
     (let size = tlog_size t; (t1, r) = tlog_root t in
      (t1,
       ebind r (\<lambda>root.
       let head = [(key ''size'', PInt (int size)), (key ''root'', PStr (hex root))] in
       ebind (jcs_dumps (PDict head)) (\<lambda>msg.
       case tlog_sk t of
         None \<Rightarrow> Inr head
       | Some sk \<Rightarrow>
           ebind (utf8_decode msg) (\<lambda>text.
           Inr (head @ [(key ''signature'', PStr (hex (ed_sign C sk msg))),
                        (key ''signed_message'', PStr text)]))))))"

definition inclusion_proof :: "tlog \<Rightarrow> int \<Rightarrow> tlog \<times> pydict option res" where
  "inclusion_proof t index =
     (if index < 0 \<or> int (length (leaves t)) \<le> index then (t, Inr None)
      else case rfc6962_path (leaves t) (nat index) of
          Inl e \<Rightarrow> (t, Inl e)
        | Inr path \<Rightarrow>
            let (t1, r) = tlog_root t in
            (t1, ebind r (\<lambda>root.
               Inr (Some
                 [(key ''index'', PInt index),
                  (key ''leaf_hash'', PStr (hex (leaves t ! nat index))),
                  (key ''proof'', PList (map (\<lambda>h. PStr (hex h)) path)),
                  (key ''root'', PStr (hex root)),
                  (key ''tree_size'', PInt (int (length (leaves t))))]))))"

fun range_loop :: "pystr list \<Rightarrow> nat \<Rightarrow> nat \<Rightarrow> nat \<Rightarrow> (pydict list \<times> nat) res" where
  "range_loop [] expected_index start stop = Inr ([], expected_index)"
| "range_loop (line # ls) expected_index start stop =
     (if strip line = [] then range_loop ls expected_index start stop
      else if stop \<le> expected_index then Inr ([], expected_index)
      else ebind (parse_leaf_record line expected_index) (\<lambda>(rec, _).
           ebind (range_loop ls (expected_index + 1) start stop) (\<lambda>(recs, n).
           Inr (if start \<le> expected_index then rec # recs else recs, n))))"

definition range_records :: "tlog \<Rightarrow> int \<Rightarrow> int \<Rightarrow> pydict list res" where
  "range_records t start limit =
     (if start < 0 then Inl (ValueError ''start must be non-negative'')
      else if limit \<le> 0 then Inr []
      else if int (length (leaves t)) \<le> start then Inr []
      else
        let stop = nat (min (start + limit) (int (length (leaves t)))) in
        case leaves_file t of
          None \<Rightarrow> Inl (OSError ''No such file'')
        | Some c \<Rightarrow>
            ebind (range_loop (file_lines c) 0 (nat start) stop) (\<lambda>(records, n).
            ebind (guard (stop \<le> n) (ValueError ''leaf record missing'')) (\<lambda>_. Inr records)))"

section \<open>Records survive the file\<close>

lemma leaf_record_ok: "json_ok (PDict (leaf_record i h lb))"
  using utf8_decode_replace_scalar [of _ lb] json_ok_hex [of h] json_ok_hex [of lb]
  by (auto simp: leaf_record_def scalar_str_def list_all_iff)

lemma leaf_data_bytes_record [simp]: "leaf_data_bytes (leaf_record i h lb) = Inr lb"
  by (simp add: leaf_data_bytes_def leaf_record_def)

lemma parse_leaf_record_own:
  assumes "json_dumps (PDict (leaf_record i (tlog_h (0 # lb)) lb)) = Inr s"
  shows "parse_leaf_record (s @ [10]) i = Inr (leaf_record i (tlog_h (0 # lb)) lb, tlog_h (0 # lb))"
proof -
  let ?r = "leaf_record i (tlog_h (0 # lb)) lb"
  have "json_loads (s @ [10]) = Inr (PDict ?r)"
    using json_loads_line [OF leaf_record_ok assms] .
  moreover have "dgetn ?r ''index'' = PInt (int i)" "ditem ?r ''leaf_hash'' = Inr (PStr (hex (tlog_h (0 # lb))))"
    by (simp_all add: leaf_record_def)
  ultimately show ?thesis
    by (simp add: parse_leaf_record_def) (simp add: tlog_h_def)
qed

lemma load_lines_append:
  "load_lines (xs @ ys) i =
     ebind (load_lines xs i) (\<lambda>hs. ebind (load_lines ys (i + length hs)) (\<lambda>hs'. Inr (hs @ hs')))"
proof (induction xs arbitrary: i)
  case Nil
  show ?case by (cases "load_lines ys i") auto
next
  case (Cons l xs)
  show ?case
  proof (cases "parse_leaf_record l i")
    case (Inr x)
    then show ?thesis using Cons [of "Suc i"] Cons [of i]
      by (cases x) (auto simp: ebind_assoc)
  qed (use Cons [of i] in auto)
qed

text \<open>A file's content is \<open>whole\<close> if it is empty or ends with a line end.\<close>

definition whole :: "pystr \<Rightarrow> bool" where
  "whole c \<longleftrightarrow> c = [] \<or> last c = 10"

lemma whole_tl: "whole (c # s) \<Longrightarrow> s = [] \<or> whole s \<and> whole (tl s)"
  by (cases s; cases "tl s") (auto simp: whole_def)

lemma universal_newlines_append:
  "whole s \<Longrightarrow> universal_newlines (s @ t) = universal_newlines s @ universal_newlines t"
proof (induction s rule: universal_newlines.induct)
  case (2 c s)
  show ?case
  proof (cases "s = []")
    case True
    then show ?thesis using "2.prems" by (simp add: whole_def)
  next
    case False
    then have "whole s" "whole (tl s)" using whole_tl [OF "2.prems"] by auto
    then show ?thesis using False "2.IH" by auto
  qed
qed simp

lemma universal_newlines_ne: "s \<noteq> [] \<Longrightarrow> universal_newlines s \<noteq> []"
  by (cases s) auto

lemma universal_newlines_whole: "whole s \<Longrightarrow> whole (universal_newlines s)"
proof (induction s rule: universal_newlines.induct)
  case (2 c s)
  show ?case
  proof (cases "s = []")
    case True
    then have "c = 10" using "2.prems" by (simp add: whole_def)
    then show ?thesis using True by (simp add: whole_def)
  next
    case False
    then have "whole s" "whole (tl s)" using whole_tl [OF "2.prems"] by auto
    then show ?thesis using False "2.IH" universal_newlines_ne [OF False]
      by (cases "c = 13") (auto simp: whole_def)
  qed
qed simp

lemma file_lines_line:
  assumes "whole c" "\<And>x. x \<in> set s \<Longrightarrow> printable x"
  shows "file_lines (c @ s @ [10]) = file_lines c @ [s @ [10]]" "whole (c @ s @ [10])"
proof -
  have "13 \<notin> set (s @ [10])" "10 \<notin> set s"
    using assms(2) [of 13] assms(2) [of 10] by (auto simp: printable_def)
  then show "file_lines (c @ s @ [10]) = file_lines c @ [s @ [10]]"
    using assms(1) lines_of_line [of s "[]"] universal_newlines_whole [OF assms(1)]
    by (simp add: file_lines_def universal_newlines_append universal_newlines_id lines_of_append whole_def)
qed (simp add: whole_def)

section \<open>The invariant\<close>

definition tree_root :: "bytes list \<Rightarrow> bytes" where
  "tree_root hs = (if hs = [] then tlog_h [] else mroot tlog_h hs)"

text \<open>
  Memory and disk agree: the file is whole and loads to the leaves in memory, and the cached root,
  if there is one, is the root of those leaves.
\<close>

definition file_text :: "tlog \<Rightarrow> pystr" where
  "file_text t = (case leaves_file t of None \<Rightarrow> [] | Some c \<Rightarrow> c)"

definition tlog_inv :: "tlog \<Rightarrow> bool" where
  "tlog_inv t \<longleftrightarrow> whole (file_text t)
     \<and> load_lines (file_lines (file_text t)) 0 = Inr (leaves t)
     \<and> (cached_root t = None \<or> cached_root t = Some (tree_root (leaves t)))"

lemma file_lines_Nil [simp]: "file_lines [] = []"
  by (simp add: file_lines_def)

lemma tlog_load_text: "tlog_load (leaves_file t) = load_lines (file_lines (file_text t)) 0"
  by (simp add: tlog_load_def file_text_def split: option.split)

lemma tlog_inv_empty: "tlog_inv \<lparr>leaves_file = None, leaves = [], cached_root = None, tlog_sk = sk\<rparr>"
  by (simp add: tlog_inv_def file_text_def whole_def)

lemma tlog_init_inv: "tlog_init content k = Inr t \<Longrightarrow> whole (case content of None \<Rightarrow> [] | Some c \<Rightarrow> c) \<Longrightarrow> tlog_inv t"
  by (auto simp: tlog_init_def tlog_inv_def file_text_def tlog_load_def ebind_eq_Inr split: option.splits)

lemma strip_line: "s \<noteq> [] \<Longrightarrow> (\<exists>c t. s = c # t \<and> \<not> is_space c) \<Longrightarrow> strip (s @ x) \<noteq> []"
  by (auto simp: strip_eq_Nil)

text \<open>A successful append: the new state, spelled out.\<close>

lemma append_cases:
  assumes "leaf_bytes_of v = Inr lb"
  obtains s where "json_dumps (PDict (leaf_record (length (leaves t)) (tlog_h (0 # lb)) lb)) = Inr s"
    "tlog_append None v t = (t\<lparr>leaves := leaves t @ [tlog_h (0 # lb)], cached_root := None,
       leaves_file := Some (file_text t @ s @ [10])\<rparr>, Inr (length (leaves t)))"
    "\<And>k. tlog_append (Some k) v t = (t\<lparr>leaves := leaves t @ [tlog_h (0 # lb)], cached_root := None,
       leaves_file := Some (file_text t @ take k (s @ [10]))\<rparr>, Inl (OSError ''write''))"
proof -
  obtain s where s: "json_dumps (PDict (leaf_record (length (leaves t)) (tlog_h (0 # lb)) lb)) = Inr s"
    using json_dumps_ok [OF leaf_record_ok] by blast
  then show thesis using assms that by (simp add: tlog_append_def Let_def file_text_def)
qed

lemma append_ok_bytes: "tlog_append io v t = (t', Inr i) \<Longrightarrow> io = None \<and> (\<exists>lb. leaf_bytes_of v = Inr lb)"
  by (auto simp: tlog_append_def Let_def split: sum.splits option.splits)

definition leaf_hash_of :: "pyval \<Rightarrow> bytes" where
  "leaf_hash_of v = (case leaf_bytes_of v of Inr lb \<Rightarrow> tlog_h (0 # lb) | Inl _ \<Rightarrow> [])"

lemma append_inv:
  assumes "tlog_inv t" "tlog_append io v t = (t', Inr i)"
  shows "tlog_inv t' \<and> leaves t' = leaves t @ [leaf_hash_of v] \<and> i = length (leaves t)"
proof -
  obtain lb where lb: "leaf_bytes_of v = Inr lb" and io: "io = None"
    using append_ok_bytes [OF assms(2)] by blast
  obtain s where s: "json_dumps (PDict (leaf_record (length (leaves t)) (tlog_h (0 # lb)) lb)) = Inr s"
    and t': "t' = t\<lparr>leaves := leaves t @ [tlog_h (0 # lb)], cached_root := None,
       leaves_file := Some (file_text t @ s @ [10])\<rparr>" "i = length (leaves t)"
    using append_cases [OF lb, of t] assms(2) io by (metis Inr_inject Pair_inject)
  have ne: "strip (s @ [10]) \<noteq> []"
    using json_dumps_first [OF leaf_record_ok s] by (auto simp: strip_eq_Nil)
  have p: "\<And>x. x \<in> set s \<Longrightarrow> printable x" using json_dumps_printable [OF s] .
  have w: "whole (file_text t)" using assms(1) by (simp add: tlog_inv_def)
  have "load_lines [s @ [10]] (length (leaves t)) = Inr [tlog_h (0 # lb)]"
    using ne parse_leaf_record_own [OF s] by simp
  then have "load_lines (file_lines (file_text t @ s @ [10])) 0 = Inr (leaves t @ [tlog_h (0 # lb)])"
    using assms(1) file_lines_line(1) [OF w p] by (simp add: load_lines_append tlog_inv_def del: load_lines.simps)
  then show ?thesis
    using t' lb file_lines_line(2) [OF w p] by (simp add: tlog_inv_def file_text_def leaf_hash_of_def)
qed

lemma tlog_root_eq: "tlog_inv t \<Longrightarrow> snd (tlog_root t) = Inr (tree_root (leaves t))"
  by (auto simp: tlog_root_def tlog_inv_def tree_root_def rfc6962_mth_mroot split: option.split)

lemma tlog_root_frame:
  "leaves (fst (tlog_root t)) = leaves t \<and> leaves_file (fst (tlog_root t)) = leaves_file t
    \<and> tlog_sk (fst (tlog_root t)) = tlog_sk t"
  by (auto simp: tlog_root_def split: option.split sum.split)

lemma tlog_root_inv: "tlog_inv t \<Longrightarrow> tlog_inv (fst (tlog_root t))"
proof -
  assume t: "tlog_inv t"
  have "cached_root (fst (tlog_root t)) = Some (tree_root (leaves t))"
    using t by (auto simp: tlog_root_def tlog_inv_def tree_root_def rfc6962_mth_mroot split: option.split)
  then show ?thesis using t tlog_root_frame [of t] by (simp add: tlog_inv_def file_text_def)
qed

section \<open>The log as an append-only log\<close>

interpretation tl: append_log "\<lambda>v t. tlog_append None v t" leaves tlog_inv leaf_hash_of
  by unfold_locales (rule append_inv)

lemma append_bytes_total: "\<exists>t'. tlog_append None (PBytes x) t = (t', Inr (length (leaves t)))"
  using append_cases [of "PBytes x" x t] by (auto simp: leaf_bytes_of_def)

text \<open>The data of the records of a file, as its lines are read back.\<close>

fun stored_data :: "pystr list \<Rightarrow> nat \<Rightarrow> bytes list res" where
  "stored_data [] i = Inr []"
| "stored_data (line # ls) i =
     (if strip line = [] then stored_data ls i
      else ebind (parse_leaf_record line i) (\<lambda>(rec, _).
           ebind (leaf_data_bytes rec) (\<lambda>d.
           ebind (stored_data ls (i + 1)) (\<lambda>ds. Inr (d # ds)))))"

lemma parse_leaf_recordD:
  "parse_leaf_record line i = Inr (rec, h) \<Longrightarrow>
     dgetn rec ''index'' = PInt (int i) \<and> (\<exists>d. leaf_data_bytes rec = Inr d \<and> h = tlog_h (0 # d))"
  unfolding parse_leaf_record_def
  by (elim ebind_InrE) (auto split: pyval.split_asm elim!: ebind_InrE)

lemmas parse_leaf_hash = parse_leaf_recordD [THEN conjunct2]

lemma stored_data_hashes:
  "load_lines ls i = Inr hs \<Longrightarrow> \<exists>ds. stored_data ls i = Inr ds \<and> hs = map (\<lambda>d. tlog_h (0 # d)) ds"
proof (induction ls arbitrary: i hs)
  case (Cons l ls)
  show ?case
  proof (cases "strip l = []")
    case False
    then obtain rec h hs' where h: "parse_leaf_record l i = Inr (rec, h)" "load_lines ls (i + 1) = Inr hs'" "hs = h # hs'"
      using Cons.prems by (auto simp: ebind_eq_Inr)
    then obtain d ds where "leaf_data_bytes rec = Inr d" "h = tlog_h (0 # d)"
      "stored_data ls (i + 1) = Inr ds" "hs' = map (\<lambda>d. tlog_h (0 # d)) ds"
      using Cons.IH [OF h(2)] parse_leaf_hash [OF h(1)] by blast
    then show ?thesis using False h by simp
  qed (use Cons in simp)
qed simp

lemma inv_leaf_length: "tlog_inv t \<Longrightarrow> x \<in> set (leaves t) \<Longrightarrow> length x = 32"
  unfolding tlog_inv_def by (auto dest!: stored_data_hashes simp: tlog_h_def)

interpretation th: hash32 tlog_h
  by unfold_locales (simp add: tlog_h_def)

text \<open>The strings hashed for a log: its leaves and its inner nodes.\<close>

definition log_texts :: "bytes list \<Rightarrow> bytes set" where
  "log_texts ds = (\<lambda>d. 0 # d) ` set ds \<union> tree_texts tlog_h (map (\<lambda>d. tlog_h (0 # d)) ds)"

lemma same_root_same_data:
  assumes "length ds = length es"
    and "mroot tlog_h (map (\<lambda>d. tlog_h (0 # d)) ds) = mroot tlog_h (map (\<lambda>d. tlog_h (0 # d)) es)"
  shows "ds = es \<or> collision tlog_h (log_texts ds) (log_texts es)"
proof -
  let ?h = "map (\<lambda>d. tlog_h (0 # d))"
  have "?h ds = ?h es \<or> collision tlog_h (tree_texts tlog_h (?h ds)) (tree_texts tlog_h (?h es))"
    by (rule th.mroot_inject) (use assms in \<open>auto simp: tlog_h_def\<close>)
  then show ?thesis
  proof
    assume e: "?h ds = ?h es"
    show ?thesis
    proof (cases "ds = es")
      case False
      then obtain i where "i < length ds" "ds ! i \<noteq> es ! i"
        using assms(1) by (auto simp: list_eq_iff_nth_eq)
      moreover have "tlog_h (0 # ds ! i) = tlog_h (0 # es ! i)"
        using arg_cong [OF e, of "\<lambda>xs. xs ! i"] \<open>i < length ds\<close> assms(1) by simp
      ultimately show ?thesis
        using assms(1) unfolding collision_def log_texts_def
        by (intro disjI2 bexI [of _ "0 # ds ! i"] bexI [of _ "0 # es ! i"]) auto
    qed simp
  qed (auto simp: log_texts_def intro: collision_mono)
qed

lemma range_loop_records:
  assumes "stored_data ls i = Inr ds" "i + length ds = n" "stop \<le> n"
  shows "\<exists>recs m. range_loop ls i start stop = Inr (recs, m) \<and> (i \<le> stop \<longrightarrow> m = stop)
    \<and> (stop \<le> i \<longrightarrow> m = i)
    \<and> list_all2 (\<lambda>rec j. dgetn rec ''index'' = PInt (int j) \<and> leaf_data_bytes rec = Inr (ds ! (j - i)))
        recs [max i start ..< stop]"
  using assms
proof (induction ls arbitrary: i ds)
  case Nil
  then show ?case by auto
next
  case (Cons l ls)
  show ?case
  proof (cases "strip l = []")
    case True
    then show ?thesis using Cons by simp
  next
    case False
    then obtain rec h d ds' where r: "parse_leaf_record l i = Inr (rec, h)" "leaf_data_bytes rec = Inr d"
      "stored_data ls (i + 1) = Inr ds'" "ds = d # ds'"
      using Cons.prems by (auto simp: ebind_eq_Inr)
    have idx: "dgetn rec ''index'' = PInt (int i)"
      using parse_leaf_recordD [OF r(1)] by simp
    show ?thesis
    proof (cases "stop \<le> i")
      case True
      then show ?thesis using False by auto
    next
      case F: False
      obtain recs m where IH: "range_loop ls (i + 1) start stop = Inr (recs, m)" "m = stop"
        "list_all2 (\<lambda>rec j. dgetn rec ''index'' = PInt (int j) \<and> leaf_data_bytes rec = Inr (ds' ! (j - (i + 1))))
           recs [max (i + 1) start ..< stop]"
        using Cons.IH [OF r(3)] Cons.prems(2,3) r(4) F by auto
      have "list_all2 (\<lambda>rec j. dgetn rec ''index'' = PInt (int j) \<and> leaf_data_bytes rec = Inr (ds ! (j - i)))
           recs [max (i + 1) start ..< stop]"
        using IH(3) by (auto simp: list_all2_conv_all_nth r(4) nth_Cons')
      moreover have "[max i start ..< stop] =
          (if start \<le> i then i # [max (i + 1) start ..< stop] else [max (i + 1) start ..< stop])"
        using F by (auto simp: upt_conv_Cons max_def simp del: upt_Suc)
      ultimately show ?thesis using IH(1,2) F False r idx by (auto simp del: upt_Suc)
    qed
  qed
qed

section \<open>Properties\<close>

definition empty_tlog :: tlog where
  "empty_tlog = \<lparr>leaves_file = None, leaves = [], cached_root = None, tlog_sk = Some (replicate 32 7)\<rparr>"

lemma empty_tlog_inv: "tlog_inv empty_tlog"
  unfolding empty_tlog_def by (rule tlog_inv_empty)

lemma one_leaf_tlog: "\<exists>t. tlog_append None (PBytes [7]) empty_tlog = (t, Inr 0) \<and> tlog_inv t \<and> tlog_size t = 1"
proof -
  obtain t where t: "tlog_append None (PBytes [7]) empty_tlog = (t, Inr 0)"
    using append_bytes_total [of "[7]" empty_tlog] by (auto simp: empty_tlog_def)
  from append_inv [OF empty_tlog_inv t] show ?thesis using t by (auto simp: tlog_size_def empty_tlog_def)
qed

text \<open>
  C15: an append that returns is durable: it returns the old size as the index, adds exactly the
  hash of its leaf behind the leaves before, and a log started from the file loads the same leaves
  and is consistent.
\<close>

theorem tlog_append_durable:
  assumes "tlog_inv t" "tlog_append io v t = (t', Inr i)"
  shows "i = tlog_size t \<and> leaves t' = leaves t @ [leaf_hash_of v]
    \<and> (\<exists>t''. tlog_init (leaves_file t') None = Inr t'' \<and> leaves t'' = leaves t' \<and> tlog_inv t'')"
proof -
  have t': "tlog_inv t'" "leaves t' = leaves t @ [leaf_hash_of v]" "i = length (leaves t)"
    using append_inv [OF assms] by simp_all
  then have "tlog_load (leaves_file t') = Inr (leaves t')"
    by (simp add: tlog_load_text tlog_inv_def)
  with t' show ?thesis by (simp add: tlog_init_def tlog_size_def tlog_inv_def file_text_def)
qed

theorem tlog_append_durable_witness:
  "\<exists>t'. tlog_append None (PBytes [7]) empty_tlog = (t', Inr 0)
     \<and> (\<exists>t''. tlog_init (leaves_file t') None = Inr t'' \<and> leaves t'' = leaves t' \<and> tlog_inv t'')"
  using one_leaf_tlog tlog_append_durable [OF empty_tlog_inv, of None "PBytes [7]" _ 0] by blast

lemma inclusion_complete:
  assumes "tlog_inv t" "0 \<le> i" "i < int (tlog_size t)"
  shows "\<exists>t' pr path root. inclusion_proof t i = (t', Inr (Some pr))
    \<and> ditem pr ''leaf_hash'' = Inr (PStr (hex (leaves t ! nat i)))
    \<and> ditem pr ''proof'' = Inr (PList (map (\<lambda>h. PStr (hex h)) path))
    \<and> ditem pr ''root'' = Inr (PStr (hex root)) \<and> snd (tlog_root t) = Inr root
    \<and> ditem pr ''tree_size'' = Inr (PInt (int (tlog_size t)))
    \<and> verify_inclusion_proof (leaves t ! nat i) i path (int (tlog_size t)) root = Inr True"
proof -
  have i: "nat i < length (leaves t)" using assms(2,3) by (simp add: tlog_size_def nat_less_iff)
  then have ne: "leaves t \<noteq> []" by auto
  have root: "tlog_root t = (fst (tlog_root t), Inr (mroot tlog_h (leaves t)))"
    using tlog_root_eq [OF assms(1)] ne by (metis prod.collapse tree_root_def)
  have "verify_inclusion_proof (leaves t ! nat i) i (mpath tlog_h (leaves t) (nat i)) (int (tlog_size t))
      (mroot tlog_h (leaves t)) = Inr True"
    using assms(2,3) mcheck_complete [OF i] by (simp add: verify_inclusion_mcheck tlog_size_def)
  moreover
  let ?path = "mpath tlog_h (leaves t) (nat i)" and ?root = "mroot tlog_h (leaves t)"
  let ?pr = "[(key ''index'', PInt i), (key ''leaf_hash'', PStr (hex (leaves t ! nat i))),
       (key ''proof'', PList (map (\<lambda>h. PStr (hex h)) ?path)),
       (key ''root'', PStr (hex ?root)), (key ''tree_size'', PInt (int (length (leaves t))))]"
  have "inclusion_proof t i = (fst (tlog_root t), Inr (Some ?pr))"
    using assms(2,3) ne
    by (subst inclusion_proof_def, subst root) (simp add: rfc6962_path_mpath tlog_size_def)
  moreover have "snd (tlog_root t) = Inr (mroot tlog_h (leaves t))" by (subst root) simp
  ultimately show ?thesis
    by (intro exI [of _ "fst (tlog_root t)"] exI [of _ ?pr] exI [of _ ?path] exI [of _ ?root] conjI)
       (simp_all add: tlog_size_def)
qed

text \<open>
  C14: completeness of inclusion proofs: for every index below the size the log returns a proof, and
  the verifier accepts it, for the leaf at that index, against the log's root and size.
\<close>

theorem tlog_inclusion_complete:
  assumes "tlog_inv t" "0 \<le> i" "i < int (tlog_size t)"
  shows "\<exists>t' pr path root. inclusion_proof t i = (t', Inr (Some pr))
    \<and> ditem pr ''leaf_hash'' = Inr (PStr (hex (leaves t ! nat i)))
    \<and> ditem pr ''proof'' = Inr (PList (map (\<lambda>h. PStr (hex h)) path))
    \<and> ditem pr ''root'' = Inr (PStr (hex root)) \<and> snd (tlog_root t) = Inr root
    \<and> ditem pr ''tree_size'' = Inr (PInt (int (tlog_size t)))
    \<and> verify_inclusion_proof (leaves t ! nat i) i path (int (tlog_size t)) root = Inr True"
  using assms by (rule inclusion_complete)

theorem tlog_inclusion_complete_witness:
  "\<exists>t t' pr path root. tlog_inv t \<and> tlog_size t = 1 \<and> inclusion_proof t 0 = (t', Inr (Some pr))
    \<and> ditem pr ''proof'' = Inr (PList (map (\<lambda>h. PStr (hex h)) path)) \<and> snd (tlog_root t) = Inr root
    \<and> verify_inclusion_proof (leaves t ! 0) 0 path 1 root = Inr True"
proof -
  obtain t where t: "tlog_inv t" "tlog_size t = 1" using one_leaf_tlog by blast
  then obtain t' pr path root where "inclusion_proof t 0 = (t', Inr (Some pr))"
      "ditem pr ''proof'' = Inr (PList (map (\<lambda>h. PStr (hex h)) path))" "snd (tlog_root t) = Inr root"
      "verify_inclusion_proof (leaves t ! 0) 0 path 1 root = Inr True"
    using tlog_inclusion_complete [OF t(1), of 0] by auto
  with t show ?thesis by blast
qed

text \<open>
  C13: soundness of the verifier: a digest of 32 bytes it accepts at an index, against an honest
  root and size, is the leaf at that index, or the check exhibits a collision of SHA-256 between a
  string hashed by the check and one hashed in the tree.
\<close>

theorem verify_inclusion_sound:
  assumes "tlog_inv t" "length h = 32"
    and "verify_inclusion_proof h i path (int (tlog_size t)) (tree_root (leaves t)) = Inr True"
  shows "h = leaves t ! nat i
    \<or> collision tlog_h (check_texts tlog_h h (nat i) path (tlog_size t)) (tree_texts tlog_h (leaves t))"
proof -
  have i: "nat i < length (leaves t)" "mcheck tlog_h h (nat i) path (length (leaves t)) = Some (tree_root (leaves t))"
    using assms(3) by (auto simp: verify_inclusion_mcheck tlog_size_def nat_less_iff)
  then have "tree_root (leaves t) = mroot tlog_h (leaves t)" by (auto simp: tree_root_def)
  then show ?thesis
    using th.mcheck_sound [OF assms(2) i(1)] i(2) inv_leaf_length [OF assms(1)] by (simp add: tlog_size_def)
qed

theorem verify_inclusion_sound_witness:
  "\<exists>t. tlog_inv t \<and> tlog_size t = 1
    \<and> verify_inclusion_proof (leaves t ! 0) 0 [] 1 (tree_root (leaves t)) = Inr True
    \<and> (leaves t ! 0 = leaves t ! nat 0
       \<or> collision tlog_h (check_texts tlog_h (leaves t ! 0) (nat 0) [] 1) (tree_texts tlog_h (leaves t)))"
proof -
  obtain t where t: "tlog_inv t" "tlog_size t = 1" using one_leaf_tlog by blast
  then obtain x where x: "leaves t = [x]" by (auto simp: tlog_size_def length_Suc_conv)
  then have "length x = 32" using inv_leaf_length [OF t(1)] by simp
  moreover have "verify_inclusion_proof x 0 [] 1 (tree_root (leaves t)) = Inr True"
    by (simp add: verify_inclusion_mcheck mcheck.simps [of _ x] tree_root_def x)
  ultimately show ?thesis using verify_inclusion_sound [OF t(1), of x 0 "[]"] t x by auto
qed

text \<open>
  C21: equal roots of equal size stand for equal data: two files that load to logs with the same
  size and root hold the same leaf data in the same order, or they exhibit a collision of SHA-256.
  So a removed, altered or reordered record shows in the root.
\<close>

theorem tlog_root_binds_data:
  assumes "tlog_init (Some c1) k1 = Inr t1" "tlog_init (Some c2) k2 = Inr t2"
    and "tlog_size t1 = tlog_size t2" "tree_root (leaves t1) = tree_root (leaves t2)"
  shows "\<exists>ds es. stored_data (file_lines c1) 0 = Inr ds \<and> stored_data (file_lines c2) 0 = Inr es
    \<and> (ds = es \<or> collision tlog_h (log_texts ds) (log_texts es))"
proof -
  obtain ds es where d: "stored_data (file_lines c1) 0 = Inr ds" "leaves t1 = map (\<lambda>d. tlog_h (0 # d)) ds"
    "stored_data (file_lines c2) 0 = Inr es" "leaves t2 = map (\<lambda>d. tlog_h (0 # d)) es"
    using assms(1,2) by (auto simp: tlog_init_def tlog_load_def ebind_eq_Inr dest!: stored_data_hashes)
  moreover have "ds = es \<or> collision tlog_h (log_texts ds) (log_texts es)"
  proof (cases "ds = []")
    case False
    then show ?thesis using assms(3,4) d by (intro same_root_same_data) (auto simp: tlog_size_def tree_root_def)
  qed (use assms(3) d in \<open>simp add: tlog_size_def\<close>)
  ultimately show ?thesis by blast
qed

theorem tlog_root_binds_data_witness:
  "\<exists>ds es. stored_data (file_lines [10]) 0 = Inr ds \<and> stored_data (file_lines [32, 10]) 0 = Inr es
    \<and> (ds = es \<or> collision tlog_h (log_texts ds) (log_texts es))"
  by (rule tlog_root_binds_data [of _ None
        "\<lparr>leaves_file = Some [10], leaves = [], cached_root = None, tlog_sk = None\<rparr>" _ None
        "\<lparr>leaves_file = Some [32, 10], leaves = [], cached_root = None, tlog_sk = None\<rparr>"])
     (auto simp: tlog_init_def tlog_load_def file_lines_def tlog_size_def strip_eq_Nil is_space_def)

lemma parse_leaf_record_other_index:
  assumes "json_dumps (PDict (leaf_record j h lb)) = Inr s" "i \<noteq> j"
  shows "parse_leaf_record (s @ [10]) i = Inl (ValueError ''leaf index mismatch'')"
proof -
  have "json_loads (s @ [10]) = Inr (PDict (leaf_record j h lb))"
    using json_loads_line [OF leaf_record_ok assms(1)] .
  moreover have "dgetn (leaf_record j h lb) ''index'' = PInt (int j)" by (simp add: leaf_record_def)
  ultimately show ?thesis using assms(2) by (simp add: parse_leaf_record_def)
qed

text \<open>
  An append whose write fails leaves the leaf in memory but not on disk: the index of the next
  append is one too high for the file, and the log no longer loads from its own file.
\<close>

theorem tlog_failed_append:
  assumes "tlog_inv t" "leaf_bytes_of v = Inr lb" "leaf_bytes_of w = Inr lb'"
    and "tlog_append (Some 0) v t = (t1, r1)" "tlog_append None w t1 = (t2, r2)"
  shows "r1 = Inl (OSError ''write'') \<and> tlog_size t1 = tlog_size t + 1 \<and> r2 = Inr (tlog_size t + 1)
    \<and> tlog_init (leaves_file t2) k = Inl (ValueError ''leaf index mismatch'')"
proof -
  have t1: "r1 = Inl (OSError ''write'')"
    "t1 = t\<lparr>leaves := leaves t @ [tlog_h (0 # lb)], cached_root := None, leaves_file := Some (file_text t)\<rparr>"
    by (rule append_cases [OF assms(2), of t], use assms(4) in simp)+
  then have f: "file_text t1 = file_text t" "leaves t1 = leaves t @ [tlog_h (0 # lb)]"
    by (simp_all add: file_text_def)
  obtain s where s: "json_dumps (PDict (leaf_record (Suc (length (leaves t))) (tlog_h (0 # lb')) lb')) = Inr s"
    and t2: "leaves_file t2 = Some (file_text t @ s @ [10])" "r2 = Inr (Suc (length (leaves t)))"
    by (rule append_cases [OF assms(3), of t1]) (use assms(5) f in auto)
  have ne: "strip (s @ [10]) \<noteq> []"
    using json_dumps_first [OF leaf_record_ok s] by (auto simp: strip_eq_Nil)
  have w: "whole (file_text t)" and l: "load_lines (file_lines (file_text t)) 0 = Inr (leaves t)"
    using assms(1) by (simp_all add: tlog_inv_def)
  have "file_lines (file_text t @ s @ [10]) = file_lines (file_text t) @ [s @ [10]]"
    using file_lines_line(1) [OF w] json_dumps_printable [OF s] by blast
  then have "tlog_load (leaves_file t2) = Inl (ValueError ''leaf index mismatch'')"
    using l ne parse_leaf_record_other_index [OF s, of "length (leaves t)"] t2(1)
    by (simp add: tlog_load_def load_lines_append)
  then show ?thesis using t1 t2(2) f by (simp add: tlog_init_def tlog_size_def)
qed

theorem tlog_failed_append_witness:
  "\<exists>t1 t2. tlog_append (Some 0) (PBytes [7]) empty_tlog = (t1, Inl (OSError ''write''))
     \<and> tlog_append None (PBytes [8]) t1 = (t2, Inr 1)
     \<and> tlog_init (leaves_file t2) None = Inl (ValueError ''leaf index mismatch'')"
proof -
  obtain t1 r1 where 1: "tlog_append (Some 0) (PBytes [7]) empty_tlog = (t1, r1)" by force
  obtain t2 r2 where 2: "tlog_append None (PBytes [8]) t1 = (t2, r2)" by force
  have "leaf_bytes_of (PBytes [7]) = Inr [7]" "leaf_bytes_of (PBytes [8]) = Inr [8]"
    "tlog_size empty_tlog = 0" by (simp_all add: leaf_bytes_of_def empty_tlog_def tlog_size_def)
  then show ?thesis using tlog_failed_append [OF empty_tlog_inv _ _ 1 2, of "[7]" "[8]" None] 1 2 by simp
qed

text \<open>
  \<open>range_records\<close> returns the records from \<open>start\<close> on, at most \<open>limit\<close> of them and up to the
  end of the log: the record at place \<open>j\<close> has index \<open>start + j\<close>, and its data hashes to the leaf
  there.
\<close>

theorem range_records_slice:
  assumes "tlog_inv t" "0 \<le> start" "0 < limit" "start < int (tlog_size t)"
  shows "\<exists>recs. range_records t start limit = Inr recs
    \<and> int (length recs) = min limit (int (tlog_size t) - start)
    \<and> (\<forall>j<length recs. dgetn (recs ! j) ''index'' = PInt (start + int j)
         \<and> (\<exists>d. leaf_data_bytes (recs ! j) = Inr d \<and> leaves t ! (nat start + j) = tlog_h (0 # d)))"
proof -
  define stop where "stop = nat (min (start + limit) (int (length (leaves t))))"
  obtain ds where ds: "stored_data (file_lines (file_text t)) 0 = Inr ds" "leaves t = map (\<lambda>d. tlog_h (0 # d)) ds"
    using assms(1) stored_data_hashes unfolding tlog_inv_def by blast
  have stop: "stop \<le> length ds" "nat start < stop" "int stop = min (start + limit) (int (tlog_size t))"
    using assms(2-4) ds(2) by (auto simp: stop_def tlog_size_def)
  obtain recs where r: "range_loop (file_lines (file_text t)) 0 (nat start) stop = Inr (recs, stop)"
    "list_all2 (\<lambda>rec j. dgetn rec ''index'' = PInt (int j) \<and> leaf_data_bytes rec = Inr (ds ! j))
       recs [nat start ..< stop]"
    using range_loop_records [OF ds(1) _ stop(1), of "nat start"] by auto
  have "leaves_file t = Some (file_text t)"
    using ds stop by (auto simp: file_text_def split: option.splits)
  then have "range_records t start limit = Inr recs"
    using assms(2-4) r(1) by (simp add: range_records_def tlog_size_def Let_def stop_def [symmetric])
  moreover have "length recs = stop - nat start" using list_all2_lengthD [OF r(2)] by simp
  ultimately show ?thesis using r(2) stop ds(2) assms(2)
    by (auto simp: list_all2_conv_all_nth tlog_size_def)
qed

theorem range_records_slice_witness:
  "\<exists>t recs. tlog_inv t \<and> range_records t 0 5 = Inr recs \<and> length recs = 1
     \<and> dgetn (recs ! 0) ''index'' = PInt 0"
proof -
  obtain t where t: "tlog_inv t" "tlog_size t = 1" using one_leaf_tlog by blast
  then obtain recs where r: "range_records t 0 5 = Inr recs" "length recs = 1"
    "\<forall>j<length recs. dgetn (recs ! j) ''index'' = PInt (0 + int j)"
    using range_records_slice [OF t(1), of 0 5] by auto
  then have "dgetn (recs ! 0) ''index'' = PInt 0" by simp
  with t r show ?thesis by blast
qed

text \<open>
  A signed head verifies: with a signing key, the head carries a text and a signature of its
  UTF-8 bytes that verifies under the log's public key, and the text is the JSON object of exactly
  the root (in hexadecimal) and the size.
\<close>

theorem signed_head_verifies:
  assumes "sig_correct C" "tlog_inv t" "tlog_sk t = Some sk" "length sk = 32"
  shows "\<exists>t' head sg msg text. signed_head C t = (t', Inr head) \<and> leaves t' = leaves t
    \<and> ditem head ''signature'' = Inr (PStr (hex sg)) \<and> ditem head ''signed_message'' = Inr (PStr text)
    \<and> utf8_decode msg = Inr text \<and> ed_verify C (ed_pub C sk) sg msg
    \<and> json_loads text = Inr (PDict [(key ''root'', PStr (hex (tree_root (leaves t)))),
                                   (key ''size'', PInt (int (tlog_size t)))])"
proof -
  let ?h = "[(key ''size'', PInt (int (tlog_size t))), (key ''root'', PStr (hex (tree_root (leaves t))))]"
  have ok: "json_ok (PDict ?h)" by simp
  obtain msg where msg: "jcs_dumps (PDict ?h) = Inr msg"
    "utf8_decode msg = Inr (json_write [44] [58] jcs_esc (canon (PDict ?h)))"
    using jcs_dumps_ok [OF ok] by blast
  have "loads_utf8 msg = Inr (canon (PDict ?h))" using loads_jcs [OF ok msg(1)] .
  then have loads: "json_loads (json_write [44] [58] jcs_esc (canon (PDict ?h))) = Inr (canon (PDict ?h))"
    using msg(2) by (simp add: loads_utf8_def)
  have canon: "canon (PDict ?h) = PDict [(key ''root'', PStr (hex (tree_root (leaves t)))),
                                   (key ''size'', PInt (int (tlog_size t)))]"
    by (simp add: item16_def key_def u_def key16_def is_scalar_def is_surrogate_def utf16_char_def be16_def)
  show ?thesis
    using msg loads canon assms tlog_root_eq [OF assms(2)] tlog_root_frame [of t]
    by (intro exI [of _ "fst (tlog_root t)"] exI [of _ "_ @ [_, _]"] exI [of _ "ed_sign C sk msg"] exI [of _ msg] exI conjI)
       (auto simp: signed_head_def Let_def sig_correct_def split: prod.splits)
qed

theorem signed_head_verifies_witness:
  "\<exists>t' head sg msg text. signed_head toy_ops empty_tlog = (t', Inr head)
     \<and> ditem head ''signature'' = Inr (PStr (hex sg)) \<and> ditem head ''signed_message'' = Inr (PStr text)
     \<and> utf8_decode msg = Inr text \<and> ed_verify toy_ops (replicate 32 7) sg msg"
  using signed_head_verifies [OF toy_ops_correct(1) empty_tlog_inv, of "replicate 32 7"]
  by (auto simp: empty_tlog_def toy_ops_def)

end
