(* ===== verification/Registry.thy ===== *)
theory Registry
  imports RegistryAuth RegistryDb Tlog
begin

text \<open>
  The write side of the attribution registry (\<open>src/registry/server.py\<close>): booting, \<open>/register\<close>
  with its checks, transaction, log entry and attestation, and the beacon endpoints that record
  events. A handler takes the state to the state and a result; HTTP errors are the exception
  \<open>HTTPException\<close>. \<open>world\<close> holds what the handlers use of packages and of the network: signatures,
  the PEM encoding of keys, the answer of the transparency service, Python's \<open>str()\<close> of floats
  and containers, the text of an exception, and SQLite's choice of a row where a statement leaves
  it open. \<open>moment\<close> is what one request reads of the clocks and the outcome of its disk write.
\<close>

record world =
  w_ops :: crypto_ops
  w_pem :: "bytes \<Rightarrow> pystr"
  w_pem_to_der :: "pystr \<Rightarrow> bytes res"
  w_http :: "pystr \<Rightarrow> bytes \<Rightarrow> http_reply"
  w_repr :: "pyval \<Rightarrow> pystr"
  w_err :: "exn \<Rightarrow> pystr"
  w_pick :: "nat \<Rightarrow> nat"

record moment =
  mo_mono :: rat
  mo_time :: int
  mo_stamp :: pystr
  mo_io :: "nat option"

record registry =
  rg_tables :: tables
  rg_log :: "tlog option"
  rg_identity :: "pydict option"
  rg_bucket :: bucket

section \<open>Python values of any type\<close>

text \<open>\<open>v.get(k, default)\<close>, \<open>str(v)\<close>, and a value as a dictionary key\<close>

definition py_get :: "pyval \<Rightarrow> string \<Rightarrow> pyval \<Rightarrow> pyval res" where
  "py_get v k d = (case v of PDict x \<Rightarrow> Inr (dgetd x k d) | _ \<Rightarrow> Inl (AttributeError ''get''))"

definition py_str :: "world \<Rightarrow> pyval \<Rightarrow> pystr" where
  "py_str W v =
     (case v of
        PNone \<Rightarrow> u ''None''
      | PBool x \<Rightarrow> (if x then u ''True'' else u ''False'')
      | PInt i \<Rightarrow> int_str i
      | PStr s \<Rightarrow> s
      | _ \<Rightarrow> w_repr W v)"

definition py_key :: "pyval \<Rightarrow> pykey res" where
  "py_key v =
     (case v of
        PStr s \<Rightarrow> Inr (KStr s)
      | PInt i \<Rightarrow> Inr (KInt i)
      | PBool x \<Rightarrow> Inr (KInt (if x then 1 else 0))
      | PNone \<Rightarrow> Inr KNone
      | _ \<Rightarrow> Inl (TypeError ''unhashable type''))"

definition or_else :: "pyval \<Rightarrow> pyval \<Rightarrow> pyval" where
  "or_else v d = (if truthy v then v else d)"

section \<open>Booting\<close>

text \<open>
  The identity file: read when it exists, else created from a fresh key. \<open>json.dump\<close> with
  \<open>indent=2\<close> puts each item of this flat object on a line of its own.
\<close>

definition dump_indent2 :: "pydict \<Rightarrow> pystr res" where
  "dump_indent2 d =
     ebind (mapM_res (\<lambda>kv. json_dumps (PDict [kv])) d) (\<lambda>items.
     Inr (u ''{'' @ join (u '','') (map (\<lambda>s. [10, 32, 32] @ butlast (tl s)) items) @ [10] @ u ''}''))"

definition load_or_create_identity ::
  "crypto_ops \<Rightarrow> bytes \<Rightarrow> int \<Rightarrow> pystr option \<Rightarrow> pystr option \<times> pyval res" where
  "load_or_create_identity C seed now file =
     (case file of
        Some text \<Rightarrow> (file, json_loads text)
      | None \<Rightarrow>
          let ident = [(key ''ed25519_priv'', PStr (hex seed)),
                       (key ''ed25519_pub'', PStr (hex (ed_pub C seed))),
                       (key ''created_at'', PInt now)]
          in case dump_indent2 ident of
               Inl e \<Rightarrow> (Some [], Inl e)
             | Inr text \<Rightarrow> (Some text, Inr (PDict ident)))"

text \<open>\<open>TransparencyLog(TLOG_DIR, signing_key_hex=IDENTITY["ed25519_priv"])\<close>\<close>

definition open_log :: "pystr option \<Rightarrow> pyval \<Rightarrow> tlog res" where
  "open_log content k =
     (case k of
        PStr s \<Rightarrow> tlog_init content (Some s)
      | v \<Rightarrow> if truthy v then Inl (TypeError ''fromhex() argument must be str'') else tlog_init content None)"

definition lifespan ::
  "crypto_ops \<Rightarrow> config \<Rightarrow> bytes \<Rightarrow> int \<Rightarrow> tables option \<Rightarrow> pystr option \<Rightarrow> pystr option \<Rightarrow> registry res" where
  "lifespan C cfg seed now db_file id_file log_file =
     ebind (enforce_auth_config cfg) (\<lambda>_.
     ebind (snd (load_or_create_identity C seed now id_file)) (\<lambda>ident.
     ebind (py_item ident ''ed25519_priv'') (\<lambda>k.
     ebind (open_log log_file k) (\<lambda>t.
       Inr \<lparr>rg_tables = init_db db_file, rg_log = Some t,
            rg_identity = (case ident of PDict d \<Rightarrow> Some d | _ \<Rightarrow> None), rg_bucket = BUCKET\<rparr>))))"

section \<open>The log and the attestation\<close>

definition append_tlog :: "nat option \<Rightarrow> pydict \<Rightarrow> tlog option \<Rightarrow> tlog option \<times> int res" where
  "append_tlog io event l =
     (case l of
        None \<Rightarrow> (None, Inr (- 1))
      | Some t \<Rightarrow> (case tlog_append io (PDict event) t of (t', r) \<Rightarrow> (Some t', map_sum id int r)))"

definition watermark_fields :: "pyval list \<Rightarrow> pydict res" where
  "watermark_fields ws =
     ebind (mapM_res (\<lambda>(i, w).
        ebind (py_get w ''mark_id'' PNone) (\<lambda>m.
        if truthy m then
          ebind (py_get w ''layer'' (PStr (u ''layer_'' @ nat_digits i))) (\<lambda>l.
          ebind (py_key l) (\<lambda>k. Inr [(k, m)]))
        else Inr []))
       (enumerate 0 ws)) (\<lambda>items. Inr (dict_of (concat items)))"

definition registration_predicate ::
  "pystr \<Rightarrow> pyval \<Rightarrow> pyval \<Rightarrow> pyval \<Rightarrow> pyval \<Rightarrow> pyval \<Rightarrow> pyval list \<Rightarrow> predicate res" where
  "registration_predicate stamp file_id issuer_pub recipient_id recipient_pubkey suite ws =
     ebind (if truthy recipient_pubkey then hash_recipient_pubkey recipient_pubkey
            else Inr (replicate 64 48)) (\<lambda>recipient_hash.
     ebind (watermark_fields ws) (\<lambda>marks.
       Inr \<lparr>p_file_id = file_id, p_issuer_pubkey_ed25519 = issuer_pub, p_recipient_id = recipient_id,
            p_recipient_pubkey_sha256 = PStr recipient_hash, p_suite = suite,
            p_registered_at = PStr stamp, p_rfc3161_tsa = PNone, p_rfc3161_token_b64 = PNone,
            p_rfc3161_chain_b64 = PNone, p_policy = PDict [], p_watermarks = PDict marks\<rparr>))"

definition attest_to_rekor ::
  "world \<Rightarrow> config \<Rightarrow> pydict option \<Rightarrow> pystr \<Rightarrow> pyval \<Rightarrow> pyval \<Rightarrow> pyval \<Rightarrow> pyval \<Rightarrow> pyval \<Rightarrow> pyval
   \<Rightarrow> pyval list \<Rightarrow> pyval \<Rightarrow> pyval" where
  "attest_to_rekor W cfg ident stamp file_id issuer_pub recipient_id recipient_pubkey suite chash ws mark_id =
     (case ident of
        None \<Rightarrow> PNone
      | Some identity \<Rightarrow>
          if \<not> cf_rekor_enabled cfg then PNone
          else case
            ebind (registration_predicate stamp file_id issuer_pub recipient_id recipient_pubkey suite ws) (\<lambda>p.
            ebind (ditem identity ''ed25519_priv'') (\<lambda>sk_hex.
            ebind (py_fromhex sk_hex) (\<lambda>sk.
            ebind (sign_dsse (w_ops W) (build_statement (py_str W mark_id) chash p) sk []) (\<lambda>envelope.
            ebind (ditem identity ''ed25519_pub'') (\<lambda>pk_hex.
            ebind (py_fromhex pk_hex) (\<lambda>pk.
            ebind (guard (length pk = 32) (ValueError ''An Ed25519 public key is 32 bytes long'')) (\<lambda>_.
              upload_dsse (w_pem_to_der W) (w_http W) envelope (w_pem W pk) (cf_rekor_url cfg))))))))
          of
            Inl e \<Rightarrow> PDict [(key ''error'', PStr (w_err W e)), (key ''tlog_kind'', PStr TLOG_KIND)]
          | Inr result \<Rightarrow>
              PDict [(key ''log_url'', PStr (log_url result)), (key ''log_index'', opt_int (log_index result)),
                     (key ''log_id'', opt_str (log_id result)),
                     (key ''integrated_time'', opt_int (integrated_time result)),
                     (key ''tlog_kind'', PStr TLOG_KIND), (key ''bundle_schema'', PInt BUNDLE_SCHEMA)])"

section \<open>Checks of a registration\<close>

record registration =
  rq_manifest :: pydict
  rq_beacons :: "pydict list"
  rq_watermarks :: "pydict list"
  rq_corpus :: "pydict option"

definition verify_manifest_signature :: "crypto_ops \<Rightarrow> pydict \<Rightarrow> (bool \<times> pyval) res" where
  "verify_manifest_signature C m =
     (case ebind (jcs_dumps (PDict m)) from_json of
        Inl _ \<Rightarrow> Inr (False, PStr [])
      | Inr mf \<Rightarrow> ebind (verify C mf) (\<lambda>ok. Inr (ok, m_issuer_ed25519_pub mf)))"

definition canonical_items :: "pyval list \<Rightarrow> pystr list res" where
  "canonical_items items =
     ebind (mapM_res (\<lambda>i. ebind (jcs_dumps i) utf8_decode) items) (\<lambda>ss. Inr (sort ss))"

definition signed_registration_artifacts ::
  "pydict \<Rightarrow> pydict list \<Rightarrow> pydict list \<Rightarrow> (pyval list \<times> pyval list) res" where
  "signed_registration_artifacts m req_beacons req_watermarks =
     ebind (canonical_items (map PDict req_beacons)) (\<lambda>rb.
     ebind (py_iter (or_else (dgetn m ''beacons'') (PList []))) (\<lambda>signed_beacons.
     ebind (canonical_items signed_beacons) (\<lambda>sb.
     if rb \<noteq> sb then Inl (HTTPException 400 ''request beacons do not match signed manifest'')
     else
       ebind (canonical_items (map PDict req_watermarks)) (\<lambda>rw.
       ebind (py_iter (or_else (dgetn m ''watermarks'') (PList []))) (\<lambda>signed_watermarks.
       ebind (canonical_items signed_watermarks) (\<lambda>sw.
       if rw \<noteq> sw then Inl (HTTPException 400 ''request watermarks do not match signed manifest'')
       else Inr (signed_beacons, signed_watermarks)))))))"

text \<open>What \<open>/register\<close> knows of a request once it passed the checks.\<close>

record checked =
  ck_file :: pyval
  ck_recipient :: pyval
  ck_recipient_id :: pyval
  ck_issuer_id :: pyval
  ck_pub :: pyval
  ck_beacons :: "pyval list"
  ck_watermarks :: "pyval list"

definition check_registration :: "crypto_ops \<Rightarrow> registration \<Rightarrow> checked res" where
  "check_registration C req =
     (let m = rq_manifest req;
          file_id = dgetn m ''file_id'';
          recipient = or_else (dgetn m ''recipient'') (PDict []) in
      ebind (py_get recipient ''recipient_id'' (str_val ''unknown'')) (\<lambda>recipient_id.
      let issuer_id = dgetd m ''issuer_id'' (str_val ''unknown'') in
      if \<not> truthy file_id then Inl (HTTPException 400 ''manifest missing file_id'')
      else ebind (verify_manifest_signature C m) (\<lambda>(sig_ok, issuer_pub).
        if \<not> sig_ok then Inl (HTTPException 400 ''manifest signature invalid'')
        else if \<not> truthy issuer_pub then Inl (HTTPException 400 ''manifest missing issuer_ed25519_pub'')
        else ebind (signed_registration_artifacts m (rq_beacons req) (rq_watermarks req)) (\<lambda>(sb, sw).
          Inr \<lparr>ck_file = file_id, ck_recipient = recipient, ck_recipient_id = recipient_id,
               ck_issuer_id = issuer_id, ck_pub = issuer_pub, ck_beacons = sb, ck_watermarks = sw\<rparr>))))"

section \<open>The transaction of a registration\<close>

definition insert_manifest :: "checked \<Rightarrow> pydict \<Rightarrow> int \<Rightarrow> tables \<Rightarrow> tables res" where
  "insert_manifest c m now t =
     ebind (sql_text (ck_file c)) (\<lambda>f.
     ebind (ebind (sql_text (ck_recipient_id c)) not_null) (\<lambda>r.
     ebind (ebind (sql_text (ck_issuer_id c)) not_null) (\<lambda>i.
     ebind (ebind (sql_text (ck_pub c)) not_null) (\<lambda>p.
     ebind (json_dumps (PDict m)) (\<lambda>j.
       Inr (t\<lparr>t_manifests := replace_row mf_file
              \<lparr>mf_file = f, mf_recipient = r, mf_issuer = i, mf_pub = p, mf_json = j, mf_at = now\<rparr>
              (t_manifests t)\<rparr>))))))"

definition insert_beacon :: "checked \<Rightarrow> int \<Rightarrow> pyval \<Rightarrow> tables \<Rightarrow> tables res" where
  "insert_beacon c now b t =
     ebind (ebind (py_item b ''token_id'') sql_text) (\<lambda>k.
     ebind (ebind (sql_text (ck_file c)) not_null) (\<lambda>f.
     ebind (ebind (sql_text (ck_recipient_id c)) not_null) (\<lambda>r.
     ebind (ebind (sql_text (ck_issuer_id c)) not_null) (\<lambda>i.
     ebind (ebind (ebind (py_item b ''kind'') sql_text) not_null) (\<lambda>n.
       Inr (t\<lparr>t_beacons := replace_row bc_token
              \<lparr>bc_token = k, bc_file = f, bc_recipient = r, bc_issuer = i, bc_kind = n, bc_at = now\<rparr>
              (t_beacons t)\<rparr>))))))"

definition insert_watermark :: "checked \<Rightarrow> int \<Rightarrow> pyval \<Rightarrow> tables \<Rightarrow> tables res" where
  "insert_watermark c now w t =
     ebind (ebind (ebind (py_item w ''mark_id'') sql_text) not_null) (\<lambda>m.
     ebind (ebind (ebind (py_item w ''layer'') sql_text) not_null) (\<lambda>l.
     ebind (ebind (sql_text (ck_file c)) not_null) (\<lambda>f.
     ebind (ebind (sql_text (ck_recipient_id c)) not_null) (\<lambda>r.
     ebind (ebind (sql_text (ck_issuer_id c)) not_null) (\<lambda>i.
       Inr (t\<lparr>t_watermarks := replace_row wm_key
              \<lparr>wm_mark = m, wm_layer = l, wm_file = f, wm_recipient = r, wm_issuer = i, wm_at = now\<rparr>
              (t_watermarks t)\<rparr>))))))"

definition key_val :: "pykey \<Rightarrow> pyval" where
  "key_val k = (case k of KStr s \<Rightarrow> PStr s | KInt i \<Rightarrow> PInt i | KNone \<Rightarrow> PNone)"

definition insert_corpus :: "world \<Rightarrow> checked \<Rightarrow> int \<Rightarrow> pykey \<times> pyval \<Rightarrow> tables \<Rightarrow> tables res" where
  "insert_corpus W c now = (\<lambda>(hash_kind, hash_value) t.
     if \<not> truthy hash_value then Inr t
     else
       ebind (ebind (sql_text (ck_file c)) not_null) (\<lambda>f.
       ebind (ebind (sql_text (key_val hash_kind)) not_null) (\<lambda>k.
       ebind (ebind (sql_text (PStr (py_str W hash_value))) not_null) (\<lambda>v.
         Inr (t\<lparr>t_corpus := replace_row cp_key
                \<lparr>cp_file = f, cp_kind = k, cp_value = v, cp_metadata = None, cp_at = now\<rparr>
                (t_corpus t)\<rparr>)))))"

text \<open>
  The transaction of \<open>/register\<close> in its two parts: the \<open>SELECT\<close>, which takes no lock, and the \<open>INSERT\<close>
  statements, which commit together. Theory \<open>RegistryRace\<close> lets other handlers run in between.
\<close>

definition pin_check :: "checked \<Rightarrow> tables \<Rightarrow> unit res" where
  "pin_check c t =
     ebind (sql_text (ck_file c)) (\<lambda>f.
     let existing = select_where mf_file f (t_manifests t) in
     if (case existing of None \<Rightarrow> False | Some row \<Rightarrow> PStr (mf_pub row) \<noteq> ck_pub c)
     then Inl (HTTPException 409 ''file_id already registered under a different issuer pubkey'')
     else Inr ())"

definition store_rows :: "world \<Rightarrow> registration \<Rightarrow> checked \<Rightarrow> int \<Rightarrow> tables \<Rightarrow> tables res" where
  "store_rows W req c now t =
     ebind (insert_manifest c (rq_manifest req) now t) (\<lambda>t.
     ebind (foldM_res (insert_beacon c now) (ck_beacons c) t) (\<lambda>t.
     ebind (foldM_res (insert_watermark c now) (ck_watermarks c) t) (\<lambda>t.
       case rq_corpus req of
         None \<Rightarrow> Inr t
       | Some corpus \<Rightarrow> foldM_res (insert_corpus W c now) corpus t)))"

definition store_registration :: "world \<Rightarrow> registration \<Rightarrow> checked \<Rightarrow> int \<Rightarrow> tables \<Rightarrow> tables res" where
  "store_registration W req c now t = ebind (pin_check c t) (\<lambda>_. store_rows W req c now t)"

section \<open>\<open>/register\<close>\<close>

definition register_event :: "checked \<Rightarrow> pystr \<Rightarrow> pydict" where
  "register_event c stamp =
     [(key ''event'', str_val ''register''), (key ''file_id'', ck_file c),
      (key ''recipient_id'', ck_recipient_id c), (key ''issuer_id'', ck_issuer_id c),
      (key ''issuer_pub'', ck_pub c), (key ''n_beacons'', PInt (int (length (ck_beacons c)))),
      (key ''n_watermarks'', PInt (int (length (ck_watermarks c)))), (key ''timestamp'', PStr stamp)]"

text \<open>\<open>next((w["mark_id"] for w in signed_watermarks if w.get("mark_id")), file_id)\<close>\<close>

fun first_mark :: "pyval list \<Rightarrow> pyval \<Rightarrow> pyval res" where
  "first_mark [] d = Inr d"
| "first_mark (w # ws) d =
     ebind (py_get w ''mark_id'' PNone) (\<lambda>m. if truthy m then Inr m else first_mark ws d)"

definition register_reply :: "world \<Rightarrow> config \<Rightarrow> moment \<Rightarrow> pydict option \<Rightarrow> registration \<Rightarrow> checked \<Rightarrow> int \<Rightarrow> pydict res" where
  "register_reply W cfg mo ident req c idx =
     ebind (py_get (ck_recipient c) ''x25519_pub'' PNone) (\<lambda>x_pub.
     ebind (first_mark (ck_watermarks c) (ck_file c)) (\<lambda>mark.
       let m = rq_manifest req;
           rekor_result = attest_to_rekor W cfg ident (mo_stamp mo) (ck_file c) (ck_pub c)
             (ck_recipient_id c) x_pub (dgetd m ''suite'' (str_val ''classic''))
             (dgetd m ''content_hash'' (PStr (replicate 64 48))) (ck_watermarks c) mark
       in Inr [(key ''ok'', PBool True), (key ''file_id'', ck_file c),
               (key ''registered_beacons'', PInt (int (length (ck_beacons c)))),
               (key ''tlog_index'', PInt idx), (key ''rekor'', rekor_result)]))"

definition register :: "world \<Rightarrow> config \<Rightarrow> moment \<Rightarrow> registration \<Rightarrow> request \<Rightarrow> registry \<Rightarrow> registry \<times> pydict res" where
  "register W cfg mo req r st =
     (case require_operator_auth cfg r of
        Inl e \<Rightarrow> (st, Inl e)
      | Inr _ \<Rightarrow>
          let (b, lim) = rate_limit (cf_trusted_proxy cfg) (mo_mono mo) r (rg_bucket st);
              st1 = st\<lparr>rg_bucket := b\<rparr>
          in case ebind lim (\<lambda>_. check_registration (w_ops W) req) of
               Inl e \<Rightarrow> (st1, Inl e)
             | Inr c \<Rightarrow>
                 (case store_registration W req c (mo_time mo) (rg_tables st1) of
                    Inl e \<Rightarrow> (st1, Inl e)
                  | Inr t \<Rightarrow>
                      (case append_tlog (mo_io mo) (register_event c (mo_stamp mo)) (rg_log st1) of
                         (l, idx) \<Rightarrow>
                           (st1\<lparr>rg_tables := t, rg_log := l\<rparr>,
                            ebind idx (register_reply W cfg mo (rg_identity st1) req c)))))"

section \<open>Beacon events\<close>

definition insert_event :: "(nat \<Rightarrow> event_row) \<Rightarrow> tables \<Rightarrow> tables" where
  "insert_event row t = t\<lparr>t_events := t_events t @ [row (Suc (length (t_events t)))]\<rparr>"

definition beacon_owner :: "pystr \<Rightarrow> tables \<Rightarrow> beacon_row option res" where
  "beacon_owner token t =
     ebind (sql_text (PStr token)) (\<lambda>k. Inr (select_where bc_token k (t_beacons t)))"

definition beacon_log_event ::
  "pystr \<Rightarrow> pystr \<Rightarrow> pystr option \<Rightarrow> pystr option \<Rightarrow> pystr option \<Rightarrow> pystr \<Rightarrow> pystr \<Rightarrow> pydict" where
  "beacon_log_event kind token file_id recipient_id client_ip ua qts =
     [(key ''event'', str_val ''beacon''), (key ''kind'', PStr kind),
      (key ''token_id'', PStr token), (key ''file_id'', opt_val file_id),
      (key ''recipient_id'', opt_val recipient_id), (key ''source_ip'', opt_val client_ip),
      (key ''user_agent'', PStr ua), (key ''timestamp'', PStr qts)]"

definition record_event :: "moment \<Rightarrow> request \<Rightarrow> pystr \<Rightarrow> string \<Rightarrow> registry \<Rightarrow> registry \<times> int res" where
  "record_event mo r token kind st =
     (case beacon_owner token (rg_tables st) of
        Inl e \<Rightarrow> (st, Inl e)
      | Inr row \<Rightarrow>
          let file_id = map_option bc_file row;
              recipient_id = map_option bc_recipient row;
              issuer_id = map_option bc_issuer row;
              ua = header r ''user-agent'';
              event = beacon_log_event (u kind) token file_id recipient_id (client_host r) ua (mo_stamp mo)
          in case append_tlog (mo_io mo) event (rg_log st) of
               (l, Inl e) \<Rightarrow> (st\<lparr>rg_log := l\<rparr>, Inl e)
             | (l, Inr idx) \<Rightarrow>
                 (st\<lparr>rg_log := l,
                     rg_tables := insert_event (\<lambda>n.
                       \<lparr>ev_id = n, ev_token = token, ev_file = file_id, ev_recipient = recipient_id,
                        ev_issuer = issuer_id, ev_kind = u kind, ev_ip = client_host r, ev_agent = Some ua,
                        ev_extra = Some (u ''{}''), ev_at = mo_time mo, ev_stamp = Some (mo_stamp mo),
                        ev_index = Some idx\<rparr>) (rg_tables st)\<rparr>,
                  Inr idx))"

text \<open>A beacon endpoint: the limit, then the event, then a fixed answer.\<close>

definition beacon_hit :: "config \<Rightarrow> moment \<Rightarrow> string \<Rightarrow> 'a \<Rightarrow> pystr \<Rightarrow> request \<Rightarrow> registry \<Rightarrow> registry \<times> 'a res" where
  "beacon_hit cfg mo kind reply token r st =
     (let (b, lim) = rate_limit (cf_trusted_proxy cfg) (mo_mono mo) r (rg_bucket st);
          st1 = st\<lparr>rg_bucket := b\<rparr>
      in case lim of
           Inl e \<Rightarrow> (st1, Inl e)
         | Inr _ \<Rightarrow> (case record_event mo r token kind st1 of (st2, x) \<Rightarrow> (st2, map_sum id (\<lambda>_. reply) x)))"

definition ONE_PX_PNG :: bytes where
  "ONE_PX_PNG = projr (fromhex (u
     (''89504e470d0a1a0a0000000d49484452000000010000000108060000001f15c489''
      @ ''0000000d49444154789c626000000000050001a5f645400000000049454e44ae426082'')))"

definition beacon_png :: "config \<Rightarrow> moment \<Rightarrow> pystr \<Rightarrow> request \<Rightarrow> registry \<Rightarrow> registry \<times> bytes res" where
  "beacon_png cfg mo = beacon_hit cfg mo ''http_img'' ONE_PX_PNG"

definition beacon_ocsp :: "config \<Rightarrow> moment \<Rightarrow> pystr \<Rightarrow> request \<Rightarrow> registry \<Rightarrow> registry \<times> bytes res" where
  "beacon_ocsp cfg mo = beacon_hit cfg mo ''ocsp'' []"

definition beacon_license :: "config \<Rightarrow> moment \<Rightarrow> pystr \<Rightarrow> request \<Rightarrow> registry \<Rightarrow> registry \<times> pydict res" where
  "beacon_license cfg mo = beacon_hit cfg mo ''license'' [(key ''valid'', PBool True)]"

section \<open>\<open>/dns_event\<close>\<close>

record dns_body =
  dn_token :: pystr
  dn_client_ip :: "pystr option"
  dn_qtype :: "pystr option"
  dn_qname :: "pystr option"

definition dns_log_event :: "dns_body \<Rightarrow> pystr option \<Rightarrow> pystr option \<Rightarrow> pystr \<Rightarrow> pydict" where
  "dns_log_event evt file_id recipient_id qts =
     [(key ''event'', str_val ''beacon''), (key ''kind'', str_val ''dns''),
      (key ''token_id'', PStr (dn_token evt)), (key ''file_id'', opt_val file_id),
      (key ''recipient_id'', opt_val recipient_id),
      (key ''source_ip'', opt_val (dn_client_ip evt)), (key ''qname'', opt_val (dn_qname evt)),
      (key ''qtype'', opt_val (dn_qtype evt)), (key ''timestamp'', PStr qts)]"

definition dns_extra :: "dns_body \<Rightarrow> pystr res" where
  "dns_extra evt =
     json_dumps (PDict [(key ''qtype'', opt_val (dn_qtype evt)), (key ''qname'', opt_val (dn_qname evt))])"

definition store_dns_event :: "moment \<Rightarrow> dns_body \<Rightarrow> registry \<Rightarrow> registry \<times> int res" where
  "store_dns_event mo evt st =
     (case beacon_owner (dn_token evt) (rg_tables st) of
        Inl e \<Rightarrow> (st, Inl e)
      | Inr row \<Rightarrow>
          let file_id = map_option bc_file row;
              recipient_id = map_option bc_recipient row;
              issuer_id = map_option bc_issuer row;
              event = dns_log_event evt file_id recipient_id (mo_stamp mo)
          in case append_tlog (mo_io mo) event (rg_log st) of
               (l, Inl e) \<Rightarrow> (st\<lparr>rg_log := l\<rparr>, Inl e)
             | (l, Inr idx) \<Rightarrow>
                 (case ebind (dns_extra evt) (\<lambda>x.
                       ebind (sql_text (opt_val (dn_client_ip evt))) (\<lambda>ip. Inr (x, ip))) of
                    Inl e \<Rightarrow> (st\<lparr>rg_log := l\<rparr>, Inl e)
                  | Inr (x, ip) \<Rightarrow>
                      (st\<lparr>rg_log := l,
                          rg_tables := insert_event (\<lambda>n.
                            \<lparr>ev_id = n, ev_token = dn_token evt, ev_file = file_id,
                             ev_recipient = recipient_id, ev_issuer = issuer_id, ev_kind = u ''dns'',
                             ev_ip = ip, ev_agent = Some [], ev_extra = Some x, ev_at = mo_time mo,
                             ev_stamp = Some (mo_stamp mo), ev_index = Some idx\<rparr>) (rg_tables st)\<rparr>,
                       Inr idx)))"

definition dns_event :: "config \<Rightarrow> moment \<Rightarrow> dns_body \<Rightarrow> request \<Rightarrow> registry \<Rightarrow> registry \<times> pydict res" where
  "dns_event cfg mo evt r st =
     (let (b, lim) = rate_limit (cf_trusted_proxy cfg) (mo_mono mo) r (rg_bucket st);
          st1 = st\<lparr>rg_bucket := b\<rparr>
      in case ebind lim (\<lambda>_. verify_dns_event_auth cfg r) of
           Inl e \<Rightarrow> (st1, Inl e)
         | Inr _ \<Rightarrow>
             (case store_dns_event mo evt st1 of
                (st2, x) \<Rightarrow>
                  (st2, map_sum id (\<lambda>idx. [(key ''ok'', PBool True), (key ''tlog_index'', PInt idx)]) x)))"

end
