(* ===== verification/RegistryQuery.thy ===== *)
theory RegistryQuery
  imports Registry
begin

text \<open>
  The read side of the registry (\<open>src/registry/server.py\<close>): \<open>/attribute\<close>, the signed evidence
  bundle, the endpoints of the transparency log, the candidate list and the health endpoints.
  Rows of a statement without \<open>ORDER BY\<close> come in row-id order, equal sort keys keep it, and where
  a single row is asked for, \<open>w_pick\<close> says which of the candidates SQLite returns.
\<close>

definition pick_row :: "world \<Rightarrow> 'a list \<Rightarrow> 'a option" where
  "pick_row W rows = (if rows = [] then None else Some (rows ! (w_pick W (length rows) mod length rows)))"

lemma pick_row_mem: "pick_row W rows = Some r \<Longrightarrow> r \<in> set rows"
  by (auto simp: pick_row_def split: if_splits)

section \<open>\<open>/attribute\<close>\<close>

record attribution_query =
  aq_token :: "pystr option"
  aq_mark :: "pystr option"
  aq_layer :: "pystr option"
  aq_perceptual :: "pystr option"

text \<open>A parameter of a query that is given and not empty\<close>

definition given :: "pystr option \<Rightarrow> pystr option" where
  "given x = (case x of Some s \<Rightarrow> if s = [] then None else Some s | None \<Rightarrow> None)"

type_synonym owner = "pystr \<times> pystr option \<times> pystr option"

definition beacon_of :: "beacon_row \<Rightarrow> owner" where
  "beacon_of r = (bc_file r, Some (bc_recipient r), Some (bc_issuer r))"

definition watermark_of_row :: "watermark_row \<Rightarrow> owner" where
  "watermark_of_row w = (wm_file w, Some (wm_recipient w), Some (wm_issuer w))"

text \<open>\<open>corpus LEFT JOIN beacons\<close> for a perceptual hash\<close>

definition perceptual_rows :: "pystr \<Rightarrow> tables \<Rightarrow> owner list" where
  "perceptual_rows h t =
     concat (map (\<lambda>c.
        let bs = filter (\<lambda>b. bc_file b = cp_file c) (t_beacons t) in
        if bs = [] then [(cp_file c, None, None)] else map beacon_of bs)
       (filter (\<lambda>c. cp_kind c = u ''perceptual'' \<and> cp_value c = h) (t_corpus t)))"

definition bound :: "pystr \<Rightarrow> pystr res" where
  "bound s = ebind (sql_text (PStr s)) not_null"

definition find_owner :: "world \<Rightarrow> attribution_query \<Rightarrow> tables \<Rightarrow> owner option res" where
  "find_owner W q t =
     (case given (aq_token q) of
        Some k \<Rightarrow> ebind (bound k) (\<lambda>k. Inr (map_option beacon_of (select_row bc_token k (t_beacons t))))
      | None \<Rightarrow>
     (case (given (aq_mark q), given (aq_layer q)) of
        (Some m, Some l) \<Rightarrow>
          ebind (bound m) (\<lambda>m. ebind (bound l) (\<lambda>l.
            Inr (map_option watermark_of_row (select_row wm_key (m, l) (t_watermarks t)))))
      | (Some m, None) \<Rightarrow>
          ebind (bound m) (\<lambda>m.
            Inr (map_option watermark_of_row (pick_row W (filter (\<lambda>w. wm_mark w = m) (t_watermarks t)))))
      | (None, _) \<Rightarrow>
          (case given (aq_perceptual q) of
             Some h \<Rightarrow> ebind (bound h) (\<lambda>h. Inr (pick_row W (perceptual_rows h t)))
           | None \<Rightarrow> Inl (HTTPException 400 ''provide token_id, mark_id, or perceptual_hash''))))"

definition opt_num :: "int option \<Rightarrow> pyval" where
  "opt_num x = (case x of Some i \<Rightarrow> PInt i | None \<Rightarrow> PNone)"

definition recent_event :: "event_row \<Rightarrow> pydict" where
  "recent_event e =
     [(key ''kind'', PStr (ev_kind e)), (key ''source_ip'', opt_val (ev_ip e)),
      (key ''user_agent'', opt_val (ev_agent e)), (key ''timestamp'', PInt (ev_at e)),
      (key ''qualified_timestamp'', opt_val (ev_stamp e)), (key ''tlog_index'', opt_num (ev_index e))]"

text \<open>\<open>ORDER BY timestamp DESC LIMIT 50\<close>\<close>

definition recent_events :: "pystr \<Rightarrow> tables \<Rightarrow> event_row list" where
  "recent_events f t =
     take 50 (sort_key (\<lambda>e. - ev_at e) (filter (\<lambda>e. ev_file e = Some f) (t_events t)))"

definition attribute :: "world \<Rightarrow> config \<Rightarrow> attribution_query \<Rightarrow> request \<Rightarrow> registry \<Rightarrow> pydict res" where
  "attribute W cfg q r st =
     ebind (require_operator_auth cfg r) (\<lambda>_.
     let t = rg_tables st in
     ebind (find_owner W q t) (\<lambda>row.
     case row of
       None \<Rightarrow> Inr [(key ''found'', PBool False)]
     | Some (file_id, recipient_id, issuer_id) \<Rightarrow>
         ebind (case select_row mf_file file_id (t_manifests t) of
                  None \<Rightarrow> Inr PNone
                | Some m \<Rightarrow> json_loads (mf_json m)) (\<lambda>manifest.
         Inr [(key ''found'', PBool True), (key ''file_id'', PStr file_id),
              (key ''recipient_id'', opt_val recipient_id), (key ''issuer_id'', opt_val issuer_id),
              (key ''manifest'', manifest),
              (key ''recent_events'', PList (map (\<lambda>e. PDict (recent_event e)) (recent_events file_id t)))])))"

section \<open>Evidence\<close>

definition event_dict :: "event_row \<Rightarrow> pydict" where
  "event_dict e =
     [(key ''id'', PInt (int (ev_id e))), (key ''token_id'', PStr (ev_token e)),
      (key ''file_id'', opt_val (ev_file e)), (key ''recipient_id'', opt_val (ev_recipient e)),
      (key ''issuer_id'', opt_val (ev_issuer e)), (key ''kind'', PStr (ev_kind e)),
      (key ''source_ip'', opt_val (ev_ip e)), (key ''user_agent'', opt_val (ev_agent e)),
      (key ''extra'', opt_val (ev_extra e)), (key ''timestamp'', PInt (ev_at e)),
      (key ''qualified_timestamp'', opt_val (ev_stamp e)), (key ''tlog_index'', opt_num (ev_index e))]"

definition beacon_dict :: "beacon_row \<Rightarrow> pydict" where
  "beacon_dict b =
     [(key ''token_id'', opt_val (bc_token b)), (key ''file_id'', PStr (bc_file b)),
      (key ''recipient_id'', PStr (bc_recipient b)), (key ''issuer_id'', PStr (bc_issuer b)),
      (key ''kind'', PStr (bc_kind b)), (key ''registered_at'', PInt (bc_at b))]"

definition watermark_row_dict :: "watermark_row \<Rightarrow> pydict" where
  "watermark_row_dict w =
     [(key ''mark_id'', PStr (wm_mark w)), (key ''layer'', PStr (wm_layer w)),
      (key ''file_id'', PStr (wm_file w)), (key ''recipient_id'', PStr (wm_recipient w)),
      (key ''issuer_id'', PStr (wm_issuer w)), (key ''registered_at'', PInt (wm_at w))]"

fun proofs_loop :: "nat \<Rightarrow> event_row list \<Rightarrow> tlog \<Rightarrow> tlog \<times> pydict list res" where
  "proofs_loop i [] t = (t, Inr [])"
| "proofs_loop i (e # es) t =
     (case ev_index e of
        None \<Rightarrow> proofs_loop (i + 1) es t
      | Some idx \<Rightarrow>
          if idx < 0 then proofs_loop (i + 1) es t
          else case inclusion_proof t idx of
              (t1, Inl x) \<Rightarrow> (t1, Inl x)
            | (t1, Inr None) \<Rightarrow> proofs_loop (i + 1) es t1
            | (t1, Inr (Some proof)) \<Rightarrow>
                (case proofs_loop (i + 1) es t1 of
                   (t2, r) \<Rightarrow>
                     (t2, ebind r (\<lambda>ps.
                        Inr ([(key ''event_row'', PInt (int i)), (key ''tlog_index'', PInt idx),
                              (key ''proof'', PDict proof)] # ps)))))"

definition tlog_proofs_for_events :: "event_row list \<Rightarrow> tlog option \<Rightarrow> tlog option \<times> pydict list res" where
  "tlog_proofs_for_events es l =
     (case l of
        None \<Rightarrow> (None, Inr [])
      | Some t \<Rightarrow> (case proofs_loop 0 es t of (t', r) \<Rightarrow> (Some t', r)))"

definition head_of :: "crypto_ops \<Rightarrow> tlog option \<Rightarrow> tlog option \<times> pyval res" where
  "head_of C l =
     (case l of
        None \<Rightarrow> (None, Inr PNone)
      | Some t \<Rightarrow> (case signed_head C t of (t', r) \<Rightarrow> (Some t', map_sum id PDict r)))"

definition identity_item :: "pydict option \<Rightarrow> string \<Rightarrow> pyval res" where
  "identity_item ident k =
     (case ident of
        None \<Rightarrow> Inl (TypeError ''NoneType object is not subscriptable'')
      | Some d \<Rightarrow> ditem d k)"

definition file_events :: "pystr \<Rightarrow> tables \<Rightarrow> event_row list" where
  "file_events f t = sort_key ev_at (filter (\<lambda>e. ev_file e = Some f) (t_events t))"

definition disclaimer :: pystr where
  "disclaimer = u
     (''This bundle is a provenance record, not a legal finding. For court use, ''
      @ ''supplement with RFC 3161 qualified timestamps and ISO/IEC 27037 chain-of-custody.'')"

definition bundle_body ::
  "pystr \<Rightarrow> pystr \<Rightarrow> pyval \<Rightarrow> pyval \<Rightarrow> tables \<Rightarrow> pyval \<Rightarrow> pydict list \<Rightarrow> pydict" where
  "bundle_body f stamp pub manifest t head proofs =
     [(key ''file_id'', PStr f), (key ''bundle_generated_at'', PStr stamp), (key ''registry_pub'', pub),
      (key ''manifest'', manifest),
      (key ''beacons'', PList (map (\<lambda>b. PDict (beacon_dict b)) (filter (\<lambda>b. bc_file b = f) (t_beacons t)))),
      (key ''watermarks'',
         PList (map (\<lambda>w. PDict (watermark_row_dict w)) (filter (\<lambda>w. wm_file w = f) (t_watermarks t)))),
      (key ''events'', PList (map (\<lambda>e. PDict (event_dict e)) (file_events f t))),
      (key ''tlog_head'', head), (key ''tlog_proofs'', PList (map PDict proofs)),
      (key ''disclaimer'', PStr disclaimer)]"

definition sign_bundle :: "crypto_ops \<Rightarrow> pydict option \<Rightarrow> pydict \<Rightarrow> pydict res" where
  "sign_bundle C ident bundle =
     ebind (identity_item ident ''ed25519_priv'') (\<lambda>sk_hex.
     ebind (py_fromhex sk_hex) (\<lambda>sk.
     ebind (guard (length sk = 32) (ValueError ''An Ed25519 private key is 32 bytes long'')) (\<lambda>_.
     ebind (jcs_dumps (PDict bundle)) (\<lambda>msg.
       Inr (bundle @ [(key ''bundle_signature_ed25519'', PStr (hex (ed_sign C sk msg)))])))))"

definition evidence_bundle :: "crypto_ops \<Rightarrow> pystr \<Rightarrow> pystr \<Rightarrow> registry \<Rightarrow> registry \<times> pydict res" where
  "evidence_bundle C stamp f st =
     (let t = rg_tables st in
      case ebind (bound f) (\<lambda>f.
           case select_row mf_file f (t_manifests t) of
             None \<Rightarrow> Inl (HTTPException 404 ''unknown file_id'')
           | Some m \<Rightarrow>
               ebind (identity_item (rg_identity st) ''ed25519_pub'') (\<lambda>pub.
               ebind (json_loads (mf_json m)) (\<lambda>manifest. Inr (pub, manifest)))) of
        Inl e \<Rightarrow> (st, Inl e)
      | Inr (pub, manifest) \<Rightarrow>
          (case head_of C (rg_log st) of
             (l1, Inl e) \<Rightarrow> (st\<lparr>rg_log := l1\<rparr>, Inl e)
           | (l1, Inr head) \<Rightarrow>
               (case tlog_proofs_for_events (file_events f t) l1 of
                  (l2, r) \<Rightarrow>
                    (st\<lparr>rg_log := l2\<rparr>,
                     ebind r (\<lambda>proofs.
                       sign_bundle C (rg_identity st) (bundle_body f stamp pub manifest t head proofs))))))"

section \<open>The transparency log\<close>

definition no_tlog :: exn where
  "no_tlog = HTTPException 503 ''tlog not initialized''"

definition tlog_head :: "crypto_ops \<Rightarrow> tlog option \<Rightarrow> tlog option \<times> pydict res" where
  "tlog_head C l =
     (case l of
        None \<Rightarrow> (None, Inl no_tlog)
      | Some t \<Rightarrow> (case signed_head C t of (t', r) \<Rightarrow> (Some t', r)))"

definition tlog_proof :: "int \<Rightarrow> tlog option \<Rightarrow> tlog option \<times> pydict res" where
  "tlog_proof index l =
     (case l of
        None \<Rightarrow> (None, Inl no_tlog)
      | Some t \<Rightarrow>
          (case inclusion_proof t index of
             (t', r) \<Rightarrow>
               (Some t', ebind r (\<lambda>p.
                  case p of None \<Rightarrow> Inl (HTTPException 404 ''index out of range'') | Some proof \<Rightarrow> Inr proof))))"

definition tlog_range :: "int \<Rightarrow> int \<Rightarrow> tlog option \<Rightarrow> pydict res" where
  "tlog_range start limit l =
     (case l of
        None \<Rightarrow> Inl no_tlog
      | Some t \<Rightarrow>
          if start < 0 then Inl (HTTPException 400 ''start must be non-negative'')
          else case range_records t start (min (max 1 limit) 1000) of
              Inl e \<Rightarrow> if is_ValueError e then Inl (HTTPException 500 ''tlog range validation failed'') else Inl e
            | Inr entries \<Rightarrow>
                Inr [(key ''start'', PInt start), (key ''count'', PInt (int (length entries))),
                     (key ''entries'', PList (map PDict entries))])"

section \<open>Candidates and health\<close>

definition candidate_dict :: "watermark_row \<Rightarrow> pydict" where
  "candidate_dict w =
     [(key ''mark_id'', PStr (wm_mark w)), (key ''file_id'', PStr (wm_file w)),
      (key ''recipient_id'', PStr (wm_recipient w)), (key ''registered_at'', PInt (wm_at w))]"

definition candidates_semantic :: "pystr \<Rightarrow> int \<Rightarrow> int option \<Rightarrow> tables \<Rightarrow> pydict res" where
  "candidates_semantic stamp limit since t =
     ebind (case since of
              Some s \<Rightarrow> guard (- 9223372036854775808 \<le> s \<and> s < 9223372036854775808) OverflowError
            | None \<Rightarrow> Inr ()) (\<lambda>_.
     let limit = min (max 1 limit) 10000;
          l3 = filter (\<lambda>w. wm_layer w = u ''L3_semantic'') (t_watermarks t);
          rows = (case since of
                    Some s \<Rightarrow> if s \<noteq> 0 then filter (\<lambda>w. s \<le> wm_at w) l3 else l3
                  | None \<Rightarrow> l3);
          rows = take (nat limit) (sort_key (\<lambda>w. - wm_at w) rows)
      in Inr [(key ''generated_at'', PStr stamp), (key ''count'', PInt (int (length rows))),
          (key ''candidates'', PList (map (\<lambda>w. PDict (candidate_dict w)) rows))])"

definition log_size :: "tlog option \<Rightarrow> int" where
  "log_size l = (case l of None \<Rightarrow> 0 | Some t \<Rightarrow> int (tlog_size t))"

definition health :: "registry \<Rightarrow> pydict" where
  "health st =
     [(key ''status'', str_val ''ok''), (key ''service'', str_val ''oversight-registry''),
      (key ''version'', str_val ''0.2.1''), (key ''tlog_size'', PInt (log_size (rg_log st)))]"

definition well_known :: "config \<Rightarrow> registry \<Rightarrow> pydict res" where
  "well_known cfg st =
     ebind (case rg_identity st of None \<Rightarrow> Inr PNone | Some [] \<Rightarrow> Inr PNone | Some d \<Rightarrow> ditem d ''ed25519_pub'') (\<lambda>pub.
       Inr [(key ''ed25519_pub'', pub), (key ''version'', str_val ''0.2.1''),
            (key ''jurisdiction'', PStr (cf_jurisdiction cfg)),
            (key ''tlog_size'', PInt (log_size (rg_log st)))])"

end
