(* ===== verification/RegistryInv.thy ===== *)
theory RegistryInv
  imports RegistryQuery
begin

text \<open>
  The registry as a state machine: every request that can change its state is a step, with any
  input, any clock and any outcome of the disk write of the log. What holds after any number of
  steps: the issuer of a registered file never changes, primary keys stay unique, and every stored
  beacon event is backed by the log entry at its index.
\<close>

section \<open>What the statements leave alone\<close>

lemma insert_manifest_effect:
  assumes "insert_manifest c m now t = Inr t'"
  shows "\<exists>row. t' = t\<lparr>t_manifests := replace_row mf_file row (t_manifests t)\<rparr>
    \<and> sql_text (ck_file c) = Inr (mf_file row) \<and> sql_text (ck_pub c) = Inr (Some (mf_pub row))
    \<and> json_dumps (PDict m) = Inr (mf_json row)"
  using assms by (auto simp: insert_manifest_def ebind_eq_Inr)

text \<open>The row a signed beacon or watermark becomes.\<close>

definition beacon_row_for :: "checked \<Rightarrow> pyval \<Rightarrow> beacon_row \<Rightarrow> bool" where
  "beacon_row_for c b row \<longleftrightarrow>
     ebind (py_item b ''token_id'') sql_text = Inr (bc_token row)
     \<and> sql_text (ck_file c) = Inr (Some (bc_file row))
     \<and> sql_text (ck_recipient_id c) = Inr (Some (bc_recipient row))
     \<and> sql_text (ck_issuer_id c) = Inr (Some (bc_issuer row))
     \<and> ebind (py_item b ''kind'') sql_text = Inr (Some (bc_kind row))"

definition watermark_row_for :: "checked \<Rightarrow> pyval \<Rightarrow> watermark_row \<Rightarrow> bool" where
  "watermark_row_for c w row \<longleftrightarrow>
     ebind (py_item w ''mark_id'') sql_text = Inr (Some (wm_mark row))
     \<and> ebind (py_item w ''layer'') sql_text = Inr (Some (wm_layer row))
     \<and> sql_text (ck_file c) = Inr (Some (wm_file row))
     \<and> sql_text (ck_recipient_id c) = Inr (Some (wm_recipient row))
     \<and> sql_text (ck_issuer_id c) = Inr (Some (wm_issuer row))"

lemma insert_beacon_effect:
  "insert_beacon c now b t = Inr t' \<Longrightarrow>
     \<exists>row. t' = t\<lparr>t_beacons := replace_row bc_token row (t_beacons t)\<rparr> \<and> beacon_row_for c b row"
  by (auto simp: insert_beacon_def ebind_eq_Inr beacon_row_for_def)

lemma insert_watermark_effect:
  "insert_watermark c now w t = Inr t' \<Longrightarrow>
     \<exists>row. t' = t\<lparr>t_watermarks := replace_row wm_key row (t_watermarks t)\<rparr> \<and> watermark_row_for c w row"
  by (auto simp: insert_watermark_def ebind_eq_Inr watermark_row_for_def)

lemma insert_corpus_effect:
  assumes "insert_corpus W c now kv t = Inr t'"
  shows "t' = t \<or> (\<exists>row. t' = t\<lparr>t_corpus := replace_row cp_key row (t_corpus t)\<rparr>)"
  using assms by (auto simp: insert_corpus_def ebind_eq_Inr split: prod.splits if_splits)

text \<open>The loop over the beacons changes the beacons only, and so on.\<close>

lemma beacons_loop:
  "foldM_res (insert_beacon c now) bs t = Inr t' \<Longrightarrow>
     \<exists>rs. t' = t\<lparr>t_beacons := fold (replace_row bc_token) rs (t_beacons t)\<rparr>
       \<and> list_all2 (beacon_row_for c) bs rs"
  using foldM_res_fold [where f = "insert_beacon c now" and R = "beacon_row_for c" and xs = bs
      and upd = "\<lambda>row t. t\<lparr>t_beacons := replace_row bc_token row (t_beacons t)\<rparr>", OF insert_beacon_effect]
  by (simp add: fold_update_beacons)

lemma watermarks_loop:
  "foldM_res (insert_watermark c now) ws t = Inr t' \<Longrightarrow>
     \<exists>rs. t' = t\<lparr>t_watermarks := fold (replace_row wm_key) rs (t_watermarks t)\<rparr>
       \<and> list_all2 (watermark_row_for c) ws rs"
  using foldM_res_fold [where f = "insert_watermark c now" and R = "watermark_row_for c" and xs = ws
      and upd = "\<lambda>row t. t\<lparr>t_watermarks := replace_row wm_key row (t_watermarks t)\<rparr>", OF insert_watermark_effect]
  by (simp add: fold_update_watermarks)

lemma corpus_loop:
  assumes "foldM_res (insert_corpus W c now) kvs t = Inr t'"
  shows "\<exists>rs. t' = t\<lparr>t_corpus := fold (replace_row cp_key) rs (t_corpus t)\<rparr>"
  using assms
proof (induction kvs arbitrary: t)
  case Nil
  then show ?case by (intro exI [of _ "[]"]) simp
next
  case (Cons kv kvs)
  obtain t1 where t1: "insert_corpus W c now kv t = Inr t1" "foldM_res (insert_corpus W c now) kvs t1 = Inr t'"
    using Cons.prems by (auto simp: ebind_eq_Inr)
  obtain rs where rs: "t' = t1\<lparr>t_corpus := fold (replace_row cp_key) rs (t_corpus t1)\<rparr>"
    using Cons.IH [OF t1(2)] by blast
  from insert_corpus_effect [OF t1(1)] show ?case
  proof
    assume "t1 = t"
    with rs show ?thesis by blast
  next
    assume "\<exists>row. t1 = t\<lparr>t_corpus := replace_row cp_key row (t_corpus t)\<rparr>"
    then obtain row where "t1 = t\<lparr>t_corpus := replace_row cp_key row (t_corpus t)\<rparr>" by blast
    with rs show ?thesis by (intro exI [of _ "row # rs"]) simp
  qed
qed

text \<open>A committed registration, table by table.\<close>

lemma store_rows_effect:
  assumes "store_rows W req c now t = Inr t'"
  obtains f row bs ws cs where
    "sql_text (ck_file c) = Inr f" "mf_file row = f" "sql_text (ck_pub c) = Inr (Some (mf_pub row))"
    "json_dumps (PDict (rq_manifest req)) = Inr (mf_json row)"
    "list_all2 (beacon_row_for c) (ck_beacons c) bs" "list_all2 (watermark_row_for c) (ck_watermarks c) ws"
    "t' = t\<lparr>t_manifests := replace_row mf_file row (t_manifests t),
           t_beacons := fold (replace_row bc_token) bs (t_beacons t),
           t_watermarks := fold (replace_row wm_key) ws (t_watermarks t),
           t_corpus := fold (replace_row cp_key) cs (t_corpus t)\<rparr>"
proof -
  obtain t1 t2 t3 where t1: "insert_manifest c (rq_manifest req) now t = Inr t1"
    and t2: "foldM_res (insert_beacon c now) (ck_beacons c) t1 = Inr t2"
    and t3: "foldM_res (insert_watermark c now) (ck_watermarks c) t2 = Inr t3"
    and t': "(case rq_corpus req of None \<Rightarrow> Inr t3 | Some corpus \<Rightarrow> foldM_res (insert_corpus W c now) corpus t3) = Inr t'"
    using assms by (auto simp: store_rows_def ebind_eq_Inr)
  obtain row where row: "t1 = t\<lparr>t_manifests := replace_row mf_file row (t_manifests t)\<rparr>"
    "sql_text (ck_file c) = Inr (mf_file row)" "sql_text (ck_pub c) = Inr (Some (mf_pub row))"
    "json_dumps (PDict (rq_manifest req)) = Inr (mf_json row)"
    using insert_manifest_effect [OF t1] by auto
  obtain bs where bs: "t2 = t1\<lparr>t_beacons := fold (replace_row bc_token) bs (t_beacons t1)\<rparr>"
    "list_all2 (beacon_row_for c) (ck_beacons c) bs" using beacons_loop [OF t2] by blast
  obtain ws where ws: "t3 = t2\<lparr>t_watermarks := fold (replace_row wm_key) ws (t_watermarks t2)\<rparr>"
    "list_all2 (watermark_row_for c) (ck_watermarks c) ws" using watermarks_loop [OF t3] by blast
  obtain cs where cs: "t' = t3\<lparr>t_corpus := fold (replace_row cp_key) cs (t_corpus t3)\<rparr>"
  proof (cases "rq_corpus req")
    case None
    then show thesis using t' that [of "[]"] by simp
  next
    case (Some corpus)
    then show thesis using t' corpus_loop that by fastforce
  qed
  show thesis
    by (rule that [OF row(2) refl row(3,4) bs(2) ws(2)]) (use row(1) bs(1) ws(1) cs in simp_all)
qed

lemma store_registration_effect:
  assumes "store_registration W req c now t = Inr t'"
  obtains f row bs ws cs where
    "sql_text (ck_file c) = Inr f" "mf_file row = f" "sql_text (ck_pub c) = Inr (Some (mf_pub row))"
    "json_dumps (PDict (rq_manifest req)) = Inr (mf_json row)"
    "\<And>k old. f = Some k \<Longrightarrow> select_row mf_file k (t_manifests t) = Some old \<Longrightarrow> PStr (mf_pub old) = ck_pub c"
    "list_all2 (beacon_row_for c) (ck_beacons c) bs" "list_all2 (watermark_row_for c) (ck_watermarks c) ws"
    "t' = t\<lparr>t_manifests := replace_row mf_file row (t_manifests t),
           t_beacons := fold (replace_row bc_token) bs (t_beacons t),
           t_watermarks := fold (replace_row wm_key) ws (t_watermarks t),
           t_corpus := fold (replace_row cp_key) cs (t_corpus t)\<rparr>"
proof -
  obtain u where u: "sql_text (ck_file c) = Inr u" "store_rows W req c now t = Inr t'"
    "\<not> (case select_where mf_file u (t_manifests t) of None \<Rightarrow> False | Some row \<Rightarrow> PStr (mf_pub row) \<noteq> ck_pub c)"
    using assms by (auto simp: store_registration_def pin_check_def ebind_eq_Inr Let_def split: if_splits)
  have pub: "PStr (mf_pub o') = ck_pub c" if "u = Some k" "select_row mf_file k (t_manifests t) = Some o'" for k o'
    using u(3) that by (simp add: select_where_def)
  show thesis
    by (rule store_rows_effect [OF u(2)]) (rule that, use u(1) pub in auto)
qed

section \<open>The log only grows\<close>

definition log_grows :: "tlog option \<Rightarrow> tlog option \<Rightarrow> bool" where
  "log_grows l l' \<longleftrightarrow>
     (case (l, l') of
        (None, None) \<Rightarrow> True
      | (Some t, Some t') \<Rightarrow> prefixed (leaves t) (leaves t')
      | _ \<Rightarrow> False)"

lemma log_grows_refl [simp]: "log_grows l l"
  by (simp add: log_grows_def split: option.split)

lemma log_grows_trans: "log_grows l l' \<Longrightarrow> log_grows l' l'' \<Longrightarrow> log_grows l l''"
  by (auto simp: log_grows_def split: option.splits elim: prefixed_trans)

lemma log_grows_same: "leaves t' = leaves t \<Longrightarrow> log_grows (Some t) (Some t')"
  by (simp add: log_grows_def)

lemma tlog_append_leaves:
  "tlog_append io v t = (t', r) \<Longrightarrow> prefixed (leaves t) (leaves t')
     \<and> (\<forall>i. r = Inr i \<longrightarrow> i = length (leaves t) \<and> leaves t' = leaves t @ [leaf_hash_of v])"
  by (auto simp: tlog_append_def Let_def leaf_hash_of_def split: sum.splits option.splits)

text \<open>An entry of the log at an index: none without a log.\<close>

definition logged_at :: "tlog option \<Rightarrow> int \<Rightarrow> pydict \<Rightarrow> bool" where
  "logged_at l i ev \<longleftrightarrow>
     (case l of
        None \<Rightarrow> i = - 1
      | Some t \<Rightarrow> 0 \<le> i \<and> i < int (length (leaves t)) \<and> leaves t ! nat i = leaf_hash_of (PDict ev))"

lemma logged_at_grows: "logged_at l i ev \<Longrightarrow> log_grows l l' \<Longrightarrow> logged_at l' i ev"
  by (auto simp: logged_at_def log_grows_def prefixed_iff nth_append nat_less_iff split: option.splits)

lemma append_tlog_effect:
  assumes "append_tlog io ev l = (l', r)"
  shows "log_grows l l' \<and> (\<forall>i. r = Inr i \<longrightarrow> logged_at l' i ev)"
proof (cases l)
  case None
  then show ?thesis using assms by (auto simp: append_tlog_def logged_at_def log_grows_def)
next
  case (Some t)
  obtain t' x where t': "tlog_append io (PDict ev) t = (t', x)" by force
  then have "l' = Some t'" "r = map_sum id int x" using assms Some by (auto simp: append_tlog_def)
  then show ?thesis using tlog_append_leaves [OF t'] Some
    by (cases x) (auto simp: log_grows_def logged_at_def)
qed

lemma signed_head_leaves: "leaves (fst (signed_head C t)) = leaves t"
  using tlog_root_frame [of t] by (auto simp: signed_head_def Let_def split: prod.split)

lemma inclusion_proof_leaves: "leaves (fst (inclusion_proof t i)) = leaves t"
  using tlog_root_frame [of t] by (auto simp: inclusion_proof_def Let_def split: prod.split sum.split)

lemma proofs_loop_leaves: "leaves (fst (proofs_loop i es t)) = leaves t"
proof (induction i es t rule: proofs_loop.induct)
  case (2 i e es t)
  show ?case
  proof (cases "ev_index e")
    case None
    then show ?thesis using 2(1) by simp
  next
    case (Some idx)
    obtain t1 x where t1: "inclusion_proof t idx = (t1, x)" by force
    then have "leaves t1 = leaves t" using inclusion_proof_leaves [of t idx] by simp
    then show ?thesis
      using Some t1 2(2) [OF Some] 2(3,4) [OF Some _ t1 [symmetric]]
      by (auto split: sum.splits option.splits prod.splits)
  qed
qed simp

section \<open>Steps\<close>

inductive reg_step :: "world \<Rightarrow> config \<Rightarrow> registry \<Rightarrow> registry \<Rightarrow> bool" for W cfg where
  step_register: "register W cfg mo req r st = (st', x) \<Longrightarrow> reg_step W cfg st st'"
| step_png: "beacon_png cfg mo token r st = (st', b) \<Longrightarrow> reg_step W cfg st st'"
| step_ocsp: "beacon_ocsp cfg mo token r st = (st', b) \<Longrightarrow> reg_step W cfg st st'"
| step_license: "beacon_license cfg mo token r st = (st', x) \<Longrightarrow> reg_step W cfg st st'"
| step_dns: "dns_event cfg mo evt r st = (st', x) \<Longrightarrow> reg_step W cfg st st'"
| step_evidence: "evidence_bundle (w_ops W) stamp f st = (st', x) \<Longrightarrow> reg_step W cfg st st'"
| step_head: "tlog_head (w_ops W) (rg_log st) = (l, x) \<Longrightarrow> reg_step W cfg st (st\<lparr>rg_log := l\<rparr>)"
| step_proof: "tlog_proof i (rg_log st) = (l, x) \<Longrightarrow> reg_step W cfg st (st\<lparr>rg_log := l\<rparr>)"

abbreviation reg_run :: "world \<Rightarrow> config \<Rightarrow> registry \<Rightarrow> registry \<Rightarrow> bool" where
  "reg_run W cfg \<equiv> (reg_step W cfg)\<^sup>*\<^sup>*"

text \<open>Which log entry an event row stands for.\<close>

definition event_entry :: "event_row \<Rightarrow> pydict \<Rightarrow> bool" where
  "event_entry e ev \<longleftrightarrow>
     (\<exists>ua qts. ev_agent e = Some ua \<and> ev_stamp e = Some qts
        \<and> ev = beacon_log_event (ev_kind e) (ev_token e) (ev_file e) (ev_recipient e) (ev_ip e) ua qts)
     \<or> (\<exists>evt qts. ev_kind e = u ''dns'' \<and> ev_token e = dn_token evt \<and> ev_ip e = dn_client_ip evt
        \<and> ev_stamp e = Some qts \<and> dns_extra evt = Inr (the (ev_extra e))
        \<and> ev = dns_log_event evt (ev_file e) (ev_recipient e) qts)"

definition backed :: "tlog option \<Rightarrow> event_row \<Rightarrow> bool" where
  "backed l e \<longleftrightarrow> (\<exists>i ev. ev_index e = Some i \<and> event_entry e ev \<and> logged_at l i ev)"

lemma backed_grows: "backed l e \<Longrightarrow> log_grows l l' \<Longrightarrow> backed l' e"
  using logged_at_grows by (fastforce simp: backed_def)

text \<open>
  The effect of a step, seen from the tables: nothing, a committed registration, or one backed
  event.
\<close>

definition same_tables :: "registry \<Rightarrow> registry \<Rightarrow> bool" where
  "same_tables st st' \<longleftrightarrow> rg_tables st' = rg_tables st \<and> rg_identity st' = rg_identity st
     \<and> log_grows (rg_log st) (rg_log st')"

definition registered :: "world \<Rightarrow> registry \<Rightarrow> registry \<Rightarrow> bool" where
  "registered W st st' \<longleftrightarrow>
     (\<exists>req c now. check_registration (w_ops W) req = Inr c
        \<and> store_registration W req c now (rg_tables st) = Inr (rg_tables st'))
     \<and> rg_identity st' = rg_identity st \<and> log_grows (rg_log st) (rg_log st')"

definition recorded :: "registry \<Rightarrow> registry \<Rightarrow> bool" where
  "recorded st st' \<longleftrightarrow>
     (\<exists>row. rg_tables st' = insert_event row (rg_tables st) \<and> (\<forall>n. backed (rg_log st') (row n)))
     \<and> rg_identity st' = rg_identity st \<and> log_grows (rg_log st) (rg_log st')"

lemma recordedI:
  assumes "st' = st\<lparr>rg_log := l, rg_tables := insert_event row (rg_tables st)\<rparr>"
    and "\<And>n. ev_index (row n) = Some i \<and> event_entry (row n) ev" "logged_at l i ev" "log_grows (rg_log st) l"
  shows "recorded st st'"
  unfolding recorded_def using assms by (fastforce simp: backed_def)

lemma opt_text: "sql_text (opt_val x) = Inr y \<Longrightarrow> y = x"
  by (cases x) (auto simp: sql_text_def opt_val_def split: if_splits)

lemma register_effect:
  "register W cfg mo req r st = (st', x) \<Longrightarrow> same_tables st st' \<or> registered W st st'"
  by (fastforce simp: register_def same_tables_def registered_def Let_def ebind_eq_Inr
      split: sum.splits prod.splits dest: append_tlog_effect)

lemma record_event_effect:
  "record_event mo r token kind st = (st', x) \<Longrightarrow> same_tables st st' \<or> recorded st st'"
proof -
  assume *: "record_event mo r token kind st = (st', x)"
  show ?thesis
  proof (cases "beacon_owner token (rg_tables st)")
    case Inl
    then show ?thesis using * by (simp add: record_event_def same_tables_def)
  next
    case (Inr row)
    let ?ev = "beacon_log_event (u kind) token (map_option bc_file row) (map_option bc_recipient row)
      (client_host r) (header r ''user-agent'') (mo_stamp mo)"
    obtain l y where l: "append_tlog (mo_io mo) ?ev (rg_log st) = (l, y)" by force
    note g = append_tlog_effect [OF l]
    show ?thesis
    proof (cases y)
      case (Inl e)
      then show ?thesis using * Inr l g by (auto simp: record_event_def same_tables_def Let_def)
    next
      case (Inr idx)
      then have "logged_at l idx ?ev" using g by simp
      then show ?thesis using * \<open>beacon_owner token (rg_tables st) = Inr row\<close> Inr l g
        by (intro disjI2) (rule recordedI [where i = idx and ev = ?ev],
            auto simp: record_event_def Let_def event_entry_def)
    qed
  qed
qed

lemma store_dns_event_effect:
  "store_dns_event mo evt st = (st', x) \<Longrightarrow> same_tables st st' \<or> recorded st st'"
proof -
  assume *: "store_dns_event mo evt st = (st', x)"
  show ?thesis
  proof (cases "beacon_owner (dn_token evt) (rg_tables st)")
    case Inl
    then show ?thesis using * by (simp add: store_dns_event_def same_tables_def)
  next
    case (Inr row)
    let ?ev = "dns_log_event evt (map_option bc_file row) (map_option bc_recipient row) (mo_stamp mo)"
    obtain l y where l: "append_tlog (mo_io mo) ?ev (rg_log st) = (l, y)" by force
    note g = append_tlog_effect [OF l]
    show ?thesis
    proof (cases y)
      case (Inl e)
      then show ?thesis using * Inr l g by (auto simp: store_dns_event_def same_tables_def Let_def)
    next
      case (Inr idx)
      then have "logged_at l idx ?ev" using g by simp
      note at = this
      let ?bind = "ebind (dns_extra evt) (\<lambda>x. ebind (sql_text (opt_val (dn_client_ip evt))) (\<lambda>ip. Inr (x, ip)))"
      show ?thesis
      proof (cases ?bind)
        case (Inl e)
        then show ?thesis using * \<open>beacon_owner (dn_token evt) (rg_tables st) = Inr row\<close> \<open>y = Inr idx\<close> l g
          by (auto simp: store_dns_event_def same_tables_def Let_def)
      next
        case (Inr p)
        then obtain ex where p: "p = (ex, dn_client_ip evt)" "dns_extra evt = Inr ex"
          by (auto simp: ebind_eq_Inr dest: opt_text)
        show ?thesis
          by (intro disjI2, rule recordedI [where i = idx and ev = ?ev])
             (use * \<open>beacon_owner (dn_token evt) (rg_tables st) = Inr row\<close> \<open>y = Inr idx\<close> l g at p Inr in
              \<open>auto simp: store_dns_event_def Let_def event_entry_def\<close>)
      qed
    qed
  qed
qed

lemma rate_limited_effect:
  "same_tables (st\<lparr>rg_bucket := b\<rparr>) st' \<or> recorded (st\<lparr>rg_bucket := b\<rparr>) st' \<Longrightarrow> same_tables st st' \<or> recorded st st'"
  by (auto simp: same_tables_def recorded_def)

lemma beacon_hit_effect:
  assumes "beacon_hit cfg mo kind reply token r st = (st', x)"
  shows "same_tables st st' \<or> recorded st st'"
proof -
  obtain b lim where b: "rate_limit (cf_trusted_proxy cfg) (mo_mono mo) r (rg_bucket st) = (b, lim)" by force
  obtain st2 y where y: "record_event mo r token kind (st\<lparr>rg_bucket := b\<rparr>) = (st2, y)" by force
  show ?thesis
    using assms b y rate_limited_effect [OF record_event_effect [OF y]]
    by (cases lim) (auto simp: beacon_hit_def Let_def same_tables_def)
qed

lemma dns_event_effect:
  assumes "dns_event cfg mo evt r st = (st', x)"
  shows "same_tables st st' \<or> recorded st st'"
proof -
  obtain b lim where b: "rate_limit (cf_trusted_proxy cfg) (mo_mono mo) r (rg_bucket st) = (b, lim)" by force
  obtain st2 y where y: "store_dns_event mo evt (st\<lparr>rg_bucket := b\<rparr>) = (st2, y)" by force
  show ?thesis
    using assms b y rate_limited_effect [OF store_dns_event_effect [OF y]]
    by (cases "ebind lim (\<lambda>_. verify_dns_event_auth cfg r)") (auto simp: dns_event_def Let_def same_tables_def)
qed

lemma head_of_grows: "log_grows l (fst (head_of C l))"
  using signed_head_leaves by (auto simp: head_of_def log_grows_def split: option.split prod.split) (metis fst_conv prefixed_refl)

lemma proofs_grow: "log_grows l (fst (tlog_proofs_for_events es l))"
proof (cases l)
  case (Some t)
  then show ?thesis using proofs_loop_leaves [of 0 es t]
    by (auto simp: tlog_proofs_for_events_def log_grows_def split: prod.split)
qed (simp add: tlog_proofs_for_events_def)

lemma evidence_effect:
  assumes "evidence_bundle C stamp f st = (st', x)"
  shows "same_tables st st'"
proof -
  obtain l1 h where l1: "head_of C (rg_log st) = (l1, h)" by force
  have g1: "log_grows (rg_log st) l1" using head_of_grows [of "rg_log st" C] l1 by simp
  have g2: "log_grows l1 (fst (tlog_proofs_for_events es l1))" for es by (rule proofs_grow)
  show ?thesis
    using assms l1 g1 log_grows_trans [OF g1 g2]
    by (auto simp: evidence_bundle_def Let_def same_tables_def split: sum.splits prod.splits) (metis fst_conv)+
qed

lemma step_effect:
  assumes "reg_step W cfg st st'"
  shows "same_tables st st' \<or> registered W st st' \<or> recorded st st'"
  using assms
proof cases
  case (step_register mo req r x)
  then show ?thesis using register_effect by blast
next
  case (step_png mo token r b)
  then have "same_tables st st' \<or> recorded st st'"
    unfolding beacon_png_def by (rule beacon_hit_effect)
  then show ?thesis by blast
next
  case (step_ocsp mo token r b)
  then have "same_tables st st' \<or> recorded st st'"
    unfolding beacon_ocsp_def by (rule beacon_hit_effect)
  then show ?thesis by blast
next
  case (step_license mo token r x)
  then have "same_tables st st' \<or> recorded st st'"
    unfolding beacon_license_def by (rule beacon_hit_effect)
  then show ?thesis by blast
next
  case (step_dns mo evt r x)
  then show ?thesis using dns_event_effect by blast
next
  case (step_evidence stamp f x)
  then show ?thesis using evidence_effect by blast
next
  case (step_head l x)
  then show ?thesis using signed_head_leaves
    by (auto simp: tlog_head_def same_tables_def log_grows_def split: option.splits prod.splits)
       (metis fst_conv prefixed_refl)
next
  case (step_proof i l x)
  then show ?thesis using inclusion_proof_leaves
    by (auto simp: tlog_proof_def same_tables_def log_grows_def split: option.splits prod.splits)
       (metis fst_conv prefixed_refl)
qed

section \<open>Invariants\<close>

definition reg_inv :: "registry \<Rightarrow> bool" where
  "reg_inv st \<longleftrightarrow>
     unique_keys bc_token (t_beacons (rg_tables st)) \<and> unique_keys wm_key (t_watermarks (rg_tables st))
     \<and> unique_keys mf_file (t_manifests (rg_tables st)) \<and> unique_keys cp_key (t_corpus (rg_tables st))
     \<and> list_all (backed (rg_log st)) (t_events (rg_tables st))"

lemma all_backed_grows: "list_all (backed l) es \<Longrightarrow> log_grows l l' \<Longrightarrow> list_all (backed l') es"
  by (auto simp: list_all_iff backed_grows)

lemma reg_step_inv: "reg_step W cfg st st' \<Longrightarrow> reg_inv st \<Longrightarrow> reg_inv st'"
  by (drule step_effect)
     (auto simp: same_tables_def registered_def recorded_def reg_inv_def insert_event_def
        unique_keys_replace unique_keys_fold elim!: store_registration_effect intro: all_backed_grows)

lemma reg_run_inv: "reg_run W cfg st st' \<Longrightarrow> reg_inv st \<Longrightarrow> reg_inv st'"
  by (induction rule: rtranclp_induct) (auto intro: reg_step_inv)

text \<open>The key a file was registered under\<close>

definition issuer_of :: "pystr \<Rightarrow> registry \<Rightarrow> pystr option" where
  "issuer_of f st = map_option mf_pub (select_row mf_file f (t_manifests (rg_tables st)))"

lemma store_keeps_issuer:
  assumes "store_registration W req c now (rg_tables st) = Inr (rg_tables st')" "issuer_of f st = Some p"
  shows "issuer_of f st' = Some p"
proof -
  obtain old where old: "select_row mf_file f (t_manifests (rg_tables st)) = Some old" "mf_pub old = p"
    using assms(2) by (auto simp: issuer_of_def)
  from assms(1) show ?thesis
  proof (rule store_registration_effect)
    fix g row bs ws cs
    assume g: "mf_file row = g" "sql_text (ck_pub c) = Inr (Some (mf_pub row))"
      and pub: "\<And>k o'. g = Some k \<Longrightarrow> select_row mf_file k (t_manifests (rg_tables st)) = Some o' \<Longrightarrow> PStr (mf_pub o') = ck_pub c"
      and t: "rg_tables st' = (rg_tables st)\<lparr>t_manifests := replace_row mf_file row (t_manifests (rg_tables st)),
           t_beacons := fold (replace_row bc_token) bs (t_beacons (rg_tables st)),
           t_watermarks := fold (replace_row wm_key) ws (t_watermarks (rg_tables st)),
           t_corpus := fold (replace_row cp_key) cs (t_corpus (rg_tables st))\<rparr>"
    have "mf_pub row = p" if "g = Some f"
    proof -
      have "ck_pub c = PStr p" using pub [OF that old(1)] old(2) by simp
      then show ?thesis using g(2) by (auto simp: sql_text_def split: if_splits)
    qed
    then show ?thesis using t g(1) old by (auto simp: issuer_of_def manifests.get_put)
  qed
qed

lemma registered_issuer: "registered W st st' \<Longrightarrow> issuer_of f st = Some p \<Longrightarrow> issuer_of f st' = Some p"
  by (auto simp: registered_def elim: store_keeps_issuer)

lemma step_issuer: "reg_step W cfg st st' \<Longrightarrow> issuer_of f st = Some p \<Longrightarrow> issuer_of f st' = Some p"
proof (drule step_effect, elim disjE)
  assume "recorded st st'" "issuer_of f st = Some p"
  then show ?thesis by (auto simp: recorded_def issuer_of_def insert_event_def)
next
  assume "registered W st st'" "issuer_of f st = Some p"
  then show ?thesis by (rule registered_issuer)
qed (simp add: same_tables_def issuer_of_def)

lemma run_issuer: "reg_run W cfg st st' \<Longrightarrow> issuer_of f st = Some p \<Longrightarrow> issuer_of f st' = Some p"
  by (induction rule: rtranclp_induct) (auto intro: step_issuer)

lemma run_grows: "reg_run W cfg st st' \<Longrightarrow> log_grows (rg_log st) (rg_log st')"
proof (induction rule: rtranclp_induct)
  case (step st1 st2)
  then have "log_grows (rg_log st1) (rg_log st2)"
    using step_effect [OF step(2)] by (auto simp: same_tables_def registered_def recorded_def)
  with step show ?case using log_grows_trans by blast
qed simp

end
