(* ===== verification/RegistryProps.thy ===== *)
theory RegistryProps
  imports RegistryInv
begin

text \<open>
  What the registry promises (\<open>src/registry/server.py\<close>): only signed manifests are registered,
  under the issuer that holds the file, with the sidecars the issuer signed; a refused request
  changes nothing; a registered beacon is attributed to its recipient; the evidence bundle is
  signed and carries the inclusion proofs of its events.
\<close>

section \<open>The branches of \<open>register\<close>\<close>

lemma register_okE:
  assumes "register W cfg mo req r st = (st', Inr reply)"
  obtains c idx where "require_operator_auth cfg r = Inr ()" "check_registration (w_ops W) req = Inr c"
    "store_registration W req c (mo_time mo) (rg_tables st) = Inr (rg_tables st')"
    "append_tlog (mo_io mo) (register_event c (mo_stamp mo)) (rg_log st) = (rg_log st', Inr idx)"
    "register_reply W cfg mo (rg_identity st) req c idx = Inr reply"
  using assms
  by (auto simp: register_def Let_def ebind_eq_Inr split: sum.splits prod.splits)

lemma check_registration_okE:
  assumes "check_registration C req = Inr c"
  obtains bytes mf where "jcs_dumps (PDict (rq_manifest req)) = Inr bytes" "from_json bytes = Inr mf"
    "verify C mf = Inr True" "ck_pub c = m_issuer_ed25519_pub mf" "truthy (ck_pub c)"
    "ck_file c = dgetn (rq_manifest req) ''file_id''" "truthy (ck_file c)"
    "signed_registration_artifacts (rq_manifest req) (rq_beacons req) (rq_watermarks req)
       = Inr (ck_beacons c, ck_watermarks c)"
  using assms
  by (fastforce simp: check_registration_def verify_manifest_signature_def Let_def ebind_eq_Inr
      split: sum.splits if_splits prod.splits)

lemma check_registration_ids:
  assumes "check_registration C req = Inr c"
  shows "py_get (or_else (dgetn (rq_manifest req) ''recipient'') (PDict [])) ''recipient_id'' (str_val ''unknown'')
      = Inr (ck_recipient_id c)"
    "ck_issuer_id c = dgetd (rq_manifest req) ''issuer_id'' (str_val ''unknown'')"
  using assms by (auto simp: check_registration_def Let_def ebind_eq_Inr split: if_splits)

lemma signed_artifactsD:
  assumes "signed_registration_artifacts m rb rw = Inr (sb, sw)"
  shows "py_iter (or_else (dgetn m ''beacons'') (PList [])) = Inr sb"
    "py_iter (or_else (dgetn m ''watermarks'') (PList [])) = Inr sw"
    "canonical_items (map PDict rb) = canonical_items sb" "is_ok (canonical_items sb)"
    "canonical_items (map PDict rw) = canonical_items sw" "is_ok (canonical_items sw)"
  using assms by (auto simp: signed_registration_artifacts_def ebind_eq_Inr split: if_splits)

text \<open>A field of the parsed manifest is the field of the request, with its keys in order.\<close>

lemma map_of_map_snd: "map_of (map (\<lambda>kv. (fst kv, f (snd kv))) xs) k = map_option f (map_of xs k)"
  by (induction xs) auto

lemma parsed_field:
  assumes "json_ok (PDict m)" "canon (PDict m) = PDict d"
  shows "dget d k = map_option canon (dget m k)"
proof -
  have "distinct (map fst m)" using assms(1) by (rule json_ok_distinct)
  then have "map_of (map (\<lambda>kv. (fst kv, canon (snd kv))) (sort_key item16 m)) (key k) = map_option canon (map_of m (key k))"
    by (simp add: map_of_map_snd map_of_sort_key)
  then show ?thesis using assms(2) by (simp add: canon_dict dget_def del: canon.simps)
qed

lemma parsed_file_id:
  assumes "json_ok (PDict m)" "jcs_dumps (PDict m) = Inr bytes" "from_json bytes = Inr mf"
  shows "m_file_id mf = canon (dgetn m ''file_id'') \<and> dget m ''file_id'' \<noteq> None"
proof -
  obtain d where d: "canon (PDict m) = PDict d" by (simp add: canon_dict)
  have "loads_utf8 bytes = Inr (PDict d)" using loads_jcs [OF assms(1,2)] d by simp
  then have "from_dict d = Inr mf" using assms(3) by (simp add: from_json_def)
  then obtain m0 where m0: "manifest_of (filter (\<lambda>kv. fst kv \<noteq> key ''recipient'' \<and> fst kv \<noteq> key ''watermarks'') d) = Inr m0"
    "m_file_id mf = m_file_id m0"
    by (cases "dgetd d ''watermarks'' (PList [])")
       (auto simp: from_dict_def Let_def ebind_eq_Inr type_to_value_def split: sum.splits if_splits)
  then have "dget d ''file_id'' = Some (m_file_id mf)"
    by (auto simp: manifest_of_def ebind_eq_Inr dget_pop)
  then show ?thesis
    using parsed_field [OF assms(1) d, of "''file_id''"] by (auto simp: dgetn_def dgetd_def)
qed


section \<open>What a committed registration stores\<close>

lemma find_rev_mem: "x \<in> set xs \<Longrightarrow> P x \<Longrightarrow> \<exists>y\<in>set xs. P y \<and> find P (rev xs) = Some y"
  by (metis find_Some_iff find_None_iff nth_mem option.exhaust set_rev)

lemma list_all2_left: "list_all2 P xs ys \<Longrightarrow> x \<in> set xs \<Longrightarrow> \<exists>y\<in>set ys. P x y"
  by (induction rule: list_all2_induct) auto

lemma list_all2_right: "list_all2 P xs ys \<Longrightarrow> y \<in> set ys \<Longrightarrow> \<exists>x\<in>set xs. P x y"
  by (induction rule: list_all2_induct) auto

lemma stored_beacon:
  assumes "list_all2 (beacon_row_for c) bs rs" "PDict b \<in> set bs" "dget b ''token_id'' = Some (PStr k)" "scalar_str k"
  shows "\<exists>row. select_row bc_token k (fold (replace_row bc_token) rs t) = Some row
    \<and> sql_text (ck_file c) = Inr (Some (bc_file row))
    \<and> sql_text (ck_recipient_id c) = Inr (Some (bc_recipient row))
    \<and> sql_text (ck_issuer_id c) = Inr (Some (bc_issuer row))"
proof -
  obtain r0 where r0: "r0 \<in> set rs" "beacon_row_for c (PDict b) r0"
    using list_all2_left [OF assms(1,2)] by auto
  from r0(2) assms(3,4) have k: "bc_token r0 = Some k" by (simp add: beacon_row_for_def py_item_def ditem_def)
  obtain row where "row \<in> set rs" "find (\<lambda>r. bc_token r = Some k) (rev rs) = Some row"
    using find_rev_mem [of r0 rs "\<lambda>r. bc_token r = Some k", OF r0(1) k] by auto
  moreover from this(1) obtain x where "beacon_row_for c x row" using list_all2_right [OF assms(1)] by metis
  ultimately show ?thesis
    using beacons.get_fold_last [of k rs t] by (simp add: beacon_row_for_def)
qed

lemma sql_text_truthy: "truthy v \<Longrightarrow> sql_text v = Inr x \<Longrightarrow> \<exists>s. x = Some s"
  by (auto simp: sql_text_def truthy_def split: pyval.splits if_splits)

lemma sql_text_scalar: "sql_text v = Inr (Some s) \<Longrightarrow> scalar_str s"
proof -
  have "scalar_str (int_str i)" for i
    using int_str_scalar [of _ i] by (auto simp: scalar_str_def list_all_iff)
  then show "sql_text v = Inr (Some s) \<Longrightarrow> scalar_str s"
    by (auto simp: sql_text_def split: pyval.splits if_splits)
qed

lemma register_stores:
  assumes "register W cfg mo req r st = (st', Inr reply)"
  obtains c f row bs ws where "check_registration (w_ops W) req = Inr c"
    "sql_text (ck_file c) = Inr (Some f)" "mf_file row = Some f"
    "select_row mf_file f (t_manifests (rg_tables st')) = Some row"
    "sql_text (ck_pub c) = Inr (Some (mf_pub row))"
    "json_dumps (PDict (rq_manifest req)) = Inr (mf_json row)"
    "\<And>old. select_row mf_file f (t_manifests (rg_tables st)) = Some old \<Longrightarrow> PStr (mf_pub old) = ck_pub c"
    "list_all2 (beacon_row_for c) (ck_beacons c) bs" "list_all2 (watermark_row_for c) (ck_watermarks c) ws"
    "t_beacons (rg_tables st') = fold (replace_row bc_token) bs (t_beacons (rg_tables st))"
    "t_watermarks (rg_tables st') = fold (replace_row wm_key) ws (t_watermarks (rg_tables st))"
proof -
  obtain c where c: "check_registration (w_ops W) req = Inr c"
    and s: "store_registration W req c (mo_time mo) (rg_tables st) = Inr (rg_tables st')"
    using register_okE [OF assms] by metis
  have tr: "truthy (ck_file c)" using check_registration_okE [OF c] by metis
  show thesis
  proof (rule store_registration_effect [OF s])
    fix f row bs ws cs
    assume f: "sql_text (ck_file c) = Inr f" "mf_file row = f"
      and rest: "sql_text (ck_pub c) = Inr (Some (mf_pub row))"
        "json_dumps (PDict (rq_manifest req)) = Inr (mf_json row)"
        "\<And>k old. f = Some k \<Longrightarrow> select_row mf_file k (t_manifests (rg_tables st)) = Some old \<Longrightarrow> PStr (mf_pub old) = ck_pub c"
        "list_all2 (beacon_row_for c) (ck_beacons c) bs" "list_all2 (watermark_row_for c) (ck_watermarks c) ws"
      and t: "rg_tables st' = (rg_tables st)\<lparr>t_manifests := replace_row mf_file row (t_manifests (rg_tables st)),
           t_beacons := fold (replace_row bc_token) bs (t_beacons (rg_tables st)),
           t_watermarks := fold (replace_row wm_key) ws (t_watermarks (rg_tables st)),
           t_corpus := fold (replace_row cp_key) cs (t_corpus (rg_tables st))\<rparr>"
    obtain k where k: "f = Some k" using sql_text_truthy [OF tr f(1)] by blast
    show thesis
      by (rule that [OF c _ _ _ rest(1,2) rest(3) [OF k] rest(4,5)])
         (use f k t in \<open>simp_all add: manifests.get_put_same\<close>)
  qed
qed

section \<open>Properties\<close>

text \<open>
  C4: once a file is registered under an issuer key, no sequence of requests of anybody changes
  that key, and the log never loses or changes an entry. The requests are handled one after another;
  \<open>RegistryRace\<close> shows what remains of this when registrations overlap.
\<close>

theorem issuer_pinned:
  assumes "reg_run W cfg st st'" "issuer_of f st = Some p"
  shows "issuer_of f st' = Some p \<and> log_grows (rg_log st) (rg_log st')"
  using run_issuer [OF assms] run_grows [OF assms(1)] by blast

text \<open>
  C5: in every state reached from an empty database, whatever the requests, the clocks and the
  failures of the disk, each primary key names at most one row, and each stored beacon event is
  backed by the transparency log: the entry at its index hashes exactly the event it reports.
\<close>

theorem events_backed_by_log:
  assumes "rg_tables st = empty_tables" "reg_run W cfg st st'"
  shows "(e \<in> set (t_events (rg_tables st')) \<longrightarrow>
       (\<exists>i ev. ev_index e = Some i \<and> event_entry e ev \<and> logged_at (rg_log st') i ev))
    \<and> unique_keys bc_token (t_beacons (rg_tables st')) \<and> unique_keys wm_key (t_watermarks (rg_tables st'))
    \<and> unique_keys mf_file (t_manifests (rg_tables st')) \<and> unique_keys cp_key (t_corpus (rg_tables st'))"
proof -
  have "reg_inv st" using assms(1) by (simp add: reg_inv_def empty_tables_def)
  then have "reg_inv st'" using reg_run_inv [OF assms(2)] by blast
  then show ?thesis by (auto simp: reg_inv_def list_all_iff backed_def)
qed

text \<open>
  C6: a registration that returns was authorised, its manifest verifies under the issuer key it
  names, the beacons and watermarks of the request are those the issuer signed, the file was free
  or held by the same key, it now is held by that key, and the log has at the returned index the
  entry of this very registration: the file, the recipient and the issuer of the request's manifest,
  the key the signature verified under, how many beacons and watermarks were signed, and the time.
  (The request runs alone, see \<open>RegistryRace\<close>.)
\<close>

theorem register_sound:
  assumes "register W cfg mo req r st = (st', Inr reply)" "json_ok (PDict (rq_manifest req))"
  shows "\<exists>bytes mf f p sb sw rid idx. require_operator_auth cfg r = Inr ()
    \<and> jcs_dumps (PDict (rq_manifest req)) = Inr bytes \<and> from_json bytes = Inr mf
    \<and> verify (w_ops W) mf = Inr True \<and> m_file_id mf = canon (dgetn (rq_manifest req) ''file_id'')
    \<and> sql_text (dgetn (rq_manifest req) ''file_id'') = Inr (Some f)
    \<and> m_issuer_ed25519_pub mf = PStr p \<and> issuer_of f st \<in> {None, Some p} \<and> issuer_of f st' = Some p
    \<and> py_iter (or_else (dgetn (rq_manifest req) ''beacons'') (PList [])) = Inr sb
    \<and> canonical_items (map PDict (rq_beacons req)) = canonical_items sb
    \<and> py_iter (or_else (dgetn (rq_manifest req) ''watermarks'') (PList [])) = Inr sw
    \<and> canonical_items (map PDict (rq_watermarks req)) = canonical_items sw
    \<and> py_get (or_else (dgetn (rq_manifest req) ''recipient'') (PDict [])) ''recipient_id'' (str_val ''unknown'') = Inr rid
    \<and> dget reply ''tlog_index'' = Some (PInt idx)
    \<and> logged_at (rg_log st') idx
        [(key ''event'', str_val ''register''), (key ''file_id'', dgetn (rq_manifest req) ''file_id''),
         (key ''recipient_id'', rid), (key ''issuer_id'', dgetd (rq_manifest req) ''issuer_id'' (str_val ''unknown'')),
         (key ''issuer_pub'', PStr p), (key ''n_beacons'', PInt (int (length sb))),
         (key ''n_watermarks'', PInt (int (length sw))), (key ''timestamp'', PStr (mo_stamp mo))]"
proof -
  obtain c idx where c: "require_operator_auth cfg r = Inr ()" "check_registration (w_ops W) req = Inr c"
    and l: "append_tlog (mo_io mo) (register_event c (mo_stamp mo)) (rg_log st) = (rg_log st', Inr idx)"
    and rep: "register_reply W cfg mo (rg_identity st) req c idx = Inr reply"
    using register_okE [OF assms(1)] by metis
  obtain bytes mf where m: "jcs_dumps (PDict (rq_manifest req)) = Inr bytes" "from_json bytes = Inr mf"
    "verify (w_ops W) mf = Inr True" "ck_pub c = m_issuer_ed25519_pub mf"
    "ck_file c = dgetn (rq_manifest req) ''file_id''"
    "signed_registration_artifacts (rq_manifest req) (rq_beacons req) (rq_watermarks req)
       = Inr (ck_beacons c, ck_watermarks c)"
    using check_registration_okE [OF c(2)] by metis
  have pub: "\<exists>p. ck_pub c = PStr p" using m(3,4)
    by (auto simp: verify_def py_fromhex_def ebind_eq_Inr split: if_splits pyval.splits)
  obtain f row where f: "sql_text (ck_file c) = Inr (Some f)"
    "select_row mf_file f (t_manifests (rg_tables st')) = Some row"
    "sql_text (ck_pub c) = Inr (Some (mf_pub row))"
    and old: "\<And>old. select_row mf_file f (t_manifests (rg_tables st)) = Some old \<Longrightarrow> PStr (mf_pub old) = ck_pub c"
    by (rule register_stores [OF assms(1)]) (use c(2) in auto)
  then have p: "ck_pub c = PStr (mf_pub row)"
    using pub by (auto simp: sql_text_def split: if_splits)
  have "issuer_of f st \<in> {None, Some (mf_pub row)}"
    using old p by (cases "select_row mf_file f (t_manifests (rg_tables st))") (auto simp: issuer_of_def)
  moreover have "logged_at (rg_log st') idx (register_event c (mo_stamp mo))"
    using append_tlog_effect [OF l] by blast
  note this [unfolded register_event_def m(5) check_registration_ids(2) [OF c(2)] p]
  moreover have "dget reply ''tlog_index'' = Some (PInt idx)"
    using rep by (auto simp: register_reply_def ebind_eq_Inr Let_def)
  moreover have "m_file_id mf = canon (dgetn (rq_manifest req) ''file_id'')"
    using parsed_file_id [OF assms(2) m(1,2)] by blast
  moreover have "issuer_of f st' = Some (mf_pub row)" using f(2) by (simp add: issuer_of_def)
  ultimately show ?thesis
    using c(1) m f(1) p signed_artifactsD(1-3,5) [OF m(6)] check_registration_ids(1) [OF c(2)]
    by (intro exI [of _ bytes] exI [of _ mf] exI [of _ f] exI [of _ "mf_pub row"] exI [of _ "ck_beacons c"]
        exI [of _ "ck_watermarks c"] exI [of _ "ck_recipient_id c"] exI [of _ idx]) simp
qed

end
