(* ===== verification/RegistryHonest.thy ===== *)
theory RegistryHonest
  imports RegistryProps
begin

text \<open>
  The registry does not only refuse: a manifest its issuer signed, sent with the sidecars it
  carries, is registered (\<open>register\<close> of \<open>src/registry/server.py\<close> composed with \<open>sign\<close> of
  \<open>src/oversight_core/manifest.py\<close>).
\<close>

section \<open>An honest request\<close>

text \<open>The request a client makes of a signed manifest: its JSON object and its own sidecars.\<close>

definition sidecars :: "pyval \<Rightarrow> pydict list" where
  "sidecars v = (case v of PList xs \<Rightarrow> map (\<lambda>x. case x of PDict d \<Rightarrow> d | _ \<Rightarrow> []) xs | _ \<Rightarrow> [])"

definition honest_request :: "manifest \<Rightarrow> registration" where
  "honest_request m =
     (let d = (case clean (PDict (asdict m)) of PDict d \<Rightarrow> d | _ \<Rightarrow> []) in
      \<lparr>rq_manifest = d, rq_beacons = sidecars (dgetn d ''beacons''),
       rq_watermarks = sidecars (dgetn d ''watermarks''), rq_corpus = None\<rparr>)"

text \<open>
  What the program's own seal path writes: text for the identifiers, and a token and a kind for
  each beacon.
\<close>

definition honest_beacon :: "pyval \<Rightarrow> bool" where
  "honest_beacon v = (case v of PDict d \<Rightarrow>
     (\<exists>k n. dget d ''token_id'' = Some (PStr k) \<and> dget d ''kind'' = Some (PStr n)) | _ \<Rightarrow> False)"

lemma honest_beacon_dict: "honest_beacon v \<Longrightarrow> is_dict v"
  by (cases v) (simp_all add: honest_beacon_def is_dict_def)

definition honest :: "manifest \<Rightarrow> bool" where
  "honest m \<longleftrightarrow> manifest_ok m
     \<and> (\<exists>f i p s. m_file_id m = PStr f \<and> f \<noteq> [] \<and> m_issuer_id m = PStr i
          \<and> m_issuer_ed25519_pub m = PStr p \<and> p \<noteq> [] \<and> m_signature_ed25519 m = PStr s)
     \<and> (\<exists>r i x. m_recipient m = Some r \<and> r_recipient_id r = PStr i \<and> r_x25519_pub r = PStr x)
     \<and> (\<exists>bs. m_beacons m = PList bs \<and> list_all honest_beacon bs)
     \<and> list_all (\<lambda>w. \<exists>l i. w_layer w = PStr l \<and> w_mark_id w = PStr i) (m_watermarks m)"

lemma clean_get:
  assumes "distinct (map fst d)" "clean (PDict d) = PDict d'" "dget d k = Some v" "v \<noteq> PNone"
  shows "dget d' k = Some (clean v)"
  using clean_dict_get(1) [OF assms(1,2), of k] assms(3,4) by simp

lemma json_ok_list: "json_ok (PList xs) \<longleftrightarrow> list_all json_ok xs"
  by (simp add: list_all_iff)

lemma json_ok_get: "json_ok (PDict d) \<Longrightarrow> dget d k = Some v \<Longrightarrow> json_ok v"
  by (auto simp: dget_def list_all_iff dest!: map_of_SomeD)

lemma json_ok_PStr: "json_ok (PStr s) \<longleftrightarrow> scalar_str s"
  by simp

lemma canonical_items_ok: "list_all json_ok xs \<Longrightarrow> is_ok (canonical_items xs)"
proof -
  assume xs: "list_all json_ok xs"
  have "is_ok (ebind (jcs_dumps x) utf8_decode)" if "x \<in> set xs" for x
    using xs that by (auto simp: list_all_iff intro: jcs_dumps_ok elim!: jcs_dumps_ok [of x])
  then have "is_ok (mapM_res (\<lambda>i. ebind (jcs_dumps i) utf8_decode) xs)" by (rule mapM_res_all_ok)
  then show ?thesis by (auto simp: canonical_items_def is_ok_ex)
qed

text \<open>Cleaning keeps a list of objects a list of objects.\<close>

lemma sidecars_clean:
  assumes "list_all is_dict xs"
  shows "map PDict (sidecars (clean (PList xs))) = map clean xs"
proof -
  have "PDict (case clean x of PDict d \<Rightarrow> d | _ \<Rightarrow> []) = clean x" if x: "x \<in> set xs" for x
  proof -
    obtain d where "x = PDict d" using assms x by (auto simp: list_all_iff is_dict_iff)
    then obtain d' where "clean x = PDict d'" using clean_PDict by blast
    then show ?thesis by simp
  qed
  then show ?thesis by (simp add: sidecars_def o_def)
qed

lemma py_iter_or_else: "py_iter (or_else (PList xs) (PList [])) = Inr xs"
  by (simp add: or_else_def truthy_def)

text \<open>The fields of the request of an honest manifest.\<close>

lemma honest_fields:
  assumes "honest m"
  obtains d rd bs where "clean (PDict (asdict m)) = PDict d" "json_ok (PDict d)"
    "dget d ''file_id'' = Some (m_file_id m)" "dget d ''issuer_id'' = Some (m_issuer_id m)"
    "dget d ''recipient'' = Some (PDict rd)" "rd \<noteq> []"
    "\<exists>r i x. m_recipient m = Some r \<and> r_recipient_id r = PStr i \<and> dget rd ''recipient_id'' = Some (PStr i)
       \<and> dget rd ''x25519_pub'' = Some (PStr x)"
    "m_beacons m = PList bs" "dgetn d ''beacons'' = PList (map clean bs)" "list_all honest_beacon bs"
    "dgetn d ''watermarks'' = PList (map (\<lambda>w. clean (PDict (watermark_dict w))) (m_watermarks m))"
proof -
  obtain d where d: "clean (PDict (asdict m)) = PDict d" using clean_PDict by blast
  have ok: "manifest_ok m" using assms by (simp add: honest_def)
  have jd: "json_ok (PDict d)" using json_ok_clean [OF manifest_ok_json [OF ok]] d by simp
  obtain f i where fi: "m_file_id m = PStr f" "m_issuer_id m = PStr i" using assms by (auto simp: honest_def)
  obtain r ri x where r: "m_recipient m = Some r" "r_recipient_id r = PStr ri" "r_x25519_pub r = PStr x"
    using assms by (auto simp: honest_def)
  obtain bs where bs: "m_beacons m = PList bs" "list_all honest_beacon bs" using assms by (auto simp: honest_def)
  obtain rd where rd: "clean (PDict (recipient_dict r)) = PDict rd" using clean_PDict by blast
  note get = clean_get [OF distinct_fields(1) d]
  have "dget rd ''recipient_id'' = Some (PStr ri)" "dget rd ''x25519_pub'' = Some (PStr x)"
    using clean_get [OF distinct_fields(2) rd, of "''recipient_id''" "PStr ri"]
      clean_get [OF distinct_fields(2) rd, of "''x25519_pub''" "PStr x"] r by (simp_all add: recipient_dict_def)
  moreover from this have "rd \<noteq> []" by auto
  moreover have "dget d ''file_id'' = Some (m_file_id m)" "dget d ''issuer_id'' = Some (m_issuer_id m)"
    using get [of "''file_id''" "PStr f"] get [of "''issuer_id''" "PStr i"] fi by (simp_all add: asdict_def)
  moreover have "dget d ''recipient'' = Some (PDict rd)"
    using get [of "''recipient''" "PDict (recipient_dict r)"] rd r(1) by (simp add: asdict_def)
  moreover have "dgetn d ''beacons'' = PList (map clean bs)"
    using get [of "''beacons''" "PList bs"] bs(1) by (simp add: asdict_def dgetn_def dgetd_def)
  moreover have "dgetn d ''watermarks'' = PList (map (\<lambda>w. clean (PDict (watermark_dict w))) (m_watermarks m))"
    using get [of "''watermarks''" "PList (map (\<lambda>w. PDict (watermark_dict w)) (m_watermarks m))"]
    by (simp add: asdict_def dgetn_def dgetd_def o_def)
  ultimately show thesis using that d jd r(1,2) bs by blast
qed

lemma json_ok_getn: "json_ok (PDict d) \<Longrightarrow> json_ok (dgetn d k)"
  by (cases "dget d k") (simp_all add: dgetn_def dgetd_def json_ok_get del: json_ok.simps(6))

lemma honest_signature:
  assumes "honest m" "verify C m = Inr True" "clean (PDict (asdict m)) = PDict d"
  shows "verify_manifest_signature C d = Inr (True, m_issuer_ed25519_pub m)"
proof -
  have ok: "manifest_ok m" using assms(1) by (simp add: honest_def)
  obtain p s where ps: "m_issuer_ed25519_pub m = PStr p" "m_signature_ed25519 m = PStr s"
    using assms(1) by (auto simp: honest_def)
  have jd: "json_ok (PDict d)" using json_ok_clean [OF manifest_ok_json [OF ok]] assms(3) by simp
  then obtain bytes where b: "jcs_dumps (PDict d) = Inr bytes" by (rule jcs_dumps_ok)
  have "canon (PDict d) = PDict d" using assms(3) canon_idem by (metis clean_def)
  then have "from_json bytes = Inr (norm_manifest m)"
    using loads_jcs [OF jd b] from_dict_clean [OF ok assms(3)] by (simp add: from_json_def)
  moreover have "verify C (norm_manifest m) = Inr True"
    using verify_norm [OF ok ps(2,1)] assms(2) by simp
  ultimately show ?thesis
    using b ps(1) by (simp add: verify_manifest_signature_def norm_manifest_def)
qed

text \<open>The checks pass, and this is what they hand on.\<close>

lemma sidecars_match:
  assumes "list_all is_dict xs" "list_all json_ok (map clean xs)"
  shows "\<exists>k. canonical_items (map PDict (sidecars (PList (map clean xs)))) = Inr k
    \<and> canonical_items (map clean xs) = Inr k"
proof -
  have "map PDict (sidecars (PList (map clean xs))) = map clean xs"
    using sidecars_clean [OF assms(1)] by simp
  then show ?thesis using canonical_items_ok [OF assms(2)] by (auto simp: is_ok_ex)
qed

lemma honest_checked:
  assumes "honest m" "verify C m = Inr True"
  obtains c d rd bs where "check_registration C (honest_request m) = Inr c" "rq_manifest (honest_request m) = d"
    "json_ok (PDict d)" "ck_file c = m_file_id m" "ck_issuer_id c = m_issuer_id m"
    "ck_pub c = m_issuer_ed25519_pub m" "ck_recipient c = PDict rd"
    "\<exists>r i x. m_recipient m = Some r \<and> r_recipient_id r = PStr i \<and> ck_recipient_id c = PStr i
       \<and> dget rd ''x25519_pub'' = Some (PStr x) \<and> scalar_str i"
    "m_beacons m = PList bs" "ck_beacons c = map clean bs" "list_all honest_beacon bs"
    "ck_watermarks c = map (\<lambda>w. clean (PDict (watermark_dict w))) (m_watermarks m)"
proof -
  obtain d rd bs where d: "clean (PDict (asdict m)) = PDict d" "json_ok (PDict d)"
    and fi: "dget d ''file_id'' = Some (m_file_id m)" "dget d ''issuer_id'' = Some (m_issuer_id m)"
    and rd: "dget d ''recipient'' = Some (PDict rd)" "rd \<noteq> []"
    and r: "\<exists>r i x. m_recipient m = Some r \<and> r_recipient_id r = PStr i \<and> dget rd ''recipient_id'' = Some (PStr i)
       \<and> dget rd ''x25519_pub'' = Some (PStr x)"
    and bs: "m_beacons m = PList bs" "dgetn d ''beacons'' = PList (map clean bs)" "list_all honest_beacon bs"
    and ws: "dgetn d ''watermarks'' = PList (map (\<lambda>w. clean (PDict (watermark_dict w))) (m_watermarks m))"
    using honest_fields [OF assms(1)] by metis
  let ?ws = "map (\<lambda>w. PDict (watermark_dict w)) (m_watermarks m)"
  have ws': "dgetn d ''watermarks'' = PList (map clean ?ws)" using ws by (simp add: o_def)
  have "list_all is_dict bs" using bs(3) honest_beacon_dict by (auto simp: list_all_iff)
  then obtain kb where kb: "canonical_items (map PDict (sidecars (PList (map clean bs)))) = Inr kb"
    "canonical_items (map clean bs) = Inr kb"
    using sidecars_match json_ok_getn [OF d(2), of "''beacons''"] bs(2) by auto
  have "list_all is_dict ?ws" by (simp add: list_all_iff is_dict_iff)
  then obtain kw where kw: "canonical_items (map PDict (sidecars (PList (map clean ?ws)))) = Inr kw"
    "canonical_items (map clean ?ws) = Inr kw"
    using sidecars_match [of ?ws] json_ok_getn [OF d(2), of "''watermarks''"] ws' by auto
  have req: "honest_request m = \<lparr>rq_manifest = d, rq_beacons = sidecars (PList (map clean bs)),
      rq_watermarks = sidecars (PList (map clean ?ws)), rq_corpus = None\<rparr>"
    using d(1) bs(2) ws' by (simp add: honest_request_def)
  obtain i x where i: "dget rd ''recipient_id'' = Some (PStr i)" using r by blast
  have "json_ok (PDict rd)" using json_ok_get [OF d(2) rd(1)] .
  then have "scalar_str i" using json_ok_get [OF _ i] json_ok_PStr by blast
  obtain f p where fp: "m_file_id m = PStr f" "f \<noteq> []" "m_issuer_ed25519_pub m = PStr p" "p \<noteq> []"
    using assms(1) by (auto simp: honest_def)
  let ?c = "\<lparr>ck_file = m_file_id m, ck_recipient = PDict rd, ck_recipient_id = PStr i,
     ck_issuer_id = m_issuer_id m, ck_pub = m_issuer_ed25519_pub m, ck_beacons = map clean bs,
     ck_watermarks = map clean ?ws\<rparr>"
  have "signed_registration_artifacts d (sidecars (PList (map clean bs))) (sidecars (PList (map clean ?ws)))
      = Inr (map clean bs, map clean ?ws)"
    unfolding signed_registration_artifacts_def bs(2) ws' py_iter_or_else by (simp add: kb kw del: map_map)
  then have "check_registration C (honest_request m) = Inr ?c"
    using rd i fi fp honest_signature [OF assms d(1)]
    by (simp add: req check_registration_def Let_def dgetn_def dgetd_def or_else_def truthy_def py_get_def)
  then show thesis
    by (rule that [where d = d]) (use req d(2) bs r i \<open>scalar_str i\<close> in \<open>auto simp: o_def\<close>)
qed

section \<open>The transaction commits\<close>

lemma foldM_res_ok: "(\<And>x s. x \<in> set xs \<Longrightarrow> is_ok (f x s)) \<Longrightarrow> is_ok (foldM_res f xs s)"
proof (induction xs arbitrary: s)
  case (Cons x xs)
  then obtain s1 where "f x s = Inr s1" by (meson is_ok_ex list.set_intros(1))
  then show ?case using Cons by simp
qed simp

text \<open>The columns that are the same in every row of the registration.\<close>

definition bindable :: "checked \<Rightarrow> bool" where
  "bindable c \<longleftrightarrow> (\<exists>f r i p. sql_text (ck_file c) = Inr (Some f) \<and> sql_text (ck_recipient_id c) = Inr (Some r)
     \<and> sql_text (ck_issuer_id c) = Inr (Some i) \<and> sql_text (ck_pub c) = Inr (Some p))"

lemma clean_text_get:
  assumes "json_ok (PDict e)" "clean (PDict e) = PDict e'" "dget e k = Some (PStr s)"
  shows "py_item (PDict e') k = Inr (PStr s) \<and> scalar_str s"
proof -
  have "dget e' k = Some (clean (PStr s))"
    by (rule clean_get [OF json_ok_distinct [OF assms(1)] assms(2,3)]) simp
  moreover have "scalar_str s" using json_ok_get [OF assms(1,3)] by simp
  ultimately show ?thesis by (simp add: py_item_def ditem_def)
qed

lemma insert_beacon_ok:
  assumes "honest_beacon b" "json_ok b" "bindable c"
  shows "is_ok (insert_beacon c now (clean b) t)"
proof -
  obtain e where e: "b = PDict e" using honest_beacon_dict [OF assms(1)] by (auto simp: is_dict_iff)
  then obtain k n where kn: "dget e ''token_id'' = Some (PStr k)" "dget e ''kind'' = Some (PStr n)"
    using assms(1) by (auto simp: honest_beacon_def)
  obtain e' where e': "clean (PDict e) = PDict e'" using clean_PDict by blast
  have "json_ok (PDict e)" using assms(2) e by simp
  note g = clean_text_get [OF this e' kn(1)] clean_text_get [OF this e' kn(2)]
  show ?thesis using assms(3) g e e' by (auto simp: bindable_def insert_beacon_def is_ok_ex)
qed

lemma insert_watermark_ok:
  assumes "w_layer w = PStr l" "w_mark_id w = PStr i" "json_ok (PDict (watermark_dict w))" "bindable c"
  shows "is_ok (insert_watermark c now (clean (PDict (watermark_dict w))) t)"
proof -
  obtain e' where e': "clean (PDict (watermark_dict w)) = PDict e'" using clean_PDict by blast
  have "dget (watermark_dict w) ''layer'' = Some (PStr l)" "dget (watermark_dict w) ''mark_id'' = Some (PStr i)"
    using assms(1,2) by (simp_all add: watermark_dict_def)
  note g = clean_text_get [OF assms(3) e' this(1)] clean_text_get [OF assms(3) e' this(2)]
  show ?thesis using assms(4) g e' by (auto simp: bindable_def insert_watermark_def is_ok_ex)
qed

lemma honest_bindable:
  assumes "honest m" "ck_file c = m_file_id m" "ck_issuer_id c = m_issuer_id m" "ck_pub c = m_issuer_ed25519_pub m"
    and "ck_recipient_id c = PStr i" "scalar_str i"
  shows "bindable c"
proof -
  have "json_ok (PDict (asdict m))" using assms(1) manifest_ok_json by (simp add: honest_def)
  from json_ok_get [OF this, of "''file_id''" "m_file_id m"] json_ok_get [OF this, of "''issuer_id''" "m_issuer_id m"]
    json_ok_get [OF this, of "''issuer_ed25519_pub''" "m_issuer_ed25519_pub m"]
  have "json_ok (m_file_id m)" "json_ok (m_issuer_id m)" "json_ok (m_issuer_ed25519_pub m)"
    by (simp_all add: asdict_def)
  then show ?thesis using assms by (auto simp: honest_def bindable_def sql_text_def)
qed

lemma honest_rows:
  assumes "honest m" "rq_manifest req = d" "json_ok (PDict d)" "rq_corpus req = None" "bindable c"
    "m_beacons m = PList bs" "ck_beacons c = map clean bs" "list_all honest_beacon bs"
    "ck_watermarks c = map (\<lambda>w. clean (PDict (watermark_dict w))) (m_watermarks m)"
  shows "is_ok (store_rows W req c now t)"
proof -
  have ok: "json_ok (PDict (asdict m))" using assms(1) manifest_ok_json by (simp add: honest_def)
  obtain j where j: "json_dumps (PDict d) = Inr j" using json_dumps_ok [OF assms(3)] by blast
  obtain f r i p where c: "sql_text (ck_file c) = Inr (Some f)" "sql_text (ck_recipient_id c) = Inr (Some r)"
    "sql_text (ck_issuer_id c) = Inr (Some i)" "sql_text (ck_pub c) = Inr (Some p)"
    using assms(5) by (auto simp: bindable_def)
  obtain t1 where t1: "insert_manifest c (rq_manifest req) now t = Inr t1"
    using c j assms(2) by (simp add: insert_manifest_def)
  have "json_ok (PList bs)" using json_ok_get [OF ok, of "''beacons''"] assms(6) by (simp add: asdict_def)
  then have "is_ok (foldM_res (insert_beacon c now) (ck_beacons c) t1)"
    unfolding assms(7) using assms(8) by (intro foldM_res_ok) (auto simp: list_all_iff intro!: insert_beacon_ok assms(5))
  then obtain t2 where t2: "foldM_res (insert_beacon c now) (ck_beacons c) t1 = Inr t2" by (auto simp: is_ok_ex)
  have "json_ok (PList (map (\<lambda>w. PDict (watermark_dict w)) (m_watermarks m)))"
    using json_ok_get [OF ok, of "''watermarks''"] by (simp add: asdict_def del: json_ok.simps)
  then have jw: "json_ok (PDict (watermark_dict w))" if "w \<in> set (m_watermarks m)" for w
    using that by (simp add: list_all_iff del: json_ok.simps(6))
  have "is_ok (insert_watermark c now (clean (PDict (watermark_dict w))) s)" if w: "w \<in> set (m_watermarks m)" for w s
  proof -
    obtain l i where "w_layer w = PStr l" "w_mark_id w = PStr i"
      using assms(1) w by (auto simp: honest_def list_all_iff)
    then show ?thesis by (rule insert_watermark_ok [OF _ _ jw [OF w] assms(5)])
  qed
  then have "is_ok (foldM_res (insert_watermark c now) (ck_watermarks c) t2)"
    unfolding assms(9) by (intro foldM_res_ok) auto
  then obtain t3 where t3: "foldM_res (insert_watermark c now) (ck_watermarks c) t2 = Inr t3" by (auto simp: is_ok_ex)
  then show ?thesis using c(1) t1 t2 assms(4) by (simp add: store_rows_def)
qed

lemma pin_check_ok:
  assumes "bindable c" "\<And>f row. sql_text (ck_file c) = Inr (Some f) \<Longrightarrow> select_row mf_file f (t_manifests t) = Some row
       \<Longrightarrow> PStr (mf_pub row) = ck_pub c"
  shows "pin_check c t = Inr ()"
  using assms by (auto simp: bindable_def pin_check_def select_where_def Let_def split: option.split)

lemma append_event_ok:
  assumes "json_ok (PDict ev)"
  shows "\<exists>t'. append_tlog None ev (Some t) = (Some t', Inr (int (length (leaves t))))"
proof -
  obtain lb where "leaf_bytes_of (PDict ev) = Inr lb"
    using jcs_dumps_ok [OF assms] by (auto simp: leaf_bytes_of_def)
  then obtain t' where "tlog_append None (PDict ev) t = (t', Inr (length (leaves t)))"
    using append_cases [of "PDict ev" lb t] by blast
  then show ?thesis by (simp add: append_tlog_def)
qed

lemma py_get_dict [simp]: "py_get (PDict d) k v = Inr (dgetd d k v)"
  by (simp add: py_get_def)

lemma first_mark_ok: "list_all is_dict ws \<Longrightarrow> is_ok (first_mark ws d)"
  by (induction ws) (auto simp: is_dict_iff)

lemma register_reply_ok:
  assumes "ck_recipient c = PDict rd" "list_all is_dict (ck_watermarks c)"
  shows "is_ok (register_reply W cfg mo ident req c idx)"
  using first_mark_ok [OF assms(2), of "ck_file c"] assms(1)
  by (auto simp: register_reply_def is_ok_ex Let_def)

lemma honest_commits:
  assumes "honest m" "verify (w_ops W) m = Inr True" "scalar_str (mo_stamp mo)"
    and "\<And>f. m_file_id m = PStr f \<Longrightarrow> issuer_of f st = None \<or> map_option PStr (issuer_of f st) = Some (m_issuer_ed25519_pub m)"
  obtains c t1 where "check_registration (w_ops W) (honest_request m) = Inr c"
    "store_registration W (honest_request m) c (mo_time mo) (rg_tables st) = Inr t1"
    "json_ok (PDict (register_event c (mo_stamp mo)))"
    "\<And>idx. is_ok (register_reply W cfg mo (rg_identity st) (honest_request m) c idx)"
proof -
  obtain c d rd bs where c: "check_registration (w_ops W) (honest_request m) = Inr c"
    "rq_manifest (honest_request m) = d" "json_ok (PDict d)" "ck_file c = m_file_id m" "ck_issuer_id c = m_issuer_id m"
    "ck_pub c = m_issuer_ed25519_pub m" "ck_recipient c = PDict rd"
    and rid: "\<exists>r i x. m_recipient m = Some r \<and> r_recipient_id r = PStr i \<and> ck_recipient_id c = PStr i
       \<and> dget rd ''x25519_pub'' = Some (PStr x) \<and> scalar_str i"
    and bs: "m_beacons m = PList bs" "ck_beacons c = map clean bs" "list_all honest_beacon bs"
    and ws: "ck_watermarks c = map (\<lambda>w. clean (PDict (watermark_dict w))) (m_watermarks m)"
    by (rule honest_checked [OF assms(1,2)])
  obtain i where i: "ck_recipient_id c = PStr i" "scalar_str i" using rid by blast
  have b: "bindable c" by (rule honest_bindable [OF assms(1) c(4-6) i])
  obtain f p where fp: "m_file_id m = PStr f" "m_issuer_ed25519_pub m = PStr p" using assms(1) by (auto simp: honest_def)
  have free: "PStr (mf_pub row) = ck_pub c"
    if g: "sql_text (ck_file c) = Inr (Some g)" "select_row mf_file g (t_manifests (rg_tables st)) = Some row" for g row
  proof -
    have "g = f" using g(1) c(4) fp(1) by (auto simp: sql_text_def split: if_splits)
    then show ?thesis using assms(4) [OF fp(1)] g(2) c(6) by (simp add: issuer_of_def)
  qed
  have "rq_corpus (honest_request m) = None" by (simp add: honest_request_def Let_def)
  then have "is_ok (store_rows W (honest_request m) c (mo_time mo) (rg_tables st))"
    by (rule honest_rows [OF assms(1) c(2,3) _ b bs ws])
  then have "is_ok (store_registration W (honest_request m) c (mo_time mo) (rg_tables st))"
    using pin_check_ok [OF b free] by (simp add: store_registration_def)
  then obtain t1 where t1: "store_registration W (honest_request m) c (mo_time mo) (rg_tables st) = Inr t1"
    by (auto simp: is_ok_ex)
  have "json_ok (ck_file c)" "json_ok (ck_issuer_id c)" "json_ok (ck_pub c)"
    using b by (auto simp: bindable_def sql_text_def c fp split: pyval.splits if_splits)
  then have "json_ok (PDict (register_event c (mo_stamp mo)))"
    using i assms(3) by (simp add: register_event_def str_val_def)
  moreover have "list_all is_dict (ck_watermarks c)"
    unfolding ws using clean_PDict by (fastforce simp: list_all_iff is_dict_iff)
  ultimately show thesis using that c(1) t1 register_reply_ok [OF c(7)] by blast
qed

lemma honest_registers:
  assumes "honest m" "verify (w_ops W) m = Inr True" "require_operator_auth cfg r = Inr ()"
    and "snd (rate_limit (cf_trusted_proxy cfg) (mo_mono mo) r (rg_bucket st)) = Inr ()"
    and "rg_log st = Some t" "mo_io mo = None" "scalar_str (mo_stamp mo)"
    and "\<And>f. m_file_id m = PStr f \<Longrightarrow> issuer_of f st = None \<or> map_option PStr (issuer_of f st) = Some (m_issuer_ed25519_pub m)"
  shows "\<exists>st' reply. register W cfg mo (honest_request m) r st = (st', Inr reply)
    \<and> dget reply ''tlog_index'' = Some (PInt (int (length (leaves t))))"
proof -
  obtain c t1 where c: "check_registration (w_ops W) (honest_request m) = Inr c"
    "store_registration W (honest_request m) c (mo_time mo) (rg_tables st) = Inr t1"
    "json_ok (PDict (register_event c (mo_stamp mo)))"
    "\<And>idx. is_ok (register_reply W cfg mo (rg_identity st) (honest_request m) c idx)"
    by (rule honest_commits [OF assms(1,2,7,8), where cfg = cfg], assumption) (rule that)
  obtain t2 where t2: "append_tlog None (register_event c (mo_stamp mo)) (Some t) = (Some t2, Inr (int (length (leaves t))))"
    using append_event_ok [OF c(3)] by blast
  obtain reply where reply: "register_reply W cfg mo (rg_identity st) (honest_request m) c (int (length (leaves t))) = Inr reply"
    using c(4) by (metis is_ok_ex)
  obtain bk where bk: "rate_limit (cf_trusted_proxy cfg) (mo_mono mo) r (rg_bucket st) = (bk, Inr ())"
    using assms(4) by (metis prod.collapse)
  have "dget reply ''tlog_index'' = Some (PInt (int (length (leaves t))))"
    using reply by (auto simp: register_reply_def ebind_eq_Inr Let_def)
  then show ?thesis using assms(3,5,6) bk c(1,2) t2 reply by (simp add: register_def)
qed

lemma honest_registered:
  assumes "honest m" "verify (w_ops W) m = Inr True" "require_operator_auth cfg r = Inr ()"
    and "snd (rate_limit (cf_trusted_proxy cfg) (mo_mono mo) r (rg_bucket st)) = Inr ()"
    and "rg_log st = Some t" "mo_io mo = None" "scalar_str (mo_stamp mo)"
    and "m_file_id m = PStr f" "m_issuer_ed25519_pub m = PStr p" "issuer_of f st \<in> {None, Some p}"
  shows "\<exists>st' reply. register W cfg mo (honest_request m) r st = (st', Inr reply)
    \<and> issuer_of f st' = Some p \<and> dget reply ''tlog_index'' = Some (PInt (int (length (leaves t))))"
proof -
  have "\<And>g. m_file_id m = PStr g \<Longrightarrow> issuer_of g st = None \<or> map_option PStr (issuer_of g st) = Some (m_issuer_ed25519_pub m)"
    using assms(8-10) by auto
  then obtain st' reply where reg: "register W cfg mo (honest_request m) r st = (st', Inr reply)"
      "dget reply ''tlog_index'' = Some (PInt (int (length (leaves t))))"
    using honest_registers [OF assms(1-7)] by blast
  obtain c g row where c: "check_registration (w_ops W) (honest_request m) = Inr c" "sql_text (ck_file c) = Inr (Some g)"
      "select_row mf_file g (t_manifests (rg_tables st')) = Some row" "sql_text (ck_pub c) = Inr (Some (mf_pub row))"
    by (rule register_stores [OF reg(1)])
  obtain c0 where "check_registration (w_ops W) (honest_request m) = Inr c0" "ck_file c0 = PStr f" "ck_pub c0 = PStr p"
    by (rule honest_checked [OF assms(1,2)]) (use assms(8,9) in auto)
  then have "ck_file c = PStr f" "ck_pub c = PStr p" using c(1) by simp_all
  then show ?thesis using reg c(2-4) by (auto simp: sql_text_def issuer_of_def split: if_splits)
qed

text \<open>
  The transaction is committed before the entry is written to the log: when that write fails, the
  client is told of an error, and the registration is in force without an entry in the log's file.
\<close>

lemma register_commits_unlogged:
  assumes "honest m" "verify (w_ops W) m = Inr True" "require_operator_auth cfg r = Inr ()"
    and "snd (rate_limit (cf_trusted_proxy cfg) (mo_mono mo) r (rg_bucket st)) = Inr ()"
    and "rg_log st = Some t" "mo_io mo = Some 0" "scalar_str (mo_stamp mo)"
    and "m_file_id m = PStr f" "issuer_of f st = None"
  shows "\<exists>st' l. register W cfg mo (honest_request m) r st = (st', Inl (OSError ''write''))
    \<and> issuer_of f st' \<noteq> None \<and> rg_log st' = Some l \<and> file_text l = file_text t"
proof -
  have free: "issuer_of g st = None \<or> map_option PStr (issuer_of g st) = Some (m_issuer_ed25519_pub m)"
    if "m_file_id m = PStr g" for g using that assms(8,9) by simp
  obtain c t1 where c: "check_registration (w_ops W) (honest_request m) = Inr c"
    "store_registration W (honest_request m) c (mo_time mo) (rg_tables st) = Inr t1"
    "json_ok (PDict (register_event c (mo_stamp mo)))"
    by (rule honest_commits [OF assms(1,2,7) free]) auto
  obtain lb where "leaf_bytes_of (PDict (register_event c (mo_stamp mo))) = Inr lb"
    using jcs_dumps_ok [OF c(3)] by (auto simp: leaf_bytes_of_def)
  then obtain l where l: "tlog_append (Some 0) (PDict (register_event c (mo_stamp mo))) t = (l, Inl (OSError ''write''))"
    "file_text l = file_text t"
  proof (rule append_cases [where t = t])
    fix s
    assume "\<And>k. tlog_append (Some k) (PDict (register_event c (mo_stamp mo))) t
      = (t\<lparr>leaves := leaves t @ [tlog_h (0 # lb)], cached_root := None,
           leaves_file := Some (file_text t @ take k (s @ [10]))\<rparr>, Inl (OSError ''write''))"
    from this [of 0] show thesis by (rule that) (simp add: file_text_def)
  qed
  obtain bk where bk: "rate_limit (cf_trusted_proxy cfg) (mo_mono mo) r (rg_bucket st) = (bk, Inr ())"
    using assms(4) by (metis prod.collapse)
  have reg: "register W cfg mo (honest_request m) r st
      = (st\<lparr>rg_bucket := bk, rg_tables := t1, rg_log := Some l\<rparr>, Inl (OSError ''write''))"
    using assms(3,5,6) bk c(1,2) l(1) by (simp add: register_def append_tlog_def)
  have fc: "ck_file c = PStr f"
  proof -
    obtain d where d: "clean (PDict (asdict m)) = PDict d" "dget d ''file_id'' = Some (PStr f)"
      using honest_fields [OF assms(1)] assms(8) by metis
    show ?thesis
      by (rule check_registration_okE [OF c(1)]) (use d in \<open>simp add: honest_request_def dgetn_def dgetd_def\<close>)
  qed
  have "issuer_of f (st\<lparr>rg_bucket := bk, rg_tables := t1, rg_log := Some l\<rparr>) \<noteq> None"
    by (rule store_registration_effect [OF c(2)])
       (auto simp: issuer_of_def fc sql_text_def manifests.get_put split: if_splits)
  with reg l(2) show ?thesis by auto
qed

section \<open>The bound on identifiers\<close>

text \<open>
  The bound of the registry's specification (\<open>docs/spec/registry-v1.md\<close>): an identifier has at most
  256 bytes.
\<close>

definition id_fits :: "pyval \<Rightarrow> bool" where
  "id_fits v = (case v of
     PStr s \<Rightarrow> (case utf8_encode s of Inr b \<Rightarrow> length b \<le> 256 | Inl _ \<Rightarrow> False) | _ \<Rightarrow> False)"

definition ids_fit :: "manifest \<Rightarrow> bool" where
  "ids_fit m \<longleftrightarrow> id_fits (m_file_id m) \<and> id_fits (m_issuer_id m)
     \<and> (case m_recipient m of Some r \<Rightarrow> id_fits (r_recipient_id r) | None \<Rightarrow> True)
     \<and> list_all (\<lambda>w. id_fits (w_mark_id w)) (m_watermarks m)
     \<and> (case m_beacons m of
          PList bs \<Rightarrow> list_all (\<lambda>b. case b of PDict d \<Rightarrow> id_fits (dgetn d ''token_id'') | _ \<Rightarrow> False) bs
        | _ \<Rightarrow> True)"

section \<open>A sample\<close>

definition sample_world :: world where
  "sample_world = \<lparr>w_ops = toy_ops, w_pem = (\<lambda>_. []), w_pem_to_der = (\<lambda>_. Inr []),
     w_http = (\<lambda>_ _. HttpStatus 503), w_repr = (\<lambda>_. []), w_err = (\<lambda>_. []), w_pick = (\<lambda>_. 0)\<rparr>"

definition sample_config :: config where
  "sample_config = \<lparr>cf_trusted_proxy = False, cf_dns_secret = [], cf_operator_token = u ''s3cret'',
     cf_auth_disabled = False, cf_rekor_enabled = False, cf_rekor_url = [], cf_jurisdiction = u ''GLOBAL''\<rparr>"

definition sample_moment :: moment where
  "sample_moment = \<lparr>mo_mono = 0, mo_time = 1700000000, mo_stamp = u ''2023-11-14T22:13:20Z'', mo_io = None\<rparr>"

definition sample_request :: request where
  "sample_request = \<lparr>headers = [(''authorization'', u ''Bearer s3cret'')], client_host = Some (u ''192.0.2.1'')\<rparr>"

definition sample_registry :: registry where
  "sample_registry = \<lparr>rg_tables = empty_tables, rg_log = Some empty_tlog,
     rg_identity = Some [(key ''ed25519_priv'', PStr (hex (replicate 32 7))),
                         (key ''ed25519_pub'', PStr (hex (ed_pub toy_ops (replicate 32 7))))],
     rg_bucket = BUCKET\<rparr>"

definition sample_sealed :: manifest where
  "sample_sealed = (sample_manifest [1])\<lparr>
     m_beacons := PList [PDict [(key ''kind'', str_val ''dns''), (key ''token_id'', str_val ''t-1'')]],
     m_watermarks := [\<lparr>w_layer = str_val ''L1_zero_width'', w_mark_id = str_val ''ab01''\<rparr>]\<rparr>"

lemma sample_sealed_ok: "manifest_ok sample_sealed"
  unfolding manifest_ok_def asdict_json_ok asdict_non_null
  by (simp add: sample_sealed_def sample_manifest_def manifest_new_def sample_recipient_def recipient_dict_def
      watermark_dict_def str_val_def dset_def non_null_def truthy_def content_hash_def SUITE_CLASSIC_V1_def
      scalar_str_def [of "[]"])

lemma id_fits_ascii: "\<forall>c\<in>set s. c < 128 \<Longrightarrow> id_fits (PStr s) \<longleftrightarrow> length s \<le> 256"
  by (simp add: id_fits_def utf8_encode_ascii)

lemma sample_signed_as:
  assumes "f \<noteq> []" "scalar_str f"
  obtains m where "honest m" "verify toy_ops m = Inr True" "m_file_id m = PStr f"
    "m_beacons m = m_beacons sample_sealed" "m_issuer_ed25519_pub m = PStr (hex (replicate 32 b))"
    "ids_fit m \<longleftrightarrow> id_fits (PStr f)"
proof -
  let ?s = "sample_sealed\<lparr>m_file_id := PStr f, m_issuer_ed25519_pub := PStr (hex (replicate 32 b))\<rparr>"
  have k: "length (replicate 32 b) = 32" by simp
  have pub: "m_issuer_ed25519_pub ?s = PStr (hex (ed_pub toy_ops (replicate 32 b)))"
    by (simp add: toy_ops_def)
  have "manifest_ok ?s"
    using sample_sealed_ok assms(2) unfolding manifest_ok_def asdict_json_ok asdict_non_null by (simp add: non_null_def)
  then obtain m x where m: "manifest_ok m" "verify toy_ops m = Inr True" "m = ?s\<lparr>m_signature_ed25519 := PStr (hex x)\<rparr>"
    using sign_ok [OF _ toy_ops_correct(1) k pub] by blast
  have "hex (replicate 32 b) \<noteq> []"
    using hex_inject [of _ "[]"] by (simp flip: hex_Nil)
  then have "honest m"
    using m(1,3) assms(1) by (auto simp: honest_def sample_sealed_def sample_manifest_def manifest_new_def Let_def sample_recipient_def
        str_val_def honest_beacon_def)
  moreover have "id_fits (str_val ''issuer'')" "id_fits (str_val ''alice'')" "id_fits (str_val ''ab01'')" "id_fits (str_val ''t-1'')"
    by (simp_all add: str_val_def u_def id_fits_ascii)
  then have "ids_fit m \<longleftrightarrow> id_fits (PStr f)"
    unfolding m(3) by (simp add: ids_fit_def sample_sealed_def sample_manifest_def manifest_new_def Let_def sample_recipient_def
        dgetn_def dgetd_def)
  ultimately show thesis
    by (intro that [of m]) (use m pub in \<open>simp_all add: toy_ops_def\<close>)
qed

lemma sample_signed:
  obtains m where "honest m" "verify toy_ops m = Inr True" "m_file_id m = str_val ''f-1''"
    "m_beacons m = m_beacons sample_sealed" "m_issuer_ed25519_pub m = PStr (hex (replicate 32 7))" "ids_fit m"
proof -
  have "u ''f-1'' \<noteq> []" "id_fits (PStr (u ''f-1''))" by (simp_all add: u_def id_fits_ascii)
  moreover from this(1) obtain m where "honest m" "verify toy_ops m = Inr True" "m_file_id m = PStr (u ''f-1'')"
    "m_beacons m = m_beacons sample_sealed" "m_issuer_ed25519_pub m = PStr (hex (replicate 32 7))"
    "ids_fit m \<longleftrightarrow> id_fits (PStr (u ''f-1''))" by (rule sample_signed_as [OF _ scalar_str_u])
  ultimately show thesis by (intro that [of m]) (simp_all add: str_val_def)
qed

lemma sample_auth: "require_operator_auth sample_config sample_request = Inr ()"
  by (simp add: require_operator_auth_def sample_config_def sample_request_def bearer_or_header_token_def header_def
      prefixed_def u_def ascii_lower_def strip_def lstrip_def rstrip_def is_space_def compare_digest_def all_ascii_def)

lemma sample_rate: "snd (rate_limit False 0 r BUCKET) = Inr ()"
  by (simp add: rate_limit_def allow_def refilled_def BUCKET_def bucket_new_def)

lemma sample_register:
  obtains m st' reply where "honest m" "m_file_id m = str_val ''f-1''" "m_beacons m = m_beacons sample_sealed"
    "register sample_world sample_config sample_moment (honest_request m) sample_request sample_registry = (st', Inr reply)"
proof -
  obtain m where m: "honest m" "verify toy_ops m = Inr True" "m_file_id m = str_val ''f-1''"
    "m_beacons m = m_beacons sample_sealed" by (rule sample_signed)
  have "\<exists>st' reply. register sample_world sample_config sample_moment (honest_request m) sample_request sample_registry
      = (st', Inr reply) \<and> dget reply ''tlog_index'' = Some (PInt (int (length (leaves empty_tlog))))"
    by (rule honest_registers [OF m(1)])
       (use m sample_auth sample_rate in \<open>simp_all add: sample_world_def sample_moment_def sample_registry_def
          sample_config_def issuer_of_def empty_tables_def scalar_str_u\<close>)
  with m that show thesis by blast
qed

section \<open>Attribution\<close>

lemma attribute_token:
  assumes "require_operator_auth cfg r = Inr ()" "k \<noteq> []" "scalar_str k"
    and "select_row bc_token k (t_beacons (rg_tables st)) = Some row"
    and "select_row mf_file (bc_file row) (t_manifests (rg_tables st)) = Some mrow"
    and "json_loads (mf_json mrow) = Inr v"
  shows "attribute W cfg \<lparr>aq_token = Some k, aq_mark = None, aq_layer = None, aq_perceptual = None\<rparr> r st
    = Inr [(key ''found'', PBool True), (key ''file_id'', PStr (bc_file row)),
           (key ''recipient_id'', PStr (bc_recipient row)), (key ''issuer_id'', PStr (bc_issuer row)),
           (key ''manifest'', v),
           (key ''recent_events'', PList (map (\<lambda>e. PDict (recent_event e)) (recent_events (bc_file row) (rg_tables st))))]"
  using assms by (simp add: attribute_def find_owner_def given_def bound_def beacon_of_def opt_val_def)

lemma registered_beacon_found:
  assumes "register W cfg mo req r st = (st', Inr reply)" "json_ok (PDict (rq_manifest req))"
    and "dget (rq_manifest req) ''beacons'' = Some (PList bs)" "PDict b \<in> set bs"
    and "dget b ''token_id'' = Some (PStr k)" "k \<noteq> []" "require_operator_auth cfg r' = Inr ()"
  shows "\<exists>c f rid iid evs. check_registration (w_ops W) req = Inr c
    \<and> sql_text (ck_file c) = Inr (Some f) \<and> sql_text (ck_recipient_id c) = Inr (Some rid)
    \<and> sql_text (ck_issuer_id c) = Inr (Some iid)
    \<and> attribute W cfg \<lparr>aq_token = Some k, aq_mark = None, aq_layer = None, aq_perceptual = None\<rparr> r' st'
      = Inr [(key ''found'', PBool True), (key ''file_id'', PStr f), (key ''recipient_id'', PStr rid),
             (key ''issuer_id'', PStr iid), (key ''manifest'', PDict (rq_manifest req)),
             (key ''recent_events'', PList evs)]"
proof -
  obtain c f mrow rows where c: "check_registration (w_ops W) req = Inr c" "sql_text (ck_file c) = Inr (Some f)"
    and m: "select_row mf_file f (t_manifests (rg_tables st')) = Some mrow"
      "json_dumps (PDict (rq_manifest req)) = Inr (mf_json mrow)"
    and rows: "list_all2 (beacon_row_for c) (ck_beacons c) rows"
      "t_beacons (rg_tables st') = fold (replace_row bc_token) rows (t_beacons (rg_tables st))"
    by (rule register_stores [OF assms(1)]) metis
  have "signed_registration_artifacts (rq_manifest req) (rq_beacons req) (rq_watermarks req)
      = Inr (ck_beacons c, ck_watermarks c)"
    by (rule check_registration_okE [OF c(1)])
  from signed_artifactsD(1) [OF this] have "ck_beacons c = bs"
    using assms(3) by (simp add: dgetn_def dgetd_def py_iter_or_else)
  moreover have ok: "json_ok (PDict b)" using json_ok_get [OF assms(2,3)] assms(4) by (simp add: list_all_iff del: json_ok.simps(6))
  have k: "scalar_str k" using json_ok_get [OF ok assms(5)] by simp
  ultimately obtain row where row: "select_row bc_token k (t_beacons (rg_tables st')) = Some row"
    "sql_text (ck_file c) = Inr (Some (bc_file row))" "sql_text (ck_recipient_id c) = Inr (Some (bc_recipient row))"
    "sql_text (ck_issuer_id c) = Inr (Some (bc_issuer row))"
    using stored_beacon [OF rows(1) _ assms(5) k] assms(4) rows(2) by metis
  have "json_loads (mf_json mrow) = Inr (PDict (rq_manifest req))" by (rule json_loads_dumps [OF assms(2) m(2)])
  then show ?thesis
    using attribute_token [OF assms(7,6) k row(1)] m(1) row c by auto
qed

section \<open>Properties\<close>

text \<open>
  C7: an honest request is accepted: a manifest its issuer signed, with text identifiers of at most
  the 256 bytes that the specification allows and well-formed beacons and watermarks, sent as its own
  JSON object with its own sidecars by an authorised client within its limit, is registered when its
  file is free or held by the same key: afterwards the file is held by the key of the manifest, and the
  reply names the next index of the log. (The code itself asks for no bound on the identifiers, see
  \<open>long_id_registers\<close>.)
\<close>

theorem register_accepts_signed:
  assumes "honest m" "ids_fit m" "verify (w_ops W) m = Inr True" "require_operator_auth cfg r = Inr ()"
    and "snd (rate_limit (cf_trusted_proxy cfg) (mo_mono mo) r (rg_bucket st)) = Inr ()"
    and "rg_log st = Some t" "mo_io mo = None" "scalar_str (mo_stamp mo)"
    and "m_file_id m = PStr f" "m_issuer_ed25519_pub m = PStr p" "issuer_of f st \<in> {None, Some p}"
  shows "\<exists>st' reply. register W cfg mo (honest_request m) r st = (st', Inr reply)
    \<and> issuer_of f st' = Some p \<and> dget reply ''tlog_index'' = Some (PInt (int (length (leaves t))))"
  by (rule honest_registered [OF assms(1,3-11)])

theorem register_accepts_signed_witness:
  "\<exists>m st' reply. m_file_id m = str_val ''f-1''
    \<and> register sample_world sample_config sample_moment (honest_request m) sample_request sample_registry = (st', Inr reply)
    \<and> issuer_of (u ''f-1'') st' = Some (hex (replicate 32 7)) \<and> dget reply ''tlog_index'' = Some (PInt 0)"
proof -
  obtain m where m: "honest m" "verify toy_ops m = Inr True" "m_file_id m = str_val ''f-1''"
      "m_issuer_ed25519_pub m = PStr (hex (replicate 32 7))" "ids_fit m"
    by (rule sample_signed)
  have "\<exists>st' reply. register sample_world sample_config sample_moment (honest_request m) sample_request sample_registry
      = (st', Inr reply) \<and> issuer_of (u ''f-1'') st' = Some (hex (replicate 32 7))
      \<and> dget reply ''tlog_index'' = Some (PInt (int (length (leaves empty_tlog))))"
    by (rule register_accepts_signed [OF m(1,5)])
       (use m sample_auth sample_rate in \<open>simp_all add: sample_world_def sample_moment_def sample_registry_def
          sample_config_def issuer_of_def empty_tables_def str_val_def\<close>)
  with m(3) show ?thesis by (auto simp: empty_tlog_def)
qed

text \<open>The code asks for no such bound: a file identifier of 300 bytes is registered as well.\<close>

lemma long_id_registers:
  "\<exists>m st' reply. m_file_id m = PStr (replicate 300 97) \<and> \<not> ids_fit m
    \<and> register sample_world sample_config sample_moment (honest_request m) sample_request sample_registry = (st', Inr reply)
    \<and> issuer_of (replicate 300 97) st' = Some (hex (replicate 32 7))"
proof -
  have f: "replicate 300 97 \<noteq> ([] :: pystr)" "scalar_str (replicate 300 97)" by (simp_all add: scalar_str_def list_all_iff scalar_below)
  obtain m where m: "honest m" "verify toy_ops m = Inr True" "m_file_id m = PStr (replicate 300 97)"
      "m_beacons m = m_beacons sample_sealed" "m_issuer_ed25519_pub m = PStr (hex (replicate 32 7))"
      "ids_fit m \<longleftrightarrow> id_fits (PStr (replicate 300 97))"
    by (rule sample_signed_as [OF f])
  moreover have "\<not> id_fits (PStr (replicate 300 97))" by (simp add: id_fits_ascii)
  moreover have "\<exists>st' reply. register sample_world sample_config sample_moment (honest_request m) sample_request sample_registry
      = (st', Inr reply) \<and> issuer_of (replicate 300 97) st' = Some (hex (replicate 32 7))
      \<and> dget reply ''tlog_index'' = Some (PInt (int (length (leaves empty_tlog))))"
    by (rule honest_registered [OF m(1)])
       (use m sample_auth sample_rate in \<open>simp_all add: sample_world_def sample_moment_def sample_registry_def
          sample_config_def issuer_of_def empty_tables_def scalar_str_u\<close>)
  ultimately show ?thesis by blast
qed

text \<open>
  C11: after a registration returned, a query for the token of any of its beacons names the file, the
  recipient and the issuer of this registration, with its manifest. (Whoever held the token before:
  a registration of another file takes the tokens it lists.)
\<close>

theorem attribute_after_register:
  assumes "register W cfg mo req r st = (st', Inr reply)" "json_ok (PDict (rq_manifest req))"
    and "dget (rq_manifest req) ''beacons'' = Some (PList bs)" "PDict b \<in> set bs"
    and "dget b ''token_id'' = Some (PStr k)" "k \<noteq> []" "require_operator_auth cfg r' = Inr ()"
  shows "\<exists>c f rid iid evs. check_registration (w_ops W) req = Inr c
    \<and> sql_text (ck_file c) = Inr (Some f) \<and> sql_text (ck_recipient_id c) = Inr (Some rid)
    \<and> sql_text (ck_issuer_id c) = Inr (Some iid)
    \<and> attribute W cfg \<lparr>aq_token = Some k, aq_mark = None, aq_layer = None, aq_perceptual = None\<rparr> r' st'
      = Inr [(key ''found'', PBool True), (key ''file_id'', PStr f), (key ''recipient_id'', PStr rid),
             (key ''issuer_id'', PStr iid), (key ''manifest'', PDict (rq_manifest req)),
             (key ''recent_events'', PList evs)]"
  using assms by (rule registered_beacon_found)

text \<open>The request of the sample: well-formed JSON whose one beacon has the token \<open>t-1\<close>.\<close>

lemma sample_request_beacon:
  assumes "honest m" "m_beacons m = m_beacons sample_sealed"
  shows "json_ok (PDict (rq_manifest (honest_request m)))
    \<and> (\<exists>e. dget (rq_manifest (honest_request m)) ''beacons'' = Some (PList [PDict e])
         \<and> dget e ''token_id'' = Some (str_val ''t-1''))"
proof -
  obtain d bs where d: "clean (PDict (asdict m)) = PDict d" "json_ok (PDict d)"
    and bs: "m_beacons m = PList bs" "dgetn d ''beacons'' = PList (map clean bs)"
    using honest_fields [OF assms(1)] by metis
  let ?e = "[(key ''kind'', str_val ''dns''), (key ''token_id'', str_val ''t-1'')]"
  have "bs = [PDict ?e]" using assms(2) bs(1) by (simp add: sample_sealed_def)
  moreover obtain e where e: "clean (PDict ?e) = PDict e" using clean_PDict by blast
  moreover have "dget e ''token_id'' = Some (clean (str_val ''t-1''))"
    by (rule clean_get [OF _ e]) (simp_all add: str_val_def)
  moreover have "rq_manifest (honest_request m) = d" using d(1) by (simp add: honest_request_def)
  ultimately show ?thesis using d(2) bs(2)
    by (auto simp: dgetn_def dgetd_def simp del: json_ok.simps(6) split: option.splits)
qed

theorem attribute_after_register_witness:
  "\<exists>m st' reply f rid iid evs.
     register sample_world sample_config sample_moment (honest_request m) sample_request sample_registry = (st', Inr reply)
     \<and> attribute sample_world sample_config
         \<lparr>aq_token = Some (u ''t-1''), aq_mark = None, aq_layer = None, aq_perceptual = None\<rparr> sample_request st'
       = Inr [(key ''found'', PBool True), (key ''file_id'', PStr f), (key ''recipient_id'', PStr rid),
              (key ''issuer_id'', PStr iid), (key ''manifest'', PDict (rq_manifest (honest_request m))),
              (key ''recent_events'', PList evs)]"
proof -
  obtain m st' reply where m: "honest m" "m_beacons m = m_beacons sample_sealed"
    and reg: "register sample_world sample_config sample_moment (honest_request m) sample_request sample_registry = (st', Inr reply)"
    by (rule sample_register)
  obtain e where ok: "json_ok (PDict (rq_manifest (honest_request m)))"
    and e: "dget (rq_manifest (honest_request m)) ''beacons'' = Some (PList [PDict e])"
      "dget e ''token_id'' = Some (PStr (u ''t-1''))"
    using sample_request_beacon [OF m] by (auto simp: str_val_def)
  show ?thesis
    using attribute_after_register [OF reg ok e(1) _ e(2) _ sample_auth] reg
    by simp blast
qed

theorem register_sound_witness:
  "\<exists>m st' reply bytes mf f p. register sample_world sample_config sample_moment (honest_request m) sample_request sample_registry
       = (st', Inr reply)
     \<and> jcs_dumps (PDict (rq_manifest (honest_request m))) = Inr bytes \<and> from_json bytes = Inr mf
     \<and> verify toy_ops mf = Inr True \<and> m_issuer_ed25519_pub mf = PStr p \<and> issuer_of f st' = Some p"
proof -
  obtain m st' reply where m: "honest m" "m_beacons m = m_beacons sample_sealed"
    and reg: "register sample_world sample_config sample_moment (honest_request m) sample_request sample_registry = (st', Inr reply)"
    by (rule sample_register)
  have w: "w_ops sample_world = toy_ops" by (simp add: sample_world_def)
  show ?thesis
    using register_sound [OF reg conjunct1 [OF sample_request_beacon [OF m]], unfolded w] reg by metis
qed

text \<open>A registry in which a file is taken, and one that has seen a beacon.\<close>

theorem issuer_pinned_witness:
  "\<exists>st'. reg_run sample_world sample_config
       (sample_registry\<lparr>rg_tables := empty_tables\<lparr>t_manifests := [\<lparr>mf_file = Some (u ''f-1''), mf_recipient = u ''alice'',
          mf_issuer = u ''issuer'', mf_pub = u ''00'', mf_json = u ''{}'', mf_at = 0\<rparr>]\<rparr>\<rparr>) st'
     \<and> (\<exists>reg x. register sample_world sample_config sample_moment reg sample_request
       (sample_registry\<lparr>rg_tables := empty_tables\<lparr>t_manifests := [\<lparr>mf_file = Some (u ''f-1''), mf_recipient = u ''alice'',
          mf_issuer = u ''issuer'', mf_pub = u ''00'', mf_json = u ''{}'', mf_at = 0\<rparr>]\<rparr>\<rparr>) = (st', x))
     \<and> issuer_of (u ''f-1'') st' = Some (u ''00'')"
proof -
  let ?st = "sample_registry\<lparr>rg_tables := empty_tables\<lparr>t_manifests := [\<lparr>mf_file = Some (u ''f-1''), mf_recipient = u ''alice'',
          mf_issuer = u ''issuer'', mf_pub = u ''00'', mf_json = u ''{}'', mf_at = 0\<rparr>]\<rparr>\<rparr>"
  obtain m :: manifest where "honest m" by (rule sample_signed)
  obtain st' x where reg: "register sample_world sample_config sample_moment (honest_request m) sample_request ?st = (st', x)"
    by force
  have run: "reg_run sample_world sample_config ?st st'"
    using step_register [OF reg] by (rule r_into_rtranclp)
  have "issuer_of (u ''f-1'') ?st = Some (u ''00'')" by (simp add: issuer_of_def empty_tables_def)
  from issuer_pinned [OF run this] show ?thesis using run reg by blast
qed

lemma beacon_event_stored:
  assumes "rate_limit (cf_trusted_proxy cfg) (mo_mono mo) r (rg_bucket st) = (b, Inr ())"
    and "rg_log st = Some t" "mo_io mo = None" "scalar_str token" "scalar_str (mo_stamp mo)"
    and "t_beacons (rg_tables st) = []" "list_all scalar_str (map snd (headers r))" "client_host r = Some h" "scalar_str h"
  shows "\<exists>st' e. beacon_license cfg mo token r st = (st', Inr [(key ''valid'', PBool True)])
    \<and> e \<in> set (t_events (rg_tables st')) \<and> ev_token e = token"
proof -
  have ua: "scalar_str (header r ''user-agent'')"
    using assms(7) by (auto simp: header_def list_all_iff scalar_str_def [of "[]"] dest!: map_of_SomeD split: option.split)
  let ?ev = "beacon_log_event (u ''license'') token None None (client_host r) (header r ''user-agent'') (mo_stamp mo)"
  have "json_ok (PDict ?ev)" using ua assms by (simp add: beacon_log_event_def opt_val_def str_val_def)
  then obtain t' where "append_tlog None ?ev (Some t) = (Some t', Inr (int (length (leaves t))))"
    using append_event_ok by blast
  then show ?thesis using assms
    by (fastforce simp: beacon_license_def beacon_hit_def record_event_def beacon_owner_def select_where_def
        insert_event_def Let_def)
qed

theorem events_backed_by_log_witness:
  "\<exists>st' e i ev. reg_run sample_world sample_config sample_registry st' \<and> e \<in> set (t_events (rg_tables st'))
     \<and> ev_token e = u ''t-9'' \<and> ev_index e = Some i \<and> event_entry e ev \<and> logged_at (rg_log st') i ev"
proof -
  obtain b where b: "rate_limit False 0 sample_request BUCKET = (b, Inr ())"
    using sample_rate [of sample_request] by (metis prod.collapse)
  have "\<exists>st' e. beacon_license sample_config sample_moment (u ''t-9'') sample_request sample_registry
      = (st', Inr [(key ''valid'', PBool True)]) \<and> e \<in> set (t_events (rg_tables st')) \<and> ev_token e = u ''t-9''"
    by (rule beacon_event_stored [where b = b and t = empty_tlog and h = "u ''192.0.2.1''"])
       (use b in \<open>simp_all add: sample_config_def sample_moment_def sample_registry_def empty_tables_def sample_request_def\<close>)
  then obtain st' e where st': "beacon_license sample_config sample_moment (u ''t-9'') sample_request sample_registry
      = (st', Inr [(key ''valid'', PBool True)])" "e \<in> set (t_events (rg_tables st'))" "ev_token e = u ''t-9''"
    by blast
  have run: "reg_run sample_world sample_config sample_registry st'"
    using step_license [OF st'(1)] by (rule r_into_rtranclp)
  have "rg_tables sample_registry = empty_tables" by (simp add: sample_registry_def)
  from events_backed_by_log [OF this run] st' run show ?thesis by blast
qed

end
