(* ===== verification/RegistryEvidence.thy ===== *)
theory RegistryEvidence
  imports RegistryHonest
begin

text \<open>
  The evidence bundle (\<open>evidence_bundle\<close> of \<open>src/registry/server.py\<close>): it is signed with the
  registry's key, and each event in it comes with an inclusion proof that the verifier of
  \<open>src/oversight_core/tlog.py\<close> accepts.
\<close>

section \<open>One proof per event\<close>

lemma inclusion_proof_keeps: "tlog_inv t \<Longrightarrow> tlog_inv (fst (inclusion_proof t i)) \<and> leaves (fst (inclusion_proof t i)) = leaves t"
  using tlog_root_inv [of t] tlog_root_frame [of t]
  by (auto simp: inclusion_proof_def Let_def split: prod.split sum.split)

text \<open>An accepted proof for the event in a row of the bundle.\<close>

definition proof_entry :: "bytes list \<Rightarrow> nat \<Rightarrow> event_row \<Rightarrow> pydict \<Rightarrow> bool" where
  "proof_entry ls row e p \<longleftrightarrow>
     (\<exists>i pr path root. ev_index e = Some i
        \<and> p = [(key ''event_row'', PInt (int row)), (key ''tlog_index'', PInt i), (key ''proof'', PDict pr)]
        \<and> ditem pr ''leaf_hash'' = Inr (PStr (hex (ls ! nat i)))
        \<and> ditem pr ''proof'' = Inr (PList (map (\<lambda>h. PStr (hex h)) path))
        \<and> ditem pr ''root'' = Inr (PStr (hex root)) \<and> root = tree_root ls
        \<and> verify_inclusion_proof (ls ! nat i) i path (int (length ls)) root = Inr True)"

lemma proofs_loop_complete:
  assumes "tlog_inv t" "list_all (\<lambda>e. \<exists>i. ev_index e = Some i \<and> 0 \<le> i \<and> i < int (length (leaves t))) es"
  shows "\<exists>t' ps. proofs_loop n es t = (t', Inr ps) \<and> length ps = length es
    \<and> (\<forall>j<length es. proof_entry (leaves t) (n + j) (es ! j) (ps ! j))"
  using assms
proof (induction es arbitrary: n t)
  case (Cons e es)
  then obtain i where i: "ev_index e = Some i" "0 \<le> i" "i < int (length (leaves t))" by auto
  obtain t1 pr path root where p: "inclusion_proof t i = (t1, Inr (Some pr))"
    and pr: "ditem pr ''leaf_hash'' = Inr (PStr (hex (leaves t ! nat i)))"
      "ditem pr ''proof'' = Inr (PList (map (\<lambda>h. PStr (hex h)) path))"
      "ditem pr ''root'' = Inr (PStr (hex root))" "snd (tlog_root t) = Inr root"
      "verify_inclusion_proof (leaves t ! nat i) i path (int (length (leaves t))) root = Inr True"
    using inclusion_complete [OF Cons.prems(1) i(2)] i(3) by (auto simp: tlog_size_def)
  have t1: "tlog_inv t1" "leaves t1 = leaves t" using inclusion_proof_keeps [OF Cons.prems(1), of i] p by simp_all
  obtain t2 ps where ps: "proofs_loop (n + 1) es t1 = (t2, Inr ps)" "length ps = length es"
    "\<forall>j<length es. proof_entry (leaves t) (n + 1 + j) (es ! j) (ps ! j)"
    using Cons.IH [OF t1(1), of "n + 1"] Cons.prems(2) t1(2) by auto
  have "root = tree_root (leaves t)" using tlog_root_eq [OF Cons.prems(1)] pr(4) by simp
  then have "proof_entry (leaves t) n e
      [(key ''event_row'', PInt (int n)), (key ''tlog_index'', PInt i), (key ''proof'', PDict pr)]"
    using i(1) pr by (auto simp: proof_entry_def)
  then show ?case using i p ps by (auto simp: nth_Cons less_Suc_eq_0_disj split: nat.split)
qed simp

lemma backed_index: "backed (Some t) e \<Longrightarrow> \<exists>i. ev_index e = Some i \<and> 0 \<le> i \<and> i < int (length (leaves t))"
  by (auto simp: backed_def logged_at_def)

section \<open>The bundle\<close>

lemma signed_head_keeps: "tlog_inv t \<Longrightarrow> tlog_inv (fst (signed_head C t)) \<and> leaves (fst (signed_head C t)) = leaves t"
  using tlog_root_inv [of t] signed_head_leaves [of C t] by (auto simp: signed_head_def Let_def split: prod.split)

lemma sign_bundle_ok:
  assumes "sign_bundle C (Some ident) body = Inr b" "dget ident ''ed25519_priv'' = Some (PStr (hex sk))"
  shows "\<exists>msg. jcs_dumps (PDict body) = Inr msg \<and> length sk = 32
    \<and> b = body @ [(key ''bundle_signature_ed25519'', PStr (hex (ed_sign C sk msg)))]"
  using assms by (auto simp: sign_bundle_def identity_item_def ditem_def ebind_eq_Inr)

lemma evidence_parts:
  assumes "evidence_bundle C stamp f st = (st', Inr b)" "rg_log st = Some t" "tlog_inv t" "reg_inv st"
    and "rg_identity st = Some ident" "dget ident ''ed25519_priv'' = Some (PStr (hex sk))"
    and "dget ident ''ed25519_pub'' = Some pub"
  obtains manifest head proofs msg where
    "b = bundle_body f stamp pub manifest (rg_tables st) head proofs
           @ [(key ''bundle_signature_ed25519'', PStr (hex (ed_sign C sk msg)))]"
    "jcs_dumps (PDict (bundle_body f stamp pub manifest (rg_tables st) head proofs)) = Inr msg" "length sk = 32"
    "length proofs = length (file_events f (rg_tables st))"
    "\<And>j. j < length proofs \<Longrightarrow> proof_entry (leaves t) j (file_events f (rg_tables st) ! j) (proofs ! j)"
proof -
  obtain manifest l1 head l2 proofs where h: "head_of C (Some t) = (l1, Inr head)"
    and p: "tlog_proofs_for_events (file_events f (rg_tables st)) l1 = (l2, Inr proofs)"
    and s: "sign_bundle C (Some ident) (bundle_body f stamp pub manifest (rg_tables st) head proofs) = Inr b"
    using assms(1,2,5,7)
    by (auto simp: evidence_bundle_def Let_def ebind_eq_Inr identity_item_def ditem_def split: sum.splits prod.splits option.splits)
  obtain t1 where t1: "l1 = Some t1" "tlog_inv t1" "leaves t1 = leaves t"
    using h signed_head_keeps [OF assms(3), of C] by (auto simp: head_of_def split: prod.splits)
  have "list_all (backed (Some t)) (t_events (rg_tables st))" using assms(2,4) by (simp add: reg_inv_def)
  then have "list_all (\<lambda>e. \<exists>i. ev_index e = Some i \<and> 0 \<le> i \<and> i < int (length (leaves t1))) (file_events f (rg_tables st))"
    using backed_index t1(3) by (fastforce simp: list_all_iff file_events_def)
  from proofs_loop_complete [OF t1(2) this, of 0]
  have "length proofs = length (file_events f (rg_tables st))"
    "\<And>j. j < length proofs \<Longrightarrow> proof_entry (leaves t) j (file_events f (rg_tables st) ! j) (proofs ! j)"
    using p t1 by (auto simp: tlog_proofs_for_events_def)
  then show thesis using sign_bundle_ok [OF s assms(6)] that by blast
qed

section \<open>Properties\<close>


text \<open>The bundle of the sample registration: the state after \<open>sample_register\<close>.\<close>

lemma register_frame:
  assumes "register W cfg mo req r st = (st', Inr reply)" "t_events (rg_tables st) = []" "rg_log st = Some t" "tlog_inv t"
  shows "rg_identity st' = rg_identity st \<and> t_events (rg_tables st') = [] \<and> (\<exists>t'. rg_log st' = Some t' \<and> tlog_inv t')"
proof -
  obtain c idx where s: "store_registration W req c (mo_time mo) (rg_tables st) = Inr (rg_tables st')"
    and l: "append_tlog (mo_io mo) (register_event c (mo_stamp mo)) (rg_log st) = (rg_log st', Inr idx)"
    using register_okE [OF assms(1)] by metis
  have "t_events (rg_tables st') = []"
    by (rule store_registration_effect [OF s]) (simp add: assms(2))
  moreover have "rg_identity st' = rg_identity st"
    using register_effect [OF assms(1)] by (auto simp: same_tables_def registered_def)
  moreover have "\<exists>t'. rg_log st' = Some t' \<and> tlog_inv t'"
  proof -
    obtain t' x where a: "tlog_append (mo_io mo) (PDict (register_event c (mo_stamp mo))) t = (t', x)" by force
    then obtain i where "x = Inr i" using l assms(3) by (cases x) (auto simp: append_tlog_def)
    with a have "tlog_inv t'" using append_inv [OF assms(4)] by blast
    moreover have "rg_log st' = Some t'" using a l assms(3) by (auto simp: append_tlog_def)
    ultimately show ?thesis by blast
  qed
  ultimately show ?thesis by blast
qed

definition row_scalars :: "tables \<Rightarrow> bool" where
  "row_scalars t \<longleftrightarrow>
     list_all (\<lambda>b. json_ok (PDict (beacon_dict b))) (t_beacons t)
     \<and> list_all (\<lambda>w. json_ok (PDict (watermark_row_dict w))) (t_watermarks t)"

lemma fold_replace_all:
  "list_all P rs \<Longrightarrow> list_all P t \<Longrightarrow> list_all P (fold (replace_row kf) rs t)"
proof (induction rs arbitrary: t)
  case (Cons r rs)
  then have "list_all P (replace_row kf r t)" by (auto simp: replace_row_def list_all_iff)
  then show ?case using Cons by simp
qed simp

lemma beacon_row_scalar: "beacon_row_for c b row \<Longrightarrow> json_ok (PDict (beacon_dict row))"
  by (cases "bc_token row") (auto simp: beacon_row_for_def beacon_dict_def opt_val_def ebind_eq_Inr dest: sql_text_scalar)

lemma watermark_row_scalar: "watermark_row_for c w row \<Longrightarrow> json_ok (PDict (watermark_row_dict row))"
  by (auto simp: watermark_row_for_def watermark_row_dict_def ebind_eq_Inr dest: sql_text_scalar)

lemma register_row_scalars:
  assumes "register W cfg mo req r st = (st', Inr reply)" "rg_tables st = empty_tables"
  shows "row_scalars (rg_tables st')"
proof (rule register_stores [OF assms(1)])
  fix c bs ws
  assume bs: "list_all2 (beacon_row_for c) (ck_beacons c) bs" and ws: "list_all2 (watermark_row_for c) (ck_watermarks c) ws"
    and t: "t_beacons (rg_tables st') = fold (replace_row bc_token) bs (t_beacons (rg_tables st))"
      "t_watermarks (rg_tables st') = fold (replace_row wm_key) ws (t_watermarks (rg_tables st))"
  have "list_all (\<lambda>b. json_ok (PDict (beacon_dict b))) bs"
    unfolding list_all_iff using list_all2_right [OF bs] beacon_row_scalar by blast
  moreover have "list_all (\<lambda>w. json_ok (PDict (watermark_row_dict w))) ws"
    unfolding list_all_iff using list_all2_right [OF ws] watermark_row_scalar by blast
  ultimately show ?thesis
    using t assms(2) by (simp add: row_scalars_def empty_tables_def fold_replace_all del: json_ok.simps(6))
qed

lemma signed_head_json:
  assumes "tlog_inv t"
  shows "\<exists>t' head. signed_head C t = (t', Inr head) \<and> json_ok (PDict head)"
proof -
  let ?h = "[(key ''size'', PInt (int (tlog_size t))), (key ''root'', PStr (hex (tree_root (leaves t))))]"
  have "json_ok (PDict ?h)" by simp
  then obtain msg where msg: "jcs_dumps (PDict ?h) = Inr msg"
    "utf8_decode msg = Inr (json_write [44] [58] jcs_esc (canon (PDict ?h)))" by (rule jcs_dumps_ok)
  have "scalar_str (json_write [44] [58] jcs_esc (canon (PDict ?h)))"
    using utf8_decode_scalar [OF msg(2)] by (auto simp: scalar_str_def list_all_iff)
  then show ?thesis
    using msg tlog_root_eq [OF assms] by (cases "tlog_sk t") (auto simp: signed_head_def Let_def split: prod.splits)
qed

lemma json_ok_items:
  "json_ok (PDict kvs) \<longleftrightarrow> distinct (map fst kvs) \<and> list_all (\<lambda>kv. key_ok (fst kv)) kvs \<and> list_all json_ok (map snd kvs)"
  by (auto simp: list_all_iff)

lemma evidence_returns:
  assumes "select_row mf_file f (t_manifests (rg_tables st)) = Some row" "json_loads (mf_json row) = Inr v" "json_ok v"
    and "row_scalars (rg_tables st)" "t_events (rg_tables st) = []" "rg_log st = Some t" "tlog_inv t"
    and "rg_identity st = Some ident" "dget ident ''ed25519_priv'' = Some (PStr (hex sk))" "length sk = 32"
    and "dget ident ''ed25519_pub'' = Some (PStr (hex pk))" "scalar_str f" "scalar_str stamp"
  shows "\<exists>st' b. evidence_bundle C stamp f st = (st', Inr b)"
proof -
  obtain t' head where h: "signed_head C t = (t', Inr head)" "json_ok (PDict head)"
    using signed_head_json [OF assms(7)] by blast
  have "file_events f (rg_tables st) = []" using assms(5) by (simp add: file_events_def)
  moreover
  have rows: "list_all json_ok (map (\<lambda>b. PDict (beacon_dict b)) (filter (\<lambda>b. bc_file b = f) (t_beacons (rg_tables st))))"
    "list_all json_ok (map (\<lambda>w. PDict (watermark_row_dict w)) (filter (\<lambda>w. wm_file w = f) (t_watermarks (rg_tables st))))"
    using assms(4) by (simp_all add: row_scalars_def list_all_iff del: json_ok.simps(6))
  have "json_ok (PDict (bundle_body f stamp (PStr (hex pk)) v (rg_tables st) (PDict head) []))"
    unfolding bundle_body_def using rows assms(3,12,13) h(2) calculation
    by (subst json_ok_items) (simp add: disclaimer_def del: json_ok.simps(6))
  then obtain msg where
    "jcs_dumps (PDict (bundle_body f stamp (PStr (hex pk)) v (rg_tables st) (PDict head) [])) = Inr msg"
    by (rule jcs_dumps_ok)
  ultimately show ?thesis using assms h
    by (auto simp: evidence_bundle_def Let_def bound_def identity_item_def ditem_def head_of_def
        tlog_proofs_for_events_def sign_bundle_def)
qed


end
