(* ===== verification/RegistryRace.thy ===== *)
theory RegistryRace
  imports RegistryHonest
begin

text \<open>
  Registrations that overlap. The server runs its handlers in threads, and \<open>register\<close> of
  \<open>src/registry/server.py\<close> holds no lock between the \<open>SELECT\<close> that looks for another issuer and the
  \<open>INSERT\<close> statements of its transaction. Here each handler whose request has been verified makes its
  three effects as steps of its own, in any interleaving. A handler alone does what \<open>register\<close> does. The
  key of a file stays as it is in every run where no handler is between the two statements while another
  one starts; without that, a second issuer can take over the file.
\<close>

section \<open>Handlers as steps\<close>

record pending =
  pd_request :: registration
  pd_checked :: checked
  pd_moment :: moment

text \<open>The handlers before their \<open>SELECT\<close>, before their \<open>INSERT\<close>s, and before their entry of the log\<close>

record race =
  rc_registry :: registry
  rc_ready :: "pending list"
  rc_passed :: "pending list"
  rc_stored :: "pending list"

definition pending_select :: "pending \<Rightarrow> registry \<Rightarrow> unit res" where
  "pending_select p st = pin_check (pd_checked p) (rg_tables st)"

definition pending_store :: "world \<Rightarrow> pending \<Rightarrow> registry \<Rightarrow> tables res" where
  "pending_store W p st = store_rows W (pd_request p) (pd_checked p) (mo_time (pd_moment p)) (rg_tables st)"

definition pending_log :: "pending \<Rightarrow> registry \<Rightarrow> registry" where
  "pending_log p st =
     st\<lparr>rg_log := fst (append_tlog (mo_io (pd_moment p)) (register_event (pd_checked p) (mo_stamp (pd_moment p))) (rg_log st))\<rparr>"

inductive race_step :: "world \<Rightarrow> race \<Rightarrow> race \<Rightarrow> bool" for W where
  select: "p \<in> set (rc_ready s) \<Longrightarrow> pending_select p (rc_registry s) = Inr () \<Longrightarrow>
     race_step W s (s\<lparr>rc_ready := remove1 p (rc_ready s), rc_passed := p # rc_passed s\<rparr>)"
| refuse: "p \<in> set (rc_ready s) \<Longrightarrow> pending_select p (rc_registry s) = Inl e \<Longrightarrow>
     race_step W s (s\<lparr>rc_ready := remove1 p (rc_ready s)\<rparr>)"
| store: "p \<in> set (rc_passed s) \<Longrightarrow> pending_store W p (rc_registry s) = Inr t \<Longrightarrow>
     race_step W s (s\<lparr>rc_registry := (rc_registry s)\<lparr>rg_tables := t\<rparr>, rc_passed := remove1 p (rc_passed s),
                      rc_stored := p # rc_stored s\<rparr>)"
| rollback: "p \<in> set (rc_passed s) \<Longrightarrow> pending_store W p (rc_registry s) = Inl e \<Longrightarrow>
     race_step W s (s\<lparr>rc_passed := remove1 p (rc_passed s)\<rparr>)"
| log: "p \<in> set (rc_stored s) \<Longrightarrow>
     race_step W s (s\<lparr>rc_registry := pending_log p (rc_registry s), rc_stored := remove1 p (rc_stored s)\<rparr>)"

inductive_cases race_stepE: "race_step W s s'"

section \<open>A handler alone\<close>

text \<open>
  The tables and the log that \<open>register\<close> leaves are those of a run in which the steps of its handler follow
  each other.
\<close>

theorem register_alone:
  assumes "register W cfg mo req r st = (st', Inr reply)"
  shows "\<exists>c b. check_registration (w_ops W) req = Inr c
    \<and> (race_step W)\<^sup>*\<^sup>* \<lparr>rc_registry = st\<lparr>rg_bucket := b\<rparr>, rc_ready = [\<lparr>pd_request = req, pd_checked = c, pd_moment = mo\<rparr>],
          rc_passed = [], rc_stored = []\<rparr> \<lparr>rc_registry = st', rc_ready = [], rc_passed = [], rc_stored = []\<rparr>"
proof -
  obtain b lim where b: "rate_limit (cf_trusted_proxy cfg) (mo_mono mo) r (rg_bucket st) = (b, lim)" by force
  obtain c t l idx where c: "check_registration (w_ops W) req = Inr c" "pin_check c (rg_tables st) = Inr ()"
    "store_rows W req c (mo_time mo) (rg_tables st) = Inr t"
    "append_tlog (mo_io mo) (register_event c (mo_stamp mo)) (rg_log st) = (l, idx)"
    "st' = st\<lparr>rg_bucket := b, rg_tables := t, rg_log := l\<rparr>"
    using assms b by (auto simp: register_def store_registration_def ebind_eq_Inr Let_def split: sum.splits prod.splits)
  let ?p = "\<lparr>pd_request = req, pd_checked = c, pd_moment = mo\<rparr>" and ?st = "st\<lparr>rg_bucket := b\<rparr>"
  have "race_step W \<lparr>rc_registry = ?st, rc_ready = [?p], rc_passed = [], rc_stored = []\<rparr>
      \<lparr>rc_registry = ?st, rc_ready = [], rc_passed = [?p], rc_stored = []\<rparr>"
    using select [of ?p "\<lparr>rc_registry = ?st, rc_ready = [?p], rc_passed = [], rc_stored = []\<rparr>" W] c(2)
    by (simp add: pending_select_def)
  moreover have "race_step W \<dots> \<lparr>rc_registry = ?st\<lparr>rg_tables := t\<rparr>, rc_ready = [], rc_passed = [], rc_stored = [?p]\<rparr>"
    using store [of ?p "\<lparr>rc_registry = ?st, rc_ready = [], rc_passed = [?p], rc_stored = []\<rparr>" W t] c(3)
    by (simp add: pending_store_def)
  moreover have "race_step W \<dots> \<lparr>rc_registry = st', rc_ready = [], rc_passed = [], rc_stored = []\<rparr>"
    using log [of ?p "\<lparr>rc_registry = ?st\<lparr>rg_tables := t\<rparr>, rc_ready = [], rc_passed = [], rc_stored = [?p]\<rparr>" W] c(4,5)
    by (simp add: pending_log_def)
  ultimately show ?thesis using c(1) by (meson converse_rtranclp_into_rtranclp rtranclp.rtrancl_refl)
qed

section \<open>Runs without overlap\<close>

text \<open>No handler does its \<open>SELECT\<close> while another is between its \<open>SELECT\<close> and its commit.\<close>

definition serial_step :: "world \<Rightarrow> race \<Rightarrow> race \<Rightarrow> bool" where
  "serial_step W s s' \<longleftrightarrow> race_step W s s' \<and> length (rc_passed s') \<le> 1"

definition fresh_passed :: "race \<Rightarrow> bool" where
  "fresh_passed s \<longleftrightarrow> length (rc_passed s) \<le> 1 \<and> (\<forall>p\<in>set (rc_passed s). pending_select p (rc_registry s) = Inr ())"

lemma serial_step_fresh: "serial_step W s s' \<Longrightarrow> fresh_passed s \<Longrightarrow> fresh_passed s'"
  unfolding serial_step_def
  by (erule conjE, erule race_stepE)
    (auto simp: fresh_passed_def pending_select_def pending_log_def length_Suc_conv le_Suc_eq)

lemma serial_step_issuer:
  assumes "serial_step W s s'" "fresh_passed s" "issuer_of f (rc_registry s) = Some p"
  shows "issuer_of f (rc_registry s') = Some p"
  using assms(1) unfolding serial_step_def
proof (elim conjE race_stepE)
  fix h t
  assume h: "h \<in> set (rc_passed s)" "pending_store W h (rc_registry s) = Inr t"
    and s': "s' = s\<lparr>rc_registry := (rc_registry s)\<lparr>rg_tables := t\<rparr>, rc_passed := remove1 h (rc_passed s),
                      rc_stored := h # rc_stored s\<rparr>"
  have "store_registration W (pd_request h) (pd_checked h) (mo_time (pd_moment h)) (rg_tables (rc_registry s))
      = Inr (rg_tables ((rc_registry s)\<lparr>rg_tables := t\<rparr>))"
    using h assms(2) by (simp add: store_registration_def pending_store_def fresh_passed_def pending_select_def)
  from store_keeps_issuer [OF this assms(3)] show ?thesis by (simp add: s')
qed (use assms(3) in \<open>auto simp: pending_log_def issuer_of_def\<close>)

theorem serial_issuer_pinned:
  assumes "(serial_step W)\<^sup>*\<^sup>* s s'" "rc_passed s = []" "issuer_of f (rc_registry s) = Some p"
  shows "issuer_of f (rc_registry s') = Some p"
proof -
  have "fresh_passed s' \<and> issuer_of f (rc_registry s') = Some p"
    using assms by (induction rule: rtranclp_induct)
      (auto simp: fresh_passed_def [of s] intro: serial_step_fresh serial_step_issuer)
  then show ?thesis ..
qed

section \<open>Two issuers at once\<close>

text \<open>
  Two handlers for a file that is not registered both pass their \<open>SELECT\<close>; the first to commit pins the file
  to its issuer, and the second replaces the row, its key included, and answers that all is well.
\<close>

lemma overlap:
  assumes "pending_select a st = Inr ()" "pending_select b st = Inr ()"
    and "pending_store W a st = Inr t1" "pending_store W b (st\<lparr>rg_tables := t1\<rparr>) = Inr t2" "a \<noteq> b"
  shows "(race_step W)\<^sup>*\<^sup>* \<lparr>rc_registry = st, rc_ready = [a, b], rc_passed = [], rc_stored = []\<rparr>
      \<lparr>rc_registry = st\<lparr>rg_tables := t1\<rparr>, rc_ready = [], rc_passed = [b], rc_stored = [a]\<rparr>"
    "race_step W \<lparr>rc_registry = st\<lparr>rg_tables := t1\<rparr>, rc_ready = [], rc_passed = [b], rc_stored = [a]\<rparr>
      \<lparr>rc_registry = st\<lparr>rg_tables := t2\<rparr>, rc_ready = [], rc_passed = [], rc_stored = [b, a]\<rparr>"
proof -
  have "race_step W \<lparr>rc_registry = st, rc_ready = [a, b], rc_passed = [], rc_stored = []\<rparr>
      \<lparr>rc_registry = st, rc_ready = [b], rc_passed = [a], rc_stored = []\<rparr>"
    using select [of a "\<lparr>rc_registry = st, rc_ready = [a, b], rc_passed = [], rc_stored = []\<rparr>" W] assms(1) by simp
  moreover have "race_step W \<dots> \<lparr>rc_registry = st, rc_ready = [], rc_passed = [b, a], rc_stored = []\<rparr>"
    using select [of b "\<lparr>rc_registry = st, rc_ready = [b], rc_passed = [a], rc_stored = []\<rparr>" W] assms(2) by simp
  moreover have "race_step W \<dots> \<lparr>rc_registry = st\<lparr>rg_tables := t1\<rparr>, rc_ready = [], rc_passed = [b], rc_stored = [a]\<rparr>"
    using store [of a "\<lparr>rc_registry = st, rc_ready = [], rc_passed = [b, a], rc_stored = []\<rparr>" W t1] assms(3,5) by simp
  ultimately show "(race_step W)\<^sup>*\<^sup>* \<lparr>rc_registry = st, rc_ready = [a, b], rc_passed = [], rc_stored = []\<rparr>
      \<lparr>rc_registry = st\<lparr>rg_tables := t1\<rparr>, rc_ready = [], rc_passed = [b], rc_stored = [a]\<rparr>"
    by (meson converse_rtranclp_into_rtranclp rtranclp.rtrancl_refl)
  show "race_step W \<lparr>rc_registry = st\<lparr>rg_tables := t1\<rparr>, rc_ready = [], rc_passed = [b], rc_stored = [a]\<rparr>
      \<lparr>rc_registry = st\<lparr>rg_tables := t2\<rparr>, rc_ready = [], rc_passed = [], rc_stored = [b, a]\<rparr>"
    using store [of b "\<lparr>rc_registry = st\<lparr>rg_tables := t1\<rparr>, rc_ready = [], rc_passed = [b], rc_stored = [a]\<rparr>" W t2] assms(4) by simp
qed

lemma rows_pin:
  assumes "store_rows W req c now (rg_tables st) = Inr t" "ck_file c = PStr f" "ck_pub c = PStr p"
  shows "issuer_of f (st\<lparr>rg_tables := t\<rparr>) = Some p"
  using assms(1)
proof (rule store_rows_effect)
  fix g row bs ws cs
  assume "sql_text (ck_file c) = Inr g" "mf_file row = g" "sql_text (ck_pub c) = Inr (Some (mf_pub row))"
    and "t = (rg_tables st)\<lparr>t_manifests := replace_row mf_file row (t_manifests (rg_tables st)),
           t_beacons := fold (replace_row bc_token) bs (t_beacons (rg_tables st)),
           t_watermarks := fold (replace_row wm_key) ws (t_watermarks (rg_tables st)),
           t_corpus := fold (replace_row cp_key) cs (t_corpus (rg_tables st))\<rparr>"
  then show ?thesis
    using assms(2,3) by (auto simp: issuer_of_def manifests.get_put sql_text_def split: if_splits)
qed

lemma honest_pending:
  assumes "honest m" "verify (w_ops W) m = Inr True" "m_file_id m = PStr f" "m_issuer_ed25519_pub m = PStr p"
  obtains h where "pd_request h = honest_request m" "pd_moment h = mo" "check_registration (w_ops W) (honest_request m) = Inr (pd_checked h)"
    "ck_file (pd_checked h) = PStr f" "ck_pub (pd_checked h) = PStr p"
    "\<And>st. issuer_of f st = None \<Longrightarrow> pending_select h st = Inr ()"
    "\<And>st. \<exists>t. pending_store W h st = Inr t \<and> issuer_of f (st\<lparr>rg_tables := t\<rparr>) = Some p"
proof -
  obtain c d rd bs where c: "check_registration (w_ops W) (honest_request m) = Inr c"
    "rq_manifest (honest_request m) = d" "json_ok (PDict d)" "ck_file c = m_file_id m" "ck_issuer_id c = m_issuer_id m"
    "ck_pub c = m_issuer_ed25519_pub m" "ck_recipient c = PDict rd"
    and rid: "\<exists>r i x. m_recipient m = Some r \<and> r_recipient_id r = PStr i \<and> ck_recipient_id c = PStr i
       \<and> dget rd ''x25519_pub'' = Some (PStr x) \<and> scalar_str i"
    and bs: "m_beacons m = PList bs" "ck_beacons c = map clean bs" "list_all honest_beacon bs"
    and ws: "ck_watermarks c = map (\<lambda>w. clean (PDict (watermark_dict w))) (m_watermarks m)"
    by (rule honest_checked [OF assms(1,2)])
  have b: "bindable c" using rid honest_bindable [OF assms(1) c(4-6)] by blast
  let ?h = "\<lparr>pd_request = honest_request m, pd_checked = c, pd_moment = mo\<rparr>"
  show thesis
  proof (rule that [of ?h])
    show "pending_select ?h st = Inr ()" if "issuer_of f st = None" for st
      using that assms(3) c(4)
      by (auto simp: pending_select_def issuer_of_def sql_text_def split: if_splits intro!: pin_check_ok [OF b])
    have "rq_corpus (honest_request m) = None" by (simp add: honest_request_def Let_def)
    then have "is_ok (store_rows W (honest_request m) c now t)" for now t
      by (rule honest_rows [OF assms(1) c(2,3) _ b bs ws])
    then have stored: "\<exists>t. pending_store W ?h st = Inr t" for st by (simp add: pending_store_def is_ok_ex)
    show "\<exists>t. pending_store W ?h st = Inr t \<and> issuer_of f (st\<lparr>rg_tables := t\<rparr>) = Some p" for st
      using stored [of st] rows_pin [of W "honest_request m" c "mo_time mo" st] c(4,6) assms(3,4)
      by (auto simp: pending_store_def)
  qed (use c assms in simp_all)
qed

theorem overlap_takes_file_over:
  assumes "honest m1" "verify (w_ops W) m1 = Inr True" "m_file_id m1 = PStr f" "m_issuer_ed25519_pub m1 = PStr p1"
    and "honest m2" "verify (w_ops W) m2 = Inr True" "m_file_id m2 = PStr f" "m_issuer_ed25519_pub m2 = PStr p2"
    and "p1 \<noteq> p2" "issuer_of f st = None"
  shows "\<exists>a b s1 s2. pd_request a = honest_request m1 \<and> pd_moment a = mo1 \<and> check_registration (w_ops W) (honest_request m1) = Inr (pd_checked a)
    \<and> pd_request b = honest_request m2 \<and> pd_moment b = mo2 \<and> check_registration (w_ops W) (honest_request m2) = Inr (pd_checked b)
    \<and> (race_step W)\<^sup>*\<^sup>* \<lparr>rc_registry = st, rc_ready = [a, b], rc_passed = [], rc_stored = []\<rparr> s1
    \<and> issuer_of f (rc_registry s1) = Some p1 \<and> race_step W s1 s2 \<and> issuer_of f (rc_registry s2) = Some p2"
proof -
  obtain a where a: "pd_request a = honest_request m1" "pd_moment a = mo1" "check_registration (w_ops W) (honest_request m1) = Inr (pd_checked a)"
    "ck_pub (pd_checked a) = PStr p1" "pending_select a st = Inr ()"
    "\<exists>t. pending_store W a st = Inr t \<and> issuer_of f (st\<lparr>rg_tables := t\<rparr>) = Some p1"
    by (rule honest_pending [OF assms(1-4), of mo1]) (use assms(10) in blast)
  obtain b where b: "pd_request b = honest_request m2" "pd_moment b = mo2" "check_registration (w_ops W) (honest_request m2) = Inr (pd_checked b)"
    "ck_pub (pd_checked b) = PStr p2" "pending_select b st = Inr ()"
    "\<And>st. \<exists>t. pending_store W b st = Inr t \<and> issuer_of f (st\<lparr>rg_tables := t\<rparr>) = Some p2"
    by (rule honest_pending [OF assms(5-8), of mo2]) (use assms(10) in blast)
  obtain t1 where t1: "pending_store W a st = Inr t1" "issuer_of f (st\<lparr>rg_tables := t1\<rparr>) = Some p1" using a(6) by blast
  obtain t2 where t2: "pending_store W b (st\<lparr>rg_tables := t1\<rparr>) = Inr t2" "issuer_of f (st\<lparr>rg_tables := t2\<rparr>) = Some p2"
    using b(6) [of "st\<lparr>rg_tables := t1\<rparr>"] by auto
  have "a \<noteq> b" using a(4) b(4) assms(9) by auto
  note o = overlap [OF a(5) b(5) t1(1) t2(1) this]
  show ?thesis
    using a(1-3) b(1-3) o t1(2) t2(2)
    by (intro exI [of _ a] exI [of _ b] exI [of _ "\<lparr>rc_registry = st\<lparr>rg_tables := t1\<rparr>, rc_ready = [], rc_passed = [b], rc_stored = [a]\<rparr>"]
      exI [of _ "\<lparr>rc_registry = st\<lparr>rg_tables := t2\<rparr>, rc_ready = [], rc_passed = [], rc_stored = [b, a]\<rparr>"]) simp
qed

lemma overlap_takes_file_over_sample:
  "\<exists>a b s1 s2. (race_step sample_world)\<^sup>*\<^sup>*
       \<lparr>rc_registry = sample_registry, rc_ready = [a, b], rc_passed = [], rc_stored = []\<rparr> s1
    \<and> issuer_of (u ''f-1'') (rc_registry s1) = Some (hex (replicate 32 7))
    \<and> race_step sample_world s1 s2 \<and> issuer_of (u ''f-1'') (rc_registry s2) = Some (hex (replicate 32 8))"
proof -
  have f: "u ''f-1'' \<noteq> []" by (simp add: u_def)
  obtain m1 where m1: "honest m1" "verify toy_ops m1 = Inr True" "m_file_id m1 = PStr (u ''f-1'')"
    "m_issuer_ed25519_pub m1 = PStr (hex (replicate 32 7))" by (rule sample_signed_as [OF f scalar_str_u])
  obtain m2 where m2: "honest m2" "verify toy_ops m2 = Inr True" "m_file_id m2 = PStr (u ''f-1'')"
    "m_issuer_ed25519_pub m2 = PStr (hex (replicate 32 8))" by (rule sample_signed_as [OF f scalar_str_u])
  have "hex (replicate 32 7) \<noteq> hex (replicate 32 8)" by (simp add: hex_inject)
  moreover have "issuer_of (u ''f-1'') sample_registry = None" by (simp add: issuer_of_def sample_registry_def empty_tables_def)
  ultimately show ?thesis
    using overlap_takes_file_over [of m1 sample_world "u ''f-1''" "hex (replicate 32 7)" m2 "hex (replicate 32 8)" sample_registry
        sample_moment sample_moment] m1 m2
    by (auto simp: sample_world_def)
qed

end
