(* ===== verification/Md5.thy ===== *)
theory Md5
  imports PyStr
begin

unbundle bit_operations_syntax

text \<open>
  \<open>hashlib.md5\<close> as RFC 1321 defines it, on 32-bit words. The constants are the integer parts of
  \<open>2 ^ 32 * abs (sin i)\<close> for \<open>i = 1 .. 64\<close>. The fingerprints use it as a function of the bytes and
  nothing more.
\<close>

type_synonym md5_word = "32 word"
type_synonym md5_state = "md5_word \<times> md5_word \<times> md5_word \<times> md5_word"

definition md5_k :: "md5_word list" where
  "md5_k =
     [3614090360, 3905402710, 606105819, 3250441966, 4118548399, 1200080426, 2821735955, 4249261313,
      1770035416, 2336552879, 4294925233, 2304563134, 1804603682, 4254626195, 2792965006, 1236535329,
      4129170786, 3225465664, 643717713, 3921069994, 3593408605, 38016083, 3634488961, 3889429448,
      568446438, 3275163606, 4107603335, 1163531501, 2850285829, 4243563512, 1735328473, 2368359562,
      4294588738, 2272392833, 1839030562, 4259657740, 2763975236, 1272893353, 4139469664, 3200236656,
      681279174, 3936430074, 3572445317, 76029189, 3654602809, 3873151461, 530742520, 3299628645,
      4096336452, 1126891415, 2878612391, 4237533241, 1700485571, 2399980690, 4293915773, 2240044497,
      1873313359, 4264355552, 2734768916, 1309151649, 4149444226, 3174756917, 718787259, 3951481745]"

definition md5_shift :: "nat \<Rightarrow> nat" where
  "md5_shift i = [[7, 12, 17, 22], [5, 9, 14, 20], [4, 11, 16, 23], [6, 10, 15, 21]] ! (i div 16) ! (i mod 4)"

definition rotl :: "nat \<Rightarrow> md5_word \<Rightarrow> md5_word" where
  "rotl n x = push_bit n x OR drop_bit (32 - n) x"

definition md5_mix :: "nat \<Rightarrow> md5_word \<Rightarrow> md5_word \<Rightarrow> md5_word \<Rightarrow> md5_word" where
  "md5_mix i b c d =
     (if i < 16 then (b AND c) OR (NOT b AND d)
      else if i < 32 then (d AND b) OR (NOT d AND c)
      else if i < 48 then b XOR c XOR d
      else c XOR (b OR NOT d))"

definition md5_index :: "nat \<Rightarrow> nat" where
  "md5_index i =
     (if i < 16 then i
      else if i < 32 then (5 * i + 1) mod 16
      else if i < 48 then (3 * i + 5) mod 16
      else (7 * i) mod 16)"

fun md5_round :: "md5_word list \<Rightarrow> nat \<Rightarrow> md5_state \<Rightarrow> md5_state" where
  "md5_round m i (a, b, c, d) =
     (let f = md5_mix i b c d + a + md5_k ! i + m ! md5_index i
      in (d, b + rotl (md5_shift i) f, b, c))"

definition le_word :: "bytes \<Rightarrow> md5_word" where
  "le_word bs = foldr (\<lambda>x w. push_bit 8 w OR ucast x) bs 0"

definition le_bytes :: "nat \<Rightarrow> 64 word \<Rightarrow> bytes" where
  "le_bytes n w = map (\<lambda>i. ucast (drop_bit (8 * i) w)) [0 ..< n]"

definition md5_words :: "bytes \<Rightarrow> md5_word list" where
  "md5_words block = map (\<lambda>i. le_word (take 4 (drop (4 * i) block))) [0 ..< 16]"

fun md5_block :: "bytes \<Rightarrow> md5_state \<Rightarrow> md5_state" where
  "md5_block block (a, b, c, d) =
     (let (a', b', c', d') = fold (md5_round (md5_words block)) [0 ..< 64] (a, b, c, d)
      in (a + a', b + b', c + c', d + d'))"

definition md5_pad :: "bytes \<Rightarrow> bytes" where
  "md5_pad msg =
     msg @ 0x80 # replicate ((119 - length msg mod 64) mod 64) 0 @ le_bytes 8 (8 * of_nat (length msg))"

definition md5 :: "bytes \<Rightarrow> bytes" where
  "md5 msg =
     (let p = md5_pad msg;
          (a, b, c, d) = fold md5_block (map (\<lambda>i. take 64 (drop (64 * i) p)) [0 ..< length p div 64])
            (0x67452301, 0xEFCDAB89, 0x98BADCFE, 0x10325476)
      in le_bytes 4 (ucast a) @ le_bytes 4 (ucast b) @ le_bytes 4 (ucast c) @ le_bytes 4 (ucast d))"

end
