(* ===== verification/Fingerprint.thy ===== *)
theory Fingerprint
  imports Md5 Sha256 PyRegex PyObj
begin

text \<open>
  Content fingerprints (\<open>src/oversight_core/fingerprint.py\<close>): winnowing of k-gram hashes and hashes
  of sentences, and their comparison. Python's sets are lists without duplicates that are only
  sorted or counted; similarities are exact rationals. The reference for winnowing is the set of the
  minima of all windows, and its guarantee that a long enough common passage is never missed.
\<close>

section \<open>Normalization\<close>

definition zero_width :: "nat \<Rightarrow> bool" where
  "zero_width c \<longleftrightarrow> c \<in> {0x200B, 0x200C, 0x200D, 0xFEFF}"

text \<open>\<open>re.sub(r"\s+", " ", s)\<close>\<close>

fun collapse_ws :: "pystr \<Rightarrow> pystr" where
  "collapse_ws [] = []"
| "collapse_ws [c] = [if is_space c then 32 else c]"
| "collapse_ws (c # d # s) =
     (if is_space c then (if is_space d then collapse_ws (d # s) else 32 # collapse_ws (d # s))
      else c # collapse_ws (d # s))"

definition plain_char :: "nat \<Rightarrow> bool" where
  "plain_char c \<longleftrightarrow> is_lower_letter c \<or> is_digit c \<or> c = 32"

definition normalize_text :: "ucd \<Rightarrow> pystr \<Rightarrow> pystr" where
  "normalize_text U doc =
     strip (filter plain_char (collapse_ws (filter (\<lambda>c. \<not> zero_width c) (py_lower U doc))))"

text \<open>\<open>re.split(r"(?<=[.!?])\s+", text)\<close>: the first argument is the current part, reversed.\<close>

function cut_sentences :: "pystr \<Rightarrow> pystr \<Rightarrow> pystr list" where
  "cut_sentences cur [] = [rev cur]"
| "cut_sentences cur (c # s) =
     (if is_space c \<and> cur \<noteq> [] \<and> hd cur \<in> {46, 33, 63}
      then rev cur # cut_sentences [] (dropWhile is_space s)
      else cut_sentences (c # cur) s)"
  by pat_completeness auto
termination by (relation "measure (length \<circ> snd)") (auto simp: le_imp_less_Suc length_dropWhile_le)

definition sentences :: "pystr \<Rightarrow> pystr list" where
  "sentences doc = filter (\<lambda>s. s \<noteq> []) (map strip (cut_sentences [] doc))"

section \<open>Winnowing\<close>

text \<open>The first four bytes of the digest of an ASCII k-gram\<close>

definition kgram_hash :: "pystr \<Rightarrow> nat" where
  "kgram_hash g = bytes_nat (take 4 (md5 (map of_nat g)))"

definition rolling_hash :: "pystr \<Rightarrow> nat \<Rightarrow> (nat \<times> nat) list" where
  "rolling_hash doc k =
     (if length doc < k then []
      else map (\<lambda>i. (kgram_hash (take k (drop i doc)), i)) [0 ..< length doc - k + 1])"

text \<open>The rightmost position of the least hash of a window\<close>

definition rightmost_min :: "nat list \<Rightarrow> nat" where
  "rightmost_min hs = last (filter (\<lambda>j. hs ! j = Min (set hs)) [0 ..< length hs])"

definition winnow_step :: "nat list \<Rightarrow> nat \<Rightarrow> nat \<Rightarrow> nat list \<times> int \<Rightarrow> nat list \<times> int" where
  "winnow_step hs window i = (\<lambda>(selected, prev_min_idx).
     let w = take window (drop i hs);
         j = rightmost_min w;
         abs_idx = int (i + j)
     in if abs_idx \<noteq> prev_min_idx then (List.insert (w ! j) selected, abs_idx)
        else (selected, prev_min_idx))"

definition winnow_select :: "nat list \<Rightarrow> nat \<Rightarrow> nat list" where
  "winnow_select hs window = fst (fold (winnow_step hs window) [0 ..< length hs - window + 1] ([], - 1))"

definition winnow :: "ucd \<Rightarrow> pystr \<Rightarrow> nat \<Rightarrow> nat \<Rightarrow> nat list res" where
  "winnow U doc k window =
     (let normalized = normalize_text U doc in
      if length normalized < k then Inr []
      else
        let hashes = map fst (rolling_hash normalized k) in
        if length hashes < window then Inr hashes
        else if window = 0 then Inl (ValueError ''min() arg is an empty sequence'')
        else Inr (sort (winnow_select hashes window)))"

definition winnow_similarity :: "nat list \<Rightarrow> nat list \<Rightarrow> rat" where
  "winnow_similarity fp1 fp2 =
     (if fp1 = [] \<or> fp2 = [] then 0
      else let s1 = set fp1; s2 = set fp2
        in if 0 < card (s1 \<union> s2) then of_nat (card (s1 \<inter> s2)) / of_nat (card (s1 \<union> s2)) else 0)"

section \<open>Sentences\<close>

definition sentence_hash :: "ucd \<Rightarrow> pystr \<Rightarrow> pystr" where
  "sentence_hash U sentence =
     (let words = filter (\<lambda>w. 2 < length w) (split_ws (normalize_text U sentence));
          content = join [32] (sort words)
      in take 16 (hex (sha256 (map of_nat content))))"

definition sentence_fingerprint :: "ucd \<Rightarrow> pystr \<Rightarrow> pystr list" where
  "sentence_fingerprint U doc =
     map (sentence_hash U) (filter (\<lambda>s. 3 \<le> length (split_ws s)) (sentences doc))"

definition sentence_similarity :: "pystr list \<Rightarrow> pystr list \<Rightarrow> rat" where
  "sentence_similarity fp1 fp2 =
     (if fp1 = [] \<or> fp2 = [] then 0
      else of_nat (length (filter (\<lambda>h. h \<in> set fp1) fp2)) / of_nat (length fp2))"

section \<open>Combined fingerprints\<close>

record fingerprint =
  winnowing_fp :: "nat list"
  sentence_fp :: "pystr list"
  text_length :: int
  sentence_count :: int

definition from_text :: "ucd \<Rightarrow> pystr \<Rightarrow> nat \<Rightarrow> nat \<Rightarrow> fingerprint res" where
  "from_text U doc k window =
     ebind (winnow U doc k window) (\<lambda>w.
       Inr \<lparr>winnowing_fp = w, sentence_fp = sentence_fingerprint U doc,
            text_length = int (length doc), sentence_count = int (length (sentences doc))\<rparr>)"

definition verdict_of :: "rat \<Rightarrow> string" where
  "verdict_of combined =
     (if 6 / 10 \<le> combined then ''MATCH''
      else if 3 / 10 \<le> combined then ''LIKELY''
      else if 1 / 10 \<le> combined then ''UNLIKELY''
      else ''NO_MATCH'')"

definition similarity :: "fingerprint \<Rightarrow> fingerprint \<Rightarrow> rat \<times> rat \<times> rat \<times> string" where
  "similarity a b =
     (let w_sim = winnow_similarity (winnowing_fp a) (winnowing_fp b);
          s_sim = sentence_similarity (sentence_fp a) (sentence_fp b);
          combined = 4 / 10 * w_sim + 6 / 10 * s_sim
      in (w_sim, s_sim, combined, verdict_of combined))"

definition fp_to_dict :: "fingerprint \<Rightarrow> pydict" where
  "fp_to_dict a =
     [(key ''winnowing_fp'', PList (map (\<lambda>h. PInt (int h)) (winnowing_fp a))),
      (key ''sentence_fp'', PList (map PStr (sentence_fp a))),
      (key ''text_length'', PInt (text_length a)), (key ''sentence_count'', PInt (sentence_count a))]"

text \<open>
  Python keeps whatever the dictionary holds; the model reads the values \<open>to_dict\<close> writes and
  refuses others, which Python would only trip over when they are compared.
\<close>

definition nat_item :: "pyval \<Rightarrow> nat res" where
  "nat_item v = (case v of PInt i \<Rightarrow> if 0 \<le> i then Inr (nat i) else Inl (TypeError ''hash'') | _ \<Rightarrow> Inl (TypeError ''hash''))"

definition str_item :: "pyval \<Rightarrow> pystr res" where
  "str_item v = (case v of PStr s \<Rightarrow> Inr s | _ \<Rightarrow> Inl (TypeError ''hash''))"

definition int_item :: "pyval \<Rightarrow> int res" where
  "int_item v = (case v of PInt i \<Rightarrow> Inr i | _ \<Rightarrow> Inl (TypeError ''count''))"

definition fp_from_dict :: "pydict \<Rightarrow> fingerprint res" where
  "fp_from_dict d =
     ebind (ebind (ditem d ''winnowing_fp'') py_iter) (\<lambda>ws.
     ebind (mapM_res nat_item ws) (\<lambda>w.
     ebind (ebind (ditem d ''sentence_fp'') py_iter) (\<lambda>ss.
     ebind (mapM_res str_item ss) (\<lambda>s.
     ebind (int_item (dgetd d ''text_length'' (PInt 0))) (\<lambda>n.
     ebind (int_item (dgetd d ''sentence_count'' (PInt 0))) (\<lambda>c.
       Inr \<lparr>winnowing_fp = w, sentence_fp = s, text_length = n, sentence_count = c\<rparr>))))))"


section \<open>The windows' minima\<close>

lemma rightmost_min:
  assumes "hs \<noteq> []"
  shows "rightmost_min hs < length hs \<and> hs ! rightmost_min hs = Min (set hs)"
proof -
  let ?js = "filter (\<lambda>j. hs ! j = Min (set hs)) [0 ..< length hs]"
  have "Min (set hs) \<in> set hs" using assms by simp
  then have "?js \<noteq> []" by (auto simp: in_set_conv_nth filter_empty_conv)
  then have "last ?js \<in> set ?js" by (rule last_in_set)
  then show ?thesis by (simp add: rightmost_min_def)
qed

definition window_min :: "nat list \<Rightarrow> nat \<Rightarrow> nat \<Rightarrow> nat" where
  "window_min hs window i = Min (set (take window (drop i hs)))"

lemma winnow_loop:
  assumes "0 < window" "m + window \<le> length hs + 1"
  shows "case fold (winnow_step hs window) [0 ..< m] ([], - 1) of (selected, prev) \<Rightarrow>
    distinct selected \<and> set selected = window_min hs window ` {0 ..< m}
    \<and> (prev = - 1 \<or> (\<exists>p. prev = int p \<and> hs ! p \<in> set selected))"
  using assms(2)
proof (induction m)
  case (Suc m)
  obtain selected prev where s: "fold (winnow_step hs window) [0 ..< m] ([], - 1) = (selected, prev)" by force
  have inv: "distinct selected" "set selected = window_min hs window ` {0 ..< m}"
    "prev = - 1 \<or> (\<exists>p. prev = int p \<and> hs ! p \<in> set selected)"
    using Suc s by auto
  let ?w = "take window (drop m hs)" and ?j = "rightmost_min (take window (drop m hs))"
  have "?w \<noteq> []" using assms(1) Suc.prems by auto
  from rightmost_min [OF this] have j: "?j < length ?w" "?w ! ?j = window_min hs window m"
    by (auto simp: window_min_def)
  then have h: "hs ! (m + ?j) = window_min hs window m" using Suc.prems by simp
  have set: "window_min hs window ` {0 ..< Suc m} = insert (window_min hs window m) (set selected)"
    using inv(2) by (simp add: atLeast0_lessThan_Suc)
  have step: "fold (winnow_step hs window) [0 ..< Suc m] ([], - 1)
      = (if int (m + ?j) \<noteq> prev then (List.insert (window_min hs window m) selected, int (m + ?j))
         else (selected, prev))"
    using s j(2) by (simp add: winnow_step_def [of _ _ m] Let_def)
  show ?case
  proof (cases "int (m + ?j) = prev")
    case True
    then have "window_min hs window m \<in> set selected" using inv(3) h by (auto simp flip: of_nat_add)
    with True show ?thesis using inv set unfolding step by (simp add: insert_absorb)
  next
    case False
    then show ?thesis using inv(1) set h unfolding step by (auto simp: distinct_insert simp flip: of_nat_add)
  qed
qed simp

lemma winnow_select_set:
  assumes "0 < window" "window \<le> length hs"
  shows "distinct (winnow_select hs window)"
    "set (winnow_select hs window) = window_min hs window ` {0 ..< length hs - window + 1}"
  using winnow_loop [OF assms(1), of "length hs - window + 1" hs] assms(2)
  by (auto simp: winnow_select_def split: prod.splits)

text \<open>The hashes of a text, and the fingerprint by definition\<close>

definition kgram_hashes :: "pystr \<Rightarrow> nat \<Rightarrow> nat list" where
  "kgram_hashes doc k = map (\<lambda>i. kgram_hash (take k (drop i doc))) [0 ..< length doc - k + 1]"

lemma rolling_hash_hashes: "k \<le> length doc \<Longrightarrow> map fst (rolling_hash doc k) = kgram_hashes doc k"
  by (simp add: rolling_hash_def kgram_hashes_def)

lemma winnow_minima:
  assumes "normalize_text U doc = n" "k \<le> length n" "0 < window" "window \<le> length n - k + 1"
  shows "winnow U doc k window
    = Inr (sorted_list_of_set (window_min (kgram_hashes n k) window ` {0 ..< length n - k + 1 - window + 1}))"
proof -
  have l: "length (kgram_hashes n k) = length n - k + 1" by (simp add: kgram_hashes_def)
  have "sort (winnow_select (kgram_hashes n k) window)
      = sorted_list_of_set (window_min (kgram_hashes n k) window ` {0 ..< length n - k + 1 - window + 1})"
    using winnow_select_set [OF assms(3), of "kgram_hashes n k"] assms(4) l
    by (metis sorted_list_of_set_sort_remdups distinct_remdups_id)
  then show ?thesis using assms l by (simp add: winnow_def Let_def rolling_hash_hashes)
qed

text \<open>A window of hashes depends on the characters it covers.\<close>

lemma window_of_passage:
  assumes "0 < window" "k + window \<le> length s + 1"
  shows "take window (drop (length a) (kgram_hashes (a @ s @ b) k)) = take window (kgram_hashes s k)"
proof (rule nth_equalityI)
  show "length (take window (drop (length a) (kgram_hashes (a @ s @ b) k))) = length (take window (kgram_hashes s k))"
    using assms by (simp add: kgram_hashes_def)
next
  fix i assume "i < length (take window (drop (length a) (kgram_hashes (a @ s @ b) k)))"
  then have i: "i < window" by simp
  have "take k (drop i (s @ b)) = take k (drop i s)" using assms i by simp
  then show "take window (drop (length a) (kgram_hashes (a @ s @ b) k)) ! i = take window (kgram_hashes s k) ! i"
    using assms i by (simp add: kgram_hashes_def del: upt_Suc)
qed

lemma passage_min:
  assumes "normalize_text U doc = a @ s @ b" "0 < window" "k + window \<le> length s + 1"
  shows "\<exists>f. winnow U doc k window = Inr f \<and> Min (set (take window (kgram_hashes s k))) \<in> set f"
proof -
  let ?n = "a @ s @ b"
  have "winnow U doc k window
      = Inr (sorted_list_of_set (window_min (kgram_hashes ?n k) window ` {0 ..< length ?n - k + 1 - window + 1}))"
    by (rule winnow_minima [OF assms(1)]) (use assms(2,3) in auto)
  moreover have "window_min (kgram_hashes ?n k) window (length a) = Min (set (take window (kgram_hashes s k)))"
    unfolding window_min_def window_of_passage [OF assms(2,3)] ..
  moreover have "length a \<in> {0 ..< length ?n - k + 1 - window + 1}" using assms(3) by auto
  ultimately show ?thesis by (metis (no_types, lifting) finite_atLeastLessThan finite_imageI imageI set_sorted_list_of_set)
qed

lemma shared_hash_similarity:
  assumes "h \<in> set f1" "h \<in> set f2"
  shows "0 < winnow_similarity f1 f2"
proof -
  have "h \<in> set f1 \<inter> set f2" using assms by simp
  then have "0 < card (set f1 \<inter> set f2)" "0 < card (set f1 \<union> set f2)" by (auto simp: card_gt_0_iff)
  then show ?thesis using assms by (auto simp: winnow_similarity_def Let_def)
qed

lemma fp_dict_roundtrip: "fp_from_dict (fp_to_dict a) = Inr a"
proof -
  have "mapM_res nat_item (map (\<lambda>h. PInt (int h)) w) = Inr w" for w
    by (induction w) (simp_all add: nat_item_def)
  moreover have "mapM_res str_item (map PStr s) = Inr s" for s
    by (induction s) (simp_all add: str_item_def)
  ultimately show ?thesis by (simp add: fp_from_dict_def fp_to_dict_def dgetd_def int_item_def)
qed

section \<open>Properties\<close>

text \<open>
  C28: the winnowing loop, which remembers the position it selected last, computes the fingerprint of
  the definition: the sorted set of the minimal k-gram hashes of all windows.
\<close>

theorem winnow_window_minima:
  assumes "normalize_text U doc = n" "k \<le> length n" "0 < window" "window \<le> length n - k + 1"
  shows "winnow U doc k window
    = Inr (sorted_list_of_set
        {Min (kgram_hash ` {take k (drop j n) | j. i \<le> j \<and> j < i + window}) | i. i + window \<le> length n - k + 1})"
proof -
  have win: "set (take window (drop i (kgram_hashes n k))) = kgram_hash ` {take k (drop j n) | j. i \<le> j \<and> j < i + window}"
    if "i + window \<le> length n - k + 1" for i
  proof -
    have "take window (drop i [0 ..< length n - k + 1]) = [i ..< i + window]"
      using that by (simp add: take_upt del: upt_Suc)
    then have "take window (drop i (kgram_hashes n k)) = map (\<lambda>j. kgram_hash (take k (drop j n))) [i ..< i + window]"
      unfolding kgram_hashes_def drop_map take_map by simp
    then show ?thesis by force
  qed
  have "window_min (kgram_hashes n k) window ` {0 ..< length n - k + 1 - window + 1}
      = {Min (kgram_hash ` {take k (drop j n) | j. i \<le> j \<and> j < i + window}) | i. i + window \<le> length n - k + 1}"
    using assms(4) win by (auto simp: window_min_def image_iff)
  then show ?thesis using winnow_minima [OF assms] by simp
qed

text \<open>
  C29: a common passage is never missed: two texts whose normal forms share a passage of at least
  \<open>k + window - 1\<close> characters, wherever it stands in each, have fingerprints with a common hash and
  a positive similarity.
\<close>

theorem winnow_shared_passage:
  assumes "normalize_text U doc1 = a @ s @ b" "normalize_text U doc2 = c @ s @ d"
    and "0 < window" "k + window \<le> length s + 1"
  shows "\<exists>f1 f2 h. winnow U doc1 k window = Inr f1 \<and> winnow U doc2 k window = Inr f2
    \<and> h \<in> set f1 \<and> h \<in> set f2 \<and> 0 < winnow_similarity f1 f2"
  using passage_min [OF assms(1,3,4)] passage_min [OF assms(2,3,4)] shared_hash_similarity by blast

theorem winnow_shared_passage_witness:
  "\<exists>f1 f2. winnow ascii_ucd (u ''Xx SECRET!'') 3 2 = Inr f1 \<and> winnow ascii_ucd (u ''a  secret, yes'') 3 2 = Inr f2
     \<and> 0 < winnow_similarity f1 f2"
proof -
  note eval = normalize_text_def py_lower_def all_ascii_def u_def ascii_lower_def zero_width_def is_space_def
    plain_char_def is_lower_letter_def is_digit_def strip_def lstrip_def rstrip_def
  have "normalize_text ascii_ucd (u ''Xx SECRET!'') = u ''xx '' @ u ''secret'' @ []"
    "normalize_text ascii_ucd (u ''a  secret, yes'') = u ''a '' @ u ''secret'' @ u '' yes''"
    by (simp_all add: eval)
  from winnow_shared_passage [OF this, of 2 3] show ?thesis by (auto simp: u_def)
qed

theorem winnow_window_minima_witness:
  "winnow ascii_ucd (u ''Xx SECRET!'') 3 2
    = Inr (sorted_list_of_set
        {Min (kgram_hash ` {take 3 (drop j (u ''xx secret'')) | j. i \<le> j \<and> j < i + 2})
          | i. i + 2 \<le> length (u ''xx secret'') - 3 + 1})"
proof -
  have "normalize_text ascii_ucd (u ''Xx SECRET!'') = u ''xx secret''"
    by (simp add: normalize_text_def py_lower_def all_ascii_def u_def ascii_lower_def zero_width_def is_space_def
      plain_char_def is_lower_letter_def is_digit_def strip_def lstrip_def rstrip_def)
  from winnow_window_minima [OF this, of 3 2] show ?thesis by (simp add: u_def)
qed

end
