(* ===== verification/JsonIndent.thy ===== *)
theory JsonIndent
  imports JsonRoundtrip
begin

text \<open>
  \<open>json.dumps(v, indent=2)\<close>: each item of a list and each member of an object on a line of its own,
  indented by two more blanks than the bracket that closes it. The reader gives the value back.
\<close>

definition newline_indent :: "nat \<Rightarrow> pystr" where
  "newline_indent d = 10 # replicate d 32"

fun json_indent :: "nat \<Rightarrow> pyval \<Rightarrow> pystr" where
  "json_indent d PNone = u ''null''"
| "json_indent d (PBool t) = (if t then u ''true'' else u ''false'')"
| "json_indent d (PInt i) = int_str i"
| "json_indent d (PStr t) = quote esc_ascii t"
| "json_indent d (PList xs) =
     (if xs = [] then u ''[]''
      else 91 # newline_indent (d + 2)
           @ join (44 # newline_indent (d + 2)) (map (json_indent (d + 2)) xs)
           @ newline_indent d @ [93])"
| "json_indent d (PDict kvs) =
     (if kvs = [] then u ''{}''
      else 123 # newline_indent (d + 2)
           @ join (44 # newline_indent (d + 2))
               (map (\<lambda>(k, v). quote esc_ascii (key_text k) @ u '': '' @ json_indent (d + 2) v) kvs)
           @ newline_indent d @ [125])"
| "json_indent d (PFloat f) = []"
| "json_indent d (PBytes x) = []"

definition json_dumps_indent :: "pyval \<Rightarrow> pystr res" where
  "json_dumps_indent v =
     (if dumpable v then Inr (json_indent 0 v) else Inl (TypeError ''not JSON serializable''))"

section \<open>Round trip\<close>

definition json_leaf :: "pyval \<Rightarrow> bool" where
  "json_leaf v = (case v of PList _ \<Rightarrow> False | PDict _ \<Rightarrow> False | _ \<Rightarrow> True)"

lemma json_indent_leaf: "json_leaf v \<Longrightarrow> json_indent d v = json_write isep ksep esc_ascii v"
  by (cases v) (simp_all add: json_leaf_def)

lemma json_value_leaf:
  "json_leaf v \<Longrightarrow> json_ok v \<Longrightarrow> num_stop r \<Longrightarrow> length (json_indent d v) \<le> n
    \<Longrightarrow> json_value n (json_indent d v @ r) = Some (v, r)"
  using json_value_write [OF good_seps_default good_esc_ascii]
  by (simp add: json_indent_leaf [of v d "u '', ''" "u '': ''"])

lemma json_indent_start: "json_ok v \<Longrightarrow> \<exists>c s. json_indent d v = c # s \<and> \<not> json_ws c \<and> c \<noteq> 93 \<and> c \<noteq> 125"
proof (cases "json_leaf v")
  case True
  moreover assume "json_ok v"
  ultimately show ?thesis
    using json_indent_leaf [of v d "[44]" "[58]"] json_write_start [of v "[44]" "[58]" esc_ascii] by auto
qed (auto simp: json_leaf_def json_ws_def u_def split: pyval.splits)

lemma newline_indent_ws: "\<forall>c\<in>set (newline_indent d). json_ws c"
  by (auto simp: newline_indent_def json_ws_def)

lemma json_value_indent:
  "json_ok v \<Longrightarrow> num_stop r \<Longrightarrow> length (json_indent d v) \<le> n \<Longrightarrow>
    json_value n (json_indent d v @ r) = Some (v, r)"
proof (induction v arbitrary: d n r)
  case (PList xs)
  then obtain m where n: "n = Suc m" by (cases n) (auto simp: u_def split: if_splits)
  show ?case
  proof (cases "xs = []")
    case True
    then show ?thesis using n by (simp add: json_Suc json_ws_def u_def)
  next
    case False
    let ?t = "join (44 # newline_indent (d + 2)) (map (json_indent (d + 2)) xs) @ newline_indent d @ 93 # r"
    have ok: "json_ok x" if "x \<in> set xs" for x using that PList.prems(1) by (simp add: list_all_iff)
    have "json_items m ?t = Some (xs, r)"
      using PList.prems n False PList.IH ok json_indent_start
      by (intro json_items_write [OF refl newline_indent_ws newline_indent_ws False]) fastforce+
    moreover obtain x xs' where xs: "xs = x # xs'" using False by (cases xs) auto
    then obtain c s where c: "json_indent (d + 2) x = c # s" "\<not> json_ws c" "c \<noteq> 93"
      using json_indent_start [of x "d + 2"] ok by auto
    then have "\<exists>s'. ?t = c # s'" using xs by (cases xs') auto
    ultimately show ?thesis
      using n c(2,3) False skip_ws_append [OF newline_indent_ws] by (auto simp: json_Suc Let_def)
  qed
next
  case (PDict kvs)
  then obtain m where n: "n = Suc m" by (cases n) (auto simp: u_def split: if_splits)
  show ?case
  proof (cases "kvs = []")
    case True
    then show ?thesis using n by (simp add: json_Suc json_ws_def dict_of_def u_def)
  next
    case False
    let ?M = "\<lambda>(k, v). quote esc_ascii (key_text k) @ u '': '' @ json_indent (d + 2) v"
    let ?t = "join (44 # newline_indent (d + 2)) (map ?M kvs) @ newline_indent d @ 125 # r"
    have ok: "key_ok k \<and> (\<exists>c s. json_indent (d + 2) v = c # s \<and> \<not> json_ws c)" if "(k, v) \<in> set kvs" for k v
    proof -
      have "key_ok k" "json_ok v" using that PDict.prems(1) by (auto simp: list_all_iff)
      then show ?thesis using json_indent_start [of v "d + 2"] by blast
    qed
    have sep: "u '': '' = 58 # u '' ''" "\<forall>c\<in>set (u '' ''). json_ws c" by (simp_all add: u_def json_ws_def)
    have "json_members m ?t = Some (kvs, r)"
      using PDict.prems n False PDict.IH
      by (intro json_members_write [OF refl newline_indent_ws sep newline_indent_ws good_esc_ascii False ok _ refl])
        (auto simp: list_all_iff intro: snds.intros)
    moreover obtain kv kvs' where "kvs = kv # kvs'" using False by (cases kvs) auto
    then have "\<exists>s'. ?t = 34 # s'"
      by (cases kvs') (auto simp: quote_def split: prod.split)
    ultimately show ?thesis
      using n PDict.prems False skip_ws_append [OF newline_indent_ws]
      by (auto simp: json_Suc json_ws_def Let_def dict_of_id)
  qed
qed (rule json_value_leaf; simp add: json_leaf_def)+

lemma json_loads_indent:
  assumes "json_ok v" "json_dumps_indent v = Inr s"
  shows "json_loads s = Inr v"
proof -
  have s: "s = json_indent 0 v" using assms(2) by (simp add: json_dumps_indent_def split: if_splits)
  obtain c t where c: "json_indent 0 v = c # t" "\<not> json_ws c" using json_indent_start [OF assms(1)] by blast
  have "c \<noteq> 0xFEFF"
  proof (cases v)
    case (PInt i)
    then show ?thesis using c hd_int_str [of i "[]"] by (auto simp: is_digit_def)
  qed (use c assms(1) in \<open>auto simp: u_def quote_def split: if_splits\<close>)
  moreover have "json_value (Suc (2 * length s)) (s @ []) = Some (v, [])"
    unfolding s by (rule json_value_indent [OF assms(1)]) simp_all
  ultimately show ?thesis using c s by (simp add: json_loads_def)
qed

lemma json_dumps_indent_ok: "json_ok v \<Longrightarrow> \<exists>s. json_dumps_indent v = Inr s"
  by (simp add: json_dumps_indent_def json_ok_dumpable)

interpretation json2: codec json_dumps_indent json_loads json_ok
  by unfold_locales (rule json_loads_indent)

end
