(* ===== verification/SafeIo.thy ===== *)
theory SafeIo
  imports JsonIndent PyObj PyRegex Interfaces
begin

text \<open>
  \<open>src/oversight_core/safe_io.py\<close>: the checks of an output path, and the atomic write by a
  temporary file in the same directory. A file system maps paths to directories and files with
  their bits; the operating system is a record of what the code asks of it, among it which system
  call fails. A write keeps the list of all file systems it went through, because a crash can leave
  any of them behind. Symbolic links are the business of \<open>os_resolve\<close>.
\<close>

section \<open>File systems and system calls\<close>

type_synonym path = "pystr list"

datatype node = Dir | File bytes nat

type_synonym fs = "path \<Rightarrow> node option"

datatype syscall =
    Mkdir path
  | Mkstemp path
  | Fchmod path nat
  | WriteFile path bytes
  | Fsync path
  | Replace path path
  | Unlink path
  | ReadFile path

text \<open>
  \<open>os_fail\<close> names the call that fails, \<open>os_written\<close> how much a failing write has written,
  \<open>os_temp\<close> the name \<open>mkstemp\<close> chooses for a directory and a prefix.
\<close>

record os =
  os_name :: pystr
  os_env :: "string \<Rightarrow> pystr option"
  os_fail :: "syscall \<Rightarrow> exn option"
  os_written :: nat
  os_temp :: "path \<Rightarrow> pystr \<Rightarrow> path"
  os_resolve :: "path \<Rightarrow> path res"
  os_abspath :: "path \<Rightarrow> path"
  os_path_str :: "path \<Rightarrow> pystr"

definition path_name :: "path \<Rightarrow> pystr" where
  "path_name p = (if p = [] then [] else last p)"

definition path_parent :: "path \<Rightarrow> path" where
  "path_parent p = butlast p"

definition path_exists :: "fs \<Rightarrow> path \<Rightarrow> bool" where
  "path_exists fs p \<longleftrightarrow> fs p \<noteq> None"

definition is_file :: "fs \<Rightarrow> path \<Rightarrow> bool" where
  "is_file fs p \<longleftrightarrow> (case fs p of Some (File _ _) \<Rightarrow> True | _ \<Rightarrow> False)"

definition set_content :: "path \<Rightarrow> bytes \<Rightarrow> fs \<Rightarrow> fs" where
  "set_content p data fs = (case fs p of Some (File _ m) \<Rightarrow> fs(p := Some (File data m)) | _ \<Rightarrow> fs)"

text \<open>\<open>path.mkdir(parents=True, exist_ok=True)\<close>: the missing directories on the way.\<close>

definition mkdir_parents :: "path \<Rightarrow> fs \<Rightarrow> fs" where
  "mkdir_parents d fs = (\<lambda>p. if prefixed p d \<and> fs p = None then Some Dir else fs p)"

text \<open>What a call does when it succeeds\<close>

definition call_effect :: "syscall \<Rightarrow> fs \<Rightarrow> fs" where
  "call_effect c fs =
     (case c of
        Mkdir d \<Rightarrow> mkdir_parents d fs
      | Mkstemp t \<Rightarrow> fs(t := Some (File [] 384))
      | Fchmod t m \<Rightarrow> (case fs t of Some (File b _) \<Rightarrow> fs(t := Some (File b m)) | _ \<Rightarrow> fs)
      | WriteFile t data \<Rightarrow> set_content t data fs
      | Replace t p \<Rightarrow> fs(p := fs t, t := None)
      | Unlink t \<Rightarrow> fs(t := None)
      | _ \<Rightarrow> fs)"

text \<open>A call that cannot work whatever the system does\<close>

definition call_refused :: "syscall \<Rightarrow> fs \<Rightarrow> exn option" where
  "call_refused c fs =
     (case c of
        Mkdir d \<Rightarrow>
          if is_file fs d then Some (FileExistsError ''mkdir'')
          else if list_ex (\<lambda>n. is_file fs (take n d)) [0 ..< length d] then Some (OSError ''Not a directory'')
          else None
      | Mkstemp t \<Rightarrow> if path_exists fs t then Some (FileExistsError ''mkstemp'') else None
      | Replace t p \<Rightarrow> if fs p = Some Dir then Some (OSError ''Is a directory'') else None
      | Unlink t \<Rightarrow> if path_exists fs t then None else Some (OSError ''No such file or directory'')
      | _ \<Rightarrow> None)"

type_synonym history = "fs list"

text \<open>
  One call on the newest file system of a history. A failing write leaves a part of the data, every
  other failing call leaves the file system as it was.
\<close>

definition sys :: "os \<Rightarrow> syscall \<Rightarrow> history \<Rightarrow> history \<times> unit res" where
  "sys os c h =
     (case call_refused c (hd h) of
        Some e \<Rightarrow> (h, Inl e)
      | None \<Rightarrow>
          (case os_fail os c of
             Some e \<Rightarrow>
               (case c of
                  WriteFile t data \<Rightarrow> (set_content t (take (os_written os) data) (hd h) # h, Inl e)
                | _ \<Rightarrow> (h, Inl e))
           | None \<Rightarrow> (call_effect c (hd h) # h, Inr ())))"

fun sys_all :: "os \<Rightarrow> syscall list \<Rightarrow> history \<Rightarrow> history \<times> unit res" where
  "sys_all os [] h = (h, Inr ())"
| "sys_all os (c # cs) h =
     (case sys os c h of
        (h', Inl e) \<Rightarrow> (h', Inl e)
      | (h', Inr _) \<Rightarrow> sys_all os cs h')"

section \<open>Output paths\<close>

definition windows_reserved_names :: "pystr list" where
  "windows_reserved_names =
     [u ''CON'', u ''PRN'', u ''AUX'', u ''NUL'']
     @ map (\<lambda>i. u ''COM'' @ nat_digits i) [1 ..< 10] @ map (\<lambda>i. u ''LPT'' @ nat_digits i) [1 ..< 10]"

definition is_windows_reserved_path :: "ucd \<Rightarrow> path \<Rightarrow> bool" where
  "is_windows_reserved_path U p =
     (let name = rstrip_chars (u '' .'') (path_name p) in
      name \<noteq> [] \<and> py_upper U (hd (split_on 46 name)) \<in> set windows_reserved_names)"

definition is_private_key_dict :: "pyval \<Rightarrow> bool" where
  "is_private_key_dict data =
     (case data of
        PDict d \<Rightarrow> is_str (dgetn d ''x25519_priv'') \<and> is_str (dgetn d ''ed25519_priv'')
      | _ \<Rightarrow> False)"

text \<open>\<open>path.read_text(encoding="utf-8")\<close>\<close>

definition read_text :: "os \<Rightarrow> fs \<Rightarrow> path \<Rightarrow> pystr res" where
  "read_text os fs p =
     (case os_fail os (ReadFile p) of
        Some e \<Rightarrow> Inl e
      | None \<Rightarrow>
          (case fs p of
             Some (File b _) \<Rightarrow> ebind (utf8_decode b) (\<lambda>t. Inr (universal_newlines t))
           | Some Dir \<Rightarrow> Inl (OSError ''Is a directory'')
           | None \<Rightarrow> Inl (OSError ''No such file or directory'')))"

definition unreadable :: "exn \<Rightarrow> bool" where
  "unreadable e \<longleftrightarrow> is_OSError e \<or> e = UnicodeDecodeError \<or> e = JSONDecodeError"

definition is_private_key_file :: "os \<Rightarrow> fs \<Rightarrow> path \<Rightarrow> bool res" where
  "is_private_key_file os fs p =
     (if \<not> path_exists fs p \<or> \<not> is_file fs p then Inr False
      else case ebind (read_text os fs p) json_loads of
          Inl e \<Rightarrow> if unreadable e then Inr False else Inl e
        | Inr data \<Rightarrow> Inr (is_private_key_dict data))"

definition same_path :: "os \<Rightarrow> path \<Rightarrow> path \<Rightarrow> bool res" where
  "same_path os a b =
     (case ebind (os_resolve os a) (\<lambda>x. ebind (os_resolve os b) (\<lambda>y. Inr (x = y))) of
        Inl e \<Rightarrow> if is_OSError e then Inr (os_abspath os a = os_abspath os b) else Inl e
      | Inr same \<Rightarrow> Inr same)"

fun check_inputs :: "os \<Rightarrow> path \<Rightarrow> path list \<Rightarrow> unit res" where
  "check_inputs os p [] = Inr ()"
| "check_inputs os p (i # is) =
     ebind (same_path os p i) (\<lambda>same.
       if same then Inl (ValueError ''Output path must be different from every input path.'')
       else check_inputs os p is)"

definition validate_output_path ::
  "ucd \<Rightarrow> os \<Rightarrow> fs \<Rightarrow> path \<Rightarrow> path list \<Rightarrow> bool \<Rightarrow> bool \<Rightarrow> unit res" where
  "validate_output_path U os fs p input_paths allow_existing block_private_keys =
     (if os_path_str os p = [] \<or> path_name p = [] then Inl (ValueError ''Please choose an output path.'')
      else if is_windows_reserved_path U p then Inl (ValueError ''Refusing to write to Windows reserved device name'')
      else
        ebind (check_inputs os p input_paths) (\<lambda>_.
        ebind (if block_private_keys then is_private_key_file os fs p else Inr False) (\<lambda>private.
        if private then Inl (ValueError ''Refusing to overwrite an Oversight private key file.'')
        else if path_exists fs p \<and> \<not> allow_existing then Inl (FileExistsError ''Refusing to overwrite existing file'')
        else Inr ())))"

section \<open>Atomic writes\<close>

text \<open>The body of the \<open>try\<close>, whose failure is cleaned up\<close>

definition write_calls :: "os \<Rightarrow> path \<Rightarrow> path \<Rightarrow> bytes \<Rightarrow> nat option \<Rightarrow> syscall list" where
  "write_calls os tmp p data mode =
     (case mode of
        Some m \<Rightarrow> if os_name os = u ''posix'' then [Fchmod tmp m] else []
      | None \<Rightarrow> [])
     @ [WriteFile tmp data, Fsync tmp, Replace tmp p]"

definition atomic_write_bytes :: "os \<Rightarrow> path \<Rightarrow> bytes \<Rightarrow> nat option \<Rightarrow> history \<Rightarrow> history \<times> unit res" where
  "atomic_write_bytes os p data mode h =
     (let tmp = os_temp os (path_parent p) (46 # path_name p @ [46]) in
      case sys_all os [Mkdir (path_parent p), Mkstemp tmp] h of
        (h1, Inl e) \<Rightarrow> (h1, Inl e)
      | (h1, Inr _) \<Rightarrow>
          (case sys_all os (write_calls os tmp p data mode) h1 of
             (h2, Inr _) \<Rightarrow> (h2, Inr ())
           | (h2, Inl e) \<Rightarrow>
               (case sys os (Unlink tmp) h2 of
                  (h3, Inl e') \<Rightarrow> (h3, Inl (if is_OSError e' then e else e'))
                | (h3, Inr _) \<Rightarrow> (h3, Inl e))))"

definition atomic_write_text :: "os \<Rightarrow> path \<Rightarrow> pystr \<Rightarrow> nat option \<Rightarrow> history \<Rightarrow> history \<times> unit res" where
  "atomic_write_text os p t mode h =
     (case utf8_encode t of
        Inl e \<Rightarrow> (h, Inl e)
      | Inr data \<Rightarrow> atomic_write_bytes os p data mode h)"

text \<open>The arguments of the command that narrows the access list on Windows, if it is run\<close>

definition harden_windows_private_file_acl :: "os \<Rightarrow> path \<Rightarrow> pystr list option" where
  "harden_windows_private_file_acl os p =
     (case os_env os ''USERNAME'' of
        None \<Rightarrow> None
      | Some user \<Rightarrow>
          if user = [] then None
          else
            let principal = (case os_env os ''USERDOMAIN'' of
                  Some domain \<Rightarrow> if domain = [] then user else domain @ 92 # user
                | None \<Rightarrow> user)
            in Some [u ''icacls'', os_path_str os p, u ''/inheritance:r'', u ''/grant:r'',
                     principal @ u '':(R,W)'', u ''SYSTEM:(F)'', u ''Administrators:(F)''])"

definition atomic_write_private_json ::
  "os \<Rightarrow> path \<Rightarrow> pydict \<Rightarrow> history \<Rightarrow> history \<times> pystr list option res" where
  "atomic_write_private_json os p data h =
     (case json_dumps_indent (PDict data) of
        Inl e \<Rightarrow> (h, Inl e)
      | Inr payload \<Rightarrow>
          (case atomic_write_text os p payload (Some 384) h of
             (h1, Inl e) \<Rightarrow> (h1, Inl e)
           | (h1, Inr _) \<Rightarrow>
               (h1, Inr (if os_name os = u ''nt'' then harden_windows_private_file_acl os p else None))))"

section \<open>Every state on the way\<close>

lemma sys_cases:
  assumes "sys os c h = (h', r)"
  shows "(r = Inr () \<and> call_refused c (hd h) = None \<and> h' = call_effect c (hd h) # h)
    \<or> (\<exists>e. r = Inl e \<and> (h' = h \<or> (\<exists>t data k. c = WriteFile t data \<and> h' = set_content t (take k data) (hd h) # h)))"
  using assms by (auto simp: sys_def split: option.splits syscall.splits)

lemma sys_all_inv:
  assumes "sys_all os cs h = (h', r)" "h \<noteq> []" "\<forall>g\<in>set h. Q g" "P (hd h)"
    and "\<And>c g. c \<in> set cs \<Longrightarrow> P g \<Longrightarrow> call_refused c g = None \<Longrightarrow> P (call_effect c g)"
    and "\<And>t data k g. WriteFile t data \<in> set cs \<Longrightarrow> P g \<Longrightarrow> P (set_content t (take k data) g)"
    and "\<And>g. P g \<Longrightarrow> Q g"
  shows "h' \<noteq> [] \<and> (\<forall>g\<in>set h'. Q g) \<and> P (hd h') \<and> (r = Inr () \<longrightarrow> hd h' = fold call_effect cs (hd h))"
  using assms
proof (induction cs arbitrary: h)
  case (Cons c cs)
  obtain h1 r1 where 1: "sys os c h = (h1, r1)" by force
  have step: "h1 \<noteq> []" "\<forall>g\<in>set h1. Q g" "P (hd h1)" "r1 = Inr () \<Longrightarrow> hd h1 = call_effect c (hd h)"
    using sys_cases [OF 1] Cons.prems(2-7) by (auto intro: Cons.prems(5-7))
  show ?case
  proof (cases r1)
    case (Inl e)
    then show ?thesis using Cons.prems(1) 1 step by auto
  next
    case (Inr x)
    then have "sys_all os cs h1 = (h', r)" using Cons.prems(1) 1 by simp
    from Cons.IH [OF this step(1,2,3)] Cons.prems(5-7) show ?thesis using step(4) Inr by simp
  qed
qed auto

lemma sys_all_okD:
  "sys_all os (c # cs) h = (h', Inr ()) \<Longrightarrow>
    call_refused c (hd h) = None \<and> sys_all os cs (call_effect c (hd h) # h) = (h', Inr ())"
  using sys_cases [of os c h] by (auto split: prod.splits sum.splits)

lemma sys_all_append:
  "sys_all os (cs @ ds) h =
     (case sys_all os cs h of (h', Inl e) \<Rightarrow> (h', Inl e) | (h', Inr _) \<Rightarrow> sys_all os ds h')"
  by (induction cs arbitrary: h) (auto split: prod.splits sum.splits)

text \<open>The bits a written file ends up with\<close>

definition target_mode :: "os \<Rightarrow> nat option \<Rightarrow> nat" where
  "target_mode os mode = (case mode of Some m \<Rightarrow> if os_name os = u ''posix'' then m else 384 | None \<Rightarrow> 384)"

text \<open>
  What holds of a file system on the way from \<open>fs\<close>: the target is the old file or the whole new
  one, no file but the temporary one has changed, and no file has data in it that is neither old nor
  under the bits asked for.
\<close>

definition on_the_way :: "fs \<Rightarrow> path \<Rightarrow> path \<Rightarrow> bytes \<Rightarrow> nat \<Rightarrow> fs \<Rightarrow> bool" where
  "on_the_way fs p tmp data m g \<longleftrightarrow>
     (g p = fs p \<or> g p = Some (File data m))
     \<and> (\<forall>q b k. q \<noteq> p \<longrightarrow> q \<noteq> tmp \<longrightarrow> (g q = Some (File b k) \<longleftrightarrow> fs q = Some (File b k)))
     \<and> (\<forall>b k. g tmp = Some (File b k) \<longrightarrow> fs tmp = Some (File b k) \<or> b = [] \<or> k = m)"

definition phase :: "fs \<Rightarrow> path \<Rightarrow> path \<Rightarrow> (node option \<Rightarrow> bool) \<Rightarrow> fs \<Rightarrow> bool" where
  "phase fs p tmp T g \<longleftrightarrow>
     g p = fs p \<and> T (g tmp)
     \<and> (\<forall>q b k. q \<noteq> p \<longrightarrow> q \<noteq> tmp \<longrightarrow> (g q = Some (File b k) \<longleftrightarrow> fs q = Some (File b k)))"

text \<open>What \<open>mkstemp\<close> promises of its name: another file of the directory\<close>

definition temp_beside :: "path \<Rightarrow> path \<Rightarrow> bool" where
  "temp_beside tmp p \<longleftrightarrow> p \<noteq> [] \<and> tmp \<noteq> [] \<and> tmp \<noteq> p \<and> path_parent tmp = path_parent p"

lemma not_prefix_of_parent: "p \<noteq> [] \<Longrightarrow> \<not> prefixed p (butlast p)"
proof
  assume "p \<noteq> []" "prefixed p (butlast p)"
  then obtain t where "butlast p = p @ t" by (auto simp: prefixed_iff)
  then have "length p - 1 = length p + length t" by (metis length_append length_butlast)
  then show False using \<open>p \<noteq> []\<close> by (cases p) auto
qed

lemma mkdir_keeps:
  assumes "temp_beside tmp p"
  shows "mkdir_parents (path_parent p) g p = g p" "mkdir_parents (path_parent p) g tmp = g tmp"
    "mkdir_parents d g q = Some (File b k) \<longleftrightarrow> g q = Some (File b k)"
  using assms not_prefix_of_parent [of p] not_prefix_of_parent [of tmp]
  by (auto simp: mkdir_parents_def temp_beside_def path_parent_def)

lemma prepare_phase:
  assumes "sys_all os [Mkdir (path_parent p), Mkstemp tmp] [fs] = (h, r)" "temp_beside tmp p"
  shows "h \<noteq> []" "\<forall>g\<in>set h. on_the_way fs p tmp data m g" "hd h p = fs p"
    "r = Inr () \<Longrightarrow> phase fs p tmp (\<lambda>x. x = Some (File [] 384)) (hd h) \<and> fs tmp = None"
proof -
  let ?P = "phase fs p tmp (\<lambda>x. x = fs tmp \<or> x = Some (File [] 384) \<and> fs tmp = None)"
  have all: "h \<noteq> [] \<and> (\<forall>g\<in>set h. on_the_way fs p tmp data m g) \<and> ?P (hd h)
      \<and> (r = Inr () \<longrightarrow> hd h = fold call_effect [Mkdir (path_parent p), Mkstemp tmp] (hd [fs]))"
  proof (rule sys_all_inv [OF assms(1)])
    fix c g assume "c \<in> set [Mkdir (path_parent p), Mkstemp tmp]" "?P g" "call_refused c g = None"
    then show "?P (call_effect c g)"
      using assms(2) mkdir_keeps [OF assms(2)]
      by (auto simp: phase_def call_effect_def call_refused_def path_exists_def temp_beside_def split: if_splits)
  next
    fix g assume "?P g"
    then show "on_the_way fs p tmp data m g" by (auto simp: phase_def on_the_way_def)
  qed (auto simp: phase_def on_the_way_def)
  then show "h \<noteq> []" "\<forall>g\<in>set h. on_the_way fs p tmp data m g" "hd h p = fs p" by (simp_all add: phase_def)
  show "phase fs p tmp (\<lambda>x. x = Some (File [] 384)) (hd h) \<and> fs tmp = None" if ok: "r = Inr ()"
  proof -
    have "call_refused (Mkstemp tmp) (mkdir_parents (path_parent p) fs) = None"
      using sys_all_okD [OF assms(1) [unfolded ok]] sys_all_okD by (fastforce simp: call_effect_def)
    then have "fs tmp = None" by (simp add: call_refused_def path_exists_def mkdir_keeps(2) [OF assms(2)] split: if_splits)
    moreover have "hd h tmp = Some (File [] 384)" using all ok by (simp add: call_effect_def)
    ultimately show ?thesis using all by (simp add: phase_def)
  qed
qed

lemma chmod_phase:
  assumes "sys_all os cs h = (h', r)"
    "cs = (case mode of Some m \<Rightarrow> if os_name os = u ''posix'' then [Fchmod tmp m] else [] | None \<Rightarrow> [])"
    "h \<noteq> []" "\<forall>g\<in>set h. on_the_way fs p tmp data m' g" "phase fs p tmp (\<lambda>x. x = Some (File [] 384)) (hd h)" "tmp \<noteq> p"
  shows "h' \<noteq> []" "\<forall>g\<in>set h'. on_the_way fs p tmp data m' g" "phase fs p tmp (\<lambda>x. \<exists>b k. x = Some (File b k)) (hd h')"
    "r = Inr () \<Longrightarrow> phase fs p tmp (\<lambda>x. x = Some (File [] (target_mode os mode))) (hd h')"
proof -
  let ?P = "phase fs p tmp (\<lambda>x. \<exists>k. x = Some (File [] k))"
  have "h' \<noteq> [] \<and> (\<forall>g\<in>set h'. on_the_way fs p tmp data m' g) \<and> ?P (hd h')
      \<and> (r = Inr () \<longrightarrow> hd h' = fold call_effect cs (hd h))"
  proof (rule sys_all_inv [OF assms(1,3,4)])
    fix c g assume "c \<in> set cs" "?P g"
    then show "?P (call_effect c g)"
      using assms(2,6) by (auto simp: phase_def call_effect_def split: option.splits if_splits)
  next
    fix g assume "?P g"
    then show "on_the_way fs p tmp data m' g" by (auto simp: phase_def on_the_way_def)
  qed (use assms(2,5) in \<open>auto simp: phase_def split: option.splits if_splits\<close>)
  then show "h' \<noteq> []" "\<forall>g\<in>set h'. on_the_way fs p tmp data m' g" "phase fs p tmp (\<lambda>x. \<exists>b k. x = Some (File b k)) (hd h')"
    "r = Inr () \<Longrightarrow> phase fs p tmp (\<lambda>x. x = Some (File [] (target_mode os mode))) (hd h')"
    using assms(2,5,6) by (auto simp: phase_def call_effect_def target_mode_def split: option.splits if_splits)
qed

lemma content_phase:
  assumes "sys_all os [WriteFile tmp data, Fsync tmp] h = (h', r)"
    "h \<noteq> []" "\<forall>g\<in>set h. on_the_way fs p tmp data m g" "phase fs p tmp (\<lambda>x. x = Some (File [] m)) (hd h)" "tmp \<noteq> p"
  shows "h' \<noteq> []" "\<forall>g\<in>set h'. on_the_way fs p tmp data m g" "phase fs p tmp (\<lambda>x. \<exists>b k. x = Some (File b k)) (hd h')"
    "r = Inr () \<Longrightarrow> phase fs p tmp (\<lambda>x. x = Some (File data m)) (hd h')"
proof -
  let ?P = "phase fs p tmp (\<lambda>x. \<exists>b. x = Some (File b m))"
  have "h' \<noteq> [] \<and> (\<forall>g\<in>set h'. on_the_way fs p tmp data m g) \<and> ?P (hd h')
      \<and> (r = Inr () \<longrightarrow> hd h' = fold call_effect [WriteFile tmp data, Fsync tmp] (hd h))"
  proof (rule sys_all_inv [OF assms(1,2,3)])
    fix g assume "?P g"
    then show "on_the_way fs p tmp data m g" by (auto simp: phase_def on_the_way_def)
  qed (use assms(4,5) in \<open>auto simp: phase_def call_effect_def set_content_def\<close>)
  then show "h' \<noteq> []" "\<forall>g\<in>set h'. on_the_way fs p tmp data m g" "phase fs p tmp (\<lambda>x. \<exists>b k. x = Some (File b k)) (hd h')"
    "r = Inr () \<Longrightarrow> phase fs p tmp (\<lambda>x. x = Some (File data m)) (hd h')"
    using assms(4,5) by (auto simp: phase_def call_effect_def set_content_def)
qed

lemma prepare_failed:
  assumes "sys_all os [Mkdir (path_parent p), Mkstemp tmp] [fs] = (h, Inl e)" "temp_beside tmp p"
  shows "hd h tmp = fs tmp"
proof (cases "sys os (Mkdir (path_parent p)) [fs]")
  case (Pair h1 r1)
  then show ?thesis
    using assms sys_cases [OF Pair] sys_cases [of os "Mkstemp tmp" h1] mkdir_keeps(2) [OF assms(2)]
    by (auto simp: call_effect_def split: sum.splits prod.splits)
qed

text \<open>From the content in the temporary file to the end of the \<open>try\<close>\<close>

lemma replace_phase:
  assumes "sys os (Replace tmp p) h = (h', r)" "tmp \<noteq> p"
    "h \<noteq> []" "\<forall>g\<in>set h. on_the_way fs p tmp data m g" "phase fs p tmp (\<lambda>x. x = Some (File data m)) (hd h)"
  shows "h' \<noteq> []" "\<forall>g\<in>set h'. on_the_way fs p tmp data m g"
    "r = Inr () \<Longrightarrow> hd h' p = Some (File data m) \<and> hd h' tmp = None"
    "r = Inl e \<Longrightarrow> phase fs p tmp (\<lambda>x. \<exists>b k. x = Some (File b k)) (hd h')"
proof -
  have "on_the_way fs p tmp data m (call_effect (Replace tmp p) (hd h))"
    "call_effect (Replace tmp p) (hd h) p = Some (File data m)" "call_effect (Replace tmp p) (hd h) tmp = None"
    using assms(2,5) by (auto simp: phase_def on_the_way_def call_effect_def)
  moreover have "phase fs p tmp (\<lambda>x. \<exists>b k. x = Some (File b k)) (hd h)" using assms(5) by (simp add: phase_def)
  ultimately show "h' \<noteq> []" "\<forall>g\<in>set h'. on_the_way fs p tmp data m g"
    "r = Inr () \<Longrightarrow> hd h' p = Some (File data m) \<and> hd h' tmp = None"
    "r = Inl e \<Longrightarrow> phase fs p tmp (\<lambda>x. \<exists>b k. x = Some (File b k)) (hd h')"
    using sys_cases [OF assms(1)] assms(3,4) by auto
qed

lemma try_phase:
  assumes "sys_all os (write_calls os tmp p data mode) h = (h', r)" "tmp \<noteq> p"
    "h \<noteq> []" "\<forall>g\<in>set h. on_the_way fs p tmp data (target_mode os mode) g"
    "phase fs p tmp (\<lambda>x. x = Some (File [] 384)) (hd h)"
  shows "h' \<noteq> [] \<and> (\<forall>g\<in>set h'. on_the_way fs p tmp data (target_mode os mode) g)
    \<and> (case r of Inr _ \<Rightarrow> hd h' p = Some (File data (target_mode os mode)) \<and> hd h' tmp = None
        | Inl e \<Rightarrow> phase fs p tmp (\<lambda>x. \<exists>b k. x = Some (File b k)) (hd h'))"
proof -
  let ?cs = "case mode of Some m \<Rightarrow> if os_name os = u ''posix'' then [Fchmod tmp m] else [] | None \<Rightarrow> []"
  have calls: "write_calls os tmp p data mode = ?cs @ [WriteFile tmp data, Fsync tmp] @ [Replace tmp p]"
    by (simp add: write_calls_def)
  obtain h1 r1 where 1: "sys_all os ?cs h = (h1, r1)" by force
  note a = chmod_phase [OF 1 refl assms(3,4,5,2)]
  show ?thesis
  proof (cases r1)
    case (Inl e)
    then show ?thesis using assms(1) 1 a(1-3) unfolding calls sys_all_append by auto
  next
    case ok1: (Inr x)
    obtain h2 r2 where 2: "sys_all os [WriteFile tmp data, Fsync tmp] h1 = (h2, r2)" by force
    note b = content_phase [OF 2 a(1,2) a(4) assms(2)]
    show ?thesis
    proof (cases r2)
      case (Inl e)
      then show ?thesis using assms(1) 1 2 b(1-3) ok1 unfolding calls sys_all_append by auto
    next
      case (Inr y)
      obtain h3 r3 where 3: "sys os (Replace tmp p) h2 = (h3, r3)" by force
      have "h' = h3" "r = r3" using assms(1) 1 2 3 ok1 Inr unfolding calls sys_all_append by (auto split: sum.splits)
      then show ?thesis
        using replace_phase [OF 3 assms(2) b(1,2) b(4)] ok1 Inr by (auto split: sum.split)
    qed
  qed
qed

lemma atomic_write_states:
  assumes "atomic_write_bytes os p data mode [fs] = (h, r)"
    and tmp: "tmp = os_temp os (path_parent p) (46 # path_name p @ [46])" "temp_beside tmp p"
  shows "h \<noteq> [] \<and> (\<forall>g\<in>set h. on_the_way fs p tmp data (target_mode os mode) g)
    \<and> (case r of Inr _ \<Rightarrow> hd h p = Some (File data (target_mode os mode)) \<and> hd h tmp = None
        | Inl e \<Rightarrow> hd h p = fs p \<and> (hd h tmp = fs tmp \<or> os_fail os (Unlink tmp) \<noteq> None))"
proof -
  obtain h1 r1 where 1: "sys_all os [Mkdir (path_parent p), Mkstemp tmp] [fs] = (h1, r1)" by force
  note a = prepare_phase [OF 1 tmp(2)]
  have "tmp \<noteq> p" using tmp(2) by (simp add: temp_beside_def)
  show ?thesis
  proof (cases r1)
    case (Inl e)
    then have "h = h1" "r = Inl e" using assms(1) 1 tmp(1) by (simp_all add: atomic_write_bytes_def Let_def)
    then show ?thesis using a(1-3) prepare_failed [OF _ tmp(2)] 1 Inl by auto
  next
    case ok1: (Inr x)
    obtain h2 r2 where 2: "sys_all os (write_calls os tmp p data mode) h1 = (h2, r2)" by force
    note b = try_phase [OF 2 \<open>tmp \<noteq> p\<close> a(1,2)]
    show ?thesis
    proof (cases r2)
      case (Inr y)
      then have "h = h2" "r = Inr ()" using assms(1) 1 2 tmp(1) ok1 by (simp_all add: atomic_write_bytes_def Let_def)
      then show ?thesis using b a(4) ok1 Inr by simp
    next
      case (Inl e)
      then have i: "h2 \<noteq> []" "\<forall>g\<in>set h2. on_the_way fs p tmp data (target_mode os mode) g"
        "phase fs p tmp (\<lambda>x. \<exists>b k. x = Some (File b k)) (hd h2)" "fs tmp = None"
        using b a(4) ok1 by auto
      obtain h3 r3 where 3: "sys os (Unlink tmp) h2 = (h3, r3)" by force
      have h: "h = h3" "\<exists>e. r = Inl e"
        using assms(1) 1 2 3 tmp(1) ok1 Inl by (auto simp: atomic_write_bytes_def Let_def split: sum.splits if_splits)
      have "r3 = Inr () \<or> os_fail os (Unlink tmp) \<noteq> None"
        using 3 i(3) by (auto simp: sys_def call_refused_def path_exists_def phase_def split: option.splits)
      moreover have "on_the_way fs p tmp data (target_mode os mode) (call_effect (Unlink tmp) (hd h2))"
        "call_effect (Unlink tmp) (hd h2) p = fs p" "call_effect (Unlink tmp) (hd h2) tmp = fs tmp" "hd h2 p = fs p"
        using i(3,4) \<open>tmp \<noteq> p\<close> by (auto simp: phase_def on_the_way_def call_effect_def)
      ultimately show ?thesis using sys_cases [OF 3] i(1,2) h by auto
    qed
  qed
qed

section \<open>Private keys\<close>

lemma json_indent_no_cr: "c \<in> set (json_indent d v) \<Longrightarrow> printable c \<or> c = 10"
proof (induction v arbitrary: d)
  case (PList xs)
  then show ?case
    by (auto simp: newline_indent_def printable_def u_def dest!: set_join split: if_splits)
next
  case (PDict kvs)
  then show ?case
    by (auto simp: newline_indent_def u_def dest!: set_join quote_printable split: if_splits prod.splits)
      (auto simp: printable_def)
qed (auto dest: int_str_printable quote_printable simp: printable_def u_def split: if_splits)

lemma read_private_json:
  assumes "json_ok (PDict data)" "json_dumps_indent (PDict data) = Inr t" "utf8_encode t = Inr b"
    and "fs p = Some (File b m)" "os_fail os (ReadFile p) = None"
  shows "ebind (read_text os fs p) json_loads = Inr (PDict data)"
proof -
  have "13 \<notin> set t"
    using json_indent_no_cr [of 13 0 "PDict data"] assms(2)
    by (auto simp: json_dumps_indent_def printable_def simp del: json_indent.simps split: if_splits)
  then show ?thesis
    using assms utf8_decode_encode [OF assms(3)] json_loads_indent [OF assms(1,2)]
    by (simp add: read_text_def universal_newlines_id)
qed

section \<open>Properties\<close>

text \<open>
  C30: an atomic write is all or nothing. Whatever system call fails, and at whatever point a crash
  stops the write, the target is the old file or the whole new one, every other file is as before,
  and the data never stands under other bits than those asked for (600 unless the caller names some);
  a write that returns has replaced the target and left no temporary file, one that raises has
  left the target alone and removed the temporary file unless that failed too.
\<close>

theorem atomic_write_all_or_nothing:
  assumes "atomic_write_bytes os p data mode [fs] = (h, r)"
    and "tmp = os_temp os (path_parent p) (46 # path_name p @ [46])" "temp_beside tmp p"
  shows "(\<forall>g\<in>set h.
      (g p = fs p \<or> g p = Some (File data (target_mode os mode)))
      \<and> (\<forall>q b k. q \<noteq> p \<longrightarrow> q \<noteq> tmp \<longrightarrow> (g q = Some (File b k) \<longleftrightarrow> fs q = Some (File b k)))
      \<and> (\<forall>b k. g tmp = Some (File b k) \<longrightarrow> fs tmp = Some (File b k) \<or> b = [] \<or> k = target_mode os mode))
    \<and> (case r of
        Inr _ \<Rightarrow> hd h p = Some (File data (target_mode os mode)) \<and> hd h tmp = None
      | Inl e \<Rightarrow> hd h p = fs p \<and> (hd h tmp = fs tmp \<or> os_fail os (Unlink tmp) \<noteq> None))"
  using atomic_write_states [OF assms] unfolding on_the_way_def by blast

text \<open>
  A private key file is protected. After \<open>atomic_write_private_json\<close> returns, the file has the
  bits 600 on a POSIX system, it reads back to the key, it is recognized as a private key, and no
  later command may choose it as its output, not even one that may overwrite files.
\<close>

theorem private_key_protected:
  assumes "atomic_write_private_json os p data [fs] = (h, Inr acl)"
    and "temp_beside (os_temp os (path_parent p) (46 # path_name p @ [46])) p"
    and "json_ok (PDict data)" "is_private_key_dict (PDict data)"
    and "os_name os = u ''posix''" "os_fail os (ReadFile p) = None"
  shows "(\<exists>b. hd h p = Some (File b 384)) \<and> ebind (read_text os (hd h) p) json_loads = Inr (PDict data)
    \<and> is_private_key_file os (hd h) p = Inr True
    \<and> (\<exists>e. validate_output_path U os (hd h) p input_paths allow_existing True = Inl e)"
proof -
  obtain t b where t: "json_dumps_indent (PDict data) = Inr t" "utf8_encode t = Inr b"
    and w: "atomic_write_bytes os p b (Some 384) [fs] = (h, Inr ())"
    using assms(1) by (auto simp: atomic_write_private_json_def atomic_write_text_def split: sum.splits prod.splits)
  have p: "hd h p = Some (File b 384)"
    using atomic_write_states [OF w refl assms(2)] assms(5) by (simp add: target_mode_def)
  have r: "ebind (read_text os (hd h) p) json_loads = Inr (PDict data)"
    by (rule read_private_json [where m = 384]) (use assms t p in auto)
  then have k: "is_private_key_file os (hd h) p = Inr True"
    using p assms(4) by (simp add: is_private_key_file_def path_exists_def is_file_def)
  then have "\<exists>e. validate_output_path U os (hd h) p input_paths allow_existing True = Inl e"
    by (cases "check_inputs os p input_paths") (auto simp: validate_output_path_def)
  with p r k show ?thesis by blast
qed

lemma json_indent_scalar: "c \<in> set (json_indent d v) \<Longrightarrow> is_scalar c"
  using json_indent_no_cr [of c d v] by (auto simp: printable_def intro: scalar_below)

lemma atomic_write_succeeds:
  assumes "\<And>c. os_fail os c = None" "tmp = os_temp os (path_parent p) (46 # path_name p @ [46])" "temp_beside tmp p"
    and "fs tmp = None" "fs p \<noteq> Some Dir" "\<And>n. n < length p \<Longrightarrow> \<not> is_file fs (take n p)"
  shows "\<exists>h. atomic_write_bytes os p data mode [fs] = (h, Inr ())"
proof -
  have "call_refused (Mkdir (path_parent p)) fs = None"
    using assms(3,6) by (auto simp: call_refused_def path_parent_def list_ex_iff butlast_conv_take temp_beside_def)
  then have "sys os (Mkdir (path_parent p)) [fs] = ([mkdir_parents (path_parent p) fs, fs], Inr ())"
    using assms(1) by (simp add: sys_def call_effect_def)
  then show ?thesis
    using assms mkdir_keeps [OF assms(3)]
    by (auto simp: atomic_write_bytes_def write_calls_def Let_def sys_def call_refused_def call_effect_def set_content_def
        path_exists_def temp_beside_def split: option.split)
qed

text \<open>A POSIX system on which nothing fails, or one call does\<close>

definition sample_os :: "(syscall \<Rightarrow> exn option) \<Rightarrow> os" where
  "sample_os fail =
     \<lparr>os_name = u ''posix'', os_env = (\<lambda>_. None), os_fail = fail, os_written = 1,
      os_temp = (\<lambda>d pre. d @ [pre @ u ''x.tmp'']), os_resolve = Inr, os_abspath = (\<lambda>p. p),
      os_path_str = join [47]\<rparr>"

lemma sample_temp: "temp_beside (os_temp (sample_os fail) (path_parent p) (46 # path_name p @ [46])) p"
  if "p \<noteq> []"
proof -
  have "path_parent p @ [46 # path_name p @ [46] @ u ''x.tmp''] \<noteq> p"
  proof
    assume "path_parent p @ [46 # path_name p @ [46] @ u ''x.tmp''] = p"
    then have "last p = 46 # path_name p @ [46] @ u ''x.tmp''" by (metis last_snoc)
    then have "length (last p) = length (46 # last p @ [46] @ u ''x.tmp'')" using that by (simp add: path_name_def)
    then show False by simp
  qed
  then show ?thesis using that by (simp add: temp_beside_def sample_os_def path_parent_def)
qed

theorem atomic_write_all_or_nothing_witness:
  "\<exists>h e. atomic_write_bytes (sample_os (\<lambda>c. case c of Fsync _ \<Rightarrow> Some (OSError ''fsync'') | _ \<Rightarrow> None))
        [u ''a'', u ''k''] [1, 2, 3] (Some 384) [Map.empty([u ''a'', u ''k''] \<mapsto> File [9] 420)] = (h, Inl e)
     \<and> hd h [u ''a'', u ''k''] = Some (File [9] 420)"
proof -
  let ?os = "sample_os (\<lambda>c. case c of Fsync _ \<Rightarrow> Some (OSError ''fsync'') | _ \<Rightarrow> None)"
  let ?p = "[u ''a'', u ''k'']"
  obtain h r where w: "atomic_write_bytes ?os ?p [1, 2, 3] (Some 384) [Map.empty(?p \<mapsto> File [9] 420)] = (h, r)" by force
  have "\<exists>e. r = Inl e"
    using w by (auto simp: atomic_write_bytes_def write_calls_def sys_def call_refused_def call_effect_def sample_os_def
        path_parent_def path_name_def is_file_def path_exists_def mkdir_parents_def prefixed_def u_def Let_def
        split: if_splits prod.splits sum.splits)
  then show ?thesis using atomic_write_all_or_nothing [OF w refl sample_temp] w by auto
qed

theorem private_key_protected_witness:
  "\<exists>h acl e. atomic_write_private_json (sample_os (\<lambda>_. None)) [u ''k'']
        [(key ''x25519_priv'', PStr (u ''00'')), (key ''ed25519_priv'', PStr (u ''01''))] [Map.empty] = (h, Inr acl)
     \<and> is_private_key_file (sample_os (\<lambda>_. None)) (hd h) [u ''k''] = Inr True
     \<and> validate_output_path ascii_ucd (sample_os (\<lambda>_. None)) (hd h) [u ''k''] [] True True = Inl e"
proof -
  let ?os = "sample_os (\<lambda>_. None)" and ?d = "[(key ''x25519_priv'', PStr (u ''00'')), (key ''ed25519_priv'', PStr (u ''01''))]"
  have ok: "json_ok (PDict ?d)" "is_private_key_dict (PDict ?d)"
    by (simp_all add: key_ok_def key_def scalar_str_def u_def is_scalar_def is_surrogate_def is_private_key_dict_def is_str_def)
  obtain t where t: "json_dumps_indent (PDict ?d) = Inr t" using json_dumps_indent_ok [OF ok(1)] by blast
  have "is_ok (utf8_encode t)"
    using json_indent_scalar t by (auto simp: utf8_encode_ok_iff json_dumps_indent_def simp del: json_indent.simps split: if_splits)
  then obtain b where b: "utf8_encode t = Inr b" by (auto simp: is_ok_ex)
  obtain h where "atomic_write_bytes ?os [u ''k''] b (Some 384) [Map.empty] = (h, Inr ())"
    using atomic_write_succeeds [of ?os _ "[u ''k'']" Map.empty b "Some 384", OF _ refl] sample_temp
    by (auto simp: sample_os_def is_file_def)
  then have "atomic_write_private_json ?os [u ''k''] ?d [Map.empty] = (h, Inr None)"
    using t b by (simp add: atomic_write_private_json_def atomic_write_text_def sample_os_def u_def)
  note w = this
  from private_key_protected [OF w sample_temp ok] w show ?thesis by (auto simp: sample_os_def)
qed

end
