(* ===== verification/Canary.thy ===== *)
theory Canary
  imports RegistryQuery JsonIndent
begin

text \<open>
  The monitor that watches a registry and raises alerts
  (\<open>src/integrations/perseus_canarykeeper.py\<close>): its state file, its client of the registry, which
  trusts nothing but a pinned key, and a polling cycle. The network is a function from a URL and its
  parameters to a reply, the notifier the list of the messages it has posted.
\<close>

section \<open>State\<close>

definition default_state :: pydict where
  "default_state = [(key ''last_tlog_seen'', PInt 0), (key ''known_file_ids'', PList []), (key ''trap_file_ids'', PList [])]"

text \<open>The argument is the state file: none, or what reading it gives.\<close>

definition load_state :: "pystr res option \<Rightarrow> pyval res" where
  "load_state file =
     (case file of
        None \<Rightarrow> Inr (PDict default_state)
      | Some text \<Rightarrow>
          (case ebind text json_loads of
             Inl e \<Rightarrow> if is_ValueError e \<or> is_OSError e then Inr (PDict default_state) else Inl e
           | Inr v \<Rightarrow> Inr v))"

text \<open>\<open>io\<close> is what the file system calls raise, if they do; the file is replaced as a whole.\<close>

definition save_state :: "exn option \<Rightarrow> pydict \<Rightarrow> pystr option \<Rightarrow> pystr option \<times> unit res" where
  "save_state io state file =
     (case json_dumps_indent (PDict state) of
        Inl e \<Rightarrow> (file, Inl e)
      | Inr text \<Rightarrow> (case io of Some e \<Rightarrow> (file, Inl e) | None \<Rightarrow> (Some text, Inr ())))"

section \<open>The registry's client\<close>

text \<open>\<open>NoReply\<close> stands for a transport error, the body of a reply is what \<open>r.json()\<close> gives.\<close>

datatype reply = NoReply | Reply int "pyval res"

type_synonym http = "pystr \<Rightarrow> (string \<times> pyval) list \<Rightarrow> reply"

definition status_code :: "reply \<Rightarrow> int option" where
  "status_code r = (case r of NoReply \<Rightarrow> None | Reply code _ \<Rightarrow> Some code)"

definition raise_for_status :: "reply \<Rightarrow> pyval res" where
  "raise_for_status r =
     (case r of
        NoReply \<Rightarrow> Inl (HTTPError ''transport'')
      | Reply code body \<Rightarrow> if 200 \<le> code \<and> code < 300 then body else Inl (HTTPError ''status''))"

definition is_HTTPError :: "exn \<Rightarrow> bool" where
  "is_HTTPError e = (case e of HTTPError _ \<Rightarrow> True | _ \<Rightarrow> False)"

record registry_monitor =
  mon_url :: pystr
  pinned_pub :: bytes

definition monitor_init :: "pystr \<Rightarrow> pystr \<Rightarrow> registry_monitor res" where
  "monitor_init url pinned_pubkey_hex =
     ebind (fromhex pinned_pubkey_hex) (\<lambda>pk.
     ebind (guard (length pk = 32) (ValueError ''An Ed25519 public key is 32 bytes long'')) (\<lambda>_.
       Inr \<lparr>mon_url = rstrip_chars (u ''/'') url, pinned_pub = pk\<rparr>))"

definition py_encode :: "pyval \<Rightarrow> bytes res" where
  "py_encode v = (case v of PStr s \<Rightarrow> utf8_encode s | _ \<Rightarrow> Inl (AttributeError ''encode''))"

definition tamper :: string where
  "tamper = ''registry /tlog/head signature does not verify under pinned key! possible tampering or key rotation''"

definition monitor_head :: "crypto_ops \<Rightarrow> http \<Rightarrow> registry_monitor \<Rightarrow> pyval res" where
  "monitor_head C http mon =
     ebind (raise_for_status (http (mon_url mon @ u ''/tlog/head'') [])) (\<lambda>head.
     ebind (ebind (py_item head ''signature'') py_fromhex) (\<lambda>sg.
     ebind (ebind (py_item head ''signed_message'') py_encode) (\<lambda>msg.
     ebind (guard (ed_verify C (pinned_pub mon) sg msg) (RuntimeError tamper)) (\<lambda>_.
       Inr head))))"

text \<open>\<open>json.dumps(v, sort_keys=True, separators=(",", ":"), ensure_ascii=False)\<close>: keys in code point order\<close>

fun sort_keys :: "pyval \<Rightarrow> pyval" where
  "sort_keys (PList xs) = PList (map sort_keys xs)"
| "sort_keys (PDict kvs) = PDict (sort_key (\<lambda>kv. key_text (fst kv)) (map (\<lambda>(k, v). (k, sort_keys v)) kvs))"
| "sort_keys v = v"

definition json_dumps_sorted :: "pyval \<Rightarrow> pystr res" where
  "json_dumps_sorted v =
     (if dumpable v then Inr (json_write [44] [58] jcs_esc (sort_keys v))
      else Inl (TypeError ''not JSON serializable''))"

definition monitor_evidence :: "crypto_ops \<Rightarrow> http \<Rightarrow> registry_monitor \<Rightarrow> pystr \<Rightarrow> pydict option res" where
  "monitor_evidence C http mon file_id =
     (let fetched =
        (let r = http (mon_url mon @ u ''/evidence/'' @ file_id) [] in
         if status_code r = Some 404 then Inr None
         else
           (case raise_for_status r of
              Inl e \<Rightarrow> if is_HTTPError e then Inr None else Inl e
            | Inr v \<Rightarrow> Inr (Some v)))
      in ebind fetched (\<lambda>f.
         case f of
           None \<Rightarrow> Inr None
         | Some (PDict bundle) \<Rightarrow>
             let sig_hex = dgetn bundle ''bundle_signature_ed25519'';
                 rest = AList.delete (key ''bundle_signature_ed25519'') bundle
             in if \<not> truthy sig_hex then Inr None
                else
                  ebind (ebind (json_dumps_sorted (PDict rest)) utf8_encode) (\<lambda>msg.
                  ebind (py_fromhex sig_hex) (\<lambda>sg.
                  if ed_verify C (pinned_pub mon) sg msg
                  then Inr (Some (rest @ [(key ''bundle_signature_ed25519'', sig_hex)]))
                  else Inr None))
         | Some (PList _) \<Rightarrow> Inl (TypeError ''pop'')
         | Some _ \<Rightarrow> Inl (AttributeError ''pop'')))"

definition monitor_entries :: "http \<Rightarrow> registry_monitor \<Rightarrow> pyval \<Rightarrow> pyval res" where
  "monitor_entries http mon start_index =
     (case raise_for_status (http (mon_url mon @ u ''/tlog/range'') [(''start'', start_index), (''limit'', PInt 500)]) of
        Inl e \<Rightarrow> if is_HTTPError e then Inr (PList []) else Inl e
      | Inr v \<Rightarrow> py_get v ''entries'' (PList []))"

section \<open>Alerts\<close>

record alert =
  al_content :: pystr
  al_title :: pystr
  al_description :: pystr
  al_color :: int
  al_timestamp :: pystr

record notifier =
  nt_owner :: pystr
  nt_sent :: "alert list"

definition alert_color :: "string \<Rightarrow> int" where
  "alert_color priority =
     (if priority = ''P1'' then 0xFF0000
      else if priority = ''P2'' then 0xFF9900
      else if priority = ''P3'' then 0xFFFF00
      else 0x0099FF)"

text \<open>A post that fails is only written to the log.\<close>

definition send_alert :: "pystr \<Rightarrow> string \<Rightarrow> pystr \<Rightarrow> pystr \<Rightarrow> notifier \<Rightarrow> notifier" where
  "send_alert now priority title body n =
     n\<lparr>nt_sent := nt_sent n @
        [\<lparr>al_content = (if priority = ''P1'' then u ''<@'' @ nt_owner n @ u ''>'' else []),
          al_title = u ''['' @ u priority @ u ''] '' @ title,
          al_description = take 4000 body,
          al_color = alert_color priority,
          al_timestamp = now\<rparr>]\<rparr>"

section \<open>Events\<close>

text \<open>\<open>x in v\<close> for the values of a parsed JSON document\<close>

definition py_member :: "pyval \<Rightarrow> pyval \<Rightarrow> bool res" where
  "py_member x v =
     (case v of
        PList xs \<Rightarrow> Inr (x \<in> set xs)
      | PDict d \<Rightarrow> ebind (py_key x) (\<lambda>k. Inr (k \<in> fst ` set d))
      | PStr s \<Rightarrow> (case x of PStr t \<Rightarrow> Inr (contains t s) | _ \<Rightarrow> Inl (TypeError ''in <string> requires string''))
      | _ \<Rightarrow> Inl (TypeError ''argument is not iterable''))"

definition py_slice8 :: "pyval \<Rightarrow> pyval res" where
  "py_slice8 v =
     (case v of
        PStr s \<Rightarrow> Inr (PStr (take 8 s))
      | PList xs \<Rightarrow> Inr (PList (take 8 xs))
      | _ \<Rightarrow> Inl (TypeError ''not sliceable''))"

definition bullet :: pystr where
  "bullet = [0x2022, 32]"

definition trap_body :: "world \<Rightarrow> pyval \<Rightarrow> pyval \<Rightarrow> pyval \<Rightarrow> pyval \<Rightarrow> pystr" where
  "trap_body W beacon_kind source_ip file_id timestamp =
     u ''A decoy file's beacon fired. This is a high-confidence intrusion signal.'' @ [10]
     @ bullet @ u ''beacon kind: `'' @ py_str W beacon_kind @ u ''`'' @ [10]
     @ bullet @ u ''source IP:   `'' @ py_str W source_ip @ u ''`'' @ [10]
     @ bullet @ u ''file_id:     `'' @ py_str W file_id @ u ''`'' @ [10]
     @ bullet @ u ''timestamp:   `'' @ py_str W timestamp @ u ''`'' @ [10, 10]
     @ u ''Action: investigate source IP, pull evidence bundle, consider containment.''"

definition real_body :: "world \<Rightarrow> pyval \<Rightarrow> pyval \<Rightarrow> pyval \<Rightarrow> pystr" where
  "real_body W beacon_kind source_ip recipient =
     u ''A legitimate sealed file's beacon fired (expected behavior on open).'' @ [10]
     @ bullet @ u ''kind: `'' @ py_str W beacon_kind @ u ''`, source: `'' @ py_str W source_ip @ u ''`, ''
     @ u ''recipient: `'' @ py_str W recipient @ u ''`''"

definition process_event :: "world \<Rightarrow> pystr \<Rightarrow> pyval \<Rightarrow> pydict \<Rightarrow> notifier \<Rightarrow> notifier \<times> unit res" where
  "process_event W now event state n =
     (case event of
        PDict ev \<Rightarrow>
          if dgetn ev ''event'' \<noteq> str_val ''beacon'' then (n, Inr ())
          else
            let file_id = dgetn ev ''file_id'' in
            if \<not> truthy file_id then (n, Inr ())
            else
              (case ebind (py_member file_id (dgetd state ''trap_file_ids'' (PList []))) (\<lambda>is_trap.
                    ebind (py_slice8 file_id) (\<lambda>short. Inr (is_trap, short))) of
                 Inl e \<Rightarrow> (n, Inl e)
               | Inr (is_trap, short) \<Rightarrow>
                   let beacon_kind = dgetd ev ''kind'' (str_val ''unknown'');
                       source_ip = or_else (dgetn ev ''source_ip'') (str_val ''unknown'')
                   in if is_trap
                      then (send_alert now ''P1'' (u ''TRAP FILE OPENED: '' @ py_str W short @ u ''...'')
                              (trap_body W beacon_kind source_ip file_id (dgetd ev ''timestamp'' (str_val ''?''))) n, Inr ())
                      else (send_alert now ''P3'' (u ''Real file beacon: '' @ py_str W short @ u ''...'')
                              (real_body W beacon_kind source_ip (dgetd ev ''recipient_id'' (str_val ''?''))) n, Inr ()))
      | _ \<Rightarrow> (n, Inl (AttributeError ''get'')))"

section \<open>Polling\<close>

text \<open>\<open>a <= b\<close> for numbers and strings\<close>

definition py_number :: "pyval \<Rightarrow> pyfloat option" where
  "py_number v =
     (case v of
        PInt i \<Rightarrow> Some (Fin (of_int i))
      | PBool t \<Rightarrow> Some (Fin (if t then 1 else 0))
      | PFloat f \<Rightarrow> Some f
      | _ \<Rightarrow> None)"

definition float_le :: "pyfloat \<Rightarrow> pyfloat \<Rightarrow> bool" where
  "float_le a b =
     (case (a, b) of
        (NaN, _) \<Rightarrow> False
      | (_, NaN) \<Rightarrow> False
      | (Fin x, Fin y) \<Rightarrow> x \<le> y
      | (NegInf, _) \<Rightarrow> True
      | (_, PosInf) \<Rightarrow> True
      | _ \<Rightarrow> False)"

definition py_le :: "pyval \<Rightarrow> pyval \<Rightarrow> bool res" where
  "py_le a b =
     (case (py_number a, py_number b) of
        (Some x, Some y) \<Rightarrow> Inr (float_le x y)
      | _ \<Rightarrow> (case (a, b) of (PStr s, PStr t) \<Rightarrow> Inr (s \<le> t) | _ \<Rightarrow> Inl (TypeError ''<= not supported'')))"

record canary =
  cn_state :: pydict
  cn_file :: "pystr option"
  cn_notifier :: notifier

text \<open>The event of an entry; whatever goes wrong with it is written to the log.\<close>

definition entry_event :: "pyval \<Rightarrow> pyval res" where
  "entry_event entry =
     ebind (py_get entry ''leaf_data'' (PStr (u ''{}''))) (\<lambda>d.
       case d of PStr s \<Rightarrow> json_loads s | _ \<Rightarrow> Inl (TypeError ''the JSON object must be str''))"

definition process_entry :: "world \<Rightarrow> pystr \<Rightarrow> pydict \<Rightarrow> pyval \<Rightarrow> notifier \<Rightarrow> notifier" where
  "process_entry W now state entry n =
     (case entry_event entry of
        Inl e \<Rightarrow> n
      | Inr event \<Rightarrow> fst (process_event W now event state n))"

text \<open>\<open>http\<close> is the network when the head is fetched, \<open>http'\<close> when the range is: in between the log may grow.\<close>

definition run_once ::
  "world \<Rightarrow> pystr \<Rightarrow> exn option \<Rightarrow> http \<Rightarrow> http \<Rightarrow> registry_monitor \<Rightarrow> canary \<Rightarrow> canary \<times> unit res" where
  "run_once W now io http http' mon c =
     (case monitor_head (w_ops W) http mon of
        Inl (RuntimeError msg) \<Rightarrow>
          (c\<lparr>cn_notifier := send_alert now ''P1'' (u ''Registry signature check FAILED'') (w_err W (RuntimeError msg)) (cn_notifier c)\<rparr>,
           Inl (RuntimeError msg))
      | Inl e \<Rightarrow> (c, if is_HTTPError e then Inr () else Inl e)
      | Inr head \<Rightarrow>
          let old_seen = dgetd (cn_state c) ''last_tlog_seen'' (PInt 0) in
          (case ebind (py_item head ''size'') (\<lambda>new_size.
                ebind (py_le new_size old_seen) (\<lambda>nothing_new. Inr (new_size, nothing_new))) of
             Inl e \<Rightarrow> (c, Inl e)
           | Inr (new_size, True) \<Rightarrow> (c, Inr ())
           | Inr (new_size, False) \<Rightarrow>
               (case ebind (monitor_entries http' mon old_seen) py_iter of
                  Inl e \<Rightarrow> (c, Inl e)
                | Inr entries \<Rightarrow>
                    let n = fold (process_entry W now (cn_state c)) entries (cn_notifier c);
                        state = dset (cn_state c) ''last_tlog_seen'' new_size
                    in case save_state io state (cn_file c) of
                         (file, r) \<Rightarrow> (\<lparr>cn_state = state, cn_file = file, cn_notifier = n\<rparr>, r))))"

text \<open>
  The cycles of \<open>main\<close>, each with its time, what writing the state does, and the network at its two
  requests. What a cycle raises is logged, and the next one goes on from the state it left.
\<close>

definition poll_cycles ::
  "world \<Rightarrow> registry_monitor \<Rightarrow> (pystr \<times> exn option \<times> http \<times> http) list \<Rightarrow> canary \<Rightarrow> canary" where
  "poll_cycles W mon cycles c = fold (\<lambda>(now, io, http, http') c. fst (run_once W now io http http' mon c)) cycles c"

section \<open>What a poll can lose\<close>

text \<open>
  A poll whose range request fails with an HTTP error posts nothing about the new entries and still
  advances past all of them, so no later poll asks for them again.
\<close>

theorem range_failure_loses_events:
  assumes "monitor_head (w_ops W) http mon = Inr head" "py_item head ''size'' = Inr (PInt n)"
    and "dgetd (cn_state c) ''last_tlog_seen'' (PInt 0) = PInt k" "k < n"
    and "raise_for_status (http' (mon_url mon @ u ''/tlog/range'') [(''start'', PInt k), (''limit'', PInt 500)]) = Inl (HTTPError e)"
    and "run_once W now io http http' mon c = (c', r)"
  shows "cn_notifier c' = cn_notifier c \<and> dgetd (cn_state c') ''last_tlog_seen'' (PInt 0) = PInt n"
proof -
  have "py_le (PInt n) (PInt k) = Inr False" using assms(4) by (simp add: py_le_def py_number_def float_le_def)
  moreover have "monitor_entries http' mon (PInt k) = Inr (PList [])"
    using assms(5) by (simp add: monitor_entries_def is_HTTPError_def)
  ultimately show ?thesis
    using assms by (auto simp: run_once_def Let_def dgetd_def [of "dset _ _ _"] split: prod.splits)
qed

text \<open>
  The size the monitor acts on is not part of what it verifies: whoever answers for the registry can
  put any size beside a signed head.
\<close>

theorem head_size_unsigned:
  assumes "http (mon_url mon @ u ''/tlog/head'') [] = Reply 200 (Inr (PDict h))" "monitor_head C http mon = Inr head"
    and "http' (mon_url mon @ u ''/tlog/head'') [] = Reply 200 (Inr (PDict (dset h ''size'' v)))"
  shows "monitor_head C http' mon = Inr (PDict (dset h ''size'' v)) \<and> py_item (PDict (dset h ''size'' v)) ''size'' = Inr v"
  using assms by (auto simp: monitor_head_def raise_for_status_def py_item_def ditem_def ebind_eq_Inr split: option.splits)

end
