(* ===== verification/Feed.thy ===== *)
theory Feed
  imports RegistryHonest Canary
begin

text \<open>
  The registry as the monitor sees it: the entries of the transparency log, the replies of the
  endpoints \<open>/tlog/head\<close> and \<open>/tlog/range\<close>, and the interface \<open>event_feed\<close> between the two, which the
  registry's handlers meet. On it rest the properties of the monitor: no entry is missed, and a beacon
  of a decoy raises an alert.
\<close>

section \<open>The entries of a log\<close>

fun parse_all :: "pystr list \<Rightarrow> nat \<Rightarrow> pydict list res" where
  "parse_all [] i = Inr []"
| "parse_all (line # ls) i =
     (if strip line = [] then parse_all ls i
      else ebind (parse_leaf_record line i) (\<lambda>(rec, _).
           ebind (parse_all ls (i + 1)) (\<lambda>recs. Inr (rec # recs))))"

lemma load_lines_parse: "load_lines ls i = Inr hs \<Longrightarrow> \<exists>recs. parse_all ls i = Inr recs \<and> length recs = length hs"
proof (induction ls arbitrary: i hs)
  case (Cons l ls)
  then show ?case by (cases "strip l = []") (fastforce simp: ebind_eq_Inr)+
qed simp

lemma parse_all_append:
  "parse_all (xs @ ys) i =
     ebind (parse_all xs i) (\<lambda>rs. ebind (parse_all ys (i + length rs)) (\<lambda>rs'. Inr (rs @ rs')))"
proof (induction xs arbitrary: i)
  case Nil
  show ?case by (cases "parse_all ys i") auto
next
  case (Cons l xs)
  show ?case
  proof (cases "parse_leaf_record l i")
    case (Inr x)
    then show ?thesis using Cons [of "Suc i"] Cons [of i]
      by (cases x) (auto simp: ebind_assoc)
  qed (use Cons [of i] in auto)
qed

lemma range_loop_slice:
  assumes "parse_all ls i = Inr recs" "stop \<le> i + length recs"
  shows "range_loop ls i start stop = Inr (drop (start - i) (take (stop - i) recs), max i stop)"
  using assms
proof (induction ls arbitrary: i recs)
  case (Cons l ls)
  show ?case
  proof (cases "strip l = []")
    case False
    then obtain rec h recs' where r: "parse_leaf_record l i = Inr (rec, h)" "parse_all ls (i + 1) = Inr recs'" "recs = rec # recs'"
      using Cons.prems(1) by (auto simp: ebind_eq_Inr)
    show ?thesis
    proof (cases "stop \<le> i")
      case F: False
      then have "stop - i = Suc (stop - (i + 1))" by simp
      then show ?thesis
        using False F r Cons.IH [OF r(2)] Cons.prems(2)
        by (cases "start \<le> i") (auto simp: drop_Cons' Suc_diff_le max_def)
    qed (use False in \<open>simp add: max_def\<close>)
  qed (use Cons in simp)
qed simp

definition tlog_entries :: "tlog \<Rightarrow> pydict list" where
  "tlog_entries t = (case parse_all (file_lines (file_text t)) 0 of Inr recs \<Rightarrow> recs | Inl _ \<Rightarrow> [])"

lemma tlog_entries_inv:
  assumes "tlog_inv t"
  shows "parse_all (file_lines (file_text t)) 0 = Inr (tlog_entries t)" "length (tlog_entries t) = length (leaves t)"
  using assms load_lines_parse [of "file_lines (file_text t)" 0 "leaves t"] by (auto simp: tlog_inv_def tlog_entries_def)

lemma range_records_entries:
  assumes "tlog_inv t" "0 \<le> start" "0 < limit"
  shows "range_records t start limit = Inr (take (nat limit) (drop (nat start) (tlog_entries t)))"
proof (cases "int (length (leaves t)) \<le> start")
  case True
  then show ?thesis using assms tlog_entries_inv(2) [OF assms(1)] by (simp add: range_records_def)
next
  case False
  let ?stop = "nat (min (start + limit) (int (length (leaves t))))"
  note e = tlog_entries_inv [OF assms(1)]
  have "leaves_file t = Some (file_text t)"
    using e False assms(2) by (auto simp: file_text_def split: option.splits)
  moreover have "range_loop (file_lines (file_text t)) 0 (nat start) ?stop
      = Inr (drop (nat start) (take ?stop (tlog_entries t)), ?stop)"
    using range_loop_slice [OF e(1), of ?stop "nat start"] e(2) by simp
  moreover have "drop (nat start) (take ?stop (tlog_entries t)) = take (nat limit) (drop (nat start) (tlog_entries t))"
    using assms False e(2) by (auto simp: drop_take min_def nat_diff_distrib nat_add_distrib take_all_iff)
  ultimately show ?thesis using assms False by (simp add: range_records_def Let_def)
qed

lemma append_entries:
  assumes "tlog_inv t" "tlog_append io v t = (t', Inr i)" "leaf_bytes_of v = Inr lb"
  shows "tlog_entries t' = tlog_entries t @ [leaf_record i (tlog_h (0 # lb)) lb]"
proof -
  have io: "io = None" using append_ok_bytes [OF assms(2)] by blast
  obtain s where s: "json_dumps (PDict (leaf_record (length (leaves t)) (tlog_h (0 # lb)) lb)) = Inr s"
    and t': "t' = t\<lparr>leaves := leaves t @ [tlog_h (0 # lb)], cached_root := None,
       leaves_file := Some (file_text t @ s @ [10])\<rparr>" "i = length (leaves t)"
    using append_cases [OF assms(3), of t] assms(2) io by (metis Inr_inject Pair_inject)
  have ne: "strip (s @ [10]) \<noteq> []"
    using json_dumps_first [OF leaf_record_ok s] by (auto simp: strip_eq_Nil)
  have w: "whole (file_text t)" using assms(1) by (simp add: tlog_inv_def)
  have "file_lines (file_text t') = file_lines (file_text t) @ [s @ [10]]"
    using file_lines_line(1) [OF w] json_dumps_printable [OF s] t'(1) by (simp add: file_text_def)
  moreover have "parse_all [s @ [10]] i = Inr [leaf_record i (tlog_h (0 # lb)) lb]"
    using ne parse_leaf_record_own [OF s] t'(2) by simp
  ultimately have "parse_all (file_lines (file_text t')) 0
      = Inr (tlog_entries t @ [leaf_record i (tlog_h (0 # lb)) lb])"
    using tlog_entries_inv [OF assms(1)] t'(2) by (simp add: parse_all_append del: parse_all.simps)
  then show ?thesis by (simp add: tlog_entries_def)
qed

lemma utf8_decode_replace_ok: "utf8_decode bs = Inr s \<Longrightarrow> utf8_decode_replace bs = s"
  by (induction bs arbitrary: s rule: utf8_decode_replace.induct) (auto simp: ebind_eq_Inr split: sum.splits prod.splits)

text \<open>The event of an entry that \<open>append\<close> wrote for a dictionary\<close>

lemma appended_event:
  assumes "json_ok (PDict ev)" "leaf_bytes_of (PDict ev) = Inr lb"
  shows "entry_event (PDict (leaf_record i h lb)) = Inr (canon (PDict ev))"
proof -
  have j: "jcs_dumps (PDict ev) = Inr lb" using assms(2) by (simp add: leaf_bytes_of_def)
  obtain x where x: "utf8_decode lb = Inr x" "json_loads x = Inr (canon (PDict ev))"
    using loads_jcs [OF assms(1) j] by (auto simp: loads_utf8_def ebind_eq_Inr)
  then have "utf8_decode_replace lb = x" by (simp add: utf8_decode_replace_ok)
  then show ?thesis using x by (simp add: entry_event_def py_get_def leaf_record_def dgetd_def)
qed

section \<open>The interface\<close>

text \<open>What handling an entry does, from its event on\<close>

definition handle :: "world \<Rightarrow> pystr \<Rightarrow> pydict \<Rightarrow> pyval res \<Rightarrow> notifier \<Rightarrow> notifier" where
  "handle W now state event n = (case event of Inl _ \<Rightarrow> n | Inr v \<Rightarrow> fst (process_event W now v state n))"

lemma process_entry_handle: "process_entry W now state e = handle W now state (entry_event e)"
  by (simp add: process_entry_def handle_def fun_eq_iff split: sum.split)

definition traps_of :: "pydict \<Rightarrow> pyval" where
  "traps_of state = dgetd state ''trap_file_ids'' (PList [])"

definition last_seen :: "pydict \<Rightarrow> pyval" where
  "last_seen state = dgetd state ''last_tlog_seen'' (PInt 0)"

lemma handle_traps: "traps_of s1 = traps_of s2 \<Longrightarrow> handle W now s1 = handle W now s2"
  by (simp add: handle_def process_event_def traps_of_def Let_def fun_eq_iff split: sum.split pyval.split)

text \<open>The network of a monitor whose registry serves its paths by \<open>serve\<close>\<close>

definition network :: "(pystr \<Rightarrow> (string \<times> pyval) list \<Rightarrow> reply) \<Rightarrow> registry_monitor \<Rightarrow> http" where
  "network serve mon url ps =
     (if prefixed (mon_url mon) url then serve (drop (length (mon_url mon)) url) ps else NoReply)"

lemma network_path [simp]: "network serve mon (mon_url mon @ p) ps = serve p ps"
  by (simp add: network_def prefixed_iff)

text \<open>A cycle meets the registry in the state \<open>s\<close> with its first request and in \<open>s'\<close> with its second.\<close>

definition cycle_net ::
  "('s \<Rightarrow> pystr \<Rightarrow> (string \<times> pyval) list \<Rightarrow> reply) \<Rightarrow> registry_monitor \<Rightarrow> pystr \<times> exn option \<times> 's \<times> 's
   \<Rightarrow> pystr \<times> exn option \<times> http \<times> http" where
  "cycle_net serve mon x = (case x of (now, io, s, s') \<Rightarrow> (now, io, network (serve s) mon, network (serve s') mon))"

lemma cycle_net_simp [simp]:
  "cycle_net serve mon (now, io, s, s') = (now, io, network (serve s) mon, network (serve s') mon)"
  by (simp add: cycle_net_def)

text \<open>
  Cycles that keep up, from a monitor that has seen \<open>es\<close> of the log \<open>l\<close>: the log grows between any two
  requests, those of one cycle too, and no cycle finds more than one range of entries it has not seen.
\<close>

fun keeps_up :: "'e list \<Rightarrow> 'e list \<Rightarrow> ('e list \<times> 'e list) list \<Rightarrow> bool" where
  "keeps_up es l [] = True"
| "keeps_up es l ((f, g) # fs) \<longleftrightarrow> prefixed l f \<and> prefixed f g \<and> length g \<le> length es + 500 \<and> keeps_up f g fs"

lemma keeps_up_last: "keeps_up es l fs \<Longrightarrow> fs \<noteq> [] \<Longrightarrow> prefixed l (snd (last fs))"
proof (induction fs arbitrary: es l)
  case (Cons x fs)
  obtain f g where x: "x = (f, g)" by (cases x)
  have f: "prefixed l f" "prefixed f g" "keeps_up f g fs" using Cons.prems(1) x by simp_all
  show ?case
  proof (cases "fs = []")
    case False
    then show ?thesis using f(1,2) Cons.IH [OF f(3)] by (auto simp: prefixed_iff)
  qed (use f x in \<open>auto simp: prefixed_iff\<close>)
qed simp

text \<open>
  The indices of the entries that a run handles, in order, by the sizes of the log at the two requests of
  each cycle.
\<close>

fun handled :: "nat \<Rightarrow> (nat \<times> nat) list \<Rightarrow> nat list" where
  "handled k [] = []"
| "handled k ((h, r) # xs) = (if h \<le> k then [] else [k..<r]) @ handled (max k h) xs"

fun growing :: "nat \<Rightarrow> (nat \<times> nat) list \<Rightarrow> bool" where
  "growing l [] = True"
| "growing l ((h, r) # xs) \<longleftrightarrow> l \<le> h \<and> h \<le> r \<and> growing r xs"

lemma keeps_up_growing: "keeps_up es l fs \<Longrightarrow> growing (length l) (map (\<lambda>(f, g). (length f, length g)) fs)"
  by (induction es l fs rule: keeps_up.induct) (auto simp: prefixed_iff)

lemma growing_last: "growing l xs \<Longrightarrow> xs \<noteq> [] \<Longrightarrow> l \<le> fst (last xs) \<and> fst (last xs) \<le> snd (last xs)"
  by (induction l xs rule: growing.induct) (fastforce split: if_splits)+

lemma upt_join: "i \<le> j \<Longrightarrow> j \<le> k \<Longrightarrow> [i..<j] @ [j..<k] = [i..<k]"
  using upt_add_eq_append [of i j "k - j"] by simp

lemma handled_range: "growing l xs \<Longrightarrow> k \<le> l \<Longrightarrow> i \<in> set (handled k xs) \<Longrightarrow> k \<le> i \<and> i < snd (last xs)"
proof (induction xs arbitrary: k l)
  case (Cons x xs)
  obtain h r where x: "x = (h, r)" by (cases x)
  have g: "l \<le> h" "h \<le> r" "growing r xs" using Cons.prems(1) x by simp_all
  have m: "max k h = h" using g Cons.prems(2) by simp
  consider "i \<in> set [k..<r]" | "i \<in> set (handled h xs)" using Cons.prems(3) x m by (auto split: if_splits)
  then show ?case
  proof cases
    case 1
    then show ?thesis using x growing_last [OF g(3)] by (auto split: if_splits)
  next
    case 2
    then have "xs \<noteq> []" by auto
    then show ?thesis using Cons.IH [OF g(3,2) 2] g Cons.prems(2) by auto
  qed
qed simp

lemma handled_quiet:
  "growing l xs \<Longrightarrow> k \<le> l \<Longrightarrow> \<forall>(h, r)\<in>set xs. h = r \<Longrightarrow> xs \<noteq> [] \<Longrightarrow> handled k xs = [k..<snd (last xs)]"
proof (induction xs arbitrary: k l)
  case (Cons x xs)
  obtain h where x: "x = (h, h)" "l \<le> h" "growing h xs" using Cons.prems(1,3) by (cases x) auto
  have f: "(if h \<le> k then [] else [k..<h]) = [k..<h]" "max k h = h" using x(2) Cons.prems(2) by auto
  show ?case
  proof (cases "xs = []")
    case False
    have g: "h \<le> snd (last xs)" using growing_last [OF x(3) False] by simp
    have "handled h xs = [h..<snd (last xs)]" by (rule Cons.IH [OF x(3) le_refl _ False]) (use Cons.prems(3) in simp)
    then have "handled k (x # xs) = [k..<h] @ [h..<snd (last xs)]" using x(1) f by simp
    then show ?thesis using x(2) g Cons.prems(2) upt_join [of k h "snd (last xs)"] False by simp
  qed (use x f in simp)
qed simp

lemma nths_join: "\<exists>A. nths (xs @ ys) A = nths xs B @ nths ys C"
proof -
  let ?A = "{i. i < length xs \<and> i \<in> B} \<union> {i. length xs \<le> i \<and> i - length xs \<in> C}"
  have "nths xs ?A = nths xs B" unfolding nths_def by (rule arg_cong [where f = "map fst"], rule filter_cong) (auto simp: set_zip)
  moreover have "{j. j + length xs \<in> ?A} = C" by auto
  ultimately have "nths (xs @ ys) ?A = nths xs B @ nths ys C" by (simp add: nths_append)
  then show ?thesis ..
qed

lemma handled_all: "growing l xs \<Longrightarrow> k \<le> l \<Longrightarrow> xs \<noteq> [] \<Longrightarrow> \<exists>A. nths (handled k xs) A = [k..<fst (last xs)]"
proof (induction xs arbitrary: k l)
  case (Cons x xs)
  obtain h r where x: "x = (h, r)" by (cases x)
  have g: "l \<le> h" "h \<le> r" "growing r xs" using Cons.prems(1) x by simp_all
  let ?f = "if h \<le> k then [] else [k..<r]"
  have run: "handled k (x # xs) = ?f @ handled h xs" using x g(1) Cons.prems(2) by simp
  have first: "nths ?f {..<h - k} = [k..<h]" using g Cons.prems(2) by auto
  show ?case
  proof (cases "xs = []")
    case True
    then show ?thesis using first x run by (metis append_Nil2 fst_conv handled.simps(1) last.simps)
  next
    case False
    have h: "h \<le> fst (last xs)" using growing_last [OF g(3) False] g(2) by simp
    obtain C where "nths (handled h xs) C = [h..<fst (last xs)]" using Cons.IH [OF g(3,2) False] by blast
    then have "[k..<h] @ [h..<fst (last xs)] = nths ?f {..<h - k} @ nths (handled h xs) C" using first by (simp only:)
    then obtain A where "nths (?f @ handled h xs) A = [k..<h] @ [h..<fst (last xs)]"
      using nths_join [of ?f "handled h xs" "{..<h - k}" C] by metis
    then show ?thesis using False run h g(1) Cons.prems(2) upt_join [of k h "fst (last xs)"] by (metis last_ConsR le_trans)
  qed
qed simp

lemma count_upt: "count_list [i..<j] x = (if i \<le> x \<and> x < j then 1 else 0)"
  by (induction j) auto

lemma handled_count:
  assumes "growing l xs" "k \<le> l"
  shows "count_list (handled k xs) i \<le> (if i < l then 1 else 2)
    \<and> (1 < count_list (handled k xs) i \<longrightarrow> (\<exists>(h, r)\<in>set xs. h \<le> i \<and> i < r))"
  using assms
proof (induction xs arbitrary: k l)
  case (Cons x xs)
  obtain h r where x: "x = (h, r)" by (cases x)
  have g: "l \<le> h" "h \<le> r" "growing r xs" using Cons.prems(1) x by simp_all
  note IH = Cons.IH [OF g(3,2)]
  have run: "count_list (handled k (x # xs)) i = (if k < h \<and> k \<le> i \<and> i < r then 1 else 0) + count_list (handled h xs) i"
    using x g(1) Cons.prems(2) by (auto simp: count_upt)
  show ?case
  proof (cases "i < h")
    case True
    then have "i \<notin> set (handled h xs)" using handled_range [OF g(3,2)] by fastforce
    then show ?thesis unfolding run by simp
  next
    case False
    then show ?thesis unfolding run using IH x g(1) by (cases "i < r") auto
  qed
qed simp
text \<open>
  What the monitor relies on of a registry: the head it serves has the number of its events and a
  signature under the pinned key, and a range is the asked slice of the events.
\<close>

locale event_feed =
  fixes serve :: "'s \<Rightarrow> pystr \<Rightarrow> (string \<times> pyval) list \<Rightarrow> reply"
    and feed :: "'s \<Rightarrow> pyval res list"
    and feed_ok :: "crypto_ops \<Rightarrow> bytes \<Rightarrow> 's \<Rightarrow> bool"
  assumes head: "feed_ok C pk s \<Longrightarrow> \<exists>h sg msg text. serve s (u ''/tlog/head'') [] = Reply 200 (Inr (PDict h))
      \<and> ditem h ''size'' = Inr (PInt (int (length (feed s))))
      \<and> ditem h ''signature'' = Inr (PStr (hex sg)) \<and> ditem h ''signed_message'' = Inr (PStr text)
      \<and> utf8_encode text = Inr msg \<and> ed_verify C pk sg msg"
    and range: "feed_ok C pk s \<Longrightarrow> 0 \<le> i \<Longrightarrow>
      \<exists>d es. serve s (u ''/tlog/range'') [(''start'', PInt i), (''limit'', PInt 500)] = Reply 200 (Inr (PDict d))
        \<and> dget d ''entries'' = Some (PList es) \<and> map entry_event es = take 500 (drop (nat i) (feed s))"
begin

lemma poll:
  assumes ok: "feed_ok (w_ops W) (pinned_pub mon) s" "feed_ok (w_ops W) (pinned_pub mon) s'"
    and seen: "last_seen (cn_state c) = PInt (int k)"
    and r: "run_once W now io (network (serve s) mon) (network (serve s') mon) mon c = (c', r)"
  shows "cn_notifier c' = (if length (feed s) \<le> k then cn_notifier c
      else fold (handle W now (cn_state c)) (take 500 (drop k (feed s'))) (cn_notifier c))"
    "last_seen (cn_state c') = PInt (int (max k (length (feed s))))"
    "traps_of (cn_state c') = traps_of (cn_state c)"
proof -
  obtain h where h: "monitor_head (w_ops W) (network (serve s) mon) mon = Inr (PDict h)"
    "ditem h ''size'' = Inr (PInt (int (length (feed s))))"
    using head [OF ok(1)] by (auto simp: monitor_head_def raise_for_status_def py_item_def py_encode_def)
  obtain es where es: "monitor_entries (network (serve s') mon) mon (PInt (int k)) = Inr (PList es)"
    "map entry_event es = take 500 (drop k (feed s'))"
    using range [OF ok(2), of "int k"] by (auto simp: monitor_entries_def raise_for_status_def py_get_def dgetd_def)
  have le: "py_le (PInt a) (PInt b) = Inr (a \<le> b)" for a b by (simp add: py_le_def py_number_def float_le_def)
  have seen': "dgetd (cn_state c) ''last_tlog_seen'' (PInt 0) = PInt (int k)" using seen by (simp add: last_seen_def)
  have out: "fold (process_entry W now (cn_state c)) es n = fold (handle W now (cn_state c)) (map entry_event es) n" for n
    unfolding fold_map comp_def process_entry_handle [symmetric] ..
  have "cn_notifier c' = (if length (feed s) \<le> k then cn_notifier c
        else fold (handle W now (cn_state c)) (take 500 (drop k (feed s'))) (cn_notifier c))
      \<and> last_seen (cn_state c') = PInt (int (max k (length (feed s))))
      \<and> traps_of (cn_state c') = traps_of (cn_state c)"
  proof (cases "length (feed s) \<le> k")
    case True
    then have "c' = c" using r h seen' le by (simp add: run_once_def Let_def py_item_def)
    then show ?thesis using True seen by simp
  next
    case False
    then show ?thesis
      using r h seen' le es out
      by (auto simp: run_once_def Let_def py_item_def last_seen_def traps_of_def dgetd_def split: prod.splits)
  qed
  then show "cn_notifier c' = (if length (feed s) \<le> k then cn_notifier c
      else fold (handle W now (cn_state c)) (take 500 (drop k (feed s'))) (cn_notifier c))"
    "last_seen (cn_state c') = PInt (int (max k (length (feed s))))"
    "traps_of (cn_state c') = traps_of (cn_state c)" by simp_all
qed

lemma fold_stamped: "fold (\<lambda>(now, e). f now e) (zip (replicate (length ys) now) ys) n = fold (f now) ys n"
  by (induction ys arbitrary: n) auto

lemma polls:
  assumes "\<forall>(now, io, s, s')\<in>set cs. feed_ok (w_ops W) (pinned_pub mon) s \<and> feed_ok (w_ops W) (pinned_pub mon) s'"
    and "last_seen (cn_state c) = PInt (int (length es))" "prefixed es l"
    and "keeps_up es l (map (\<lambda>(now, io, s, s'). (feed s, feed s')) cs)"
    and "cs \<noteq> [] \<Longrightarrow> F = feed (snd (snd (snd (last cs))))"
  shows "\<exists>nows. length nows = length (handled (length es) (map (\<lambda>(now, io, s, s'). (length (feed s), length (feed s'))) cs))
    \<and> set nows \<subseteq> fst ` set cs
    \<and> cn_notifier (poll_cycles W mon (map (cycle_net serve mon) cs) c)
      = fold (\<lambda>(now, i). handle W now (cn_state c) (F ! i))
          (zip nows (handled (length es) (map (\<lambda>(now, io, s, s'). (length (feed s), length (feed s'))) cs))) (cn_notifier c)"
  using assms
proof (induction cs arbitrary: c es l)
  case Nil
  show ?case by (simp add: poll_cycles_def)
next
  case (Cons x cs)
  obtain now io s s' where x: "x = (now, io, s, s')" by (cases x) auto
  obtain c' r where r: "run_once W now io (network (serve s) mon) (network (serve s') mon) mon c = (c', r)" by force
  have ok: "feed_ok (w_ops W) (pinned_pub mon) s" "feed_ok (w_ops W) (pinned_pub mon) s'" using Cons.prems(1) x by simp_all
  have up: "prefixed l (feed s)" "prefixed (feed s) (feed s')" "length (feed s') \<le> length es + 500"
    "keeps_up (feed s) (feed s') (map (\<lambda>(now, io, s, s'). (feed s, feed s')) cs)"
    using Cons.prems(4) x by simp_all
  have m: "max (length es) (length (feed s)) = length (feed s)" using up(1) Cons.prems(3) by (auto simp: prefixed_iff)
  note p = poll [OF ok Cons.prems(2) r]
  let ?js = "if length (feed s) \<le> length es then [] else [length es..<length (feed s')]"
  let ?rest = "handled (length (feed s)) (map (\<lambda>(now, io, s, s'). (length (feed s), length (feed s'))) cs)"
  have "prefixed (feed s') F"
  proof (cases "cs = []")
    case False
    then show ?thesis using keeps_up_last [OF up(4)] Cons.prems(5) by (simp add: last_map case_prod_beta)
  qed (use Cons.prems(5) x in \<open>simp add: prefixed_iff\<close>)
  then have F: "map ((!) F) [length es..<length (feed s')] = drop (length es) (feed s')"
    by (auto simp: prefixed_iff nth_append list_eq_iff_nth_eq)
  have "cn_notifier c' = fold (\<lambda>i. handle W now (cn_state c) (F ! i)) ?js (cn_notifier c)"
    using p(1) up(3) fold_map [of "handle W now (cn_state c)" "(!) F" "[length es..<length (feed s')]"] F
    by (simp add: comp_def)
  then have first: "cn_notifier c'
      = fold (\<lambda>(now, i). handle W now (cn_state c) (F ! i)) (zip (replicate (length ?js) now) ?js) (cn_notifier c)"
    using fold_stamped [of "\<lambda>now i. handle W now (cn_state c) (F ! i)" ?js now] by (simp only:)
  have "\<forall>(now, io, s, s')\<in>set cs. feed_ok (w_ops W) (pinned_pub mon) s \<and> feed_ok (w_ops W) (pinned_pub mon) s'"
    "last_seen (cn_state c') = PInt (int (length (feed s)))" "cs \<noteq> [] \<Longrightarrow> F = feed (snd (snd (snd (last cs))))"
    using Cons.prems(1,5) p(2) m by simp_all
  from Cons.IH [OF this(1,2) up(2,4) this(3)] obtain nows where nows: "length nows = length ?rest" "set nows \<subseteq> fst ` set cs"
    "cn_notifier (poll_cycles W mon (map (cycle_net serve mon) cs) c')
      = fold (\<lambda>(now, i). handle W now (cn_state c') (F ! i)) (zip nows ?rest) (cn_notifier c')"
    by blast
  have h: "handle W now (cn_state c') = handle W now (cn_state c)" for now by (rule handle_traps [OF p(3)])
  have run: "poll_cycles W mon (map (cycle_net serve mon) (x # cs)) c = poll_cycles W mon (map (cycle_net serve mon) cs) c'"
    using x r by (simp add: poll_cycles_def)
  have js: "handled (length es) (map (\<lambda>(now, io, s, s'). (length (feed s), length (feed s'))) (x # cs)) = ?js @ ?rest"
    using x m by simp
  have "zip (replicate (length ?js) now @ nows) (?js @ ?rest) = zip (replicate (length ?js) now) ?js @ zip nows ?rest"
    by (rule zip_append) simp
  then show ?case
    unfolding run js using nows first h x
    by (intro exI [of _ "replicate (length ?js) now @ nows"]) (simp add: subset_iff)
qed

lemma polls_once:
  assumes "\<forall>(now, io, s, s')\<in>set cs. feed_ok (w_ops W) (pinned_pub mon) s \<and> feed_ok (w_ops W) (pinned_pub mon) s'" "cs \<noteq> []"
    and "last_seen (cn_state c) = PInt (int (length es))"
    and up: "keeps_up es es (map (\<lambda>(now, io, s, s'). (feed s, feed s')) cs)"
  defines "F \<equiv> feed (snd (snd (snd (last cs))))"
  shows "\<exists>nows js. length nows = length js \<and> set nows \<subseteq> fst ` set cs
    \<and> cn_notifier (poll_cycles W mon (map (cycle_net serve mon) cs) c)
      = fold (\<lambda>(now, i). handle W now (cn_state c) (F ! i)) (zip nows js) (cn_notifier c)
    \<and> (\<exists>A. nths js A = [length es..<length (feed (fst (snd (snd (last cs)))))])
    \<and> (\<forall>i\<in>set js. length es \<le> i \<and> i < length F)
    \<and> (\<forall>i. count_list js i \<le> 2
        \<and> (1 < count_list js i \<longrightarrow> (\<exists>(now, io, s, s')\<in>set cs. length (feed s) \<le> i \<and> i < length (feed s'))))
    \<and> ((\<forall>(now, io, s, s')\<in>set cs. feed s = feed s') \<longrightarrow> js = [length es..<length F])"
proof -
  let ?xs = "map (\<lambda>(now, io, s, s'). (length (feed s), length (feed s'))) cs"
  let ?js = "handled (length es) ?xs"
  obtain nows where nows: "length nows = length ?js" "set nows \<subseteq> fst ` set cs"
    "cn_notifier (poll_cycles W mon (map (cycle_net serve mon) cs) c)
      = fold (\<lambda>(now, i). handle W now (cn_state c) (F ! i)) (zip nows ?js) (cn_notifier c)"
    using polls [OF assms(1,3) _ up, of F] by (auto simp: F_def prefixed_iff)
  have g: "growing (length es) ?xs" using keeps_up_growing [OF up] by (simp add: case_prod_unfold comp_def)
  have l: "fst (last ?xs) = length (feed (fst (snd (snd (last cs)))))" "snd (last ?xs) = length F" "?xs \<noteq> []"
    using assms(2) by (simp_all add: last_map case_prod_beta F_def)
  have "\<exists>A. nths ?js A = [length es..<length (feed (fst (snd (snd (last cs)))))]" using handled_all [OF g le_refl l(3)] l(1) by simp
  moreover have "\<forall>i\<in>set ?js. length es \<le> i \<and> i < length F" using handled_range [OF g le_refl] l(2) by simp
  moreover have "count_list ?js i \<le> 2
      \<and> (1 < count_list ?js i \<longrightarrow> (\<exists>(now, io, s, s')\<in>set cs. length (feed s) \<le> i \<and> i < length (feed s')))" for i
    using handled_count [OF g le_refl, of i] by (fastforce split: if_splits)
  moreover have "?js = [length es..<length F]" if "\<forall>(now, io, s, s')\<in>set cs. feed s = feed s'"
    using handled_quiet [OF g le_refl _ l(3)] that l(2) by fastforce
  ultimately show ?thesis using nows by blast
qed

end

section \<open>The registry provides it\<close>

text \<open>
  The JSON response of a handler and its way through \<open>r.json()\<close>; a handler's \<open>HTTPException\<close> becomes
  its status code, any other exception a 500.
\<close>

definition render_json :: "pyval \<Rightarrow> bytes res" where
  "render_json v =
     (if dumpable v then utf8_encode (json_write [44] [58] jcs_esc v) else Inl (TypeError ''not JSON serializable''))"

definition json_reply :: "pydict res \<Rightarrow> reply" where
  "json_reply r =
     (case ebind r (\<lambda>d. render_json (PDict d)) of
        Inr body \<Rightarrow> Reply 200 (loads_utf8 body)
      | Inl (HTTPException code detail) \<Rightarrow> Reply code (Inr (PDict [(key ''detail'', str_val detail)]))
      | Inl _ \<Rightarrow> Reply 500 (Inl JSONDecodeError))"

text \<open>The two endpoints the monitor polls\<close>

definition serve_tlog :: "crypto_ops \<times> tlog \<Rightarrow> pystr \<Rightarrow> (string \<times> pyval) list \<Rightarrow> reply" where
  "serve_tlog s path ps =
     (case s of (C, t) \<Rightarrow>
        if path = u ''/tlog/head'' then json_reply (snd (tlog_head C (Some t)))
        else if path = u ''/tlog/range'' then
          (case ps of
             [(_, PInt start), (_, PInt limit)] \<Rightarrow> json_reply (tlog_range start limit (Some t))
           | _ \<Rightarrow> Reply 422 (Inl JSONDecodeError))
        else Reply 404 (Inl JSONDecodeError))"

definition tlog_feed :: "crypto_ops \<times> tlog \<Rightarrow> pyval res list" where
  "tlog_feed s = map (\<lambda>e. entry_event (PDict e)) (tlog_entries (snd s))"

definition served_by :: "crypto_ops \<Rightarrow> bytes \<Rightarrow> crypto_ops \<times> tlog \<Rightarrow> bool" where
  "served_by C pk s \<longleftrightarrow>
     fst s = C \<and> sig_correct C \<and> tlog_inv (snd s) \<and> list_all (\<lambda>e. json_ok (PDict e)) (tlog_entries (snd s))
     \<and> (\<exists>sk. tlog_sk (snd s) = Some sk \<and> length sk = 32 \<and> pk = ed_pub C sk)"

lemma json_reply_ok:
  assumes "json_ok (PDict d)"
  shows "json_reply (Inr d) = Reply 200 (Inr (PDict d))"
proof -
  let ?s = "json_write [44] [58] jcs_esc (PDict d)"
  have "is_ok (utf8_encode ?s)" using json_write_scalar [OF assms] by (auto simp: utf8_encode_ok_iff simp del: json_write.simps)
  then obtain b where b: "utf8_encode ?s = Inr b" by (auto simp: is_ok_ex)
  have "json_loads ?s = Inr (PDict d)" using good_seps_compact good_jcs_esc assms by (rule json_loads_write)
  then have "loads_utf8 b = Inr (PDict d)" using utf8_decode_encode [OF b] by (simp add: loads_utf8_def)
  then show ?thesis
    using b json_ok_dumpable [OF assms] by (simp add: json_reply_def render_json_def del: json_write.simps dumpable.simps)
qed

lemma signed_head_dict:
  assumes "tlog_inv t" "tlog_sk t = Some sk"
  shows "\<exists>msg text. snd (signed_head C t)
      = Inr [(key ''size'', PInt (int (tlog_size t))), (key ''root'', PStr (hex (tree_root (leaves t)))),
             (key ''signature'', PStr (hex (ed_sign C sk msg))), (key ''signed_message'', PStr text)]
    \<and> utf8_encode text = Inr msg"
proof -
  let ?h = "[(key ''size'', PInt (int (tlog_size t))), (key ''root'', PStr (hex (tree_root (leaves t))))]"
  have ok: "json_ok (PDict ?h)" by simp
  obtain msg where msg: "jcs_dumps (PDict ?h) = Inr msg" using jcs_dumps_ok [OF ok] by blast
  then obtain body where m: "serialize (PDict ?h) = Inr body" "utf8_encode body = Inr msg"
    unfolding jcs_dumps_def by (elim ebind_InrE)
  have "snd (signed_head C t) = Inr (?h @ [(key ''signature'', PStr (hex (ed_sign C sk msg))), (key ''signed_message'', PStr body)])"
    using assms(2) tlog_root_eq [OF assms(1)] tlog_root_frame [of t] utf8_decode_encode [OF m(2)] msg
    by (simp add: signed_head_def Let_def case_prod_beta)
  then show ?thesis using m(2) by auto
qed

interpretation registry_feed: event_feed serve_tlog tlog_feed served_by
proof
  fix C pk and s :: "crypto_ops \<times> tlog"
  assume ok: "served_by C pk s"
  obtain t where s: "s = (C, t)" using ok by (cases s) (simp add: served_by_def)
  obtain sk where sk: "tlog_inv t" "sig_correct C" "tlog_sk t = Some sk" "length sk = 32" "pk = ed_pub C sk"
    and e: "list_all (\<lambda>e. json_ok (PDict e)) (tlog_entries t)"
    using ok by (auto simp: served_by_def s)
  obtain msg body where h: "snd (signed_head C t)
      = Inr [(key ''size'', PInt (int (tlog_size t))), (key ''root'', PStr (hex (tree_root (leaves t)))),
             (key ''signature'', PStr (hex (ed_sign C sk msg))), (key ''signed_message'', PStr body)]" (is "_ = Inr ?h")
    and m: "utf8_encode body = Inr msg"
    using signed_head_dict [OF sk(1,3)] by blast
  have "scalar_str body"
    using m utf8_encode_ok_iff [of body] by (simp add: is_ok_ex scalar_str_def list_all_iff)
  then have "json_ok (PDict ?h)" by simp
  moreover have "snd (tlog_head C (Some t)) = Inr ?h" using h by (simp add: tlog_head_def case_prod_beta)
  ultimately have "serve_tlog s (u ''/tlog/head'') [] = Reply 200 (Inr (PDict ?h))"
    using json_reply_ok [of ?h] by (simp add: serve_tlog_def s)
  then show "\<exists>h sg msg text. serve_tlog s (u ''/tlog/head'') [] = Reply 200 (Inr (PDict h))
      \<and> ditem h ''size'' = Inr (PInt (int (length (tlog_feed s))))
      \<and> ditem h ''signature'' = Inr (PStr (hex sg)) \<and> ditem h ''signed_message'' = Inr (PStr text)
      \<and> utf8_encode text = Inr msg \<and> ed_verify C pk sg msg"
    using m sk tlog_entries_inv(2) [OF sk(1)]
    by (intro exI [of _ ?h] exI [of _ "ed_sign C sk msg"] exI [of _ msg] exI [of _ body])
      (simp add: tlog_feed_def s tlog_size_def sig_correct_def)
  fix i :: int
  assume i: "0 \<le> i"
  let ?es = "take 500 (drop (nat i) (tlog_entries t))"
  let ?d = "[(key ''start'', PInt i), (key ''count'', PInt (int (length ?es))), (key ''entries'', PList (map PDict ?es))]"
  have "tlog_range i 500 (Some t) = Inr ?d"
    using range_records_entries [OF sk(1) i, of 500] i by (simp add: tlog_range_def)
  moreover have "json_ok (PDict ?d)"
    using e by (auto simp: list_all_iff dest!: in_set_takeD in_set_dropD)
  ultimately have "serve_tlog s (u ''/tlog/range'') [(''start'', PInt i), (''limit'', PInt 500)] = Reply 200 (Inr (PDict ?d))"
    using json_reply_ok by (simp add: serve_tlog_def s u_def)
  then show "\<exists>d es. serve_tlog s (u ''/tlog/range'') [(''start'', PInt i), (''limit'', PInt 500)] = Reply 200 (Inr (PDict d))
      \<and> dget d ''entries'' = Some (PList es) \<and> map entry_event es = take 500 (drop (nat i) (tlog_feed s))"
    by (intro exI [of _ ?d] exI [of _ "map PDict ?es"]) (simp add: tlog_feed_def s take_map drop_map)
qed

section \<open>Properties\<close>

lemma served_append:
  assumes "served_by C pk (C, t)" "tlog_append io (PDict ev) t = (t', Inr i)" "json_ok (PDict ev)"
  shows "served_by C pk (C, t')" "tlog_feed (C, t') = tlog_feed (C, t) @ [Inr (canon (PDict ev))]"
    "i = length (tlog_feed (C, t))"
proof -
  have inv: "tlog_inv t" using assms(1) by (simp add: served_by_def)
  obtain lb where lb: "leaf_bytes_of (PDict ev) = Inr lb" using append_ok_bytes [OF assms(2)] by blast
  note e = append_entries [OF inv assms(2) lb]
  have "tlog_sk t' = tlog_sk t"
    by (rule append_cases [OF lb, of t]) (use assms(2) append_ok_bytes [OF assms(2)] in auto)
  then show "served_by C pk (C, t')"
    using assms(1) append_inv [OF inv assms(2)] e leaf_record_ok by (auto simp: served_by_def)
  show "tlog_feed (C, t') = tlog_feed (C, t) @ [Inr (canon (PDict ev))]"
    using e appended_event [OF assms(3) lb] by (simp add: tlog_feed_def)
  show "i = length (tlog_feed (C, t))"
    using append_inv [OF inv assms(2)] tlog_entries_inv(2) [OF inv] by (simp add: tlog_feed_def)
qed

text \<open>
  C34: no event is missed. A run of polling cycles against the registry's \<open>/tlog/head\<close> and \<open>/tlog/range\<close>,
  between any two requests of which the log may grow, and by at most 500 entries beyond those the monitor
  has seen, leaves the notifier as if the entries with the indices \<open>js\<close> of the log had been handled in this
  order, each at the time of a cycle. In \<open>js\<close> the new entries up to the last head all occur, in their order;
  there are only new entries in it; none occurs three times, and one that occurs twice was appended between
  the two requests of one poll. If the log never grows there, each new entry is handled exactly once, in
  order. Whether the state file could be written plays no part.
\<close>

theorem canary_no_event_missed:
  assumes "\<forall>(now, io, s, s')\<in>set cs. served_by (w_ops W) (pinned_pub mon) s \<and> served_by (w_ops W) (pinned_pub mon) s'"
    and "cs \<noteq> []" "last_seen (cn_state c) = PInt (int (length es))"
    and "keeps_up es es (map (\<lambda>(now, io, s, s'). (tlog_feed s, tlog_feed s')) cs)"
  defines "F \<equiv> tlog_feed (snd (snd (snd (last cs))))"
  shows "\<exists>nows js. length nows = length js \<and> set nows \<subseteq> fst ` set cs
    \<and> cn_notifier (poll_cycles W mon (map (cycle_net serve_tlog mon) cs) c)
      = fold (\<lambda>(now, i). handle W now (cn_state c) (F ! i)) (zip nows js) (cn_notifier c)
    \<and> (\<exists>A. nths js A = [length es..<length (tlog_feed (fst (snd (snd (last cs)))))])
    \<and> (\<forall>i\<in>set js. length es \<le> i \<and> i < length F)
    \<and> (\<forall>i. count_list js i \<le> 2
        \<and> (1 < count_list js i \<longrightarrow> (\<exists>(now, io, s, s')\<in>set cs. length (tlog_feed s) \<le> i \<and> i < length (tlog_feed s'))))
    \<and> ((\<forall>(now, io, s, s')\<in>set cs. tlog_feed s = tlog_feed s') \<longrightarrow> js = [length es..<length F])"
  unfolding F_def using registry_feed.polls_once [OF assms(1-4)] .

text \<open>
  The second time is real: an entry \<open>b\<close> appended between the two requests of a poll is in the range that
  poll gets, beyond the size it then remembers, and the next poll handles it again.
\<close>

theorem canary_handles_twice:
  assumes "list_all (served_by (w_ops W) (pinned_pub mon)) [s, s']"
    and "last_seen (cn_state c) = PInt (int k)" "length (tlog_feed s) = k + 1" "tlog_feed s' = tlog_feed s @ [b]"
  shows "cn_notifier (poll_cycles W mon (map (cycle_net serve_tlog mon) [(now1, io1, s, s'), (now2, io2, s', s')]) c)
    = handle W now2 (cn_state c) b (handle W now1 (cn_state c) b
        (handle W now1 (cn_state c) (tlog_feed s ! k) (cn_notifier c)))"
proof -
  obtain c1 r1 where r1: "run_once W now1 io1 (network (serve_tlog s) mon) (network (serve_tlog s') mon) mon c = (c1, r1)" by force
  obtain c2 r2 where r2: "run_once W now2 io2 (network (serve_tlog s') mon) (network (serve_tlog s') mon) mon c1 = (c2, r2)" by force
  have ok: "served_by (w_ops W) (pinned_pub mon) s" "served_by (w_ops W) (pinned_pub mon) s'" using assms(1) by simp_all
  note p1 = registry_feed.poll [OF ok assms(2) r1]
  have "last_seen (cn_state c1) = PInt (int (k + 1))" using p1(2) assms(3) by simp
  note p2 = registry_feed.poll [OF ok(2,2) this r2]
  have "tlog_feed s = take k (tlog_feed s) @ [tlog_feed s ! k]" using assms(3) by (simp add: take_Suc_conv_app_nth [symmetric])
  then have "drop k (tlog_feed s) = [tlog_feed s ! k]" using assms(3) by (metis Cons_nth_drop_Suc drop_all le_refl less_add_one Suc_eq_plus1)
  then have "cn_notifier c1 = handle W now1 (cn_state c) b (handle W now1 (cn_state c) (tlog_feed s ! k) (cn_notifier c))"
    using p1(1) assms(3,4) by simp
  moreover have "cn_notifier c2 = handle W now2 (cn_state c1) b (cn_notifier c1)" using p2(1) assms(3,4) by simp
  ultimately show ?thesis using r1 r2 handle_traps [OF p1(3)] by (simp add: poll_cycles_def)
qed

lemma process_trap:
  assumes "dget ev' ''event'' = Some (str_val ''beacon'')" "dget ev' ''file_id'' = Some (PStr f)" "f \<noteq> []"
    and "traps_of state = PList traps" "PStr f \<in> set traps"
    and "dget ev' ''kind'' = Some k" "dget ev' ''source_ip'' = Some ip" "dget ev' ''timestamp'' = Some ts"
  shows "handle W now state (Inr (PDict ev')) n
    = send_alert now ''P1'' (u ''TRAP FILE OPENED: '' @ take 8 f @ u ''...'')
        (trap_body W k (or_else ip (str_val ''unknown'')) (PStr f) ts) n"
  using assms by (simp add: handle_def process_event_def dgetn_def dgetd_def traps_of_def truthy_def py_member_def
      py_slice8_def py_str_def Let_def)

text \<open>
  C33: a decoy that is opened raises an alert. When the registry records a beacon of a file that is
  on the monitor's list of decoys, the next poll of a monitor that was up to date posts exactly one
  more message: a P1 alert that mentions the owner and names the file, the kind of beacon, the
  address and the time; and the monitor has seen the log up to that event. (The log does not grow
  further before the end of that poll.)
\<close>

theorem trap_alert:
  assumes "record_event mo r token kind st = (st', Inr idx)"
    and "beacon_owner token (rg_tables st) = Inr (Some row)" "bc_file row \<noteq> []"
    and "rg_log st = Some t" "rg_log st' = Some t'" "served_by (w_ops W) (pinned_pub mon) (w_ops W, t)"
    and "json_ok (PDict (beacon_log_event (u kind) token (Some (bc_file row)) (Some (bc_recipient row))
        (client_host r) (header r ''user-agent'') (mo_stamp mo)))"
    and "last_seen (cn_state c) = PInt (int (tlog_size t))"
    and "traps_of (cn_state c) = PList traps" "PStr (bc_file row) \<in> set traps"
    and "run_once W now io (network (serve_tlog (w_ops W, t')) mon) (network (serve_tlog (w_ops W, t')) mon) mon c = (c', x)"
  shows "cn_notifier c' = send_alert now ''P1'' (u ''TRAP FILE OPENED: '' @ take 8 (bc_file row) @ u ''...'')
      (trap_body W (PStr (u kind)) (or_else (opt_val (client_host r)) (str_val ''unknown''))
         (PStr (bc_file row)) (PStr (mo_stamp mo))) (cn_notifier c)
    \<and> last_seen (cn_state c') = PInt (idx + 1)"
proof -
  let ?ev = "beacon_log_event (u kind) token (Some (bc_file row)) (Some (bc_recipient row))
    (client_host r) (header r ''user-agent'') (mo_stamp mo)"
  obtain t1 y where y: "tlog_append (mo_io mo) (PDict ?ev) t = (t1, y)" by force
  then obtain i where a: "tlog_append (mo_io mo) (PDict ?ev) t = (t', Inr i)" "idx = int i"
    using assms(1,2,4,5) by (cases y) (auto simp: record_event_def append_tlog_def Let_def)
  note s = served_append [OF assms(6) a(1) assms(7)]
  have "distinct (map fst ?ev)" by (simp add: beacon_log_event_def)
  then obtain d where d: "canon (PDict ?ev) = PDict d" "\<And>k. dget d k = map_option canon (dget ?ev k)"
    using dget_canon by blast
  have size: "length (tlog_feed (w_ops W, t)) = tlog_size t"
    using assms(6) tlog_entries_inv(2) by (simp add: tlog_feed_def served_by_def tlog_size_def)
  note p = registry_feed.poll [OF s(1,1) assms(8,11)]
  have "cn_notifier c' = handle W now (cn_state c) (Inr (PDict d)) (cn_notifier c)"
    using p(1) s(2) size d(1) by simp
  also have "\<dots> = send_alert now ''P1'' (u ''TRAP FILE OPENED: '' @ take 8 (bc_file row) @ u ''...'')
      (trap_body W (PStr (u kind)) (or_else (opt_val (client_host r)) (str_val ''unknown''))
         (PStr (bc_file row)) (PStr (mo_stamp mo))) (cn_notifier c)"
    by (rule process_trap [OF _ _ assms(3,9,10)])
      (simp_all add: d(2) beacon_log_event_def str_val_def opt_val_def split: option.split)
  finally show ?thesis using p(2) s(2,3) size a(2) by simp
qed

text \<open>A monitor of the sample registry, whose one beacon belongs to a decoy\<close>

definition decoy_row :: beacon_row where
  "decoy_row = \<lparr>bc_token = Some (u ''t-1''), bc_file = u ''decoy-file-1'', bc_recipient = u ''trap'', bc_issuer = u ''issuer'',
       bc_kind = u ''license'', bc_at = 0\<rparr>"

definition decoy_registry :: registry where
  "decoy_registry = sample_registry\<lparr>rg_tables := empty_tables\<lparr>t_beacons := [decoy_row]\<rparr>\<rparr>"

lemma decoy_owner: "beacon_owner (u ''t-1'') (rg_tables decoy_registry) = Inr (Some decoy_row)"
  by (simp add: decoy_registry_def beacon_owner_def empty_tables_def select_where_def decoy_row_def)

definition sample_monitor :: registry_monitor where
  "sample_monitor = \<lparr>mon_url = u ''https://r'', pinned_pub = ed_pub toy_ops (replicate 32 7)\<rparr>"

definition sample_canary :: canary where
  "sample_canary = \<lparr>cn_state = [(key ''last_tlog_seen'', PInt 0), (key ''known_file_ids'', PList []),
      (key ''trap_file_ids'', PList [PStr (u ''decoy-file-1'')])], cn_file = None,
     cn_notifier = \<lparr>nt_owner = u ''42'', nt_sent = []\<rparr>\<rparr>"

lemma sample_canary_state [simp]:
  "last_seen (cn_state sample_canary) = PInt 0" "traps_of (cn_state sample_canary) = PList [PStr (u ''decoy-file-1'')]"
  "cn_notifier sample_canary = \<lparr>nt_owner = u ''42'', nt_sent = []\<rparr>"
  by (simp_all add: sample_canary_def last_seen_def traps_of_def dgetd_def)

lemma decoy_fires:
  obtains st' t' where "record_event sample_moment sample_request (u ''t-1'') ''license'' decoy_registry = (st', Inr 0)"
    "rg_log st' = Some t'" "tlog_append None (PDict (beacon_log_event (u ''license'') (u ''t-1'') (Some (u ''decoy-file-1''))
       (Some (u ''trap'')) (client_host sample_request) (header sample_request ''user-agent'') (mo_stamp sample_moment))) empty_tlog
       = (t', Inr 0)"
    "json_ok (PDict (beacon_log_event (u ''license'') (u ''t-1'') (Some (u ''decoy-file-1''))
       (Some (u ''trap'')) (client_host sample_request) (header sample_request ''user-agent'') (mo_stamp sample_moment)))"
proof -
  let ?ev = "beacon_log_event (u ''license'') (u ''t-1'') (Some (u ''decoy-file-1''))
       (Some (u ''trap'')) (client_host sample_request) (header sample_request ''user-agent'') (mo_stamp sample_moment)"
  have ok: "json_ok (PDict ?ev)"
    by (simp add: beacon_log_event_def str_val_def opt_val_def sample_request_def header_def sample_moment_def scalar_str_u
        scalar_str_def [of "[]"])
  then obtain t' where a: "append_tlog None ?ev (Some empty_tlog) = (Some t', Inr (int (length (leaves empty_tlog))))"
    using append_event_ok by blast
  then have t': "tlog_append None (PDict ?ev) empty_tlog = (t', Inr 0)"
    by (cases "tlog_append None (PDict ?ev) empty_tlog"; cases "snd (tlog_append None (PDict ?ev) empty_tlog)")
      (auto simp: append_tlog_def empty_tlog_def)
  have "\<exists>st'. record_event sample_moment sample_request (u ''t-1'') ''license'' decoy_registry = (st', Inr 0) \<and> rg_log st' = Some t'"
    using decoy_owner a by (simp add: record_event_def Let_def decoy_row_def decoy_registry_def sample_registry_def sample_moment_def empty_tlog_def)
  with that t' ok show thesis by blast
qed

lemma sample_served: "served_by toy_ops (ed_pub toy_ops (replicate 32 7)) (toy_ops, empty_tlog)"
  using toy_ops_correct(1) empty_tlog_inv
  by (auto simp: served_by_def tlog_entries_def empty_tlog_def file_text_def)

theorem trap_alert_witness:
  "\<exists>st' t' c' x. record_event sample_moment sample_request (u ''t-1'') ''license'' decoy_registry = (st', Inr 0)
     \<and> rg_log st' = Some t'
     \<and> run_once sample_world (u ''now'') None (network (serve_tlog (toy_ops, t')) sample_monitor)
         (network (serve_tlog (toy_ops, t')) sample_monitor) sample_monitor sample_canary = (c', x)
     \<and> map al_title (nt_sent (cn_notifier c')) = [u ''[P1] TRAP FILE OPENED: decoy-fi...'']
     \<and> map al_content (nt_sent (cn_notifier c')) = [u ''<@42>''] \<and> last_seen (cn_state c') = PInt 1"
proof -
  obtain st' t' where e: "record_event sample_moment sample_request (u ''t-1'') ''license'' decoy_registry = (st', Inr 0)"
    "rg_log st' = Some t'"
    and ok: "json_ok (PDict (beacon_log_event (u ''license'') (u ''t-1'') (Some (u ''decoy-file-1''))
       (Some (u ''trap'')) (client_host sample_request) (header sample_request ''user-agent'') (mo_stamp sample_moment)))"
    by (rule decoy_fires)
  obtain c' x where r: "run_once sample_world (u ''now'') None (network (serve_tlog (toy_ops, t')) sample_monitor)
      (network (serve_tlog (toy_ops, t')) sample_monitor) sample_monitor sample_canary = (c', x)" by force
  from trap_alert [OF e(1) decoy_owner _ _ e(2), of empty_tlog sample_world sample_monitor sample_canary
      "[PStr (u ''decoy-file-1'')]" "u ''now''" None c' x]
  show ?thesis
    using e r ok sample_served
    by (simp add: sample_world_def sample_monitor_def decoy_row_def decoy_registry_def sample_registry_def
        tlog_size_def empty_tlog_def send_alert_def) (auto simp: u_def)
qed

theorem canary_no_event_missed_witness:
  "\<exists>t' now. length (tlog_feed (toy_ops, t')) = 1 \<and> now \<in> {u ''t1'', u ''t2''}
     \<and> cn_notifier (poll_cycles sample_world sample_monitor
          (map (cycle_net serve_tlog sample_monitor)
            [(u ''t1'', None, (toy_ops, empty_tlog), (toy_ops, empty_tlog)), (u ''t2'', None, (toy_ops, t'), (toy_ops, t'))])
          sample_canary)
       = handle sample_world now (cn_state sample_canary) (tlog_feed (toy_ops, t') ! 0) (cn_notifier sample_canary)"
proof -
  obtain st' t' where a: "tlog_append None (PDict (beacon_log_event (u ''license'') (u ''t-1'') (Some (u ''decoy-file-1''))
       (Some (u ''trap'')) (client_host sample_request) (header sample_request ''user-agent'') (mo_stamp sample_moment))) empty_tlog
       = (t', Inr 0)"
    and ok: "json_ok (PDict (beacon_log_event (u ''license'') (u ''t-1'') (Some (u ''decoy-file-1''))
       (Some (u ''trap'')) (client_host sample_request) (header sample_request ''user-agent'') (mo_stamp sample_moment)))"
    by (rule decoy_fires)
  note s = served_append [OF sample_served a ok]
  have e: "tlog_feed (toy_ops, empty_tlog) = []"
    by (simp add: tlog_feed_def tlog_entries_def empty_tlog_def file_text_def)
  let ?cs = "[(u ''t1'', None, (toy_ops, empty_tlog), (toy_ops, empty_tlog)), (u ''t2'', None, (toy_ops, t'), (toy_ops, t'))]"
  have one: "length (tlog_feed (toy_ops, t')) = 1" using s(2) e by simp
  have "\<forall>(now, io, s, s')\<in>set ?cs. served_by (w_ops sample_world) (pinned_pub sample_monitor) s
      \<and> served_by (w_ops sample_world) (pinned_pub sample_monitor) s'"
    using s(1) sample_served by (simp add: sample_world_def sample_monitor_def)
  moreover have "last_seen (cn_state sample_canary) = PInt (int (length ([] :: pyval res list)))" by simp
  moreover have "keeps_up [] [] (map (\<lambda>(now, io, s, s'). (tlog_feed s, tlog_feed s')) ?cs)"
    using s(2) e by (simp add: prefixed_iff)
  ultimately obtain nows js where run: "length nows = length js" "set nows \<subseteq> fst ` set ?cs"
    "cn_notifier (poll_cycles sample_world sample_monitor (map (cycle_net serve_tlog sample_monitor) ?cs) sample_canary)
       = fold (\<lambda>(now, i). handle sample_world now (cn_state sample_canary) (tlog_feed (toy_ops, t') ! i)) (zip nows js)
           (cn_notifier sample_canary)"
    and js: "(\<forall>(now, io, s, s')\<in>set ?cs. tlog_feed s = tlog_feed s') \<longrightarrow> js = [0..<length (tlog_feed (toy_ops, t'))]"
    using canary_no_event_missed [of ?cs sample_world sample_monitor sample_canary "[]"] by auto
  from js have "js = [0]" by (simp add: one)
  moreover then obtain now where "nows = [now]" using run(1) by (cases nows) auto
  ultimately show ?thesis using run(2,3) one by (intro exI [of _ t'] exI [of _ now]) auto
qed

text \<open>
  One poll asks for one range: of more than 500 new entries it handles the first 500, and has then
  seen them all.
\<close>

theorem canary_one_range_per_poll:
  assumes "served_by (w_ops W) (pinned_pub mon) s" "served_by (w_ops W) (pinned_pub mon) s'"
    and "last_seen (cn_state c) = PInt (int k)" "k < length (tlog_feed s)"
    and "run_once W now io (network (serve_tlog s) mon) (network (serve_tlog s') mon) mon c = (c', r)"
  shows "cn_notifier c' = fold (handle W now (cn_state c)) (take 500 (drop k (tlog_feed s'))) (cn_notifier c)
    \<and> last_seen (cn_state c') = PInt (int (max k (length (tlog_feed s))))"
  using registry_feed.poll [OF assms(1-3,5)] assms(4) by simp

end
