(* ===== verification/CanaryEvidence.thy ===== *)
theory CanaryEvidence
  imports Feed RegistryEvidence
begin

text \<open>
  The monitor's check of an evidence bundle against the registry's signature. The registry signs the
  canonical form of \<open>jcs.py\<close>, whose keys are in the order of UTF-16 code units; the monitor writes
  the bundle with \<open>json.dumps(sort_keys=True)\<close>, whose keys are in the order of code points. The two
  agree on keys below the surrogates, and there a bundle of the registry is accepted.
\<close>

section \<open>Two orders of keys\<close>

fun plain_keys :: "pyval \<Rightarrow> bool" where
  "plain_keys (PList xs) = list_all plain_keys xs"
| "plain_keys (PDict kvs) =
     list_all (\<lambda>(k, v). (case k of KStr t \<Rightarrow> list_all (\<lambda>c. c < 0xD800) t | _ \<Rightarrow> False) \<and> plain_keys v) kvs"
| "plain_keys v = True"

lemma be16_order:
  assumes "c < 65536" "d < 65536"
  shows "be16 c @ x \<le> be16 d @ y \<longleftrightarrow> c < d \<or> c = d \<and> x \<le> y"
proof -
  have lt: "(of_nat m :: byte) < of_nat n \<longleftrightarrow> m < n" "(of_nat m :: byte) = of_nat n \<longleftrightarrow> m = n"
    if "m < 256" "n < 256" for m n
    using that by (simp_all add: word_less_nat_alt word_unat_eq_iff unat_of_nat_byte)
  have b: "c div 256 < 256" "d div 256 < 256" "c mod 256 < 256" "d mod 256 < 256"
    using assms by (simp_all add: less_mult_imp_div_less)
  have "c < d \<longleftrightarrow> c div 256 < d div 256 \<or> c div 256 = d div 256 \<and> c mod 256 < d mod 256"
  proof -
    have "256 * p + m < 256 * q + n \<longleftrightarrow> p < q \<or> p = q \<and> m < n" if "m < 256" "n < 256" for p q m n :: nat
      using that by (cases p q rule: linorder_cases) auto
    from this [OF b(3,4), of "c div 256" "d div 256"] show ?thesis by simp
  qed
  moreover have "c = d \<longleftrightarrow> c div 256 = d div 256 \<and> c mod 256 = d mod 256" by (metis div_mult_mod_eq)
  ultimately show ?thesis
    using lt(1) [OF b(1,2)] lt(2) [OF b(1,2)] lt(1) [OF b(3,4)] lt(2) [OF b(3,4)] by (auto simp: be16_def)
qed

lemma utf16_order:
  "list_all (\<lambda>c. c < 0xD800) s \<Longrightarrow> list_all (\<lambda>c. c < 0xD800) t \<Longrightarrow> utf16be s = Inr x \<Longrightarrow> utf16be t = Inr y
    \<Longrightarrow> x \<le> y \<longleftrightarrow> s \<le> t"
proof (induction s arbitrary: t x y)
  case (Cons c s)
  obtain x' where x: "utf16be s = Inr x'" "x = be16 c @ x'"
    using Cons.prems(1,3) by (auto simp: ebind_eq_Inr utf16_char_def split: if_splits)
  show ?case
  proof (cases t)
    case Nil
    then show ?thesis using Cons.prems(4) x(2) by (simp add: be16_def)
  next
    case (Cons d t')
    then obtain y' where y: "utf16be t' = Inr y'" "y = be16 d @ y'" "d < 0xD800"
      using Cons.prems(2,4) by (auto simp: ebind_eq_Inr utf16_char_def split: if_splits)
    then show ?thesis
      using Cons x Cons.IH [of t' x' y'] Cons.prems(1,2) be16_order [of c d x' y'] by simp
  qed
qed simp

lemma sort_key_same_order:
  "(\<And>x y. x \<in> set xs \<Longrightarrow> y \<in> set xs \<Longrightarrow> f x \<le> f y \<longleftrightarrow> g x \<le> g y) \<Longrightarrow> sort_key f xs = sort_key g xs"
proof (induction xs)
  case (Cons x xs)
  have "insort_key f x ys = insort_key g x ys" if "set ys \<subseteq> set xs" for ys
    using that Cons.prems by (induction ys) auto
  then show ?case using Cons by simp
qed simp

lemma plain_keysD:
  assumes "plain_keys (PDict kvs)" "p \<in> set (map (\<lambda>(k, v). (k, f v)) kvs)"
  obtains s where "fst p = KStr s" "list_all (\<lambda>c. c < 0xD800) s"
proof -
  obtain k v where "(k, v) \<in> set kvs" "fst p = k" using assms(2) by auto
  then show thesis using assms(1) that by (cases k) (auto simp: list_all_iff)
qed

lemma canon_sort_keys: "json_ok v \<Longrightarrow> plain_keys v \<Longrightarrow> canon v = sort_keys v"
proof (induction v rule: json_ok.induct)
  case (6 kvs)
  have m: "map (\<lambda>(k, v). (k, canon v)) kvs = map (\<lambda>(k, v). (k, sort_keys v)) kvs"
  proof (rule map_cong [OF refl])
    fix kv assume kv: "kv \<in> set kvs"
    obtain k v where "kv = (k, v)" by force
    then show "(case kv of (k, v) \<Rightarrow> (k, canon v)) = (case kv of (k, v) \<Rightarrow> (k, sort_keys v))"
      using "6.IH" [OF kv] "6.prems" kv by (fastforce simp: list_all_iff)
  qed
  have "sort_key item16 (map (\<lambda>(k, v). (k, sort_keys v)) kvs)
      = sort_key (\<lambda>kv. key_text (fst kv)) (map (\<lambda>(k, v). (k, sort_keys v)) kvs)"
  proof (rule sort_key_same_order)
    fix p q assume pq: "p \<in> set (map (\<lambda>(k, v). (k, sort_keys v)) kvs)" "q \<in> set (map (\<lambda>(k, v). (k, sort_keys v)) kvs)"
    obtain s where s: "fst p = KStr s" "list_all (\<lambda>c. c < 0xD800) s" by (rule plain_keysD [OF "6.prems"(2) pq(1)])
    obtain t where t: "fst q = KStr t" "list_all (\<lambda>c. c < 0xD800) t" by (rule plain_keysD [OF "6.prems"(2) pq(2)])
    note k = s t
    obtain x y where "utf16be s = Inr x" "utf16be t = Inr y"
      using k(2,4) utf16be_ok_iff [of s] utf16be_ok_iff [of t] by (auto simp: is_ok_ex list_all_iff intro: scalar_below)
    then show "item16 p \<le> item16 q \<longleftrightarrow> key_text (fst p) \<le> key_text (fst q)"
      using k utf16_order by (simp add: item16_def key16_def key_text_def)
  qed
  then show ?case unfolding canon.simps sort_keys.simps m by simp
qed (auto simp: list_all_iff)

lemma sorted_is_canonical:
  assumes "json_ok v" "plain_keys v"
  shows "ebind (json_dumps_sorted v) utf8_encode = jcs_dumps v"
  using json_ok_dumpable [OF assms(1)] serialize_write [OF assms(1)] canon_sort_keys [OF assms]
  by (simp add: json_dumps_sorted_def jcs_dumps_def)

section \<open>Properties\<close>

text \<open>
  The monitor accepts what the registry signs. A bundle that \<open>sign_bundle\<close> of the registry
  returns, well-formed JSON with keys below the surrogates, passes the check of a monitor that has
  pinned the registry's key, and comes back unchanged.
\<close>

theorem monitor_accepts_bundle:
  assumes "sign_bundle C (Some ident) body = Inr b" "dget ident ''ed25519_priv'' = Some (PStr (hex sk))"
    and "sig_correct C" "pinned_pub mon = ed_pub C sk" "json_ok (PDict b)" "plain_keys (PDict b)"
    and "http (mon_url mon @ u ''/evidence/'' @ f) [] = json_reply (Inr b)"
  shows "monitor_evidence C http mon f = Inr (Some b)"
proof -
  let ?k = "key ''bundle_signature_ed25519''"
  obtain msg where m: "jcs_dumps (PDict body) = Inr msg" "length sk = 32"
    "b = body @ [(?k, PStr (hex (ed_sign C sk msg)))]"
    using sign_bundle_ok [OF assms(1,2)] by blast
  have ok: "json_ok (PDict body)" "plain_keys (PDict body)" "?k \<notin> fst ` set body"
    using assms(5,6) m(3) by auto
  have "map_of body ?k = None" "filter (\<lambda>(k', _). ?k \<noteq> k') body = body"
    using ok(3) by (force simp: map_of_eq_None_iff intro!: filter_True)+
  then have del: "AList.delete ?k b = body" "dgetn b ''bundle_signature_ed25519'' = PStr (hex (ed_sign C sk msg))"
    using m(3) by (simp_all add: AList.delete_eq dgetn_def dgetd_def dget_def map_add_def)
  have "http (mon_url mon @ u ''/evidence/'' @ f) [] = Reply 200 (Inr (PDict b))"
    using assms(7) json_reply_ok [OF assms(5)] by simp
  moreover have "ebind (json_dumps_sorted (PDict body)) utf8_encode = Inr msg"
    using sorted_is_canonical [OF ok(1,2)] m(1) by simp
  moreover have "hex (ed_sign C sk msg) \<noteq> []"
    using assms(3) m(2) hex_inject [of _ "[]"] by (auto simp: sig_correct_def simp flip: hex_Nil)
  ultimately show ?thesis
    using del assms(3,4) m by (simp add: monitor_evidence_def status_code_def raise_for_status_def truthy_def sig_correct_def)
qed

text \<open>
  Beyond the surrogates the orders differ, and with them the bytes: the bundle of a file whose
  manifest has such keys is signed by the registry and refused by the monitor.
\<close>

theorem sorted_is_not_canonical:
  "\<exists>bs x. jcs_dumps (PDict [(KStr [0x10000], PNone), (KStr [0xFFFF], PNone)]) = Inr bs
     \<and> ebind (json_dumps_sorted (PDict [(KStr [0x10000], PNone), (KStr [0xFFFF], PNone)])) utf8_encode = Inr x
     \<and> bs \<noteq> x"
proof -
  let ?v = "PDict [(KStr [0x10000], PNone), (KStr [0xFFFF], PNone)]"
  let ?w = "PDict [(KStr [0xFFFF], PNone), (KStr [0x10000], PNone)]"
  have ok: "json_ok ?v" "json_ok ?w" by (simp_all add: key_ok_def scalar_str_def is_scalar_def is_surrogate_def)
  have cv: "canon ?v = ?v" and sv: "sort_keys ?v = ?w"
    by (simp_all add: item16_def key16_def is_scalar_def is_surrogate_def utf16_char_def be16_def key_text_def)
  obtain bs where bs: "jcs_dumps ?v = Inr bs" "utf8_decode bs = Inr (json_write [44] [58] jcs_esc ?v)"
    using jcs_dumps_ok [OF ok(1)] unfolding cv by blast
  have "is_ok (utf8_encode (json_write [44] [58] jcs_esc ?w))"
    using json_write_scalar [OF ok(2)] by (auto simp: utf8_encode_ok_iff simp del: json_write.simps)
  then obtain x where x: "utf8_encode (json_write [44] [58] jcs_esc ?w) = Inr x" by (auto simp: is_ok_ex)
  have loads: "json_loads (json_write [44] [58] jcs_esc ?v) = Inr ?v" "json_loads (json_write [44] [58] jcs_esc ?w) = Inr ?w"
    using ok good_seps_compact good_jcs_esc by (simp_all only: json_loads_write)
  moreover have "bs \<noteq> x"
  proof
    assume "bs = x"
    then have "json_write [44] [58] jcs_esc ?v = json_write [44] [58] jcs_esc ?w"
      using bs(2) utf8_decode_encode [OF x] by (simp only: sum.inject)
    with loads have "Inr ?v = (Inr ?w :: pyval res)" by (simp only:)
    then show False by simp
  qed
  moreover have "ebind (json_dumps_sorted ?v) utf8_encode = Inr x"
    using x unfolding json_dumps_sorted_def sv by simp
  ultimately show ?thesis using bs(1) by blast
qed

theorem monitor_accepts_bundle_witness:
  "\<exists>b. sign_bundle toy_ops (rg_identity sample_registry) [(key ''file_id'', PStr (u ''f-1''))] = Inr b
     \<and> monitor_evidence toy_ops (\<lambda>url ps. if url = u ''https://r/evidence/f-1'' then json_reply (Inr b) else NoReply)
         sample_monitor (u ''f-1'') = Inr (Some b)"
proof -
  let ?body = "[(key ''file_id'', PStr (u ''f-1''))]"
  have "json_ok (PDict ?body)" by (simp add: scalar_str_u)
  then obtain msg where msg: "jcs_dumps (PDict ?body) = Inr msg" using jcs_dumps_ok by blast
  let ?b = "?body @ [(key ''bundle_signature_ed25519'', PStr (hex (ed_sign toy_ops (replicate 32 7) msg)))]"
  have id: "rg_identity sample_registry = Some [(key ''ed25519_priv'', PStr (hex (replicate 32 7))),
      (key ''ed25519_pub'', PStr (hex (ed_pub toy_ops (replicate 32 7))))]"
    by (simp add: sample_registry_def)
  have b: "sign_bundle toy_ops (rg_identity sample_registry) ?body = Inr ?b"
    using msg by (simp add: sign_bundle_def id identity_item_def)
  have ok: "json_ok (PDict ?b)" by (simp add: scalar_str_u)
  have plain: "plain_keys (PDict ?b)" by (simp add: key_def u_def)
  have url: "mon_url sample_monitor @ u ''/evidence/'' @ u ''f-1'' = u ''https://r/evidence/f-1''"
    by (simp add: sample_monitor_def u_def)
  have pub: "pinned_pub sample_monitor = ed_pub toy_ops (replicate 32 7)" by (simp add: sample_monitor_def)
  have "monitor_evidence toy_ops (\<lambda>url ps. if url = u ''https://r/evidence/f-1'' then json_reply (Inr ?b) else NoReply)
      sample_monitor (u ''f-1'') = Inr (Some ?b)"
    by (rule monitor_accepts_bundle [OF b [unfolded id] _ toy_ops_correct(1) pub ok plain]) (simp_all add: url)
  then show ?thesis using b by blast
qed

end
