(* ===== verification/Beacon.thy ===== *)
theory Beacon
  imports RegistryHonest PyRegex
begin

text \<open>
  Beacons of a sealed copy (\<open>src/oversight_core/beacon.py\<close>) and the name server that hears of their
  lookups (\<open>src/oversight_dns/server.py\<close>), up to the registry's \<open>/dns_event\<close>. Random tokens are a
  function from the draw to its 16 bytes; the DNS library parses and packs messages, so a question
  comes as its name and the name of its type.
\<close>

section \<open>Beacons\<close>

record beacon =
  b_token_id :: pystr
  b_kind :: pystr
  b_url :: pystr
  b_dns_name :: "pystr option"

definition beacon_to_dict :: "beacon \<Rightarrow> pydict" where
  "beacon_to_dict b =
     [(key ''token_id'', PStr (b_token_id b)), (key ''kind'', PStr (b_kind b)), (key ''url'', PStr (b_url b)),
      (key ''dns_name'', opt_val (b_dns_name b))]"

definition token_hex :: "(nat \<Rightarrow> bytes) \<Rightarrow> nat \<Rightarrow> pystr" where
  "token_hex rnd i = hex (rnd i)"

text \<open>The beacon of a kind, none for an unknown one\<close>

definition beacon_of_kind :: "pystr \<Rightarrow> pystr \<Rightarrow> pystr \<Rightarrow> beacon list" where
  "beacon_of_kind registry_domain tid kind =
     (if kind = u ''dns'' then
        let host = tid @ u ''.t.'' @ registry_domain in
        [\<lparr>b_token_id = tid, b_kind = u ''dns'', b_url = u ''dns://'' @ host, b_dns_name = Some host\<rparr>]
      else if kind = u ''http_img'' then
        [\<lparr>b_token_id = tid, b_kind = u ''http_img'',
          b_url = u ''https://b.'' @ registry_domain @ u ''/p/'' @ tid @ u ''.png'', b_dns_name = None\<rparr>]
      else if kind = u ''ocsp'' then
        [\<lparr>b_token_id = tid, b_kind = u ''ocsp'',
          b_url = u ''https://ocsp.'' @ registry_domain @ u ''/r/'' @ tid, b_dns_name = None\<rparr>]
      else if kind = u ''license'' then
        [\<lparr>b_token_id = tid, b_kind = u ''license'',
          b_url = u ''https://lic.'' @ registry_domain @ u ''/v/'' @ tid, b_dns_name = None\<rparr>]
      else [])"

definition all_kinds :: "pystr list" where
  "all_kinds = [u ''dns'', u ''http_img'', u ''ocsp'', u ''license'']"

definition gen_beacons :: "(nat \<Rightarrow> bytes) \<Rightarrow> pystr \<Rightarrow> pystr list option \<Rightarrow> beacon list" where
  "gen_beacons rnd registry_domain include =
     (let kinds = (case include of Some ks \<Rightarrow> if ks = [] then all_kinds else ks | None \<Rightarrow> all_kinds)
      in concat (map (\<lambda>(i, kind). beacon_of_kind registry_domain (token_hex rnd i) kind) (enumerate 0 kinds)))"

definition beacon_to_img_tag :: "beacon \<Rightarrow> pystr" where
  "beacon_to_img_tag b = u ''<img src=\"'' @ b_url b @ u ''\" width=\"1\" height=\"1\" alt=\"\"/>''"

definition beacons_html_block :: "beacon list \<Rightarrow> pystr" where
  "beacons_html_block beacons =
     u ''<div style=\"display:none\">'' @ [10]
     @ join [10] (map beacon_to_img_tag (filter (\<lambda>b. b_kind b = u ''http_img'') beacons))
     @ [10] @ u ''</div>''"

section \<open>The name server\<close>

record resolver =
  rv_beacon_domain :: pystr
  rv_registry_url :: pystr
  rv_answer_ip :: pystr
  rv_registry_secret :: pystr
  rv_token_suffix :: pystr

definition resolver_init :: "ucd \<Rightarrow> pystr \<Rightarrow> pystr \<Rightarrow> pystr \<Rightarrow> pystr \<Rightarrow> resolver" where
  "resolver_init U beacon_domain registry_url answer_ip registry_secret =
     (let d = py_lower U (rstrip_chars (u ''.'') beacon_domain) in
      \<lparr>rv_beacon_domain = d, rv_registry_url = rstrip_chars (u ''/'') registry_url,
       rv_answer_ip = answer_ip, rv_registry_secret = registry_secret, rv_token_suffix = u ''.t.'' @ d\<rparr>)"

record dns_post =
  dp_url :: pystr
  dp_json :: pydict
  dp_headers :: "(string \<times> pystr) list"

record dns_answer =
  da_name :: pystr
  da_ip :: pystr
  da_ttl :: nat

definition lower_hex :: "nat \<Rightarrow> bool" where
  "lower_hex c \<longleftrightarrow> is_digit c \<or> (97 \<le> c \<and> c \<le> 102)"

definition token_of_name :: "resolver \<Rightarrow> pystr \<Rightarrow> pystr option" where
  "token_of_name rv qname =
     (if suffixed (rv_token_suffix rv) qname then
        let pre = take (length qname - length (rv_token_suffix rv)) qname in
        if list_all lower_hex pre \<and> length pre = 32 then Some pre else None
      else None)"

text \<open>
  What is posted to the registry, and the answer. A post that fails is only written to the log.
\<close>

definition resolve :: "ucd \<Rightarrow> resolver \<Rightarrow> pystr \<Rightarrow> pystr \<Rightarrow> pystr option \<Rightarrow> dns_post option \<times> dns_answer option" where
  "resolve U rv name qtype client_address =
     (let qname = py_lower U (rstrip_chars (u ''.'') name);
          client_ip = (case client_address of Some a \<Rightarrow> a | None \<Rightarrow> u ''unknown'');
          post = (case token_of_name rv qname of
              None \<Rightarrow> None
            | Some token_id \<Rightarrow>
                Some \<lparr>dp_url = rv_registry_url rv @ u ''/dns_event'',
                      dp_json = [(key ''token_id'', PStr token_id), (key ''client_ip'', PStr client_ip),
                                 (key ''qtype'', PStr qtype), (key ''qname'', PStr qname)],
                      dp_headers = (if rv_registry_secret rv = [] then []
                                    else [(''X-Oversight-DNS-Secret'', rv_registry_secret rv)])\<rparr>)
      in (post,
          if qtype = u ''A'' then Some \<lparr>da_name = qname, da_ip = rv_answer_ip rv, da_ttl = 60\<rparr> else None))"

section \<open>From the lookup to the registry\<close>

text \<open>The body and the headers of the post as the registry's framework hands them to \<open>/dns_event\<close>\<close>

definition posted_body :: "dns_post \<Rightarrow> dns_body option" where
  "posted_body p =
     (case (dgetn (dp_json p) ''token_id'', dgetn (dp_json p) ''client_ip'', dgetn (dp_json p) ''qtype'', dgetn (dp_json p) ''qname'') of
        (PStr t, PStr ip, PStr ty, PStr n) \<Rightarrow>
          Some \<lparr>dn_token = t, dn_client_ip = Some ip, dn_qtype = Some ty, dn_qname = Some n\<rparr>
      | _ \<Rightarrow> None)"

definition lower_name :: "string \<Rightarrow> string" where
  "lower_name k = map (\<lambda>c. char_of (ascii_lower (of_char c))) k"

definition posted_request :: "pystr option \<Rightarrow> dns_post \<Rightarrow> request" where
  "posted_request host p =
     \<lparr>headers = map (\<lambda>(k, v). (lower_name k, v)) (dp_headers p),
      client_host = host\<rparr>"

section \<open>Tokens survive the lookup\<close>

lemma hex_lower: "list_all lower_hex (hex x)" "map ascii_lower (hex x) = hex x"
proof -
  have "lower_hex (hex_digit n) \<and> ascii_lower (hex_digit n) = hex_digit n" if "n < 16" for n
    using that by (auto simp: hex_digit_def lower_hex_def is_digit_def ascii_lower_def)
  then have d: "lower_hex (hex_digit (unat b div 16)) \<and> ascii_lower (hex_digit (unat b div 16)) = hex_digit (unat b div 16)
      \<and> lower_hex (hex_digit (unat b mod 16)) \<and> ascii_lower (hex_digit (unat b mod 16)) = hex_digit (unat b mod 16)" for b :: byte
    using byte_bound [of b] by (simp add: less_mult_imp_div_less)
  show "list_all lower_hex (hex x)" "map ascii_lower (hex x) = hex x"
    using d by (induction x) (simp_all add: hex_def byte_hex_def)
qed

lemma rstrip_chars_ascii: "all_ascii s \<Longrightarrow> all_ascii (rstrip_chars cs s)"
  by (auto simp: all_ascii_def rstrip_chars_def list_all_iff dest: set_dropWhileD)

lemma resolve_token:
  assumes "length x = 16" "host = hex x @ u ''.t.'' @ domain"
    and "all_ascii name" "map ascii_lower (rstrip_chars (u ''.'') name) = map ascii_lower host"
    and "all_ascii served" "map ascii_lower (rstrip_chars (u ''.'') served) = map ascii_lower domain"
  shows "fst (resolve U (resolver_init U served url ip secret) name qtype client)
    = Some \<lparr>dp_url = rstrip_chars (u ''/'') url @ u ''/dns_event'',
            dp_json = [(key ''token_id'', PStr (hex x)), (key ''client_ip'', PStr (case client of Some a \<Rightarrow> a | None \<Rightarrow> u ''unknown'')),
                       (key ''qtype'', PStr qtype), (key ''qname'', PStr (map ascii_lower host))],
            dp_headers = (if secret = [] then [] else [(''X-Oversight-DNS-Secret'', secret)])\<rparr>"
proof -
  have d: "py_lower U (rstrip_chars (u ''.'') served) = map ascii_lower domain"
    "py_lower U (rstrip_chars (u ''.'') name) = map ascii_lower host"
    using assms(3-6) rstrip_chars_ascii by (simp_all add: py_lower_def)
  have "map ascii_lower host = hex x @ u ''.t.'' @ map ascii_lower domain"
    using hex_lower(2) [of x] by (simp add: assms(2)) (simp add: u_def ascii_lower_def)
  moreover have "length (hex x) = 32" using assms(1) by simp
  ultimately have "token_of_name (resolver_init U served url ip secret) (map ascii_lower host) = Some (hex x)"
    using hex_lower(1) [of x] by (simp add: token_of_name_def resolver_init_def d(1) suffixed_iff Let_def)
  then show ?thesis by (simp add: resolve_def d(2) Let_def) (simp add: resolver_init_def Let_def)
qed

lemma gen_beacons_dns:
  assumes "b \<in> set (gen_beacons rnd domain include)" "b_dns_name b = Some host"
  shows "\<exists>i. b_token_id b = hex (rnd i) \<and> host = hex (rnd i) @ u ''.t.'' @ domain"
proof -
  obtain i kind where "b \<in> set (beacon_of_kind domain (token_hex rnd i) kind)"
    using assms(1) by (force simp: gen_beacons_def Let_def)
  then show ?thesis using assms(2)
    unfolding beacon_of_kind_def token_hex_def Let_def by (auto split: if_split_asm)
qed

lemma posted_secret:
  assumes "dp_headers p = [(''X-Oversight-DNS-Secret'', secret)]" "secret \<noteq> []" "strip secret = secret"
    and "all_ascii secret" "cf_dns_secret cfg = secret"
  shows "verify_dns_event_auth cfg (posted_request host p) = Inr ()"
proof -
  have "lower_name ''X-Oversight-DNS-Secret'' = ''x-oversight-dns-secret''"
    by (simp add: lower_name_def ascii_lower_def char_of_def bit_Suc_0_iff)
  then have "header (posted_request host p) ''x-oversight-dns-secret'' = secret"
    using assms(1) by (simp add: posted_request_def header_def)
  then show ?thesis
    using assms by (simp add: verify_dns_event_auth_def bearer_or_header_token_def Let_def compare_digest_def)
qed

lemma dns_event_stored:
  assumes "snd (rate_limit (cf_trusted_proxy cfg) (mo_mono mo) r (rg_bucket st)) = Inr ()"
    and "verify_dns_event_auth cfg r = Inr ()" "beacon_owner (dn_token evt) (rg_tables st) = Inr (Some row)"
    and "rg_log st = Some t" "mo_io mo = None"
    and "json_ok (PDict (dns_log_event evt (Some (bc_file row)) (Some (bc_recipient row)) (mo_stamp mo)))"
  shows "\<exists>st' idx e. dns_event cfg mo evt r st = (st', Inr [(key ''ok'', PBool True), (key ''tlog_index'', PInt idx)])
    \<and> e \<in> set (t_events (rg_tables st')) \<and> ev_token e = dn_token evt \<and> ev_file e = Some (bc_file row)
    \<and> ev_recipient e = Some (bc_recipient row) \<and> ev_kind e = u ''dns'' \<and> ev_index e = Some idx"
proof -
  let ?ev = "dns_log_event evt (Some (bc_file row)) (Some (bc_recipient row)) (mo_stamp mo)"
  obtain t' where t': "append_tlog None ?ev (Some t) = (Some t', Inr (int (length (leaves t))))"
    using append_event_ok [OF assms(6)] by blast
  obtain b where b: "rate_limit (cf_trusted_proxy cfg) (mo_mono mo) r (rg_bucket st) = (b, Inr ())"
    using assms(1) by (metis prod.collapse)
  have ok: "json_ok (opt_val (dn_client_ip evt))" "json_ok (opt_val (dn_qname evt))" "json_ok (opt_val (dn_qtype evt))"
    using assms(6) by (simp_all add: dns_log_event_def)
  obtain ip where ip: "sql_text (opt_val (dn_client_ip evt)) = Inr ip"
    using ok(1) by (cases "dn_client_ip evt") (auto simp: opt_val_def sql_text_def)
  obtain x where x: "dns_extra evt = Inr x"
    using ok(2,3) json_dumps_ok [of "PDict [(key ''qtype'', opt_val (dn_qtype evt)), (key ''qname'', opt_val (dn_qname evt))]"]
    by (auto simp: dns_extra_def)
  let ?row = "\<lambda>n. \<lparr>ev_id = n, ev_token = dn_token evt, ev_file = Some (bc_file row), ev_recipient = Some (bc_recipient row),
    ev_issuer = Some (bc_issuer row), ev_kind = u ''dns'', ev_ip = ip, ev_agent = Some [], ev_extra = Some x,
    ev_at = mo_time mo, ev_stamp = Some (mo_stamp mo), ev_index = Some (int (length (leaves t)))\<rparr>"
  let ?st' = "st\<lparr>rg_bucket := b, rg_log := Some t', rg_tables := insert_event ?row (rg_tables st)\<rparr>"
  have "store_dns_event mo evt (st\<lparr>rg_bucket := b\<rparr>) = (?st', Inr (int (length (leaves t))))"
    using assms(3-5) t' ip x by (simp add: store_dns_event_def Let_def)
  then have "dns_event cfg mo evt r st
      = (?st', Inr [(key ''ok'', PBool True), (key ''tlog_index'', PInt (int (length (leaves t))))])"
    using assms(2) b by (simp add: dns_event_def)
  moreover obtain n where "?row n \<in> set (t_events (rg_tables ?st'))" by (auto simp: insert_event_def Let_def)
  ultimately show ?thesis by (intro exI [of _ ?st'] exI [of _ "int (length (leaves t))"] exI [of _ "?row n"]) simp
qed

section \<open>Properties\<close>

text \<open>
  C35: a lookup of a beacon's name reaches the registry. For every DNS beacon generated for a domain,
  a query of its name, in any letter case and with any number of final dots, to a name server of
  that domain is posted with exactly the beacon's token, and a registry with the same secret that
  knows the token records a DNS event of the token's file and recipient and logs it.
\<close>

theorem dns_beacon_recorded:
  assumes "b \<in> set (gen_beacons rnd domain include)" "b_dns_name b = Some host" "\<And>i. length (rnd i) = 16"
    and "all_ascii domain" "all_ascii name" "map ascii_lower (rstrip_chars (u ''.'') name) = map ascii_lower host"
    and "all_ascii served" "map ascii_lower (rstrip_chars (u ''.'') served) = map ascii_lower domain"
    and "secret \<noteq> []" "strip secret = secret" "all_ascii secret" "cf_dns_secret cfg = secret"
    and "scalar_str qtype" "scalar_str (mo_stamp mo)" "case client of Some a \<Rightarrow> scalar_str a | None \<Rightarrow> True"
    and "beacon_owner (b_token_id b) (rg_tables st) = Inr (Some row)"
    and "scalar_str (bc_file row)" "scalar_str (bc_recipient row)"
    and "rg_log st = Some t" "mo_io mo = None"
    and "\<And>r. snd (rate_limit (cf_trusted_proxy cfg) (mo_mono mo) r (rg_bucket st)) = Inr ()"
  shows "\<exists>p evt st' idx e. fst (resolve U (resolver_init U served url ip secret) name qtype client) = Some p
    \<and> posted_body p = Some evt \<and> dn_token evt = b_token_id b
    \<and> dns_event cfg mo evt (posted_request peer p) st = (st', Inr [(key ''ok'', PBool True), (key ''tlog_index'', PInt idx)])
    \<and> e \<in> set (t_events (rg_tables st')) \<and> ev_token e = b_token_id b \<and> ev_file e = Some (bc_file row)
    \<and> ev_recipient e = Some (bc_recipient row) \<and> ev_kind e = u ''dns'' \<and> ev_index e = Some idx"
proof -
  obtain i where i: "b_token_id b = hex (rnd i)" "host = hex (rnd i) @ u ''.t.'' @ domain"
    using gen_beacons_dns [OF assms(1,2)] by blast
  let ?ip = "case client of Some a \<Rightarrow> a | None \<Rightarrow> u ''unknown''"
  let ?p = "\<lparr>dp_url = rstrip_chars (u ''/'') url @ u ''/dns_event'',
            dp_json = [(key ''token_id'', PStr (hex (rnd i))), (key ''client_ip'', PStr ?ip),
                       (key ''qtype'', PStr qtype), (key ''qname'', PStr (map ascii_lower host))],
            dp_headers = (if secret = [] then [] else [(''X-Oversight-DNS-Secret'', secret)])\<rparr>"
  let ?evt = "\<lparr>dn_token = hex (rnd i), dn_client_ip = Some ?ip, dn_qtype = Some qtype, dn_qname = Some (map ascii_lower host)\<rparr>"
  have p: "fst (resolve U (resolver_init U served url ip secret) name qtype client) = Some ?p"
    by (rule resolve_token [OF assms(3) i(2) assms(5-8)])
  have b: "posted_body ?p = Some ?evt" by (simp add: posted_body_def)
  have "map ascii_lower host = hex (rnd i) @ map ascii_lower (u ''.t.'' @ domain)"
    using hex_lower(2) i(2) by simp
  moreover have "\<forall>c\<in>set (map ascii_lower (u ''.t.'' @ domain)). is_scalar c"
    using assms(4) by (auto simp: all_ascii_def list_all_iff u_def ascii_lower_def intro!: scalar_below)
  ultimately have "scalar_str (map ascii_lower host)"
    using json_ok_hex [of "rnd i"] by (auto simp: scalar_str_def list_all_iff)
  moreover have "scalar_str ?ip" using assms(15) by (simp add: scalar_str_u split: option.splits)
  ultimately have ok: "json_ok (PDict (dns_log_event ?evt (Some (bc_file row)) (Some (bc_recipient row)) (mo_stamp mo)))"
    using assms(13,14,17,18) by (simp add: dns_log_event_def opt_val_def str_val_def scalar_str_u)
  have auth: "verify_dns_event_auth cfg (posted_request peer ?p) = Inr ()"
    by (rule posted_secret [OF _ assms(9-12)]) (use assms(9) in simp)
  have "beacon_owner (dn_token ?evt) (rg_tables st) = Inr (Some row)" using assms(16) i(1) by simp
  from dns_event_stored [OF assms(21) auth this assms(19,20) ok]
  obtain st' idx e where "dns_event cfg mo ?evt (posted_request peer ?p) st = (st', Inr [(key ''ok'', PBool True), (key ''tlog_index'', PInt idx)])"
    "e \<in> set (t_events (rg_tables st'))" "ev_token e = dn_token ?evt" "ev_file e = Some (bc_file row)"
    "ev_recipient e = Some (bc_recipient row)" "ev_kind e = u ''dns''" "ev_index e = Some idx"
    by blast
  then show ?thesis
    using i(1) by (intro exI [of _ ?p] exI [of _ ?evt] exI [of _ st'] exI [of _ idx] exI [of _ e] conjI p b) simp_all
qed

lemma hex_upper: "all_ascii (map ascii_upper (hex x))" "map ascii_lower (map ascii_upper (hex x)) = hex x"
proof -
  have "ascii_upper (hex_digit n) < 128 \<and> ascii_lower (ascii_upper (hex_digit n)) = hex_digit n" if "n < 16" for n
    using that by (auto simp: hex_digit_def ascii_upper_def ascii_lower_def)
  then have d: "ascii_upper (hex_digit (unat b div 16)) < 128 \<and> ascii_upper (hex_digit (unat b mod 16)) < 128
      \<and> ascii_lower (ascii_upper (hex_digit (unat b div 16))) = hex_digit (unat b div 16)
      \<and> ascii_lower (ascii_upper (hex_digit (unat b mod 16))) = hex_digit (unat b mod 16)" for b :: byte
    using byte_bound [of b] by (simp add: less_mult_imp_div_less)
  show "all_ascii (map ascii_upper (hex x))" "map ascii_lower (map ascii_upper (hex x)) = hex x"
    using d by (induction x) (simp_all add: hex_def byte_hex_def all_ascii_def)
qed

theorem dns_beacon_recorded_witness:
  "\<exists>p evt st' idx e.
     fst (resolve ascii_ucd (resolver_init ascii_ucd (u ''EXAMPLE.com.'') (u ''http://r'') (u ''192.0.2.1'') (u ''k3y''))
            (map ascii_upper (hex (replicate 16 171)) @ u ''.T.Example.COM.'') (u ''A'') (Some (u ''198.51.100.7''))) = Some p
     \<and> posted_body p = Some evt
     \<and> dns_event (sample_config\<lparr>cf_dns_secret := u ''k3y''\<rparr>) sample_moment evt (posted_request None p)
         (sample_registry\<lparr>rg_tables := empty_tables\<lparr>t_beacons := [\<lparr>bc_token = Some (hex (replicate 16 171)),
            bc_file = u ''f-1'', bc_recipient = u ''alice'', bc_issuer = u ''issuer'', bc_kind = u ''dns'', bc_at = 0\<rparr>]\<rparr>\<rparr>)
       = (st', Inr [(key ''ok'', PBool True), (key ''tlog_index'', PInt idx)])
     \<and> e \<in> set (t_events (rg_tables st')) \<and> ev_token e = hex (replicate 16 171) \<and> ev_file e = Some (u ''f-1'')"
proof -
  let ?rnd = "\<lambda>i :: nat. replicate 16 (171 :: byte)" and ?tid = "hex (replicate 16 171)"
  let ?host = "?tid @ u ''.t.'' @ u ''example.com''"
  let ?b = "\<lparr>b_token_id = ?tid, b_kind = u ''dns'', b_url = u ''dns://'' @ ?host, b_dns_name = Some ?host\<rparr>"
  let ?row = "\<lparr>bc_token = Some ?tid, bc_file = u ''f-1'', bc_recipient = u ''alice'', bc_issuer = u ''issuer'',
    bc_kind = u ''dns'', bc_at = 0\<rparr>"
  let ?st = "sample_registry\<lparr>rg_tables := empty_tables\<lparr>t_beacons := [?row]\<rparr>\<rparr>"
  let ?cfg = "sample_config\<lparr>cf_dns_secret := u ''k3y''\<rparr>"
  have b: "?b \<in> set (gen_beacons ?rnd (u ''example.com'') None)"
    by (simp add: gen_beacons_def all_kinds_def beacon_of_kind_def token_hex_def Let_def)
  have tid: "all_ascii (map ascii_upper ?tid)" "map ascii_lower (map ascii_upper ?tid) = ?tid" "scalar_str ?tid"
    using hex_upper json_ok_hex [of "replicate 16 171"] by (simp_all del: map_map)
  have strip_dot: "rstrip_chars (u ''.'') (s @ u ''.T.Example.COM.'') = s @ u ''.T.Example.COM''" for s
    by (simp add: rstrip_chars_def u_def)
  have name: "map ascii_lower (rstrip_chars (u ''.'') (map ascii_upper ?tid @ u ''.T.Example.COM.'')) = map ascii_lower ?host"
    unfolding strip_dot using tid(2) hex_lower(2) by (simp add: u_def ascii_lower_def)
  have own: "beacon_owner (b_token_id ?b) (rg_tables ?st) = Inr (Some ?row)"
    using tid(3) by (simp add: beacon_owner_def empty_tables_def select_where_def)
  have rate: "snd (rate_limit (cf_trusted_proxy ?cfg) (mo_mono sample_moment) r (rg_bucket ?st)) = Inr ()" for r
    by (simp add: sample_config_def sample_moment_def sample_registry_def sample_rate)
  have asc: "all_ascii (map ascii_upper ?tid @ u ''.T.Example.COM.'')" using tid(1) by (simp add: all_ascii_def u_def)
  have served: "all_ascii (u ''EXAMPLE.com.'')" "all_ascii (u ''example.com'')"
    "map ascii_lower (rstrip_chars (u ''.'') (u ''EXAMPLE.com.'')) = map ascii_lower (u ''example.com'')"
    by (simp_all add: all_ascii_def u_def rstrip_chars_def ascii_lower_def)
  have secret: "u ''k3y'' \<noteq> []" "strip (u ''k3y'') = u ''k3y''" "all_ascii (u ''k3y'')"
    by (simp_all add: u_def strip_def lstrip_def rstrip_def is_space_def all_ascii_def)
  have rest: "b_dns_name ?b = Some ?host" "length (?rnd i) = 16" "cf_dns_secret ?cfg = u ''k3y''"
    "scalar_str (u ''A'')" "scalar_str (mo_stamp sample_moment)"
    "case Some (u ''198.51.100.7'') of Some a \<Rightarrow> scalar_str a | None \<Rightarrow> True"
    "scalar_str (bc_file ?row)" "scalar_str (bc_recipient ?row)" "rg_log ?st = Some empty_tlog" "mo_io sample_moment = None" for i
    by (simp_all add: scalar_str_u sample_moment_def sample_registry_def)
  show ?thesis
    using dns_beacon_recorded [OF b rest(1,2) served(2) asc name served(1,3) secret rest(3-6) own rest(7-10) rate,
        where U = ascii_ucd and url = "u ''http://r''" and ip = "u ''192.0.2.1''" and peer = None]
    by (simp only: beacon.simps beacon_row.simps) blast
qed

end
