(* ===== verification/Calendar.thy ===== *)
theory Calendar
  imports PyObj
begin

text \<open>
  UTC timestamps as \<open>src/oversight_core/siem.py\<close> writes them (\<open>iso8601\<close>): Python's
  \<open>datetime.fromtimestamp(ts, tz=utc)\<close> on whole seconds, in the proleptic Gregorian calendar, and
  \<open>strftime("%Y-%m-%dT%H:%M:%SZ")\<close>. Only \<open>iso8601\<close> is code of the program; the calendar stands for the
  standard library's. \<open>read_iso\<close> reads the text by the closed form of the days before a
  date, independently of the loops that find the date. \<open>%Y\<close> is not padded (years below 1000 on the
  platforms the program runs on); a time outside the years 1 to 9999 raises, as \<open>ValueError\<close>,
  \<open>OverflowError\<close> or \<open>OSError\<close> by its size, which the model does not tell apart.
\<close>

section \<open>From days to dates\<close>

definition leap :: "nat \<Rightarrow> bool" where
  "leap y \<longleftrightarrow> y mod 4 = 0 \<and> (y mod 100 \<noteq> 0 \<or> y mod 400 = 0)"

text \<open>Days in the first \<open>k\<close> years from 0001-01-01 on\<close>

definition days_before :: "nat \<Rightarrow> nat" where
  "days_before k = 365 * k + k div 4 - k div 100 + k div 400"

definition month_lengths :: "nat \<Rightarrow> nat list" where
  "month_lengths y = [31, if leap y then 29 else 28, 31, 30, 31, 30, 31, 31, 30, 31, 30, 31]"

lemma days_before_Suc: "days_before (Suc k) = days_before k + (if leap (Suc k) then 366 else 365)"
proof -
  have 1: "Suc k div n = k div n + (if Suc k mod n = 0 then 1 else 0)" for n
    by (simp add: div_Suc)
  have "k div 100 \<le> k div 4" by (rule div_le_mono2) simp_all
  then obtain e where e: "k div 4 = k div 100 + e" using le_Suc_ex by blast
  have "Suc k mod 400 = 0 \<Longrightarrow> Suc k mod 100 = 0" "Suc k mod 100 = 0 \<Longrightarrow> Suc k mod 4 = 0"
    by presburger+
  then show ?thesis unfolding days_before_def leap_def 1 e
    by (cases "Suc k mod 400 = 0"; cases "Suc k mod 100 = 0"; cases "Suc k mod 4 = 0") simp_all
qed

lemma days_before_ge: "365 * k \<le> days_before k"
  by (induction k) (auto simp: days_before_Suc)

lemma days_before_le: "days_before k \<le> 366 * k"
  by (induction k) (auto simp: days_before_Suc, simp add: days_before_def)

lemma days_before_mono: "j \<le> k \<Longrightarrow> days_before j \<le> days_before k"
  by (induction rule: dec_induct) (auto simp: days_before_Suc)

lemma sum_month_lengths: "sum_list (month_lengths y) = (if leap y then 366 else 365)"
  by (simp add: month_lengths_def)

lemma year_step: "days_before (Suc k) \<le> n \<Longrightarrow> k < n"
  using order_trans [OF days_before_ge [of "Suc k"]] by fastforce

text \<open>The year is found from a lower bound upwards.\<close>

function year_loop :: "nat \<Rightarrow> nat \<Rightarrow> nat" where
  "year_loop k n = (if days_before (Suc k) \<le> n then year_loop (Suc k) n else k)"
  by auto
termination
  by (relation "measure (\<lambda>(k, n). n - k)") (auto dest: year_step)

declare year_loop.simps [simp del]

fun month_loop :: "nat \<Rightarrow> nat list \<Rightarrow> nat \<Rightarrow> nat \<times> nat" where
  "month_loop m [] d = (m, d + 1)"
| "month_loop m (l # ls) d = (if d < l then (m, d + 1) else month_loop (m + 1) ls (d - l))"

definition civil :: "nat \<Rightarrow> nat \<times> nat \<times> nat" where
  "civil n =
     (let k = year_loop (n div 366) n;
          (m, d) = month_loop 1 (month_lengths (k + 1)) (n - days_before k)
      in (k + 1, m, d))"

lemma year_loop_bounds:
  "days_before k \<le> n \<Longrightarrow> days_before (year_loop k n) \<le> n \<and> n < days_before (Suc (year_loop k n))"
  by (induction k n rule: year_loop.induct) (subst (1 2) year_loop.simps, auto)

lemma month_loop_bounds:
  "month_loop m ls d = (m', d') \<Longrightarrow> d < sum_list ls \<Longrightarrow>
     m \<le> m' \<and> m' - m < length ls \<and> 1 \<le> d' \<and> d' \<le> ls ! (m' - m) \<and> d = sum_list (take (m' - m) ls) + (d' - 1)"
proof (induction m ls d rule: month_loop.induct)
  case (2 m l ls d)
  show ?case
  proof (cases "d < l")
    case False
    have i: "m + 1 \<le> m' \<and> m' - (m + 1) < length ls \<and> 1 \<le> d' \<and> d' \<le> ls ! (m' - (m + 1))
      \<and> d - l = sum_list (take (m' - (m + 1)) ls) + (d' - 1)"
      by (rule 2) (use 2 False in auto)
    then have "m' - m = Suc (m' - (m + 1))" by linarith
    moreover have "d = l + (sum_list (take (m' - (m + 1)) ls) + (d' - 1))" using i False by linarith
    ultimately show ?thesis using i by simp
  qed (use 2 in auto)
qed simp

definition valid_date :: "nat \<Rightarrow> nat \<Rightarrow> nat \<Rightarrow> bool" where
  "valid_date y m d \<longleftrightarrow> 1 \<le> y \<and> 1 \<le> m \<and> m \<le> 12 \<and> 1 \<le> d \<and> d \<le> month_lengths y ! (m - 1)"

definition days_of :: "nat \<Rightarrow> nat \<Rightarrow> nat \<Rightarrow> nat" where
  "days_of y m d = days_before (y - 1) + sum_list (take (m - 1) (month_lengths y)) + (d - 1)"

lemma civil_correct:
  assumes "civil n = (y, m, d)"
  shows "valid_date y m d \<and> days_of y m d = n"
proof -
  let ?k = "year_loop (n div 366) n"
  have "days_before (n div 366) \<le> n"
    by (rule order_trans [OF days_before_le]) simp
  from year_loop_bounds [OF this] have b: "days_before ?k \<le> n" "n < days_before (Suc ?k)" by simp_all
  obtain m' d' where ml: "month_loop 1 (month_lengths (?k + 1)) (n - days_before ?k) = (m', d')" by force
  then have y: "y = ?k + 1" "m = m'" "d = d'" using assms by (simp_all add: civil_def Let_def)
  have "n - days_before ?k < sum_list (month_lengths (?k + 1))"
    using b by (simp add: sum_month_lengths days_before_Suc split: if_splits)
  moreover have "length (month_lengths (?k + 1)) = 12" by (simp add: month_lengths_def)
  moreover note month_loop_bounds [OF ml]
  ultimately have c: "1 \<le> m'" "m' \<le> 12" "1 \<le> d'" "d' \<le> month_lengths (?k + 1) ! (m' - 1)"
    "n - days_before ?k = sum_list (take (m' - 1) (month_lengths (?k + 1))) + (d' - 1)" by linarith+
  then have "n = days_before ?k + (sum_list (take (m' - 1) (month_lengths (?k + 1))) + (d' - 1))"
    using b(1) by linarith
  then have "days_of (?k + 1) m' d' = n" by (simp only: days_of_def add_diff_cancel_right' add.assoc)
  then show ?thesis using c unfolding y valid_date_def by simp
qed

section \<open>The text\<close>

definition two :: "nat \<Rightarrow> pystr" where
  "two n = [48 + n div 10, 48 + n mod 10]"

definition epoch_offset :: int where
  "epoch_offset = 62135596800"

definition iso8601 :: "int \<Rightarrow> pystr res" where
  "iso8601 ts =
     (if ts < - epoch_offset \<or> 253402300799 < ts then Inl (ValueError ''year is out of range'')
      else
        let s = nat (ts + epoch_offset); (y, m, d) = civil (s div 86400); t = s mod 86400
        in Inr (nat_digits y @ [45] @ two m @ [45] @ two d @ [84]
                @ two (t div 3600) @ [58] @ two (t div 60 mod 60) @ [58] @ two (t mod 60) @ [90]))"

section \<open>Reading it back\<close>

definition val2 :: "nat \<Rightarrow> nat \<Rightarrow> nat" where
  "val2 a b = 10 * (a - 48) + (b - 48)"

definition read_iso :: "pystr \<Rightarrow> int option" where
  "read_iso s =
     (case dropWhile is_digit s of
        [c1, m1, m2, c2, d1, d2, c3, h1, h2, c4, n1, n2, c5, s1, s2, c6] \<Rightarrow>
          let y = digits_val (takeWhile is_digit s); m = val2 m1 m2; d = val2 d1 d2;
              hh = val2 h1 h2; mm = val2 n1 n2; ss = val2 s1 s2
          in if [c1, c2, c3, c4, c5, c6] = [45, 45, 84, 58, 58, 90]
                \<and> list_all is_digit [m1, m2, d1, d2, h1, h2, n1, n2, s1, s2]
                \<and> valid_date y m d \<and> hh < 24 \<and> mm < 60 \<and> ss < 60
             then Some (86400 * int (days_of y m d) + int (3600 * hh + 60 * mm + ss) - epoch_offset)
             else None
      | _ \<Rightarrow> None)"

lemma val2_two: "val2 (48 + n div 10) (48 + n mod 10) = n"
  by (simp add: val2_def)

lemma two_digits: "n < 100 \<Longrightarrow> is_digit (48 + n div 10) \<and> is_digit (48 + n mod 10)"
  by (auto simp: is_digit_def)

lemma valid_date_small: "valid_date y m d \<Longrightarrow> m < 100 \<and> d < 100"
proof -
  assume v: "valid_date y m d"
  have "\<forall>x\<in>set (month_lengths y). x \<le> 31" by (simp add: month_lengths_def)
  moreover have "m - 1 < length (month_lengths y)" using v by (auto simp: valid_date_def month_lengths_def)
  then have "month_lengths y ! (m - 1) \<in> set (month_lengths y)" by (rule nth_mem)
  ultimately have "month_lengths y ! (m - 1) \<le> 31" by blast
  then show ?thesis using v by (auto simp: valid_date_def)
qed

lemma read_iso_fields:
  assumes "valid_date y m d" "hh < 24" "mm < 60" "ss < 60"
  shows "read_iso (nat_digits y @ [45] @ two m @ [45] @ two d @ [84] @ two hh @ [58] @ two mm @ [58] @ two ss @ [90])
    = Some (86400 * int (days_of y m d) + int (3600 * hh + 60 * mm + ss) - epoch_offset)"
proof -
  let ?r = "[45] @ two m @ [45] @ two d @ [84] @ two hh @ [58] @ two mm @ [58] @ two ss @ [90]"
  have "\<forall>x\<in>set (nat_digits y). is_digit x" using nat_digits_digit by blast
  then have t: "dropWhile is_digit (nat_digits y @ ?r) = ?r" "takeWhile is_digit (nat_digits y @ ?r) = nat_digits y"
    by (simp_all add: is_digit_def)
  have "m < 100" "d < 100" using valid_date_small assms(1) by blast+
  then have "is_digit (48 + x div 10) \<and> is_digit (48 + x mod 10)" if "x \<in> {m, d, hh, mm, ss}" for x
    using that assms by (intro two_digits) auto
  then show ?thesis using assms unfolding read_iso_def t by (simp add: two_def val2_two Let_def)
qed

text \<open>
  For every time in the years 1 to 9999, \<open>iso8601\<close> writes a text, and the calendar reads that text, which holds a valid date and time of day, as exactly that time: the model of the standard
  library's calendar agrees with the closed form of the days before a date.
\<close>

theorem iso8601_reads_back:
  assumes "- epoch_offset \<le> ts" "ts \<le> 253402300799"
  shows "\<exists>s. iso8601 ts = Inr s \<and> read_iso s = Some ts"
proof -
  define s where "s = nat (ts + epoch_offset)"
  define t where "t = s mod 86400"
  obtain y m d where c: "civil (s div 86400) = (y, m, d)" by (metis prod_cases3)
  note cc = civil_correct [OF c]
  let ?r = "[45] @ two m @ [45] @ two d @ [84] @ two (t div 3600) @ [58] @ two (t div 60 mod 60) @ [58]
    @ two (t mod 60) @ [90]"
  have iso: "iso8601 ts = Inr (nat_digits y @ ?r)"
    using assms unfolding iso8601_def s_def [symmetric] by (simp only: Let_def c t_def case_prod_conv) simp
  have t: "t < 86400" by (simp add: t_def)
  have hms: "t div 3600 < 24" "3600 * (t div 3600) + 60 * (t div 60 mod 60) + t mod 60 = t"
  proof -
    show "t div 3600 < 24" using t by (simp add: less_mult_imp_div_less)
    have "t div 3600 = t div 60 div 60" using div_mult2_eq [of t 60 60] by simp
    moreover have "60 * (t div 60) + t mod 60 = t" "60 * (t div 60 div 60) + t div 60 mod 60 = t div 60" by simp_all
    ultimately show "3600 * (t div 3600) + 60 * (t div 60 mod 60) + t mod 60 = t" by linarith
  qed
  have "int s = ts + epoch_offset" using assms by (simp add: s_def)
  moreover have "int (86400 * (s div 86400) + t) = int s" unfolding t_def by (simp only: mult_div_mod_eq)
  ultimately have ts: "86400 * int (s div 86400) + int t - epoch_offset = ts" by simp
  have "read_iso (nat_digits y @ ?r)
      = Some (86400 * int (s div 86400) + int (3600 * (t div 3600) + 60 * (t div 60 mod 60) + t mod 60) - epoch_offset)"
    using read_iso_fields [of y m d "t div 3600" "t div 60 mod 60" "t mod 60"] cc hms(1) by simp
  then show ?thesis using iso ts hms(2) by simp
qed

theorem iso8601_reads_back_witness:
  "iso8601 1735000000 = Inr (u ''2024-12-24T00:26:40Z'') \<and> read_iso (u ''2024-12-24T00:26:40Z'') = Some 1735000000"
proof -
  have "civil 739243 = (2024, 12, 24)"
    by (simp add: civil_def year_loop.simps days_before_def month_lengths_def leap_def)
  then have "iso8601 1735000000 = Inr (u ''2024-12-24T00:26:40Z'')"
    by (simp add: iso8601_def epoch_offset_def two_def u_def nat_digits.simps)
  then show ?thesis using iso8601_reads_back [of 1735000000] by (simp add: epoch_offset_def)
qed

text \<open>
  The docstring of \<open>iso8601\<close> and \<open>docs/SIEM.md\<close> promise an RFC 3339 time, whose year has four digits; the
  years below 1000 are written shorter.
\<close>

lemma iso8601_year_unpadded: "iso8601 (-62135596800) = Inr (u ''1-01-01T00:00:00Z'')"
proof -
  have "civil 0 = (1, 1, 1)" by (simp add: civil_def year_loop.simps days_before_def month_lengths_def leap_def)
  then show ?thesis by (simp add: iso8601_def epoch_offset_def two_def u_def nat_digits.simps)
qed

end
