(* ===== verification/JsonFloat.thy ===== *)
theory JsonFloat
  imports JsonIndent PyObj
begin

text \<open>
  \<open>json.dumps\<close> with \<open>separators=(",", ":")\<close> on values that hold floats: one line, the text of a float
  being a parameter \<open>fr\<close> (the shortest decimal that denotes it is the interpreter's). What is read
  back is the value itself whenever each float's text is read back; \<open>integral_repr\<close>, the text of a
  float with an integer value below \<open>10 ^ 16\<close>, is shown to be.
\<close>

section \<open>Writing\<close>

fun json_text :: "(pyfloat \<Rightarrow> pystr) \<Rightarrow> pyval \<Rightarrow> pystr" where
  "json_text fr (PList xs) = 91 # join [44] (map (json_text fr) xs) @ [93]"
| "json_text fr (PDict kvs) =
     123 # join [44] (map (\<lambda>(k, v). quote esc_ascii (key_text k) @ [58] @ json_text fr v) kvs) @ [125]"
| "json_text fr (PFloat f) = fr f"
| "json_text fr v = json_write [44] [58] esc_ascii v"

fun writable :: "pyval \<Rightarrow> bool" where
  "writable (PList xs) = list_all writable xs"
| "writable (PDict kvs) = list_all (\<lambda>(k, v). writable v) kvs"
| "writable (PBytes x) = False"
| "writable _ = True"

definition json_dumps_compact :: "(pyfloat \<Rightarrow> pystr) \<Rightarrow> pyval \<Rightarrow> pystr res" where
  "json_dumps_compact fr v =
     (if writable v then Inr (json_text fr v) else Inl (TypeError ''not JSON serializable''))"

text \<open>The text of a float that is an integer below \<open>10 ^ 16\<close>: its digits and \<open>.0\<close>\<close>

definition integral_repr :: "pyfloat \<Rightarrow> pystr" where
  "integral_repr f =
     (case f of
        Fin q \<Rightarrow> int_str \<lfloor>q\<rfloor> @ u ''.0''
      | PosInf \<Rightarrow> u ''Infinity''
      | NegInf \<Rightarrow> u ''-Infinity''
      | NaN \<Rightarrow> u ''NaN'')"

section \<open>Round trip\<close>

text \<open>A float whose text is visible and is read back, whatever may follow a number\<close>

definition float_reads :: "(pyfloat \<Rightarrow> pystr) \<Rightarrow> pyfloat \<Rightarrow> bool" where
  "float_reads fr f \<longleftrightarrow>
     fr f \<noteq> [] \<and> list_all printable (fr f) \<and> hd (fr f) \<in> {45, 73, 78} \<union> {48..57}
     \<and> (\<forall>r. num_stop r \<longrightarrow> json_scalar (fr f @ r) = Some (PFloat f, r))"

fun json_okf :: "(pyfloat \<Rightarrow> pystr) \<Rightarrow> pyval \<Rightarrow> bool" where
  "json_okf fr (PList xs) = list_all (json_okf fr) xs"
| "json_okf fr (PDict kvs) =
     (distinct (map fst kvs) \<and> list_all (\<lambda>(k, v). key_ok k \<and> json_okf fr v) kvs)"
| "json_okf fr (PFloat f) = float_reads fr f"
| "json_okf fr v = json_ok v"

lemma json_ok_okf: "json_ok v \<Longrightarrow> json_okf fr v"
  by (induction v rule: json_ok.induct) (auto simp: list_all_iff)

lemma json_okf_writable: "json_okf fr v \<Longrightarrow> writable v"
  by (induction fr v rule: json_okf.induct) (auto simp: list_all_iff)

lemma json_text_leaf: "json_leaf v \<Longrightarrow> \<forall>f. v \<noteq> PFloat f \<Longrightarrow> json_text fr v = json_write [44] [58] esc_ascii v"
  and json_okf_leaf: "json_leaf v \<Longrightarrow> \<forall>f. v \<noteq> PFloat f \<Longrightarrow> json_okf fr v = json_ok v"
  by (cases v; simp add: json_leaf_def)+

lemma json_text_start:
  assumes "json_okf fr v"
  shows "\<exists>c s. json_text fr v = c # s \<and> \<not> json_ws c \<and> c \<noteq> 93 \<and> c \<noteq> 125"
proof -
  consider f where "v = PFloat f" | "json_leaf v" "\<forall>f. v \<noteq> PFloat f" | "\<not> json_leaf v" by blast
  then show ?thesis
  proof cases
    case 1
    then show ?thesis using assms by (cases "fr f") (auto simp: float_reads_def json_ws_def)
  next
    case 2
    then have "json_ok v" "json_text fr v = json_write [44] [58] esc_ascii v"
      using assms json_okf_leaf json_text_leaf by blast+
    then show ?thesis using json_write_start [of v "[44]" "[58]" esc_ascii] by simp
  qed (auto simp: json_leaf_def json_ws_def split: pyval.splits)
qed

lemma json_value_float:
  assumes "float_reads fr f" "num_stop r" "n \<noteq> 0"
  shows "json_value n (fr f @ r) = Some (PFloat f, r)"
proof -
  obtain m where "n = Suc m" using assms(3) by (cases n) auto
  then show ?thesis using assms(1,2) by (cases "fr f") (auto simp: float_reads_def json_Suc)
qed

lemma json_value_text_leaf:
  "json_leaf v \<Longrightarrow> \<forall>f. v \<noteq> PFloat f \<Longrightarrow> json_okf fr v \<Longrightarrow> num_stop r \<Longrightarrow> length (json_text fr v) \<le> n
    \<Longrightarrow> json_value n (json_text fr v @ r) = Some (v, r)"
  by (simp add: json_text_leaf json_okf_leaf json_value_write [OF good_seps_compact good_esc_ascii])

lemma json_value_text:
  "json_okf fr v \<Longrightarrow> num_stop r \<Longrightarrow> length (json_text fr v) \<le> n \<Longrightarrow>
    json_value n (json_text fr v @ r) = Some (v, r)"
proof (induction v arbitrary: n r)
  case (PFloat f)
  then show ?case by (cases n) (auto intro!: json_value_float simp: float_reads_def)
next
  case (PList xs)
  then obtain m where n: "n = Suc m" by (cases n) auto
  show ?case
  proof (cases "xs = []")
    case True
    then show ?thesis using n by (simp add: json_Suc json_ws_def)
  next
    case False
    have ok: "json_okf fr x" if "x \<in> set xs" for x using that PList.prems(1) by (simp add: list_all_iff)
    have "json_items m (join [44] (map (json_text fr) xs) @ [] @ 93 # r) = Some (xs, r)"
      using PList.prems n False PList.IH ok json_text_start
      by (intro json_items_write [OF refl _ _ False]) fastforce+
    moreover obtain x xs' where xs: "xs = x # xs'" using False by (cases xs) auto
    then obtain c s where c: "json_text fr x = c # s" "\<not> json_ws c" "c \<noteq> 93"
      using json_text_start [of fr x] ok by auto
    then have "\<exists>s'. join [44] (map (json_text fr) xs) @ 93 # r = c # s'" using xs by (cases xs') auto
    ultimately show ?thesis using n c(2,3) by (auto simp: json_Suc Let_def)
  qed
next
  case (PDict kvs)
  then obtain m where n: "n = Suc m" by (cases n) auto
  show ?case
  proof (cases "kvs = []")
    case True
    then show ?thesis using n by (simp add: json_Suc json_ws_def dict_of_def)
  next
    case False
    let ?M = "\<lambda>(k, v). quote esc_ascii (key_text k) @ [58] @ json_text fr v"
    have ok: "key_ok k \<and> (\<exists>c s. json_text fr v = c # s \<and> \<not> json_ws c)" if "(k, v) \<in> set kvs" for k v
    proof -
      have "key_ok k" "json_okf fr v" using that PDict.prems(1) by (auto simp: list_all_iff)
      then show ?thesis using json_text_start [of fr v] by blast
    qed
    have "json_members m (join [44] (map ?M kvs) @ [] @ 125 # r) = Some (kvs, r)"
      using PDict.prems n False PDict.IH
      by (intro json_members_write [OF refl _ refl _ _ good_esc_ascii False ok _ refl])
        (auto simp: list_all_iff intro: snds.intros)
    moreover obtain kv kvs' where "kvs = kv # kvs'" using False by (cases kvs) auto
    then have "\<exists>s'. join [44] (map ?M kvs) @ 125 # r = 34 # s'"
      by (cases kvs') (auto simp: quote_def split: prod.split)
    ultimately show ?thesis using n PDict.prems by (auto simp: json_Suc json_ws_def Let_def dict_of_id)
  qed
qed (rule json_value_text_leaf; simp add: json_leaf_def)+

lemma json_loads_text:
  assumes "json_okf fr v" "\<forall>c\<in>set w. json_ws c"
  shows "json_loads (json_text fr v @ w) = Inr v"
proof -
  obtain c t where c: "json_text fr v = c # t" "\<not> json_ws c" using json_text_start [OF assms(1)] by blast
  have "c \<noteq> 0xFEFF"
  proof (cases v)
    case (PInt i)
    then show ?thesis using c hd_int_str [of i "[]"] by (auto simp: is_digit_def)
  qed (use c assms(1) in \<open>auto simp: u_def quote_def float_reads_def split: if_splits\<close>)
  moreover have "num_stop w" using assms(2) by (cases w) (auto simp: num_stop_def json_ws_def is_digit_def)
  then have "json_value (Suc (2 * length (json_text fr v @ w))) (json_text fr v @ w) = Some (v, w)"
    using assms(1) by (intro json_value_text) auto
  moreover have "skip_ws w = []" using assms(2) by (simp add: skip_ws_def)
  ultimately show ?thesis using c by (simp add: json_loads_def)
qed

lemma json_dumps_compact_ok: "json_okf fr v \<Longrightarrow> json_dumps_compact fr v = Inr (json_text fr v)"
  by (simp add: json_dumps_compact_def json_okf_writable)

lemma json_loads_compact: "json_okf fr v \<Longrightarrow> json_dumps_compact fr v = Inr s \<Longrightarrow> json_loads s = Inr v"
  using json_loads_text [of fr v "[]"] by (auto simp: json_dumps_compact_def split: if_splits)

interpretation jsonf: codec "json_dumps_compact fr" json_loads "json_okf fr" for fr
  by unfold_locales (rule json_loads_compact)

section \<open>One line\<close>

lemma json_text_printable:
  "json_okf fr v \<Longrightarrow> c \<in> set (json_text fr v) \<Longrightarrow> printable c"
proof (induction fr v rule: json_text.induct)
  case (1 fr xs)
  then show ?case by (auto dest!: set_join simp: list_all_iff) (auto simp: printable_def)
next
  case (2 fr kvs)
  then show ?case
    by (fastforce dest!: set_join quote_printable simp: list_all_iff printable_def [of 44] printable_def [of 58]
        printable_def [of 123] printable_def [of 125] split: prod.splits)
qed (auto simp: float_reads_def list_all_iff u_def printable_def dest: int_str_printable quote_printable split: if_splits)

section \<open>Floats with an integer value\<close>

lemma float_reads_integral: "float_reads integral_repr (Fin (of_int i))"
proof -
  have 1: "integral_repr (Fin (of_int i)) = int_str i @ [46, 48]" by (simp add: integral_repr_def u_def)
  have "json_scalar (int_str i @ [46, 48] @ r) = Some (PFloat (Fin (of_int i)), r)" if "num_stop r" for r
  proof -
    have "\<not> first_is 45 (nat_digits m @ s)" for m s
      using nat_digits_first [of m] by (auto simp: first_is_def is_digit_def)
    moreover have "num_frac (46 # 48 # r) = ([48], r)" and "num_exp r = ([], False, r)"
      using that num_frac_exp_stop [OF that] take_digits_all [of "[48]" r]
      by (auto simp: num_frac_def num_stop_def is_digit_def)
    ultimately have "json_number (int_str i @ [46, 48] @ r) = Some (PFloat (Fin (of_int i)), r)"
      using num_int_nat [of "46 # 48 # r"] digits_val_def [of "[]"]
      by (auto simp: json_number_def int_str_def Let_def pow10_def is_digit_def)
    then show ?thesis using json_scalar_digits by metis
  qed
  then show ?thesis
    using 1 hd_int_str [of i "[46, 48]"] int_str_printable [of _ i]
    by (auto simp: float_reads_def list_all_iff printable_def is_digit_def)
qed

end
