(* ===== verification/Siem.thy ===== *)
theory Siem
  imports RegistryHonest Calendar JsonFloat PyBase64
begin

text \<open>
  The export of registry events to a SIEM (\<open>src/oversight_core/siem.py\<close>): the normalized event of a
  row, the three formats, the authorization header of Sentinel, the sinks, and the query that reads
  the \<open>events\<close> table. A generator is the list of what it yields, an exception it raises being the last
  entry; a text file keeps what is flushed and what is still in its buffer. Failures of the disk are
  left out. Floats are exact rationals (\<open>time\<close> is exact below \<open>2 ^ 53\<close>), their text is a parameter.
\<close>

section \<open>Events\<close>

record siem_event =
  se_event_id :: pystr
  se_event_kind :: pystr
  se_occurred_unix :: int
  se_occurred_at :: pystr
  se_registry_id :: pystr
  se_token_id :: pyval
  se_file_id :: pyval
  se_recipient_id :: pyval
  se_issuer_id :: pyval
  se_source_ip :: pyval
  se_user_agent :: pyval
  se_qualified_timestamp :: pyval
  se_tlog_index :: pyval
  se_extra :: pydict

definition siem_to_dict :: "siem_event \<Rightarrow> pydict" where
  "siem_to_dict e =
     [(key ''event_id'', PStr (se_event_id e)), (key ''event_kind'', PStr (se_event_kind e)),
      (key ''occurred_unix'', PInt (se_occurred_unix e)), (key ''occurred_at'', PStr (se_occurred_at e)),
      (key ''registry_id'', PStr (se_registry_id e)), (key ''token_id'', se_token_id e),
      (key ''file_id'', se_file_id e), (key ''recipient_id'', se_recipient_id e),
      (key ''issuer_id'', se_issuer_id e), (key ''source_ip'', se_source_ip e),
      (key ''user_agent'', se_user_agent e), (key ''qualified_timestamp'', se_qualified_timestamp e),
      (key ''tlog_index'', se_tlog_index e), (key ''extra'', PDict (se_extra e))]"

text \<open>\<open>json.loads\<close> of a value from a column: bytes are taken as UTF-8\<close>

definition py_json_loads :: "pyval \<Rightarrow> pyval res" where
  "py_json_loads v =
     (case v of
        PStr s \<Rightarrow> json_loads s
      | PBytes x \<Rightarrow> ebind (utf8_decode x) json_loads
      | _ \<Rightarrow> Inl (TypeError ''the JSON object must be str, bytes or bytearray''))"

definition py_or :: "pyval \<Rightarrow> pyval \<Rightarrow> pyval" where
  "py_or v d = (if truthy v then v else d)"

definition row_extra :: "pyval \<Rightarrow> pyval res" where
  "row_extra raw =
     (if truthy raw then
        (case py_json_loads raw of
           Inl e \<Rightarrow> if is_TypeError e \<or> e = JSONDecodeError then Inr (PDict [(key ''raw'', raw)]) else Inl e
         | Inr v \<Rightarrow> Inr v)
      else Inr (PDict []))"

definition from_registry_row :: "world \<Rightarrow> pystr \<Rightarrow> pydict \<Rightarrow> siem_event res" where
  "from_registry_row W registry_id d =
     ebind (row_extra (py_or (dgetn d ''extra'') (PStr []))) (\<lambda>extra.
     ebind (py_int (py_or (dgetn d ''timestamp'') (PInt 0))) (\<lambda>occurred_unix.
     ebind (if occurred_unix \<noteq> 0 then iso8601 occurred_unix else Inr []) (\<lambda>occurred_at.
     Inr \<lparr>se_event_id = py_str W (dgetd d ''id'' (PStr [])),
          se_event_kind = py_str W (py_or (dgetn d ''kind'') (PStr [])),
          se_occurred_unix = occurred_unix,
          se_occurred_at = occurred_at,
          se_registry_id = registry_id,
          se_token_id = dgetn d ''token_id'',
          se_file_id = dgetn d ''file_id'',
          se_recipient_id = dgetn d ''recipient_id'',
          se_issuer_id = dgetn d ''issuer_id'',
          se_source_ip = dgetn d ''source_ip'',
          se_user_agent = py_or (dgetn d ''user_agent'') PNone,
          se_qualified_timestamp = dgetn d ''qualified_timestamp'',
          se_tlog_index = dgetn d ''tlog_index'',
          se_extra = (case extra of PDict x \<Rightarrow> x | _ \<Rightarrow> [(key ''raw'', extra)])\<rparr>)))"

section \<open>Formats\<close>

definition ECS_VERSION :: pystr where "ECS_VERSION = u ''8.11.0''"
definition SIEM_SCHEMA :: pystr where "SIEM_SCHEMA = u ''oversight-siem-1''"

definition action_by_kind :: "pystr \<Rightarrow> pystr" where
  "action_by_kind k =
     (if k = u ''dns'' then u ''beacon-dns-callback''
      else if k = u ''http_img'' then u ''beacon-http-pixel''
      else if k = u ''ocsp'' then u ''beacon-ocsp-callback''
      else if k = u ''license'' then u ''beacon-license-check''
      else u ''beacon-'' @ k)"

definition drop_empty :: "pydict \<Rightarrow> pydict" where
  "drop_empty d = filter (\<lambda>(k, v). v \<noteq> PNone \<and> v \<noteq> PStr []) d"

definition dict_or_none :: "pydict \<Rightarrow> pyval" where
  "dict_or_none d = (if d = [] then PNone else PDict d)"

text \<open>The keyword arguments of \<open>to_splunk_hec\<close>\<close>

record splunk_opts =
  sp_source :: pystr
  sp_sourcetype :: pystr
  sp_index :: "pystr option"
  sp_host :: "pystr option"

definition splunk_defaults :: splunk_opts where
  "splunk_defaults =
     \<lparr>sp_source = u ''oversight:registry'', sp_sourcetype = u ''oversight:beacon'', sp_index = None, sp_host = None\<rparr>"

definition to_splunk_hec :: "splunk_opts \<Rightarrow> siem_event \<Rightarrow> pydict" where
  "to_splunk_hec opts e =
     [(key ''time'', PFloat (Fin (of_int (se_occurred_unix e)))),
      (key ''host'', PStr (case sp_host opts of Some h \<Rightarrow> if h = [] then se_registry_id e else h
                                          | None \<Rightarrow> se_registry_id e)),
      (key ''source'', PStr (sp_source opts)),
      (key ''sourcetype'', PStr (sp_sourcetype opts)),
      (key ''event'', PDict (drop_empty
         [(key ''schema'', PStr SIEM_SCHEMA), (key ''kind'', PStr (se_event_kind e)),
          (key ''action'', PStr (action_by_kind (se_event_kind e))), (key ''event_id'', PStr (se_event_id e)),
          (key ''occurred_at'', PStr (se_occurred_at e)), (key ''token_id'', se_token_id e),
          (key ''file_id'', se_file_id e), (key ''recipient_id'', se_recipient_id e),
          (key ''issuer_id'', se_issuer_id e), (key ''source_ip'', se_source_ip e),
          (key ''user_agent'', se_user_agent e), (key ''qualified_timestamp'', se_qualified_timestamp e),
          (key ''tlog_index'', se_tlog_index e), (key ''registry_id'', PStr (se_registry_id e)),
          (key ''extra'', dict_or_none (se_extra e))])),
      (key ''fields'', PDict (drop_empty
         [(key ''file_id'', se_file_id e), (key ''recipient_id'', se_recipient_id e),
          (key ''issuer_id'', se_issuer_id e), (key ''beacon_kind'', PStr (se_event_kind e))]))]
     @ (case sp_index opts of Some i \<Rightarrow> if i = [] then [] else [(key ''index'', PStr i)] | None \<Rightarrow> [])"

definition to_ecs :: "siem_event \<Rightarrow> pydict" where
  "to_ecs e =
     drop_empty
       [(key ''@timestamp'', PStr (se_occurred_at e)),
        (key ''ecs'', PDict [(key ''version'', PStr ECS_VERSION)]),
        (key ''event'', PDict (drop_empty
           [(key ''kind'', PStr (u ''event'')), (key ''category'', PList [PStr (u ''network'')]),
            (key ''type'', PList [PStr (u ''access''), PStr (u ''info'')]),
            (key ''dataset'', PStr (u ''oversight.beacon'')), (key ''module'', PStr (u ''oversight'')),
            (key ''provider'', PStr (u ''oversight-registry'')),
            (key ''action'', PStr (action_by_kind (se_event_kind e))), (key ''id'', PStr (se_event_id e)),
            (key ''outcome'', PStr (u ''success''))])),
        (key ''source'', dict_or_none (drop_empty [(key ''ip'', se_source_ip e)])),
        (key ''user_agent'', dict_or_none (drop_empty [(key ''original'', se_user_agent e)])),
        (key ''labels'', PDict (drop_empty
           [(key ''oversight_token_id'', se_token_id e), (key ''oversight_file_id'', se_file_id e),
            (key ''oversight_recipient_id'', se_recipient_id e), (key ''oversight_issuer_id'', se_issuer_id e),
            (key ''oversight_beacon_kind'', PStr (se_event_kind e))])),
        (key ''oversight'', PDict (drop_empty
           [(key ''schema'', PStr SIEM_SCHEMA), (key ''registry_id'', PStr (se_registry_id e)),
            (key ''token_id'', se_token_id e), (key ''file_id'', se_file_id e),
            (key ''recipient_id'', se_recipient_id e), (key ''issuer_id'', se_issuer_id e),
            (key ''beacon_kind'', PStr (se_event_kind e)), (key ''tlog_index'', se_tlog_index e),
            (key ''qualified_timestamp'', se_qualified_timestamp e),
            (key ''extra'', dict_or_none (se_extra e))]))]"

definition to_sentinel :: "(pyfloat \<Rightarrow> pystr) \<Rightarrow> siem_event \<Rightarrow> pydict res" where
  "to_sentinel fr e =
     ebind (if se_extra e = [] then Inr PNone
            else ebind (json_dumps_compact fr (PDict (se_extra e))) (\<lambda>s. Inr (PStr s))) (\<lambda>extra.
     Inr (drop_empty
       [(key ''TimeGenerated'', PStr (se_occurred_at e)), (key ''Schema'', PStr SIEM_SCHEMA),
        (key ''RegistryId'', PStr (se_registry_id e)), (key ''EventId'', PStr (se_event_id e)),
        (key ''BeaconKind'', PStr (se_event_kind e)), (key ''Action'', PStr (action_by_kind (se_event_kind e))),
        (key ''TokenId'', se_token_id e), (key ''FileId'', se_file_id e),
        (key ''RecipientId'', se_recipient_id e), (key ''IssuerId'', se_issuer_id e),
        (key ''SourceIp'', se_source_ip e), (key ''UserAgent'', se_user_agent e),
        (key ''QualifiedTimestamp'', se_qualified_timestamp e), (key ''TlogIndex'', se_tlog_index e),
        (key ''ExtraJson'', extra)]))"

definition known_format :: "pystr \<Rightarrow> bool" where
  "known_format fmt \<longleftrightarrow> fmt \<in> {u ''splunk'', u ''ecs'', u ''sentinel''}"

definition format_event :: "(pyfloat \<Rightarrow> pystr) \<Rightarrow> siem_event \<Rightarrow> pystr \<Rightarrow> splunk_opts \<Rightarrow> pydict res" where
  "format_event fr e fmt opts =
     (if \<not> known_format fmt then Inl (ValueError ''unknown SIEM format'')
      else if fmt = u ''splunk'' then Inr (to_splunk_hec opts e)
      else if fmt = u ''ecs'' then Inr (to_ecs e)
      else to_sentinel fr e)"

section \<open>The authorization header of Sentinel\<close>

definition xor_pad :: "8 word \<Rightarrow> bytes \<Rightarrow> bytes" where
  "xor_pad c k = map (\<lambda>x. xor x c) (k @ replicate (64 - length k) 0)"

definition hmac_sha256 :: "bytes \<Rightarrow> bytes \<Rightarrow> bytes" where
  "hmac_sha256 k msg =
     (let k' = (if 64 < length k then sha256 k else k)
      in sha256 (xor_pad 0x5c k' @ sha256 (xor_pad 0x36 k' @ msg)))"

definition sentinel_string ::
    "int \<Rightarrow> pystr \<Rightarrow> pystr \<Rightarrow> pystr \<Rightarrow> pystr \<Rightarrow> pystr" where
  "sentinel_string content_length date_rfc1123 meth content_type resource =
     meth @ [10] @ int_str content_length @ [10] @ content_type @ [10] @ u ''x-ms-date:'' @ date_rfc1123
     @ [10] @ resource"

definition sentinel_authorization ::
    "pystr \<Rightarrow> pystr \<Rightarrow> int \<Rightarrow> pystr \<Rightarrow> pystr \<Rightarrow> pystr \<Rightarrow> pystr \<Rightarrow> pystr res" where
  "sentinel_authorization workspace_id shared_key_b64 content_length date_rfc1123 meth content_type resource =
     ebind (py_b64decode (PStr shared_key_b64)) (\<lambda>decoded_key.
     ebind (utf8_encode (sentinel_string content_length date_rfc1123 meth content_type resource)) (\<lambda>msg.
     Inr (u ''SharedKey '' @ workspace_id @ u '':'' @ b64encode (hmac_sha256 decoded_key msg))))"

section \<open>Sinks\<close>

text \<open>An open text file: what has reached the file, and the buffer in front of it\<close>

record text_sink =
  ts_flushed :: pystr
  ts_buffer :: pystr

definition file_sink_open :: "pystr \<Rightarrow> pystr \<Rightarrow> text_sink res" where
  "file_sink_open mode content =
     (if mode \<noteq> u ''a'' \<and> mode \<noteq> u ''w'' then Inl (ValueError ''FileSink mode must be a or w'')
      else Inr \<lparr>ts_flushed = (if mode = u ''w'' then [] else content), ts_buffer = []\<rparr>)"

definition sink_flush :: "text_sink \<Rightarrow> text_sink" where
  "sink_flush s = \<lparr>ts_flushed = ts_flushed s @ ts_buffer s, ts_buffer = []\<rparr>"

text \<open>
  The loop of \<open>FileSink.send\<close> and \<open>StdoutSink.send\<close> over the generator's records, up to the count
  or the first exception
\<close>

fun send_loop :: "(pyfloat \<Rightarrow> pystr) \<Rightarrow> nat \<Rightarrow> pydict res list \<Rightarrow> text_sink \<Rightarrow> text_sink \<times> nat res" where
  "send_loop fr n [] s = (s, Inr n)"
| "send_loop fr n (Inl e # rs) s = (s, Inl e)"
| "send_loop fr n (Inr r # rs) s =
     (case json_dumps_compact fr (PDict r) of
        Inl e \<Rightarrow> (s, Inl e)
      | Inr t \<Rightarrow> send_loop fr (n + 1) rs (s\<lparr>ts_buffer := ts_buffer s @ t @ [10]\<rparr>))"

definition text_send :: "(pyfloat \<Rightarrow> pystr) \<Rightarrow> pydict res list \<Rightarrow> text_sink \<Rightarrow> text_sink \<times> nat res" where
  "text_send fr rs s =
     (case send_loop fr 0 rs s of
        (s1, Inl e) \<Rightarrow> (s1, Inl e)
      | (s1, Inr n) \<Rightarrow> (sink_flush s1, Inr n))"

text \<open>Closing flushes; an exception of the close is dropped.\<close>

definition text_close :: "text_sink \<Rightarrow> pystr" where
  "text_close s = ts_flushed (sink_flush s)"

text \<open>
  The HTTP sink: the client, a third-party package, is a function from the post to a status or its
  exception. The posts it was called with are returned, at most one.
\<close>

record http_sink =
  hs_url :: pystr
  hs_headers :: "(pystr \<times> pystr) list"

record http_post =
  hp_url :: pystr
  hp_headers :: "(pystr \<times> pystr) list"
  hp_json :: "pydict list"

definition http_sink_init :: "pystr \<Rightarrow> (pystr \<times> pystr) list option \<Rightarrow> http_sink" where
  "http_sink_init url hdrs =
     \<lparr>hs_url = url, hs_headers = (case hdrs of Some h \<Rightarrow> h | None \<Rightarrow> [])\<rparr>"

fun list_of_gen :: "'a res list \<Rightarrow> 'a list res" where
  "list_of_gen [] = Inr []"
| "list_of_gen (Inl e # rs) = Inl e"
| "list_of_gen (Inr r # rs) = ebind (list_of_gen rs) (\<lambda>xs. Inr (r # xs))"

definition http_send ::
    "(http_post \<Rightarrow> nat res) \<Rightarrow> pydict res list \<Rightarrow> http_sink \<Rightarrow> http_post list \<times> nat res" where
  "http_send net rs s =
     (case list_of_gen rs of
        Inl e \<Rightarrow> ([], Inl e)
      | Inr batch \<Rightarrow>
          if batch = [] then ([], Inr 0)
          else
            let p = \<lparr>hp_url = hs_url s, hp_headers = hs_headers s, hp_json = batch\<rparr>
            in ([p], ebind (net p) (\<lambda>status.
                 if 200 \<le> status \<and> status < 300 then Inr (length batch)
                 else Inl (HTTPError ''raise_for_status''))))"

section \<open>Reading the database\<close>

text \<open>Binding an integer to a statement: 64 bits\<close>

definition sql_int :: "int \<Rightarrow> int res" where
  "sql_int i =
     (if - 9223372036854775808 \<le> i \<and> i < 9223372036854775808 then Inr i else Inl OverflowError)"

definition opt_bind :: "int option \<Rightarrow> int option res" where
  "opt_bind x = (case x of None \<Rightarrow> Inr None | Some i \<Rightarrow> ebind (sql_int i) (\<lambda>j. Inr (Some j)))"

text \<open>\<open>WHERE timestamp >= ? ORDER BY timestamp ASC, id ASC LIMIT ?\<close>, a negative limit being none\<close>

definition event_rows :: "int option \<Rightarrow> int option \<Rightarrow> tables \<Rightarrow> event_row list" where
  "event_rows since limit t =
     (let sel = filter (\<lambda>e. case since of None \<Rightarrow> True | Some s \<Rightarrow> s \<le> ev_at e) (t_events t);
          sorted_rows = sort_key (\<lambda>e. ev_at e) (sort_key ev_id sel)
      in case limit of None \<Rightarrow> sorted_rows
         | Some l \<Rightarrow> if l < 0 then sorted_rows else take (nat l) sorted_rows)"

text \<open>What a generator yields up to its first exception\<close>

fun gen_of :: "'a res list \<Rightarrow> 'a res list" where
  "gen_of [] = []"
| "gen_of (Inl e # rs) = [Inl e]"
| "gen_of (Inr x # rs) = Inr x # gen_of rs"

definition iter_registry_events ::
    "world \<Rightarrow> tables \<Rightarrow> int option \<Rightarrow> int option \<Rightarrow> pystr \<Rightarrow> siem_event res list" where
  "iter_registry_events W t since limit registry_id =
     (case ebind (opt_bind since) (\<lambda>s. ebind (opt_bind limit) (\<lambda>l. Inr (event_rows s l t))) of
        Inl e \<Rightarrow> [Inl e]
      | Inr rows \<Rightarrow> gen_of (map (\<lambda>r. from_registry_row W registry_id (event_dict r)) rows))"

section \<open>Export\<close>

text \<open>The records \<open>export_events\<close> hands to the sink, and the export to a text or HTTP sink\<close>

definition export_gen :: "(pyfloat \<Rightarrow> pystr) \<Rightarrow> pystr \<Rightarrow> splunk_opts \<Rightarrow> siem_event res list \<Rightarrow> pydict res list" where
  "export_gen fr fmt opts events = gen_of (map (\<lambda>x. ebind x (\<lambda>e. format_event fr e fmt opts)) events)"

definition export_events ::
    "(pyfloat \<Rightarrow> pystr) \<Rightarrow> (pydict res list \<Rightarrow> 's \<Rightarrow> 't \<times> nat res) \<Rightarrow> ('s \<Rightarrow> 't) \<Rightarrow> siem_event res list \<Rightarrow> pystr
      \<Rightarrow> splunk_opts \<Rightarrow> 's \<Rightarrow> 't \<times> nat res" where
  "export_events fr send idle events fmt opts s =
     (if \<not> known_format fmt then (idle s, Inl (ValueError ''unknown SIEM format''))
      else send (export_gen fr fmt opts events) s)"

section \<open>Generators and rows\<close>

lemma gen_of_ok: "gen_of (map Inr xs) = map Inr xs"
  by (induction xs) auto

lemma gen_of_map: "(\<And>x. x \<in> set xs \<Longrightarrow> f x = Inr (g x)) \<Longrightarrow> gen_of (map f xs) = map Inr (map g xs)"
  by (induction xs) auto

lemma list_of_gen_ok [simp]: "list_of_gen (map Inr xs) = Inr xs"
  by (induction xs) auto

lemma list_of_gen_InrD: "list_of_gen rs = Inr xs \<Longrightarrow> rs = map Inr xs"
  by (induction rs arbitrary: xs rule: list_of_gen.induct) (auto simp: ebind_def split: sum.splits)

definition row_before :: "event_row \<Rightarrow> event_row \<Rightarrow> bool" where
  "row_before a b \<longleftrightarrow> ev_at a < ev_at b \<or> ev_at a = ev_at b \<and> ev_id a \<le> ev_id b"

lemma insort_row_before:
  "sorted_wrt row_before zs \<Longrightarrow> \<forall>z\<in>set zs. ev_id x \<le> ev_id z \<Longrightarrow> sorted_wrt row_before (insort_key ev_at x zs)"
  by (induction zs) (auto simp: row_before_def set_insort_key)

lemma sort_row_before:
  "sorted (map ev_id xs) \<Longrightarrow> sorted_wrt row_before (sort_key ev_at xs)"
  by (induction xs) (auto intro: insort_row_before)

lemma stable_two_keys: "sorted_wrt row_before (sort_key ev_at (sort_key ev_id xs))"
  by (rule sort_row_before) simp

lemma event_rows_all:
  "mset (event_rows since None t) = mset (filter (\<lambda>e. case since of None \<Rightarrow> True | Some s \<Rightarrow> s \<le> ev_at e) (t_events t))"
  "sorted_wrt row_before (event_rows since None t)"
  by (simp_all add: event_rows_def Let_def stable_two_keys)

lemma event_rows_limit:
  "event_rows since limit t =
     (case limit of None \<Rightarrow> event_rows since None t
      | Some l \<Rightarrow> if l < 0 then event_rows since None t else take (nat l) (event_rows since None t))"
  by (simp add: event_rows_def Let_def split: option.split)

section \<open>Records that are written and read back\<close>

lemma drop_empty_members [simp]:
  "distinct (map fst d) \<Longrightarrow> distinct (map fst (drop_empty d))"
  "list_all P d \<Longrightarrow> list_all P (drop_empty d)"
  by (auto simp: drop_empty_def list_all_iff distinct_map inj_on_def)

lemma json_okf_dict_or_none: "json_okf fr (PDict d) \<Longrightarrow> json_okf fr (dict_or_none d)"
  by (simp add: dict_or_none_def)

definition event_ok :: "(pyfloat \<Rightarrow> pystr) \<Rightarrow> siem_event \<Rightarrow> bool" where
  "event_ok fr e \<longleftrightarrow>
     json_okf fr (PDict (siem_to_dict e)) \<and> float_reads fr (Fin (of_int (se_occurred_unix e)))"

definition opts_ok :: "splunk_opts \<Rightarrow> bool" where
  "opts_ok opts \<longleftrightarrow>
     scalar_str (sp_source opts) \<and> scalar_str (sp_sourcetype opts)
     \<and> (case sp_index opts of Some i \<Rightarrow> scalar_str i | None \<Rightarrow> True)
     \<and> (case sp_host opts of Some h \<Rightarrow> scalar_str h | None \<Rightarrow> True)"

lemma scalar_str_append: "scalar_str (a @ b) \<longleftrightarrow> scalar_str a \<and> scalar_str b"
  by (simp add: scalar_str_def)

lemma action_scalar: "scalar_str k \<Longrightarrow> scalar_str (action_by_kind k)"
  by (simp add: action_by_kind_def scalar_str_append)

lemma event_ok_fields:
  assumes "event_ok fr e"
  shows "scalar_str (se_event_id e)" "scalar_str (se_event_kind e)" "scalar_str (se_occurred_at e)"
    "scalar_str (se_registry_id e)" "json_okf fr (se_token_id e)" "json_okf fr (se_file_id e)"
    "json_okf fr (se_recipient_id e)" "json_okf fr (se_issuer_id e)" "json_okf fr (se_source_ip e)"
    "json_okf fr (se_user_agent e)" "json_okf fr (se_qualified_timestamp e)" "json_okf fr (se_tlog_index e)"
    "json_okf fr (PDict (se_extra e))" "float_reads fr (Fin (of_int (se_occurred_unix e)))"
    "scalar_str (action_by_kind (se_event_kind e))"
  using assms by (simp_all add: event_ok_def siem_to_dict_def action_scalar)

lemma json_okf_hec: "event_ok fr e \<Longrightarrow> opts_ok opts \<Longrightarrow> json_okf fr (PDict (to_splunk_hec opts e))"
  using event_ok_fields [of fr e]
  by (cases "sp_index opts"; cases "sp_host opts"; cases "sp_index opts = Some []")
    (simp_all add: to_splunk_hec_def opts_ok_def SIEM_SCHEMA_def json_okf_dict_or_none)

lemma json_okf_ecs: "event_ok fr e \<Longrightarrow> json_okf fr (PDict (to_ecs e))"
  using event_ok_fields [of fr e]
  by (simp add: to_ecs_def SIEM_SCHEMA_def ECS_VERSION_def json_okf_dict_or_none)

lemma json_text_ascii: "json_okf fr v \<Longrightarrow> scalar_str (json_text fr v)"
  by (auto simp: scalar_str_def list_all_iff printable_def scalar_below dest: json_text_printable)

lemma json_okf_sentinel:
  assumes "event_ok fr e"
  shows "\<exists>d. to_sentinel fr e = Inr d \<and> json_okf fr (PDict d)"
proof -
  note f = event_ok_fields [OF assms]
  show ?thesis
    using f json_text_ascii [OF f(13)]
    by (simp add: to_sentinel_def SIEM_SCHEMA_def json_dumps_compact_ok)
qed

lemma format_event_ok:
  assumes "event_ok fr e" "opts_ok opts" "known_format fmt"
  shows "\<exists>d. format_event fr e fmt opts = Inr d \<and> json_okf fr (PDict d)"
  using assms json_okf_hec [OF assms(1,2)] json_okf_ecs [OF assms(1)] json_okf_sentinel [OF assms(1)]
  by (auto simp: format_event_def simp del: json_okf.simps(2))

section \<open>Writing to a text sink\<close>

lemma send_loop_ok:
  assumes "list_all (\<lambda>d. json_okf fr (PDict d)) ds"
  shows "send_loop fr n (map Inr ds) s =
    (s\<lparr>ts_buffer := ts_buffer s @ concat (map (\<lambda>d. json_text fr (PDict d) @ [10]) ds)\<rparr>, Inr (n + length ds))"
  using assms by (induction ds arbitrary: n s) (simp_all add: json_dumps_compact_ok del: json_okf.simps(2) json_text.simps)

lemma text_send_ok:
  assumes "list_all (\<lambda>d. json_okf fr (PDict d)) ds"
  shows "text_send fr (map Inr ds) s =
    (\<lparr>ts_flushed = ts_flushed s @ ts_buffer s @ concat (map (\<lambda>d. json_text fr (PDict d) @ [10]) ds), ts_buffer = []\<rparr>,
     Inr (length ds))"
  using send_loop_ok [OF assms, of 0 s] by (simp add: text_send_def sink_flush_def)

text \<open>
  The whole lines of a text sink, whatever happened: each send adds complete lines only, one for
  every record before the one that failed.
\<close>

lemma send_loop_prefix:
  "send_loop fr n rs s = (s', r) \<Longrightarrow>
     \<exists>ds. prefixed (map Inr ds) rs \<and> ts_flushed s' = ts_flushed s
       \<and> ts_buffer s' = ts_buffer s @ concat (map (\<lambda>d. json_text fr (PDict d) @ [10]) ds)
       \<and> (case r of Inr m \<Rightarrow> m = n + length ds \<and> rs = map Inr ds | Inl e \<Rightarrow> length ds < length rs)"
proof (induction fr n rs s rule: send_loop.induct)
  case (1 fr n s)
  then show ?case by (auto simp: prefixed_def intro!: exI [of _ "[]"])
next
  case (2 fr n e rs s)
  then show ?case by (auto simp: prefixed_def intro!: exI [of _ "[]"])
next
  case (3 fr n d rs s)
  show ?case
  proof (cases "json_dumps_compact fr (PDict d)")
    case (Inl e)
    then show ?thesis using 3 by (auto simp: prefixed_def intro!: exI [of _ "[]"])
  next
    case (Inr t)
    then have t: "t = json_text fr (PDict d)" by (auto simp: json_dumps_compact_def simp del: json_text.simps split: if_splits)
    obtain ds where "prefixed (map Inr ds) rs" "ts_flushed s' = ts_flushed s"
      "ts_buffer s' = ts_buffer s @ t @ [10] @ concat (map (\<lambda>d. json_text fr (PDict d) @ [10]) ds)"
      "case r of Inr m \<Rightarrow> m = n + 1 + length ds \<and> rs = map Inr ds | Inl e \<Rightarrow> length ds < length rs"
      using 3 Inr by auto
    then show ?thesis unfolding t
      by (intro exI [of _ "d # ds"]) (auto simp: prefixed_def simp del: json_text.simps split: sum.splits)
  qed
qed

section \<open>From rows to lines\<close>

definition opt_scalar :: "pystr option \<Rightarrow> bool" where
  "opt_scalar x = (case x of Some s \<Rightarrow> scalar_str s | None \<Rightarrow> True)"

text \<open>A row with text that encodes, a time in the years 1 to 9999 and, if its extra is JSON, one without surrogates\<close>

definition row_ok :: "(pyfloat \<Rightarrow> pystr) \<Rightarrow> event_row \<Rightarrow> bool" where
  "row_ok fr r \<longleftrightarrow>
     scalar_str (ev_token r) \<and> scalar_str (ev_kind r)
     \<and> list_all opt_scalar [ev_file r, ev_recipient r, ev_issuer r, ev_ip r, ev_agent r, ev_extra r, ev_stamp r]
     \<and> (case ev_extra r of None \<Rightarrow> True
        | Some s \<Rightarrow> (case json_loads s of Inr v \<Rightarrow> json_okf fr v | Inl _ \<Rightarrow> True))
     \<and> - epoch_offset \<le> ev_at r \<and> ev_at r \<le> 253402300799 \<and> float_reads fr (Fin (of_int (ev_at r)))"

lemma json_loads_error: "json_loads s = Inl e \<Longrightarrow> e = JSONDecodeError"
  by (auto simp: json_loads_def split: if_splits option.splits)

lemma opt_val_okf [simp]: "json_okf fr (opt_val x) \<longleftrightarrow> opt_scalar x"
  by (cases x) (simp_all add: opt_val_def opt_scalar_def)

lemma opt_num_okf [simp]: "json_okf fr (opt_num x)"
  by (cases x) (simp_all add: opt_num_def)

lemma scalar_str_digits [simp]: "scalar_str (nat_digits n)" "scalar_str (int_str i)"
proof -
  have "is_digit c \<Longrightarrow> is_scalar c" "is_scalar 45" for c by (auto simp: is_digit_def scalar_below)
  then show "scalar_str (nat_digits n)" "scalar_str (int_str i)"
    using nat_digits_digit by (auto simp: scalar_str_def list_all_iff int_str_def)
qed

lemma scalar_str_Nil: "scalar_str []"
  by (simp add: scalar_str_def)

lemma scalar_str_two: "n < 100 \<Longrightarrow> scalar_str (two n)"
  by (auto simp: two_def scalar_str_def intro!: scalar_below)

lemma iso8601_total:
  assumes "- epoch_offset \<le> ts" "ts \<le> 253402300799"
  shows "\<exists>s. iso8601 ts = Inr s \<and> scalar_str s"
proof -
  define s where "s = nat (ts + epoch_offset)"
  define t where "t = s mod 86400"
  obtain y m d where c: "civil (s div 86400) = (y, m, d)" by (metis prod_cases3)
  have "m < 100" "d < 100" using valid_date_small civil_correct [OF c] by blast+
  moreover have "t < 86400" by (simp add: t_def)
  then have "t div 3600 < 100" by (simp add: less_mult_imp_div_less)
  moreover have "x mod 60 < 100" for x :: nat by (rule order_less_trans [OF mod_less_divisor]) simp_all
  moreover have "scalar_str [45]" "scalar_str [58]" "scalar_str [84]" "scalar_str [90]"
    by (simp_all add: scalar_str_def scalar_below)
  ultimately have "scalar_str (nat_digits y @ [45] @ two m @ [45] @ two d @ [84] @ two (t div 3600) @ [58]
      @ two (t div 60 mod 60) @ [58] @ two (t mod 60) @ [90])"
    by (simp only: scalar_str_append scalar_str_digits scalar_str_two)
  then show ?thesis
    using assms unfolding iso8601_def s_def [symmetric] by (simp add: Let_def c t_def del: append.simps)
qed

lemma row_extra_ok:
  assumes "row_ok fr r"
  shows "\<exists>v. row_extra (py_or (opt_val (ev_extra r)) (PStr [])) = Inr v \<and> json_okf fr v"
proof (cases "ev_extra r")
  case (Some s)
  then show ?thesis
    using assms json_loads_error
    by (cases "s = []"; cases "json_loads s")
      (auto simp: row_ok_def row_extra_def py_or_def opt_val_def opt_scalar_def truthy_def py_json_loads_def)
qed (simp add: row_extra_def py_or_def opt_val_def truthy_def)

lemma row_event_ok:
  assumes "row_ok fr r" "scalar_str rid"
  shows "\<exists>e. from_registry_row W rid (event_dict r) = Inr e \<and> event_ok fr e"
proof -
  obtain v where v: "row_extra (py_or (opt_val (ev_extra r)) (PStr [])) = Inr v" "json_okf fr v"
    using row_extra_ok [OF assms(1)] by blast
  have t: "py_or (PInt (ev_at r)) (PInt 0) = PInt (ev_at r)" by (simp add: py_or_def truthy_def)
  obtain stamp where stamp: "(if ev_at r \<noteq> 0 then iso8601 (ev_at r) else Inr []) = Inr stamp" "scalar_str stamp"
    using iso8601_total [of "ev_at r"] assms(1)
    by (cases "ev_at r = 0") (auto simp: row_ok_def scalar_str_def)
  show ?thesis
    using assms v t stamp scalar_str_Nil
    by (auto simp: from_registry_row_def event_dict_def row_ok_def event_ok_def siem_to_dict_def py_str_def
        dgetd_def py_or_def split: pyval.split)
qed

lemma opt_bind_None [simp]: "opt_bind None = Inr None"
  by (simp add: opt_bind_def)

lemma iter_rows:
  assumes "opt_bind since = Inr since'" "\<And>r. r \<in> set (event_rows since' None t) \<Longrightarrow> from_registry_row W rid (event_dict r) = Inr (g r)"
  shows "iter_registry_events W t since None rid = map Inr (map g (event_rows since' None t))"
  using assms gen_of_map [of "event_rows since' None t" "\<lambda>r. from_registry_row W rid (event_dict r)" g]
  by (simp add: iter_registry_events_def)

lemma export_gen_ok:
  assumes "\<And>e. e \<in> set es \<Longrightarrow> format_event fr e fmt opts = Inr (h e)"
  shows "export_gen fr fmt opts (map Inr es) = map Inr (map h es)"
  using assms gen_of_map [of es "\<lambda>e. format_event fr e fmt opts" h] by (simp add: export_gen_def comp_def)

text \<open>
  C36: exporting a registry's events to a text sink, in any of the three formats, returns the number
  of events, adds one line for each event at or after \<open>since\<close> and nothing else, oldest first (by time,
  then by id), and each line reads back as exactly the record the format gives for that event's row.
\<close>

theorem export_each_event_once:
  assumes rows: "\<forall>r\<in>set (t_events t). row_ok fr r" and texts: "scalar_str rid" "opts_ok opts"
    and fmt: "known_format fmt" and since: "opt_bind since = Inr since'"
  shows "\<exists>rows ls.
    export_events fr (text_send fr) id (iter_registry_events W t since None rid) fmt opts s
      = (\<lparr>ts_flushed = ts_flushed s @ ts_buffer s @ concat (map (\<lambda>l. l @ [10]) ls), ts_buffer = []\<rparr>, Inr (length rows))
    \<and> mset rows = mset (filter (\<lambda>e. case since' of None \<Rightarrow> True | Some x \<Rightarrow> x \<le> ev_at e) (t_events t))
    \<and> sorted_wrt row_before rows
    \<and> list_all2 (\<lambda>l r. 10 \<notin> set l \<and> (\<exists>e d. from_registry_row W rid (event_dict r) = Inr e
        \<and> format_event fr e fmt opts = Inr d \<and> json_loads l = Inr (PDict d))) ls rows"
proof -
  let ?rows = "event_rows since' None t"
  have "set ?rows \<subseteq> set (t_events t)" using event_rows_all(1) [of since' t] by (metis filter_is_subset set_mset_mset)
  then have "\<forall>r\<in>set ?rows. \<exists>e. from_registry_row W rid (event_dict r) = Inr e \<and> event_ok fr e"
    using rows row_event_ok [OF _ texts(1)] by blast
  then obtain g where g: "\<And>r. r \<in> set ?rows \<Longrightarrow> from_registry_row W rid (event_dict r) = Inr (g r) \<and> event_ok fr (g r)"
    by metis
  have "\<forall>e\<in>set (map g ?rows). \<exists>d. format_event fr e fmt opts = Inr d \<and> json_okf fr (PDict d)"
    using g format_event_ok [OF _ texts(2) fmt] by fastforce
  then obtain h where h: "\<And>e. e \<in> set (map g ?rows) \<Longrightarrow> format_event fr e fmt opts = Inr (h e) \<and> json_okf fr (PDict (h e))"
    by metis
  define ls where "ls = map (\<lambda>r. json_text fr (PDict (h (g r)))) ?rows"
  have "iter_registry_events W t since None rid = map Inr (map g ?rows)"
    using iter_rows [OF since] g by blast
  moreover have "export_gen fr fmt opts (map Inr (map g ?rows)) = map Inr (map h (map g ?rows))"
    using export_gen_ok h by blast
  moreover have "list_all (\<lambda>d. json_okf fr (PDict d)) (map h (map g ?rows))"
    using h by (auto simp: list_all_iff simp del: json_okf.simps(2))
  ultimately have "export_events fr (text_send fr) id (iter_registry_events W t since None rid) fmt opts s
      = (\<lparr>ts_flushed = ts_flushed s @ ts_buffer s @ concat (map (\<lambda>l. l @ [10]) ls), ts_buffer = []\<rparr>, Inr (length ?rows))"
    using fmt text_send_ok [of fr "map h (map g ?rows)" s]
    by (simp add: export_events_def ls_def comp_def del: json_okf.simps(2) json_text.simps)
  moreover have "10 \<notin> set (json_text fr (PDict (h (g r)))) \<and> json_loads (json_text fr (PDict (h (g r)))) = Inr (PDict (h (g r)))"
    if "r \<in> set ?rows" for r
    using h [of "g r"] that json_text_printable [of fr "PDict (h (g r))" 10] json_loads_text [of fr "PDict (h (g r))" "[]"]
    by (auto simp: printable_def simp del: json_okf.simps(2) json_text.simps)
  then have "list_all2 (\<lambda>l r. 10 \<notin> set l \<and> (\<exists>e d. from_registry_row W rid (event_dict r) = Inr e
        \<and> format_event fr e fmt opts = Inr d \<and> json_loads l = Inr (PDict d))) ls ?rows"
    using g h by (auto simp: ls_def list_all2_map1 list_all2_same)
  ultimately show ?thesis using event_rows_all [of since' t] by blast
qed

definition sample_row :: "nat \<Rightarrow> int \<Rightarrow> event_row" where
  "sample_row i stamp =
     \<lparr>ev_id = i, ev_token = u ''tok'', ev_file = Some (u ''file''), ev_recipient = Some (u ''alice''),
      ev_issuer = None, ev_kind = u ''dns'', ev_ip = Some (u ''198.51.100.42''), ev_agent = None,
      ev_extra = Some (u ''{\"qtype\": \"A\"}''), ev_at = stamp, ev_stamp = None, ev_index = Some 7\<rparr>"

definition sample_tables :: tables where
  "sample_tables = empty_tables\<lparr>t_events := [sample_row 2 1735000000, sample_row 1 1700000000, sample_row 3 5]\<rparr>"

lemma sample_row_ok: "stamp \<in> {5, 1700000000, 1735000000} \<Longrightarrow> row_ok integral_repr (sample_row i stamp)"
proof -
  have "json_loads (u ''{\"qtype\": \"A\"}'') = Inr (PDict [(key ''qtype'', PStr (u ''A''))])"
    using json_loads_dumps [of "PDict [(key ''qtype'', PStr (u ''A''))]" "u ''{\"qtype\": \"A\"}''"]
    by (simp add: json_dumps_def json_dumps_sep_def quote_def key_def key_text_def u_def esc_ascii_def key_ok_def scalar_str_def scalar_below)
  then show "stamp \<in> {5, 1700000000, 1735000000} \<Longrightarrow> row_ok integral_repr (sample_row i stamp)"
    using float_reads_integral [of stamp]
    by (auto simp: row_ok_def sample_row_def opt_scalar_def epoch_offset_def)
qed

theorem export_each_event_once_witness:
  "\<exists>rows ls. export_events integral_repr (text_send integral_repr) id
      (iter_registry_events sample_world sample_tables (Some 1700000000) None (u ''reg'')) (u ''splunk'') splunk_defaults
      \<lparr>ts_flushed = u ''{}'' @ [10], ts_buffer = []\<rparr>
    = (\<lparr>ts_flushed = u ''{}'' @ [10] @ concat (map (\<lambda>l. l @ [10]) ls), ts_buffer = []\<rparr>, Inr 2)
    \<and> sorted_wrt row_before rows \<and> mset rows = {#sample_row 2 1735000000, sample_row 1 1700000000#}"
proof -
  have "\<forall>r\<in>set (t_events sample_tables). row_ok integral_repr r"
    using sample_row_ok by (simp add: sample_tables_def)
  then obtain rows ls where e: "export_events integral_repr (text_send integral_repr) id
      (iter_registry_events sample_world sample_tables (Some 1700000000) None (u ''reg'')) (u ''splunk'') splunk_defaults
      \<lparr>ts_flushed = u ''{}'' @ [10], ts_buffer = []\<rparr>
    = (\<lparr>ts_flushed = u ''{}'' @ [10] @ concat (map (\<lambda>l. l @ [10]) ls), ts_buffer = []\<rparr>, Inr (length rows))"
    and m: "mset rows = {#sample_row 2 1735000000, sample_row 1 1700000000#}" "sorted_wrt row_before rows"
    using export_each_event_once [of sample_tables integral_repr "u ''reg''" splunk_defaults "u ''splunk''"
        "Some 1700000000" "Some 1700000000" sample_world "\<lparr>ts_flushed = u ''{}'' @ [10], ts_buffer = []\<rparr>"]
    by (auto simp: opts_ok_def splunk_defaults_def known_format_def opt_bind_def sql_int_def sample_tables_def
        sample_row_def add_mset_commute)
  moreover have "length rows = 2" using m(1) by (metis size_mset size_single size_add_mset numeral_2_eq_2 size_empty)
  ultimately show ?thesis by auto
qed

section \<open>Failures\<close>

text \<open>
  A text sink whose generator or writer raises keeps exactly the complete lines of the records
  before the failing one, never a part of a line, and at least one record is missing.
\<close>

theorem text_send_failure:
  assumes "text_send fr rs s = (s', Inl e)"
  shows "\<exists>ds. prefixed (map Inr ds) rs \<and> length ds < length rs
    \<and> text_close s' = text_close s @ concat (map (\<lambda>d. json_text fr (PDict d) @ [10]) ds)"
proof -
  have "send_loop fr 0 rs s = (s', Inl e)"
    using assms by (auto simp: text_send_def split: prod.splits sum.splits)
  from send_loop_prefix [OF this] show ?thesis by (auto simp: text_close_def sink_flush_def)
qed

text \<open>
  The HTTP sink posts at most once, and only the whole batch: a generator that raises leads to
  no post; a returned count is the number of records, and was answered with a success status unless
  there was nothing to send.
\<close>

theorem http_send_all_or_nothing:
  assumes "http_send net rs s = (posts, r)"
  shows "posts = [] \<or> (\<exists>b. b \<noteq> [] \<and> rs = map Inr b \<and> posts = [\<lparr>hp_url = hs_url s, hp_headers = hs_headers s, hp_json = b\<rparr>])"
    and "r = Inr n \<Longrightarrow> n = length rs \<and> (rs = [] \<or> (\<exists>p status. posts = [p] \<and> net p = Inr status \<and> 200 \<le> status \<and> status < 300))"
proof -
  consider e where "list_of_gen rs = Inl e" | b where "rs = map Inr b" "list_of_gen rs = Inr b"
    using list_of_gen_InrD by (cases "list_of_gen rs") auto
  note c = this
  show "posts = [] \<or> (\<exists>b. b \<noteq> [] \<and> rs = map Inr b \<and> posts = [\<lparr>hp_url = hs_url s, hp_headers = hs_headers s, hp_json = b\<rparr>])"
    by (rule c) (use assms in \<open>auto simp: http_send_def Let_def split: if_splits\<close>)
  show "r = Inr n \<Longrightarrow> n = length rs \<and> (rs = [] \<or> (\<exists>p status. posts = [p] \<and> net p = Inr status \<and> 200 \<le> status \<and> status < 300))"
    by (rule c) (use assms in \<open>auto simp: http_send_def Let_def ebind_def split: if_splits sum.splits\<close>)
qed

end
