(* ===== verification/Formats.thy ===== *)
theory Formats
  imports Watermark "HOL-Library.AList"
begin

text \<open>
  The format adapters (\<open>src/oversight_core/formats/\<close>): text, DOCX, PDF and images. The libraries
  that read and write the formats (\<open>python-docx\<close>, \<open>pypdf\<close>, \<open>PIL\<close>, \<open>scipy\<close>) are records of the
  operations the adapters call; what is relied on of them is the hypothesis that a saved document
  reads back. Of the image adapter the model holds the mark sequence, the choice of the coefficients
  and the arithmetic on them, with exact numbers; the transform, the clipping to bytes and the
  perceptual hash are the libraries'.
\<close>

section \<open>Text\<close>

definition text_apply :: "ucd \<Rightarrow> pystr \<Rightarrow> bytes \<Rightarrow> string list \<Rightarrow> pystr res" where
  "text_apply U doc mark_id layers =
     ebind (if ''L3'' \<in> set layers then apply_l3_safe U doc mark_id (u ''full'') else Inr doc) (\<lambda>t.
       let t = (if ''L2'' \<in> set layers then embed_ws t mark_id else t)
       in if ''L1'' \<in> set layers then embed_zw t mark_id 40 else Inr t)"

record text_hits =
  L1_hits :: "pystr list"
  L2_hits :: "pystr list"
  L3_matches :: "(pystr \<times> rat \<times> rat) list"

fun l3_matches :: "ucd \<Rightarrow> pystr \<Rightarrow> bytes list \<Rightarrow> (pystr \<times> rat \<times> rat) list res" where
  "l3_matches U doc [] = Inr []"
| "l3_matches U doc (cm # cms) =
     ebind (verify_semantic U doc cm True) (\<lambda>r.
     ebind (l3_matches U doc cms) (\<lambda>rest.
       Inr ((if overall_match r then [(hex cm, synonyms_score r, punctuation_score r)] else []) @ rest)))"

definition text_recover :: "ucd \<Rightarrow> pystr \<Rightarrow> bytes list option \<Rightarrow> text_hits res" where
  "text_recover U doc candidates =
     ebind (case candidates of None \<Rightarrow> Inr [] | Some cms \<Rightarrow> l3_matches U doc cms) (\<lambda>l3.
       Inr \<lparr>L1_hits = map hex (extract_zw doc 8),
            L2_hits = (case extract_ws doc 8 of Some w \<Rightarrow> if w = [] then [] else [hex w] | None \<Rightarrow> []),
            L3_matches = l3\<rparr>)"

section \<open>DOCX\<close>

text \<open>
  \<open>python-docx\<close>: opening, the keywords of the core properties (\<open>None\<close> being the empty string, as
  the adapter reads them), setting them, the paragraphs' texts, saving
\<close>

record 'd docx_lib =
  docx_open :: "bytes \<Rightarrow> 'd res"
  docx_keywords :: "'d \<Rightarrow> pystr"
  docx_set_keywords :: "pystr \<Rightarrow> 'd \<Rightarrow> 'd res"
  docx_paragraphs :: "'d \<Rightarrow> pystr list"
  docx_save :: "'d \<Rightarrow> bytes"

definition given_text :: "pystr option \<Rightarrow> bool" where
  "given_text x \<longleftrightarrow> (case x of Some s \<Rightarrow> s \<noteq> [] | None \<Rightarrow> False)"

definition docx_tag :: "bytes \<Rightarrow> pystr option \<Rightarrow> pystr option \<Rightarrow> pystr" where
  "docx_tag mark_id issuer_id file_id =
     u ''oversight:'' @ hex mark_id
     @ (if given_text issuer_id then u '';issuer:'' @ the issuer_id else [])
     @ (if given_text file_id then u '';fid:'' @ the file_id else [])"

definition docx_embed :: "'d docx_lib \<Rightarrow> bytes \<Rightarrow> bytes \<Rightarrow> pystr option \<Rightarrow> pystr option \<Rightarrow> bytes res" where
  "docx_embed L docx_bytes mark_id issuer_id file_id =
     ebind (docx_open L docx_bytes) (\<lambda>doc.
       let existing = docx_keywords L doc; tag = docx_tag mark_id issuer_id file_id in
       ebind (if contains (u ''oversight:'') existing then Inr doc
              else docx_set_keywords L ((if existing = [] then [] else existing @ u '' '') @ tag) doc) (\<lambda>doc'.
       Inr (docx_save L doc')))"

record doc_marks =
  dm_mark_id :: "pystr option"
  dm_issuer_id :: "pystr option"
  dm_file_id :: "pystr option"

definition no_marks :: doc_marks where
  "no_marks = \<lparr>dm_mark_id = None, dm_issuer_id = None, dm_file_id = None\<rparr>"

fun docx_parts :: "pystr list \<Rightarrow> doc_marks \<Rightarrow> doc_marks res" where
  "docx_parts [] out = Inr out"
| "docx_parts (p # ps) out =
     (let part = strip p in
      if prefixed (u ''oversight:'') part then
        (case split_ws (strip (drop 10 part)) of
           [] \<Rightarrow> Inl (IndexError ''list index out of range'')
         | w # _ \<Rightarrow> docx_parts ps (out\<lparr>dm_mark_id := Some w\<rparr>))
      else if prefixed (u ''issuer:'') part then
        docx_parts ps (out\<lparr>dm_issuer_id := Some (strip (drop 7 part))\<rparr>)
      else if prefixed (u ''fid:'') part then
        docx_parts ps (out\<lparr>dm_file_id := Some (strip (drop 4 part))\<rparr>)
      else docx_parts ps out)"

definition docx_extract :: "'d docx_lib \<Rightarrow> bytes \<Rightarrow> doc_marks res" where
  "docx_extract L docx_bytes =
     ebind (docx_open L docx_bytes) (\<lambda>doc. docx_parts (split_on 59 (docx_keywords L doc)) no_marks)"

definition docx_text :: "'d docx_lib \<Rightarrow> bytes \<Rightarrow> pystr res" where
  "docx_text L docx_bytes = ebind (docx_open L docx_bytes) (\<lambda>doc. Inr (join [10] (docx_paragraphs L doc)))"

section \<open>PDF\<close>

text \<open>\<open>pypdf\<close>: a reader with its metadata and the text of each page, and a writer that clones the reader with metadata added\<close>

record 'd pdf_lib =
  pdf_reader :: "bytes \<Rightarrow> 'd res"
  pdf_metadata :: "'d \<Rightarrow> (pystr \<times> pystr) list"
  pdf_add_metadata :: "(pystr \<times> pystr) list \<Rightarrow> 'd \<Rightarrow> 'd res"
  pdf_pages :: "'d \<Rightarrow> pystr option res list"
  pdf_write :: "'d \<Rightarrow> bytes"

definition METADATA_KEY :: pystr where "METADATA_KEY = u ''/OversightMark''"

definition pdf_embed :: "'d pdf_lib \<Rightarrow> bytes \<Rightarrow> bytes \<Rightarrow> pystr option \<Rightarrow> pystr option \<Rightarrow> bytes res" where
  "pdf_embed L pdf_bytes mark_id issuer_id file_id =
     ebind (pdf_reader L pdf_bytes) (\<lambda>reader.
       let metadata = AList.update METADATA_KEY (hex mark_id) (pdf_metadata L reader);
           metadata = (if given_text issuer_id then AList.update (u ''/OversightIssuer'') (the issuer_id) metadata else metadata);
           metadata = (if given_text file_id then AList.update (u ''/OversightFileId'') (the file_id) metadata else metadata)
       in ebind (pdf_add_metadata L metadata reader) (\<lambda>writer. Inr (pdf_write L writer)))"

definition pdf_extract :: "'d pdf_lib \<Rightarrow> bytes \<Rightarrow> doc_marks res" where
  "pdf_extract L pdf_bytes =
     ebind (pdf_reader L pdf_bytes) (\<lambda>reader.
       let meta = map_of (pdf_metadata L reader)
       in Inr \<lparr>dm_mark_id = meta METADATA_KEY, dm_issuer_id = meta (u ''/OversightIssuer''),
               dm_file_id = meta (u ''/OversightFileId'')\<rparr>)"

text \<open>A page whose text cannot be extracted is skipped.\<close>

definition pdf_text :: "'d pdf_lib \<Rightarrow> bytes \<Rightarrow> pystr res" where
  "pdf_text L pdf_bytes =
     ebind (pdf_reader L pdf_bytes) (\<lambda>reader.
       Inr (join [10] (concat (map (\<lambda>p. case p of
          Inl e \<Rightarrow> [] | Inr None \<Rightarrow> [[]] | Inr (Some t) \<Rightarrow> [t]) (pdf_pages L reader)))))"

section \<open>Images\<close>

definition byte_signs :: "byte \<Rightarrow> int list" where
  "byte_signs x = map (\<lambda>k. if bit x k then 1 else - 1) [0..<8]"

text \<open>The loop of \<open>_mark_to_sequence\<close>: 256 signs per hash until \<open>n\<close> are there\<close>

function sequence_loop :: "bytes \<Rightarrow> nat \<Rightarrow> nat \<Rightarrow> int list" where
  "sequence_loop mark_id ctr n =
     (if n = 0 then []
      else take n (concat (map byte_signs (sha256 (mark_id @ be32 ctr)))) @ sequence_loop mark_id (ctr + 1) (n - 256))"
  by auto
termination by (relation "measure (\<lambda>(_, _, n). n)") auto

declare sequence_loop.simps [simp del]

definition mark_to_sequence :: "bytes \<Rightarrow> nat \<Rightarrow> int list" where
  "mark_to_sequence mark_id n = sequence_loop mark_id 0 n"

definition pick_midband_indices :: "nat \<Rightarrow> nat \<Rightarrow> nat \<Rightarrow> (nat \<times> nat) list" where
  "pick_midband_indices h w n =
     (let lo = min h w div 10; hi = 4 * min h w div 10
      in take n (concat (map (\<lambda>i. map (\<lambda>j. (i, j)) (filter (\<lambda>j. lo \<le> i + j \<and> i + j \<le> hi) [0..<w])) [0..<h])))"

type_synonym plane = "nat \<times> nat \<Rightarrow> rat"

text \<open>The coefficient loop of \<open>embed\<close> and the correlation of \<open>verify\<close>\<close>

fun embed_coeffs :: "rat \<Rightarrow> ((nat \<times> nat) \<times> int) list \<Rightarrow> plane \<Rightarrow> plane" where
  "embed_coeffs alpha [] D = D"
| "embed_coeffs alpha ((ij, b) # cs) D = embed_coeffs alpha cs (D(ij := D ij + alpha * \<bar>D ij\<bar> * of_int b))"

definition correlation :: "((nat \<times> nat) \<times> int) list \<Rightarrow> plane \<Rightarrow> rat" where
  "correlation cs D =
     sum_list (map (\<lambda>(ij, b). D ij * of_int b) cs) / (sum_list (map (\<lambda>(ij, b). \<bar>D ij\<bar>) cs) + 1 / 1000000000)"

text \<open>The imaging libraries: reading an image into the transform of its luma plane, and back into a PNG\<close>

record 'i image_lib =
  img_open :: "bytes \<Rightarrow> 'i res"
  img_shape :: "'i \<Rightarrow> nat \<times> nat"
  img_dct :: "'i \<Rightarrow> plane"
  img_png :: "plane \<Rightarrow> 'i \<Rightarrow> bytes"
  img_phash :: "bytes \<Rightarrow> pystr res"

definition image_coeffs :: "nat \<times> nat \<Rightarrow> bytes \<Rightarrow> nat \<Rightarrow> ((nat \<times> nat) \<times> int) list" where
  "image_coeffs shape mark_id n =
     (let coords = pick_midband_indices (fst shape) (snd shape) n
      in zip coords (mark_to_sequence mark_id (length coords)))"

definition image_embed :: "'i image_lib \<Rightarrow> bytes \<Rightarrow> bytes \<Rightarrow> rat \<Rightarrow> nat \<Rightarrow> bytes res" where
  "image_embed L image_bytes mark_id alpha n_coeffs =
     ebind (img_open L image_bytes) (\<lambda>img.
       Inr (img_png L (embed_coeffs alpha (image_coeffs (img_shape L img) mark_id n_coeffs) (img_dct L img)) img))"

definition image_verify :: "'i image_lib \<Rightarrow> bytes \<Rightarrow> bytes \<Rightarrow> rat \<Rightarrow> nat \<Rightarrow> (bool \<times> rat) res" where
  "image_verify L image_bytes candidate threshold n_coeffs =
     ebind (img_open L image_bytes) (\<lambda>img.
       let score = correlation (image_coeffs (img_shape L img) candidate n_coeffs) (img_dct L img)
       in Inr (threshold \<le> \<bar>score\<bar> \<and> 0 < score, score))"

section \<open>What the adapters guarantee\<close>

text \<open>A library keeps what is saved: keywords that fit (at most 255 characters) are stored, the paragraphs stay.\<close>

definition docx_lib_ok :: "'d docx_lib \<Rightarrow> bool" where
  "docx_lib_ok L \<longleftrightarrow>
     (\<forall>d k. docx_open L (docx_save L d) = Inr d
       \<and> (length k \<le> 255 \<longrightarrow> (\<exists>d'. docx_set_keywords L k d = Inr d' \<and> docx_keywords L d' = k
            \<and> docx_paragraphs L d' = docx_paragraphs L d)))"

definition plain_part :: "pystr \<Rightarrow> bool" where
  "plain_part s \<longleftrightarrow> s \<noteq> [] \<and> 59 \<notin> set s \<and> strip s = s"

definition part_ok :: "pystr option \<Rightarrow> bool" where
  "part_ok x \<longleftrightarrow> (case x of Some s \<Rightarrow> plain_part s | None \<Rightarrow> True)"

lemma strip_behind: "s \<noteq> [] \<Longrightarrow> strip s = s \<Longrightarrow> p \<noteq> [] \<Longrightarrow> \<not> is_space (hd p) \<Longrightarrow> strip (p @ s) = p @ s"
proof -
  assume s: "s \<noteq> []" "strip s = s" and p: "p \<noteq> []" "\<not> is_space (hd p)"
  have idem: "dropWhile is_space (dropWhile is_space x) = dropWhile is_space x" for x by (induction x) auto
  then have "rstrip s = s" using arg_cong [OF s(2), of rstrip] s(2) by (simp add: strip_def rstrip_def)
  then have "rstrip (p @ s) = p @ s" using s(1) by (simp add: rstrip_id_iff)
  then show ?thesis using p by (cases p) (simp_all add: strip_def lstrip_def)
qed


lemma hex_chars: "c \<in> set (hex x) \<Longrightarrow> is_digit c \<or> 97 \<le> c \<and> c \<le> 102"
proof -
  have d: "n < 16 \<Longrightarrow> is_digit (hex_digit n) \<or> 97 \<le> hex_digit n \<and> hex_digit n \<le> 102" for n
    by (auto simp: hex_digit_def is_digit_def)
  have "c \<in> set (byte_hex b) \<Longrightarrow> is_digit c \<or> 97 \<le> c \<and> c \<le> 102" for b
  proof -
    have "unat b div 16 < 16" using byte_bound [of b] by (simp add: less_mult_imp_div_less)
    then show "c \<in> set (byte_hex b) \<Longrightarrow> is_digit c \<or> 97 \<le> c \<and> c \<le> 102"
      using d [of "unat b div 16"] d [of "unat b mod 16"] by (auto simp: byte_hex_def)
  qed
  then show "c \<in> set (hex x) \<Longrightarrow> is_digit c \<or> 97 \<le> c \<and> c \<le> 102" by (auto simp: hex_def)
qed

lemma hex_plain: "59 \<notin> set (hex x)" "\<forall>c\<in>set (hex x). \<not> is_space c"
  by (auto dest!: hex_chars simp: is_digit_def is_space_def)

lemma strip_no_space: "\<forall>c\<in>set s. \<not> is_space c \<Longrightarrow> strip s = s"
proof -
  have d: "\<forall>c\<in>set x. \<not> is_space c \<Longrightarrow> dropWhile is_space x = x" for x by (cases x) auto
  show "\<forall>c\<in>set s. \<not> is_space c \<Longrightarrow> strip s = s"
    using d [of s] d [of "rev s"] by (simp add: strip_def lstrip_def rstrip_def)
qed

lemma split_ws_word: "\<forall>c\<in>set s. \<not> is_space c \<Longrightarrow> s \<noteq> [] \<Longrightarrow> split_ws s = [s]"
proof -
  assume s: "\<forall>c\<in>set s. \<not> is_space c" "s \<noteq> []"
  have "dropWhile is_space s = s" using s by (cases s) auto
  moreover have "takeWhile (\<lambda>c. \<not> is_space c) s = s" "dropWhile (\<lambda>c. \<not> is_space c) s = []" using s(1) by simp_all
  ultimately show ?thesis using s(2) split_ws.simps [of "[]"] split_ws.simps [of s] by (simp only: Let_def dropWhile.simps) simp
qed

lemma docx_parts_tag:
  assumes "mark \<noteq> []" "part_ok issuer" "part_ok fid"
  shows "docx_parts (split_on 59 (docx_tag mark issuer fid)) no_marks
      = Inr \<lparr>dm_mark_id = Some (hex mark), dm_issuer_id = issuer, dm_file_id = fid\<rparr>"
proof -
  let ?m = "u ''oversight:'' @ hex mark"
  let ?o = "\<lambda>p x. case x of Some s \<Rightarrow> [u p @ s] | None \<Rightarrow> []"
  have ne: "hex mark \<noteq> []" using assms(1) length_hex [of mark] by (metis length_0_conv mult_is_0 numeral_eq_Suc old.nat.distinct(1))
  have "59 \<notin> set ?m" using hex_plain(1) by (simp add: u_def)
  moreover have "59 \<notin> set (u ''issuer:'' @ s)" "59 \<notin> set (u ''fid:'' @ s)" if "plain_part s" for s
    using that by (simp_all add: plain_part_def u_def)
  ultimately have split: "split_on 59 (docx_tag mark issuer fid) = ?m # ?o ''issuer:'' issuer @ ?o ''fid:'' fid"
    using assms(2,3) split_on_append [of 59 ?m] split_on_single [of 59 ?m] split_on_append [of 59] split_on_single [of 59]
    by (auto simp: docx_tag_def given_text_def part_ok_def plain_part_def u_def split: option.splits)
  have m: "docx_parts (?m # ps) out = docx_parts ps (out\<lparr>dm_mark_id := Some (hex mark)\<rparr>)" for ps out
    using strip_behind [of "hex mark" "u ''oversight:''"] strip_no_space [OF hex_plain(2)] split_ws_word [OF hex_plain(2)] ne
    by (simp add: Let_def u_def is_space_def prefixed_def)
  have i: "docx_parts ((u ''issuer:'' @ s) # ps) out = docx_parts ps (out\<lparr>dm_issuer_id := Some s\<rparr>)"
    and f: "docx_parts ((u ''fid:'' @ s) # ps) out = docx_parts ps (out\<lparr>dm_file_id := Some s\<rparr>)" if "plain_part s" for s ps out
    using that strip_behind [of s "u ''issuer:''"] strip_behind [of s "u ''fid:''"]
    by (simp_all add: plain_part_def Let_def u_def is_space_def prefixed_def)
  show ?thesis unfolding split using assms(2,3)
    by (auto simp: m i f part_ok_def no_marks_def simp del: docx_parts.simps(2) split: option.splits)
qed

text \<open>
  DOCX marks. A mark put into a document without keywords, with an issuer and a file name that are
  plain texts, is what the adapter reads out of the saved document, together with issuer and file, and
  the text of the document has not changed.
\<close>

theorem docx_roundtrip:
  assumes lib: "docx_lib_ok L" and doc: "docx_open L x = Inr d" "docx_keywords L d = []"
    and parts: "mark \<noteq> []" "part_ok issuer" "part_ok fid" "length (docx_tag mark issuer fid) \<le> 255"
  shows "\<exists>y. docx_embed L x mark issuer fid = Inr y
    \<and> docx_extract L y = Inr \<lparr>dm_mark_id = Some (hex mark), dm_issuer_id = issuer, dm_file_id = fid\<rparr>
    \<and> docx_text L y = docx_text L x"
proof -
  obtain d' where d': "docx_set_keywords L (docx_tag mark issuer fid) d = Inr d'"
    "docx_keywords L d' = docx_tag mark issuer fid" "docx_paragraphs L d' = docx_paragraphs L d"
    using lib parts(4) by (auto simp: docx_lib_ok_def)
  have "\<not> contains (u ''oversight:'') []" by (simp add: contains_iff)
  then have e: "docx_embed L x mark issuer fid = Inr (docx_save L d')"
    using doc d'(1) by (simp add: docx_embed_def)
  have o: "docx_open L (docx_save L d') = Inr d'" using lib by (simp add: docx_lib_ok_def)
  have "docx_parts (split_on 59 (docx_tag mark issuer fid)) no_marks
      = Inr \<lparr>dm_mark_id = Some (hex mark), dm_issuer_id = issuer, dm_file_id = fid\<rparr>"
    using docx_parts_tag [OF parts(1-3)] .
  then show ?thesis using e o d' doc(1) by (simp add: docx_extract_def docx_text_def)
qed


text \<open>A library whose documents are their keywords, saved in unary\<close>

fun toy_read :: "nat \<Rightarrow> bytes \<Rightarrow> pystr" where
  "toy_read n [] = []"
| "toy_read n (b # bs) = (if b = 0 then n # toy_read 0 bs else toy_read (Suc n) bs)"

definition toy_docx :: "pystr docx_lib" where
  "toy_docx = \<lparr>docx_open = (\<lambda>x. Inr (toy_read 0 x)), docx_keywords = id, docx_set_keywords = (\<lambda>k d. Inr k),
     docx_paragraphs = (\<lambda>d. [u ''body'']), docx_save = (\<lambda>d. concat (map (\<lambda>c. replicate c 1 @ [0]) d))\<rparr>"

lemma toy_read_unary: "toy_read n (replicate c 1 @ 0 # bs) = (n + c) # toy_read 0 bs"
  by (induction c arbitrary: n) auto

lemma toy_docx_ok: "docx_lib_ok toy_docx"
proof -
  have "toy_read 0 (concat (map (\<lambda>c. replicate c 1 @ [0]) d)) = d" for d
    by (induction d) (simp_all add: toy_read_unary)
  then show ?thesis by (simp add: docx_lib_ok_def toy_docx_def)
qed

theorem docx_roundtrip_witness:
  "\<exists>y. docx_embed toy_docx [] [0x5A, 1] (Some (u ''acme'')) None = Inr y
    \<and> docx_extract toy_docx y = Inr \<lparr>dm_mark_id = Some (hex [0x5A, 1]), dm_issuer_id = Some (u ''acme''), dm_file_id = None\<rparr>"
  using docx_roundtrip [OF toy_docx_ok, of "[]" "[]" "[0x5A, 1]" "Some (u ''acme'')" None]
  by (auto simp: toy_docx_def part_ok_def plain_part_def u_def strip_def lstrip_def rstrip_def is_space_def docx_tag_def given_text_def)

text \<open>
  A document whose keywords are words and hold no semicolon keeps them in front of the tag, where the
  reader, which wants the tag at the start of a part, does not find it: the mark is lost.
\<close>

lemma prefixed_word: "prefixed p (a @ c # z) \<Longrightarrow> c \<notin> set p \<Longrightarrow> contains p a"
  by (auto simp: prefixed_iff contains_iff append_eq_append_conv2 Cons_eq_append_conv) (metis append_Nil append_Nil2)+

theorem docx_keywords_hide_mark:
  assumes lib: "docx_lib_ok L" and doc: "docx_open L x = Inr d" "docx_keywords L d = c # k"
    and words: "59 \<notin> set (c # k)" "\<not> is_space c" "\<not> contains (u ''oversight:'') (c # k)"
    and len: "length (c # k @ u '' oversight:'' @ hex mark) \<le> 255" and mark: "mark \<noteq> []"
  shows "\<exists>y m. docx_embed L x mark None None = Inr y \<and> docx_extract L y = Inr m \<and> dm_mark_id m = None"
proof -
  let ?k = "c # k @ u '' oversight:'' @ hex mark"
  obtain d' where d': "docx_set_keywords L ?k d = Inr d'" "docx_keywords L d' = ?k"
    using lib len unfolding docx_lib_ok_def by blast
  have "(c # k) @ u '' '' @ docx_tag mark None None = ?k" by (simp add: docx_tag_def given_text_def u_def)
  then have e: "docx_embed L x mark None None = Inr (docx_save L d')"
    using doc words(3) d'(1) by (simp add: docx_embed_def)
  have o: "docx_open L (docx_save L d') = Inr d'" using lib by (simp add: docx_lib_ok_def)
  have ne: "hex mark \<noteq> []" using mark by (cases mark) (simp_all add: hex_def byte_hex_def)
  have "strip ((c # k @ u '' oversight:'') @ hex mark) = (c # k @ u '' oversight:'') @ hex mark"
    by (rule strip_behind) (use ne words(2) strip_no_space hex_plain(2) in auto)
  then have strip: "strip ?k = ?k" by simp
  have "59 \<notin> set ?k" using words(1) hex_plain(1) by (simp add: u_def)
  then have split: "split_on 59 ?k = [?k]" by (rule split_on_single)
  have "\<not> prefixed (u ''oversight:'') ?k"
  proof
    assume "prefixed (u ''oversight:'') ?k"
    then have "prefixed (u ''oversight:'') ((c # k) @ 32 # u ''oversight:'' @ hex mark)" by (simp add: u_def)
    then have "contains (u ''oversight:'') (c # k)" by (rule prefixed_word) (simp add: u_def)
    then show False using words(3) by simp
  qed
  then have "\<exists>m. docx_parts [?k] no_marks = Inr m \<and> dm_mark_id m = None"
    using strip by (simp add: Let_def no_marks_def)
  then show ?thesis using e o d'(2) split by (auto simp: docx_extract_def)
qed

section \<open>PDF marks\<close>

definition pdf_lib_ok :: "'d pdf_lib \<Rightarrow> bool" where
  "pdf_lib_ok L \<longleftrightarrow>
     (\<forall>d m. pdf_reader L (pdf_write L d) = Inr d
       \<and> (\<exists>d'. pdf_add_metadata L m d = Inr d' \<and> map_of (pdf_metadata L d') = map_of (pdf_metadata L d) ++ map_of m
            \<and> pdf_pages L d' = pdf_pages L d))"

text \<open>
  A mark put into a PDF is what is read back, whatever metadata there was, an issuer or file that
  is not given keeps what the metadata had, and the text of the pages has not changed.
\<close>

lemma pdf_roundtrip:
  assumes "pdf_lib_ok L" "pdf_reader L x = Inr d"
  shows "\<exists>y m. pdf_embed L x mark issuer fid = Inr y \<and> pdf_extract L y = Inr m \<and> pdf_text L y = pdf_text L x
    \<and> dm_mark_id m = Some (hex mark)
    \<and> dm_issuer_id m = (if given_text issuer then issuer else map_of (pdf_metadata L d) (u ''/OversightIssuer''))
    \<and> dm_file_id m = (if given_text fid then fid else map_of (pdf_metadata L d) (u ''/OversightFileId''))"
proof -
  define md where "md = (let metadata = AList.update METADATA_KEY (hex mark) (pdf_metadata L d);
           metadata = (if given_text issuer then AList.update (u ''/OversightIssuer'') (the issuer) metadata else metadata)
       in if given_text fid then AList.update (u ''/OversightFileId'') (the fid) metadata else metadata)"
  obtain d' where d': "pdf_add_metadata L md d = Inr d'"
    "map_of (pdf_metadata L d') = map_of (pdf_metadata L d) ++ map_of md" "pdf_pages L d' = pdf_pages L d"
    using assms(1) unfolding pdf_lib_ok_def by metis
  have e: "pdf_embed L x mark issuer fid = Inr (pdf_write L d')"
    using assms(2) d'(1) by (simp add: pdf_embed_def md_def Let_def)
  have r: "pdf_reader L (pdf_write L d') = Inr d'" using assms(1) by (simp add: pdf_lib_ok_def)
  have m: "map_of md = (map_of (pdf_metadata L d)) (METADATA_KEY \<mapsto> hex mark) ++
      (if given_text issuer then [u ''/OversightIssuer'' \<mapsto> the issuer] else Map.empty) ++
      (if given_text fid then [u ''/OversightFileId'' \<mapsto> the fid] else Map.empty)"
    by (simp add: md_def Let_def update_conv' map_add_upds)
  have g: "given_text i \<Longrightarrow> Some (the i) = i" "\<not> given_text None" for i by (auto simp: given_text_def split: option.splits)
  show ?thesis
    using e r g by (simp add: pdf_extract_def pdf_text_def assms(2) d'(2,3) m METADATA_KEY_def map_add_def split: option.split)
qed

section \<open>Image marks\<close>

lemma length_sequence_loop: "length (sequence_loop mark ctr n) = n"
proof (induction mark ctr n rule: sequence_loop.induct)
  case (1 mark ctr n)
  have "length (concat (map byte_signs (sha256 y))) = 256" for y
    by (simp add: length_concat byte_signs_def comp_def sum_list_triv)
  then show ?case using 1 by (subst sequence_loop.simps) (auto simp: min_def)
qed

lemma sequence_signs: "b \<in> set (sequence_loop mark ctr n) \<Longrightarrow> b = 1 \<or> b = - 1"
proof (induction mark ctr n rule: sequence_loop.induct)
  case (1 mark ctr n)
  then show ?case
    by (subst (asm) sequence_loop.simps) (auto simp: byte_signs_def dest!: in_set_takeD split: if_splits)
qed

lemma distinct_midband: "distinct (pick_midband_indices h w n)"
proof -
  have "distinct (concat (map (\<lambda>i. map (\<lambda>j. (i, j)) (filter (P i) [0..<w])) [0..<k]))" for P k
    by (induction k) (auto simp: distinct_map inj_on_def)
  then show ?thesis by (simp add: pick_midband_indices_def Let_def)
qed

lemma embed_coeffs_at:
  "distinct (map fst cs) \<Longrightarrow> embed_coeffs alpha cs D ij
     = (case map_of cs ij of Some b \<Rightarrow> D ij + alpha * \<bar>D ij\<bar> * of_int b | None \<Rightarrow> D ij)"
proof (induction alpha cs D rule: embed_coeffs.induct)
  case (2 alpha kl b cs D)
  let ?D = "D(kl := D kl + alpha * \<bar>D kl\<bar> * of_int b)"
  have n: "map_of cs kl = None" using 2(2) by (auto simp: map_of_eq_None_iff)
  have "embed_coeffs alpha ((kl, b) # cs) D ij
      = (case map_of cs ij of Some b' \<Rightarrow> ?D ij + alpha * \<bar>?D ij\<bar> * of_int b' | None \<Rightarrow> ?D ij)"
    using 2 by (simp del: fun_upd_apply)
  then show ?case using n by (cases "ij = kl") (simp_all split: option.split)
qed simp

lemma scaled_abs:
  assumes "0 \<le> a" "a \<le> (1 :: rat)"
  shows "\<bar>x + a * \<bar>x\<bar>\<bar> = \<bar>x\<bar> + a * x" "\<bar>x - a * \<bar>x\<bar>\<bar> = \<bar>x\<bar> - a * x"
proof -
  have le: "a * \<bar>x\<bar> \<le> \<bar>x\<bar>" "0 \<le> a * \<bar>x\<bar>" using assms mult_right_mono [of a 1 "\<bar>x\<bar>"] by simp_all
  show "\<bar>x + a * \<bar>x\<bar>\<bar> = \<bar>x\<bar> + a * x" "\<bar>x - a * \<bar>x\<bar>\<bar> = \<bar>x\<bar> - a * x"
    using le by (cases "0 \<le> x"; simp add: abs_if split: if_splits)+
qed

text \<open>
  The strength of an image mark. Let \<open>S\<close> be the correlation sum of the coefficients with the mark's
  signs and \<open>A\<close> the sum of their magnitudes. Behind the embedding with strength \<open>alpha\<close> the verifier's
  score is \<open>(S + alpha A) / (A + alpha S)\<close> up to its guard against zero: the two add like velocities, so
  an unmarked plane (\<open>S = 0\<close>) scores \<open>alpha\<close>.
\<close>

theorem image_mark_score:
  assumes "0 \<le> alpha" "alpha \<le> 1"
  shows "let cs = image_coeffs shape mark n;
      S = sum_list (map (\<lambda>(ij, b). D ij * of_int b) cs); A = sum_list (map (\<lambda>(ij, b). \<bar>D ij\<bar>) cs)
    in correlation cs (embed_coeffs alpha cs D) = (S + alpha * A) / (A + alpha * S + 1 / 1000000000)"
proof -
  define cs where "cs = image_coeffs shape mark n"
  let ?E = "embed_coeffs alpha cs D"
  have dist: "distinct (map fst cs)"
    by (simp add: cs_def image_coeffs_def Let_def mark_to_sequence_def length_sequence_loop map_fst_zip distinct_midband)
  have E: "?E ij * of_int b = D ij * of_int b + alpha * \<bar>D ij\<bar>" "\<bar>?E ij\<bar> = \<bar>D ij\<bar> + alpha * (D ij * of_int b)"
    if "(ij, b) \<in> set cs" for ij b
  proof -
    have "b = 1 \<or> b = - 1"
      using that sequence_signs by (fastforce simp: cs_def image_coeffs_def Let_def mark_to_sequence_def dest: set_zip_rightD)
    moreover have "?E ij = D ij + alpha * \<bar>D ij\<bar> * of_int b"
      using embed_coeffs_at [OF dist, of alpha D ij] map_of_is_SomeI [OF dist that] by simp
    ultimately show "?E ij * of_int b = D ij * of_int b + alpha * \<bar>D ij\<bar>" "\<bar>?E ij\<bar> = \<bar>D ij\<bar> + alpha * (D ij * of_int b)"
      using scaled_abs [OF assms, of "D ij"] by auto
  qed
  have 1: "map (\<lambda>(ij, b). ?E ij * of_int b) cs = map (\<lambda>x. (case x of (ij, b) \<Rightarrow> D ij * of_int b) + (case x of (ij, b) \<Rightarrow> alpha * \<bar>D ij\<bar>)) cs"
    and 2: "map (\<lambda>(ij, b). \<bar>?E ij\<bar>) cs = map (\<lambda>x. (case x of (ij, b) \<Rightarrow> \<bar>D ij\<bar>) + (case x of (ij, b) \<Rightarrow> alpha * (D ij * of_int b))) cs"
    using E by (auto simp: map_eq_conv)
  have m: "sum_list (map (\<lambda>(ij, b). alpha * f ij b) cs) = alpha * sum_list (map (\<lambda>(ij, b). f ij b) cs)" for f :: "nat \<times> nat \<Rightarrow> int \<Rightarrow> rat"
    using sum_list_const_mult [of alpha "\<lambda>(ij, b). f ij b" cs] by (simp add: case_prod_unfold)
  show ?thesis
    unfolding Let_def cs_def [symmetric] correlation_def 1 2 sum_list_addf m ..
qed

theorem image_mark_score_witness:
  "let cs = image_coeffs (8, 8) [0x5A] 2 in correlation cs (embed_coeffs (1 / 10) cs (\<lambda>_. 0)) = 0"
  using image_mark_score [of "1 / 10" "(8, 8)" "[0x5A]" 2 "\<lambda>_. 0"] by (simp add: Let_def case_prod_unfold)

end
