(* ===== verification/Match.thy ===== *)
theory Match
  imports Feed Formats
begin

text \<open>
  The job that checks scraped content against a registry
  (\<open>src/integrations/flywheel_oversight_match.py\<close>): its client of the registry with the cache of
  candidates, the extractors per kind of content, and the handler with its removal of duplicates.
  Posts and gets are functions of the URL and the arguments (the two endpoints only read), the clock
  is given per piece of content. A job has the fields of the module's description, with their types.
  A key \<open>(layer, file_id)\<close> is compared as text, integer or \<open>None\<close>; the other hashable values of a
  reply (floats) are refused like the unhashable ones.

  What the job relies on of a registry is the interface \<open>attribution_service\<close>, which the registry's
  endpoints are shown to provide.
\<close>

section \<open>The client\<close>

record match_net =
  mn_post :: "pystr \<Rightarrow> pydict \<Rightarrow> reply"
  mn_get :: http

record match_client =
  mc_url :: pystr
  mc_cached :: pyval
  mc_fetched_at :: int

definition client_init :: "pystr \<Rightarrow> match_client" where
  "client_init url = \<lparr>mc_url = rstrip_chars (u ''/'') url, mc_cached = PList [], mc_fetched_at = 0\<rparr>"

definition client_attribute :: "match_net \<Rightarrow> match_client \<Rightarrow> pydict \<Rightarrow> pyval res" where
  "client_attribute net c args = raise_for_status (mn_post net (mc_url c @ u ''/attribute'') args)"

definition fetch_semantic_candidates ::
    "match_net \<Rightarrow> int \<Rightarrow> int \<Rightarrow> match_client \<Rightarrow> match_client \<times> pyval res" where
  "fetch_semantic_candidates net now cache_ttl c =
     (if truthy (mc_cached c) \<and> now - mc_fetched_at c < cache_ttl then (c, Inr (mc_cached c))
      else
        (case ebind (raise_for_status (mn_get net (mc_url c @ u ''/candidates/semantic'') [(''limit'', PInt 5000)]))
                (\<lambda>data. py_item data ''candidates'') of
           Inl e \<Rightarrow> (c, Inl e)
         | Inr cands \<Rightarrow> (c\<lparr>mc_cached := cands, mc_fetched_at := now\<rparr>, Inr cands)))"

section \<open>Text\<close>

text \<open>\<open>{**base, **d}\<close>\<close>

definition dict_merge :: "pydict \<Rightarrow> pydict \<Rightarrow> pydict" where
  "dict_merge base d = fold (\<lambda>(k, v) acc. AList.update k v acc) d base"

definition match_of :: "pydict \<Rightarrow> pyval \<Rightarrow> pydict list res" where
  "match_of base r =
     (case r of
        PDict d \<Rightarrow> Inr (if truthy (dgetn d ''found'') then [dict_merge base d] else [])
      | _ \<Rightarrow> Inl (AttributeError ''get''))"

definition hit_base :: "string \<Rightarrow> rat \<Rightarrow> pydict" where
  "hit_base layer score = [(key ''layer'', str_val layer), (key ''score'', PFloat (Fin score))]"

definition lookup_mark :: "match_net \<Rightarrow> match_client \<Rightarrow> pyval \<Rightarrow> string \<Rightarrow> pydict \<Rightarrow> pydict list res" where
  "lookup_mark net c mark_id layer base =
     ebind (client_attribute net c [(key ''mark_id'', mark_id), (key ''layer'', str_val layer)]) (match_of base)"

definition check_candidate :: "ucd \<Rightarrow> match_net \<Rightarrow> match_client \<Rightarrow> pystr \<Rightarrow> pyval \<Rightarrow> pydict list res" where
  "check_candidate U net c doc cand =
     ebind (py_item cand ''mark_id'') (\<lambda>m.
     ebind (py_fromhex m) (\<lambda>mark_bytes.
     ebind (verify_semantic U doc mark_bytes True) (\<lambda>v.
       if overall_match v then
         lookup_mark net c m ''L3_semantic''
           (hit_base ''L3_semantic'' (synonyms_score v) @ [(key ''punct_score'', PFloat (Fin (punctuation_score v)))])
       else Inr [])))"

definition check_text :: "ucd \<Rightarrow> match_net \<Rightarrow> int \<Rightarrow> pystr \<Rightarrow> match_client \<Rightarrow> match_client \<times> pydict list res" where
  "check_text U net now doc c =
     (let direct =
        ebind (mapM_res (\<lambda>m. lookup_mark net c (PStr (hex m)) ''L1_zero_width'' (hit_base ''L1_zero_width'' 1))
                 (extract_zw doc 8)) (\<lambda>l1.
        ebind (case extract_ws doc 8 of
                 None \<Rightarrow> Inr []
               | Some w \<Rightarrow>
                   if w = [] then Inr []
                   else lookup_mark net c (PStr (hex w)) ''L2_whitespace'' (hit_base ''L2_whitespace'' 1)) (\<lambda>l2.
          Inr (concat l1 @ l2)))
      in case direct of
           Inl e \<Rightarrow> (c, Inl e)
         | Inr hits \<Rightarrow>
             (case fetch_semantic_candidates net now 3600 c of
                (c1, Inl e) \<Rightarrow> (c1, Inl e)
              | (c1, Inr cands) \<Rightarrow>
                  (c1, ebind (py_iter cands) (\<lambda>cs.
                       ebind (mapM_res (check_candidate U net c1 doc) cs) (\<lambda>l3. Inr (hits @ concat l3))))))"

section \<open>Images and documents\<close>

definition check_image :: "match_net \<Rightarrow> 'i image_lib \<Rightarrow> bytes \<Rightarrow> match_client \<Rightarrow> pydict list" where
  "check_image net L image_bytes c =
     (case ebind (img_phash L image_bytes) (\<lambda>phash.
           ebind (client_attribute net c [(key ''perceptual_hash'', PStr phash)])
             (match_of [(key ''layer'', str_val ''perceptual_hash''), (key ''hash'', PStr phash),
                        (key ''score'', PFloat (Fin 1))])) of
        Inl e \<Rightarrow> []
      | Inr ms \<Rightarrow> ms)"

text \<open>The shared shape of \<open>_check_pdf\<close> and \<open>_check_docx\<close>: the embedded mark, then the body as text, whose failures are dropped\<close>

definition check_document ::
    "ucd \<Rightarrow> match_net \<Rightarrow> int \<Rightarrow> string \<Rightarrow> doc_marks res \<Rightarrow> pystr res \<Rightarrow> match_client \<Rightarrow> match_client \<times> pydict list res" where
  "check_document U net now layer ext body c =
     (case ebind ext (\<lambda>marks.
             case dm_mark_id marks of
               None \<Rightarrow> Inr []
             | Some m \<Rightarrow>
                 if m = [] then Inr []
                 else ebind (client_attribute net c [(key ''mark_id'', PStr m)]) (match_of (hit_base layer 1))) of
        Inl e \<Rightarrow> (c, Inl e)
      | Inr hits \<Rightarrow>
          (case body of
             Inl e \<Rightarrow> (c, Inr hits)
           | Inr doc \<Rightarrow>
               (case check_text U net now doc c of
                  (c1, Inl e) \<Rightarrow> (c1, Inr hits)
                | (c1, Inr ms) \<Rightarrow> (c1, Inr (hits @ ms)))))"

definition check_pdf :: "ucd \<Rightarrow> match_net \<Rightarrow> int \<Rightarrow> 'p pdf_lib \<Rightarrow> bytes \<Rightarrow> match_client \<Rightarrow> match_client \<times> pydict list res" where
  "check_pdf U net now L blob = check_document U net now ''pdf_metadata'' (pdf_extract L blob) (pdf_text L blob)"

definition check_docx :: "ucd \<Rightarrow> match_net \<Rightarrow> int \<Rightarrow> 'd docx_lib \<Rightarrow> bytes \<Rightarrow> match_client \<Rightarrow> match_client \<times> pydict list res" where
  "check_docx U net now L blob = check_document U net now ''docx_metadata'' (docx_extract L blob) (docx_text L blob)"

section \<open>The handler\<close>

record attachment =
  at_kind :: "pystr option"
  at_bytes_hex :: "pystr option"

record job =
  jb_text :: "pystr option"
  jb_attachments :: "attachment list"
  jb_scraped_at :: pyval
  jb_source_url :: pyval

record ('d, 'p, 'i) format_libs =
  fl_docx :: "'d docx_lib"
  fl_pdf :: "'p pdf_lib"
  fl_image :: "'i image_lib"

definition check_attachment ::
    "ucd \<Rightarrow> match_net \<Rightarrow> int \<Rightarrow> ('d, 'p, 'i) format_libs \<Rightarrow> attachment \<Rightarrow> match_client \<Rightarrow> match_client \<times> pydict list res" where
  "check_attachment U net now F att c =
     (case at_bytes_hex att of
        None \<Rightarrow> (c, Inr [])
      | Some raw \<Rightarrow>
          if raw = [] then (c, Inr [])
          else
            (case fromhex raw of
               Inl e \<Rightarrow> (c, Inl e)
             | Inr blob \<Rightarrow>
                 if at_kind att = Some (u ''image'') then (c, Inr (check_image net (fl_image F) blob c))
                 else if at_kind att = Some (u ''pdf'') then check_pdf U net now (fl_pdf F) blob c
                 else if at_kind att = Some (u ''docx'') then check_docx U net now (fl_docx F) blob c
                 else (c, Inr [])))"

fun check_attachments ::
    "ucd \<Rightarrow> match_net \<Rightarrow> (nat \<Rightarrow> int) \<Rightarrow> ('d, 'p, 'i) format_libs \<Rightarrow> nat \<Rightarrow> attachment list \<Rightarrow> match_client
      \<Rightarrow> match_client \<times> pydict list res" where
  "check_attachments U net clock F i [] c = (c, Inr [])"
| "check_attachments U net clock F i (a # as) c =
     (case check_attachment U net (clock i) F a c of
        (c1, Inl e) \<Rightarrow> (c1, Inl e)
      | (c1, Inr ms) \<Rightarrow>
          (case check_attachments U net clock F (Suc i) as c1 of
             (c2, Inl e) \<Rightarrow> (c2, Inl e)
           | (c2, Inr rest) \<Rightarrow> (c2, Inr (ms @ rest))))"

definition match_key :: "pydict \<Rightarrow> (pykey \<times> pykey) res" where
  "match_key m =
     ebind (py_key (dgetn m ''layer'')) (\<lambda>l. ebind (py_key (dgetn m ''file_id'')) (\<lambda>f. Inr (l, f)))"

fun unique_matches :: "(pykey \<times> pykey) list \<Rightarrow> pydict list \<Rightarrow> pydict list res" where
  "unique_matches seen [] = Inr []"
| "unique_matches seen (m # ms) =
     ebind (match_key m) (\<lambda>k.
       if k \<in> set seen then unique_matches seen ms
       else ebind (unique_matches (k # seen) ms) (\<lambda>rest. Inr (m # rest)))"

definition handle_scraped ::
    "ucd \<Rightarrow> match_net \<Rightarrow> (nat \<Rightarrow> int) \<Rightarrow> ('d, 'p, 'i) format_libs \<Rightarrow> job \<Rightarrow> pystr \<Rightarrow> pydict res" where
  "handle_scraped U net clock F jb registry_url =
     (let c = client_init registry_url;
          doc = (case jb_text jb of Some t \<Rightarrow> t | None \<Rightarrow> []);
          (c1, body) = (if doc = [] then (c, Inr []) else check_text U net (clock 0) doc c)
      in ebind body (\<lambda>ms1.
         ebind (snd (check_attachments U net clock F 1 (jb_attachments jb) c1)) (\<lambda>ms2.
         ebind (unique_matches [] (ms1 @ ms2)) (\<lambda>ms.
           Inr [(key ''matches'', PList (map PDict ms)), (key ''scraped_at'', jb_scraped_at jb),
                (key ''source_url'', jb_source_url jb)]))))"

section \<open>Duplicates\<close>

lemma unique_matches_sound:
  "unique_matches seen ms = Inr us \<Longrightarrow>
     distinct (map match_key us) \<and> set us \<subseteq> set ms
     \<and> (\<forall>m\<in>set ms. \<exists>k. match_key m = Inr k \<and> (k \<in> set seen \<or> (\<exists>x\<in>set us. match_key x = Inr k)))
     \<and> (\<forall>x\<in>set us. \<forall>k. match_key x = Inr k \<longrightarrow> k \<notin> set seen)"
proof (induction ms arbitrary: seen us)
  case (Cons m ms)
  obtain k where k: "match_key m = Inr k" using Cons.prems by (auto simp: ebind_eq_Inr)
  show ?case
  proof (cases "k \<in> set seen")
    case True
    moreover obtain a b where "k = (a, b)" by force
    ultimately show ?thesis using Cons.IH [of seen us] Cons.prems k by auto
  next
    case False
    then obtain vs where "unique_matches (k # seen) ms = Inr vs" "us = m # vs"
      using Cons.prems k by (auto simp: ebind_eq_Inr)
    note us = this
    from Cons.IH [OF us(1)] have D: "distinct (map match_key vs)" and S: "set vs \<subseteq> set ms"
      and R: "\<And>x. x \<in> set ms \<Longrightarrow> \<exists>k'. match_key x = Inr k' \<and> (k' \<in> set (k # seen) \<or> (\<exists>y\<in>set vs. match_key y = Inr k'))"
      and N: "\<And>x k'. x \<in> set vs \<Longrightarrow> match_key x = Inr k' \<Longrightarrow> k' \<notin> set (k # seen)" by blast+
    have "match_key m \<notin> match_key ` set vs" using N k by (metis imageE list.set_intros(1))
    then have "distinct (map match_key us)" using D us(2) by simp
    moreover have "set us \<subseteq> set (m # ms)" using S us(2) by auto
    moreover have "\<exists>k'. match_key x = Inr k' \<and> (k' \<in> set seen \<or> (\<exists>y\<in>set us. match_key y = Inr k'))"
      if x: "x \<in> set (m # ms)" for x
    proof (cases "x = m")
      case True
      then show ?thesis using k us(2) by simp
    next
      case F: False
      then obtain k' where "match_key x = Inr k'" "k' \<in> set (k # seen) \<or> (\<exists>y\<in>set vs. match_key y = Inr k')"
        using R [of x] x by auto
      then show ?thesis using us(2) k by (cases "k' = k") (simp_all, blast?)
    qed
    moreover have "k' \<notin> set seen" if "x \<in> set us" "match_key x = Inr k'" for x k'
      using that N [of x k'] us(2) k False by (cases "x = m") simp_all
    ultimately show ?thesis by blast
  qed
qed simp

lemma unique_matches_total: "list_all (\<lambda>m. is_ok (match_key m)) ms \<Longrightarrow> \<exists>us. unique_matches seen ms = Inr us"
proof (induction ms arbitrary: seen)
  case (Cons m ms)
  then obtain k where "match_key m = Inr k" by (auto simp: is_ok_ex)
  then show ?case using Cons.IH [of seen] Cons.IH [of "k # seen"] Cons.prems by auto
qed simp

section \<open>The service the job relies on\<close>

definition service_net :: "(pystr \<Rightarrow> pydict \<Rightarrow> reply) \<Rightarrow> pystr \<Rightarrow> match_net" where
  "service_net srv base =
     \<lparr>mn_post = (\<lambda>url args. if prefixed base url then srv (drop (length base) url) args else NoReply),
      mn_get = (\<lambda>url ps. if prefixed base url then srv (drop (length base) url) (map (\<lambda>(k, v). (key k, v)) ps) else NoReply)\<rparr>"

definition mark_query :: "bytes \<Rightarrow> string \<Rightarrow> pydict" where
  "mark_query m layer = [(key ''mark_id'', PStr (hex m)), (key ''layer'', str_val layer)]"

text \<open>The reply to a query for a mark: not found, or the file and recipient of its registration\<close>

definition attribution_reply :: "(pystr \<times> pystr) option \<Rightarrow> pydict \<Rightarrow> bool" where
  "attribution_reply own d \<longleftrightarrow>
     distinct (map fst d) \<and> dget d ''layer'' = None
     \<and> (case own of
          None \<Rightarrow> \<not> truthy (dgetn d ''found'')
        | Some (f, rid) \<Rightarrow> truthy (dgetn d ''found'') \<and> dget d ''file_id'' = Some (PStr f) \<and> dget d ''recipient_id'' = Some (PStr rid))"

definition candidate_of :: "pyval \<Rightarrow> bytes \<Rightarrow> bool" where
  "candidate_of c m \<longleftrightarrow> py_item c ''mark_id'' = Inr (PStr (hex m)) \<and> m \<noteq> []"

lemma bit_hits_ok: "m \<noteq> [] \<Longrightarrow> \<exists>n. bit_hits m k bits = Inr n"
proof -
  assume m: "m \<noteq> []"
  then obtain b where b: "\<And>i. bit_for m i = Inr (b i)" using bit_for_ok by metis
  then show ?thesis
    using mapM_res_pure [of bits "\<lambda>(i, x). ebind (bit_for m (i + k)) (\<lambda>e. Inr (x = e))" "\<lambda>(i, x). x = b (i + k)"]
    by (auto simp: bit_hits_def split: prod.splits)
qed

lemma verify_semantic_ok:
  assumes "m \<noteq> []"
  shows "\<exists>v. verify_semantic U doc m True = Inr v"
proof -
  obtain b where b: "\<And>i. bit_for m i = Inr (b i)" using bit_for_ok [OF assms] by metis
  obtain x y where "bit_hits m 8 (extract_spelling_bits U doc) = Inr x" "bit_hits m 40 (extract_contraction_bits U doc) = Inr y"
    using bit_hits_ok [OF assms] by metis
  then show ?thesis using b by (simp add: verify_semantic_def Let_def split: prod.split)
qed

lemma dict_merge_get: "distinct (map fst d) \<Longrightarrow> dget (dict_merge base d) k = (case dget d k of Some v \<Rightarrow> Some v | None \<Rightarrow> dget base k)"
proof (induction d arbitrary: base)
  case (Cons p d)
  obtain k' v where p: "p = (k', v)" by force
  have "dget (dict_merge base (p # d)) k = (case dget d k of Some v \<Rightarrow> Some v | None \<Rightarrow> dget (AList.update k' v base) k)"
    using Cons p by (simp add: dict_merge_def)
  moreover have "k' = key k \<Longrightarrow> dget d k = None"
    using Cons.prems p by (auto simp: dget_def map_of_eq_None_iff image_iff)
  ultimately show ?case using p by (cases "k' = key k") (auto simp: dget_def update_conv' split: option.split)
qed (simp add: dict_merge_def)

lemma extract_zw_length: "m \<in> set (extract_zw s n) \<Longrightarrow> length m = n"
  by (induction s n rule: extract_zw.induct) (auto simp: Let_def bytes_from_bits_def split: if_splits)

lemma embed_ws_zw_free: "zw_free doc \<Longrightarrow> zw_free (embed_ws doc m)"
  using embed_ws_chars [of doc m] by (auto simp: zw_free_def ZW_SPACE_def ZW_NONJOIN_def ZW_JOIN_def)

locale attribution_service =
  fixes srv :: "'s \<Rightarrow> pystr \<Rightarrow> pydict \<Rightarrow> reply"
    and owner :: "'s \<Rightarrow> bytes \<Rightarrow> string \<Rightarrow> (pystr \<times> pystr) option"
    and candidates :: "'s \<Rightarrow> bytes list"
    and ok :: "'s \<Rightarrow> bool"
  assumes attribute_mark: "ok s \<Longrightarrow> m \<noteq> [] \<Longrightarrow> layer \<in> {''L1_zero_width'', ''L2_whitespace'', ''L3_semantic''} \<Longrightarrow>
      \<exists>d. srv s (u ''/attribute'') (mark_query m layer) = Reply 200 (Inr (PDict d)) \<and> attribution_reply (owner s m layer) d"
    and candidate_marks: "ok s \<Longrightarrow>
      \<exists>d cs. srv s (u ''/candidates/semantic'') [(key ''limit'', PInt 5000)] = Reply 200 (Inr (PDict d))
        \<and> ditem d ''candidates'' = Inr (PList cs) \<and> list_all2 candidate_of cs (candidates s)"
begin

abbreviation net :: "'s \<Rightarrow> pystr \<Rightarrow> match_net" where
  "net s base \<equiv> service_net (srv s) base"

text \<open>What a match says\<close>

definition names :: "pydict \<Rightarrow> string \<Rightarrow> pystr \<times> pystr \<Rightarrow> bool" where
  "names x layer own \<longleftrightarrow>
     dgetn x ''layer'' = str_val layer \<and> dgetn x ''file_id'' = PStr (fst own) \<and> dgetn x ''recipient_id'' = PStr (snd own)"

definition found :: "'s \<Rightarrow> string \<Rightarrow> bytes list \<Rightarrow> pydict list \<Rightarrow> bool" where
  "found s layer marks ms \<longleftrightarrow>
     (\<forall>x\<in>set ms. is_ok (match_key x))
     \<and> (\<forall>m\<in>set marks. case owner s m layer of None \<Rightarrow> True | Some own \<Rightarrow> \<exists>x\<in>set ms. names x layer own)
     \<and> (\<forall>x\<in>set ms. dgetn x ''layer'' = str_val layer \<longrightarrow> (\<exists>m\<in>set marks. \<exists>own. owner s m layer = Some own \<and> names x layer own))"

lemma found_append: "found s layer ms xs \<Longrightarrow> found s layer ms' ys \<Longrightarrow> found s layer (ms @ ms') (xs @ ys)"
  unfolding found_def by (fastforce split: option.splits)

lemma found_other:
  "found s layer' ms xs \<Longrightarrow> (\<forall>x\<in>set xs. dgetn x ''layer'' = str_val layer') \<Longrightarrow> layer \<noteq> layer' \<Longrightarrow> found s layer [] xs"
  by (auto simp: found_def str_val_def)

lemma found_Nil: "found s layer [] []"
  by (simp add: found_def)

lemma lookup:
  assumes "ok s" "m \<noteq> []" "layer \<in> {''L1_zero_width'', ''L2_whitespace'', ''L3_semantic''}"
    and "mc_url c = base" "dget b ''layer'' = Some (str_val layer)"
  shows "\<exists>ms. lookup_mark (net s base) c (PStr (hex m)) layer b = Inr ms \<and> found s layer [m] ms
    \<and> (\<forall>x\<in>set ms. dgetn x ''layer'' = str_val layer)"
proof -
  obtain d where d: "srv s (u ''/attribute'') (mark_query m layer) = Reply 200 (Inr (PDict d))"
    "attribution_reply (owner s m layer) d" using attribute_mark [OF assms(1-3)] by blast
  have "client_attribute (net s base) c (mark_query m layer) = Inr (PDict d)"
    using d(1) assms(4) by (simp add: client_attribute_def service_net_def prefixed_def raise_for_status_def)
  then have l: "lookup_mark (net s base) c (PStr (hex m)) layer b = match_of b (PDict d)"
    by (simp add: lookup_mark_def mark_query_def)
  have g: "dgetn (dict_merge b d) k = (case dget d k of Some v \<Rightarrow> v | None \<Rightarrow> dgetn b k)" for k
    using d(2) dict_merge_get [of d b k] by (simp add: attribution_reply_def dgetn_def dgetd_def split: option.split)
  have lay: "dgetn (dict_merge b d) ''layer'' = str_val layer"
    using g d(2) assms(5) by (simp add: attribution_reply_def dgetn_def dgetd_def)
  show ?thesis
  proof (cases "owner s m layer")
    case None
    then show ?thesis using l d(2) by (simp add: match_of_def attribution_reply_def found_def)
  next
    case (Some own)
    obtain f rid where own: "own = (f, rid)" by force
    have "truthy (dgetn d ''found'')" "dgetn (dict_merge b d) ''file_id'' = PStr f" "dgetn (dict_merge b d) ''recipient_id'' = PStr rid"
      using d(2) Some own g by (simp_all add: attribution_reply_def)
    then show ?thesis using l lay Some own
      by (simp add: match_of_def names_def match_key_def py_key_def str_val_def found_def)
  qed
qed

lemma lookup_all:
  assumes "ok s" "layer \<in> {''L1_zero_width'', ''L2_whitespace'', ''L3_semantic''}" "mc_url c = base"
    and "dget b ''layer'' = Some (str_val layer)"
  shows "[] \<notin> set ms \<Longrightarrow> \<exists>r. mapM_res (\<lambda>m. lookup_mark (net s base) c (PStr (hex m)) layer b) ms = Inr r
    \<and> found s layer ms (concat r)"
proof (induction ms)
  case (Cons m ms)
  obtain r where "lookup_mark (net s base) c (PStr (hex m)) layer b = Inr r" "found s layer [m] r"
    using lookup [OF assms(1) _ assms(2-4), of m] Cons.prems by auto
  moreover obtain rs where "mapM_res (\<lambda>m. lookup_mark (net s base) c (PStr (hex m)) layer b) ms = Inr rs" "found s layer ms (concat rs)"
    using Cons.IH Cons.prems by auto
  ultimately show ?case using found_append [of s layer "[m]" r ms "concat rs"] by simp
qed (simp add: found_Nil)

lemma candidate:
  assumes "ok s" "candidate_of cand m" "mc_url c = base" "layer \<noteq> ''L3_semantic''"
  shows "\<exists>ms. check_candidate U (net s base) c doc cand = Inr ms \<and> found s layer [] ms"
proof -
  have m: "m \<noteq> []" "py_item cand ''mark_id'' = Inr (PStr (hex m))" using assms(2) by (simp_all add: candidate_of_def)
  obtain v where v: "verify_semantic U doc m True = Inr v" using verify_semantic_ok [OF m(1)] by blast
  let ?b = "hit_base ''L3_semantic'' (synonyms_score v) @ [(key ''punct_score'', PFloat (Fin (punctuation_score v)))]"
  have "dget ?b ''layer'' = Some (str_val ''L3_semantic'')" by (simp add: hit_base_def)
  then obtain ms where "lookup_mark (net s base) c (PStr (hex m)) ''L3_semantic'' ?b = Inr ms" "found s layer [] ms"
    using lookup [OF assms(1) m(1) _ assms(3), of "''L3_semantic''" ?b] found_other [of s "''L3_semantic''" "[m]" _ layer] assms(4)
    by auto
  then show ?thesis using m(2) v by (simp add: check_candidate_def found_Nil)
qed

lemma candidates_all:
  assumes "ok s" "mc_url c = base" "list_all2 candidate_of cs ms" "layer \<noteq> ''L3_semantic''"
  shows "\<exists>r. mapM_res (check_candidate U (net s base) c doc) cs = Inr r \<and> found s layer [] (concat r)"
  using assms(3)
proof (induction rule: list_all2_induct)
  case (Cons cand cs m ms)
  obtain r where "check_candidate U (net s base) c doc cand = Inr r" "found s layer [] r"
    using candidate [OF assms(1) Cons(1) assms(2,4), of U doc] by blast
  moreover obtain rs where "mapM_res (check_candidate U (net s base) c doc) cs = Inr rs" "found s layer [] (concat rs)"
    using Cons.IH by blast
  ultimately show ?case using found_append [of s layer "[]" r "[]" "concat rs"] by simp
qed (simp add: found_Nil)

text \<open>A fresh client's job on a text returns, and names the owner of every mark that is read out of it.\<close>

lemma fetched:
  assumes "ok s" "c = \<lparr>mc_url = base, mc_cached = PList [], mc_fetched_at = 0\<rparr>"
  shows "\<exists>cs. fetch_semantic_candidates (net s base) now 3600 c
      = (c\<lparr>mc_cached := PList cs, mc_fetched_at := now\<rparr>, Inr (PList cs)) \<and> list_all2 candidate_of cs (candidates s)"
proof -
  obtain d cs where "srv s (u ''/candidates/semantic'') [(key ''limit'', PInt 5000)] = Reply 200 (Inr (PDict d))"
    "ditem d ''candidates'' = Inr (PList cs)" "list_all2 candidate_of cs (candidates s)"
    using candidate_marks [OF assms(1)] by blast
  then show ?thesis using assms(2)
    by (simp add: fetch_semantic_candidates_def truthy_def service_net_def prefixed_def raise_for_status_def py_item_def)
qed

lemma text_found:
  assumes "ok s" "c = \<lparr>mc_url = base, mc_cached = PList [], mc_fetched_at = 0\<rparr>"
  shows "\<exists>c' ms. check_text U (net s base) now doc c = (c', Inr ms) \<and> found s ''L1_zero_width'' (extract_zw doc 8) ms"
proof -
  let ?L = "\<lambda>m layer. lookup_mark (net s base) c (PStr (hex m)) layer (hit_base layer 1)"
  have b: "dget (hit_base layer 1) ''layer'' = Some (str_val layer)" for layer by (simp add: hit_base_def)
  have url: "mc_url c = base" using assms(2) by simp
  have "[] \<notin> set (extract_zw doc 8)" using extract_zw_length by fastforce
  then obtain l1 where l1: "mapM_res (\<lambda>m. ?L m ''L1_zero_width'') (extract_zw doc 8) = Inr l1"
    "found s ''L1_zero_width'' (extract_zw doc 8) (concat l1)"
    using lookup_all [OF assms(1) _ url b] by blast
  have "\<exists>l2. (case extract_ws doc 8 of None \<Rightarrow> Inr [] | Some w \<Rightarrow> if w = [] then Inr [] else ?L w ''L2_whitespace'') = Inr l2
      \<and> found s ''L1_zero_width'' [] l2"
  proof (cases "extract_ws doc 8")
    case (Some w)
    show ?thesis
    proof (cases "w = []")
      case False
      then obtain ms where "?L w ''L2_whitespace'' = Inr ms" "found s ''L2_whitespace'' [w] ms"
        "\<forall>x\<in>set ms. dgetn x ''layer'' = str_val ''L2_whitespace''" using lookup [OF assms(1) _ _ url b] by blast
      then show ?thesis using Some False found_other [of s "''L2_whitespace''" "[w]" ms "''L1_zero_width''"] by simp
    qed (use Some in \<open>simp add: found_Nil\<close>)
  qed (simp add: found_Nil)
  then obtain l2 where l2: "(case extract_ws doc 8 of None \<Rightarrow> Inr [] | Some w \<Rightarrow> if w = [] then Inr [] else ?L w ''L2_whitespace'') = Inr l2"
    "found s ''L1_zero_width'' [] l2" by blast
  obtain cs where cs: "fetch_semantic_candidates (net s base) now 3600 c = (c\<lparr>mc_cached := PList cs, mc_fetched_at := now\<rparr>, Inr (PList cs))"
    "list_all2 candidate_of cs (candidates s)" using fetched [OF assms] by blast
  let ?c1 = "c\<lparr>mc_cached := PList cs, mc_fetched_at := now\<rparr>"
  obtain l3 where l3: "mapM_res (check_candidate U (net s base) ?c1 doc) cs = Inr l3" "found s ''L1_zero_width'' [] (concat l3)"
    using candidates_all [OF assms(1) _ cs(2), of ?c1 base "''L1_zero_width''" U doc] url by auto
  have "check_text U (net s base) now doc c = (?c1, Inr ((concat l1 @ l2) @ concat l3))"
    unfolding check_text_def using l1(1) l2(1) cs(1) l3(1) by (simp add: Let_def)
  moreover have "found s ''L1_zero_width'' (extract_zw doc 8) ((concat l1 @ l2) @ concat l3)"
    using found_append [OF found_append [OF l1(2) l2(2)] l3(2)] by simp
  ultimately show ?thesis by blast
qed

lemma job_found:
  assumes "ok s" "doc \<noteq> []" "base = rstrip_chars (u ''/'') url"
    and "set (extract_zw doc 8) = {m}" "owner s m ''L1_zero_width'' = Some own"
  shows "\<exists>ms. handle_scraped U (net s base) clock F \<lparr>jb_text = Some doc, jb_attachments = [], jb_scraped_at = sa, jb_source_url = src\<rparr> url
      = Inr [(key ''matches'', PList (map PDict ms)), (key ''scraped_at'', sa), (key ''source_url'', src)]
    \<and> distinct (map match_key ms)
    \<and> (\<exists>x\<in>set ms. names x ''L1_zero_width'' own)"
proof -
  obtain c' ms where t: "check_text U (net s base) (clock 0) doc (client_init url) = (c', Inr ms)"
    "found s ''L1_zero_width'' (extract_zw doc 8) ms"
    using text_found [OF assms(1), of "client_init url" base U "clock 0" doc] assms(3) by (auto simp: client_init_def)
  have "list_all (\<lambda>x. is_ok (match_key x)) ms" using t(2) by (simp add: found_def list_all_iff)
  then obtain us where us: "unique_matches [] ms = Inr us" using unique_matches_total by blast
  obtain x where x: "x \<in> set ms" "names x ''L1_zero_width'' own" using t(2) assms(4,5) by (fastforce simp: found_def)
  note u = unique_matches_sound [OF us]
  have "match_key x = Inr (KStr (u ''L1_zero_width''), KStr (fst own))"
    using x(2) by (simp add: match_key_def names_def py_key_def str_val_def)
  then obtain y where y: "y \<in> set us" "match_key y = Inr (KStr (u ''L1_zero_width''), KStr (fst own))"
    using u x(1) by fastforce
  then have "dgetn y ''layer'' = str_val ''L1_zero_width''"
    by (auto simp: match_key_def py_key_def str_val_def ebind_eq_Inr split: pyval.splits if_splits)
  moreover have "y \<in> set ms" using u y(1) by blast
  ultimately obtain m' own' where "m' \<in> set (extract_zw doc 8)" "owner s m' ''L1_zero_width'' = Some own'"
    "names y ''L1_zero_width'' own'" using t(2) unfolding found_def by meson
  then have "names y ''L1_zero_width'' own" using assms(4,5) by simp
  moreover have "handle_scraped U (net s base) clock F \<lparr>jb_text = Some doc, jb_attachments = [], jb_scraped_at = sa, jb_source_url = src\<rparr> url
      = Inr [(key ''matches'', PList (map PDict us)), (key ''scraped_at'', sa), (key ''source_url'', src)]"
    using t(1) us assms(2) by (simp add: handle_scraped_def Let_def)
  ultimately show ?thesis using y(1) u by blast
qed

end

section \<open>The registry provides it\<close>

definition str_args :: "pydict \<Rightarrow> bool" where
  "str_args args \<longleftrightarrow> list_all (\<lambda>(k, v). is_str v \<or> v = PNone) args"

definition str_arg :: "pydict \<Rightarrow> string \<Rightarrow> pystr option" where
  "str_arg args k = (case dget args k of Some (PStr s) \<Rightarrow> Some s | _ \<Rightarrow> None)"

text \<open>The two endpoints the job calls, as a registry answers a client with request \<open>r\<close>\<close>

record match_site =
  ms_world :: world
  ms_config :: config
  ms_request :: request
  ms_stamp :: pystr
  ms_registry :: registry

definition serve_match :: "match_site \<Rightarrow> pystr \<Rightarrow> pydict \<Rightarrow> reply" where
  "serve_match s path args =
     (if path = u ''/attribute'' then
        (if str_args args then
           json_reply (attribute (ms_world s) (ms_config s)
             \<lparr>aq_token = str_arg args ''token_id'', aq_mark = str_arg args ''mark_id'', aq_layer = str_arg args ''layer'',
              aq_perceptual = str_arg args ''perceptual_hash''\<rparr> (ms_request s) (ms_registry s))
         else Reply 422 (Inl JSONDecodeError))
      else if path = u ''/candidates/semantic'' then
        (case dget args ''limit'' of
           Some (PInt n) \<Rightarrow> json_reply (candidates_semantic (ms_stamp s) n None (rg_tables (ms_registry s)))
         | _ \<Rightarrow> Reply 422 (Inl JSONDecodeError))
      else Reply 404 (Inl JSONDecodeError))"

definition mark_owner :: "match_site \<Rightarrow> bytes \<Rightarrow> string \<Rightarrow> (pystr \<times> pystr) option" where
  "mark_owner s m layer =
     map_option (\<lambda>w. (wm_file w, wm_recipient w))
       (select_row wm_key (hex m, u layer) (t_watermarks (rg_tables (ms_registry s))))"

definition semantic_rows :: "match_site \<Rightarrow> watermark_row list" where
  "semantic_rows s =
     take 5000 (sort_key (\<lambda>w. - wm_at w)
       (filter (\<lambda>w. wm_layer w = u ''L3_semantic'') (t_watermarks (rg_tables (ms_registry s)))))"

definition semantic_marks :: "match_site \<Rightarrow> bytes list" where
  "semantic_marks s = map (\<lambda>w. case fromhex (wm_mark w) of Inr m \<Rightarrow> m | Inl _ \<Rightarrow> []) (semantic_rows s)"

text \<open>
  A registry that serves the job: the client is authorised, texts encode, manifests are JSON, and a
  semantic mark is the hexadecimal text of at least one byte.
\<close>

definition mark_row_ok :: "watermark_row \<Rightarrow> bool" where
  "mark_row_ok w \<longleftrightarrow>
     list_all scalar_str [wm_mark w, wm_file w, wm_recipient w, wm_issuer w]
     \<and> (wm_layer w = u ''L3_semantic'' \<longrightarrow> (\<exists>m. m \<noteq> [] \<and> wm_mark w = hex m))"

definition event_text_ok :: "event_row \<Rightarrow> bool" where
  "event_text_ok e \<longleftrightarrow>
     scalar_str (ev_kind e) \<and> list_all (\<lambda>x. case x of Some t \<Rightarrow> scalar_str t | None \<Rightarrow> True) [ev_ip e, ev_agent e, ev_stamp e]"

definition site_ok :: "match_site \<Rightarrow> bool" where
  "site_ok s \<longleftrightarrow>
     require_operator_auth (ms_config s) (ms_request s) = Inr () \<and> scalar_str (ms_stamp s)
     \<and> list_all mark_row_ok (t_watermarks (rg_tables (ms_registry s)))
     \<and> list_all (\<lambda>mf. \<exists>v. json_loads (mf_json mf) = Inr v \<and> json_ok v) (t_manifests (rg_tables (ms_registry s)))
     \<and> list_all event_text_ok (t_events (rg_tables (ms_registry s)))"

lemma recent_event_ok: "event_text_ok e \<Longrightarrow> json_ok (PDict (recent_event e))"
  by (auto simp: event_text_ok_def recent_event_def opt_val_def opt_num_def split: option.splits)

lemma select_row_in: "select_row kf k t = Some r \<Longrightarrow> r \<in> set t"
  by (auto simp: select_row_def dest: find_Some_iff [THEN iffD1])

lemma attribute_found:
  assumes "site_ok s" "m \<noteq> []" "layer \<noteq> []" "select_row wm_key (hex m, u layer) (t_watermarks (rg_tables (ms_registry s))) = Some w"
  shows "\<exists>d. attribute (ms_world s) (ms_config s) \<lparr>aq_token = None, aq_mark = Some (hex m), aq_layer = Some (u layer), aq_perceptual = None\<rparr>
      (ms_request s) (ms_registry s) = Inr d \<and> json_ok (PDict d) \<and> attribution_reply (Some (wm_file w, wm_recipient w)) d"
proof -
  let ?t = "rg_tables (ms_registry s)"
  have hm: "hex m \<noteq> []" using assms(2) by (cases m) (simp_all add: hex_def byte_hex_def)
  have w: "mark_row_ok w" using assms(1) select_row_in [OF assms(4)] by (simp add: site_ok_def list_all_iff)
  obtain v where v: "(case select_row mf_file (wm_file w) (t_manifests ?t) of None \<Rightarrow> Inr PNone | Some mf \<Rightarrow> json_loads (mf_json mf)) = Inr v" "json_ok v"
    using assms(1) select_row_in [of mf_file "wm_file w" "t_manifests ?t"]
    by (cases "select_row mf_file (wm_file w) (t_manifests ?t)") (fastforce simp: site_ok_def list_all_iff)+
  let ?evs = "recent_events (wm_file w) ?t"
  have "set ?evs \<subseteq> set (t_events ?t)" by (auto simp: recent_events_def dest: in_set_takeD)
  then have "list_all json_ok (map (\<lambda>e. PDict (recent_event e)) ?evs)"
    using assms(1) recent_event_ok by (auto simp: site_ok_def list_all_iff simp del: json_ok.simps(6))
  then show ?thesis
    using assms hm v w
    by (auto simp: attribute_def site_ok_def find_owner_def given_def bound_def watermark_of_row_def opt_val_def
        mark_row_ok_def attribution_reply_def truthy_def)
qed

interpretation registry_match: attribution_service serve_match mark_owner semantic_marks site_ok
proof
  fix s and m :: bytes and layer
  assume ok: "site_ok s" and m: "m \<noteq> []" and layer: "layer \<in> {''L1_zero_width'', ''L2_whitespace'', ''L3_semantic''}"
  let ?q = "\<lparr>aq_token = None, aq_mark = Some (hex m), aq_layer = Some (u layer), aq_perceptual = None\<rparr>"
  have hm: "hex m \<noteq> []" using m by (cases m) (simp_all add: hex_def byte_hex_def)
  have l: "layer \<noteq> []" using layer by auto
  have "serve_match s (u ''/attribute'') (mark_query m layer)
      = json_reply (attribute (ms_world s) (ms_config s) ?q (ms_request s) (ms_registry s))"
    by (simp add: serve_match_def mark_query_def str_args_def str_arg_def is_str_def str_val_def)
  moreover have "\<exists>d. attribute (ms_world s) (ms_config s) ?q (ms_request s) (ms_registry s) = Inr d \<and> json_ok (PDict d)
      \<and> attribution_reply (mark_owner s m layer) d"
  proof (cases "select_row wm_key (hex m, u layer) (t_watermarks (rg_tables (ms_registry s)))")
    case None
    then show ?thesis using ok hm l
      by (auto simp: attribute_def site_ok_def find_owner_def given_def bound_def mark_owner_def attribution_reply_def truthy_def)
  next
    case (Some w)
    then show ?thesis using attribute_found [OF ok m l Some] by (simp add: mark_owner_def)
  qed
  ultimately show "\<exists>d. serve_match s (u ''/attribute'') (mark_query m layer) = Reply 200 (Inr (PDict d))
      \<and> attribution_reply (mark_owner s m layer) d"
    using json_reply_ok by metis
next
  fix s assume ok: "site_ok s"
  let ?d = "[(key ''generated_at'', PStr (ms_stamp s)), (key ''count'', PInt (int (length (semantic_rows s)))),
          (key ''candidates'', PList (map (\<lambda>w. PDict (candidate_dict w)) (semantic_rows s)))]"
  have rows: "mark_row_ok w \<and> wm_layer w = u ''L3_semantic''" if "w \<in> set (semantic_rows s)" for w
    using that ok by (auto simp: semantic_rows_def site_ok_def list_all_iff dest: in_set_takeD)
  have "candidates_semantic (ms_stamp s) 5000 None (rg_tables (ms_registry s)) = Inr ?d"
    by (simp add: candidates_semantic_def semantic_rows_def Let_def)
  moreover have "json_ok (PDict ?d)"
    using ok rows by (auto simp: site_ok_def list_all_iff candidate_dict_def mark_row_ok_def)
  ultimately have "serve_match s (u ''/candidates/semantic'') [(key ''limit'', PInt 5000)] = Reply 200 (Inr (PDict ?d))"
    using json_reply_ok [of ?d] by (simp add: serve_match_def)
  moreover have "list_all2 candidate_of (map (\<lambda>w. PDict (candidate_dict w)) (semantic_rows s)) (semantic_marks s)"
    using rows by (fastforce simp: semantic_marks_def list_all2_map1 list_all2_map2 list_all2_same candidate_of_def
        candidate_dict_def py_item_def mark_row_ok_def)
  ultimately show "\<exists>d cs. serve_match s (u ''/candidates/semantic'') [(key ''limit'', PInt 5000)] = Reply 200 (Inr (PDict d))
        \<and> ditem d ''candidates'' = Inr (PList cs) \<and> list_all2 candidate_of cs (semantic_marks s)"
    by (intro exI conjI) (assumption, simp, assumption)
qed

section \<open>Properties\<close>

text \<open>
  C10: the leak of a marked text is traced to its recipient. A text without zero-width characters is
  marked with an identifier of eight bytes in both invisible layers; a registry that serves the job
  holds the identifier's zero-width mark for a file and a recipient. Then the job returns on the marked
  text, its matches are without duplicates, and one of them names exactly that file and recipient.
  (The one exception is a text of exactly forty characters, which takes no zero-width frame.)
\<close>

theorem leak_attributed:
  assumes "zw_free doc" "length mark = 8" "length (embed_ws doc mark) \<noteq> 40" "site_ok s"
    and "select_row wm_key (hex mark, u ''L1_zero_width'') (t_watermarks (rg_tables (ms_registry s))) = Some w"
  shows "\<exists>marked ms x. text_apply U doc mark [''L1'', ''L2''] = Inr marked
    \<and> handle_scraped U (service_net (serve_match s) (rstrip_chars (u ''/'') url)) clock F
        \<lparr>jb_text = Some marked, jb_attachments = [], jb_scraped_at = sa, jb_source_url = src\<rparr> url
      = Inr [(key ''matches'', PList (map PDict ms)), (key ''scraped_at'', sa), (key ''source_url'', src)]
    \<and> distinct (map match_key ms) \<and> x \<in> set ms \<and> dgetn x ''layer'' = str_val ''L1_zero_width''
    \<and> dgetn x ''file_id'' = PStr (wm_file w) \<and> dgetn x ''recipient_id'' = PStr (wm_recipient w)"
proof -
  have "zw_free (embed_ws doc mark)" by (rule embed_ws_zw_free [OF assms(1)])
  then obtain marked where m: "text_apply U doc mark [''L1'', ''L2''] = Inr marked" "set (extract_zw marked 8) = {mark}"
    using embed_zw_extract [of 40 "embed_ws doc mark" mark 8] assms(2,3) by (auto simp: text_apply_def Let_def)
  have ne: "marked \<noteq> []"
  proof
    assume "marked = []"
    then show False using m(2) by simp
  qed
  have own: "mark_owner s mark ''L1_zero_width'' = Some (wm_file w, wm_recipient w)"
    using assms(5) by (simp add: mark_owner_def)
  obtain ms x where "handle_scraped U (service_net (serve_match s) (rstrip_chars (u ''/'') url)) clock F
        \<lparr>jb_text = Some marked, jb_attachments = [], jb_scraped_at = sa, jb_source_url = src\<rparr> url
      = Inr [(key ''matches'', PList (map PDict ms)), (key ''scraped_at'', sa), (key ''source_url'', src)]"
    "distinct (map match_key ms)" "x \<in> set ms" "registry_match.names x ''L1_zero_width'' (wm_file w, wm_recipient w)"
    using registry_match.job_found [where own = "(wm_file w, wm_recipient w)", OF assms(4) ne refl m(2) own] by blast
  then show ?thesis using m(1) unfolding registry_match.names_def fst_conv snd_conv by blast
qed

definition sample_mark :: bytes where
  "sample_mark = [1, 2, 3, 4, 5, 6, 7, 8]"

definition sample_site :: match_site where
  "sample_site = \<lparr>ms_world = sample_world, ms_config = sample_config, ms_request = sample_request, ms_stamp = [],
     ms_registry = sample_registry\<lparr>rg_tables := empty_tables\<lparr>t_watermarks :=
       [\<lparr>wm_mark = hex sample_mark, wm_layer = u ''L1_zero_width'', wm_file = u ''f-1'', wm_recipient = u ''alice'',
         wm_issuer = u ''acme'', wm_at = 0\<rparr>]\<rparr>\<rparr>\<rparr>"

lemma sample_site_ok: "site_ok sample_site"
  using sample_auth by (simp add: site_ok_def sample_site_def empty_tables_def mark_row_ok_def scalar_str_def [of "[]"])

theorem leak_attributed_witness:
  "\<forall>F :: (nat, nat, nat) format_libs. \<exists>marked ms x. text_apply ascii_ucd (u ''secret'') sample_mark [''L1'', ''L2''] = Inr marked
    \<and> handle_scraped ascii_ucd (service_net (serve_match sample_site) (rstrip_chars (u ''/'') (u ''https://r/''))) (\<lambda>_. 0) F
        \<lparr>jb_text = Some marked, jb_attachments = [], jb_scraped_at = PInt 0, jb_source_url = PNone\<rparr> (u ''https://r/'')
      = Inr [(key ''matches'', PList (map PDict ms)), (key ''scraped_at'', PInt 0), (key ''source_url'', PNone)]
    \<and> x \<in> set ms \<and> dgetn x ''recipient_id'' = PStr (u ''alice'')"
proof -
  let ?w = "\<lparr>wm_mark = hex sample_mark, wm_layer = u ''L1_zero_width'', wm_file = u ''f-1'', wm_recipient = u ''alice'',
         wm_issuer = u ''acme'', wm_at = 0\<rparr>"
  have 1: "zw_free (u ''secret'')" by (simp add: zw_free_def u_def ZW_SPACE_def ZW_NONJOIN_def ZW_JOIN_def)
  have 2: "length sample_mark = 8" by (simp add: sample_mark_def)
  have 3: "length (embed_ws (u ''secret'') sample_mark) \<noteq> 40"
    by (simp add: embed_ws_def u_def ws_lines.simps rstrip_def is_space_def sample_mark_def byte_bits_def upt_rec split: list.split)
  have 4: "select_row wm_key (hex sample_mark, u ''L1_zero_width'') (t_watermarks (rg_tables (ms_registry sample_site))) = Some ?w"
    by (simp add: sample_site_def wm_key_def)
  show ?thesis
    using leak_attributed [OF 1 2 3 sample_site_ok 4, of ascii_ucd "u ''https://r/''" "\<lambda>_. 0" _ "PInt 0" PNone] by fastforce
qed

text \<open>
  The job's client sends no credentials. Against a registry with an operator token, a text in which a
  mark is found ends the whole job with an exception instead of a match.
\<close>

theorem job_unauthorised:
  assumes "extract_zw doc 8 = m # ms" "cf_operator_token (ms_config s) \<noteq> []" "headers (ms_request s) = []"
    and "all_ascii (cf_operator_token (ms_config s))"
  shows "\<exists>e. handle_scraped U (service_net (serve_match s) (rstrip_chars (u ''/'') url)) clock F
      \<lparr>jb_text = Some doc, jb_attachments = as, jb_scraped_at = sa, jb_source_url = src\<rparr> url = Inl (HTTPError e)"
proof -
  have "doc \<noteq> []" using assms(1) by (cases doc) auto
  have "require_operator_auth (ms_config s) (ms_request s) = Inl (HTTPException 401 ''operator authentication required'')"
    using assms(2-4)
    by (simp add: require_operator_auth_def bearer_or_header_token_def header_def compare_digest_def all_ascii_def prefixed_def u_def Let_def)
  then have "lookup_mark (service_net (serve_match s) (rstrip_chars (u ''/'') url)) (client_init url) (PStr (hex m)) ''L1_zero_width'' b
      = Inl (HTTPError ''status'')" for b
    by (simp add: lookup_mark_def client_attribute_def service_net_def prefixed_def client_init_def serve_match_def
        str_args_def is_str_def str_val_def attribute_def json_reply_def raise_for_status_def)
  then show ?thesis using assms(1) \<open>doc \<noteq> []\<close>
    by (simp add: handle_scraped_def check_text_def Let_def)
qed

end
