(* ===== verification/Timestamp.thy ===== *)
theory Timestamp
  imports Sha256 PyJson Calendar
begin

text \<open>
  RFC 3161 timestamps (\<open>src/oversight_core/timestamp.py\<close>): the walk over a chain of authorities and
  the light verification, with \<open>hashlib.sha512\<close> as FIPS 180-4 defines it. The package
  \<open>rfc3161_client\<close> and the HTTP client are parameters: what an authority answers, and what a response
  decodes to.
\<close>

section \<open>SHA-512\<close>

type_synonym word64 = "64 word"
type_synonym sha512_state = "word64 \<times> word64 \<times> word64 \<times> word64 \<times> word64 \<times> word64 \<times> word64 \<times> word64"

text \<open>The first 64 bits of the fractional parts of the roots of the first 80 primes (roots below \<open>2 ^ 70\<close>)\<close>

definition root_word64 :: "nat \<Rightarrow> nat \<Rightarrow> word64" where
  "root_word64 e p = of_nat (root_bits e (p * 2 ^ (64 * e)) 70 0)"

definition primes_80 :: "nat list" where
  "primes_80 = filter (\<lambda>n. \<forall>d\<in>set [2 ..< n]. \<not> d dvd n) [2 ..< 410]"

definition sha512_k :: "word64 list" where
  "sha512_k = map (root_word64 3) primes_80"

definition sha512_h0 :: sha512_state where
  "sha512_h0 = (let r = \<lambda>i. root_word64 2 (primes_80 ! i) in (r 0, r 1, r 2, r 3, r 4, r 5, r 6, r 7))"

definition rotr64 :: "nat \<Rightarrow> word64 \<Rightarrow> word64" where
  "rotr64 n x = drop_bit n x OR push_bit (64 - n) x"

definition word_of_bytes :: "bytes \<Rightarrow> word64" where
  "word_of_bytes xs = foldl (\<lambda>acc x. push_bit 8 acc OR ucast x) 0 xs"

fun sha512_extend :: "nat \<Rightarrow> word64 list \<Rightarrow> word64 list" where
  "sha512_extend 0 ws = ws"
| "sha512_extend (Suc n) ws =
     (let s0 = rotr64 1 (ws ! 14) XOR rotr64 8 (ws ! 14) XOR drop_bit 7 (ws ! 14);
          s1 = rotr64 19 (ws ! 1) XOR rotr64 61 (ws ! 1) XOR drop_bit 6 (ws ! 1)
      in sha512_extend n ((s1 + ws ! 6 + s0 + ws ! 15) # ws))"

fun sha512_round :: "sha512_state \<Rightarrow> word64 \<times> word64 \<Rightarrow> sha512_state" where
  "sha512_round (a, b, c, d, e, f, g, h) (k, w) =
     (let s1 = rotr64 14 e XOR rotr64 18 e XOR rotr64 41 e;
          t1 = h + s1 + ((e AND f) XOR (NOT e AND g)) + k + w;
          s0 = rotr64 28 a XOR rotr64 34 a XOR rotr64 39 a;
          t2 = s0 + ((a AND b) XOR (a AND c) XOR (b AND c))
      in (t1 + t2, a, b, c, d + t1, e, f, g))"

fun sha512_add :: "sha512_state \<Rightarrow> sha512_state \<Rightarrow> sha512_state" where
  "sha512_add (a, b, c, d, e, f, g, h) (a', b', c', d', e', f', g', h') =
     (a + a', b + b', c + c', d + d', e + e', f + f', g + g', h + h')"

definition sha512_block :: "sha512_state \<Rightarrow> bytes \<Rightarrow> sha512_state" where
  "sha512_block s block =
     sha512_add s (foldl sha512_round s
       (zip sha512_k (rev (sha512_extend 64 (rev (map word_of_bytes (chunks 16 8 block)))))))"

text \<open>The length in bits, in 128 bits of which the upper 64 stay zero for any text there is\<close>

definition sha512_pad :: "bytes \<Rightarrow> bytes" where
  "sha512_pad msg =
     msg @ [0x80] @ replicate ((239 - length msg mod 128) mod 128) 0
     @ be_bytes64 (of_nat (8 * length msg div 2 ^ 64)) @ be_bytes64 (of_nat (8 * length msg))"

fun sha512_digest :: "sha512_state \<Rightarrow> bytes" where
  "sha512_digest (a, b, c, d, e, f, g, h) =
     be_bytes64 a @ be_bytes64 b @ be_bytes64 c @ be_bytes64 d
     @ be_bytes64 e @ be_bytes64 f @ be_bytes64 g @ be_bytes64 h"

definition sha512 :: "bytes \<Rightarrow> bytes" where
  "sha512 msg =
     (let p = sha512_pad msg
      in sha512_digest (foldl sha512_block sha512_h0 (chunks (length p div 128) 128 p)))"

lemma length_sha512 [simp]: "length (sha512 msg) = 64"
proof -
  have "length (sha512_digest s) = 64" for s
    by (cases s rule: sha512_digest.cases) (simp add: be_bytes64_def be_bytes_def)
  then show ?thesis by (simp add: sha512_def Let_def)
qed

section \<open>Timestamps\<close>

record qualified_stamp =
  qs_tsa_url :: pystr
  qs_token_bytes :: bytes
  qs_gen_time_iso :: pystr
  qs_serial_number :: int
  qs_nonce :: int
  qs_policy_oid :: pystr
  qs_message_hash :: bytes

definition stamp_to_dict :: "qualified_stamp \<Rightarrow> pydict" where
  "stamp_to_dict ts =
     [(key ''tsa_url'', PStr (qs_tsa_url ts)), (key ''token_hex'', PStr (hex (qs_token_bytes ts))),
      (key ''gen_time'', PStr (qs_gen_time_iso ts)), (key ''serial'', PInt (qs_serial_number ts)),
      (key ''nonce'', PInt (qs_nonce ts)), (key ''policy_oid'', PStr (qs_policy_oid ts)),
      (key ''message_hash_hex'', PStr (hex (qs_message_hash ts)))]"

text \<open>A decoded response: its status and, when it was granted, what the token says\<close>

record stamp_response =
  sr_status :: int
  sr_token :: bytes
  sr_gen_time :: pystr
  sr_serial :: int
  sr_nonce :: int
  sr_policy :: "pystr option"
  sr_imprint :: bytes

record stamp_client =
  sc_available :: bool
  sc_request :: "bytes \<Rightarrow> bytes res"
  sc_post :: "pystr \<Rightarrow> bytes \<Rightarrow> (int \<times> bytes) res"
  sc_decode :: "bytes \<Rightarrow> stamp_response res"

definition DEFAULT_TSA_CHAIN :: "pystr list" where
  "DEFAULT_TSA_CHAIN = [u ''https://freetsa.org/tsr'', u ''http://timestamp.digicert.com'']"

text \<open>The exceptions that lead to the next authority (\<open>TimeoutError\<close> is an \<open>OSError\<close>)\<close>

definition stamp_caught :: "exn \<Rightarrow> bool" where
  "stamp_caught e \<longleftrightarrow> (case e of HTTPError _ \<Rightarrow> True | _ \<Rightarrow> is_ValueError e \<or> is_OSError e)"

text \<open>One authority: nothing when it is to be passed over\<close>

definition ask_tsa :: "stamp_client \<Rightarrow> bytes \<Rightarrow> pystr \<Rightarrow> qualified_stamp option res" where
  "ask_tsa C data tsa_url =
     ebind (sc_request C data) (\<lambda>req.
     ebind (sc_post C tsa_url req) (\<lambda>(status, content).
       if status \<noteq> 200 then Inr None
       else ebind (sc_decode C content) (\<lambda>tsr.
         if sr_status tsr \<noteq> 0 then Inr None
         else Inr (Some \<lparr>qs_tsa_url = tsa_url, qs_token_bytes = sr_token tsr, qs_gen_time_iso = sr_gen_time tsr,
           qs_serial_number = sr_serial tsr, qs_nonce = sr_nonce tsr,
           qs_policy_oid = (case sr_policy tsr of Some p \<Rightarrow> p | None \<Rightarrow> []), qs_message_hash = sr_imprint tsr\<rparr>))))"

fun try_chain :: "stamp_client \<Rightarrow> bytes \<Rightarrow> pystr list \<Rightarrow> qualified_stamp option res" where
  "try_chain C data [] = Inr None"
| "try_chain C data (tsa # chain) =
     (case ask_tsa C data tsa of
        Inl e \<Rightarrow> if stamp_caught e then try_chain C data chain else Inl e
      | Inr None \<Rightarrow> try_chain C data chain
      | Inr (Some ts) \<Rightarrow> Inr (Some ts))"

definition qualified_timestamp :: "stamp_client \<Rightarrow> bytes \<Rightarrow> pystr list option \<Rightarrow> qualified_stamp option res" where
  "qualified_timestamp C data tsa_chain =
     (if \<not> sc_available C then Inr None
      else try_chain C data (case tsa_chain of Some c \<Rightarrow> if c = [] then DEFAULT_TSA_CHAIN else c | None \<Rightarrow> DEFAULT_TSA_CHAIN))"

definition verify_qualified_timestamp :: "qualified_stamp \<Rightarrow> bytes \<Rightarrow> bool" where
  "verify_qualified_timestamp ts original_data \<longleftrightarrow> sha512 original_data = qs_message_hash ts"

text \<open>
  \<open>timestamp_stub\<close> and \<open>qualified_timestamp_or_stub\<close> of \<open>src/registry/server.py\<close>, for clocks in the years
  that four digits write
\<close>

definition timestamp_stub :: "int \<Rightarrow> pystr res" where
  "timestamp_stub now = iso8601 now"

definition qualified_timestamp_or_stub :: "stamp_client \<Rightarrow> int \<Rightarrow> bytes \<Rightarrow> (pystr \<times> pydict option) res" where
  "qualified_timestamp_or_stub C now data =
     ebind (qualified_timestamp C data None) (\<lambda>ts.
       case ts of
         Some ts \<Rightarrow> Inr (qs_gen_time_iso ts, Some (stamp_to_dict ts))
       | None \<Rightarrow> ebind (timestamp_stub now) (\<lambda>s. Inr (s, None)))"

section \<open>What they promise\<close>

lemma ask_tsa_url: "ask_tsa C data tsa = Inr (Some ts) \<Longrightarrow> qs_tsa_url ts = tsa"
  by (auto simp: ask_tsa_def ebind_eq_Inr split: if_splits prod.splits)

text \<open>
  The timestamp returned is the answer of the first authority of the chain that grants one: each
  authority before it was passed over, by a refusal or a caught exception.
\<close>

lemma try_chain_first:
  "try_chain C data chain = Inr (Some ts) \<Longrightarrow>
     \<exists>before behind. chain = before @ qs_tsa_url ts # behind \<and> ask_tsa C data (qs_tsa_url ts) = Inr (Some ts)
       \<and> (\<forall>t\<in>set before. ask_tsa C data t = Inr None \<or> (\<exists>e. ask_tsa C data t = Inl e \<and> stamp_caught e))"
proof (induction chain)
  case (Cons tsa chain)
  show ?case
  proof (cases "ask_tsa C data tsa = Inr (Some ts)")
    case True
    then have "tsa = qs_tsa_url ts" using ask_tsa_url [OF True] by simp
    then show ?thesis using True by (intro exI [of _ "[]"] exI [of _ chain]) auto
  next
    case False
    then have skip: "try_chain C data chain = Inr (Some ts)"
      "ask_tsa C data tsa = Inr None \<or> (\<exists>e. ask_tsa C data tsa = Inl e \<and> stamp_caught e)"
      using Cons.prems by (auto split: sum.splits option.splits if_splits)
    then obtain before behind where "chain = before @ qs_tsa_url ts # behind" "ask_tsa C data (qs_tsa_url ts) = Inr (Some ts)"
      "\<forall>t\<in>set before. ask_tsa C data t = Inr None \<or> (\<exists>e. ask_tsa C data t = Inl e \<and> stamp_caught e)"
      using Cons.IH by blast
    then show ?thesis using skip(2) by (intro exI [of _ "tsa # before"] exI [of _ behind]) auto
  qed
qed simp

text \<open>When every authority is out of reach the call returns nothing, it does not raise.\<close>

lemma try_chain_offline:
  "\<forall>t\<in>set chain. \<exists>e. ask_tsa C data t = Inl e \<and> stamp_caught e \<Longrightarrow> try_chain C data chain = Inr None"
  by (induction chain) auto

text \<open>Then the registry takes the time of its own clock, and says so by giving no details.\<close>

lemma stub_when_offline:
  assumes "\<forall>t\<in>set DEFAULT_TSA_CHAIN. \<exists>e. ask_tsa C data t = Inl e \<and> stamp_caught e" "timestamp_stub now = Inr s"
  shows "qualified_timestamp_or_stub C now data = Inr (s, None)"
  using assms try_chain_offline [OF assms(1)] by (simp add: qualified_timestamp_or_stub_def qualified_timestamp_def)

end
