(* ===== verification/Decoy.thy ===== *)
theory Decoy
  imports PyRegex PyJson Prelude
begin

text \<open>
  Decoy documents (\<open>src/oversight_core/decoy.py\<close>): the names, the topic guessed from a name, the prompt,
  the static template, and the generator with its fall back. The model server is a function of the
  request; the random sample of names is an argument.
\<close>

section \<open>Requests\<close>

definition DEFAULT_DECOY_NAMES :: "pystr list" where
  "DEFAULT_DECOY_NAMES =
     [u ''Q4-board-deck-FINAL-v3.docx'', u ''acquisition-targets-2026.xlsx'', u ''legal-hold-privileged.pdf'',
      u ''compensation-bands-confidential.xlsx'', u ''incident-response-playbook-internal.docx'',
      u ''vendor-contracts-summary.pdf'', u ''cto-1on1-notes.docx'', u ''layoff-planning-tier1.xlsx'',
      u ''customer-churn-risk-2026.xlsx'', u ''M&A-pipeline-confidential.pptx'', u ''security-audit-findings-Q3.pdf'',
      u ''api-keys-rotation-plan.txt'', u ''lawsuit-draft-settlement.docx'', u ''executive-bonus-structure.xlsx'',
      u ''strategic-partnership-nda-drafts.pdf'']"

record decoy_request =
  dr_filename :: pystr
  dr_topic_hint :: pystr
  dr_context :: "pystr option"

definition prompt_for :: "decoy_request \<Rightarrow> pystr" where
  "prompt_for req =
     u ''Produce a realistic but entirely fictional document that would plausibly be saved as the filename ''
     @ [39] @ dr_filename req @ [39] @ u ''. The topic is: '' @ dr_topic_hint req @ u ''.''
     @ (case dr_context req of None \<Rightarrow> []
        | Some c \<Rightarrow> if c = [] then [] else [10] @ u ''Organizational context: '' @ c)
     @ [10, 10] @ u ''Write the full document body. No preamble, no meta-commentary. Begin the document directly.''"

text \<open>The first row of the table with a word that the lower-case name contains\<close>

definition topic_table :: "(string list \<times> string) list" where
  "topic_table =
     [([''board'', ''deck''], ''quarterly board meeting update''),
      ([''acquisition'', ''m&a'', ''pipeline''], ''shortlist of acquisition targets with preliminary valuations''),
      ([''legal'', ''lawsuit''], ''legal memo with privileged work-product notation''),
      ([''comp'', ''bonus'', ''bands''], ''executive compensation band summary''),
      ([''incident'', ''playbook''], ''internal incident response playbook''),
      ([''audit'', ''findings''], ''internal security audit findings summary''),
      ([''api'', ''key''], ''API key rotation plan with endpoint references''),
      ([''layoff''], ''workforce reduction planning notes''),
      ([''churn''], ''customer churn risk analysis''),
      ([''partnership'', ''nda''], ''strategic partnership NDA draft negotiation notes''),
      ([''1on1'', ''notes''], ''executive one-on-one meeting notes''),
      ([''vendor'', ''contract''], ''vendor contract summary with renewal dates'')]"

definition topic_from_filename :: "ucd \<Rightarrow> pystr \<Rightarrow> pystr" where
  "topic_from_filename U name =
     (let n = py_lower U name in
      case find (\<lambda>(ws, topic). list_ex (\<lambda>w. contains (u w) n) ws) topic_table of
        Some (ws, topic) \<Rightarrow> u topic
      | None \<Rightarrow> u ''internal business memo'')"

section \<open>Back ends\<close>

text \<open>The system prompt, line by line; the dash of its third sentence is U+2014\<close>

definition DECOY_SYSTEM_PROMPT :: pystr where
  "DECOY_SYSTEM_PROMPT =
     join [10]
       [u ''You are a corporate document generator for a security'',
        u ''research system. You produce plausible-looking but entirely fictional business'',
        u ''documents that will be used as decoys in an intrusion-detection system. All'',
        u ''names, numbers, and claims must be invented '' @ [0x2014] @ u '' never use real company names,'',
        u ''real people, or real data. The goal is realism of form, not content.'', [],
        u ''Rules:'', u ''- All dollar figures are fake.'',
        u ''- All people are fictional (use generic names like \"A. Smith\", \"J. Chen\").'',
        u ''- All company names are fake (use \"Acme Industries\", \"Meridian Partners\").'',
        u ''- Avoid dates in the near past (the document should look \"current\" as of 2026).'',
        u ''- Tone: dry, corporate, slightly bureaucratic. No irony.'',
        u ''- Length: 250-600 words for text documents.'', []]"

definition ollama_body :: "decoy_request \<Rightarrow> pystr \<Rightarrow> pydict" where
  "ollama_body req model =
     [(key ''model'', PStr model), (key ''prompt'', PStr (prompt_for req)), (key ''system'', PStr DECOY_SYSTEM_PROMPT),
      (key ''stream'', PBool False),
      (key ''options'', PDict [(key ''temperature'', PFloat (Fin (8 / 10))), (key ''top_p'', PFloat (Fin (9 / 10))),
                               (key ''num_predict'', PInt 800)])]"

text \<open>\<open>post\<close> is the request with its status check and \<open>r.json()\<close>\<close>

definition generate_ollama :: "(pystr \<Rightarrow> pydict \<Rightarrow> pyval res) \<Rightarrow> decoy_request \<Rightarrow> pystr \<Rightarrow> pystr \<Rightarrow> pyval res" where
  "generate_ollama post req ollama_url model =
     ebind (post (rstrip_chars (u ''/'') ollama_url @ u ''/api/generate'') (ollama_body req model)) (\<lambda>r.
       case r of
         PDict d \<Rightarrow> (case dget d ''response'' of Some v \<Rightarrow> Inr v | None \<Rightarrow> Inl (KeyError ''response''))
       | _ \<Rightarrow> Inl (TypeError ''indices must be integers''))"

definition static_lines :: "decoy_request \<Rightarrow> pystr list" where
  "static_lines req =
     [u ''INTERNAL '' @ [0x2014] @ u '' '' @ dr_filename req,
      u ''Topic: '' @ dr_topic_hint req, [], u ''Summary'', u ''-------'',
      u ''This document covers the '' @ dr_topic_hint req @ u ''. It is distributed to a'',
      u ''limited group and should not be shared externally. Figures cited below'',
      u ''are preliminary and subject to revision.'', [],
      u ''Key points'', u ''----------'', u ''- Reviewed by: A. Smith, J. Chen'', u ''- Next review: Q3 2026'',
      u ''- Distribution: executive leadership only'', u ''- Classification: CONFIDENTIAL - RESTRICTED'', [],
      u ''Background'', u ''----------'']
     @ map (\<lambda>i. u ''Paragraph '' @ nat_digits (i + 1) @ u '': standard corporate filler content for the ''
              @ dr_topic_hint req @ u '' topic, written to give plausible body to a decoy document.'') [0..<30]"

definition generate_static :: "decoy_request \<Rightarrow> pystr" where
  "generate_static req = join [10] (static_lines req)"

text \<open>\<open>env\<close> is \<open>OVERSIGHT_DECOY_BACKEND\<close>. Every exception of the model server leads to the template.\<close>

definition generate_decoy ::
    "(pystr \<Rightarrow> pydict \<Rightarrow> pyval res) \<Rightarrow> pystr option \<Rightarrow> decoy_request \<Rightarrow> pystr option \<Rightarrow> pystr \<Rightarrow> pystr \<Rightarrow> pyval" where
  "generate_decoy post env req backend ollama_url model =
     (let b = (case backend of Some x \<Rightarrow> x | None \<Rightarrow> []);
          b = (if b \<noteq> [] then b else case env of Some x \<Rightarrow> x | None \<Rightarrow> u ''ollama'')
      in if b = u ''ollama'' then
           (case generate_ollama post req ollama_url model of Inr v \<Rightarrow> v | Inl e \<Rightarrow> PStr (generate_static req))
         else PStr (generate_static req))"

definition generate_decoy_set ::
    "ucd \<Rightarrow> (pystr \<Rightarrow> pydict \<Rightarrow> pyval res) \<Rightarrow> pystr option \<Rightarrow> (nat \<Rightarrow> pystr list) \<Rightarrow> nat \<Rightarrow> pystr list option
      \<Rightarrow> pystr option \<Rightarrow> pystr option \<Rightarrow> pystr \<Rightarrow> pystr \<Rightarrow> (pystr \<times> pyval) list" where
  "generate_decoy_set U post env sample n filenames context backend ollama_url model =
     (let names = (case filenames of Some fs \<Rightarrow> if fs = [] then sample (min n (length DEFAULT_DECOY_NAMES)) else fs
                   | None \<Rightarrow> sample (min n (length DEFAULT_DECOY_NAMES)))
      in map (\<lambda>name. (name, generate_decoy post env
             \<lparr>dr_filename = name, dr_topic_hint = topic_from_filename U name, dr_context = context\<rparr> backend ollama_url model))
           (take n names))"

section \<open>What they promise\<close>

lemma decoy_fallback:
  "generate_ollama post req ollama_url model = Inl e \<Longrightarrow>
     generate_decoy post env req backend ollama_url model = PStr (generate_static req)"
  by (simp add: generate_decoy_def Let_def)

text \<open>
  The module's documentation names three back ends; every name but \<open>ollama\<close>, so also \<open>openai\<close>, is the
  template.
\<close>

lemma decoy_openai_is_static:
  "generate_decoy post env req (Some (u ''openai'')) ollama_url model = PStr (generate_static req)"
  by (simp add: generate_decoy_def u_def)

text \<open>
  A set of decoys always has the asked number of documents, up to the number of names, whatever the
  model server does, each under its own name; without a server it is the template for that name.
\<close>

lemma decoy_set_names:
  assumes "\<And>k. k \<le> length DEFAULT_DECOY_NAMES \<Longrightarrow> length (sample k) = k"
  shows "length (generate_decoy_set U post env sample n filenames context backend ollama_url model)
      = (case filenames of Some fs \<Rightarrow> if fs = [] then min n (length DEFAULT_DECOY_NAMES) else min n (length fs)
         | None \<Rightarrow> min n (length DEFAULT_DECOY_NAMES))"
    and "filenames = Some fs \<Longrightarrow> fs \<noteq> [] \<Longrightarrow>
      map fst (generate_decoy_set U post env sample n filenames context backend ollama_url model) = take n fs"
  using assms [of "min n (length DEFAULT_DECOY_NAMES)"]
  by (auto simp: generate_decoy_set_def Let_def comp_def split: option.split)

lemma decoy_set_offline:
  assumes "\<And>url d. \<exists>e. post url d = Inl e"
    and "(name, body) \<in> set (generate_decoy_set U post env sample n filenames context backend ollama_url model)"
  shows "body = PStr (generate_static \<lparr>dr_filename = name, dr_topic_hint = topic_from_filename U name, dr_context = context\<rparr>)"
proof -
  have "\<exists>e. generate_ollama post req ollama_url model = Inl e" for req
    using assms(1) [of "rstrip_chars (u ''/'') ollama_url @ u ''/api/generate''" "ollama_body req model"]
    by (auto simp: generate_ollama_def)
  then have "generate_decoy post env req backend ollama_url model = PStr (generate_static req)" for req
    using decoy_fallback by metis
  then show ?thesis using assms(2) by (auto simp: generate_decoy_set_def Let_def)
qed

end
