(* ===== verification/Cli.thy ===== *)
theory Cli
  imports Container Watermark SafeIo Fingerprint Siem Beacon
begin

text \<open>
  The commands of \<open>src/cli/oversight.py\<close>: key generation, sealing, opening, inspection, attribution
  of a leak and the SIEM export, composed of the core modules as the command line composes them.
  The file system, the operating system, the cryptography, the clock, what is drawn at random, the
  answer at the terminal and the network are arguments; what is only printed is left out. The first
  part of a text's reading (\<open>read_text\<close>) assumes UTF-8 as the encoding of the locale.
\<close>

section \<open>Commands and how they end\<close>

text \<open>\<open>Exited\<close> is \<open>SystemExit\<close>, with which also \<open>main\<close> ends for the exceptions it catches.\<close>

datatype 'a outcome = Done 'a | Exited | Raised exn

fun outcome_of :: "'a option res \<Rightarrow> 'a outcome" where
  "outcome_of (Inl e) = Raised e"
| "outcome_of (Inr None) = Exited"
| "outcome_of (Inr (Some x)) = Done x"

definition main_outcome :: "'a outcome \<Rightarrow> 'a outcome" where
  "main_outcome r = (case r of Raised e \<Rightarrow> if is_ValueError e \<or> is_OSError e then Exited else Raised e | _ \<Rightarrow> r)"

record cli_env =
  ce_os :: os
  ce_ucd :: ucd
  ce_crypto :: crypto_ops
  ce_now :: int
  ce_mark :: bytes
  ce_uuid :: pystr
  ce_tokens :: "nat \<Rightarrow> bytes"
  ce_eph :: bytes
  ce_wrap_nonce :: bytes
  ce_dek :: bytes
  ce_nonce :: bytes
  ce_answer :: "pystr res option"

section \<open>Paths and files\<close>

text \<open>\<open>Path.with_suffix\<close>\<close>

definition name_suffix :: "pystr \<Rightarrow> pystr" where
  "name_suffix name =
     (let ext = rev (takeWhile (\<lambda>c. c \<noteq> 46) (rev name)); i = length name - length ext
      in if 46 \<in> set name \<and> 1 < i \<and> ext \<noteq> [] then 46 # ext else [])"

definition name_stem :: "pystr \<Rightarrow> pystr" where
  "name_stem name = take (length name - length (name_suffix name)) name"

definition with_suffix :: "path \<Rightarrow> pystr \<Rightarrow> path res" where
  "with_suffix p suffix =
     (if SafeIo.path_name p = [] then Inl (ValueError ''has an empty name'')
      else Inr (butlast p @ [name_stem (SafeIo.path_name p) @ suffix]))"

definition read_bytes :: "os \<Rightarrow> fs \<Rightarrow> path \<Rightarrow> bytes res" where
  "read_bytes os fs p =
     (case os_fail os (ReadFile p) of
        Some e \<Rightarrow> Inl e
      | None \<Rightarrow>
          (case fs p of
             Some (File b _) \<Rightarrow> Inr b
           | Some Dir \<Rightarrow> Inl (OSError ''Is a directory'')
           | None \<Rightarrow> Inl (OSError ''No such file or directory'')))"

definition read_json :: "os \<Rightarrow> fs \<Rightarrow> path \<Rightarrow> pyval res" where
  "read_json os fs p = ebind (read_text os fs p) json_loads"

text \<open>\<open>v[k]\<close> and \<open>v.get(k)\<close> for a parsed value\<close>

definition member :: "pyval \<Rightarrow> string \<Rightarrow> pyval res" where
  "member v k = (case v of PDict d \<Rightarrow> ditem d k | _ \<Rightarrow> Inl (TypeError ''indices must be integers''))"

definition member_or_none :: "pyval \<Rightarrow> string \<Rightarrow> pyval res" where
  "member_or_none v k = (case v of PDict d \<Rightarrow> Inr (dgetn d k) | _ \<Rightarrow> Inl (AttributeError ''get''))"

section \<open>Key generation\<close>

definition identity_dict :: "pystr option \<Rightarrow> classic_identity \<Rightarrow> pydict" where
  "identity_dict ident_id i =
     [(key ''id'', PStr (case ident_id of Some s \<Rightarrow> if s = [] then u ''identity'' else s | None \<Rightarrow> u ''identity'')),
      (key ''x25519_priv'', PStr (hex (id_x25519_priv i))), (key ''x25519_pub'', PStr (hex (id_x25519_pub i))),
      (key ''ed25519_priv'', PStr (hex (id_ed25519_priv i))), (key ''ed25519_pub'', PStr (hex (id_ed25519_pub i)))]"

definition public_dict :: "pydict \<Rightarrow> pydict" where
  "public_dict d = [(key ''id'', dgetn d ''id''), (key ''x25519_pub'', dgetn d ''x25519_pub''),
     (key ''ed25519_pub'', dgetn d ''ed25519_pub'')]"

definition cmd_keygen ::
    "cli_env \<Rightarrow> path \<Rightarrow> pystr option \<Rightarrow> bytes \<Rightarrow> bytes \<Rightarrow> history \<Rightarrow> history \<times> path outcome" where
  "cmd_keygen E out_path ident_id xsk esk h =
     (case ebind (with_suffix out_path (u ''.pub.json'')) (\<lambda>pub_path.
           ebind (validate_output_path (ce_ucd E) (ce_os E) (hd h) out_path [] False True) (\<lambda>_.
           ebind (validate_output_path (ce_ucd E) (ce_os E) (hd h) pub_path [out_path] False True) (\<lambda>_.
             Inr pub_path))) of
        Inl e \<Rightarrow> (h, Raised e)
      | Inr pub_path \<Rightarrow>
          let out = identity_dict ident_id (identity_generate (ce_crypto E) xsk esk) in
          (case atomic_write_private_json (ce_os E) out_path out h of
             (h1, Inl e) \<Rightarrow> (h1, Raised e)
           | (h1, Inr _) \<Rightarrow>
               (case json_dumps_indent (PDict (public_dict out)) of
                  Inl e \<Rightarrow> (h1, Raised e)
                | Inr t \<Rightarrow>
                    (case atomic_write_text (ce_os E) pub_path t None h1 of
                       (h2, Inl e) \<Rightarrow> (h2, Raised e)
                     | (h2, Inr _) \<Rightarrow> (h2, Done pub_path)))))"

section \<open>Sealing\<close>

record seal_args =
  sa_input :: path
  sa_input_arg :: pystr
  sa_issuer_key :: path
  sa_recipient_pub :: path
  sa_out :: path
  sa_issuer_id :: pystr
  sa_registry_url :: pystr
  sa_registry_domain :: pystr
  sa_content_type :: pystr
  sa_watermark :: bool
  sa_l3_mode :: pystr
  sa_l3_ack :: bool
  sa_document_class :: pystr
  sa_register :: "pystr option"

definition decision_dict :: "l3_decision \<Rightarrow> pydict" where
  "decision_dict d =
     [(key ''enabled'', PBool (l3_enabled d)), (key ''mode'', PStr (l3_mode d)),
      (key ''document_class'', PStr (document_class d)), (key ''requires_ack'', PBool (requires_ack d)),
      (key ''reason'', PStr (l3_reason d)), (key ''warnings'', PList (map PStr (l3_warnings d)))]"

text \<open>
  \<open>ce_answer\<close> is none when standard input is no terminal; otherwise what \<open>input()\<close> does, which returns the
  line that is typed or raises, as \<open>EOFError\<close> at the end of the input.
\<close>

definition confirm_l3 :: "pystr res option \<Rightarrow> bool res" where
  "confirm_l3 answer =
     (case answer of
        None \<Rightarrow> Inr False
      | Some r \<Rightarrow> ebind r (\<lambda>line. Inr (strip line = u ''I ACKNOWLEDGE'')))"

record marking =
  mk_plaintext :: bytes
  mk_refs :: "watermark_ref list"
  mk_decision :: "l3_decision option"

definition mark_ref :: "pystr \<Rightarrow> bytes \<Rightarrow> watermark_ref" where
  "mark_ref layer mark_id = \<lparr>w_layer = PStr layer, w_mark_id = PStr (hex mark_id)\<rparr>"

text \<open>No marking is the end by \<open>SystemExit\<close>: the change of wording was not acknowledged.\<close>

definition mark_plaintext :: "cli_env \<Rightarrow> seal_args \<Rightarrow> bytes \<Rightarrow> marking option res" where
  "mark_plaintext E a plaintext =
     (case utf8_decode plaintext of
        Inl e \<Rightarrow> Inr (Some \<lparr>mk_plaintext = plaintext, mk_refs = [], mk_decision = None\<rparr>)
      | Inr doc \<Rightarrow>
          if \<not> sa_watermark a then Inr (Some \<lparr>mk_plaintext = plaintext, mk_refs = [], mk_decision = None\<rparr>)
          else
            let mark_id = ce_mark E;
                d = decide_l3 (ce_ucd E) (sa_input_arg a) (sa_content_type a) doc (sa_document_class a) (sa_l3_mode a)
            in ebind (if l3_enabled d \<and> \<not> sa_l3_ack a then confirm_l3 (ce_answer E) else Inr True) (\<lambda>go_on.
               if \<not> go_on then Inr None
               else
                 ebind (if l3_enabled d then apply_l3_safe (ce_ucd E) doc mark_id (l3_mode d) else Inr doc) (\<lambda>t.
                 ebind (embed_zw (embed_ws t mark_id) mark_id 40) (\<lambda>t.
                 ebind (utf8_encode t) (\<lambda>data.
                   Inr (Some \<lparr>mk_plaintext = data,
                     mk_refs = (if l3_enabled d then [mark_ref (u ''L3_semantic_'' @ l3_mode d) mark_id] else [])
                       @ [mark_ref (u ''L1_zero_width'') mark_id, mark_ref (u ''L2_whitespace'') mark_id],
                     mk_decision = Some d\<rparr>))))))"

text \<open>The manifest of the copy, from the two parsed key files\<close>

definition copy_manifest :: "cli_env \<Rightarrow> seal_args \<Rightarrow> pyval \<Rightarrow> pyval \<Rightarrow> bytes \<Rightarrow> marking \<Rightarrow> (manifest \<times> pyval) res" where
  "copy_manifest E a issuer rec_pub canonical_plaintext mk =
     ebind (member rec_pub ''id'') (\<lambda>rid.
     ebind (member rec_pub ''x25519_pub'') (\<lambda>rx.
     ebind (member_or_none rec_pub ''ed25519_pub'') (\<lambda>re.
     ebind (member issuer ''ed25519_pub'') (\<lambda>ipub.
       let m = manifest_new (ce_uuid E) (ce_now E) (PStr (SafeIo.path_name (sa_input a)))
             (PStr (content_hash (mk_plaintext mk))) (PInt (int (length (mk_plaintext mk)))) (PStr (sa_issuer_id a)) ipub
             \<lparr>r_recipient_id = rid, r_x25519_pub = rx, r_ed25519_pub = re, r_p256_pub = PNone\<rparr>
             (PStr (sa_registry_url a)) (PStr (sa_content_type a)) PNone PNone (str_val ''GLOBAL'')
       in Inr (m\<lparr>m_canonical_content_hash := PStr (content_hash canonical_plaintext),
                 m_l3_policy := (case mk_decision mk of Some d \<Rightarrow> PDict (decision_dict d) | None \<Rightarrow> m_l3_policy m),
                 m_watermarks := mk_refs mk,
                 m_beacons := PList (map (\<lambda>b. PDict (beacon_to_dict b)) (gen_beacons (ce_tokens E) (sa_registry_domain a) None))\<rparr>,
               rid)))))"

definition copy_fingerprint :: "ucd \<Rightarrow> bytes \<Rightarrow> fingerprint option res" where
  "copy_fingerprint U plaintext =
     (case utf8_decode plaintext of
        Inl e \<Rightarrow> Inr None
      | Inr doc \<Rightarrow> ebind (from_text U doc 10 4) (\<lambda>fp. Inr (Some fp)))"

record copy =
  cp_manifest :: manifest
  cp_recipient_id :: pyval
  cp_marking :: marking
  cp_fingerprint :: "fingerprint option"
  cp_blob :: bytes

definition build_copy :: "cli_env \<Rightarrow> seal_args \<Rightarrow> pyval \<Rightarrow> pyval \<Rightarrow> bytes \<Rightarrow> marking \<Rightarrow> copy res" where
  "build_copy E a issuer rec_pub plaintext mk =
     ebind (copy_manifest E a issuer rec_pub plaintext mk) (\<lambda>(m, rid).
     ebind (copy_fingerprint (ce_ucd E) (mk_plaintext mk)) (\<lambda>fp.
     ebind (ebind (member issuer ''ed25519_priv'') py_fromhex) (\<lambda>isk.
     ebind (ebind (member rec_pub ''x25519_pub'') py_fromhex) (\<lambda>rpk.
     let sealed = seal (ce_crypto E) (ce_eph E) (ce_wrap_nonce E) (ce_dek E) (ce_nonce E) (mk_plaintext mk) m isk rpk in
     ebind (snd sealed) (\<lambda>blob.
       Inr \<lparr>cp_manifest = fst sealed, cp_recipient_id = rid, cp_marking = mk, cp_fingerprint = fp, cp_blob = blob\<rparr>)))))"

text \<open>Everything \<open>cmd_seal\<close> computes before it writes\<close>

definition seal_copy :: "cli_env \<Rightarrow> seal_args \<Rightarrow> fs \<Rightarrow> copy option res" where
  "seal_copy E a fs =
     ebind (validate_output_path (ce_ucd E) (ce_os E) fs (sa_out a) [sa_input a, sa_issuer_key a, sa_recipient_pub a] False True) (\<lambda>_.
     ebind (read_bytes (ce_os E) fs (sa_input a)) (\<lambda>plaintext.
     ebind (read_json (ce_os E) fs (sa_issuer_key a)) (\<lambda>issuer.
     ebind (read_json (ce_os E) fs (sa_recipient_pub a)) (\<lambda>rec_pub.
     ebind (mark_plaintext E a plaintext) (\<lambda>marked.
       case marked of
         None \<Rightarrow> Inr None
       | Some mk \<Rightarrow> ebind (build_copy E a issuer rec_pub plaintext mk) (\<lambda>c. Inr (Some c)))))))"

definition fingerprint_record :: "copy \<Rightarrow> fingerprint \<Rightarrow> pydict" where
  "fingerprint_record c fp =
     [(key ''file_id'', m_file_id (cp_manifest c)), (key ''recipient_id'', cp_recipient_id c),
      (key ''mark_id'', case mk_refs (cp_marking c) of [] \<Rightarrow> PNone | w # _ \<Rightarrow> w_mark_id w),
      (key ''canonical_content_hash'', m_canonical_content_hash (cp_manifest c)),
      (key ''l3_policy'', m_l3_policy (cp_manifest c)), (key ''fingerprint'', PDict (fp_to_dict fp))]"

text \<open>The registration that is posted; its failure is reported and changes nothing.\<close>

definition registration :: "seal_args \<Rightarrow> copy \<Rightarrow> (pystr \<times> pydict) option" where
  "registration a c =
     (case sa_register a of
        None \<Rightarrow> None
      | Some url \<Rightarrow>
          if url = [] then None
          else Some (rstrip_chars (u ''/'') url @ u ''/register'',
            [(key ''manifest'', PDict (to_dict True (cp_manifest c))), (key ''beacons'', m_beacons (cp_manifest c)),
             (key ''watermarks'', PList (map (\<lambda>w. PDict (watermark_dict w)) (mk_refs (cp_marking c))))]
            @ (case cp_fingerprint c of None \<Rightarrow> [] | Some fp \<Rightarrow> [(key ''fingerprint'', PDict (fp_to_dict fp))])))"

definition write_fingerprint :: "os \<Rightarrow> path \<Rightarrow> copy \<Rightarrow> history \<Rightarrow> history \<times> unit res" where
  "write_fingerprint os out_path c h =
     (case cp_fingerprint c of
        None \<Rightarrow> (h, Inr ())
      | Some fp \<Rightarrow>
          (case ebind (with_suffix out_path (u ''.fingerprint.json'')) (\<lambda>p.
                ebind (json_dumps_indent (PDict (fingerprint_record c fp))) (\<lambda>t. Inr (p, t))) of
             Inl e \<Rightarrow> (h, Inl e)
           | Inr (p, t) \<Rightarrow> atomic_write_text os p t None h))"

definition cmd_seal :: "cli_env \<Rightarrow> seal_args \<Rightarrow> history \<Rightarrow> history \<times> (copy \<times> (pystr \<times> pydict) option) outcome" where
  "cmd_seal E a h =
     (case outcome_of (seal_copy E a (hd h)) of
        Raised e \<Rightarrow> (h, Raised e)
      | Exited \<Rightarrow> (h, Exited)
      | Done c \<Rightarrow>
          (case atomic_write_bytes (ce_os E) (sa_out a) (cp_blob c) None h of
             (h1, Inl e) \<Rightarrow> (h1, Raised e)
           | (h1, Inr _) \<Rightarrow>
               (case write_fingerprint (ce_os E) (sa_out a) c h1 of
                  (h2, Inl e) \<Rightarrow> (h2, Raised e)
                | (h2, Inr _) \<Rightarrow> (h2, Done (c, registration a c)))))"

section \<open>Opening and inspecting\<close>

text \<open>\<open>open_sealed\<close> gets neither trusted issuers nor a policy context here.\<close>

definition opened :: "cli_env \<Rightarrow> fs \<Rightarrow> path \<Rightarrow> path \<Rightarrow> path \<Rightarrow> (bytes \<times> manifest) res" where
  "opened E fs input_path identity_path out_path =
     ebind (validate_output_path (ce_ucd E) (ce_os E) fs out_path [input_path, identity_path] False True) (\<lambda>_.
     ebind (read_bytes (ce_os E) fs input_path) (\<lambda>blob.
     ebind (read_json (ce_os E) fs identity_path) (\<lambda>ident.
     ebind (ebind (member ident ''x25519_priv'') py_fromhex) (\<lambda>sk.
       snd (open_sealed (ce_crypto E) (ce_now E) True blob sk None None (\<lambda>_. None))))))"

definition cmd_open :: "cli_env \<Rightarrow> path \<Rightarrow> path \<Rightarrow> path \<Rightarrow> history \<Rightarrow> history \<times> manifest outcome" where
  "cmd_open E input_path identity_path out_path h =
     (case opened E (hd h) input_path identity_path out_path of
        Inl e \<Rightarrow> (h, Raised e)
      | Inr (plaintext, m) \<Rightarrow>
          (case atomic_write_bytes (ce_os E) out_path plaintext None h of
             (h1, Inl e) \<Rightarrow> (h1, Raised e)
           | (h1, Inr _) \<Rightarrow> (h1, Done m)))"

definition cmd_inspect :: "cli_env \<Rightarrow> path \<Rightarrow> fs \<Rightarrow> (pydict \<times> bool) res" where
  "cmd_inspect E input_path fs =
     ebind (read_bytes (ce_os E) fs input_path) (\<lambda>blob.
     ebind (from_bytes blob) (\<lambda>sf.
     ebind (verify (ce_crypto E) (sf_manifest sf)) (\<lambda>valid.
       Inr (to_dict True (sf_manifest sf), valid))))"

section \<open>Attribution of a leak\<close>

text \<open>
  \<open>at_post\<close> is a request with \<open>resp.json()\<close>, \<open>at_marks\<close> the status and the JSON of \<open>/marks\<close>, \<open>at_uniq\<close> the
  order of a Python set, \<open>at_listing\<close> the fingerprint files of a directory in the order of the system.
\<close>

record attribute_env =
  ae_env :: cli_env
  ae_post :: "pystr \<Rightarrow> pydict \<Rightarrow> pyval res"
  ae_marks :: "pystr \<Rightarrow> (int \<times> pyval res) res"
  ae_uniq :: "bytes list \<Rightarrow> bytes list"
  ae_listing :: "path \<Rightarrow> path list"

definition read_leak :: "os \<Rightarrow> fs \<Rightarrow> path \<Rightarrow> pystr res" where
  "read_leak os fs p = ebind (read_bytes os fs p) (\<lambda>b. Inr (universal_newlines (utf8_decode_replace b)))"

definition direct_candidates :: "attribute_env \<Rightarrow> pystr \<Rightarrow> bytes list res" where
  "direct_candidates A doc =
     (let l1_unique = ae_uniq A (extract_zw doc 8) in
      ebind (extract_ws_partial doc 8) (\<lambda>(l2_candidate, l2_conf, l2_bits, l2_needed).
        Inr (case l2_candidate of
               Some m \<Rightarrow> if m \<noteq> [] \<and> 1 / 2 \<le> l2_conf \<and> m \<notin> set l1_unique then l1_unique @ [m] else l1_unique
             | None \<Rightarrow> l1_unique)))"

definition owner_query :: "bytes \<Rightarrow> string \<Rightarrow> pydict" where
  "owner_query m layer = [(key ''mark_id'', PStr (hex m)), (key ''layer'', PStr (u layer))]"

text \<open>The named members of the answer when it says \<open>found\<close>; every exception is dropped\<close>

definition look_up :: "attribute_env \<Rightarrow> pystr \<Rightarrow> string list \<Rightarrow> bytes \<Rightarrow> string \<Rightarrow> pyval list option" where
  "look_up A registry names m layer =
     (case ebind (ae_post A (rstrip_chars (u ''/'') registry @ u ''/attribute'') (owner_query m layer)) (\<lambda>data.
           ebind (member_or_none data ''found'') (\<lambda>f.
             if truthy f then ebind (mapM_res (member data) names) (\<lambda>vs. Inr (Some vs)) else Inr None)) of
        Inl e \<Rightarrow> None
      | Inr r \<Rightarrow> r)"

text \<open>The loop over the marks the registry lists; what it has read when an exception ends it is kept.\<close>

fun listed_marks :: "pyval list \<Rightarrow> bytes list \<Rightarrow> bytes list" where
  "listed_marks [] ms = ms"
| "listed_marks (x # xs) ms =
     (case ebind (member x ''mark_id'') py_fromhex of
        Inl e \<Rightarrow> ms
      | Inr m \<Rightarrow> listed_marks xs (if m \<in> set ms then ms else ms @ [m]))"

definition registry_candidates :: "attribute_env \<Rightarrow> pystr \<Rightarrow> bytes list" where
  "registry_candidates A registry =
     (case ebind (ae_marks A (rstrip_chars (u ''/'') registry @ u ''/marks'')) (\<lambda>(status, body).
           if status \<noteq> 200 then Inr []
           else ebind body (\<lambda>v. case v of PDict d \<Rightarrow> py_iter (dgetd d ''marks'' (PList [])) | _ \<Rightarrow> Inl (AttributeError ''get''))) of
        Inl e \<Rightarrow> []
      | Inr xs \<Rightarrow> listed_marks xs [])"

definition fingerprint_files :: "attribute_env \<Rightarrow> fs \<Rightarrow> path \<Rightarrow> path list" where
  "fingerprint_files A fs p =
     (case fs p of Some Dir \<Rightarrow> ae_listing A p | Some (File _ _) \<Rightarrow> [p] | None \<Rightarrow> [])"

record fp_match =
  fm_file :: pystr
  fm_recipient :: pyval
  fm_mark :: pyval
  fm_score :: rat
  fm_verdict :: string

definition compare_file :: "os \<Rightarrow> fs \<Rightarrow> fingerprint \<Rightarrow> path \<Rightarrow> fp_match res" where
  "compare_file os fs leak_fp p =
     ebind (read_json os fs p) (\<lambda>v.
     ebind (member v ''fingerprint'') (\<lambda>f.
     ebind (case f of PDict d \<Rightarrow> fp_from_dict d | _ \<Rightarrow> Inl (TypeError ''indices must be integers'')) (\<lambda>stored.
     case v of
       PDict d \<Rightarrow>
         (case similarity leak_fp stored of
            (w_sim, s_sim, combined, verdict) \<Rightarrow>
              Inr \<lparr>fm_file = SafeIo.path_name p, fm_recipient = dgetd d ''recipient_id'' (str_val ''unknown''),
                   fm_mark = dgetd d ''mark_id'' (str_val ''unknown''), fm_score = combined, fm_verdict = verdict\<rparr>)
     | _ \<Rightarrow> Inl (AttributeError ''get''))))"

text \<open>The loop over the files: a strictly higher score replaces the best one, a file that cannot be read is passed over\<close>

fun best_match :: "os \<Rightarrow> fs \<Rightarrow> fingerprint \<Rightarrow> path list \<Rightarrow> fp_match option \<Rightarrow> fp_match option" where
  "best_match os fs leak_fp [] best = best"
| "best_match os fs leak_fp (p # ps) best =
     best_match os fs leak_fp ps
       (case compare_file os fs leak_fp p of
          Inl e \<Rightarrow> best
        | Inr m \<Rightarrow> if (case best of None \<Rightarrow> 0 | Some x \<Rightarrow> fm_score x) < fm_score m then Some m else best)"

definition fingerprint_match :: "attribute_env \<Rightarrow> fs \<Rightarrow> pystr \<Rightarrow> path \<Rightarrow> fp_match option res" where
  "fingerprint_match A fs doc p =
     ebind (from_text (ce_ucd (ae_env A)) doc 10 4) (\<lambda>leak_fp.
       Inr (case best_match (ce_os (ae_env A)) fs leak_fp (fingerprint_files A fs p) None of
              Some m \<Rightarrow> if 3 / 10 \<le> fm_score m then Some m else None
            | None \<Rightarrow> None))"

record leak_report =
  lr_direct :: "(bytes \<times> pyval list option) list"
  lr_l3 :: "l3_hit list"
  lr_ranking :: "(bytes \<times> rat \<times> pystr) list"
  lr_owner :: "pyval list option"
  lr_fingerprint :: "fp_match option"

definition cmd_attribute :: "attribute_env \<Rightarrow> path \<Rightarrow> pystr \<Rightarrow> path option \<Rightarrow> fs \<Rightarrow> leak_report res" where
  "cmd_attribute A leak registry fingerprints fs =
     (let U = ce_ucd (ae_env A) in
      ebind (read_leak (ce_os (ae_env A)) fs leak) (\<lambda>doc.
      ebind (direct_candidates A doc) (\<lambda>direct.
      let listed = registry_candidates A registry;
          all_candidates = direct @ filter (\<lambda>m. m \<notin> set direct) listed in
      ebind (if all_candidates = [] then Inr [] else verify_l3 U doc all_candidates (7 / 10)) (\<lambda>l3_hits.
      ebind (recover_marks_v2 U (ae_uniq A) doc all_candidates 8) (\<lambda>r.
      ebind (case fingerprints of None \<Rightarrow> Inr None | Some p \<Rightarrow> fingerprint_match A fs doc p) (\<lambda>fm.
        Inr \<lparr>lr_direct = map (\<lambda>m. (m, look_up A registry [''recipient_id'', ''file_id''] m ''L1_zero_width'')) direct,
             lr_l3 = l3_hits, lr_ranking = rec_candidates r,
             lr_owner = (case rec_candidates r of
                 [] \<Rightarrow> None
               | (best, _) # _ \<Rightarrow> look_up A registry [''file_id'', ''recipient_id'', ''issuer_id''] best ''fused''),
             lr_fingerprint = fm\<rparr>))))))"

section \<open>SIEM export\<close>

text \<open>Each \<open>--header\<close> is split at its first colon; one without a colon ends the program.\<close>

fun parse_headers :: "pystr list \<Rightarrow> (pystr \<times> pystr) list \<Rightarrow> (pystr \<times> pystr) list option" where
  "parse_headers [] hs = Some hs"
| "parse_headers (h # rest) hs =
     (if 58 \<notin> set h then None
      else parse_headers rest
        (AList.update (strip (takeWhile (\<lambda>c. c \<noteq> 58) h)) (strip (tl (dropWhile (\<lambda>c. c \<noteq> 58) h))) hs))"

record siem_args =
  xa_format :: pystr
  xa_registry_id :: pystr
  xa_since :: "int option"
  xa_limit :: "int option"
  xa_output :: pystr
  xa_headers :: "pystr list"
  xa_splunk :: splunk_opts

datatype siem_result = Printed pystr | Appended pystr pystr | Sent "http_post list"

text \<open>\<open>content\<close> is the file's text before the export; a text sink is closed whatever happened.\<close>

definition cmd_siem ::
    "(pyfloat \<Rightarrow> pystr) \<Rightarrow> world \<Rightarrow> (http_post \<Rightarrow> nat res) \<Rightarrow> tables \<Rightarrow> (pystr \<Rightarrow> pystr) \<Rightarrow> siem_args
      \<Rightarrow> siem_result option \<times> nat outcome" where
  "cmd_siem fr W net t content a =
     (let events = iter_registry_events W t (xa_since a) (xa_limit a) (xa_registry_id a);
          opts = (if xa_format a = u ''splunk'' then (xa_splunk a)\<lparr>sp_host := None\<rparr> else splunk_defaults);
          run = (\<lambda>r. case r of Inl e \<Rightarrow> Raised e | Inr n \<Rightarrow> Done n)
      in if xa_output a = u ''-'' then
           (case export_events fr (text_send fr) id events (xa_format a) opts \<lparr>ts_flushed = [], ts_buffer = []\<rparr> of
              (s, r) \<Rightarrow> (Some (Printed (text_close s)), run r))
         else if prefixed (u ''http://'') (xa_output a) \<or> prefixed (u ''https://'') (xa_output a) then
           (case parse_headers (xa_headers a) [] of
              None \<Rightarrow> (None, Exited)
            | Some hs \<Rightarrow>
                (case export_events fr (http_send net) (\<lambda>_. []) events (xa_format a) opts
                    (http_sink_init (xa_output a) (Some hs)) of
                   (ps, r) \<Rightarrow> (Some (Sent ps), run r)))
         else
           (case file_sink_open (u ''a'') (content (xa_output a)) of
              Inl e \<Rightarrow> (None, Raised e)
            | Inr s0 \<Rightarrow>
                (case export_events fr (text_send fr) id events (xa_format a) opts s0 of
                   (s, r) \<Rightarrow> (Some (Appended (xa_output a) (text_close s)), run r))))"

section \<open>Writes behind each other\<close>

lemma sys_hist: "sys os c (g # t) = (case sys os c [g] of (h, r) \<Rightarrow> (h @ t, r)) \<and> fst (sys os c [g]) \<noteq> []"
  by (auto simp: sys_def split: option.splits syscall.splits)

lemma sys_all_hist:
  "sys_all os cs (g # t) = (case sys_all os cs [g] of (h, r) \<Rightarrow> (h @ t, r)) \<and> fst (sys_all os cs [g]) \<noteq> []"
proof (induction cs arbitrary: g t)
  case (Cons c cs)
  obtain h r where c: "sys os c [g] = (h, r)" "h \<noteq> []" using sys_hist [of os c g t] by (cases "sys os c [g]") auto
  then obtain g' t' where h: "h = g' # t'" by (cases h) auto
  have ct: "sys os c (g # t) = (g' # t' @ t, r)" using sys_hist [of os c g t] c h by simp
  show ?case
  proof (cases r)
    case (Inr x)
    obtain h2 r2 where "sys_all os cs [g'] = (h2, r2)" "h2 \<noteq> []"
      using Cons.IH [of g' t'] by (cases "sys_all os cs [g']") auto
    then show ?thesis using c(1) ct h Inr Cons.IH [of g' t'] Cons.IH [of g' "t' @ t"] by simp
  qed (use c ct h in simp)
qed simp

lemma write_hist:
  "atomic_write_bytes os p data mode (g # t) = (case atomic_write_bytes os p data mode [g] of (h, r) \<Rightarrow> (h @ t, r))"
proof -
  let ?tmp = "os_temp os (path_parent p) (46 # SafeIo.path_name p @ [46])"
  have ne: "\<exists>g1 t1 r1. sys_all os cs [g0] = (g1 # t1, r1)" for cs g0
    using sys_all_hist [of os cs g0 t] by (cases "sys_all os cs [g0]") (auto simp: neq_Nil_conv)
  obtain g1 t1 r1 where 1: "sys_all os [Mkdir (path_parent p), Mkstemp ?tmp] [g] = (g1 # t1, r1)" using ne by blast
  have p1: "sys_all os [Mkdir (path_parent p), Mkstemp ?tmp] (g # t) = (g1 # t1 @ t, r1)"
    using sys_all_hist [of os "[Mkdir (path_parent p), Mkstemp ?tmp]" g t] 1 by simp
  obtain g2 t2 r2 where 2: "sys_all os (write_calls os ?tmp p data mode) [g1] = (g2 # t2, r2)" using ne by blast
  have p2: "sys_all os (write_calls os ?tmp p data mode) (g1 # s) = (g2 # t2 @ s, r2)" for s
    using sys_all_hist [of os _ g1 s] 2 by simp
  obtain h3 r3 where 3: "sys os (Unlink ?tmp) [g2] = (h3, r3)" by force
  have p3: "sys os (Unlink ?tmp) (g2 # s) = (h3 @ s, r3)" for s using sys_hist [of os "Unlink ?tmp" g2 s] 3 by simp
  show ?thesis
    unfolding atomic_write_bytes_def Let_def p1 1 by (simp add: p2 p3 split: sum.split)
qed

lemma write_done:
  assumes "atomic_write_bytes os p data mode h = (h', Inr ())" "h \<noteq> []"
    and tmp: "temp_beside (os_temp os (path_parent p) (46 # SafeIo.path_name p @ [46])) p"
  shows "h' \<noteq> [] \<and> hd h' p = Some (File data (target_mode os mode))
    \<and> (\<forall>q b k. q \<noteq> p \<longrightarrow> q \<noteq> os_temp os (path_parent p) (46 # SafeIo.path_name p @ [46]) \<longrightarrow>
         (hd h' q = Some (File b k) \<longleftrightarrow> hd h q = Some (File b k)))"
proof -
  obtain g t where h: "h = g # t" using assms(2) by (cases h) auto
  obtain h1 where w: "atomic_write_bytes os p data mode [g] = (h1, Inr ())" "h' = h1 @ t"
    using assms(1) write_hist [of os p data mode g t] h by (cases "atomic_write_bytes os p data mode [g]") auto
  then show ?thesis using atomic_write_states [OF w(1) refl tmp] h by (auto simp: on_the_way_def)
qed

section \<open>What marking does\<close>

lemma rows_of_ws: "map rstrip (split_on 10 (embed_ws doc m)) = map rstrip (split_on 10 doc)"
  by (simp add: split_embed_ws ws_lines_rstrip)

definition seen_lines :: "pystr \<Rightarrow> pystr list" where
  "seen_lines doc = map rstrip (split_on 10 (filter (\<lambda>c. zw_free [c]) doc))"

lemma seen_plain: "zw_free doc \<Longrightarrow> seen_lines doc = map rstrip (split_on 10 doc)"
proof -
  have "zw_free doc \<Longrightarrow> filter (\<lambda>c. zw_free [c]) doc = doc" by (induction doc) auto
  then show "zw_free doc \<Longrightarrow> seen_lines doc = map rstrip (split_on 10 doc)" by (simp add: seen_lines_def)
qed

lemma ws_keeps_zw_free: "zw_free doc \<Longrightarrow> zw_free (embed_ws doc m)"
  using embed_ws_chars [of doc m] by (auto simp: zw_free_def ZW_SPACE_def ZW_NONJOIN_def ZW_JOIN_def)

lemma mark_layers_seen:
  assumes "zw_free doc" "embed_zw (embed_ws doc m) m 40 = Inr t"
  shows "seen_lines t = seen_lines doc"
    and "extract_zw t (length m) = (let k = length (embed_ws doc m) in replicate (if k < 40 then 1 else (k - 1) div 40) m)"
proof -
  have "extract_zw t (length m) = (let k = length (embed_ws doc m) in replicate (if k < 40 then 1 else (k - 1) div 40) m)
      \<and> filter (\<lambda>c. zw_free [c]) t = embed_ws doc m"
    using embed_zw_extract [OF _ ws_keeps_zw_free [OF assms(1)], of 40 m m "length m"] assms(2) by (auto simp: Let_def)
  then show "extract_zw t (length m) = (let k = length (embed_ws doc m) in replicate (if k < 40 then 1 else (k - 1) div 40) m)"
    "seen_lines t = seen_lines doc"
    using rows_of_ws [of doc m] by (simp_all add: seen_plain [OF assms(1)]) (simp add: seen_lines_def)
qed

lemma marked_encodes:
  assumes "zw_free doc" "\<forall>c \<in> set doc. is_scalar c"
  shows "\<exists>t data. embed_zw (embed_ws doc mark) mark 40 = Inr t \<and> utf8_encode t = Inr data"
proof -
  obtain t where t: "embed_zw (embed_ws doc mark) mark 40 = Inr t" "filter (\<lambda>c. zw_free [c]) t = embed_ws doc mark"
    using embed_zw_extract [OF _ ws_keeps_zw_free [OF assms(1)], of 40 mark mark 8] by auto
  have "is_scalar c" if c: "c \<in> set t" for c
  proof (cases "zw_free [c]")
    case True
    then have "c \<in> set (embed_ws doc mark)" using c unfolding t(2) [symmetric] by simp
    then have "c \<in> set doc \<union> {9, 10, 32}" using embed_ws_chars by blast
    then show ?thesis using assms(2) by (auto intro: scalar_below)
  qed (auto simp: ZW_SPACE_def ZW_NONJOIN_def ZW_JOIN_def zw_free_def intro!: scalar_below)
  then show ?thesis using t(1) utf8_encode_ok_iff [of t] by (auto simp: is_ok_ex)
qed

text \<open>
  C32: without an acknowledgement the wording stays. When the marks go into a UTF-8 text without
  zero-width characters and neither \<open>--l3-ack\<close> nor the typed line acknowledged a change of the prose,
  the sealed bytes are a UTF-8 text whose lines, without zero-width characters and trailing white
  space, are those of the input. That holds for every document class and every \<open>--l3-mode\<close>.
\<close>

theorem unacknowledged_wording_kept:
  assumes "mark_plaintext E a plaintext = Inr (Some mk)" "utf8_decode plaintext = Inr doc" "zw_free doc"
    and "\<not> sa_l3_ack a" "confirm_l3 (ce_answer E) \<noteq> Inr True"
  shows "\<exists>t. utf8_decode (mk_plaintext mk) = Inr t \<and> seen_lines t = seen_lines doc"
proof (cases "sa_watermark a")
  case True
  then obtain t data where t: "embed_zw (embed_ws doc (ce_mark E)) (ce_mark E) 40 = Inr t" "utf8_encode t = Inr data"
      "mk_plaintext mk = data"
    using assms by (auto simp: mark_plaintext_def Let_def ebind_eq_Inr split: if_splits)
  then show ?thesis using mark_layers_seen(1) [OF assms(3) t(1)] utf8_decode_encode by blast
qed (use assms in \<open>auto simp: mark_plaintext_def\<close>)

text \<open>The layers a copy is registered under are never the one the registry lists as semantic candidates.\<close>

lemma cli_layers:
  assumes "mark_plaintext E a plaintext = Inr (Some mk)" "w \<in> set (mk_refs mk)"
  shows "w_layer w \<noteq> PStr (u ''L3_semantic'') \<and> w_layer w \<noteq> PStr (u ''fused'')"
  using assms
  by (auto simp: mark_plaintext_def mark_ref_def Let_def ebind_eq_Inr u_def split: if_splits sum.splits)

section \<open>The manifest of a copy is JSON\<close>

definition scalar_class :: "pystr \<times> pystr list \<Rightarrow> bool" where
  "scalar_class r \<longleftrightarrow> scalar_str (fst r) \<and> list_all scalar_str (snd r)"

lemma scalar_class_intros:
  "(b \<Longrightarrow> scalar_class x) \<Longrightarrow> (\<not> b \<Longrightarrow> scalar_class y) \<Longrightarrow> scalar_class (if b then x else y)"
  "scalar_str p \<Longrightarrow> scalar_str q \<Longrightarrow> scalar_class (p, [q])"
  "scalar_str p \<Longrightarrow> scalar_str q \<Longrightarrow> scalar_str (p @ q)"
  "scalar_str (u w)"
  by (simp_all add: scalar_class_def scalar_str_append)

lemma extension_scalar: "suffix \<in> set LEGAL_EXTENSIONS \<Longrightarrow> scalar_str suffix" "suffix \<in> set RISKY_EXTENSIONS \<Longrightarrow> scalar_str suffix"
  unfolding LEGAL_EXTENSIONS_def RISKY_EXTENSIONS_def by (auto simp only: set_map intro: scalar_str_u)

lemma classify_scalar:
  assumes "scalar_str declared" "scalar_str content_type"
  shows "scalar_class (classify_document U filename content_type doc declared)"
  unfolding classify_document_def Let_def
  by (rule scalar_class_intros | rule assms | erule extension_scalar)+

lemma decide_scalar:
  assumes "scalar_str declared" "scalar_str content_type"
  shows "json_ok (PDict (decision_dict (decide_l3 U filename content_type doc declared mode)))"
proof -
  obtain cls reasons where c: "classify_document U filename content_type doc declared = (cls, reasons)" by force
  then have "scalar_str cls" "list_all scalar_str reasons"
    using classify_scalar [OF assms, of U filename doc] by (auto simp: scalar_class_def)
  then have "json_ok (PDict (decision_dict (L3Decision en (u md) cls ack (u why) (reasons @ ws))))"
    if "list_all scalar_str ws" for en md ack why ws
    using that by (simp add: L3Decision_def decision_dict_def list_all_iff ball_Un)
  from this [of "[]"] this show ?thesis
    by (simp add: decide_l3_def c Let_def split: if_split)
qed

lemma beacon_json_ok:
  assumes "scalar_str domain" "scalar_str tid" "b \<in> set (beacon_of_kind domain tid kind)"
  shows "json_ok (PDict (beacon_to_dict b))"
proof -
  have "scalar_str (b_token_id b) \<and> scalar_str (b_kind b) \<and> scalar_str (b_url b) \<and> json_ok (opt_val (b_dns_name b))"
    using assms(3)
    by (simp add: beacon_of_kind_def Let_def opt_val_def scalar_str_append assms(1,2) split: if_splits)
  then show ?thesis by (simp add: beacon_to_dict_def)
qed

lemma beacons_ok:
  assumes "scalar_str domain"
  shows "json_ok (PList (map (\<lambda>b. PDict (beacon_to_dict b)) (gen_beacons rnd domain None)))"
proof -
  have "json_ok (PDict (beacon_to_dict b))" if b: "b \<in> set (gen_beacons rnd domain None)" for b
  proof -
    obtain i kind where "b \<in> set (beacon_of_kind domain (hex (rnd i)) kind)"
      using b by (auto simp: gen_beacons_def Let_def token_hex_def)
    then show ?thesis using beacon_json_ok [OF assms scalar_str_hex] by blast
  qed
  then show ?thesis by (simp add: list_all_iff del: json_ok.simps(6))
qed

text \<open>What the texts of a copy's manifest are made of\<close>

definition args_ok :: "cli_env \<Rightarrow> seal_args \<Rightarrow> bool" where
  "args_ok E a \<longleftrightarrow>
     list_all scalar_str [ce_uuid E, SafeIo.path_name (sa_input a), sa_issuer_id a, sa_registry_url a,
       sa_registry_domain a, sa_content_type a, sa_document_class a]"

lemma marking_ok:
  assumes "mark_plaintext E a plaintext = Inr (Some mk)" "args_ok E a"
  shows "(\<forall>d. mk_decision mk = Some d \<longrightarrow> json_ok (PDict (decision_dict d)))
    \<and> (\<forall>w\<in>set (mk_refs mk). \<exists>l x. w = \<lparr>w_layer = PStr l, w_mark_id = PStr (hex x)\<rparr> \<and> scalar_str l)"
proof (cases "mk_decision mk")
  case None
  then have "mk_refs mk = []" using assms(1)
    by (auto simp: mark_plaintext_def Let_def ebind_eq_Inr split: sum.splits if_splits)
  then show ?thesis using None by simp
next
  case (Some d)
  then obtain doc where d: "d = decide_l3 (ce_ucd E) (sa_input_arg a) (sa_content_type a) doc (sa_document_class a) (sa_l3_mode a)"
      "mk_refs mk = (if l3_enabled d then [mark_ref (u ''L3_semantic_'' @ l3_mode d) (ce_mark E)] else [])
         @ [mark_ref (u ''L1_zero_width'') (ce_mark E), mark_ref (u ''L2_whitespace'') (ce_mark E)]"
    using assms(1) by (auto simp: mark_plaintext_def Let_def ebind_eq_Inr split: sum.splits if_splits)
  have j: "json_ok (PDict (decision_dict d))"
    unfolding d(1) by (rule decide_scalar) (use assms(2) in \<open>simp_all add: args_ok_def\<close>)
  then have "scalar_str (l3_mode d)" by (simp add: decision_dict_def)
  then show ?thesis using Some j d(2) by (auto simp: mark_ref_def scalar_str_append)
qed

lemma copy_manifest_ok:
  assumes "copy_manifest E a issuer (PDict rp) canonical_plaintext mk = Inr (m, rid)" "args_ok E a"
    and "mark_plaintext E a plaintext = Inr (Some mk)"
    and "ditem rp ''id'' = Inr (PStr name)" "scalar_str name"
    and "ditem rp ''x25519_pub'' = Inr (PStr (hex pub))" "json_ok (dgetn rp ''ed25519_pub'')"
    and "member issuer ''ed25519_pub'' = Inr (PStr (hex ipub))"
  shows "manifest_ok m" "m_suite m = PStr SUITE_CLASSIC_V1" "m_issuer_ed25519_pub m = PStr (hex ipub)"
    "m_content_hash m = PStr (content_hash (mk_plaintext mk))" "m_size_bytes m = PInt (int (length (mk_plaintext mk)))"
    "\<exists>r. m_recipient m = Some r \<and> r_x25519_pub r = PStr (hex pub)"
    "m_policy m = PDict [(key ''registry_url'', PStr (sa_registry_url a)), (key ''jurisdiction'', str_val ''GLOBAL'')]"
    "m_file_id m = PStr (ce_uuid E)" "rid = PStr name" "m_watermarks m = mk_refs mk"
proof -
  obtain l3 where l3: "json_ok l3" "l3 \<noteq> PNone" and
    m: "m = (manifest_new (ce_uuid E) (ce_now E) (PStr (SafeIo.path_name (sa_input a)))
             (PStr (content_hash (mk_plaintext mk))) (PInt (int (length (mk_plaintext mk)))) (PStr (sa_issuer_id a)) (PStr (hex ipub))
             \<lparr>r_recipient_id = PStr name, r_x25519_pub = PStr (hex pub), r_ed25519_pub = dgetn rp ''ed25519_pub'', r_p256_pub = PNone\<rparr>
             (PStr (sa_registry_url a)) (PStr (sa_content_type a)) PNone PNone (str_val ''GLOBAL''))
        \<lparr>m_canonical_content_hash := PStr (content_hash canonical_plaintext), m_l3_policy := l3,
         m_watermarks := mk_refs mk,
         m_beacons := PList (map (\<lambda>b. PDict (beacon_to_dict b)) (gen_beacons (ce_tokens E) (sa_registry_domain a) None))\<rparr>"
    and rid: "rid = PStr name"
  proof (cases "mk_decision mk")
    case None
    then show ?thesis using assms(1,4,6,8)
      by (intro that [of "PDict []"]) (auto simp: copy_manifest_def member_def member_or_none_def manifest_new_def Let_def)
  next
    case (Some d)
    then have "json_ok (PDict (decision_dict d))" using marking_ok [OF assms(3,2)] by simp
    then show ?thesis using assms(1,4,6,8) Some
      by (intro that [of "PDict (decision_dict d)"])
        (auto simp: copy_manifest_def member_def member_or_none_def manifest_new_def Let_def simp del: json_ok.simps)
  qed
  note simps = m manifest_new_def Let_def truthy_def
  show "m_suite m = PStr SUITE_CLASSIC_V1" "m_issuer_ed25519_pub m = PStr (hex ipub)"
    "m_content_hash m = PStr (content_hash (mk_plaintext mk))" "m_size_bytes m = PInt (int (length (mk_plaintext mk)))"
    "\<exists>r. m_recipient m = Some r \<and> r_x25519_pub r = PStr (hex pub)"
    "m_policy m = PDict [(key ''registry_url'', PStr (sa_registry_url a)), (key ''jurisdiction'', str_val ''GLOBAL'')]"
    "m_file_id m = PStr (ce_uuid E)" "rid = PStr name" "m_watermarks m = mk_refs mk"
    using rid by (simp_all add: simps)
  have refs: "list_all (\<lambda>w. json_ok (PDict (watermark_dict w)) \<and> w_layer w \<noteq> PNone \<and> w_mark_id w \<noteq> PNone) (mk_refs mk)"
    using marking_ok [OF assms(3,2)] by (fastforce simp: list_all_iff watermark_dict_def)
  have beacons: "json_ok (m_beacons m)"
    using beacons_ok [of "sa_registry_domain a" "ce_tokens E"] assms(2) by (simp add: m args_ok_def del: json_ok.simps)
  show "manifest_ok m"
    unfolding manifest_ok_def asdict_json_ok asdict_non_null
    using refs beacons l3 assms(2,5,7)
    by (auto simp: simps args_ok_def recipient_dict_def str_val_def non_null_def content_hash_def SUITE_CLASSIC_V1_def
        scalar_str_Nil list_all_iff)
qed

section \<open>Sealing and opening through the file system\<close>

definition temp_of :: "os \<Rightarrow> path \<Rightarrow> path" where
  "temp_of os p = os_temp os (path_parent p) (46 # SafeIo.path_name p @ [46])"

text \<open>\<open>mkstemp\<close> names another file of the directory, and none of the files in \<open>P\<close>.\<close>

definition temps_apart :: "os \<Rightarrow> path set \<Rightarrow> bool" where
  "temps_apart os P \<longleftrightarrow> (\<forall>p. p \<noteq> [] \<longrightarrow> temp_beside (temp_of os p) p \<and> temp_of os p \<notin> P)"

lemma write_text_done:
  assumes "atomic_write_text os p t mode h = (h', Inr ())" "h \<noteq> []" "temps_apart os P" "p \<noteq> []"
  shows "h' \<noteq> [] \<and> (\<exists>b. utf8_encode t = Inr b \<and> hd h' p = Some (File b (target_mode os mode)))
    \<and> (\<forall>q b k. q \<noteq> p \<longrightarrow> q \<in> P \<longrightarrow> (hd h' q = Some (File b k) \<longleftrightarrow> hd h q = Some (File b k)))"
proof -
  obtain b where b: "utf8_encode t = Inr b" "atomic_write_bytes os p b mode h = (h', Inr ())"
    using assms(1) by (auto simp: atomic_write_text_def split: sum.splits)
  have t: "temp_beside (temp_of os p) p" "\<And>q. q \<in> P \<Longrightarrow> q \<noteq> temp_of os p"
    using assms(3,4) by (auto simp: temps_apart_def)
  from write_done [OF b(2) assms(2) t(1) [unfolded temp_of_def]] show ?thesis
    using b(1) t(2) unfolding temp_of_def by blast
qed

lemma json_suffix:
  assumes "name = stem @ u ''.fingerprint.json'' \<or> name = stem @ u ''.pub.json''"
  shows "length (name_suffix name) = 5"
  using assms by (auto simp: name_suffix_def u_def)

lemma with_suffix_other:
  assumes "with_suffix p sfx = Inr q" "sfx = u ''.fingerprint.json'' \<or> sfx = u ''.pub.json''"
  shows "q \<noteq> [] \<and> q \<noteq> p"
proof -
  let ?name = "SafeIo.path_name p"
  have q: "?name \<noteq> []" "q = butlast p @ [name_stem ?name @ sfx]"
    using assms(1) by (auto simp: with_suffix_def split: if_splits)
  have "?name \<noteq> name_stem ?name @ sfx"
  proof
    assume e: "?name = name_stem ?name @ sfx"
    then have "length (name_suffix ?name) = 5" using assms(2) json_suffix [of ?name "name_stem ?name"] by blast
    then have "length (name_stem ?name) = length ?name - 5" by (simp add: name_stem_def)
    moreover have "length sfx = 17 \<or> length sfx = 9" using assms(2) by (auto simp: u_def)
    ultimately show False using arg_cong [OF e, of length] by auto
  qed
  then have "q \<noteq> p" using q by (metis SafeIo.path_name_def last_snoc)
  then show ?thesis using q(2) by simp
qed

lemma seal_written:
  assumes "cmd_seal E a h = (h1, Done (c, reg))" "h \<noteq> []" "temps_apart (ce_os E) {sa_out a}" "sa_out a \<noteq> []"
  shows "seal_copy E a (hd h) = Inr (Some c) \<and> h1 \<noteq> [] \<and> hd h1 (sa_out a) = Some (File (cp_blob c) 384)"
proof -
  have c: "seal_copy E a (hd h) = Inr (Some c)"
    using assms(1) by (cases "seal_copy E a (hd h)" rule: outcome_of.cases) (auto simp: cmd_seal_def split: sum.splits prod.splits)
  obtain h0 where w: "atomic_write_bytes (ce_os E) (sa_out a) (cp_blob c) None h = (h0, Inr ())"
      "write_fingerprint (ce_os E) (sa_out a) c h0 = (h1, Inr ())"
    using assms(1) c by (auto simp: cmd_seal_def split: sum.splits prod.splits)
  have t: "temp_beside (temp_of (ce_os E) (sa_out a)) (sa_out a)" using assms(3,4) by (simp add: temps_apart_def)
  have 0: "h0 \<noteq> []" "hd h0 (sa_out a) = Some (File (cp_blob c) 384)"
    using write_done [OF w(1) assms(2) t [unfolded temp_of_def]] by (simp_all add: target_mode_def)
  show ?thesis
  proof (cases "cp_fingerprint c")
    case None
    then show ?thesis using c 0 w(2) by (simp add: write_fingerprint_def)
  next
    case (Some fp)
    then obtain p t where p: "with_suffix (sa_out a) (u ''.fingerprint.json'') = Inr p"
        "atomic_write_text (ce_os E) p t None h0 = (h1, Inr ())"
      using w(2) by (auto simp: write_fingerprint_def ebind_eq_Inr split: sum.splits)
    note other = with_suffix_other [OF p(1) disjI1 [OF refl]]
    then show ?thesis using write_text_done [OF p(2) 0(1) assms(3)] c 0(2) by auto
  qed
qed

text \<open>
  The fingerprint file is written without the checks the other outputs pass: a file of that name, were
  it a private key or the input itself, is replaced.
\<close>

lemma fingerprint_overwrites:
  assumes "cmd_seal E a h = (h1, Done (c, reg))" "h \<noteq> []" "temps_apart (ce_os E) {}" "sa_out a \<noteq> []"
    and "cp_fingerprint c = Some fp" "with_suffix (sa_out a) (u ''.fingerprint.json'') = Inr p"
  shows "\<exists>t b. json_dumps_indent (PDict (fingerprint_record c fp)) = Inr t \<and> utf8_encode t = Inr b \<and> hd h1 p = Some (File b 384)"
proof -
  obtain h0 where w: "atomic_write_bytes (ce_os E) (sa_out a) (cp_blob c) None h = (h0, Inr ())"
      "write_fingerprint (ce_os E) (sa_out a) c h0 = (h1, Inr ())"
    using assms(1) by (cases "seal_copy E a (hd h)" rule: outcome_of.cases)
      (auto simp: cmd_seal_def split: sum.splits prod.splits)
  have "temp_beside (temp_of (ce_os E) (sa_out a)) (sa_out a)" using assms(3,4) by (simp add: temps_apart_def)
  then have "h0 \<noteq> []" using write_done [OF w(1) assms(2)] by (simp add: temp_of_def)
  moreover obtain t where "json_dumps_indent (PDict (fingerprint_record c fp)) = Inr t" "atomic_write_text (ce_os E) p t None h0 = (h1, Inr ())"
    using w(2) assms(5,6) by (auto simp: write_fingerprint_def ebind_eq_Inr split: sum.splits)
  moreover have "p \<noteq> []" using with_suffix_other [OF assms(6)] by simp
  ultimately show ?thesis using write_text_done [OF _ _ assms(3)] by (fastforce simp: target_mode_def)
qed

lemma seal_copy_parts:
  assumes "seal_copy E a fs = Inr (Some c)"
  obtains plaintext issuer rec_pub where
    "read_bytes (ce_os E) fs (sa_input a) = Inr plaintext"
    "read_json (ce_os E) fs (sa_issuer_key a) = Inr issuer"
    "read_json (ce_os E) fs (sa_recipient_pub a) = Inr rec_pub"
    "mark_plaintext E a plaintext = Inr (Some (cp_marking c))"
    "build_copy E a issuer rec_pub plaintext (cp_marking c) = Inr c"
proof -
  have "build_copy E a issuer rec_pub plaintext mk = Inr c \<Longrightarrow> cp_marking c = mk" for issuer rec_pub plaintext mk
    by (auto simp: build_copy_def ebind_eq_Inr Let_def)
  then show ?thesis
    using assms that by (fastforce simp: seal_copy_def ebind_eq_Inr split: option.splits)
qed

lemma build_copy_parts:
  assumes "build_copy E a issuer rec_pub plaintext mk = Inr c"
  obtains m isk rpk where
    "copy_manifest E a issuer rec_pub plaintext mk = Inr (m, cp_recipient_id c)"
    "ebind (member issuer ''ed25519_priv'') py_fromhex = Inr isk"
    "ebind (member rec_pub ''x25519_pub'') py_fromhex = Inr rpk"
    "seal (ce_crypto E) (ce_eph E) (ce_wrap_nonce E) (ce_dek E) (ce_nonce E) (mk_plaintext mk) m isk rpk
      = (cp_manifest c, Inr (cp_blob c))"
  using assms by (auto simp: build_copy_def Let_def ebind_eq_Inr prod_eq_iff)

lemma open_any_issuer: "open_checked C now blob sk (Some T) ctx = Inr x \<Longrightarrow> open_checked C now blob sk None ctx = Inr x"
  by (auto simp: open_checked_def Let_def ebind_eq_Inr trusted_def)

lemma plain_policy_passes:
  assumes "m_policy m = PDict [(key ''registry_url'', PStr url), (key ''jurisdiction'', v)]"
  shows "check_policy now (norm_manifest m) None = Inr ()"
proof -
  let ?p = "[(key ''registry_url'', PStr url), (key ''jurisdiction'', v)]"
  obtain d where d: "clean (PDict ?p) = PDict d" using clean_PDict by blast
  then have "policy_of (norm_manifest m) = Inr d" using assms by (auto simp: policy_of_def truthy_def norm_manifest_def)
  moreover have "dgetn d ''not_after'' = PNone" "dgetn d ''not_before'' = PNone"
    using clean_dict_get(1) [OF _ d] by (simp_all add: dgetn_def dgetd_def)
  ultimately show ?thesis by (simp add: check_policy_def)
qed

lemma sign_policy: "sign C sk m = Inr m' \<Longrightarrow> m_policy m' = m_policy m"
  by (auto simp: sign_def ebind_eq_Inr)

lemma copy_opens:
  assumes crypto: "sig_correct (ce_crypto E)" "dh_correct (ce_crypto E)" "aead_correct (ce_crypto E)"
    and draws: "length (ce_eph E) = 32" "length (ce_wrap_nonce E) = 24" "length (ce_dek E) = 32" "length (ce_nonce E) = 24"
    and keys: "length isk = 32" "length rsk = 32"
    and c: "seal_copy E a fs = Inr (Some c)" "args_ok E a"
    and issuer: "read_json (ce_os E) fs (sa_issuer_key a) = Inr (PDict ik)"
      "ditem ik ''ed25519_priv'' = Inr (PStr (hex isk))" "ditem ik ''ed25519_pub'' = Inr (PStr (hex (ed_pub (ce_crypto E) isk)))"
    and recipient: "read_json (ce_os E) fs (sa_recipient_pub a) = Inr (PDict rp)"
      "ditem rp ''id'' = Inr (PStr name)" "scalar_str name"
      "ditem rp ''x25519_pub'' = Inr (PStr (hex (x_pub (ce_crypto E) rsk)))" "json_ok (dgetn rp ''ed25519_pub'')"
    and small: "length (mk_plaintext (cp_marking c)) + 16 < 4294967296"
      "\<And>mj. to_json (cp_manifest c) = Inr mj \<Longrightarrow> length mj \<le> MAX_MANIFEST_BYTES"
  shows "open_checked (ce_crypto E) now (cp_blob c) rsk None None
      = Inr (mk_plaintext (cp_marking c), norm_manifest (cp_manifest c))"
proof -
  obtain plaintext where s: "mark_plaintext E a plaintext = Inr (Some (cp_marking c))"
      "build_copy E a (PDict ik) (PDict rp) plaintext (cp_marking c) = Inr c"
    using c(1) issuer(1) recipient(1) by (auto elim: seal_copy_parts)
  then obtain m isk' rpk where b: "copy_manifest E a (PDict ik) (PDict rp) plaintext (cp_marking c) = Inr (m, cp_recipient_id c)"
      "ebind (member (PDict ik) ''ed25519_priv'') py_fromhex = Inr isk'"
      "ebind (member (PDict rp) ''x25519_pub'') py_fromhex = Inr rpk"
      "seal (ce_crypto E) (ce_eph E) (ce_wrap_nonce E) (ce_dek E) (ce_nonce E) (mk_plaintext (cp_marking c)) m isk' rpk
        = (cp_manifest c, Inr (cp_blob c))"
    by (auto elim: build_copy_parts)
  have k: "isk' = isk" "rpk = x_pub (ce_crypto E) rsk"
    using b(2,3) issuer(2) recipient(4) by (simp_all add: member_def)
  have ipub: "member (PDict ik) ''ed25519_pub'' = Inr (PStr (hex (ed_pub (ce_crypto E) isk)))"
    using issuer(3) by (simp add: member_def)
  note m = copy_manifest_ok [OF b(1) c(2) s(1) recipient(2,3,4,5) ipub]
  obtain r where r: "m_recipient m = Some r" "r_x25519_pub r = PStr (hex (x_pub (ce_crypto E) rsk))" using m(6) by blast
  have signed: "sign (ce_crypto E) isk m = Inr (cp_manifest c)"
    using b(4) k by (auto simp: seal_def split: sum.splits)
  then have "m_policy (cp_manifest c) = m_policy m" by (rule sign_policy)
  then have p: "check_policy now (norm_manifest (cp_manifest c)) None = Inr ()" using plain_policy_passes m(7) by simp
  have "open_checked (ce_crypto E) now (cp_blob c) rsk (Some {hex (ed_pub (ce_crypto E) isk)}) None
      = Inr (mk_plaintext (cp_marking c), norm_manifest (cp_manifest c))"
    using seal_opens [OF crypto keys draws m(1-5) r small(1)] small(2) signed b(4) p unfolding k by fastforce
  then show ?thesis by (rule open_any_issuer)
qed

text \<open>
  C8: what the command line seals, the recipient's command line opens. When \<open>cmd_seal\<close> has returned
  \<open>Done\<close>, the output file is there, whatever fingerprint file was written behind it; and when the
  recipient whose public key was named runs \<open>cmd_open\<close> on it, with the private key file and an output
  path that passes the checks, then the output is exactly the marked text that was sealed and the
  manifest is the signed one. Only the disk can then make the command fail.
\<close>

theorem cli_seal_then_open:
  assumes "sig_correct (ce_crypto E)" "dh_correct (ce_crypto E)" "aead_correct (ce_crypto E)"
    and "length (ce_eph E) = 32" "length (ce_wrap_nonce E) = 24" "length (ce_dek E) = 32" "length (ce_nonce E) = 24"
    and "length isk = 32" "length rsk = 32"
    and sealed: "cmd_seal E a h = (h1, Done (c, reg))" "h \<noteq> []" "args_ok E a" "sa_out a \<noteq> []"
      "temps_apart (ce_os E) {sa_out a}"
    and "read_json (ce_os E) (hd h) (sa_issuer_key a) = Inr (PDict ik)"
      "ditem ik ''ed25519_priv'' = Inr (PStr (hex isk))" "ditem ik ''ed25519_pub'' = Inr (PStr (hex (ed_pub (ce_crypto E) isk)))"
    and "read_json (ce_os E) (hd h) (sa_recipient_pub a) = Inr (PDict rp)"
      "ditem rp ''id'' = Inr (PStr name)" "scalar_str name"
      "ditem rp ''x25519_pub'' = Inr (PStr (hex (x_pub (ce_crypto E) rsk)))" "json_ok (dgetn rp ''ed25519_pub'')"
    and "length (mk_plaintext (cp_marking c)) + 16 < 4294967296"
      "\<And>mj. to_json (cp_manifest c) = Inr mj \<Longrightarrow> length mj \<le> MAX_MANIFEST_BYTES"
    and reader: "ce_crypto E' = ce_crypto E" "os_fail (ce_os E') (ReadFile (sa_out a)) = None"
      "read_json (ce_os E') (hd h1) idp = Inr (PDict ident)" "ditem ident ''x25519_priv'' = Inr (PStr (hex rsk))"
      "validate_output_path (ce_ucd E') (ce_os E') (hd h1) plain [sa_out a, idp] False True = Inr ()"
    and run: "cmd_open E' (sa_out a) idp plain h1 = (h2, r)" "plain \<noteq> []" "temps_apart (ce_os E') {}"
  shows "hd h1 (sa_out a) = Some (File (cp_blob c) 384)
    \<and> (if snd (atomic_write_bytes (ce_os E') plain (mk_plaintext (cp_marking c)) None h1) = Inr ()
       then r = Done (norm_manifest (cp_manifest c)) \<and> hd h2 plain = Some (File (mk_plaintext (cp_marking c)) 384)
       else \<exists>e. r = Raised e)"
proof -
  note w = seal_written [OF sealed(1,2,5,4)]
  have "open_checked (ce_crypto E) (ce_now E') (cp_blob c) rsk None None
      = Inr (mk_plaintext (cp_marking c), norm_manifest (cp_manifest c))"
    by (rule copy_opens) (use assms w in blast)+
  then have "opened E' (hd h1) (sa_out a) idp plain = Inr (mk_plaintext (cp_marking c), norm_manifest (cp_manifest c))"
    using w reader by (simp add: opened_def read_bytes_def member_def open_sealed_def record_open_def)
  then have o: "cmd_open E' (sa_out a) idp plain h1 =
      (case atomic_write_bytes (ce_os E') plain (mk_plaintext (cp_marking c)) None h1 of
         (h2, Inl e) \<Rightarrow> (h2, Raised e) | (h2, Inr _) \<Rightarrow> (h2, Done (norm_manifest (cp_manifest c))))"
    by (simp add: cmd_open_def)
  have t: "temp_beside (temp_of (ce_os E') plain) plain" using run(2,3) by (simp add: temps_apart_def)
  show ?thesis
  proof (cases "snd (atomic_write_bytes (ce_os E') plain (mk_plaintext (cp_marking c)) None h1)")
    case (Inr x)
    then have "atomic_write_bytes (ce_os E') plain (mk_plaintext (cp_marking c)) None h1 = (h2, Inr ())"
      using o run(1) by (cases "atomic_write_bytes (ce_os E') plain (mk_plaintext (cp_marking c)) None h1") auto
    then show ?thesis using write_done [OF _ _ t [unfolded temp_of_def]] w o run(1) by (auto simp: target_mode_def)
  next
    case (Inl e)
    then show ?thesis using o run(1) w
      by (cases "atomic_write_bytes (ce_os E') plain (mk_plaintext (cp_marking c)) None h1") auto
  qed
qed

section \<open>A concrete run\<close>

lemma json_file:
  assumes "json_ok (PDict d)"
  shows "\<exists>b. \<forall>os fs p m. fs p = Some (File b m) \<longrightarrow> os_fail os (ReadFile p) = None \<longrightarrow> read_json os fs p = Inr (PDict d)"
proof -
  obtain t where t: "json_dumps_indent (PDict d) = Inr t" using json_dumps_indent_ok [OF assms] by blast
  then have "\<forall>x\<in>set t. is_scalar x" using json_indent_scalar
    by (auto simp: json_dumps_indent_def simp del: json_indent.simps split: if_splits)
  then obtain b where "utf8_encode t = Inr b" using utf8_encode_ok_iff [of t] by (auto simp: is_ok_ex)
  then show ?thesis using read_private_json [OF assms t] unfolding read_json_def by blast
qed

lemma sample_write:
  assumes "fs [n] = None" "fs [46 # n @ 46 # u ''x.tmp''] = None" "fs [] = None \<or> fs [] = Some Dir"
    and "mode = None \<or> mode = Some 384"
  shows "\<exists>h. atomic_write_bytes (sample_os (\<lambda>_. None)) [n] data mode [fs] = (h, Inr ()) \<and> h \<noteq> []
    \<and> hd h = fs([] \<mapsto> Dir, [n] \<mapsto> File data 384)"
proof -
  have m: "mkdir_parents [] fs = fs([] \<mapsto> Dir)" using assms(3) by (auto simp: mkdir_parents_def prefixed_def fun_eq_iff)
  have ne: "n \<noteq> 46 # n @ 46 # u ''x.tmp''"
  proof
    assume "n = 46 # n @ 46 # u ''x.tmp''"
    then have "length n = length (46 # n @ 46 # u ''x.tmp'')" by (rule arg_cong)
    then show False by simp
  qed
  show ?thesis
    using assms ne
    by (auto simp: atomic_write_bytes_def Let_def sample_os_def path_parent_def SafeIo.path_name_def sys_def
        call_refused_def call_effect_def m write_calls_def set_content_def path_exists_def is_file_def fun_eq_iff)
qed

lemma toy_size:
  assumes "sign toy_ops sk m = Inr m'" "to_json m' = Inr mj" "manifest_ok m" "unsigned m = m\<lparr>m_signature_ed25519 := PStr (hex [])\<rparr>"
    and size: "\<And>sg. json_size (PDict (asdict (m\<lparr>m_signature_ed25519 := PStr (hex sg)\<rparr>))) \<le> k + 12 * length sg"
  shows "length mj \<le> 4 * (k + 12 * (1 + length sk + 4 * k))"
proof -
  obtain bs where bs: "canonical_bytes m = Inr bs" "m' = m\<lparr>m_signature_ed25519 := PStr (hex (1 # sk @ bs))\<rparr>"
    using assms(1) by (auto simp: sign_def sign_manifest_def toy_ops_def ebind_eq_Inr guard_def split: if_splits)
  have "length bs \<le> 4 * json_size (strip_none (PDict (asdict (unsigned m))))"
    using bs(1) jcs_size [OF json_ok_asdict [OF manifest_ok_unsigned [OF assms(3)]]]
    by (simp only: canonical_bytes_def to_dict_False)
  then have b: "length bs \<le> 4 * k"
    using json_size_strip [of "PDict (asdict (unsigned m))"] size [of "[]"] unfolding assms(4) by simp
  have ok: "manifest_ok m'" unfolding bs(2) by (rule manifest_ok_sign [OF assms(3)])
  have "length mj \<le> 4 * json_size (strip_none (PDict (asdict m')))"
    using assms(2) jcs_size [OF json_ok_asdict [OF ok]] by (simp only: to_json_def to_dict_True)
  then have "length mj \<le> 4 * (k + 12 * length (1 # sk @ bs))"
    using json_size_strip [of "PDict (asdict m')"] size [of "1 # sk @ bs"] unfolding bs(2) by simp
  then show ?thesis using b by simp
qed

definition sample_env :: cli_env where
  "sample_env =
     \<lparr>ce_os = sample_os (\<lambda>_. None), ce_ucd = ascii_ucd, ce_crypto = toy_ops, ce_now = 5, ce_mark = replicate 8 90,
      ce_uuid = u ''f'', ce_tokens = (\<lambda>_. replicate 16 1), ce_eph = replicate 32 1, ce_wrap_nonce = replicate 24 2,
      ce_dek = replicate 32 4, ce_nonce = replicate 24 5, ce_answer = None\<rparr>"

definition sample_args :: seal_args where
  "sample_args =
     \<lparr>sa_input = [u ''in''], sa_input_arg = u ''in'', sa_issuer_key = [u ''i''], sa_recipient_pub = [u ''r''],
      sa_out = [u ''o''], sa_issuer_id = u ''acme'', sa_registry_url = u ''https://r'', sa_registry_domain = u ''r'',
      sa_content_type = u ''text/plain'', sa_watermark = True, sa_l3_mode = u ''auto'', sa_l3_ack = False,
      sa_document_class = u ''auto'', sa_register = None\<rparr>"

theorem unacknowledged_wording_kept_witness:
  "\<exists>mk t. mark_plaintext sample_env (sample_args\<lparr>sa_l3_mode := u ''off''\<rparr>) [97, 32, 10] = Inr (Some mk)
     \<and> utf8_decode (mk_plaintext mk) = Inr t \<and> seen_lines t = seen_lines [97, 32, 10]"
proof -
  let ?a = "sample_args\<lparr>sa_l3_mode := u ''off''\<rparr>"
  have d: "utf8_decode [97, 32, 10] = Inr [97, 32, 10]" "zw_free [97, 32, 10]"
    by (simp_all add: utf8_decode.simps utf8_step_def zw_free_def ZW_SPACE_def ZW_NONJOIN_def ZW_JOIN_def)
  have l3: "\<not> l3_enabled (decide_l3 U f c doc k (u ''off''))" for U f c doc k
    by (simp add: decide_l3_def L3Decision_def Let_def split: prod.split)
  obtain t data where t: "embed_zw (embed_ws [97, 32, 10] (ce_mark sample_env)) (ce_mark sample_env) 40 = Inr t"
      "utf8_encode t = Inr data"
    using marked_encodes [OF d(2), of "ce_mark sample_env"] by (auto simp: scalar_below)
  have "\<exists>mk. mark_plaintext sample_env ?a [97, 32, 10] = Inr (Some mk)"
    unfolding mark_plaintext_def d sum.case Let_def using l3 by (simp add: t sample_args_def)
  then obtain mk where mk: "mark_plaintext sample_env ?a [97, 32, 10] = Inr (Some mk)" ..
  then show ?thesis
    using unacknowledged_wording_kept [OF mk d] by (simp add: sample_args_def sample_env_def confirm_l3_def)
qed

definition issuer_keys :: pydict where
  "issuer_keys = identity_dict None (identity_generate toy_ops (replicate 32 9) (replicate 32 7))"

definition recipient_keys :: pydict where
  "recipient_keys = identity_dict None (identity_generate toy_ops (replicate 32 3) (replicate 32 6))"

definition sample_marking :: marking where
  "sample_marking = \<lparr>mk_plaintext = [255], mk_refs = [], mk_decision = None\<rparr>"

lemma keys_json: "json_ok (PDict issuer_keys)" "json_ok (PDict recipient_keys)" "json_ok (PDict (public_dict recipient_keys))"
  by (simp_all add: issuer_keys_def recipient_keys_def identity_dict_def identity_generate_def public_dict_def)

lemma keys_members:
  "ditem issuer_keys ''ed25519_priv'' = Inr (PStr (hex (replicate 32 7)))"
  "ditem issuer_keys ''ed25519_pub'' = Inr (PStr (hex (ed_pub toy_ops (replicate 32 7))))"
  "ditem (public_dict recipient_keys) ''id'' = Inr (PStr (u ''identity''))"
  "ditem (public_dict recipient_keys) ''x25519_pub'' = Inr (PStr (hex (x_pub toy_ops (replicate 32 3))))"
  "dgetn (public_dict recipient_keys) ''ed25519_pub'' = PStr (hex (replicate 32 6))"
  "ditem recipient_keys ''x25519_priv'' = Inr (PStr (hex (replicate 32 3)))"
  by (simp_all add: issuer_keys_def recipient_keys_def identity_dict_def identity_generate_def public_dict_def toy_ops_def)

lemma sample_marked: "mark_plaintext sample_env sample_args [255] = Inr (Some sample_marking)"
  by (simp add: mark_plaintext_def sample_marking_def utf8_decode.simps utf8_step_def)

definition sample_copy_manifest :: manifest where
  "sample_copy_manifest =
     fst (projr (copy_manifest sample_env sample_args (PDict issuer_keys) (PDict (public_dict recipient_keys)) [255] sample_marking))"

lemma sample_copied:
  "copy_manifest sample_env sample_args (PDict issuer_keys) (PDict (public_dict recipient_keys)) [255] sample_marking
    = Inr (sample_copy_manifest, PStr (u ''identity''))"
  by (simp add: sample_copy_manifest_def copy_manifest_def member_def member_or_none_def keys_members Let_def)

lemma sample_args_ok: "args_ok sample_env sample_args"
  by (simp add: args_ok_def sample_env_def sample_args_def SafeIo.path_name_def)

lemma sample_copy_size:
  "json_size (PDict (asdict (sample_copy_manifest\<lparr>m_signature_ed25519 := PStr (hex sg)\<rparr>))) \<le> 12000 + 12 * length sg"
  unfolding sample_copy_manifest_def copy_manifest_def member_def member_or_none_def keys_members
  by (simp add: keys_members Let_def sample_marking_def manifest_new_def truthy_def
      sample_env_def sample_args_def asdict_def recipient_dict_def str_val_def content_hash_def key_text_def key_def
      SUITE_CLASSIC_V1_def toy_ops_def int_str_def nat_digits.simps [of 5] nat_digits.simps [of 1] nat_digits.simps [of "Suc 0"] SafeIo.path_name_def
      gen_beacons_def all_kinds_def beacon_of_kind_def beacon_to_dict_def token_hex_def opt_val_def u_def)

lemma sample_env_simps:
  "ce_os sample_env = sample_os (\<lambda>_. None)" "ce_ucd sample_env = ascii_ucd" "ce_crypto sample_env = toy_ops"
  "ce_eph sample_env = replicate 32 1" "ce_wrap_nonce sample_env = replicate 24 2" "ce_dek sample_env = replicate 32 4"
  "ce_nonce sample_env = replicate 24 5"
  by (simp_all add: sample_env_def)

lemma sample_args_simps:
  "sa_input sample_args = [u ''in'']" "sa_issuer_key sample_args = [u ''i'']" "sa_recipient_pub sample_args = [u ''r'']"
  "sa_out sample_args = [u ''o'']" "sa_register sample_args = None"
  by (simp_all add: sample_args_def)

lemma sample_built:
  "\<exists>c. build_copy sample_env sample_args (PDict issuer_keys) (PDict (public_dict recipient_keys)) [255] sample_marking = Inr c
     \<and> cp_marking c = sample_marking \<and> cp_fingerprint c = None
     \<and> (\<forall>mj. to_json (cp_manifest c) = Inr mj \<longrightarrow> length mj \<le> MAX_MANIFEST_BYTES)"
proof -
  have member: "member (PDict issuer_keys) ''ed25519_pub'' = Inr (PStr (hex (ed_pub toy_ops (replicate 32 7))))"
    using keys_members by (simp add: member_def)
  note m = copy_manifest_ok [OF sample_copied sample_args_ok sample_marked keys_members(3) scalar_str_u keys_members(4) _ member]
  have ed: "json_ok (dgetn (public_dict recipient_keys) ''ed25519_pub'')" using keys_members by simp
  obtain r where r: "m_recipient sample_copy_manifest = Some r" "r_x25519_pub r = PStr (hex (x_pub toy_ops (replicate 32 3)))"
    using m(6) [OF ed] by blast
  have uns: "unsigned sample_copy_manifest = sample_copy_manifest\<lparr>m_signature_ed25519 := PStr (hex [])\<rparr>"
    by (simp add: sample_copy_manifest_def copy_manifest_def member_def member_or_none_def keys_members Let_def
        unsigned_def manifest_new_def str_val_def hex_def)
  have size: "length mj \<le> MAX_MANIFEST_BYTES"
    if "sign toy_ops (replicate 32 7) sample_copy_manifest = Inr m'" "to_json m' = Inr mj" for m' mj
    using toy_size [OF that m(1) [OF ed] uns sample_copy_size] by (simp add: MAX_MANIFEST_BYTES_def)
  have plain: "mk_plaintext sample_marking = [255]" by (simp add: sample_marking_def)
  obtain m' blob where s: "seal toy_ops (replicate 32 1) (replicate 24 2) (replicate 32 4) (replicate 24 5) [255]
      sample_copy_manifest (replicate 32 7) (x_pub toy_ops (replicate 32 3)) = (m', Inr blob)"
      "sign toy_ops (replicate 32 7) sample_copy_manifest = Inr m'"
    using seal_opens [OF toy_ops_correct(1-3), where m = sample_copy_manifest and isk = "replicate 32 7"
        and rsk = "replicate 32 3" and eph = "replicate 32 1" and wrap_nonce = "replicate 24 2"
        and dek = "replicate 32 4" and nonce = "replicate 24 5" and plaintext = "[255]" and r = r,
        OF _ _ _ _ _ _ m(1) [OF ed] m(2) [OF ed] m(3) [OF ed] m(4) [OF ed, unfolded plain] m(5) [OF ed, unfolded plain] r _ size]
    by fastforce
  have "copy_fingerprint ascii_ucd [255] = Inr None" by (simp add: copy_fingerprint_def utf8_decode.simps utf8_step_def)
  then have "build_copy sample_env sample_args (PDict issuer_keys) (PDict (public_dict recipient_keys)) [255] sample_marking
      = Inr \<lparr>cp_manifest = m', cp_recipient_id = PStr (u ''identity''), cp_marking = sample_marking, cp_fingerprint = None, cp_blob = blob\<rparr>"
    using s(1) keys_members by (simp add: build_copy_def sample_copied member_def sample_env_simps plain Let_def)
  then show ?thesis using size [OF s(2)] by auto
qed

lemma letter_not_reserved: "c \<in> {111, 112} \<Longrightarrow> \<not> is_windows_reserved_path ascii_ucd [[c]]"
proof -
  assume c: "c \<in> {111, 112}"
  then have r: "rstrip_chars (u '' .'') [c] = [c]" "split_on 46 [c] = [[c]]" by (auto simp: rstrip_chars_def u_def)
  have "length (py_upper ascii_ucd [c]) = 1" using c by (auto simp: py_upper_def ascii_ucd_def)
  moreover have "\<forall>x\<in>set windows_reserved_names. 3 \<le> length x" by (auto simp: windows_reserved_names_def u_def)
  ultimately have "py_upper ascii_ucd [c] \<notin> set windows_reserved_names" by auto
  then show ?thesis using c by (auto simp: is_windows_reserved_path_def SafeIo.path_name_def r)
qed

text \<open>The sealed file of the sample, and the file system behind the sealing\<close>

lemma sample_run:
  "\<exists>fs h1 c. cmd_seal sample_env sample_args [fs] = (h1, Done (c, None)) \<and> cp_marking c = sample_marking
     \<and> (\<forall>mj. to_json (cp_manifest c) = Inr mj \<longrightarrow> length mj \<le> MAX_MANIFEST_BYTES)
     \<and> read_json (sample_os (\<lambda>_. None)) fs [u ''i''] = Inr (PDict issuer_keys)
     \<and> read_json (sample_os (\<lambda>_. None)) fs [u ''r''] = Inr (PDict (public_dict recipient_keys))
     \<and> read_json (sample_os (\<lambda>_. None)) (hd h1) [u ''k''] = Inr (PDict recipient_keys)
     \<and> h1 \<noteq> [] \<and> hd h1 [u ''p''] = None \<and> hd h1 [46 # u ''p'' @ 46 # u ''x.tmp''] = None \<and> hd h1 [] = Some Dir"
proof -
  obtain bi where bi: "\<And>os fs p m. fs p = Some (File bi m) \<Longrightarrow> os_fail os (ReadFile p) = None \<Longrightarrow> read_json os fs p = Inr (PDict issuer_keys)"
    using json_file [OF keys_json(1)] by blast
  obtain br where br: "\<And>os fs p m. fs p = Some (File br m) \<Longrightarrow> os_fail os (ReadFile p) = None
      \<Longrightarrow> read_json os fs p = Inr (PDict (public_dict recipient_keys))"
    using json_file [OF keys_json(3)] by blast
  obtain bk where bk: "\<And>os fs p m. fs p = Some (File bk m) \<Longrightarrow> os_fail os (ReadFile p) = None \<Longrightarrow> read_json os fs p = Inr (PDict recipient_keys)"
    using json_file [OF keys_json(2)] by blast
  let ?fs = "Map.empty([u ''in''] \<mapsto> File [255] 420, [u ''i''] \<mapsto> File bi 420, [u ''r''] \<mapsto> File br 420, [u ''k''] \<mapsto> File bk 384)"
  let ?os = "sample_os (\<lambda>_. None)"
  have ok: "os_fail ?os c = None" for c by (simp add: sample_os_def)
  have names: "u ''o'' = [111]" "u ''in'' = [105, 110]" "u ''i'' = [105]" "u ''r'' = [114]" "u ''k'' = [107]" "u ''p'' = [112]"
    by (simp_all add: u_def)
  have i: "read_json ?os ?fs [u ''i''] = Inr (PDict issuer_keys)" "read_json ?os ?fs [u ''r''] = Inr (PDict (public_dict recipient_keys))"
    by (rule bi, simp add: names, rule ok) (rule br, simp add: names, rule ok)
  obtain c where c: "build_copy sample_env sample_args (PDict issuer_keys) (PDict (public_dict recipient_keys)) [255] sample_marking = Inr c"
      "cp_marking c = sample_marking" "cp_fingerprint c = None"
      "\<forall>mj. to_json (cp_manifest c) = Inr mj \<longrightarrow> length mj \<le> MAX_MANIFEST_BYTES"
    using sample_built by blast
  have v: "validate_output_path ascii_ucd ?os ?fs [u ''o''] [[u ''in''], [u ''i''], [u ''r'']] False True = Inr ()"
    using letter_not_reserved [of 111]
    by (simp add: validate_output_path_def sample_os_def SafeIo.path_name_def Let_def names same_path_def is_private_key_file_def path_exists_def)
  have "seal_copy sample_env sample_args ?fs = Inr (Some c)"
    unfolding seal_copy_def using v i c(1) sample_marked
    by (simp add: sample_env_simps sample_args_simps read_bytes_def ok names)
  moreover obtain h1 where h1: "atomic_write_bytes ?os [u ''o''] (cp_blob c) None [?fs] = (h1, Inr ())" "h1 \<noteq> []"
      "hd h1 = ?fs([] \<mapsto> Dir, [u ''o''] \<mapsto> File (cp_blob c) 384)"
    using sample_write [of ?fs "u ''o''" None "cp_blob c"] by (auto simp: names)
  ultimately have "cmd_seal sample_env sample_args [?fs] = (h1, Done (c, None))"
    using c(3) by (simp add: cmd_seal_def sample_env_simps sample_args_simps write_fingerprint_def registration_def)
  moreover have "read_json ?os (hd h1) [u ''k''] = Inr (PDict recipient_keys)"
    by (rule bk, simp add: h1 names, rule ok)
  ultimately show ?thesis using c i h1(2,3) by (intro exI conjI) (assumption | simp add: names)+
qed

lemma sample_temps_apart: "(\<And>q. q \<in> P \<Longrightarrow> q = [[111]]) \<Longrightarrow> temps_apart (sample_os (\<lambda>_. None)) P"
proof -
  assume P: "\<And>q. q \<in> P \<Longrightarrow> q = [[111]]"
  have "temp_of (sample_os (\<lambda>_. None)) p \<noteq> [[111]]" for p
    by (simp add: temp_of_def sample_os_def path_parent_def append_eq_Cons_conv)
  then show ?thesis using P sample_temp unfolding temps_apart_def temp_of_def by metis
qed

theorem cli_seal_then_open_witness:
  "\<exists>fs h1 c h2 m. cmd_seal sample_env sample_args [fs] = (h1, Done (c, None))
     \<and> cmd_open sample_env [u ''o''] [u ''k''] [u ''p''] h1 = (h2, Done m) \<and> hd h2 [u ''p''] = Some (File [255] 384)"
proof -
  obtain fs h1 c where s: "cmd_seal sample_env sample_args [fs] = (h1, Done (c, None))" "cp_marking c = sample_marking"
    "\<And>mj. to_json (cp_manifest c) = Inr mj \<Longrightarrow> length mj \<le> MAX_MANIFEST_BYTES"
    "read_json (sample_os (\<lambda>_. None)) fs [u ''i''] = Inr (PDict issuer_keys)"
    "read_json (sample_os (\<lambda>_. None)) fs [u ''r''] = Inr (PDict (public_dict recipient_keys))"
    "read_json (sample_os (\<lambda>_. None)) (hd h1) [u ''k''] = Inr (PDict recipient_keys)"
    "h1 \<noteq> []" "hd h1 [u ''p''] = None" "hd h1 [46 # u ''p'' @ 46 # u ''x.tmp''] = None" "hd h1 [] = Some Dir"
    using sample_run by blast
  have names: "u ''o'' = [111]" "u ''k'' = [107]" "u ''p'' = [112]" by (simp_all add: u_def)
  obtain h2 r where run: "cmd_open sample_env [u ''o''] [u ''k''] [u ''p''] h1 = (h2, r)" by force
  have plain: "mk_plaintext (cp_marking c) = [255]" by (simp add: s(2) sample_marking_def)
  have v: "validate_output_path ascii_ucd (sample_os (\<lambda>_. None)) (hd h1) [u ''p''] [[u ''o''], [u ''k'']] False True = Inr ()"
    using letter_not_reserved [of 112] s(8)
    by (simp add: validate_output_path_def sample_os_def SafeIo.path_name_def Let_def names same_path_def
        is_private_key_file_def path_exists_def)
  have ok: "os_fail (sample_os (\<lambda>_. None)) x = None" for x by (simp add: sample_os_def)
  have tk: "temps_apart (sample_os (\<lambda>_. None)) {[u ''o'']}" "temps_apart (sample_os (\<lambda>_. None)) {}"
    by (rule sample_temps_apart, simp add: names)+
  have "if snd (atomic_write_bytes (ce_os sample_env) [u ''p''] (mk_plaintext (cp_marking c)) None h1) = Inr ()
       then r = Done (norm_manifest (cp_manifest c)) \<and> hd h2 [u ''p''] = Some (File (mk_plaintext (cp_marking c)) 384)
       else \<exists>e. r = Raised e"
    by (rule conjunct2 [OF cli_seal_then_open [of sample_env "replicate 32 7" "replicate 32 3" sample_args "[fs]" h1 c None issuer_keys
        "public_dict recipient_keys" "u ''identity''" sample_env "[u ''k'']" recipient_keys "[u ''p'']" h2 r]])
      (use toy_ops_correct(1-3) s(1,3-7) sample_args_ok keys_members run v ok tk in
        \<open>simp_all add: sample_env_simps sample_args_simps plain\<close>)
  moreover have "snd (atomic_write_bytes (sample_os (\<lambda>_. None)) [u ''p''] [255] None h1) = Inr ()"
  proof -
    obtain g t where "h1 = g # t" using s(7) by (cases h1) auto
    then show ?thesis
      using sample_write [of g "u ''p''" None "[255]"] s(8,9,10) write_hist [of "sample_os (\<lambda>_. None)" "[u ''p'']" "[255]" None g t]
      by auto
  qed
  ultimately show ?thesis using s(1) run by (auto simp: sample_env_simps plain)
qed

section \<open>Key files\<close>

text \<open>
  C31: key generation. When \<open>cmd_keygen\<close> has returned, the private file reads back, under the bits 600,
  to exactly the identifier, the two drawn private keys and the public key of each, in hex, and no later
  command takes it for an output. The public file is another one beside it; it reads back to exactly the
  identifier and the two public keys, which are those of the drawn private keys, and to nothing else.
\<close>

theorem keygen_identity:
  assumes "cmd_keygen E out name xsk esk h = (h', Done pub)" "h \<noteq> []" "temps_apart (ce_os E) {out}"
    and "os_name (ce_os E) = u ''posix''" "\<And>p. os_fail (ce_os E) (ReadFile p) = None"
    and "case name of Some s \<Rightarrow> scalar_str s | None \<Rightarrow> True"
  defines "ident \<equiv> PStr (case name of Some s \<Rightarrow> if s = [] then u ''identity'' else s | None \<Rightarrow> u ''identity'')"
  shows "pub \<noteq> out \<and> (\<exists>b. hd h' out = Some (File b 384))
    \<and> read_json (ce_os E) (hd h') out = Inr (PDict
        [(key ''id'', ident), (key ''x25519_priv'', PStr (hex xsk)), (key ''x25519_pub'', PStr (hex (x_pub (ce_crypto E) xsk))),
         (key ''ed25519_priv'', PStr (hex esk)), (key ''ed25519_pub'', PStr (hex (ed_pub (ce_crypto E) esk)))])
    \<and> (\<exists>e. validate_output_path U (ce_os E) (hd h') out ps True True = Inl e)
    \<and> read_json (ce_os E) (hd h') pub = Inr (PDict
        [(key ''id'', ident), (key ''x25519_pub'', PStr (hex (x_pub (ce_crypto E) xsk))),
         (key ''ed25519_pub'', PStr (hex (ed_pub (ce_crypto E) esk)))])"
proof -
  define i where "i = identity_generate (ce_crypto E) xsk esk"
  let ?os = "ce_os E" and ?d = "identity_dict name i"
  have dicts: "?d = [(key ''id'', ident), (key ''x25519_priv'', PStr (hex xsk)), (key ''x25519_pub'', PStr (hex (x_pub (ce_crypto E) xsk))),
         (key ''ed25519_priv'', PStr (hex esk)), (key ''ed25519_pub'', PStr (hex (ed_pub (ce_crypto E) esk)))]"
      "public_dict ?d = [(key ''id'', ident), (key ''x25519_pub'', PStr (hex (x_pub (ce_crypto E) xsk))),
         (key ''ed25519_pub'', PStr (hex (ed_pub (ce_crypto E) esk)))]"
    by (simp_all add: identity_dict_def public_dict_def i_def identity_generate_def ident_def)
  have d: "json_ok (PDict ?d)" "json_ok (PDict (public_dict ?d))" "is_private_key_dict (PDict ?d)"
    using assms(6) by (auto simp: identity_dict_def public_dict_def is_private_key_dict_def is_str_def split: option.split)
  obtain h1 acl t where k: "with_suffix out (u ''.pub.json'') = Inr pub" "atomic_write_private_json ?os out ?d h = (h1, Inr acl)"
      "json_dumps_indent (PDict (public_dict ?d)) = Inr t" "atomic_write_text ?os pub t None h1 = (h', Inr ())"
    using assms(1) unfolding i_def
    by (auto simp: cmd_keygen_def Let_def ebind_eq_Inr split: sum.splits prod.splits)
  obtain s where s: "json_dumps_indent (PDict ?d) = Inr s" "atomic_write_text ?os out s (Some 384) h = (h1, Inr ())"
    using k(2) by (auto simp: atomic_write_private_json_def split: sum.splits prod.splits)
  have "out \<noteq> []" using k(1) by (auto simp: with_suffix_def SafeIo.path_name_def)
  then obtain b where b: "h1 \<noteq> []" "utf8_encode s = Inr b" "hd h1 out = Some (File b 384)"
    using write_text_done [OF s(2) assms(2,3)] assms(4) by (auto simp: target_mode_def)
  note other = with_suffix_other [OF k(1) disjI2 [OF refl]]
  then obtain c where c: "utf8_encode t = Inr c" "hd h' pub = Some (File c 384)" "hd h' out = Some (File b 384)"
    using write_text_done [OF k(4) b(1) assms(3)] b(3) by (auto simp: target_mode_def)
  have priv: "read_json ?os (hd h') out = Inr (PDict ?d)"
    unfolding read_json_def by (rule read_private_json [where fs = "hd h'" and p = out, OF d(1) s(1) b(2) c(3) assms(5)])
  have publ: "read_json ?os (hd h') pub = Inr (PDict (public_dict ?d))"
    unfolding read_json_def by (rule read_private_json [where fs = "hd h'" and p = pub, OF d(2) k(3) c(1,2) assms(5)])
  have "is_private_key_file ?os (hd h') out = Inr True"
    using priv c(3) d(3) unfolding read_json_def by (simp add: is_private_key_file_def path_exists_def is_file_def)
  then have "\<exists>e. validate_output_path U ?os (hd h') out ps True True = Inl e"
    by (cases "check_inputs ?os out ps") (auto simp: validate_output_path_def)
  then show ?thesis using priv [unfolded dicts(1)] publ [unfolded dicts(2)] c(3) other by blast
qed

theorem keygen_identity_witness:
  "\<exists>h' pub. cmd_keygen sample_env [u ''o''] None (replicate 32 3) (replicate 32 6) [Map.empty] = (h', Done pub)
     \<and> read_json (sample_os (\<lambda>_. None)) (hd h') [u ''o''] = Inr (PDict recipient_keys)
     \<and> read_json (sample_os (\<lambda>_. None)) (hd h') pub = Inr (PDict [(key ''id'', PStr (u ''identity'')),
         (key ''x25519_pub'', PStr (hex (x_pub toy_ops (replicate 32 3)))), (key ''ed25519_pub'', PStr (hex (ed_pub toy_ops (replicate 32 6))))])"
proof -
  let ?os = "sample_os (\<lambda>_. None)" and ?pub = "[u ''o.pub.json'']"
  have names: "u ''o'' = [111]" "u ''o.pub.json'' = [111, 46, 112, 117, 98, 46, 106, 115, 111, 110]" by (simp_all add: u_def)
  have suffix: "with_suffix [u ''o''] (u ''.pub.json'') = Inr ?pub"
    by (simp add: with_suffix_def SafeIo.path_name_def name_stem_def name_suffix_def u_def)
  have "rstrip_chars (u '' .'') (u ''o.pub.json'') = u ''o.pub.json''" "split_on 46 (u ''o.pub.json'') = [[111], u ''pub'', u ''json'']"
    by (simp_all add: rstrip_chars_def u_def)
  then have res: "\<not> is_windows_reserved_path ascii_ucd ?pub"
    using letter_not_reserved [of 111] by (simp add: is_windows_reserved_path_def SafeIo.path_name_def rstrip_chars_def u_def)
  have v: "validate_output_path ascii_ucd ?os Map.empty [u ''o''] [] False True = Inr ()"
    "validate_output_path ascii_ucd ?os Map.empty ?pub [[u ''o'']] False True = Inr ()"
    using letter_not_reserved [of 111] res
    by (simp_all add: validate_output_path_def sample_os_def SafeIo.path_name_def Let_def same_path_def is_private_key_file_def
        path_exists_def names)
  have keys: "identity_dict None (identity_generate toy_ops (replicate 32 3) (replicate 32 6)) = recipient_keys"
    by (simp add: recipient_keys_def)
  have enc: "\<exists>s b. json_dumps_indent (PDict d) = Inr s \<and> utf8_encode s = Inr b" if d: "json_ok (PDict d)" for d
  proof -
    obtain s where s: "json_dumps_indent (PDict d) = Inr s" using json_dumps_indent_ok [OF d] by blast
    then have "\<forall>x\<in>set s. is_scalar x" using json_indent_scalar
      by (auto simp: json_dumps_indent_def simp del: json_indent.simps split: if_splits)
    then show ?thesis using s utf8_encode_ok_iff [of s] by (auto simp: is_ok_ex)
  qed
  obtain s b t c where e: "json_dumps_indent (PDict recipient_keys) = Inr s" "utf8_encode s = Inr b"
      "json_dumps_indent (PDict (public_dict recipient_keys)) = Inr t" "utf8_encode t = Inr c"
    using enc keys_json by meson
  obtain h1 where h1: "atomic_write_bytes ?os [u ''o''] b (Some 384) [Map.empty] = (h1, Inr ())" "h1 \<noteq> []"
      "hd h1 = Map.empty([] \<mapsto> Dir, [u ''o''] \<mapsto> File b 384)"
    using sample_write [of Map.empty "u ''o''" "Some 384" b] by auto
  then obtain g hs where g: "h1 = g # hs" by (cases h1) auto
  obtain h2 where "atomic_write_bytes ?os ?pub c None h1 = (h2, Inr ())"
    using sample_write [of g "u ''o.pub.json''" None c] h1(3) g write_hist [of ?os ?pub c None g hs] by (auto simp: names)
  then have run: "cmd_keygen sample_env [u ''o''] None (replicate 32 3) (replicate 32 6) [Map.empty] = (h2, Done ?pub)"
    using suffix v e h1(1)
    by (simp add: cmd_keygen_def keys sample_env_simps Let_def atomic_write_private_json_def atomic_write_text_def)
  have "temps_apart ?os {[u ''o'']}" by (rule sample_temps_apart) (simp add: names)
  then show ?thesis
    using keygen_identity [OF run, of ascii_ucd "[]"] run
    by (simp add: sample_env_simps recipient_keys_def identity_dict_def identity_generate_def) (simp add: sample_os_def)
qed

lemma copied_fingerprint:
  "build_copy E a issuer rec_pub plaintext mk = Inr c \<Longrightarrow> copy_fingerprint (ce_ucd E) (mk_plaintext mk) = Inr (cp_fingerprint c)"
  by (auto simp: build_copy_def ebind_eq_Inr Let_def)

lemma scalar_take: "scalar_str (take n (hex x))"
  using scalar_str_hex [of x] by (auto simp: scalar_str_def list_all_iff dest: in_set_takeD)

lemma fingerprint_json_ok: "from_text U doc k window = Inr fp \<Longrightarrow> json_ok (PDict (fp_to_dict fp))"
  by (auto simp: from_text_def ebind_eq_Inr fp_to_dict_def sentence_fingerprint_def sentence_hash_def list_all_iff
      intro: scalar_take)

text \<open>
  The types that the dataclasses of \<open>manifest.py\<close> and of \<open>beacon.py\<close> declare for their fields; hashes are
  those of 32 bytes, and keys, signatures, marks and tokens are in hex.
\<close>

definition is_text_or_none :: "pyval \<Rightarrow> bool" where
  "is_text_or_none v \<longleftrightarrow> v = PNone \<or> is_str v"

definition is_int :: "pyval \<Rightarrow> bool" where
  "is_int v \<longleftrightarrow> (case v of PInt i \<Rightarrow> True | _ \<Rightarrow> False)"

definition is_hex :: "pyval \<Rightarrow> bool" where
  "is_hex v \<longleftrightarrow> (\<exists>x. v = PStr (hex x))"

definition is_hash :: "pyval \<Rightarrow> bool" where
  "is_hash v \<longleftrightarrow> (\<exists>x. v = PStr (hex x) \<and> length x = 32)"

definition beacon_typed :: "pyval \<Rightarrow> bool" where
  "beacon_typed v \<longleftrightarrow>
     (case v of
        PDict d \<Rightarrow> map fst d = [key ''token_id'', key ''kind'', key ''url'', key ''dns_name'']
          \<and> is_hex (dgetn d ''token_id'') \<and> is_str (dgetn d ''kind'') \<and> is_str (dgetn d ''url'')
          \<and> is_text_or_none (dgetn d ''dns_name'')
      | _ \<Rightarrow> False)"

definition recipient_typed :: "recipient \<Rightarrow> bool" where
  "recipient_typed r \<longleftrightarrow>
     is_str (r_recipient_id r) \<and> is_hex (r_x25519_pub r) \<and> is_text_or_none (r_ed25519_pub r) \<and> is_text_or_none (r_p256_pub r)"

definition manifest_typed :: "manifest \<Rightarrow> bool" where
  "manifest_typed m \<longleftrightarrow>
     is_str (m_file_id m) \<and> is_int (m_issued_at m) \<and> is_str (m_version m) \<and> is_str (m_suite m)
     \<and> is_str (m_original_filename m) \<and> is_hash (m_content_hash m) \<and> is_hash (m_canonical_content_hash m)
     \<and> is_str (m_content_type m) \<and> is_int (m_size_bytes m) \<and> is_str (m_issuer_id m) \<and> is_hex (m_issuer_ed25519_pub m)
     \<and> (case m_recipient m of None \<Rightarrow> False | Some r \<Rightarrow> recipient_typed r)
     \<and> list_all (\<lambda>w. is_str (w_layer w) \<and> is_hex (w_mark_id w)) (m_watermarks m)
     \<and> (case m_beacons m of PList bs \<Rightarrow> list_all beacon_typed bs | _ \<Rightarrow> False)
     \<and> is_dict (m_policy m) \<and> is_dict (m_l3_policy m) \<and> is_hex (m_signature_ed25519 m) \<and> is_str (m_signature_ml_dsa m)"

lemma typed_texts [simp]:
  "is_hex (PStr (hex x))" "is_str (PStr t)" "is_int (PInt i)" "is_text_or_none PNone" "is_text_or_none (PStr t)"
  "is_hash (PStr (content_hash b))" "is_str (str_val s)"
  by (auto simp: is_hex_def is_str_def is_int_def is_text_or_none_def is_hash_def content_hash_def str_val_def)

lemma beacons_typed: "list_all beacon_typed (map (\<lambda>b. PDict (beacon_to_dict b)) (gen_beacons rnd domain None))"
proof -
  have "beacon_typed (PDict (beacon_to_dict b))" if b: "b \<in> set (gen_beacons rnd domain None)" for b
  proof -
    obtain i kind where "b \<in> set (beacon_of_kind domain (hex (rnd i)) kind)"
      using b by (auto simp: gen_beacons_def Let_def token_hex_def)
    then show ?thesis
      by (auto simp: beacon_of_kind_def beacon_typed_def beacon_to_dict_def Let_def opt_val_def dgetn_def dgetd_def split: if_splits)
  qed
  then show ?thesis by (simp add: list_all_iff)
qed

lemma copy_typed:
  assumes "copy_manifest E a issuer (PDict rp) canonical_plaintext mk = Inr (m, rid)" "args_ok E a"
    and "mark_plaintext E a plaintext = Inr (Some mk)"
    and "ditem rp ''id'' = Inr (PStr name)" "ditem rp ''x25519_pub'' = Inr (PStr (hex pub))"
    and "is_text_or_none (dgetn rp ''ed25519_pub'')" "member issuer ''ed25519_pub'' = Inr (PStr (hex ipub))"
  shows "manifest_typed (m\<lparr>m_signature_ed25519 := PStr (hex sg)\<rparr>)"
    "m_canonical_content_hash m = PStr (content_hash canonical_plaintext)"
proof -
  have refs: "list_all (\<lambda>w. is_str (w_layer w) \<and> is_hex (w_mark_id w)) (mk_refs mk)"
    using marking_ok [OF assms(3,2)] by (fastforce simp: list_all_iff)
  have copied: "m = (manifest_new (ce_uuid E) (ce_now E) (PStr (SafeIo.path_name (sa_input a)))
             (PStr (content_hash (mk_plaintext mk))) (PInt (int (length (mk_plaintext mk)))) (PStr (sa_issuer_id a)) (PStr (hex ipub))
             \<lparr>r_recipient_id = PStr name, r_x25519_pub = PStr (hex pub), r_ed25519_pub = dgetn rp ''ed25519_pub'', r_p256_pub = PNone\<rparr>
             (PStr (sa_registry_url a)) (PStr (sa_content_type a)) PNone PNone (str_val ''GLOBAL''))
        \<lparr>m_canonical_content_hash := PStr (content_hash canonical_plaintext),
         m_l3_policy := (case mk_decision mk of Some d \<Rightarrow> PDict (decision_dict d) | None \<Rightarrow> PDict []),
         m_watermarks := mk_refs mk,
         m_beacons := PList (map (\<lambda>b. PDict (beacon_to_dict b)) (gen_beacons (ce_tokens E) (sa_registry_domain a) None))\<rparr>"
    using assms(1,4,5,7) by (auto simp: copy_manifest_def member_def member_or_none_def manifest_new_def Let_def split: option.splits)
  show "manifest_typed (m\<lparr>m_signature_ed25519 := PStr (hex sg)\<rparr>)"
    using refs assms(6) beacons_typed
    by (simp add: copied manifest_new_def Let_def truthy_def manifest_typed_def recipient_typed_def is_dict_def split: option.split)
  show "m_canonical_content_hash m = PStr (content_hash canonical_plaintext)" by (simp add: copied)
qed

text \<open>
  C37: what sealing hands on is well formed. With text arguments, a recipient file whose \<open>id\<close> is a text
  and hex keys, the manifest of every copy \<open>cmd_seal\<close> returns has each field of the type the manifest
  format gives it; its hashes and its size are those of the input and of the marked bytes; it can be written
  as JSON. So can the whole body that is posted to the registry, which holds that manifest with its
  signature, and the manifest's beacons and watermarks.
\<close>

theorem sealed_manifest_typed:
  assumes "cmd_seal E a h = (h1, Done (c, reg))" "args_ok E a"
    and "read_json (ce_os E) (hd h) (sa_issuer_key a) = Inr issuer" "member issuer ''ed25519_pub'' = Inr (PStr (hex ipub))"
    and "read_json (ce_os E) (hd h) (sa_recipient_pub a) = Inr (PDict rp)"
    and "ditem rp ''id'' = Inr (PStr name)" "scalar_str name" "ditem rp ''x25519_pub'' = Inr (PStr (hex pub))"
      "json_ok (dgetn rp ''ed25519_pub'')" "is_text_or_none (dgetn rp ''ed25519_pub'')"
  shows "manifest_typed (cp_manifest c) \<and> manifest_ok (cp_manifest c)
    \<and> (\<exists>plaintext. read_bytes (ce_os E) (hd h) (sa_input a) = Inr plaintext
        \<and> m_canonical_content_hash (cp_manifest c) = PStr (content_hash plaintext))
    \<and> m_content_hash (cp_manifest c) = PStr (content_hash (mk_plaintext (cp_marking c)))
    \<and> m_size_bytes (cp_manifest c) = PInt (int (length (mk_plaintext (cp_marking c))))
    \<and> (\<forall>url body. reg = Some (url, body) \<longrightarrow> json_ok (PDict body)
        \<and> dget body ''manifest'' = Some (PDict (to_dict True (cp_manifest c)))
        \<and> dget body ''beacons'' = Some (m_beacons (cp_manifest c))
        \<and> dget body ''watermarks'' = Some (PList (map (\<lambda>w. PDict (watermark_dict w)) (m_watermarks (cp_manifest c)))))"
proof -
  have ran: "seal_copy E a (hd h) = Inr (Some c)" "reg = registration a c"
    using assms(1) by (cases "seal_copy E a (hd h)" rule: outcome_of.cases; force simp: cmd_seal_def split: sum.splits prod.splits)+
  obtain plaintext where s: "mark_plaintext E a plaintext = Inr (Some (cp_marking c))"
      "build_copy E a issuer (PDict rp) plaintext (cp_marking c) = Inr c"
      "read_bytes (ce_os E) (hd h) (sa_input a) = Inr plaintext"
    using ran(1) assms(3,5) by (auto elim: seal_copy_parts)
  obtain m isk rpk where b: "copy_manifest E a issuer (PDict rp) plaintext (cp_marking c) = Inr (m, cp_recipient_id c)"
      "seal (ce_crypto E) (ce_eph E) (ce_wrap_nonce E) (ce_dek E) (ce_nonce E) (mk_plaintext (cp_marking c)) m isk rpk
        = (cp_manifest c, Inr (cp_blob c))"
    using s(2) by (auto elim: build_copy_parts)
  note m = copy_manifest_ok [OF b(1) assms(2) s(1) assms(6-9,4)]
  note t = copy_typed [OF b(1) assms(2) s(1) assms(6,8,10,4)]
  obtain sg where sg: "cp_manifest c = m\<lparr>m_signature_ed25519 := PStr (hex sg)\<rparr>"
    using b(2) by (auto simp: seal_def sign_def ebind_eq_Inr split: sum.splits dest: sym)
  have ok: "manifest_ok (cp_manifest c)" unfolding sg using m(1) by (rule manifest_ok_sign)
  then have "json_ok (PDict (asdict (cp_manifest c)))" by (rule manifest_ok_json)
  moreover have "json_ok (m_beacons (cp_manifest c))" using calculation by (simp add: asdict_def)
  moreover have "json_ok (PList (map (\<lambda>w. PDict (watermark_dict w)) (mk_refs (cp_marking c))))"
    using marking_ok [OF s(1) assms(2)] by (fastforce simp: watermark_dict_def list_all_iff)
  moreover have "json_ok (PDict (fp_to_dict fp))" if fp: "cp_fingerprint c = Some fp" for fp
    using copied_fingerprint [OF s(2)] fp fingerprint_json_ok
    by (auto simp: copy_fingerprint_def ebind_eq_Inr simp del: json_ok.simps split: sum.splits)
  ultimately have "\<forall>url body. reg = Some (url, body) \<longrightarrow> json_ok (PDict body)"
    by (auto simp: ran(2) registration_def to_dict_True split: option.splits if_splits)
  moreover have "\<forall>url body. reg = Some (url, body) \<longrightarrow> dget body ''manifest'' = Some (PDict (to_dict True (cp_manifest c)))
        \<and> dget body ''beacons'' = Some (m_beacons (cp_manifest c))
        \<and> dget body ''watermarks'' = Some (PList (map (\<lambda>w. PDict (watermark_dict w)) (m_watermarks (cp_manifest c))))"
    using m(10) sg by (auto simp: ran(2) registration_def split: option.splits if_splits)
  moreover have "manifest_typed (cp_manifest c)" unfolding sg by (rule t(1))
  moreover have "m_canonical_content_hash (cp_manifest c) = PStr (content_hash plaintext)"
    "m_content_hash (cp_manifest c) = PStr (content_hash (mk_plaintext (cp_marking c)))"
    "m_size_bytes (cp_manifest c) = PInt (int (length (mk_plaintext (cp_marking c))))"
    unfolding sg using t(2) m(4,5) by simp_all
  ultimately show ?thesis using ok s(3) by blast
qed

lemma cmd_seal_register:
  "cmd_seal E a h = (h1, Done (c, x)) \<Longrightarrow>
     cmd_seal E (a\<lparr>sa_register := r\<rparr>) h = (h1, Done (c, registration (a\<lparr>sa_register := r\<rparr>) c))"
proof -
  assume run: "cmd_seal E a h = (h1, Done (c, x))"
  have "mark_plaintext E (a\<lparr>sa_register := r\<rparr>) = mark_plaintext E a" "copy_manifest E (a\<lparr>sa_register := r\<rparr>) = copy_manifest E a"
    by (simp_all add: fun_eq_iff mark_plaintext_def copy_manifest_def cong: sum.case_cong if_cong)
  moreover from this have "build_copy E (a\<lparr>sa_register := r\<rparr>) = build_copy E a" by (simp add: fun_eq_iff build_copy_def)
  ultimately have "seal_copy E (a\<lparr>sa_register := r\<rparr>) fs = seal_copy E a fs" for fs by (simp add: seal_copy_def cong: option.case_cong)
  then show ?thesis using run
    by (cases "seal_copy E a (hd h)" rule: outcome_of.cases) (force simp: cmd_seal_def split: sum.splits prod.splits)+
qed

theorem sealed_manifest_typed_witness:
  "\<exists>fs h1 c body. cmd_seal sample_env (sample_args\<lparr>sa_register := Some (u ''https://r'')\<rparr>) [fs]
       = (h1, Done (c, Some (u ''https://r/register'', body)))
     \<and> manifest_typed (cp_manifest c) \<and> json_ok (PDict body) \<and> dget body ''manifest'' = Some (PDict (to_dict True (cp_manifest c)))
     \<and> m_size_bytes (cp_manifest c) = PInt 1"
proof -
  obtain fs h1 c where s: "cmd_seal sample_env sample_args [fs] = (h1, Done (c, None))" "cp_marking c = sample_marking"
    "read_json (sample_os (\<lambda>_. None)) fs [u ''i''] = Inr (PDict issuer_keys)"
    "read_json (sample_os (\<lambda>_. None)) fs [u ''r''] = Inr (PDict (public_dict recipient_keys))"
    using sample_run by blast
  let ?a = "sample_args\<lparr>sa_register := Some (u ''https://r'')\<rparr>"
  obtain body where reg: "registration ?a c = Some (u ''https://r/register'', body)"
    by (simp add: registration_def rstrip_chars_def u_def)
  note run = cmd_seal_register [OF s(1), of "Some (u ''https://r'')", unfolded reg]
  have "args_ok sample_env ?a" using sample_args_ok by (simp add: args_ok_def)
  moreover have "is_text_or_none (dgetn (public_dict recipient_keys) ''ed25519_pub'')"
    by (simp add: public_dict_def recipient_keys_def identity_dict_def dgetn_def dgetd_def)
  ultimately have "manifest_typed (cp_manifest c) \<and> manifest_ok (cp_manifest c)
    \<and> (\<exists>plaintext. read_bytes (ce_os sample_env) (hd [fs]) (sa_input ?a) = Inr plaintext
        \<and> m_canonical_content_hash (cp_manifest c) = PStr (content_hash plaintext))
    \<and> m_content_hash (cp_manifest c) = PStr (content_hash (mk_plaintext (cp_marking c)))
    \<and> m_size_bytes (cp_manifest c) = PInt (int (length (mk_plaintext (cp_marking c))))
    \<and> (\<forall>url b. Some (u ''https://r/register'', body) = Some (url, b) \<longrightarrow> json_ok (PDict b)
        \<and> dget b ''manifest'' = Some (PDict (to_dict True (cp_manifest c)))
        \<and> dget b ''beacons'' = Some (m_beacons (cp_manifest c))
        \<and> dget b ''watermarks'' = Some (PList (map (\<lambda>w. PDict (watermark_dict w)) (m_watermarks (cp_manifest c)))))"
    by (intro sealed_manifest_typed [OF run, of "PDict issuer_keys" "ed_pub toy_ops (replicate 32 7)"
          "public_dict recipient_keys" "u ''identity''" "x_pub toy_ops (replicate 32 3)"])
      (use s(3,4) keys_members in \<open>simp_all add: sample_env_simps sample_args_simps member_def\<close>)
  then show ?thesis using run s(2) by (intro exI [of _ fs] exI [of _ h1] exI [of _ c] exI [of _ body]) (simp add: sample_marking_def)
qed

end
