(* ===== verification/CliLeak.thy ===== *)
theory CliLeak
  imports Cli Match
begin

text \<open>
  The attribution command of \<open>src/cli/oversight.py\<close> against a registry that holds the copy: what a leak
  of a marked text makes it report, and which of its look-ups cannot succeed.
\<close>

section \<open>The registry behind the command\<close>

definition reply_json :: "reply \<Rightarrow> pyval res" where
  "reply_json r = (case r of NoReply \<Rightarrow> Inl (HTTPError ''connect'') | Reply code body \<Rightarrow> body)"

definition site_post :: "match_site \<Rightarrow> pystr \<Rightarrow> pystr \<Rightarrow> pydict \<Rightarrow> pyval res" where
  "site_post s base url args = reply_json (mn_post (service_net (serve_match s) base) url args)"

text \<open>The registry has no endpoint \<open>/marks\<close>.\<close>

definition against :: "match_site \<Rightarrow> pystr \<Rightarrow> attribute_env \<Rightarrow> bool" where
  "against s registry A \<longleftrightarrow>
     ae_post A = site_post s (rstrip_chars (u ''/'') registry)
     \<and> ae_marks A (rstrip_chars (u ''/'') registry @ u ''/marks'') = Inr (404, Inl JSONDecodeError)
     \<and> (\<forall>xs. set (ae_uniq A xs) = set xs)"

lemma site_answer:
  "against s registry A \<Longrightarrow> serve_match s (u ''/attribute'') (mark_query m layer) = Reply 200 (Inr (PDict d))
     \<Longrightarrow> ae_post A (rstrip_chars (u ''/'') registry @ u ''/attribute'') (owner_query m layer) = Inr (PDict d)"
  by (simp add: against_def site_post_def service_net_def reply_json_def owner_query_def mark_query_def str_val_def)

lemma look_up_owner:
  assumes "against s registry A" "site_ok s" "m \<noteq> []"
    and "select_row wm_key (hex m, u ''L1_zero_width'') (t_watermarks (rg_tables (ms_registry s))) = Some w"
  shows "look_up A registry [''recipient_id'', ''file_id''] m ''L1_zero_width''
      = Some [PStr (wm_recipient w), PStr (wm_file w)]"
proof -
  obtain d where d: "serve_match s (u ''/attribute'') (mark_query m ''L1_zero_width'') = Reply 200 (Inr (PDict d))"
      "attribution_reply (mark_owner s m ''L1_zero_width'') d"
    using registry_match.attribute_mark [OF assms(2,3), of "''L1_zero_width''"] by blast
  then have "truthy (dgetn d ''found'')" "ditem d ''recipient_id'' = Inr (PStr (wm_recipient w))" "ditem d ''file_id'' = Inr (PStr (wm_file w))"
    using assms(4) by (simp_all add: attribution_reply_def mark_owner_def ditem_def)
  then show ?thesis using site_answer [OF assms(1) d(1)]
    by (simp add: look_up_def member_or_none_def member_def)
qed

text \<open>
  The command's last look-up asks for the layer \<open>fused\<close>, under which nothing is registered by the
  program: the winner's file, recipient and issuer are never printed.
\<close>

theorem fused_lookup_fails:
  assumes "against s registry A" "site_ok s" "m \<noteq> []"
    and "\<forall>w\<in>set (t_watermarks (rg_tables (ms_registry s))). wm_layer w \<noteq> u ''fused''"
  shows "look_up A registry names m ''fused'' = None"
proof -
  let ?q = "\<lparr>aq_token = None, aq_mark = Some (hex m), aq_layer = Some (u ''fused''), aq_perceptual = None\<rparr>"
  have hm: "hex m \<noteq> []" using assms(3) by (cases m) (simp_all add: hex_def byte_hex_def)
  have none: "select_row wm_key (hex m, u ''fused'') (t_watermarks (rg_tables (ms_registry s))) = None"
    using assms(4) by (auto simp: select_row_def find_None_iff wm_key_def)
  have "\<exists>d. attribute (ms_world s) (ms_config s) ?q (ms_request s) (ms_registry s) = Inr d \<and> json_ok (PDict d)
      \<and> attribution_reply None d"
    using assms(2) hm none
    by (auto simp: attribute_def site_ok_def find_owner_def given_def bound_def attribution_reply_def truthy_def)
  then obtain d where d: "attribute (ms_world s) (ms_config s) ?q (ms_request s) (ms_registry s) = Inr d" "json_ok (PDict d)"
      "\<not> truthy (dgetn d ''found'')"
    by (auto simp: attribution_reply_def)
  then have "serve_match s (u ''/attribute'') (mark_query m ''fused'') = Reply 200 (Inr (PDict d))"
    using json_reply_ok by (simp add: serve_match_def mark_query_def str_args_def str_arg_def is_str_def str_val_def)
  then show ?thesis using site_answer [OF assms(1)] d(3) by (simp add: look_up_def member_or_none_def)
qed

section \<open>What a leak makes it report\<close>

lemma fuse_marks: "fst ` set (fuse_candidates l1 l2 conf l3) = fst ` set (evidence_items l1 l2 conf l3)"
proof -
  let ?ev = "fold (\<lambda>(m, e). add_evidence m e) (evidence_items l1 l2 conf l3) []"
  have "m \<in> fst ` set ?ev \<longleftrightarrow> m \<in> fst ` set (evidence_items l1 l2 conf l3)" for m
    using evidence_fold [of "evidence_items l1 l2 conf l3"] map_of_eq_None_iff [of ?ev m] by (auto split: if_splits)
  moreover have "fst ` set (fuse_candidates l1 l2 conf l3) = fst ` set ?ev"
    by (force simp: fuse_candidates_def Let_def image_iff)
  ultimately show ?thesis by blast
qed

lemma verify_l3_ok:
  assumes "\<And>m. m \<in> set ms \<Longrightarrow> m \<noteq> []"
  shows "\<exists>hits. verify_l3 U doc ms th = Inr hits"
proof -
  have "\<exists>v. \<forall>m\<in>set ms. verify_semantic U doc m True = Inr (v m)"
    using verify_semantic_ok assms by (intro bchoice) blast
  then obtain v where "\<And>m. m \<in> set ms \<Longrightarrow> verify_semantic U doc m True = Inr (v m)" by blast
  then have "mapM_res (\<lambda>mid. ebind (verify_semantic U doc mid True) (\<lambda>d. Inr (mid, synonyms_score d, d))) ms
      = Inr (map (\<lambda>m. (m, synonyms_score (v m), v m)) ms)"
    by (intro mapM_res_pure) simp
  then show ?thesis by (simp add: verify_l3_def)
qed

lemma partial_ok: "\<exists>x. extract_ws_partial doc 8 = Inr x"
proof (cases "extract_ws_partial doc 8")
  case (Inl e)
  then show ?thesis by (simp add: extract_ws_partial_def Let_def split: if_splits)
qed blast

lemma direct_ok:
  assumes "\<forall>xs. set (ae_uniq A xs) = set xs"
  shows "\<exists>D. direct_candidates A doc = Inr D \<and> set (extract_zw doc 8) \<subseteq> set D \<and> (\<forall>m\<in>set D. m \<noteq> [])"
proof -
  have ne: "m \<noteq> []" if "m \<in> set (extract_zw doc 8)" for m using extract_zw_length [OF that] by auto
  obtain c conf i n where p: "extract_ws_partial doc 8 = Inr (c, conf, i, n)" using partial_ok [of doc] by (metis prod_cases4)
  then show ?thesis using assms ne by (auto simp: direct_candidates_def Let_def split: option.split)
qed

text \<open>
  C9: the command line traces a leak to its recipient. A UTF-8 text without zero-width characters and
  carriage returns was marked as \<open>cmd_seal\<close> marks it, with an identifier of eight bytes; the registry
  holds the identifier's zero-width mark. Then \<open>cmd_attribute\<close> on the leaked file returns: the
  identifier is among its direct candidates together with exactly the recipient and file of that
  registration, and it is in the fused ranking. (A text of exactly forty characters takes no frame.)
\<close>

theorem cli_leak_attributed:
  assumes "zw_free doc" "13 \<notin> set doc" "length mark = 8" "length (embed_ws doc mark) \<noteq> 40"
    and "embed_zw (embed_ws doc mark) mark 40 = Inr marked" "utf8_encode marked = Inr data"
    and "fs leak = Some (File data k)" "os_fail (ce_os (ae_env A)) (ReadFile leak) = None"
    and "against s registry A" "site_ok s"
    and "select_row wm_key (hex mark, u ''L1_zero_width'') (t_watermarks (rg_tables (ms_registry s))) = Some w"
  shows "\<exists>r. cmd_attribute A leak registry None fs = Inr r
    \<and> (mark, Some [PStr (wm_recipient w), PStr (wm_file w)]) \<in> set (lr_direct r)
    \<and> mark \<in> fst ` set (lr_ranking r)"
proof -
  have x: "mark \<in> set (extract_zw marked 8)" "filter (\<lambda>c. zw_free [c]) marked = embed_ws doc mark"
    using embed_zw_extract [OF _ ws_keeps_zw_free [OF assms(1)], of 40 mark mark 8] assms(3,4,5) by (auto split: if_splits)
  have "c \<in> set (embed_ws doc mark) \<or> \<not> zw_free [c]" if "c \<in> set marked" for c
    unfolding x(2) [symmetric] using that by auto
  then have "13 \<notin> set marked"
    using assms(2) embed_ws_chars [of doc mark] by (fastforce simp: ZW_SPACE_def ZW_NONJOIN_def ZW_JOIN_def)
  then have leak: "read_leak (ce_os (ae_env A)) fs leak = Inr marked"
    using assms(6,7,8) utf8_decode_encode [OF assms(6)]
    by (simp add: read_leak_def read_bytes_def utf8_decode_replace_ok universal_newlines_id)
  have uniq: "\<forall>xs. set (ae_uniq A xs) = set xs" using assms(9) by (simp add: against_def)
  obtain D where D: "direct_candidates A marked = Inr D" "mark \<in> set D" "\<forall>m\<in>set D. m \<noteq> []"
    using direct_ok [OF uniq] x(1) by blast
  have listed: "registry_candidates A registry = []" using assms(9) by (simp add: registry_candidates_def against_def)
  obtain hits where h: "verify_l3 (ce_ucd (ae_env A)) marked D (7 / 10) = Inr hits" using verify_l3_ok D(3) by blast
  obtain c conf i n where p: "extract_ws_partial marked 8 = Inr (c, conf, i, n)" using partial_ok [of marked] by (metis prod_cases4)
  have "D \<noteq> []" using D(2) by auto
  then have rec: "\<exists>r. recover_marks_v2 (ce_ucd (ae_env A)) (ae_uniq A) marked D 8 = Inr r
      \<and> rec_candidates r = fuse_candidates (ae_uniq A (extract_zw marked 8)) c conf hits"
    using h p by (simp add: recover_marks_v2_def recover_layers_def Let_def)
  have "mark \<in> fst ` set (fuse_candidates (ae_uniq A (extract_zw marked 8)) c conf hits)"
    unfolding fuse_marks using uniq x(1) by (force simp: evidence_items_def)
  moreover have "mark \<noteq> []" using assms(3) by auto
  ultimately show ?thesis
    using leak D listed h rec \<open>D \<noteq> []\<close> look_up_owner [OF assms(9,10) _ assms(11)]
    by (force simp: cmd_attribute_def Let_def image_iff)
qed

theorem cli_leak_attributed_witness:
  "\<exists>A r fs. cmd_attribute A [u ''leak''] (u ''https://r/'') None fs = Inr r
     \<and> (sample_mark, Some [PStr (u ''alice''), PStr (u ''f-1'')]) \<in> set (lr_direct r)"
proof -
  let ?w = "\<lparr>wm_mark = hex sample_mark, wm_layer = u ''L1_zero_width'', wm_file = u ''f-1'', wm_recipient = u ''alice'',
         wm_issuer = u ''acme'', wm_at = 0\<rparr>"
  let ?A = "\<lparr>ae_env = sample_env, ae_post = site_post sample_site (rstrip_chars (u ''/'') (u ''https://r/'')),
      ae_marks = (\<lambda>_. Inr (404, Inl JSONDecodeError)), ae_uniq = id, ae_listing = (\<lambda>_. [])\<rparr>"
  let ?doc = "u ''secret''"
  have 1: "zw_free ?doc" "13 \<notin> set ?doc" by (simp_all add: zw_free_def u_def ZW_SPACE_def ZW_NONJOIN_def ZW_JOIN_def)
  have 2: "length sample_mark = 8" by (simp add: sample_mark_def)
  have 3: "length (embed_ws ?doc sample_mark) \<noteq> 40"
    by (simp add: embed_ws_def u_def ws_lines.simps rstrip_def is_space_def sample_mark_def byte_bits_def upt_rec split: list.split)
  have 4: "select_row wm_key (hex sample_mark, u ''L1_zero_width'') (t_watermarks (rg_tables (ms_registry sample_site))) = Some ?w"
    by (simp add: sample_site_def wm_key_def)
  obtain marked data where m: "embed_zw (embed_ws ?doc sample_mark) sample_mark 40 = Inr marked" "utf8_encode marked = Inr data"
    using marked_encodes [OF 1(1), of sample_mark] by (auto simp: u_def scalar_below)
  have A: "against sample_site (u ''https://r/'') ?A" by (simp add: against_def)
  have ok: "os_fail (ce_os (ae_env ?A)) (ReadFile [u ''leak'']) = None" by (simp add: sample_env_def sample_os_def)
  show ?thesis
    using cli_leak_attributed [OF 1 2 3 m _ ok A sample_site_ok 4, of "Map.empty([u ''leak''] \<mapsto> File data 420)" 420] by auto
qed

end
