(* ===== verification/Rich.thy ===== *)
theory Rich
  imports Cli
begin

text \<open>
  The second command line, \<open>src/cli/oversight_rich.py\<close>: the search for the \<open>.oversight\<close> directory and
  its configuration, the commands that set it up and fill it, and sealing, opening, inspecting and
  attributing with the settings found there. Paths are absolute; the tables and panels are left out.
  The steps the two command lines have in common are those of \<open>Cli\<close>.
\<close>

section \<open>Paths and plain writes\<close>

definition path_parts :: "pystr \<Rightarrow> path" where
  "path_parts s = filter (\<lambda>x. x \<noteq> [] \<and> x \<noteq> u ''.'') (split_on 47 s)"

text \<open>\<open>p / s\<close>: an absolute right side replaces the left one\<close>

definition path_join :: "path \<Rightarrow> pystr \<Rightarrow> path" where
  "path_join p s = (if prefixed [47] s then path_parts s else p @ path_parts s)"

text \<open>\<open>p.write_text\<close>: the file is cut and written in place; a new file gets the bits 644.\<close>

definition plain_write :: "os \<Rightarrow> path \<Rightarrow> bytes \<Rightarrow> history \<Rightarrow> history \<times> unit res" where
  "plain_write os p data h =
     (case hd h p of
        Some Dir \<Rightarrow> (h, Inl (OSError ''Is a directory''))
      | x \<Rightarrow>
          let m = (case x of Some (File _ m) \<Rightarrow> m | _ \<Rightarrow> 420) in
          (case os_fail os (WriteFile p data) of
             Some e \<Rightarrow> ((hd h)(p \<mapsto> File (take (os_written os) data) m) # h, Inl e)
           | None \<Rightarrow> ((hd h)(p \<mapsto> File data m) # h, Inr ())))"

definition plain_write_json :: "os \<Rightarrow> path \<Rightarrow> pydict \<Rightarrow> history \<Rightarrow> history \<times> unit res" where
  "plain_write_json os p d h =
     (case ebind (json_dumps_indent (PDict d)) utf8_encode of
        Inl e \<Rightarrow> (h, Inl e)
      | Inr b \<Rightarrow> plain_write os p b h)"

section \<open>The configuration\<close>

definition CONFIG_DIR_NAME :: pystr where "CONFIG_DIR_NAME = u ''.oversight''"
definition CONFIG_FILENAME :: pystr where "CONFIG_FILENAME = u ''config.json''"

definition has_config :: "fs \<Rightarrow> path \<Rightarrow> bool" where
  "has_config fs p \<longleftrightarrow> fs (p @ [CONFIG_DIR_NAME]) = Some Dir"

text \<open>The loop over the parents; \<open>None\<close> would be a loop that does not end.\<close>

partial_function (option) find_up :: "fs \<Rightarrow> path \<Rightarrow> path option option" where
  "find_up fs check =
     (if has_config fs check then Some (Some (check @ [CONFIG_DIR_NAME]))
      else let parent = path_parent check in
        if parent = check then Some None else find_up fs parent)"

definition find_config_dir :: "fs \<Rightarrow> path \<Rightarrow> path \<Rightarrow> path option option" where
  "find_config_dir fs cwd home =
     (case find_up fs cwd of
        None \<Rightarrow> None
      | Some (Some d) \<Rightarrow> Some (Some d)
      | Some None \<Rightarrow> Some (if has_config fs home then Some (home @ [CONFIG_DIR_NAME]) else None))"

record rich_env =
  re_cli :: cli_env
  re_cwd :: path
  re_home :: path
  re_json_files :: "path \<Rightarrow> path list"

text \<open>The settings, and beside them the directory the code keeps in them under \<open>_config_dir\<close>\<close>

definition load_config :: "rich_env \<Rightarrow> fs \<Rightarrow> (pydict \<times> path option) res" where
  "load_config R fs =
     (case find_config_dir fs (re_cwd R) (re_home R) of
        Some (Some d) \<Rightarrow>
          let file = d @ [CONFIG_FILENAME] in
          if fs file = None then Inr ([], Some d)
          else (case read_json (ce_os (re_cli R)) fs file of
                  Inl e \<Rightarrow> if e = JSONDecodeError \<or> is_OSError e then Inr ([], Some d) else Inl e
                | Inr (PDict c) \<Rightarrow> Inr (c, Some d)
                | Inr v \<Rightarrow> Inl (TypeError ''item assignment''))
      | _ \<Rightarrow> Inr ([], None))"

definition save_config :: "os \<Rightarrow> path \<Rightarrow> pydict \<Rightarrow> history \<Rightarrow> history \<times> unit res" where
  "save_config os config_dir config h =
     plain_write_json os (config_dir @ [CONFIG_FILENAME])
       (filter (\<lambda>(k, v). case k of KStr t \<Rightarrow> \<not> prefixed (u ''_'') t | _ \<Rightarrow> True) config) h"

text \<open>\<open>arg or cfg.get(name, default)\<close>; a setting that is no text is refused here.\<close>

definition setting :: "pystr option \<Rightarrow> pydict \<Rightarrow> string \<Rightarrow> pystr \<Rightarrow> pystr res" where
  "setting arg cfg name fallback =
     (case arg of
        Some (c # s) \<Rightarrow> Inr (c # s)
      | _ \<Rightarrow> (case dgetd cfg name (PStr fallback) of PStr s \<Rightarrow> Inr s | _ \<Rightarrow> Inl (TypeError ''setting'')))"

definition given_arg :: "pystr option \<Rightarrow> pystr option" where
  "given_arg arg = (case arg of Some (c # s) \<Rightarrow> Some (c # s) | _ \<Rightarrow> None)"

definition exit_on :: "(exn \<Rightarrow> bool) \<Rightarrow> 'a res \<Rightarrow> 'a option res" where
  "exit_on caught r = (case r of Inr x \<Rightarrow> Inr (Some x) | Inl e \<Rightarrow> if caught e then Inr None else Inl e)"

definition refused :: "exn \<Rightarrow> bool" where
  "refused e \<longleftrightarrow> is_ValueError e \<or> (case e of FileExistsError _ \<Rightarrow> True | _ \<Rightarrow> False)"

section \<open>Setting up\<close>

definition rich_init :: "rich_env \<Rightarrow> path option \<Rightarrow> pystr option \<Rightarrow> pystr option \<Rightarrow> bool \<Rightarrow> history \<Rightarrow> history \<times> unit outcome" where
  "rich_init R target registry_url registry_domain force h =
     (let os = ce_os (re_cli R);
          d = (case target of Some t \<Rightarrow> t | None \<Rightarrow> re_cwd R) @ [CONFIG_DIR_NAME];
          config = [(key ''issuer_identity'', PStr []),
            (key ''registry_url'', PStr (case given_arg registry_url of Some s \<Rightarrow> s | None \<Rightarrow> u ''http://localhost:8000'')),
            (key ''registry_domain'', PStr (case given_arg registry_domain of Some s \<Rightarrow> s | None \<Rightarrow> u ''oversightprotocol.dev'')),
            (key ''default_watermark'', PBool True), (key ''content_type'', PStr (u ''application/octet-stream''))]
      in if path_exists (hd h) d \<and> \<not> force then (h, Exited)
         else
           (case sys_all os [Mkdir d, Mkdir (d @ [u ''recipients'']), Mkdir (d @ [u ''fingerprints''])] h of
              (h1, Inl e) \<Rightarrow> (h1, Raised e)
            | (h1, Inr _) \<Rightarrow>
                (case save_config os d config h1 of
                   (h2, Inl e) \<Rightarrow> (h2, Raised e)
                 | (h2, Inr _) \<Rightarrow> (h2, Done ()))))"

definition rich_keys_generate ::
    "rich_env \<Rightarrow> pystr option \<Rightarrow> path option \<Rightarrow> bool \<Rightarrow> bytes \<Rightarrow> bytes \<Rightarrow> history \<Rightarrow> history \<times> path outcome" where
  "rich_keys_generate R name out force xsk esk h =
     (let E = re_cli R; os = ce_os E in
      case load_config R (hd h) of
        Inl e \<Rightarrow> (h, Raised e)
      | Inr (cfg, config_dir) \<Rightarrow>
          let ident = (case given_arg name of Some s \<Rightarrow> s | None \<Rightarrow> u ''identity'');
              file = ident @ u ''.json'';
              out_path = (case out of Some p \<Rightarrow> p | None \<Rightarrow>
                 (case config_dir of Some d \<Rightarrow> path_join d file | None \<Rightarrow> path_join (re_cwd R) file))
          in if path_exists (hd h) out_path \<and> \<not> force then (h, Exited)
             else
               (case ebind (with_suffix out_path (u ''.pub.json'')) (\<lambda>pub_path.
                       exit_on refused
                         (ebind (validate_output_path (ce_ucd E) os (hd h) out_path [] force True) (\<lambda>_.
                          ebind (validate_output_path (ce_ucd E) os (hd h) pub_path [out_path] force True) (\<lambda>_.
                            Inr pub_path)))) of
                  Inl e \<Rightarrow> (h, Raised e)
                | Inr None \<Rightarrow> (h, Exited)
                | Inr (Some pub_path) \<Rightarrow>
                    let priv = identity_dict (Some ident) (identity_generate (ce_crypto E) xsk esk) in
                    (case atomic_write_private_json os out_path priv h of
                       (h1, Inl e) \<Rightarrow> (h1, Raised e)
                     | (h1, Inr _) \<Rightarrow>
                         (case json_dumps_indent (PDict (public_dict priv)) of
                            Inl e \<Rightarrow> (h1, Raised e)
                          | Inr t \<Rightarrow>
                              (case atomic_write_text os pub_path t None h1 of
                                 (h2, Inl e) \<Rightarrow> (h2, Raised e)
                               | (h2, Inr _) \<Rightarrow>
                                   (case config_dir of
                                      Some d \<Rightarrow>
                                        if out = None then
                                          (case save_config os d (dset cfg ''issuer_identity'' (PStr (os_path_str os out_path))) h2 of
                                             (h3, Inl e) \<Rightarrow> (h3, Raised e)
                                           | (h3, Inr _) \<Rightarrow> (h3, Done out_path))
                                        else (h2, Done out_path)
                                    | None \<Rightarrow> (h2, Done out_path)))))))"

text \<open>
  The name of the imported key is the text under \<open>id\<close> in the file; an \<open>id\<close> that is no text, which Python
  would format, is refused here.
\<close>

definition rich_keys_import :: "rich_env \<Rightarrow> path \<Rightarrow> bool \<Rightarrow> history \<Rightarrow> history \<times> path outcome" where
  "rich_keys_import R source force h =
     (let os = ce_os (re_cli R) in
      case ebind (load_config R (hd h)) (\<lambda>(cfg, config_dir).
        case config_dir of
          None \<Rightarrow> Inr None
        | Some d \<Rightarrow>
            if \<not> path_exists (hd h) source then Inr None
            else ebind (exit_on (\<lambda>e. e = JSONDecodeError \<or> is_OSError e) (read_json os (hd h) source)) (\<lambda>data.
              case data of
                None \<Rightarrow> Inr None
              | Some (PDict key_data) \<Rightarrow> Inr (if dget key_data ''x25519_pub'' = None then None else Some (d @ [u ''recipients''], key_data))
              | Some (PList xs) \<Rightarrow> if PStr (u ''x25519_pub'') \<in> set xs then Inl (AttributeError ''get'') else Inr None
              | Some (PStr s) \<Rightarrow> if contains (u ''x25519_pub'') s then Inl (AttributeError ''get'') else Inr None
              | Some v \<Rightarrow> Inl (TypeError ''not iterable''))) of
        Inl e \<Rightarrow> (h, Raised e)
      | Inr None \<Rightarrow> (h, Exited)
      | Inr (Some (dir, key_data)) \<Rightarrow>
          (case sys os (Mkdir dir) h of
             (h1, Inl e) \<Rightarrow> (h1, Raised e)
           | (h1, Inr _) \<Rightarrow>
               (case dgetd key_data ''id'' (PStr (name_stem (SafeIo.path_name source))) of
                  PStr name \<Rightarrow>
                    let dest = path_join dir (name @ u ''.pub.json'') in
                    if path_exists (hd h1) dest \<and> \<not> force then (h1, Exited)
                    else
                      (case plain_write_json os dest key_data h1 of
                         (h2, Inl e) \<Rightarrow> (h2, Raised e)
                       | (h2, Inr _) \<Rightarrow> (h2, Done dest))
                | _ \<Rightarrow> (h1, Raised (TypeError ''name'')))))"

section \<open>Sealing, opening, inspecting\<close>

record rich_seal_args =
  ra_input :: path
  ra_to :: "pystr option"
  ra_issuer_key :: "pystr option"
  ra_issuer_id :: "pystr option"
  ra_registry_url :: "pystr option"
  ra_registry_domain :: "pystr option"
  ra_out :: "path option"
  ra_content_type :: "pystr option"
  ra_watermark :: "bool option"
  ra_l3_mode :: pystr
  ra_l3_ack :: bool
  ra_confirmed :: bool
  ra_document_class :: pystr
  ra_register :: "pystr option"

text \<open>\<open>args.x or cfg.get(name)\<close> for a text; a setting that is no text counts as missing.\<close>

definition arg_or_cfg :: "pystr option \<Rightarrow> pydict \<Rightarrow> string \<Rightarrow> pystr option" where
  "arg_or_cfg arg cfg name =
     (case given_arg arg of
        Some s \<Rightarrow> Some s
      | None \<Rightarrow> (case dgetn cfg name of PStr (c # s) \<Rightarrow> Some (c # s) | _ \<Rightarrow> None))"

definition recipient_path :: "rich_env \<Rightarrow> pystr option \<Rightarrow> path option \<Rightarrow> fs \<Rightarrow> path option" where
  "recipient_path R to config_dir fs =
     (case (given_arg to, config_dir) of
        (None, None) \<Rightarrow> None
      | (None, Some d) \<Rightarrow>
          let rdir = d @ [u ''recipients''] in
          if path_exists fs rdir then
            (case re_json_files R rdir of [p] \<Rightarrow> if path_exists fs p then Some p else None | _ \<Rightarrow> None)
          else None
      | (Some s, d) \<Rightarrow>
          let tries = path_join (re_cwd R) s #
                (case d of None \<Rightarrow> []
                 | Some d \<Rightarrow> [path_join (d @ [u ''recipients'']) (s @ u ''.pub.json''), path_join (d @ [u ''recipients'']) s])
          in find (path_exists fs) tries)"

text \<open>The settings of the run, the two parsed keys and the input; nothing when the command exits\<close>

definition seal_plan :: "rich_env \<Rightarrow> rich_seal_args \<Rightarrow> fs \<Rightarrow> (seal_args \<times> pyval \<times> pyval \<times> bytes) option res" where
  "seal_plan R a fs =
     (let E = re_cli R; os = ce_os E in
      ebind (load_config R fs) (\<lambda>(cfg, config_dir).
      if \<not> path_exists fs (ra_input a) then Inr None else
      case arg_or_cfg (ra_issuer_key a) cfg ''issuer_identity'' of None \<Rightarrow> Inr None | Some issuer_key \<Rightarrow>
      let ip = path_join (re_cwd R) issuer_key in
      if \<not> path_exists fs ip then Inr None else
      case recipient_path R (ra_to a) config_dir fs of None \<Rightarrow> Inr None | Some rp \<Rightarrow>
      ebind (read_json os fs ip) (\<lambda>issuer.
      ebind (read_json os fs rp) (\<lambda>rec_pub.
      ebind (read_bytes os fs (ra_input a)) (\<lambda>plaintext.
      ebind (case ra_out a of Some p \<Rightarrow> Inr p | None \<Rightarrow> with_suffix (ra_input a) (u ''.sealed'')) (\<lambda>out_path.
      ebind (exit_on refused (validate_output_path (ce_ucd E) os fs out_path [ra_input a, ip, rp] False True)) (\<lambda>v.
      if v = None then Inr None else
      ebind (setting (ra_registry_url a) cfg ''registry_url'' (u ''http://localhost:8000'')) (\<lambda>url.
      ebind (setting (ra_registry_domain a) cfg ''registry_domain'' (u ''oversightprotocol.dev'')) (\<lambda>domain.
      ebind (case issuer of PDict d \<Rightarrow> setting (ra_issuer_id a) d ''id'' (u ''issuer'') | _ \<Rightarrow> Inl (AttributeError ''get'')) (\<lambda>issuer_id.
      ebind (setting (ra_content_type a) cfg ''content_type'' (u ''application/octet-stream'')) (\<lambda>ctype.
        Inr (Some (\<lparr>sa_input = ra_input a, sa_input_arg = os_path_str os (ra_input a), sa_issuer_key = ip, sa_recipient_pub = rp,
            sa_out = out_path, sa_issuer_id = issuer_id, sa_registry_url = url, sa_registry_domain = domain,
            sa_content_type = ctype,
            sa_watermark = (case ra_watermark a of Some b \<Rightarrow> b | None \<Rightarrow> truthy (dgetd cfg ''default_watermark'' (PBool True))),
            sa_l3_mode = ra_l3_mode a, sa_l3_ack = (ra_l3_ack a \<or> ra_confirmed a), sa_document_class = ra_document_class a,
            sa_register = arg_or_cfg (ra_register a) cfg ''auto_register''\<rparr>, issuer, rec_pub, plaintext)))))))))))))"

text \<open>Here the reference of layer L3 comes last.\<close>

definition rich_refs :: "marking \<Rightarrow> marking" where
  "rich_refs mk = mk\<lparr>mk_refs := (case mk_refs mk of [l3, l1, l2] \<Rightarrow> [l1, l2, l3] | refs \<Rightarrow> refs)\<rparr>"

definition rich_copy :: "rich_env \<Rightarrow> rich_seal_args \<Rightarrow> fs \<Rightarrow> (seal_args \<times> copy) option res" where
  "rich_copy R a fs =
     ebind (seal_plan R a fs) (\<lambda>p.
       case p of None \<Rightarrow> Inr None | Some (sa, issuer, rec_pub, plaintext) \<Rightarrow>
       ebind (mark_plaintext ((re_cli R)\<lparr>ce_answer := None\<rparr>) sa plaintext) (\<lambda>marked.
         case marked of None \<Rightarrow> Inr None | Some mk \<Rightarrow>
         ebind (build_copy (re_cli R) sa issuer rec_pub plaintext (rich_refs mk)) (\<lambda>c. Inr (Some (sa, c)))))"

definition rich_seal :: "rich_env \<Rightarrow> rich_seal_args \<Rightarrow> history \<Rightarrow> history \<times> (copy \<times> (pystr \<times> pydict) option) outcome" where
  "rich_seal R a h =
     (case outcome_of (rich_copy R a (hd h)) of
        Raised e \<Rightarrow> (h, Raised e)
      | Exited \<Rightarrow> (h, Exited)
      | Done (sa, c) \<Rightarrow>
          (case atomic_write_bytes (ce_os (re_cli R)) (sa_out sa) (cp_blob c) None h of
             (h1, Inl e) \<Rightarrow> (h1, Raised e)
           | (h1, Inr _) \<Rightarrow>
               (case write_fingerprint (ce_os (re_cli R)) (sa_out sa) c h1 of
                  (h2, Inl e) \<Rightarrow> (h2, Raised e)
                | (h2, Inr _) \<Rightarrow> (h2, Done (c, registration sa c)))))"

text \<open>A \<open>ValueError\<close> of the decryption or of the write ends the program as an error of the decryption.\<close>

definition rich_open :: "rich_env \<Rightarrow> path \<Rightarrow> pystr option \<Rightarrow> path option \<Rightarrow> history \<Rightarrow> history \<times> manifest outcome" where
  "rich_open R input_path identity out h =
     (let E = re_cli R; os = ce_os E; fs = hd h in
      case ebind (load_config R fs) (\<lambda>(cfg, config_dir).
        if \<not> path_exists fs input_path then Inr None else
        case arg_or_cfg identity cfg ''issuer_identity'' of None \<Rightarrow> Inr None | Some s \<Rightarrow>
        let ip = path_join (re_cwd R) s in
        if \<not> path_exists fs ip then Inr None else
        ebind (case out of Some p \<Rightarrow> Inr p | None \<Rightarrow> with_suffix input_path []) (\<lambda>out_path.
        ebind (exit_on refused (validate_output_path (ce_ucd E) os fs out_path [input_path, ip] False True)) (\<lambda>v.
        if v = None then Inr None else
        ebind (read_json os fs ip) (\<lambda>ident.
        ebind (exit_on is_ValueError
            (ebind (read_bytes os fs input_path) (\<lambda>blob.
             ebind (ebind (member ident ''x25519_priv'') py_fromhex) (\<lambda>sk.
               snd (open_sealed (ce_crypto E) (ce_now E) True blob sk None None (\<lambda>_. None)))))) (\<lambda>r.
          Inr (map_option (\<lambda>(plaintext, m). (out_path, plaintext, m)) r)))))) of
        Inl e \<Rightarrow> (h, Raised e)
      | Inr None \<Rightarrow> (h, Exited)
      | Inr (Some (out_path, plaintext, m)) \<Rightarrow>
          (case atomic_write_bytes os out_path plaintext None h of
             (h1, Inl e) \<Rightarrow> (h1, if is_ValueError e then Exited else Raised e)
           | (h1, Inr _) \<Rightarrow> (h1, Done m)))"

definition rich_inspect :: "rich_env \<Rightarrow> path \<Rightarrow> fs \<Rightarrow> (pydict \<times> bool) option res" where
  "rich_inspect R input_path fs =
     (if \<not> path_exists fs input_path then Inr None
      else ebind (exit_on is_ValueError (ebind (read_bytes (ce_os (re_cli R)) fs input_path) from_bytes)) (\<lambda>r.
        case r of None \<Rightarrow> Inr None | Some sf \<Rightarrow>
        ebind (verify (ce_crypto (re_cli R)) (sf_manifest sf)) (\<lambda>valid.
          Inr (Some (to_dict True (sf_manifest sf), valid)))))"

section \<open>Attribution\<close>

text \<open>The answers of the second phase, here read with \<open>get\<close>\<close>

definition rich_answer :: "attribute_env \<Rightarrow> pystr \<Rightarrow> bytes \<Rightarrow> pyval list option" where
  "rich_answer A registry m =
     (case ebind (ae_post A (rstrip_chars (u ''/'') registry @ u ''/attribute'') (owner_query m ''L1_zero_width'')) (\<lambda>data.
        case data of
          PDict d \<Rightarrow> Inr (if truthy (dgetn d ''found'') then Some [dgetn d ''recipient_id'', dgetn d ''file_id''] else None)
        | _ \<Rightarrow> Inl (AttributeError ''get'')) of
        Inl e \<Rightarrow> None
      | Inr r \<Rightarrow> r)"

definition rich_attribute ::
    "rich_env \<Rightarrow> attribute_env \<Rightarrow> path \<Rightarrow> pystr option \<Rightarrow> path option \<Rightarrow> fs \<Rightarrow> leak_report option res" where
  "rich_attribute R A leak registry fingerprints fs =
     ebind (load_config R fs) (\<lambda>(cfg, config_dir).
     if \<not> path_exists fs leak then Inr None else
     ebind (setting registry cfg ''registry_url'' (u ''http://localhost:8000'')) (\<lambda>url.
     let fps = (case fingerprints of Some p \<Rightarrow> Some p
           | None \<Rightarrow> (case config_dir of None \<Rightarrow> None
               | Some d \<Rightarrow> if path_exists fs (d @ [u ''fingerprints'']) \<and> ae_listing A (d @ [u ''fingerprints'']) \<noteq> []
                           then Some (d @ [u ''fingerprints'']) else None))
     in ebind (cmd_attribute A leak url fps fs) (\<lambda>r.
          Inr (Some (r\<lparr>lr_direct := map (\<lambda>(m, _). (m, rich_answer A url m)) (lr_direct r)\<rparr>)))))"

section \<open>What the installation looks like\<close>

definition format_hex_short :: "pystr \<Rightarrow> nat \<Rightarrow> pystr" where
  "format_hex_short hex_str n = (if length hex_str \<le> n then hex_str else take n hex_str @ u ''...'')"

definition shown_hex :: "pydict \<Rightarrow> string \<Rightarrow> nat \<Rightarrow> pystr res" where
  "shown_hex d k n =
     (case dgetd d k (PStr []) of PStr s \<Rightarrow> Inr (format_hex_short s n) | _ \<Rightarrow> Inl (TypeError ''no text''))"

text \<open>A line of the listing: the \<open>id\<close>, whether it is the active identity, both public keys, the file\<close>

datatype key_line = KeyLine pyval bool pystr pystr pystr | Unreadable pystr pystr

definition caught_read :: "exn \<Rightarrow> bool" where
  "caught_read e \<longleftrightarrow> e = JSONDecodeError \<or> is_OSError e"

definition key_row :: "rich_env \<Rightarrow> pydict \<Rightarrow> fs \<Rightarrow> path \<Rightarrow> key_line res" where
  "key_row R cfg fs f =
     (let os = ce_os (re_cli R); stem = name_stem (SafeIo.path_name f) in
      case read_json os fs f of
        Inl e \<Rightarrow> if caught_read e then Inr (Unreadable stem (SafeIo.path_name f)) else Inl e
      | Inr (PDict d) \<Rightarrow>
          ebind (shown_hex d ''ed25519_pub'' 24) (\<lambda>ed.
          ebind (shown_hex d ''x25519_pub'' 24) (\<lambda>x.
            Inr (KeyLine (dgetd d ''id'' (PStr stem)) (PStr (os_path_str os f) = dgetd cfg ''issuer_identity'' (PStr []))
              ed x (SafeIo.path_name f))))
      | Inr _ \<Rightarrow> Inl (AttributeError ''get''))"

text \<open>The lines of the identities and of the recipients; a recipient is never marked as active.\<close>

definition rich_keys_list :: "rich_env \<Rightarrow> fs \<Rightarrow> (key_line list \<times> key_line list) option res" where
  "rich_keys_list R fs =
     ebind (load_config R fs) (\<lambda>(cfg, config_dir).
       case config_dir of None \<Rightarrow> Inr None | Some d \<Rightarrow>
       ebind (mapM_res (key_row R cfg fs)
           (filter (\<lambda>f. \<not> suffixed (u ''.pub.json'') (SafeIo.path_name f) \<and> SafeIo.path_name f \<noteq> CONFIG_FILENAME)
             (re_json_files R d))) (\<lambda>identities.
       let rdir = d @ [u ''recipients''] in
       ebind (mapM_res (key_row R [] fs) (if path_exists fs rdir then re_json_files R rdir else [])) (\<lambda>recipients.
         Inr (Some (identities, recipients)))))"

datatype issuer_status = NotConfigured | FileMissing path | FileUnreadable path | Issuer pyval pystr

datatype health_status = NotAsked | Healthy "pyval list" | HttpStatus int | NoAnswer

record status_report =
  st_config_dir :: "path option"
  st_issuer :: issuer_status
  st_registry_url :: pyval
  st_default_watermark :: pyval
  st_recipients :: nat
  st_fingerprints :: nat
  st_health :: health_status

definition issuer_status_of :: "rich_env \<Rightarrow> pydict \<Rightarrow> fs \<Rightarrow> issuer_status res" where
  "issuer_status_of R cfg fs =
     (if \<not> truthy (dgetn cfg ''issuer_identity'') then Inr NotConfigured
      else
        case dgetn cfg ''issuer_identity'' of
          PStr s \<Rightarrow>
            let p = path_join (re_cwd R) s in
            if \<not> path_exists fs p then Inr (FileMissing p)
            else
              (case read_json (ce_os (re_cli R)) fs p of
                 Inl e \<Rightarrow> if caught_read e then Inr (FileUnreadable p) else Inl e
               | Inr (PDict d) \<Rightarrow>
                   ebind (shown_hex d ''ed25519_pub'' 32) (\<lambda>ed. Inr (Issuer (dgetd d ''id'' (PStr (u ''unknown''))) ed))
               | Inr _ \<Rightarrow> Inl (AttributeError ''get''))
        | _ \<Rightarrow> Inl (TypeError ''path''))"

text \<open>\<open>get\<close> is the request to \<open>/health\<close>: the status code and the parsed body. Whatever goes wrong is a warning.\<close>

definition health_of :: "(pystr \<Rightarrow> (int \<times> pyval res) res) \<Rightarrow> pyval \<Rightarrow> health_status" where
  "health_of get url =
     (if \<not> truthy url \<or> url = PStr (u ''not configured'') then NotAsked
      else
        case url of
          PStr s \<Rightarrow>
            (case get (rstrip_chars (u ''/'') s @ u ''/health'') of
               Inr (code, body) \<Rightarrow>
                 if code \<noteq> 200 then HttpStatus code
                 else
                   (case body of
                      Inr (PDict d) \<Rightarrow>
                        Healthy [dgetd d ''status'' (PStr (u ''ok'')), dgetd d ''service'' (PStr (u ''unknown'')),
                          dgetd d ''version'' (PStr (u ''unknown'')), dgetd d ''tlog_size'' (PInt 0)]
                    | _ \<Rightarrow> NoAnswer)
             | Inl e \<Rightarrow> NoAnswer)
        | _ \<Rightarrow> NoAnswer)"

definition rich_status :: "rich_env \<Rightarrow> (pystr \<Rightarrow> (int \<times> pyval res) res) \<Rightarrow> fs \<Rightarrow> status_report res" where
  "rich_status R get fs =
     ebind (load_config R fs) (\<lambda>(cfg, config_dir).
     ebind (issuer_status_of R cfg fs) (\<lambda>issuer.
     let registry_url = dgetd cfg ''registry_url'' (PStr (u ''not configured''));
         files = (\<lambda>name. case config_dir of None \<Rightarrow> [] | Some d \<Rightarrow>
           if path_exists fs (d @ [name]) then re_json_files R (d @ [name]) else [])
     in Inr \<lparr>st_config_dir = config_dir, st_issuer = issuer, st_registry_url = registry_url,
          st_default_watermark = dgetd cfg ''default_watermark'' (PStr (u ''not set'')),
          st_recipients = length (files (u ''recipients'')),
          st_fingerprints = length (filter (\<lambda>p. suffixed (u ''.fingerprint.json'') (SafeIo.path_name p)) (files (u ''fingerprints''))),
          st_health = health_of get registry_url\<rparr>))"

text \<open>The listing has a line for each identity file and each recipient file, in their order.\<close>

lemma key_row_file: "key_row R cfg fs f = Inr l \<Longrightarrow> (case l of KeyLine _ _ _ _ n \<Rightarrow> n | Unreadable _ n \<Rightarrow> n) = SafeIo.path_name f"
  by (auto simp: key_row_def Let_def ebind_eq_Inr split: sum.splits pyval.splits if_splits)

section \<open>The search ends\<close>

lemma find_up_ends:
  "find_up fs p = Some (map_option (\<lambda>q. q @ [CONFIG_DIR_NAME]) (find (has_config fs) (map (\<lambda>n. take n p) (rev [0..<Suc (length p)]))))"
proof (induction "length p" arbitrary: p)
  case 0
  then show ?case by (subst find_up.simps) (simp add: path_parent_def)
next
  case (Suc k)
  then obtain q x where p: "p = q @ [x]" by (cases p rule: rev_cases) auto
  have *: "map (\<lambda>n. take n p) (rev [0..<Suc (length q)]) = map (\<lambda>n. take n q) (rev [0..<Suc (length q)])"
    by (rule map_cong) (auto simp: p)
  have "map (\<lambda>n. take n p) (rev [0..<Suc (length p)]) = p # map (\<lambda>n. take n q) (rev [0..<Suc (length q)])"
    unfolding * [symmetric] by (simp add: p)
  then show ?case using Suc p by (subst find_up.simps) (simp add: path_parent_def del: upt_Suc)
qed

text \<open>
  C38: the search for the configuration ends. The loop that climbs from the working directory returns for
  every file system: it finds the \<open>.oversight\<close> of the nearest directory above that has one, the working
  directory first and the root last, then that of the home directory, and otherwise nothing.
\<close>

theorem config_search_ends:
  "find_config_dir fs cwd home =
     Some (map_option (\<lambda>q. q @ [CONFIG_DIR_NAME])
       (find (has_config fs) (map (\<lambda>n. take n cwd) (rev [0..<Suc (length cwd)]) @ [home])))"
proof -
  have "find P (xs @ [y]) = (case find P xs of Some x \<Rightarrow> Some x | None \<Rightarrow> if P y then Some y else None)" for P :: "path \<Rightarrow> bool" and xs y
    by (induction xs) auto
  then show ?thesis unfolding find_config_dir_def find_up_ends by (simp split: option.split)
qed

section \<open>What two commands do against their messages\<close>

lemma private_output_refused:
  assumes "is_private_key_file os fs p = Inr True"
  shows "\<exists>e. validate_output_path U os fs p is force True = Inl e"
  using assms by (cases "check_inputs os p is") (auto simp: validate_output_path_def)

text \<open>
  Where a private key is, \<open>keys generate\<close> writes nothing, with \<open>--force\<close> too, although the message for
  an existing file says to use \<open>--force\<close> to overwrite it.
\<close>

lemma force_keeps_identity:
  assumes "rich_keys_generate R name (Some p) force xsk esk h = (h', r)"
    and "is_private_key_file (ce_os (re_cli R)) (hd h) p = Inr True"
  shows "h' = h \<and> r \<noteq> Done q"
proof -
  obtain e where e: "validate_output_path (ce_ucd (re_cli R)) (ce_os (re_cli R)) (hd h) p [] force True = Inl e"
    using private_output_refused [OF assms(2)] by blast
  show ?thesis
    using assms(1)
    by (cases "load_config R (hd h)"; cases "with_suffix p (u ''.pub.json'')")
       (auto simp: rich_keys_generate_def Let_def e exit_on_def split: if_splits)
qed

text \<open>
  The \<open>id\<close> of an imported key is not checked: an absolute one chooses the file that is written, outside
  the directory of the recipients.
\<close>

lemma import_leaves_recipients:
  assumes "rich_keys_import R source force h = (h', Done dest)"
    and "read_json (ce_os (re_cli R)) (hd h) source = Inr (PDict d)" "dget d ''id'' = Some (PStr (47 # s))"
  shows "dest = path_parts (47 # s @ u ''.pub.json'')"
proof -
  obtain cfg dir where c: "load_config R (hd h) = Inr (cfg, Some dir)" "path_exists (hd h) source" "dget d ''x25519_pub'' \<noteq> None"
    using assms(1,2)
    by (cases "load_config R (hd h)"; cases "dget d ''x25519_pub''"; cases "path_exists (hd h) source")
       (auto simp: rich_keys_import_def Let_def exit_on_def split: option.splits)
  show ?thesis
    using assms c
    by (simp add: rich_keys_import_def Let_def exit_on_def path_join_def dgetd_def prefixed_def split: if_splits sum.splits prod.splits)
qed

end
