(* ===== verification/Gui.thy ===== *)
theory Gui
  imports Rich
begin

text \<open>
  The window of \<open>src/cli/gui.py\<close>: the checks of what was typed, and the three buttons, which generate
  keys, seal and open. An outcome is the message that ends the handler: \<open>Done\<close> is the information box,
  \<open>Raised\<close> the error box that shows the exception, \<open>Exited\<close> the silent return when the disclosure is
  declined. The layout of the window and the file dialogs are left out.
\<close>

section \<open>What was typed\<close>

text \<open>
  \<open>ge_overwrite\<close> and \<open>ge_disclosed\<close> are the answers of the two dialogs; \<open>ge_netloc_ok\<close> is the check of
  brackets and of compatibility characters that \<open>urlparse\<close> makes of a host.
\<close>

record gui_env =
  ge_cli :: cli_env
  ge_cwd :: path
  ge_overwrite :: "path \<Rightarrow> bool"
  ge_disclosed :: bool
  ge_netloc_ok :: "pystr \<Rightarrow> bool"

definition gui_fs_os :: "gui_env \<Rightarrow> os" where
  "gui_fs_os G = ce_os (ge_cli G)"

definition require_file :: "gui_env \<Rightarrow> fs \<Rightarrow> pystr \<Rightarrow> path res" where
  "require_file G fs raw_path =
     (if strip raw_path = [] then Inl (ValueError ''Please choose a file.'')
      else
        let path = path_join (ge_cwd G) raw_path in
        if is_windows_reserved_path (ce_ucd (ge_cli G)) path then Inl (ValueError ''uses a Windows reserved device name'')
        else if \<not> path_exists fs path \<or> \<not> is_file fs path then Inl (ValueError ''not found'')
        else Inr path)"

definition read_json_object :: "os \<Rightarrow> fs \<Rightarrow> path \<Rightarrow> pydict res" where
  "read_json_object os fs path =
     (case read_json os fs path of
        Inl e \<Rightarrow>
          Inl (if e = JSONDecodeError then ValueError ''is not valid JSON.''
               else if e = UnicodeDecodeError then ValueError ''is not UTF-8 JSON.'' else e)
      | Inr (PDict d) \<Rightarrow> Inr d
      | Inr _ \<Rightarrow> Inl (ValueError ''must contain a JSON object.''))"

definition validate_hex_field :: "pyval \<Rightarrow> nat \<Rightarrow> unit res" where
  "validate_hex_field v expected_len =
     (case v of
        PStr _ \<Rightarrow>
          (case py_fromhex v of
             Inl e \<Rightarrow> Inl (ValueError ''is not valid hex.'')
           | Inr raw \<Rightarrow> if length raw \<noteq> expected_len then Inl (ValueError ''must decode to 32 bytes.'') else Inr ())
      | _ \<Rightarrow> Inl (ValueError ''must be hex text.''))"

fun check_key_fields :: "pydict \<Rightarrow> string list \<Rightarrow> unit res" where
  "check_key_fields d [] = Inr ()"
| "check_key_fields d (k # ks) =
     (case dget d k of
        None \<Rightarrow> Inl (ValueError ''did you select a public key by mistake?'')
      | Some v \<Rightarrow> ebind (validate_hex_field v 32) (\<lambda>_. check_key_fields d ks))"

definition read_private_identity :: "os \<Rightarrow> fs \<Rightarrow> path \<Rightarrow> pydict res" where
  "read_private_identity os fs path =
     ebind (read_json_object os fs path) (\<lambda>d.
     ebind (check_key_fields d [''x25519_priv'', ''x25519_pub'', ''ed25519_priv'', ''ed25519_pub'']) (\<lambda>_.
       if dget d ''id'' = None then Inl (ValueError ''does not contain id.'') else Inr d))"

definition read_public_identity :: "os \<Rightarrow> fs \<Rightarrow> path \<Rightarrow> pydict res" where
  "read_public_identity os fs path =
     ebind (read_json_object os fs path) (\<lambda>d.
       if dget d ''id'' = None \<or> dget d ''x25519_pub'' = None then Inl (ValueError ''does not contain'')
       else
         ebind (validate_hex_field (dgetn d ''x25519_pub'') 32) (\<lambda>_.
         ebind (case dget d ''ed25519_pub'' of None \<Rightarrow> Inr () | Some v \<Rightarrow> validate_hex_field v 32) (\<lambda>_. Inr d)))"

text \<open>Scheme and \<open>netloc\<close> of \<open>urlparse\<close>\<close>

definition scheme_char :: "nat \<Rightarrow> bool" where
  "scheme_char c \<longleftrightarrow> (97 \<le> c \<and> c \<le> 122) \<or> (65 \<le> c \<and> c \<le> 90) \<or> (48 \<le> c \<and> c \<le> 57) \<or> c \<in> set (u ''+-.'')"

definition url_scheme_netloc :: "(pystr \<Rightarrow> bool) \<Rightarrow> pystr \<Rightarrow> (pystr \<times> pystr) res" where
  "url_scheme_netloc netloc_ok url =
     (let url = filter (\<lambda>c. c \<notin> {9, 10, 13}) (dropWhile (\<lambda>c. c \<le> 32) url);
          head = takeWhile (\<lambda>c. c \<noteq> 58) url;
          (scheme, rest) =
            (if 58 \<in> set url \<and> head \<noteq> [] \<and> ascii_lower (hd head) \<in> {97..122} \<and> list_all scheme_char head
             then (map ascii_lower head, drop (Suc (length head)) url) else ([], url))
      in if prefixed (u ''//'') rest then
           let netloc = takeWhile (\<lambda>c. c \<notin> set (u ''/?#'')) (drop 2 rest)
           in if netloc_ok netloc then Inr (scheme, netloc) else Inl (ValueError ''Invalid URL'')
         else Inr (scheme, []))"

definition validate_registry_url :: "gui_env \<Rightarrow> pystr \<Rightarrow> pystr res" where
  "validate_registry_url G raw_url =
     (let url = strip raw_url in
      ebind (url_scheme_netloc (ge_netloc_ok G) url) (\<lambda>(scheme, netloc).
        if scheme \<notin> {u ''http'', u ''https''} \<or> netloc = []
        then Inl (ValueError ''Registry URL must be an http(s) URL with a host.'') else Inr url))"

definition registry_domain :: "gui_env \<Rightarrow> pystr \<Rightarrow> pystr res" where
  "registry_domain G registry_url =
     ebind (url_scheme_netloc (ge_netloc_ok G) registry_url) (\<lambda>(scheme, netloc).
       Inr (if netloc = [] then u ''oversightprotocol.dev'' else netloc))"

definition validate_content_type :: "pystr \<Rightarrow> pystr res" where
  "validate_content_type raw_content_type =
     (let content_type = strip (if raw_content_type = [] then u ''application/octet-stream'' else raw_content_type) in
      if list_ex (\<lambda>ch. ch \<in> set content_type) [13, 10, 34, 39, 60, 62]
      then Inl (ValueError ''Content type contains unsafe characters.'')
      else if 47 \<notin> set content_type then Inl (ValueError ''Content type must look like a MIME type, such as text/plain.'')
      else Inr content_type)"

section \<open>Output paths\<close>

definition public_key_path :: "ucd \<Rightarrow> path \<Rightarrow> path res" where
  "public_key_path U private_path =
     (let name = SafeIo.path_name private_path in
      if suffixed (u ''.pub.json'') (py_lower U name)
      then Inl (ValueError ''Private key output should not end with .pub.json.'')
      else if suffixed (u ''.priv.json'') (py_lower U name)
      then Inr (butlast private_path @ [take (length name - 10) name @ u ''.pub.json''])
      else with_suffix private_path (u ''.pub.json''))"

definition default_sealed_path :: "ucd \<Rightarrow> path \<Rightarrow> path" where
  "default_sealed_path U input_path =
     (let name = SafeIo.path_name input_path in
      if suffixed (u ''.sealed'') (py_lower U name) then butlast input_path @ [name @ u ''.out.sealed'']
      else butlast input_path @ [name @ u ''.sealed''])"

definition prepare_output :: "gui_env \<Rightarrow> fs \<Rightarrow> path \<Rightarrow> path list \<Rightarrow> unit res" where
  "prepare_output G fs p input_paths =
     (let U = ce_ucd (ge_cli G); os = gui_fs_os G in
      ebind (is_private_key_file os fs p) (\<lambda>private.
        if private then Inl (ValueError ''Refusing to overwrite an Oversight private key file.'')
        else
          (case validate_output_path U os fs p input_paths False True of
             Inr _ \<Rightarrow> Inr ()
           | Inl (FileExistsError _) \<Rightarrow>
               if \<not> ge_overwrite G p then Inl (ValueError ''Write cancelled; output file already exists.'')
               else validate_output_path U os fs p input_paths True True
           | Inl e \<Rightarrow> Inl e)))"

section \<open>The three buttons\<close>

definition gui_keygen :: "gui_env \<Rightarrow> pystr \<Rightarrow> pystr \<Rightarrow> bytes \<Rightarrow> bytes \<Rightarrow> history \<Rightarrow> history \<times> unit outcome" where
  "gui_keygen G identity_id out_path xsk esk h =
     (let os = gui_fs_os G; ident = strip (if identity_id = [] then u ''identity'' else identity_id) in
      case (if ident = [] then Inl (ValueError ''Please enter an identity name.'')
            else if 256 < length ident then Inl (ValueError ''Identity name must be 256 characters or fewer.'')
            else if out_path = [] then Inl (ValueError ''Please choose a private key output path.'')
            else
              let path = path_join (ge_cwd G) out_path in
              ebind (public_key_path (ce_ucd (ge_cli G)) path) (\<lambda>pub_path.
              ebind (prepare_output G (hd h) path []) (\<lambda>_.
              ebind (prepare_output G (hd h) pub_path [path]) (\<lambda>_. Inr (path, pub_path))))) of
        Inl e \<Rightarrow> (h, Raised e)
      | Inr (path, pub_path) \<Rightarrow>
          let out = identity_dict (Some ident) (identity_generate (ce_crypto (ge_cli G)) xsk esk) in
          (case atomic_write_private_json os path out h of
             (h1, Inl e) \<Rightarrow> (h1, Raised e)
           | (h1, Inr _) \<Rightarrow>
               (case json_dumps_indent (PDict (public_dict out)) of
                  Inl e \<Rightarrow> (h1, Raised e)
                | Inr t \<Rightarrow>
                    (case atomic_write_text os pub_path t None h1 of
                       (h2, Inl e) \<Rightarrow> (h2, Raised e)
                     | (h2, Inr _) \<Rightarrow> (h2, Done ())))))"

record gui_seal_fields =
  gs_input :: pystr
  gs_issuer :: pystr
  gs_recipient :: pystr
  gs_out :: pystr
  gs_registry_url :: pystr
  gs_content_type :: pystr
  gs_l3_mode :: pystr
  gs_watermark :: bool

text \<open>
  The marks of \<open>cmd_seal\<close>, but a file that is no text is refused, the content type is checked before the
  policy is asked, and the dialog takes the place of the acknowledgement.
\<close>

definition gui_mark :: "gui_env \<Rightarrow> gui_seal_fields \<Rightarrow> seal_args \<Rightarrow> bytes \<Rightarrow> marking option res" where
  "gui_mark G f a plaintext =
     (if \<not> gs_watermark f then Inr (Some \<lparr>mk_plaintext = plaintext, mk_refs = [], mk_decision = None\<rparr>)
      else if utf8_decode plaintext = Inl UnicodeDecodeError then Inl (ValueError ''File is not UTF-8 text.'')
      else ebind (validate_content_type (gs_content_type f)) (\<lambda>ct.
             mark_plaintext ((ge_cli G)\<lparr>ce_answer := None\<rparr>)
               (a\<lparr>sa_content_type := ct, sa_watermark := True, sa_l3_ack := ge_disclosed G\<rparr>) plaintext))"

text \<open>The arguments, before the registry address and the content type are known\<close>

definition gui_args :: "gui_env \<Rightarrow> gui_seal_fields \<Rightarrow> path \<Rightarrow> path \<Rightarrow> path \<Rightarrow> path \<Rightarrow> pystr \<Rightarrow> seal_args" where
  "gui_args G f input_path issuer_path receiver_path out_path issuer_id =
     \<lparr>sa_input = input_path, sa_input_arg = os_path_str (gui_fs_os G) input_path, sa_issuer_key = issuer_path,
      sa_recipient_pub = receiver_path, sa_out = out_path, sa_issuer_id = issuer_id, sa_registry_url = [],
      sa_registry_domain = [], sa_content_type = [], sa_watermark = gs_watermark f, sa_l3_mode = gs_l3_mode f,
      sa_l3_ack = False, sa_document_class = u ''auto'', sa_register = None\<rparr>"

text \<open>
  The sealed copy, without a fingerprint, and where it goes; an \<open>id\<close> of the issuer that is no text, which
  Python would put into the manifest as it is, is refused here.
\<close>

definition gui_copy :: "gui_env \<Rightarrow> gui_seal_fields \<Rightarrow> fs \<Rightarrow> (path \<times> copy) option res" where
  "gui_copy G f fs =
     (let E = ge_cli G; os = ce_os E in
      ebind (require_file G fs (gs_input f)) (\<lambda>input_path.
      ebind (require_file G fs (gs_issuer f)) (\<lambda>issuer_path.
      ebind (require_file G fs (gs_recipient f)) (\<lambda>receiver_path.
      let raw_out = strip (gs_out f);
          out_path = (if raw_out = [] then default_sealed_path (ce_ucd E) input_path else path_join (ge_cwd G) raw_out) in
      ebind (prepare_output G fs out_path [input_path, issuer_path, receiver_path]) (\<lambda>_.
      ebind (read_bytes os fs input_path) (\<lambda>plaintext.
      ebind (read_private_identity os fs issuer_path) (\<lambda>issuer.
      ebind (read_public_identity os fs receiver_path) (\<lambda>rec_pub.
      ebind (setting None issuer ''id'' (u ''issuer'')) (\<lambda>issuer_id.
      let a = gui_args G f input_path issuer_path receiver_path out_path issuer_id in
      ebind (gui_mark G f a plaintext) (\<lambda>marked.
        case marked of None \<Rightarrow> Inr None | Some mk \<Rightarrow>
        ebind (validate_registry_url G (gs_registry_url f)) (\<lambda>url.
        ebind (validate_content_type (gs_content_type f)) (\<lambda>ct.
        ebind (registry_domain G url) (\<lambda>domain.
        ebind (copy_manifest E (a\<lparr>sa_registry_url := url, sa_registry_domain := domain, sa_content_type := ct\<rparr>)
                 (PDict issuer) (PDict rec_pub) plaintext mk) (\<lambda>(m, rid).
        ebind (ebind (ditem issuer ''ed25519_priv'') py_fromhex) (\<lambda>isk.
        ebind (ebind (ditem rec_pub ''x25519_pub'') py_fromhex) (\<lambda>rpk.
        let sealed = seal (ce_crypto E) (ce_eph E) (ce_wrap_nonce E) (ce_dek E) (ce_nonce E) (mk_plaintext mk) m isk rpk in
        ebind (snd sealed) (\<lambda>blob.
          Inr (Some (out_path, \<lparr>cp_manifest = fst sealed, cp_recipient_id = rid, cp_marking = mk,
            cp_fingerprint = None, cp_blob = blob\<rparr>)))))))))))))))))))"

text \<open>Here the record has no mark, and is only written beside a marked copy.\<close>

definition gui_fingerprint_record :: "copy \<Rightarrow> fingerprint \<Rightarrow> pydict" where
  "gui_fingerprint_record c fp =
     [(key ''file_id'', m_file_id (cp_manifest c)), (key ''recipient_id'', cp_recipient_id c),
      (key ''canonical_content_hash'', m_canonical_content_hash (cp_manifest c)),
      (key ''l3_policy'', m_l3_policy (cp_manifest c)), (key ''fingerprint'', PDict (fp_to_dict fp))]"

definition gui_write_fingerprint :: "gui_env \<Rightarrow> path \<Rightarrow> copy \<Rightarrow> history \<Rightarrow> history \<times> unit res" where
  "gui_write_fingerprint G out_path c h =
     (if mk_refs (cp_marking c) = [] then (h, Inr ())
      else
        (case ebind (copy_fingerprint (ce_ucd (ge_cli G)) (mk_plaintext (cp_marking c))) (\<lambda>fp.
              case fp of None \<Rightarrow> Inl UnicodeDecodeError | Some fp \<Rightarrow>
              ebind (with_suffix out_path (u ''.fingerprint.json'')) (\<lambda>p.
              ebind (json_dumps_indent (PDict (gui_fingerprint_record c fp))) (\<lambda>t. Inr (p, t)))) of
           Inl e \<Rightarrow> (h, Inl e)
         | Inr (p, t) \<Rightarrow> atomic_write_text (gui_fs_os G) p t None h))"

definition gui_seal :: "gui_env \<Rightarrow> gui_seal_fields \<Rightarrow> history \<Rightarrow> history \<times> copy outcome" where
  "gui_seal G f h =
     (case outcome_of (gui_copy G f (hd h)) of
        Raised e \<Rightarrow> (h, Raised e)
      | Exited \<Rightarrow> (h, Exited)
      | Done (out_path, c) \<Rightarrow>
          (case atomic_write_bytes (gui_fs_os G) out_path (cp_blob c) None h of
             (h1, Inl e) \<Rightarrow> (h1, Raised e)
           | (h1, Inr _) \<Rightarrow>
               (case gui_write_fingerprint G out_path c h1 of
                  (h2, Inl e) \<Rightarrow> (h2, Raised e)
                | (h2, Inr _) \<Rightarrow> (h2, Done c))))"

definition gui_opened :: "gui_env \<Rightarrow> fs \<Rightarrow> pystr \<Rightarrow> pystr \<Rightarrow> pystr \<Rightarrow> (path \<times> bytes \<times> manifest) res" where
  "gui_opened G fs input identity out =
     (let E = ge_cli G; os = ce_os E in
      ebind (require_file G fs input) (\<lambda>input_path.
      ebind (require_file G fs identity) (\<lambda>identity_path.
      let out_path_raw = strip out in
      if out_path_raw = [] then Inl (ValueError ''Please choose a plaintext output path.'')
      else
        let out_path = path_join (ge_cwd G) out_path_raw in
        ebind (prepare_output G fs out_path [input_path, identity_path]) (\<lambda>_.
        ebind (read_private_identity os fs identity_path) (\<lambda>ident.
        ebind (read_bytes os fs input_path) (\<lambda>blob.
        ebind (ebind (ditem ident ''x25519_priv'') py_fromhex) (\<lambda>sk.
        ebind (snd (open_sealed (ce_crypto E) (ce_now E) True blob sk None None (\<lambda>_. None))) (\<lambda>(plaintext, m).
          Inr (out_path, plaintext, m)))))))))"

definition gui_open :: "gui_env \<Rightarrow> pystr \<Rightarrow> pystr \<Rightarrow> pystr \<Rightarrow> history \<Rightarrow> history \<times> manifest outcome" where
  "gui_open G input identity out h =
     (case gui_opened G (hd h) input identity out of
        Inl e \<Rightarrow> (h, Raised e)
      | Inr (out_path, plaintext, m) \<Rightarrow>
          (case atomic_write_bytes (gui_fs_os G) out_path plaintext None h of
             (h1, Inl e) \<Rightarrow> (h1, Raised e)
           | (h1, Inr _) \<Rightarrow> (h1, Done m)))"

section \<open>What the checks guarantee\<close>

lemma prepare_output_ok:
  assumes "prepare_output G fs p ins = Inr ()"
  shows "is_private_key_file (gui_fs_os G) fs p = Inr False" "path_exists fs p \<Longrightarrow> ge_overwrite G p"
    "check_inputs (gui_fs_os G) p ins = Inr ()"
proof -
  have v: "check_inputs os q is = Inr () \<and> (path_exists gs q \<longrightarrow> force)"
    if "validate_output_path U os gs q is force True = Inr ()" for U os gs q "is" force
    using that by (auto simp: validate_output_path_def ebind_eq_Inr split: if_splits)
  obtain b where b: "is_private_key_file (gui_fs_os G) fs p = Inr b" using assms by (auto simp: prepare_output_def Let_def ebind_eq_Inr)
  then show "is_private_key_file (gui_fs_os G) fs p = Inr False" "path_exists fs p \<Longrightarrow> ge_overwrite G p"
    "check_inputs (gui_fs_os G) p ins = Inr ()"
    using assms by (auto simp: prepare_output_def Let_def split: if_splits sum.splits exn.splits dest!: v)
qed

text \<open>
  The disk changes only after the checks: a run of the open button that leaves any trace has an output
  path that is none of its inputs and no private key, and an existing file was to be overwritten.
\<close>

lemma gui_open_guarded:
  assumes "gui_open G input identity out h = (h', r)" "h' \<noteq> h"
  shows "let p = path_join (ge_cwd G) (strip out) in
    is_private_key_file (gui_fs_os G) (hd h) p = Inr False \<and> (path_exists (hd h) p \<longrightarrow> ge_overwrite G p)
    \<and> check_inputs (gui_fs_os G) p [path_join (ge_cwd G) input, path_join (ge_cwd G) identity] = Inr ()"
proof -
  obtain x where x: "gui_opened G (hd h) input identity out = Inr x"
    using assms by (cases "gui_opened G (hd h) input identity out") (auto simp: gui_open_def)
  have req: "require_file G fs s = Inr p \<Longrightarrow> p = path_join (ge_cwd G) s" for fs s p
    by (auto simp: require_file_def Let_def split: if_splits)
  have "\<exists>ip kp. require_file G (hd h) input = Inr ip \<and> require_file G (hd h) identity = Inr kp
      \<and> prepare_output G (hd h) (path_join (ge_cwd G) (strip out)) [ip, kp] = Inr ()"
    using x unfolding gui_opened_def Let_def ebind_eq_Inr by (auto simp: ebind_eq_Inr split: if_splits)
  then have "prepare_output G (hd h) (path_join (ge_cwd G) (strip out)) [path_join (ge_cwd G) input, path_join (ge_cwd G) identity] = Inr ()"
    by (auto dest!: req)
  then show ?thesis using prepare_output_ok unfolding Let_def by blast
qed

lemma gui_seal_guarded:
  assumes "gui_seal G f h = (h', r)" "h' \<noteq> h"
  shows "\<exists>p. is_private_key_file (gui_fs_os G) (hd h) p = Inr False \<and> (path_exists (hd h) p \<longrightarrow> ge_overwrite G p)
    \<and> check_inputs (gui_fs_os G) p (map (path_join (ge_cwd G)) [gs_input f, gs_issuer f, gs_recipient f]) = Inr ()
    \<and> (\<exists>c. gui_copy G f (hd h) = Inr (Some (p, c)))"
proof -
  obtain p c where x: "gui_copy G f (hd h) = Inr (Some (p, c))"
    using assms by (cases "gui_copy G f (hd h)" rule: outcome_of.cases) (auto simp: gui_seal_def)
  have req: "require_file G fs s = Inr q \<Longrightarrow> q = path_join (ge_cwd G) s" for fs s q
    by (auto simp: require_file_def Let_def split: if_splits)
  have "\<exists>ip sp rp. require_file G (hd h) (gs_input f) = Inr ip \<and> require_file G (hd h) (gs_issuer f) = Inr sp
      \<and> require_file G (hd h) (gs_recipient f) = Inr rp \<and> prepare_output G (hd h) p [ip, sp, rp] = Inr ()"
    using x unfolding gui_copy_def Let_def ebind_eq_Inr 
    by (elim exE conjE, simp split: option.split_asm prod.split_asm add: ebind_eq_Inr, elim exE conjE, simp)
  then have "prepare_output G (hd h) p (map (path_join (ge_cwd G)) [gs_input f, gs_issuer f, gs_recipient f]) = Inr ()"
    by (auto dest!: req)
  then show ?thesis using prepare_output_ok x by blast
qed

text \<open>The files that key generation writes are accepted where they belong, and the public one is no private identity.\<close>

lemma gui_keys_accepted:
  assumes "length xsk = 32" "length esk = 32" "length (x_pub C xsk) = 32" "length (ed_pub C esk) = 32"
    and "d = identity_dict ident (identity_generate C xsk esk)"
  shows "read_json os fs p = Inr (PDict d) \<Longrightarrow> read_private_identity os fs p = Inr d"
    "read_json os fs p = Inr (PDict (public_dict d)) \<Longrightarrow> read_public_identity os fs p = Inr (public_dict d)"
    "read_json os fs p = Inr (PDict (public_dict d)) \<Longrightarrow> \<exists>e. read_private_identity os fs p = Inl (ValueError e)"
  using assms
  by (simp_all add: read_private_identity_def read_public_identity_def read_json_object_def identity_dict_def public_dict_def
      identity_generate_def validate_hex_field_def)

text \<open>
  A registry address with a port gives beacons whose DNS names contain the port, which no resolver can
  look up: the domain is the \<open>netloc\<close>, not the host.
\<close>

lemma gui_port_in_dns:
  assumes "ge_netloc_ok G (u ''localhost:8000'')"
  shows "registry_domain G (u ''http://localhost:8000'') = Inr (u ''localhost:8000'')"
  using assms by (simp add: registry_domain_def url_scheme_netloc_def Let_def u_def prefixed_def scheme_char_def ascii_lower_def)

end
