(* ===== verification/Spec2Isabelle.thy ===== *)
theory Spec2Isabelle
  imports Container L3Policy Ecc Watermark RegistryEvidence RegistryRace Fingerprint SafeIo CanaryEvidence Beacon Siem
    Match Timestamp Decoy CliLeak Gui
begin

text \<open>
  Oversight: a model of the Python implementation under \<open>src/\<close>, with its correctness.

  The program. An issuer seals a file for one recipient: the copy gets invisible marks that name the
  recipient, beacons that call home, and a manifest that the issuer signs; the data key is wrapped for
  the recipient's public key. The issuer may register the copy at an attribution registry. When a copy
  leaks, its marks are read and looked up at the registry; when a beacon fires, over HTTP or DNS, the
  registry records the event in its database and in a transparency log, and hands out evidence bundles
  with inclusion proofs. Beside the registry run a monitor that polls the log for decoys that fire, a
  job that checks scraped content for marks, and an export of the events to a SIEM. Two command lines
  and a window drive the sealing and the attribution.

  Conventions. A Python \<open>str\<close> is a list of code points, \<open>bytes\<close> a list of 8-bit words, \<open>int\<close> is \<open>int\<close>; a
  parsed JSON value is \<open>pyval\<close>. Whatever may raise returns \<open>exn + 'a\<close>, with Python's subclass relation for
  the \<open>except\<close> clauses; what changes state returns the new state beside the result, also when it raises.
  Random draws, clocks, replies of the network and failures of the disk are arguments, so that a theorem
  holds for all of them. Third-party code is an argument too: \<open>crypto_ops\<close> (the packages cryptography,
  nacl, oqs) with named hypotheses such as \<open>sig_correct\<close>, \<open>dh_correct\<close> and \<open>aead_correct\<close>, the document
  libraries in \<open>format_libs\<close>, the tables of the Unicode database in \<open>ucd\<close>. Each such hypothesis is met by
  a concrete instance (\<open>toy_ops\<close>, \<open>ascii_ucd\<close>), at which the witnesses evaluate. Scores that Python computes
  in floating point are exact rationals here.
\<close>

text \<open>
  The theories.

  Ground. \<open>Prelude\<close>: exceptions, sequencing, lists, and the locale \<open>codec\<close> of an encoder and its decoder.
  \<open>Interfaces\<close>: the locales \<open>append_log\<close> (what the registry needs of its log) and \<open>keyed_table\<close> (what it
  needs of its tables). \<open>PyStr\<close>, \<open>PyText\<close>, \<open>Unicode\<close>, \<open>PyRegex\<close>, \<open>PyBase64\<close>, \<open>PyObj\<close>, \<open>PyJson\<close>,
  \<open>JsonRoundtrip\<close>, \<open>JsonIndent\<close>, \<open>JsonFloat\<close>: what the program uses of Python's library, with the round trips
  as interpretations of \<open>codec\<close>. \<open>Sha256\<close>, \<open>Md5\<close>: the hash functions. \<open>CryptoOps\<close>: the primitives.

  Sealed files. \<open>Jcs\<close> is \<open>oversight_core/jcs.py\<close>; \<open>Crypto\<close> the envelopes and signatures of \<open>crypto.py\<close>;
  \<open>Manifest\<close> is \<open>manifest.py\<close>; \<open>Policy\<close> is \<open>policy.py\<close>, with the open counter also as a step relation of
  concurrent openers; \<open>Container\<close> is \<open>container.py\<close>, with \<open>seal\<close>, \<open>open_sealed\<close> and the binary layout;
  \<open>SafeIo\<close> is \<open>safe_io.py\<close>, over a file system as a map and a history of all the file systems a write goes
  through, any of which a crash may leave.

  Marks. \<open>Marks\<close>, \<open>Synonyms\<close>, \<open>Semantic\<close>, \<open>L3Policy\<close>, \<open>Ecc\<close>, \<open>Watermark\<close>: layers L1 and L2, the synonym
  tables, layer L3, where L3 may be used, the repetition code, and the entry points (\<open>watermark.py\<close>,
  \<open>synonyms_v2.py\<close>, \<open>semantic.py\<close>, \<open>l3_policy.py\<close>, \<open>ecc.py\<close>). \<open>Fingerprint\<close>: \<open>fingerprint.py\<close>. \<open>Formats\<close>:
  \<open>formats/\<close>. \<open>Decoy\<close>: \<open>decoy.py\<close>.

  Registry. \<open>Merkle\<close> states RFC 6962 for any hash function in the locale \<open>hash32\<close>; \<open>Tlog\<close> is
  \<open>oversight_core/tlog.py\<close> over it. \<open>Rekor\<close> is \<open>rekor.py\<close>, \<open>Timestamp\<close> is \<open>timestamp.py\<close>. Of
  \<open>registry/server.py\<close>: \<open>Tables\<close>, \<open>RegistryDb\<close> the tables, \<open>RateLimit\<close>, \<open>RegistryAuth\<close> who may call,
  \<open>Registry\<close> booting, registration and events, \<open>RegistryQuery\<close> the queries and the evidence bundle.
  \<open>RegistryInv\<close>, \<open>RegistryProps\<close>, \<open>RegistryHonest\<close>, \<open>RegistryEvidence\<close> hold the invariants and properties:
  every request is a step of a state machine, with any input, clock and outcome of the disk.
  \<open>RegistryRace\<close> lets registrations overlap, each handler a thread with its \<open>SELECT\<close>, its \<open>INSERT\<close>s and its
  entry of the log as steps.

  Around the registry. \<open>Beacon\<close>: \<open>beacon.py\<close> and \<open>oversight_dns/server.py\<close>. \<open>Canary\<close>, \<open>Feed\<close>,
  \<open>CanaryEvidence\<close>: \<open>integrations/perseus_canarykeeper.py\<close>, whose client works in the locale \<open>event_feed\<close>
  that the model of the registry interprets. \<open>Match\<close>: \<open>integrations/flywheel_oversight_match.py\<close>, likewise
  with the locale \<open>attribution_service\<close>. \<open>Siem\<close>: \<open>siem.py\<close>, over \<open>Calendar\<close>, the standard library's calendar.

  Front ends. \<open>Cli\<close> and \<open>CliLeak\<close>: \<open>cli/oversight.py\<close>; \<open>Rich\<close>: \<open>cli/oversight_rich.py\<close>; \<open>Gui\<close>:
  \<open>cli/gui.py\<close>. They reuse the steps they have in common with \<open>cli/oversight.py\<close>.
\<close>

text \<open>
  What is proved. Sealed files: a sealed file opens for its recipient exactly when its policy allows
  it; an open that succeeds has verified signature, trust, policy, hash and counter; the counter is never
  exceeded under any interleaving; parsing accepts exactly the documented layout; canonical bytes are
  unique, and signatures survive the wire. Registry: no sequence of requests changes the issuer of a file, every event is
  backed by the log, only signed registrations get in and signed ones do; evidence bundles verify; the
  log's inclusion proofs are complete, and sound up to an exhibited collision of SHA-256; appends are
  durable; the rate limit holds. Marks and fingerprints: the rewriting of words stays inside their
  classes; the winnowing loop is the specification of window minima, and shared passages are found.
  Composition: what the command line seals the recipient's opens; a leaked marked copy leads \<open>attribute\<close>
  and the matching job to its recipient; a DNS beacon reaches the log; a fired decoy raises one alert, and
  the monitor misses no entry of a log it keeps up with; an export writes each event once. Termination: every loop is structural or has a measure, except the
  climb to the configuration directory, a \<open>partial_function\<close> whose end is proved for every file system.

  Bounds. Only the JSON reader runs on fuel, more than twice the length of the text; \<open>json_fuel\<close> shows
  that more fuel never changes what it returns. Sizes that the formats limit (32-bit length fields, the largest manifest) appear as hypotheses where they
  are needed; counters and words keep their width in \<open>Sha256\<close>, \<open>Md5\<close> and the container's header.

  What modelling showed. The lemmas named in the findings prove, on the model of the code, among others:
  a register request that commits before a failing log append, tokens taken over by a later
  registration, limits of 0 that are dropped, texts whose length keeps layer L1 from being written or read
  at all, a monitor that skips log entries after a failed request and handles those
  twice that come between its two requests, a file taken over by a registration that overlaps with
  another, two canonical forms that differ beyond
  the basic plane, a look-up of the command line under a layer nobody registers, and a key import that
  leaves its directory.
\<close>

text \<open>
  Not modelled, and why. Third-party code is a parameter, as said above: the primitives, SQLite beyond
  the statements used, FastAPI's routing and validation of bodies, HTTP clients, DNS packets, the parsers
  of PDF, DOCX and images, the cosine transform and the perceptual hash of images, ASN.1 of timestamps.
  Left out as mere input and output: argument parsing, logging, console tables and window layout, the
  command \<open>registry start\<close> of the second command line, the diagnostics texts of \<open>recover_marks_v2\<close>.
  \<open>bench_usenix.py\<close>, \<open>examples/\<close>, \<open>tools/\<close>, \<open>scripts/\<close> and the tests are no part of the running system;
  the Rust port and the Outlook add-in are other programs. Locks make the operations they guard one step.
  Interleaving is modelled for the open counter (\<open>Policy\<close>), for registrations (\<open>RegistryRace\<close>) and for the
  log that grows under the monitor (\<open>Feed\<close>); elsewhere requests are handled one after another.
  Symbolic links and permissions of directories are left to the record of the operating system.
\<close>

end
